(* ===== verification/Prelude.thy ===== *)
theory Prelude
  imports Main
begin

text \<open>
  Shared ground of the development: the named collections of rewrite rules, the
  tables of the store (lists of rows with a key, in insertion order), the outcome
  type of a transaction, and the generic step machine whose invariants the
  components instantiate.

  A table is a list because the code scans tables in an order (\<open>ORDER BY id\<close>,
  \<open>ORDER BY created_at\<close>) and because every scan has to compute. The four table
  operations are the SQL statements of the store: \<open>SELECT ... WHERE id=?\<close>
  (\<open>tbl_get\<close>), \<open>UPDATE ... WHERE id=?\<close> (\<open>tbl_upd\<close>), \<open>DELETE ... WHERE id=?\<close>
  (\<open>tbl_del\<close>) and \<open>INSERT ... ON CONFLICT(id) DO UPDATE\<close> (\<open>tbl_upsert\<close>).
\<close>

named_theorems tbl_simps "rewrite rules for the table operations"
named_theorems step_simps "unfolding rules of the step functions"

subsection \<open>Exceptions and transactions\<close>

text \<open>
  The exceptions the modelled code raises. A transaction that raises is rolled
  back, so a result \<open>Inl e\<close> carries no state: the caller goes on with the state
  it had. \<open>TypeErr\<close> and \<open>AttributeErr\<close> are the errors of an operation on a value of the
  wrong shape.
\<close>

datatype py_exc =
    KeyErr string
  | ValueErr string
  | RuntimeErr string
  | TypeErr string
  | AttributeErr string
  | LifecycleErr string
  | RecoveryErr string
  | IntegrityErr string
  | RunStartErr string
  | IdempotencyConflict string
  | JobLeaseLost
  | JobCancelled
  | JobTimedOut
  | AuthSetupComplete
  | UsernameTaken string
  | InvalidCursor
  | UniqueViolation
  | NetworkErr string

text \<open>Going on after a call that may raise, and after a check.\<close>

definition and_then :: "py_exc + 'a \<Rightarrow> ('a \<Rightarrow> py_exc + 'b) \<Rightarrow> py_exc + 'b" where
  "and_then r f = (case r of Inl e \<Rightarrow> Inl e | Inr x \<Rightarrow> f x)"

definition unless :: "py_exc option \<Rightarrow> py_exc + 'b \<Rightarrow> py_exc + 'b" where
  "unless e r = (case e of Some x \<Rightarrow> Inl x | None \<Rightarrow> r)"

lemma and_then_simps [simp]: "and_then (Inl e) f = Inl e" "and_then (Inr x) f = f x"
  by (simp_all add: and_then_def)

lemma and_then_Inr: "and_then r f = Inr y \<longleftrightarrow> (\<exists>x. r = Inr x \<and> f x = Inr y)"
  by (cases r) simp_all

lemma unless_Inr: "unless e r = Inr y \<longleftrightarrow> e = None \<and> r = Inr y"
  by (simp add: unless_def split: option.splits)

lemma unless_None [simp]: "unless None r = r"
  by (simp add: unless_def)

subsection \<open>Tables\<close>

definition tbl_get :: "('r \<Rightarrow> 'k) \<Rightarrow> 'k \<Rightarrow> 'r list \<Rightarrow> 'r option" where
  "tbl_get key k rows = find (\<lambda>r. key r = k) rows"

definition tbl_upd :: "('r \<Rightarrow> 'k) \<Rightarrow> 'k \<Rightarrow> ('r \<Rightarrow> 'r) \<Rightarrow> 'r list \<Rightarrow> 'r list" where
  "tbl_upd key k f rows = map (\<lambda>r. if key r = k then f r else r) rows"

definition tbl_del :: "('r \<Rightarrow> 'k) \<Rightarrow> 'k \<Rightarrow> 'r list \<Rightarrow> 'r list" where
  "tbl_del key k rows = filter (\<lambda>r. key r \<noteq> k) rows"

definition tbl_upsert :: "('r \<Rightarrow> 'k) \<Rightarrow> 'r \<Rightarrow> ('r \<Rightarrow> 'r) \<Rightarrow> 'r list \<Rightarrow> 'r list" where
  "tbl_upsert key r f rows =
     (if tbl_get key (key r) rows = None then rows @ [r] else tbl_upd key (key r) f rows)"

lemma tbl_get_Nil [simp]: "tbl_get key k [] = None"
  by (simp add: tbl_get_def)

lemma tbl_get_Cons [simp]:
  "tbl_get key k (r # rows) = (if key r = k then Some r else tbl_get key k rows)"
  by (simp add: tbl_get_def)

lemma tbl_get_SomeD: "tbl_get key k rows = Some r \<Longrightarrow> r \<in> set rows \<and> key r = k"
  by (induction rows) (auto split: if_splits)

lemma tbl_get_key: "tbl_get key k rows = Some r \<Longrightarrow> key r = k"
  by (auto dest: tbl_get_SomeD)

lemma tbl_get_None_iff [tbl_simps]: "tbl_get key k rows = None \<longleftrightarrow> (\<forall>r \<in> set rows. key r \<noteq> k)"
  by (induction rows) auto

lemma tbl_get_append:
  "tbl_get key k (xs @ ys) = (case tbl_get key k xs of Some r \<Rightarrow> Some r | None \<Rightarrow> tbl_get key k ys)"
  by (induction xs) auto

lemma tbl_get_upd:
  assumes "\<And>r. key (f r) = key r"
  shows "tbl_get key k (tbl_upd key k' f rows) =
         (if k = k' then map_option f (tbl_get key k rows) else tbl_get key k rows)"
  using assms by (induction rows) (auto simp: tbl_upd_def)

lemma tbl_get_upd_same [tbl_simps]:
  "(\<And>r. key (f r) = key r) \<Longrightarrow>
   tbl_get key k (tbl_upd key k f rows) = map_option f (tbl_get key k rows)"
  by (simp add: tbl_get_upd)

lemma tbl_get_upd_other [tbl_simps]:
  "(\<And>r. key (f r) = key r) \<Longrightarrow> k \<noteq> k' \<Longrightarrow>
   tbl_get key k (tbl_upd key k' f rows) = tbl_get key k rows"
  by (simp add: tbl_get_upd)

lemma tbl_get_del: "tbl_get key k (tbl_del key k' rows) = (if k = k' then None else tbl_get key k rows)"
  by (induction rows) (auto simp: tbl_del_def)

lemma tbl_get_upsert:
  assumes "\<And>x. key (f x) = key x"
  shows "tbl_get key k (tbl_upsert key r f rows) =
         (if k = key r then Some (case tbl_get key k rows of None \<Rightarrow> r | Some x \<Rightarrow> f x)
          else tbl_get key k rows)"
  using assms
  by (auto simp: tbl_upsert_def tbl_get_append tbl_get_upd split: option.splits)

lemma keys_upd [simp]: "(\<And>r. key (f r) = key r) \<Longrightarrow> map key (tbl_upd key k f rows) = map key rows"
  by (simp add: tbl_upd_def)

lemma distinct_upd [simp]:
  "(\<And>r. key (f r) = key r) \<Longrightarrow> distinct (map key (tbl_upd key k f rows)) = distinct (map key rows)"
  by simp

lemma distinct_upsert:
  assumes "\<And>x. key (f x) = key x" and "distinct (map key rows)"
  shows "distinct (map key (tbl_upsert key r f rows))"
  using assms by (auto simp: tbl_upsert_def tbl_get_None_iff)

lemma distinct_del: "distinct (map key rows) \<Longrightarrow> distinct (map key (tbl_del key k rows))"
  by (simp add: tbl_del_def distinct_map_filter)

lemma set_tbl_upd: "set (tbl_upd key k f rows) = (\<lambda>r. if key r = k then f r else r) ` set rows"
  by (simp add: tbl_upd_def)

lemma length_tbl_upd [simp]: "length (tbl_upd key k f rows) = length rows"
  by (simp add: tbl_upd_def)

lemma tbl_get_unique:
  "distinct (map key rows) \<Longrightarrow> r \<in> set rows \<Longrightarrow> tbl_get key (key r) rows = Some r"
  by (induction rows) auto

lemma find_SomeD: "find P xs = Some x \<Longrightarrow> x \<in> set xs \<and> P x"
  by (induction xs) (auto split: if_splits)

subsection \<open>Loops of writes\<close>

text \<open>A loop whose body may raise: the first exception ends it.\<close>

fun fold_result :: "('a \<Rightarrow> 's \<Rightarrow> py_exc + 's) \<Rightarrow> 'a list \<Rightarrow> 's \<Rightarrow> py_exc + 's" where
  "fold_result f [] s = Inr s"
| "fold_result f (x # xs) s = (case f x s of Inl e \<Rightarrow> Inl e | Inr s' \<Rightarrow> fold_result f xs s')"

lemma fold_result_invariant:
  assumes "fold_result f xs s = Inr s'" and "P s"
    and "\<And>x s s'. x \<in> set xs \<Longrightarrow> P s \<Longrightarrow> f x s = Inr s' \<Longrightarrow> P s'"
  shows "P s'"
  using assms
proof (induction xs arbitrary: s)
  case Nil
  then show ?case by simp
next
  case (Cons x xs)
  from Cons.prems(1) obtain s1 where s1: "f x s = Inr s1" "fold_result f xs s1 = Inr s'"
    by (auto split: sum.splits)
  have "P s1" by (rule Cons.prems(3) [OF _ Cons.prems(2) s1(1)]) simp
  from Cons.IH [OF s1(2) this] Cons.prems(3) show ?case by (meson list.set_intros(2))
qed

text \<open>Dropping or adding the second part of a result.\<close>

lemma map_sum_fst_Inr [simp]: "map_sum id fst x = Inr d \<longleftrightarrow> (\<exists>c. x = Inr (d, c))"
  by (cases x) auto

lemma map_sum_pair_Inr [simp]: "map_sum id (\<lambda>d. (d, s)) x = Inr (d', s') \<longleftrightarrow> x = Inr d' \<and> s' = s"
  by (cases x) auto

lemma map_sum_Inr_iff: "map_sum id f x = Inr y \<longleftrightarrow> (\<exists>z. x = Inr z \<and> y = f z)"
  by (cases x) auto

subsection \<open>Step machines\<close>

text \<open>
  A component is driven by a sequence of events. What every event keeps, every run
  keeps; what every event moves in one direction, every run moves in that
  direction. Each component interprets this locale with its own step function.
\<close>

locale step_machine =
  fixes step :: "'s \<Rightarrow> 'e \<Rightarrow> 's"
    and inv :: "'s \<Rightarrow> bool"
    and rank :: "'s \<Rightarrow> int"
  assumes step_inv: "inv s \<Longrightarrow> inv (step s e)"
    and step_rank: "inv s \<Longrightarrow> rank s \<le> rank (step s e)"
begin

lemma run_inv: "inv s \<Longrightarrow> inv (foldl step s es)"
  by (induction es arbitrary: s) (auto simp: step_inv)

lemma run_rank: "inv s \<Longrightarrow> rank s \<le> rank (foldl step s es)"
proof (induction es arbitrary: s)
  case Nil
  then show ?case by simp
next
  case (Cons e es)
  from Cons.prems have "rank s \<le> rank (step s e)" by (rule step_rank)
  also from Cons.prems have "\<dots> \<le> rank (foldl step (step s e) es)"
    by (intro Cons.IH step_inv)
  finally show ?case by simp
qed

end

end
