(* ===== verification/Model_Budget.thy ===== *)
theory Model_Budget
  imports Prelude
begin

text \<open>
  The token and call budget of one model task (\<open>model_budget.py\<close>): the limits of
  a model, the input budget they leave, and the \<open>TaskBudget\<close> object with its
  reservations. The object is mutated in place, so an operation returns the new
  object beside its result even where it raises. Times are read in microseconds.
\<close>

record model_limits =
  context_tokens :: int
  max_input_tokens :: int
  max_output_tokens :: int
  reasoning_tokens :: int

text \<open>The configuration dict of \<open>from_config\<close>: absent keys are \<open>None\<close>.\<close>

record limits_config =
  cfg_context :: "int option"
  cfg_max_input :: "int option"
  cfg_max_output :: "int option"
  cfg_reasoning :: "int option"

definition default_or :: "'a option \<Rightarrow> 'a \<Rightarrow> 'a" where
  "default_or v d = (case v of None \<Rightarrow> d | Some x \<Rightarrow> x)"

definition from_config :: "limits_config \<Rightarrow> model_limits" where
  "from_config c =
     \<lparr>context_tokens = default_or (cfg_context c) 32768,
      max_input_tokens = default_or (cfg_max_input c) (default_or (cfg_context c) 32768),
      max_output_tokens = default_or (cfg_max_output c) 4096,
      reasoning_tokens = default_or (cfg_reasoning c) 0\<rparr>"

text \<open>
  \<open>math.ceil(context_tokens * 0.05)\<close>. The product of an integer below \<open>2^53\<close> and
  the double next to 1/20 rounds to the integer when the exact quotient is one, and
  stays clear of the next integer otherwise, so the ceiling is the exact one.
\<close>

definition safety_margin :: "int \<Rightarrow> int" where
  "safety_margin context = max 256 (- ((- context) div 20))"

definition input_budget :: "model_limits \<Rightarrow> int option \<Rightarrow> int" where
  "input_budget l output_tokens =
     (let out = (case output_tokens of None \<Rightarrow> max_output_tokens l | Some n \<Rightarrow> n)
      in max 0 (min (max_input_tokens l) (context_tokens l - out - reasoning_tokens l)
                - safety_margin (context_tokens l)))"

record reservation =
  res_input :: int
  res_output :: int
  settled :: bool

record task_budget =
  limits :: model_limits
  max_calls :: int
  cap_input :: int
  cap_output :: int
  max_micros :: int
  started :: int
  calls :: int
  input_used :: int
  output_used :: int
  stop_reason :: "string option"

definition new_budget :: "model_limits \<Rightarrow> int \<Rightarrow> int \<Rightarrow> int \<Rightarrow> int \<Rightarrow> int \<Rightarrow> task_budget" where
  "new_budget l n ci co mx now =
     \<lparr>limits = l, max_calls = n, cap_input = ci, cap_output = co, max_micros = mx, started = now,
      calls = 0, input_used = 0, output_used = 0, stop_reason = None\<rparr>"

definition remaining_micros :: "task_budget \<Rightarrow> int \<Rightarrow> int" where
  "remaining_micros b now = max 0 (max_micros b - (now - started b))"

text \<open>\<open>fail\<close> records the reason and raises: \<open>Some code\<close> is the raised code.\<close>

definition budget_fail :: "task_budget \<Rightarrow> string \<Rightarrow> string option \<times> task_budget" where
  "budget_fail b code = (Some code, b\<lparr>stop_reason := Some code\<rparr>)"

definition check_consumption :: "task_budget \<Rightarrow> int \<Rightarrow> string option \<times> task_budget" where
  "check_consumption b now =
     (if remaining_micros b now \<le> 0 then budget_fail b ''MODEL_TIME_BUDGET_EXCEEDED''
      else if input_used b > cap_input b \<or> output_used b > cap_output b
      then budget_fail b ''MODEL_TOKEN_BUDGET_EXCEEDED''
      else (None, b))"

definition check_budget :: "task_budget \<Rightarrow> int \<Rightarrow> string option \<times> task_budget" where
  "check_budget b now =
     (case check_consumption b now of
        (Some e, b') \<Rightarrow> (Some e, b')
      | (None, b') \<Rightarrow>
          if calls b' \<ge> max_calls b' then budget_fail b' ''MODEL_CALL_BUDGET_EXCEEDED'' else (None, b'))"

definition reserve :: "task_budget \<Rightarrow> int \<Rightarrow> int \<Rightarrow> int \<Rightarrow> (string + reservation) \<times> task_budget" where
  "reserve b now i out =
     (case check_budget b now of
        (Some e, b1) \<Rightarrow> (Inl e, b1)
      | (None, b1) \<Rightarrow>
          if out < 1 \<or> out > max_output_tokens (limits b1)
          then (Inl ''MODEL_OUTPUT_BUDGET_EXCEEDED'', snd (budget_fail b1 ''MODEL_OUTPUT_BUDGET_EXCEEDED''))
          else if i < 0 \<or> i > input_budget (limits b1) (Some out)
          then (Inl ''MODEL_CONTEXT_INSUFFICIENT'', snd (budget_fail b1 ''MODEL_CONTEXT_INSUFFICIENT''))
          else if input_used b1 + i > cap_input b1 \<or> output_used b1 + out > cap_output b1
          then (Inl ''MODEL_TOKEN_BUDGET_EXCEEDED'', snd (budget_fail b1 ''MODEL_TOKEN_BUDGET_EXCEEDED''))
          else (Inr \<lparr>res_input = i, res_output = out, settled = False\<rparr>,
                b1\<lparr>calls := calls b1 + 1, input_used := input_used b1 + i,
                   output_used := output_used b1 + out\<rparr>))"

text \<open>\<open>settle\<close> replaces the reserved amounts by the reported ones, once.\<close>

definition settle :: "task_budget \<Rightarrow> reservation \<Rightarrow> int option \<Rightarrow> int option \<Rightarrow> task_budget \<times> reservation" where
  "settle b r i out =
     (if settled r then (b, r)
      else
        (let b1 = (case i of Some n \<Rightarrow> if n \<ge> 0 then b\<lparr>input_used := input_used b + (n - res_input r)\<rparr> else b
                   | None \<Rightarrow> b);
             b2 = (case out of Some n \<Rightarrow> if n \<ge> 0 then b1\<lparr>output_used := output_used b1 + (n - res_output r)\<rparr> else b1
                   | None \<Rightarrow> b1)
         in (b2, r\<lparr>settled := True\<rparr>)))"

subsection \<open>Single operations\<close>

lemma check_budget_cases:
  "check_budget b now = (e, b') \<Longrightarrow> b' = b\<lparr>stop_reason := (case e of None \<Rightarrow> stop_reason b | Some c \<Rightarrow> Some c)\<rparr>"
  by (auto simp: check_budget_def check_consumption_def budget_fail_def split: if_splits)

lemma check_budget_None:
  "check_budget b now = (None, b') \<longleftrightarrow>
     b' = b \<and> remaining_micros b now > 0 \<and> input_used b \<le> cap_input b \<and> output_used b \<le> cap_output b \<and>
     calls b < max_calls b"
  by (auto simp: check_budget_def check_consumption_def budget_fail_def split: if_splits)

lemma reserve_Inr:
  "reserve b now i out = (Inr r, b') \<longleftrightarrow>
     remaining_micros b now > 0 \<and> input_used b \<le> cap_input b \<and> output_used b \<le> cap_output b \<and>
     calls b < max_calls b \<and>
     1 \<le> out \<and> out \<le> max_output_tokens (limits b) \<and> 0 \<le> i \<and> i \<le> input_budget (limits b) (Some out) \<and>
     input_used b + i \<le> cap_input b \<and> output_used b + out \<le> cap_output b \<and>
     r = \<lparr>res_input = i, res_output = out, settled = False\<rparr> \<and>
     b' = b\<lparr>calls := calls b + 1, input_used := input_used b + i, output_used := output_used b + out\<rparr>"
proof (cases "check_budget b now")
  case (Pair e b1)
  show ?thesis
  proof (cases e)
    case None
    with Pair have "b1 = b \<and> remaining_micros b now > 0 \<and> input_used b \<le> cap_input b \<and>
        output_used b \<le> cap_output b \<and> calls b < max_calls b"
      using check_budget_None [of b now b1] by simp
    with None Pair show ?thesis
      by (auto simp: reserve_def)
  next
    case (Some c)
    with Pair have "\<not> (remaining_micros b now > 0 \<and> input_used b \<le> cap_input b \<and>
        output_used b \<le> cap_output b \<and> calls b < max_calls b)"
      using check_budget_None [of b now b] by auto
    with Some Pair show ?thesis by (auto simp: reserve_def)
  qed
qed

lemma reserve_Inl:
  "reserve b now i out = (Inl c, b') \<Longrightarrow> b' = b\<lparr>stop_reason := Some c\<rparr>"
  by (auto simp: reserve_def budget_fail_def dest!: check_budget_cases split: prod.splits option.splits if_splits)

text \<open>
  C23. What a granted reservation guarantees: the task had a call, time and tokens left and stays
  within its token limits, the output is at least one token and within the model's output limit,
  and a request with input fits the model: input, output, reasoning tokens and the safety margin
  together stay within the context window, input and margin within the input limit. A request
  without input tokens is granted even when its output alone would not fit, because the input
  budget is clamped at zero.
\<close>

theorem reserve_fits_context:
  assumes "reserve b now i out = (Inr r, b')"
  shows "calls b < max_calls b \<and> 0 < remaining_micros b now \<and> calls b' = calls b + 1 \<and>
    input_used b' = input_used b + i \<and> input_used b' \<le> cap_input b \<and>
    output_used b' = output_used b + out \<and> output_used b' \<le> cap_output b \<and>
    0 \<le> i \<and> 1 \<le> out \<and> out \<le> max_output_tokens (limits b) \<and>
    (i \<noteq> 0 \<longrightarrow>
       i + out + reasoning_tokens (limits b) + safety_margin (context_tokens (limits b)) \<le> context_tokens (limits b) \<and>
       i + safety_margin (context_tokens (limits b)) \<le> max_input_tokens (limits b))"
proof -
  have g: "i \<le> input_budget (limits b) (Some out)" "0 \<le> i" "1 \<le> out" "out \<le> max_output_tokens (limits b)"
    "calls b < max_calls b" "0 < remaining_micros b now" "input_used b + i \<le> cap_input b" "output_used b + out \<le> cap_output b"
    "b' = b\<lparr>calls := calls b + 1, input_used := input_used b + i, output_used := output_used b + out\<rparr>"
    using assms by (auto simp: reserve_Inr)
  have "i + out + reasoning_tokens (limits b) + safety_margin (context_tokens (limits b)) \<le> context_tokens (limits b) \<and>
       i + safety_margin (context_tokens (limits b)) \<le> max_input_tokens (limits b)" if "i \<noteq> 0"
    using g(1,2) that by (simp add: input_budget_def Let_def max_def min_def split: if_splits)
  with g show ?thesis by simp
qed

definition example_limits :: model_limits where
  "example_limits = \<lparr>context_tokens = 32768, max_input_tokens = 32768, max_output_tokens = 4096, reasoning_tokens = 0\<rparr>"

theorem reserve_fits_context_witness:
  "1000 + 2000 + reasoning_tokens (limits (new_budget example_limits 16 120000 16000 240000000 0))
     + safety_margin (context_tokens (limits (new_budget example_limits 16 120000 16000 240000000 0)))
     \<le> context_tokens (limits (new_budget example_limits 16 120000 16000 240000000 0))"
proof -
  have "\<exists>r b'. reserve (new_budget example_limits 16 120000 16000 240000000 0) 5 1000 2000 = (Inr r, b')"
    by (simp add: reserve_Inr new_budget_def remaining_micros_def example_limits_def input_budget_def
        safety_margin_def)
  then show ?thesis using reserve_fits_context [where i = 1000 and out = 2000] by force
qed

lemma settle_settled [simp]: "settled (snd (settle b r i out))"
  by (simp add: settle_def Let_def)

lemma settle_twice:
  "settle b r i out = (b1, r1) \<Longrightarrow> settle b1 r1 j out' = (b1, r1)"
  using settle_settled [of b r i out] by (simp add: settle_def [of b1])

subsection \<open>A task: reservations and settlements in any order\<close>

text \<open>
  A session is the budget with the reservations it has granted, oldest last, and the
  amounts each of them counts for now.
\<close>

datatype budget_event =
    Reserve int int int
  | Settle nat "int option" "int option"

type_synonym session = "task_budget \<times> (reservation \<times> int \<times> int) list"

definition reported :: "int option \<Rightarrow> int \<Rightarrow> int" where
  "reported v d = (case v of Some n \<Rightarrow> if n \<ge> 0 then n else d | None \<Rightarrow> d)"

definition budget_step :: "session \<Rightarrow> budget_event \<Rightarrow> session" where
  "budget_step s ev =
     (case ev of
        Reserve now i out \<Rightarrow>
          (case reserve (fst s) now i out of
             (Inl _, b) \<Rightarrow> (b, snd s)
           | (Inr r, b) \<Rightarrow> (b, snd s @ [(r, i, out)]))
      | Settle k i out \<Rightarrow>
          (if k < length (snd s) then
             (let (r, ci, co) = snd s ! k; (b, r') = settle (fst s) r i out
              in (b, (snd s)[k := (r', if settled r then ci else reported i ci,
                                       if settled r then co else reported out co)]))
           else s))"

definition ledger_input :: "session \<Rightarrow> int" where
  "ledger_input s = sum_list (map (\<lambda>x. fst (snd x)) (snd s))"

definition ledger_output :: "session \<Rightarrow> int" where
  "ledger_output s = sum_list (map (\<lambda>x. snd (snd x)) (snd s))"

text \<open>
  The invariant: the object's counters are the ledger's sums, every call is one
  granted reservation, no more calls than allowed, and an open reservation counts
  for exactly what it reserved.
\<close>

definition budget_inv :: "session \<Rightarrow> bool" where
  "budget_inv s \<longleftrightarrow>
     input_used (fst s) = ledger_input s \<and> output_used (fst s) = ledger_output s \<and>
     calls (fst s) = int (length (snd s)) \<and> calls (fst s) \<le> max 0 (max_calls (fst s)) \<and>
     (\<forall>x \<in> set (snd s). \<not> settled (fst x) \<longrightarrow>
        fst (snd x) = res_input (fst x) \<and> snd (snd x) = res_output (fst x)) \<and>
     (\<forall>x \<in> set (snd s). 0 \<le> fst (snd x) \<and> 0 \<le> snd (snd x))"

lemma sum_list_update_int:
  "k < length xs \<Longrightarrow> sum_list (xs[k := (v::int)]) = sum_list xs + v - xs ! k"
  by (induction xs arbitrary: k) (auto split: nat.split)

lemma settle_counts:
  assumes "settle b r i out = (b', r')" and "\<not> settled r"
  shows "input_used b' = input_used b + reported i (res_input r) - res_input r"
    and "output_used b' = output_used b + reported out (res_output r) - res_output r"
    and "calls b' = calls b" and "max_calls b' = max_calls b" and "settled r'"
  using assms by (auto simp: settle_def reported_def Let_def split: option.splits if_splits)

lemma budget_step_reserve_cases:
  obtains (refused) c where
      "budget_step s (Reserve now i out) = ((fst s)\<lparr>stop_reason := Some c\<rparr>, snd s)"
  | (granted)
      "budget_step s (Reserve now i out) =
         ((fst s)\<lparr>calls := calls (fst s) + 1, input_used := input_used (fst s) + i,
                  output_used := output_used (fst s) + out\<rparr>,
          snd s @ [(\<lparr>res_input = i, res_output = out, settled = False\<rparr>, i, out)])"
      "calls (fst s) < max_calls (fst s)" "0 \<le> i" "1 \<le> out"
proof (cases "reserve (fst s) now i out")
  case (Pair res b)
  show ?thesis
  proof (cases res)
    case (Inl c)
    with Pair have "b = (fst s)\<lparr>stop_reason := Some c\<rparr>" by (simp add: reserve_Inl)
    with Inl Pair show ?thesis by (intro refused [of c]) (simp add: budget_step_def)
  next
    case (Inr r)
    with Pair have "reserve (fst s) now i out = (Inr r, b)" by simp
    from this [unfolded reserve_Inr] Inr Pair show ?thesis
      by (intro granted) (simp_all add: budget_step_def)
  qed
qed

lemma budget_step_reserve:
  assumes "budget_inv s"
  shows "budget_inv (budget_step s (Reserve now i out))"
proof (cases rule: budget_step_reserve_cases [of s now i out])
  case (refused c)
  with assms show ?thesis by (simp add: budget_inv_def ledger_input_def ledger_output_def)
next
  case granted
  with assms show ?thesis by (auto simp: budget_inv_def ledger_input_def ledger_output_def)
qed

lemma budget_step_settle:
  assumes inv: "budget_inv s"
  shows "budget_inv (budget_step s (Settle k i out))"
proof (cases "k < length (snd s)")
  case True
  obtain r ci co where k: "snd s ! k = (r, ci, co)" by (metis prod_cases3)
  then have mem: "(r, ci, co) \<in> set (snd s)" using True by (metis nth_mem)
  obtain b r' where st: "settle (fst s) r i out = (b, r')" by fastforce
  show ?thesis
  proof (cases "settled r")
    case settled: True
    then have "b = fst s" "r' = r" using st by (simp_all add: settle_def)
    with settled True k st have "budget_step s (Settle k i out) = s"
      by (cases s) (simp add: budget_step_def list_update_same_conv)
    with inv show ?thesis by simp
  next
    case False
    have open_counts: "ci = res_input r" "co = res_output r" "0 \<le> ci" "0 \<le> co"
      using inv mem False by (auto simp: budget_inv_def)
    have upd: "budget_step s (Settle k i out) =
        (b, (snd s)[k := (r', reported i ci, reported out co)])"
      using True k st False by (simp add: budget_step_def)
    have nonneg: "0 \<le> reported i ci" "0 \<le> reported out co"
      using open_counts by (auto simp: reported_def split: option.splits)
    show ?thesis
      unfolding upd
      using inv settle_counts [OF st False] True k open_counts nonneg
      by (auto simp: budget_inv_def ledger_input_def ledger_output_def map_update sum_list_update_int
          dest!: set_update_subset_insert [THEN subsetD])
  qed
next
  case False
  with inv show ?thesis by (simp add: budget_step_def)
qed

lemma budget_step_inv: "budget_inv s \<Longrightarrow> budget_inv (budget_step s ev)"
  by (cases ev) (simp_all add: budget_step_reserve budget_step_settle)

lemma budget_step_calls: "calls (fst s) \<le> calls (fst (budget_step s ev))"
proof (cases ev)
  case (Reserve now i out)
  then show ?thesis
    by (cases rule: budget_step_reserve_cases [of s now i out]) simp_all
next
  case (Settle k i out)
  then show ?thesis
    by (auto simp: budget_step_def settle_def Let_def split: prod.splits option.splits)
qed

lemma budget_step_max_calls: "max_calls (fst (budget_step s ev)) = max_calls (fst s)"
proof (cases ev)
  case (Reserve now i out)
  then show ?thesis
    by (cases rule: budget_step_reserve_cases [of s now i out]) simp_all
next
  case (Settle k i out)
  then show ?thesis
    by (auto simp: budget_step_def settle_def Let_def split: prod.splits option.splits)
qed

interpretation budget_machine: step_machine budget_step budget_inv "\<lambda>s. calls (fst s)"
  by unfold_locales (simp_all add: budget_step_inv budget_step_calls)

definition budget_session :: "model_limits \<Rightarrow> int \<Rightarrow> int \<Rightarrow> int \<Rightarrow> int \<Rightarrow> int \<Rightarrow> budget_event list \<Rightarrow> session" where
  "budget_session l n ci co mx now evs = foldl budget_step (new_budget l n ci co mx now, []) evs"

lemma budget_run_max_calls: "max_calls (fst (foldl budget_step s evs)) = max_calls (fst s)"
  by (induction evs arbitrary: s) (simp_all add: budget_step_max_calls)

lemma new_budget_inv: "budget_inv (new_budget l n ci co mx now, [])"
  by (simp add: budget_inv_def new_budget_def ledger_input_def ledger_output_def)

text \<open>
  Whatever the order of reservations and settlements, the budget object counts what
  the granted reservations stand for (reserved while open, reported once settled),
  and no more calls are granted than the task allows.
\<close>

lemma budget_accounting:
  "input_used (fst (budget_session l n ci co mx now evs)) = ledger_input (budget_session l n ci co mx now evs) \<and>
   output_used (fst (budget_session l n ci co mx now evs)) = ledger_output (budget_session l n ci co mx now evs) \<and>
   int (length (snd (budget_session l n ci co mx now evs))) \<le> max 0 n"
proof -
  let ?s = "budget_session l n ci co mx now evs"
  have inv: "budget_inv ?s"
    unfolding budget_session_def by (rule budget_machine.run_inv [OF new_budget_inv])
  have "max_calls (fst ?s) = n"
    unfolding budget_session_def by (simp add: budget_run_max_calls new_budget_def)
  with inv show ?thesis by (auto simp: budget_inv_def)
qed

end
