(* ===== verification/Iso_Time.thy ===== *)
theory Iso_Time
  imports Prelude "HOL-Library.Char_ord" "HOL-Library.List_Lexorder"
begin

text \<open>
  Timestamps of the store. \<open>utc_now\<close> (store.py) writes
  \<open>datetime.now(UTC).isoformat()\<close> with \<open>+00:00\<close> replaced by \<open>Z\<close>, and SQL
  statements and Python code compare the resulting texts. Python's \<open>isoformat\<close>
  leaves the fraction out when the microsecond is 0, so the text order is not the
  time order. This theory renders datetimes to text as Python does, and proves
  that the text order is the order of \<open>iso_key\<close> on instants (\<open>isoformat_order\<close>):
  the rest of the development compares instants by \<open>tle\<close> and \<open>tlt\<close>, which are
  defined from \<open>iso_key\<close>, wherever the code compares timestamp texts, and by the
  order of the integers wherever the code compares \<open>datetime\<close> values.
\<close>

subsection \<open>Datetimes of the Python standard library\<close>

record datetime =
  dt_year :: nat
  dt_month :: nat
  dt_day :: nat
  dt_hour :: nat
  dt_minute :: nat
  dt_second :: nat
  dt_micro :: nat

definition is_leap :: "nat \<Rightarrow> bool" where
  "is_leap y \<longleftrightarrow> y mod 4 = 0 \<and> (y mod 100 \<noteq> 0 \<or> y mod 400 = 0)"

definition days_in_month :: "nat \<Rightarrow> nat \<Rightarrow> nat" where
  "days_in_month y m =
     (if m = 2 then (if is_leap y then 29 else 28)
      else if m \<in> {4, 6, 9, 11} then 30 else 31)"

definition wf_datetime :: "datetime \<Rightarrow> bool" where
  "wf_datetime d \<longleftrightarrow>
     1 \<le> dt_year d \<and> dt_year d \<le> 9999 \<and> 1 \<le> dt_month d \<and> dt_month d \<le> 12 \<and>
     1 \<le> dt_day d \<and> dt_day d \<le> days_in_month (dt_year d) (dt_month d) \<and>
     dt_hour d < 24 \<and> dt_minute d < 60 \<and> dt_second d < 60 \<and> dt_micro d < 1000000"

text \<open>The proleptic ordinal of a date, as \<open>datetime.toordinal\<close> computes it.\<close>

definition days_before_year :: "nat \<Rightarrow> int" where
  "days_before_year y =
     (let p = int y - 1 in p * 365 + p div 4 - p div 100 + p div 400)"

fun days_before_month :: "nat \<Rightarrow> nat \<Rightarrow> nat" where
  "days_before_month y 0 = 0"
| "days_before_month y (Suc m) = (if m = 0 then 0 else days_before_month y m + days_in_month y m)"

definition toordinal :: "datetime \<Rightarrow> int" where
  "toordinal d =
     days_before_year (dt_year d) + int (days_before_month (dt_year d) (dt_month d)) + int (dt_day d)"

definition whole_seconds :: "datetime \<Rightarrow> int" where
  "whole_seconds d =
     ((toordinal d * 24 + int (dt_hour d)) * 60 + int (dt_minute d)) * 60 + int (dt_second d)"

text \<open>The instant of a datetime, in microseconds.\<close>

type_synonym ts = int

definition instant :: "datetime \<Rightarrow> ts" where
  "instant d = whole_seconds d * 1000000 + int (dt_micro d)"

subsection \<open>The text of a timestamp\<close>

definition digit_char :: "nat \<Rightarrow> char" where
  "digit_char n = char_of (48 + n)"

fun pad :: "nat \<Rightarrow> nat \<Rightarrow> string" where
  "pad 0 n = []"
| "pad (Suc k) n = pad k (n div 10) @ [digit_char (n mod 10)]"

definition fraction_text :: "nat \<Rightarrow> string" where
  "fraction_text us = (if us = 0 then ''Z'' else CHR ''.'' # pad 6 us @ ''Z'')"

definition utc_text :: "datetime \<Rightarrow> string" where
  "utc_text d =
     pad 4 (dt_year d) @ CHR ''-'' # pad 2 (dt_month d) @ CHR ''-'' # pad 2 (dt_day d) @
     CHR ''T'' # pad 2 (dt_hour d) @ CHR '':'' # pad 2 (dt_minute d) @
     CHR '':'' # pad 2 (dt_second d) @ fraction_text (dt_micro d)"

subsection \<open>The order of the texts, on instants\<close>

text \<open>
  A whole second sorts after every fraction of the same second and before the next
  second: \<open>'.'\<close> precedes \<open>'Z'\<close>.
\<close>

definition iso_key :: "ts \<Rightarrow> int" where
  "iso_key t = (if t mod 1000000 = 0 then 2 * t + 1999999 else 2 * t)"

definition tle :: "ts \<Rightarrow> ts \<Rightarrow> bool" where
  "tle a b \<longleftrightarrow> iso_key a \<le> iso_key b"

definition tlt :: "ts \<Rightarrow> ts \<Rightarrow> bool" where
  "tlt a b \<longleftrightarrow> iso_key a < iso_key b"

lemma tle_refl [simp]: "tle a a"
  by (simp add: tle_def)

lemma tlt_irrefl [simp]: "\<not> tlt a a"
  by (simp add: tlt_def)

lemma tle_trans: "tle a b \<Longrightarrow> tle b c \<Longrightarrow> tle a c"
  by (simp add: tle_def)

lemma not_tle: "\<not> tle a b \<longleftrightarrow> tlt b a"
  by (auto simp: tle_def tlt_def)

lemma not_tlt: "\<not> tlt a b \<longleftrightarrow> tle b a"
  by (auto simp: tle_def tlt_def)

lemma tlt_tle_trans: "tlt a b \<Longrightarrow> tle b c \<Longrightarrow> tlt a c"
  by (simp add: tlt_def tle_def)

lemma tle_tlt_trans: "tle a b \<Longrightarrow> tlt b c \<Longrightarrow> tlt a c"
  by (simp add: tlt_def tle_def)

lemma tlt_imp_tle: "tlt a b \<Longrightarrow> tle a b"
  by (simp add: tlt_def tle_def)

lemma tle_total: "tle a b \<or> tle b a"
  by (auto simp: tle_def)

text \<open>The text order errs by less than one second, and only within one second.\<close>

lemma iso_key_bounds:
  shows iso_key_lower: "2000000 * (a div 1000000) + 2 \<le> iso_key a"
    and iso_key_upper: "iso_key a \<le> 2000000 * (a div 1000000) + 1999999"
proof -
  obtain q r where a: "a = 1000000 * q + r" and r: "0 \<le> r" "r < 1000000"
    and q: "a div 1000000 = q" and m: "a mod 1000000 = r"
    by (metis mult_div_mod_eq pos_mod_bound pos_mod_sign zero_less_numeral)
  have "iso_key a = (if r = 0 then 2 * a + 1999999 else 2 * a)"
    by (simp only: iso_key_def m)
  then show "2000000 * (a div 1000000) + 2 \<le> iso_key a"
    and "iso_key a \<le> 2000000 * (a div 1000000) + 1999999"
    using a r unfolding q by (simp_all split: if_splits)
qed

lemma iso_key_second: "a div 1000000 < b div 1000000 \<Longrightarrow> iso_key a < iso_key b"
  using iso_key_upper [of a] iso_key_lower [of b] by linarith

lemma second_later: "a + 1000000 \<le> b \<Longrightarrow> a div 1000000 < b div (1000000::int)"
proof -
  assume "a + 1000000 \<le> b"
  then have "(a + 1000000) div 1000000 \<le> b div 1000000" by (intro zdiv_mono1) simp_all
  then show ?thesis by simp
qed

lemma tle_second: "a + 1000000 \<le> b \<Longrightarrow> tle a b"
proof -
  assume "a + 1000000 \<le> b"
  then have "a div 1000000 < b div 1000000" by (rule second_later)
  then show ?thesis by (simp add: tle_def iso_key_second less_imp_le)
qed

lemma tlt_second: "a + 1000000 \<le> b \<Longrightarrow> tlt a b"
proof -
  assume "a + 1000000 \<le> b"
  then have "a div 1000000 < b div 1000000" by (rule second_later)
  then show ?thesis by (simp add: tlt_def iso_key_second)
qed

lemma tle_within_second: "tle a b \<Longrightarrow> a < b + 1000000"
  using tlt_second [of b a] not_tle [of a b] by linarith

lemma tle_iff_fractional:
  assumes "a mod 1000000 \<noteq> 0" and "b mod 1000000 \<noteq> 0"
  shows "tle a b \<longleftrightarrow> a \<le> b" and "tlt a b \<longleftrightarrow> a < b"
  using assms by (auto simp: tle_def tlt_def iso_key_def)

lemma iso_key_inj: "iso_key a = iso_key b \<Longrightarrow> a = b"
proof (rule ccontr)
  assume eq: "iso_key a = iso_key b" and neq: "a \<noteq> b"
  have secs: "a div 1000000 = b div 1000000"
    using iso_key_second [of a b] iso_key_second [of b a] eq by linarith
  have parity: "odd (iso_key x) \<longleftrightarrow> x mod 1000000 = 0" for x
    by (simp add: iso_key_def)
  then have "a mod 1000000 = 0 \<longleftrightarrow> b mod 1000000 = 0"
    using eq by metis
  with eq have "a = b"
    by (auto simp: iso_key_def split: if_splits)
  with neq show False ..
qed

lemma tle_antisym: "tle a b \<Longrightarrow> tle b a \<Longrightarrow> a = b"
  by (simp add: tle_def iso_key_inj)


subsection \<open>Lexicographic order of fixed-width digits\<close>

lemma length_pad [simp]: "length (pad k n) = k"
  by (induction k n rule: pad.induct) auto

lemma append_less_append:
  "length a = length b \<Longrightarrow> (a @ x < b @ y) \<longleftrightarrow> a < b \<or> (a = b \<and> x < (y :: 'a :: linorder list))"
  by (induction a b rule: list_induct2) auto

lemma digit_char_less:
  "m < 10 \<Longrightarrow> n < 10 \<Longrightarrow> (digit_char m < digit_char n) \<longleftrightarrow> m < n"
  by (simp add: digit_char_def less_char_def of_char_of)

lemma digit_char_inject:
  "m < 10 \<Longrightarrow> n < 10 \<Longrightarrow> (digit_char m = digit_char n) \<longleftrightarrow> m = n"
  using digit_char_less [of m n] digit_char_less [of n m] by (cases m n rule: linorder_cases) auto

lemma decimal_split_less:
  "(m::nat) < n \<longleftrightarrow> m div 10 < n div 10 \<or> (m div 10 = n div 10 \<and> m mod 10 < n mod 10)"
proof -
  have aux: "10 * q + r < 10 * p + s \<longleftrightarrow> q < p \<or> (q = p \<and> r < s)"
    if "r < 10" "s < 10" for p q r s :: nat
    using that by (cases q p rule: linorder_cases) simp_all
  from aux [of "m mod 10" "n mod 10" "m div 10" "n div 10"] show ?thesis
    by (simp only: mult_div_mod_eq mod_less_divisor zero_less_numeral simp_thms)
qed

lemma decimal_split_eq: "m div 10 = n div 10 \<and> m mod 10 = n mod 10 \<longleftrightarrow> m = (n::nat)"
proof (intro iffI conjI)
  assume "m div 10 = n div 10 \<and> m mod 10 = n mod 10"
  then have "m div 10 * 10 + m mod 10 = n div 10 * 10 + n mod 10" by simp
  then show "m = n" by (simp only: div_mult_mod_eq)
qed simp_all

lemma pad_inject: "m < 10 ^ k \<Longrightarrow> n < 10 ^ k \<Longrightarrow> (pad k m = pad k n) \<longleftrightarrow> m = n"
proof (induction k arbitrary: m n)
  case 0
  then show ?case by simp
next
  case (Suc k)
  then have "m div 10 < 10 ^ k" "n div 10 < 10 ^ k" by auto
  then have "(pad (Suc k) m = pad (Suc k) n) \<longleftrightarrow> m div 10 = n div 10 \<and> m mod 10 = n mod 10"
    using Suc.IH by (simp add: digit_char_inject)
  also have "\<dots> \<longleftrightarrow> m = n"
    by (rule decimal_split_eq)
  finally show ?case .
qed

lemma pad_less: "m < 10 ^ k \<Longrightarrow> n < 10 ^ k \<Longrightarrow> (pad k m < pad k n) \<longleftrightarrow> m < n"
proof (induction k arbitrary: m n)
  case 0
  then show ?case by simp
next
  case (Suc k)
  then have bounds: "m div 10 < 10 ^ k" "n div 10 < 10 ^ k" by auto
  then have "(pad (Suc k) m < pad (Suc k) n) \<longleftrightarrow>
      m div 10 < n div 10 \<or> (m div 10 = n div 10 \<and> m mod 10 < n mod 10)"
    using Suc.IH [OF bounds] pad_inject [OF bounds]
    by (simp add: append_less_append digit_char_less)
  also have "\<dots> \<longleftrightarrow> m < n"
    by (rule decimal_split_less [symmetric])
  finally show ?case .
qed

lemma pad_append_less:
  assumes "m < 10 ^ k" and "n < 10 ^ k"
  shows "(pad k m @ x < pad k n @ y) \<longleftrightarrow> m < n \<or> (m = n \<and> x < y)"
  using assms by (simp add: append_less_append pad_less pad_inject)

lemma fraction_text_less:
  assumes "m < 1000000" and "n < 1000000"
  shows "(fraction_text m < fraction_text n) \<longleftrightarrow> m \<noteq> 0 \<and> (n = 0 \<or> m < n)"
  using assms pad_append_less [of m 6 n "''Z''" "''Z''"]
  by (auto simp: fraction_text_def less_char_def)

subsection \<open>Calendar order\<close>

lemma div_pred_int:
  assumes "0 < (k::int)"
  shows "x div k = (x - 1) div k + (if x mod k = 0 then 1 else 0)"
proof -
  have x: "x = k * (x div k) + x mod k" and r: "0 \<le> x mod k" "x mod k < k"
    using assms by simp_all
  show ?thesis
  proof (cases "x mod k = 0")
    case True
    have "(x - 1) div k = x div k - 1"
      by (rule int_div_pos_eq [where r = "k - 1"]) (use x True assms in \<open>simp_all add: algebra_simps\<close>)
    with True show ?thesis by simp
  next
    case False
    have "(x - 1) div k = x div k"
      by (rule int_div_pos_eq [where r = "x mod k - 1"]) (use x False r in \<open>simp_all\<close>)
    with False show ?thesis by simp
  qed
qed

lemma days_before_year_Suc:
  assumes "1 \<le> y"
  shows "days_before_year (Suc y) = days_before_year y + (if is_leap y then 366 else 365)"
proof -
  have step: "int y div int k = (int y - 1) div int k + (if y mod k = 0 then 1 else 0)" if "0 < k" for k :: nat
    using div_pred_int [of "int k" "int y"] that by (simp add: zmod_int [symmetric])
  have imp: "y mod 100 = 0 \<Longrightarrow> y mod 4 = 0" "y mod 400 = 0 \<Longrightarrow> y mod 100 = 0"
    using dvd_trans [of 4 100 y] dvd_trans [of 100 400 y] by (simp_all add: mod_eq_0_iff_dvd)
  define a b c where "a = (int y - 1) div 4" and "b = (int y - 1) div 100" and "c = (int y - 1) div 400"
  have "int y div 4 = a + (if y mod 4 = 0 then 1 else 0)"
    and "int y div 100 = b + (if y mod 100 = 0 then 1 else 0)"
    and "int y div 400 = c + (if y mod 400 = 0 then 1 else 0)"
    unfolding a_def b_def c_def
    using step [of 4] step [of 100] step [of 400] by (simp_all only: of_nat_numeral zero_less_numeral simp_thms)
  moreover have "days_before_year (Suc y) = int y * 365 + int y div 4 - int y div 100 + int y div 400"
    by (simp add: days_before_year_def Let_def)
  moreover have "days_before_year y = (int y - 1) * 365 + a - b + c"
    by (simp only: days_before_year_def a_def b_def c_def Let_def)
  moreover have "(int y - 1) * 365 = int y * 365 - 365"
    by (simp add: algebra_simps)
  ultimately have "days_before_year (Suc y) - days_before_year y =
      365 + (if y mod 4 = 0 then 1 else 0) - (if y mod 100 = 0 then 1 else 0) + (if y mod 400 = 0 then 1 else 0)"
    by linarith
  then show ?thesis
    using imp
    by (cases "y mod 4 = 0"; cases "y mod 100 = 0"; cases "y mod 400 = 0")
      (simp_all only: is_leap_def if_True if_False simp_thms; linarith)+
qed

lemma days_before_month_12:
  "days_before_month y 12 + days_in_month y 12 = (if is_leap y then 366 else 365)"
  by (simp add: eval_nat_numeral days_in_month_def)

lemma days_before_month_mono: "m \<le> n \<Longrightarrow> days_before_month y m \<le> days_before_month y n"
  by (induction n) (auto simp: le_Suc_eq)

lemma days_before_month_step:
  "1 \<le> m \<Longrightarrow> m < n \<Longrightarrow> days_before_month y m + days_in_month y m \<le> days_before_month y n"
  using days_before_month_mono [of "Suc m" n y] by (simp split: if_splits)

lemma days_before_year_step:
  assumes "1 \<le> y" and "y < z"
  shows "days_before_year y + (if is_leap y then 366 else 365) \<le> days_before_year z"
proof -
  have "1 \<le> u \<Longrightarrow> u \<le> v \<Longrightarrow> days_before_year u \<le> days_before_year v" for u v
    by (induction v) (auto simp: le_Suc_eq days_before_year_Suc)
  from this [of "Suc y" z] assms show ?thesis by (simp add: days_before_year_Suc)
qed

lemma day_of_year_bound:
  assumes "wf_datetime d"
  shows "days_before_month (dt_year d) (dt_month d) + dt_day d
         \<le> (if is_leap (dt_year d) then 366 else 365)"
proof -
  have m: "dt_month d \<le> 12" "1 \<le> dt_month d" and
    day: "dt_day d \<le> days_in_month (dt_year d) (dt_month d)"
    using assms by (auto simp: wf_datetime_def)
  have "days_before_month (dt_year d) (dt_month d) + days_in_month (dt_year d) (dt_month d)
        \<le> days_before_month (dt_year d) 12 + days_in_month (dt_year d) 12"
  proof (cases "dt_month d = 12")
    case True
    then show ?thesis by simp
  next
    case False
    with m have "dt_month d < 12" by simp
    from days_before_month_step [OF m(2) this, of "dt_year d"] show ?thesis by simp
  qed
  with day show ?thesis by (simp add: days_before_month_12 del: days_before_month.simps)
qed

definition date_less :: "datetime \<Rightarrow> datetime \<Rightarrow> bool" where
  "date_less a b \<longleftrightarrow> dt_year a < dt_year b \<or> (dt_year a = dt_year b \<and>
     (dt_month a < dt_month b \<or> (dt_month a = dt_month b \<and> dt_day a < dt_day b)))"

lemma toordinal_less:
  assumes "wf_datetime a" and "wf_datetime b" and "date_less a b"
  shows "toordinal a < toordinal b"
proof -
  have day: "1 \<le> dt_day b" "1 \<le> dt_year a" "1 \<le> dt_month a"
      "dt_day a \<le> days_in_month (dt_year a) (dt_month a)"
    using assms by (auto simp: wf_datetime_def)
  consider (year) "dt_year a < dt_year b"
    | (month) "dt_year a = dt_year b" "dt_month a < dt_month b"
    | (day) "dt_year a = dt_year b" "dt_month a = dt_month b" "dt_day a < dt_day b"
    using assms(3) by (auto simp: date_less_def)
  then show ?thesis
  proof cases
    case year
    with days_before_year_step [OF day(2) year] day_of_year_bound [OF assms(1)] day(1)
    show ?thesis by (simp add: toordinal_def split: if_splits)
  next
    case month
    with days_before_month_step [OF day(3) month(2), of "dt_year a"] day
    show ?thesis by (simp add: toordinal_def)
  next
    case day
    then show ?thesis by (simp add: toordinal_def)
  qed
qed

definition seconds_less :: "datetime \<Rightarrow> datetime \<Rightarrow> bool" where
  "seconds_less a b \<longleftrightarrow> date_less a b \<or>
     (dt_year a = dt_year b \<and> dt_month a = dt_month b \<and> dt_day a = dt_day b \<and>
      (dt_hour a < dt_hour b \<or> (dt_hour a = dt_hour b \<and>
       (dt_minute a < dt_minute b \<or> (dt_minute a = dt_minute b \<and> dt_second a < dt_second b)))))"

definition same_second :: "datetime \<Rightarrow> datetime \<Rightarrow> bool" where
  "same_second a b \<longleftrightarrow> dt_year a = dt_year b \<and> dt_month a = dt_month b \<and> dt_day a = dt_day b \<and>
     dt_hour a = dt_hour b \<and> dt_minute a = dt_minute b \<and> dt_second a = dt_second b"

lemma whole_seconds_less:
  assumes "wf_datetime a" and "wf_datetime b" and "seconds_less a b"
  shows "whole_seconds a < whole_seconds b"
proof -
  have t: "dt_hour a < 24" "dt_minute a < 60" "dt_second a < 60"
    using assms by (auto simp: wf_datetime_def)
  show ?thesis
  proof (cases "date_less a b")
    case True
    then have "toordinal a + 1 \<le> toordinal b"
      using toordinal_less [OF assms(1,2)] by simp
    with t show ?thesis by (simp add: whole_seconds_def)
  next
    case False
    with assms(3) have "toordinal a = toordinal b"
      by (auto simp: seconds_less_def toordinal_def)
    with False assms(3) t show ?thesis
      by (auto simp: seconds_less_def whole_seconds_def)
  qed
qed

lemma seconds_total: "seconds_less a b \<or> same_second a b \<or> seconds_less b a"
proof -
  have tri: "(x::nat) < y \<or> x = y \<or> y < x" for x y
    by (rule linorder_less_linear)
  show ?thesis
    unfolding seconds_less_def date_less_def same_second_def
    using tri [of "dt_year a" "dt_year b"] tri [of "dt_month a" "dt_month b"]
      tri [of "dt_day a" "dt_day b"] tri [of "dt_hour a" "dt_hour b"]
      tri [of "dt_minute a" "dt_minute b"] tri [of "dt_second a" "dt_second b"]
    by (elim disjE) simp_all
qed

lemma same_second_whole: "same_second a b \<Longrightarrow> whole_seconds a = whole_seconds b"
  by (simp add: same_second_def whole_seconds_def toordinal_def)

lemma seconds_less_iff:
  assumes "wf_datetime a" and "wf_datetime b"
  shows "seconds_less a b \<longleftrightarrow> whole_seconds a < whole_seconds b"
    and "same_second a b \<longleftrightarrow> whole_seconds a = whole_seconds b"
  using whole_seconds_less [OF assms] whole_seconds_less [OF assms(2,1)]
    seconds_total [of a b] same_second_whole [of a b] by auto

lemma utc_text_less:
  assumes "wf_datetime a" and "wf_datetime b"
  shows "utc_text a < utc_text b \<longleftrightarrow>
         seconds_less a b \<or> (same_second a b \<and> fraction_text (dt_micro a) < fraction_text (dt_micro b))"
proof -
  have bounds: "days_in_month y m \<le> 31" for y m
    by (simp add: days_in_month_def)
  have "dt_day a < 10 ^ 2" "dt_day b < 10 ^ 2"
    using assms bounds [of "dt_year a" "dt_month a"] bounds [of "dt_year b" "dt_month b"]
    by (auto simp: wf_datetime_def)
  moreover have "dt_year a < 10 ^ 4" "dt_month a < 10 ^ 2" "dt_hour a < 10 ^ 2"
      "dt_minute a < 10 ^ 2" "dt_second a < 10 ^ 2"
      "dt_year b < 10 ^ 4" "dt_month b < 10 ^ 2" "dt_hour b < 10 ^ 2"
      "dt_minute b < 10 ^ 2" "dt_second b < 10 ^ 2"
    using assms by (auto simp: wf_datetime_def)
  ultimately show ?thesis
    unfolding utc_text_def seconds_less_def date_less_def same_second_def
    by (simp only: pad_append_less append_Cons Cons_less_Cons) blast
qed

lemma instant_parts:
  assumes "wf_datetime d"
  shows "instant d div 1000000 = whole_seconds d" and "instant d mod 1000000 = int (dt_micro d)"
  using assms by (simp_all add: instant_def wf_datetime_def)

lemma iso_key_instant:
  assumes "wf_datetime d"
  shows "iso_key (instant d) =
         2000000 * whole_seconds d + (if dt_micro d = 0 then 1999999 else 2 * int (dt_micro d))"
  by (simp add: iso_key_def instant_parts [OF assms]) (simp add: instant_def)

lemma isoformat_order_tlt:
  assumes "wf_datetime a" and "wf_datetime b"
  shows "utc_text a < utc_text b \<longleftrightarrow> tlt (instant a) (instant b)"
proof -
  have micro: "dt_micro a < 1000000" "dt_micro b < 1000000"
    using assms by (auto simp: wf_datetime_def)
  show ?thesis
    unfolding utc_text_less [OF assms] tlt_def iso_key_instant [OF assms(1)] iso_key_instant [OF assms(2)]
      seconds_less_iff [OF assms] fraction_text_less [OF micro]
    using micro by (auto split: if_splits)
qed

text \<open>
  The text comparison the store makes between two timestamps is \<open>tle\<close> of the
  two instants: equal to the time order except that a whole second counts as later
  than every fraction of the same second.
\<close>

lemma isoformat_order:
  assumes "wf_datetime a" and "wf_datetime b"
  shows "utc_text a \<le> utc_text b \<longleftrightarrow> tle (instant a) (instant b)"
  using isoformat_order_tlt [OF assms(2,1)] not_tle [of "instant a" "instant b"]
  by (auto simp: linorder_not_less [symmetric] simp del: linorder_not_less)

definition example_datetime :: "nat \<Rightarrow> datetime" where
  "example_datetime us = \<lparr>dt_year = 2024, dt_month = 2, dt_day = 29, dt_hour = 23, dt_minute = 59, dt_second = 58,
     dt_micro = us\<rparr>"

theorem isoformat_order_witness:
  "utc_text (example_datetime 0) \<le> utc_text (example_datetime 5) \<longleftrightarrow>
   tle (instant (example_datetime 0)) (instant (example_datetime 5))"
  by (rule isoformat_order) (simp_all add: wf_datetime_def example_datetime_def days_in_month_def is_leap_def)

end
