(* ===== verification/Store_Model.thy ===== *)
theory Store_Model
  imports Iso_Time
begin

text \<open>
  The documents and tables of the store (\<open>store.py\<close>, migrations). A document is a
  record with the keys the modelled code reads or writes; a key the code reads with
  \<open>.get\<close> and that may be absent or null is an \<open>option\<close>. Documents whose inside no
  modelled code looks at (previews) are opaque texts.
  A table row is a record of its columns; the \<open>data\<close> column is the document.
\<close>

subsection \<open>Statuses and small documents\<close>

datatype status =
  Queued | Running | Finalizing | Succeeded | PartiallySucceeded | Failed | Cancelled | TimedOut

instantiation status :: linorder
begin

definition status_rank :: "status \<Rightarrow> nat" where
  "status_rank s = (case s of Queued \<Rightarrow> 0 | Running \<Rightarrow> 1 | Finalizing \<Rightarrow> 2 | Succeeded \<Rightarrow> 3
     | PartiallySucceeded \<Rightarrow> 4 | Failed \<Rightarrow> 5 | Cancelled \<Rightarrow> 6 | TimedOut \<Rightarrow> 7)"

definition less_eq_status :: "status \<Rightarrow> status \<Rightarrow> bool" where
  "less_eq_status a b \<longleftrightarrow> status_rank a \<le> status_rank b"

definition less_status :: "status \<Rightarrow> status \<Rightarrow> bool" where
  "less_status a b \<longleftrightarrow> status_rank a < status_rank b"

instance
  by standard (auto simp: less_eq_status_def less_status_def status_rank_def split: status.splits)

end

definition terminal_operation :: "status \<Rightarrow> bool" where
  "terminal_operation s \<longleftrightarrow> s \<in> {Succeeded, Failed, Cancelled, TimedOut}"

definition nonterminal_run :: "status \<Rightarrow> bool" where
  "nonterminal_run s \<longleftrightarrow> s \<in> {Queued, Running, Finalizing}"

record error_doc =
  err_code :: string
  err_message :: string
  err_request_id :: string
  err_retryable :: bool
  err_details :: "(string \<times> string) list"

type_synonym metrics = "string \<rightharpoonup> int"

definition operation_metric_keys :: "string list" where
  "operation_metric_keys =
     [''listPagesFetched'', ''detailUrlsDiscovered'', ''detailPagesFetched'', ''recordsOutsideWindow'',
      ''duplicateDetailUrls'', ''newItems'', ''updatedItems'', ''unchangedItems'', ''warningCount'']"

definition empty_operation_metrics :: metrics where
  "empty_operation_metrics = map_of (map (\<lambda>k. (k, 0)) operation_metric_keys)"

record activity_entry =
  act_phase :: string
  act_status :: status
  act_started :: ts
  act_finished :: "ts option"
  act_duration :: "int option"
  act_metrics :: metrics

subsection \<open>JSON values\<close>

datatype json =
    JNull
  | JBool bool
  | JNum int
  | JStr string
  | JArr "json list"
  | JObj "(string \<times> json) list"

text \<open>Reading and setting a key of a JSON object; a value of another kind reads as empty.\<close>

definition jget :: "string \<Rightarrow> (string \<times> json) list \<Rightarrow> json" where
  "jget k kvs = (case map_of kvs k of None \<Rightarrow> JNull | Some v \<Rightarrow> v)"

definition json_text :: "json \<Rightarrow> string option" where
  "json_text v = (case v of JStr s \<Rightarrow> Some s | _ \<Rightarrow> None)"

definition obj_of :: "json \<Rightarrow> (string \<times> json) list" where
  "obj_of v = (case v of JObj kvs \<Rightarrow> kvs | _ \<Rightarrow> [])"

definition text_of :: "json \<Rightarrow> string" where
  "text_of v = (case json_text v of None \<Rightarrow> [] | Some s \<Rightarrow> s)"

definition texts_of :: "json \<Rightarrow> string list" where
  "texts_of v = (case v of JArr vs \<Rightarrow> map text_of vs | _ \<Rightarrow> [])"

text \<open>Setting a key of a dict.\<close>

fun dict_set :: "'k \<Rightarrow> 'v \<Rightarrow> ('k \<times> 'v) list \<Rightarrow> ('k \<times> 'v) list" where
  "dict_set k v [] = [(k, v)]"
| "dict_set k v ((k', v') # kvs) = (if k' = k then (k, v) # kvs else (k', v') # dict_set k v kvs)"

lemma map_of_dict_set [simp]: "map_of (dict_set k v kvs) = (map_of kvs)(k \<mapsto> v)"
  by (induction k v kvs rule: dict_set.induct) (auto simp: fun_upd_twist)

subsection \<open>Operations, jobs and AI runs\<close>

record operation =
  op_id :: string
  op_kind :: string
  op_status :: status
  op_phase :: string
  op_progress :: int
  op_resource_type :: string
  op_resource_id :: string
  op_status_url :: string
  op_poll_after_ms :: int
  op_queued_at :: ts
  op_metrics :: metrics
  op_error :: "error_doc option"
  op_ai_run_id :: "string option"
  op_activity :: "activity_entry list"
  op_cancel_requested :: bool

record operation_row =
  opr_id :: string
  opr_collector :: string
  opr_data :: operation
  opr_created :: ts
  opr_updated :: ts

text \<open>
  The payload of a job. The integrity context fixes the rule, attestation and key a run was
  accepted with; \<open>pl_policy\<close> is the id and digest of its policy; \<open>pl_extra\<close> is the guidance
  and repair request of an exploration.
\<close>

record integrity_context =
  ic_rule_version :: string
  ic_attestation :: string
  ic_digest :: string
  ic_key :: string
  ic_trust_revision :: nat

record job_payload =
  pl_collector_id :: "string option"
  pl_ai_run_id :: "string option"
  pl_run_id :: "string option"
  pl_previous_status :: "string option"
  pl_max_job_attempts :: "nat option"
  pl_recovery_batch :: "string option"
  pl_management_revision :: nat
  pl_integrity :: "integrity_context option"
  pl_policy :: "(string \<times> string) option"
  pl_retry_records :: "json list option"
  pl_extra :: string

datatype job_status = JQueued | JProcessing | JCompleted | JFailed

record job_row =
  job_id :: nat
  job_operation :: string
  job_kind :: string
  job_payload :: job_payload
  job_status :: job_status
  job_attempts :: nat
  job_available_at :: ts
  job_lease_until :: "ts option"
  job_last_error :: "string option"

text \<open>The job dict a claim hands to the worker.\<close>

record claimed_job =
  cj_id :: nat
  cj_operation :: string
  cj_kind :: string
  cj_payload :: job_payload
  cj_attempts :: nat
  cj_lease_seconds :: int

datatype result_status = Pending | NoCandidate | CandidateReady
datatype review_status = NotReady | ReadyReview | Superseded | Published

record model_summary =
  ms_invocations :: int
  ms_prompt :: int
  ms_completion :: int
  ms_total :: int

record validation_summary =
  vs_accepted :: int
  vs_rejected :: int
  vs_warnings :: int

record ai_run =
  air_id :: string
  air_operation :: string
  air_status :: status
  air_phase :: string
  air_progress :: int
  air_result_status :: result_status
  air_review_status :: review_status
  air_attempt_count :: nat
  air_model_summary :: model_summary
  air_validation :: validation_summary
  air_candidate_digest :: "string option"
  air_published_rule :: "string option"
  air_created :: ts
  air_started :: "ts option"
  air_finished :: "ts option"
  air_duration :: "int option"
  air_error :: "error_doc option"
  air_activity :: "activity_entry list"

record ai_run_row =
  airr_id :: string
  airr_operation :: string
  airr_collector :: string
  airr_data :: ai_run
  airr_created :: ts
  airr_updated :: ts

record ai_attempt =
  att_id :: string
  att_ai_run :: string
  att_no :: nat
  att_status :: status
  att_started :: ts
  att_finished :: "ts option"
  att_duration :: "int option"
  att_error :: "error_doc option"

record ai_attempt_row =
  attr_id :: string
  attr_ai_run :: string
  attr_no :: nat
  attr_data :: ai_attempt
  attr_created :: ts
  attr_updated :: ts

record model_invocation =
  inv_id :: string
  inv_ai_run :: string
  inv_attempt :: string
  inv_purpose :: string
  inv_status :: string
  inv_started :: ts
  inv_finished :: ts
  inv_duration :: int
  inv_prompt :: int
  inv_completion :: int
  inv_total :: int
  inv_response_digest :: "string option"
  inv_error :: "error_doc option"

subsection \<open>Policies, checkpoints, coverage and schedules\<close>

record policy_values =
  pv_mode :: string
  pv_initial_window_days :: int
  pv_lookback_days :: int
  pv_consecutive_older_pages :: int
  pv_max_pages :: int
  pv_max_items :: int
  pv_timezone :: string
  pv_checkpoint_mode :: "string option"

record policy =
  pol_id :: string
  pol_collector :: string
  pol_version :: nat
  pol_values :: policy_values
  pol_created :: ts
  pol_digest :: string

record checkpoint =
  ck_collector :: string
  ck_policy_version :: string
  ck_kind :: "string option"
  ck_rule_digest :: "string option"
  ck_run :: string
  ck_watermark :: string
  ck_advanced :: ts

record coverage_progress =
  cp_rule_digest :: string
  cp_policy_version :: string
  cp_window_start :: string
  cp_resume_url :: string
  cp_page_index :: int
  cp_anchor_url :: "string option"
  cp_processed_urls :: "string list"
  cp_older_pages_before :: int
  cp_watermark :: "string option"
  cp_oldest_before :: "string option"
  cp_page_complete :: bool
  cp_overlap_urls :: "string list"

record schedule_values =
  sv_enabled :: bool
  sv_cron :: string
  sv_timezone :: string
  sv_overlap :: string

record schedule =
  sch_id :: string
  sch_collector :: string
  sch_revision :: nat
  sch_values :: schedule_values
  sch_last_triggered :: "ts option"
  sch_next_run :: "ts option"
  sch_updated :: ts

subsection \<open>Runs and collectors\<close>

record run =
  run_id :: string
  run_collector :: string
  run_status :: status
  run_operation :: "string option"
  run_rule_version :: string
  run_rule_digest :: string
  run_policy_version :: string
  run_integrity :: string
  run_stop_reason :: "string option"
  run_items :: "string list"
  run_list_pages :: int
  run_detail_pages :: int
  run_source_requests :: "int option"
  run_coverage_before :: "coverage_progress option"
  run_coverage_after :: "coverage_progress option"
  run_checkpoint_before :: "checkpoint option"
  run_checkpoint_after :: "checkpoint option"
  run_recovery_batch :: "string option"
  run_retry_after_seconds :: "int option"
  run_duration_micros :: "int option"
  run_started_iso :: "ts option"
  run_finished_iso :: "ts option"
  run_summary :: string
  run_recovery_action :: string
  run_execution_mode :: string
  run_window_start :: string
  run_policy_digest :: string
  run_coverage_mode :: "string option"
  run_source_limit :: "nat option"
  run_purpose :: "string option"
  run_pending_quality :: "nat option"
  run_accepted :: nat
  run_rejected :: nat
  run_details_found :: int
  run_outside_window :: int
  run_duplicates :: int
  run_new :: nat
  run_updated :: nat
  run_unchanged :: nat
  run_artifact_mode :: string
  run_evidence_ref :: "string option"
  run_evidence_digest :: "string option"
  run_attestation :: string
  run_key :: string
  run_trust_revision :: nat

record run_row =
  rr_id :: string
  rr_collector :: string
  rr_data :: run
  rr_created :: ts
  rr_updated :: ts

datatype lifecycle = Active | Archived
datatype updated_label = JustNow | UpdatedAt ts

record migration =
  mg_from :: string
  mg_target :: string
  mg_number :: nat
  mg_status :: string
  mg_started :: ts

record collector =
  col_id :: string
  col_name :: string
  col_intent :: string
  col_source_url :: string
  col_source_host :: string
  col_lifecycle :: lifecycle
  col_revision :: nat
  col_status :: string
  col_collection_id :: string
  col_collection_name :: string
  col_collection_version :: string
  col_active_rule :: "string option"
  col_active_operation :: "string option"
  col_latest_run :: "string option"
  col_updated :: updated_label
  col_candidate :: "json option"
  col_preview_items :: string
  col_review_decisions :: "string option"
  col_policy_id :: "string option"
  col_policy :: "policy option"
  col_checkpoint :: "checkpoint option"
  col_schedule :: "schedule option"
  col_pending_version :: "string option"
  col_migration :: "migration option"
  col_coverage :: "coverage_progress option"
  col_reassigned :: bool
  col_quality_backlog :: "nat option"

record collector_row =
  colr_id :: string
  colr_data :: collector
  colr_created :: ts
  colr_updated :: ts

subsection \<open>The fields a collection asks for\<close>

record field_def =
  fd_key :: string
  fd_label :: string
  fd_type :: string
  fd_required :: bool
  fd_identity :: bool
  fd_fingerprint :: bool
  fd_description :: string

subsection \<open>Collections, rules and history ownership\<close>

record active_version =
  av_id :: string
  av_number :: nat
  av_digest :: string
  av_published :: ts
  av_field_count :: nat

record collection =
  cn_id :: string
  cn_name :: string
  cn_intent :: string
  cn_version :: string
  cn_status :: string
  cn_revision :: nat
  cn_created :: ts
  cn_updated :: ts
  cn_active_version_id :: "string option"
  cn_latest_number :: nat
  cn_active_version :: "active_version option"
  cn_field_draft :: "field_def list option"

record field_contract =
  fc_schema :: json
  fc_identity :: "string list"
  fc_fingerprint :: "string list"
  fc_digest :: string

record collection_version =
  cv_id :: string
  cv_collection :: string
  cv_number :: nat
  cv_fields :: "field_def list"
  cv_contract :: field_contract
  cv_published_at :: ts
  cv_published_by :: string
  cv_note :: string

record rule_version =
  rv_id :: string
  rv_tenant :: string
  rv_collector :: string
  rv_digest :: string
  rv_spec :: json
  rv_created :: ts

text \<open>What the modelled code reads of the compiled specification of a rule.\<close>

definition spec_part :: "string \<Rightarrow> rule_version \<Rightarrow> (string \<times> json) list" where
  "spec_part k rv = obj_of (jget k (obj_of (rv_spec rv)))"

definition rv_ref_collection :: "rule_version \<Rightarrow> string option" where
  "rv_ref_collection rv = json_text (jget ''collectionId'' (spec_part ''collectionVersionRef'' rv))"

definition rv_ref_version :: "rule_version \<Rightarrow> string option" where
  "rv_ref_version rv = json_text (jget ''collectionVersionId'' (spec_part ''collectionVersionRef'' rv))"

definition rv_allowed_hosts :: "rule_version \<Rightarrow> string list" where
  "rv_allowed_hosts rv = texts_of (jget ''allowedHosts'' (spec_part ''sourceContext'' rv))"

definition rv_fingerprint_fields :: "rule_version \<Rightarrow> string list" where
  "rv_fingerprint_fields rv = texts_of (jget ''fingerprintFields'' (spec_part ''contract'' rv))"

record attestation =
  at_id :: string
  at_tenant :: string
  at_rule_version :: string
  at_rule_digest :: string
  at_approval :: json
  at_key_id :: string
  at_algorithm :: string
  at_signed_at :: ts
  at_expires :: "ts option"
  at_signature :: string

record attribution =
  ab_collection :: string
  ab_name :: string
  ab_version :: string

record ownership_row =
  own_kind :: string
  own_resource :: string
  own_collector :: string
  own_collection :: string
  own_data :: attribution

record migration_row =
  mgr_collector :: string
  mgr_data :: migration
  mgr_snapshot :: "string \<times> json option \<times> string \<times> string option"
  mgr_definition :: "(string \<times> string) option"

end
