(* ===== verification/Database.thy ===== *)
theory Database
  imports Store_Model
begin

text \<open>
  The remaining tables, the database record, and the primitives every command is made
  of: the collector lock, reading and saving collectors, operations, runs and AI
  runs, and the ownership rows written for new history (\<open>store.py\<close>,
  \<open>collector_history.py\<close>, \<open>collection_workflows.py\<close>).

  A command takes the clock it reads as an argument \<open>now\<close>. A command that raises
  leaves the database as it was (\<open>Inl\<close>), as the transaction context manager of the
  store does.
\<close>

subsection \<open>Digests\<close>

text \<open>\<open>payload_hash\<close>: the SHA-256 of the canonical text of a JSON value, a parameter.\<close>

type_synonym hasher = "json \<Rightarrow> string"

definition jopt :: "string option \<Rightarrow> json" where
  "jopt v = (case v of None \<Rightarrow> JNull | Some s \<Rightarrow> JStr s)"

definition jor :: "json option \<Rightarrow> json" where
  "jor v = (case v of None \<Rightarrow> JNull | Some w \<Rightarrow> w)"

definition sha256_tag :: "string \<Rightarrow> string" where
  "sha256_tag h = ''sha256:'' @ h"

subsection \<open>Rows of sinks, deliveries, audit, receipts, keys and recovery\<close>

record sink_row =
  snk_id :: string
  snk_collector :: string
  snk_type :: string
  snk_url :: string
  snk_secret :: "string option"
  snk_enabled :: bool
  snk_version :: nat
  snk_created :: ts
  snk_updated :: ts

datatype delivery_status = DPending | DDelivering | DDelivered | DFailed | DDeadLettered

record delivery_row =
  dl_id :: string
  dl_collector :: string
  dl_sink :: string
  dl_sink_version :: string
  dl_item :: string
  dl_status :: delivery_status
  dl_attempt_count :: nat
  dl_next_attempt :: "ts option"
  dl_lease_until :: "ts option"
  dl_last_code :: "int option"
  dl_last_error :: "string option"
  dl_redeliveries :: nat
  dl_lease_token :: "string option"
  dl_cycle :: nat
  dl_created :: ts
  dl_updated :: ts

record delivery_attempt_row =
  da_id :: string
  da_delivery :: string
  da_no :: nat
  da_started :: ts
  da_finished :: ts
  da_code :: "int option"
  da_error :: "string option"

record audit_event =
  ae_id :: string
  ae_tenant :: string
  ae_actor :: string
  ae_action :: string
  ae_target_type :: string
  ae_target_id :: string
  ae_before :: "string option"
  ae_after :: "string option"
  ae_request :: string
  ae_occurred :: ts
  ae_previous :: "string option"
  ae_details :: json

text \<open>\<open>aur_data\<close> is the stored document without its key \<open>eventHash\<close>, which is \<open>aur_data_hash\<close>.\<close>

record audit_row =
  aur_id :: string
  aur_tenant :: string
  aur_hash :: string
  aur_data :: audit_event
  aur_data_hash :: "string option"
  aur_created :: ts

record receipt_row =
  rc_scope :: string
  rc_key :: string
  rc_request_hash :: string
  rc_status :: int
  rc_response :: json
  rc_created :: ts

datatype key_status = KPending | KTrusted | KRetired | KCompromised

record signing_key =
  sk_id :: string
  sk_tenant :: string
  sk_status :: key_status
  sk_revision :: nat
  sk_algorithm :: string
  sk_public_pem :: string
  sk_retired_at :: "ts option"
  sk_compromise_at :: "ts option"

record signing_key_row =
  skr_id :: string
  skr_tenant :: string
  skr_status :: key_status
  skr_revision :: nat
  skr_data :: signing_key
  skr_created :: ts
  skr_updated :: ts

datatype batch_status = CoolingDown | BRunning | Cancelling | NeedsAttention | BCancelled | Recovered

record recovery_batch =
  rb_id :: string
  rb_collector :: string
  rb_seed_run :: string
  rb_status :: batch_status
  rb_reason :: string
  rb_created :: ts
  rb_updated :: ts
  rb_expires :: ts
  rb_finished :: "ts option"
  rb_next_attempt :: "ts option"
  rb_max_attempts :: nat
  rb_attempt_runs :: "string list"
  rb_active_run :: "string option"
  rb_reserved :: nat
  rb_max_requests :: nat
  rb_hosts :: "string list"
  rb_context :: string
  rb_progress :: coverage_progress
  rb_checkpoint :: "checkpoint option"
  rb_rule_version :: string
  rb_rule_digest :: string
  rb_policy_version :: string
  rb_window_start :: string
  rb_cancel :: bool
  rb_not_before :: "ts option"

record batch_row =
  br_id :: string
  br_seed_run :: string
  br_collector :: string
  br_status :: batch_status
  br_hold_until :: "ts option"
  br_data :: recovery_batch
  br_created :: ts
  br_updated :: ts

record occurrence_row =
  oc_key :: string
  oc_schedule :: string
  oc_collector :: string
  oc_scheduled_at :: ts
  oc_status :: string
  oc_run :: "string option"
  oc_reason :: "string option"
  oc_created :: ts
  oc_updated :: ts

text \<open>
  An item as a run produces it. \<open>im_extracted\<close> is \<open>extractedData\<close>, \<open>im_other\<close> the remaining
  display fields (publishedAt, buyer, budget, region), \<open>im_list_record\<close> the list record its
  lineage keeps.
\<close>

record value_change =
  fx_field :: string
  fx_before :: string
  fx_after :: string

record item =
  im_id :: string
  im_collector :: string
  im_collector_name :: string
  im_source_host :: string
  im_entity_key :: string
  im_observed_at :: string
  im_decision :: string
  im_change_type :: "string option"
  im_revision :: "nat option"
  im_title :: string
  im_content :: string
  im_list_title :: string
  im_source_url :: string
  im_extracted :: "(string \<times> json) list"
  im_other :: "(string \<times> json) list"
  im_changes :: "value_change list"
  im_history :: "string list"
  im_list_record :: "json option"

record item_row =
  it_id :: string
  it_run :: string
  it_data :: item
  it_created :: ts

subsection \<open>The database\<close>

record db =
  t_collectors :: "collector_row list"
  t_deleted :: "(string \<times> ts) list"
  t_collections :: "collection list"
  t_versions :: "collection_version list"
  t_suggestion_collections :: "string list"
  t_ownership :: "ownership_row list"
  t_migrations :: "migration_row list"
  t_operations :: "operation_row list"
  t_jobs :: "job_row list"
  t_next_job :: nat
  t_ai_runs :: "ai_run_row list"
  t_ai_attempts :: "ai_attempt_row list"
  t_invocations :: "model_invocation list"
  t_runs :: "run_row list"
  t_items :: "item_row list"
  t_policies :: "policy list"
  t_checkpoints :: "checkpoint list"
  t_schedules :: "schedule list"
  t_occurrences :: "occurrence_row list"
  t_sinks :: "sink_row list"
  t_deliveries :: "delivery_row list"
  t_delivery_attempts :: "delivery_attempt_row list"
  t_audit :: "audit_row list"
  t_receipts :: "receipt_row list"
  t_signing_keys :: "signing_key_row list"
  t_rules :: "rule_version list"
  t_attestations :: "attestation list"
  t_batches :: "batch_row list"

definition empty_db :: db where
  "empty_db =
     \<lparr>t_collectors = [], t_deleted = [], t_collections = [], t_versions = [], t_suggestion_collections = [],
      t_ownership = [], t_migrations = [], t_operations = [], t_jobs = [], t_next_job = 1, t_ai_runs = [],
      t_ai_attempts = [], t_invocations = [], t_runs = [], t_items = [], t_policies = [], t_checkpoints = [],
      t_schedules = [], t_occurrences = [], t_sinks = [], t_deliveries = [], t_delivery_attempts = [],
      t_audit = [], t_receipts = [], t_signing_keys = [], t_rules = [], t_attestations = [], t_batches = []\<rparr>"

end
