(* ===== verification/Collectors.thy ===== *)
theory Collectors
  imports Database
begin

text \<open>
  Collectors (sources): the row lock with its tombstone check, reading and saving a
  collector under optimistic concurrency, and the ownership rows recorded for new
  runs, AI runs and operations (\<open>collection_workflows.lock_collector\<close>,
  \<open>Store.get_collector\<close>, \<open>Store.save_collector\<close>, \<open>Store.source_exists\<close>,
  \<open>collector_lifecycle.require_active\<close>, \<open>collector_history\<close>).
\<close>

subsection \<open>Locking and reading\<close>

definition is_deleted :: "db \<Rightarrow> string \<Rightarrow> bool" where
  "is_deleted db cid \<longleftrightarrow> cid \<in> fst ` set (t_deleted db)"

text \<open>\<open>lock_collector\<close>: \<open>None\<close> when the row is there and not deleted, else the exception.\<close>

definition lock_collector :: "db \<Rightarrow> string \<Rightarrow> py_exc option" where
  "lock_collector db cid =
     (if tbl_get colr_id cid (t_collectors db) = None then Some (LifecycleErr ''COLLECTOR_NOT_FOUND'')
      else if is_deleted db cid then Some (LifecycleErr ''COLLECTOR_NOT_FOUND'')
      else None)"

definition get_collector :: "db \<Rightarrow> string \<Rightarrow> collector option" where
  "get_collector db cid =
     (case tbl_get colr_id cid (t_collectors db) of
        None \<Rightarrow> None
      | Some row \<Rightarrow>
          if is_deleted db cid then None
          else
            (case tbl_get cn_id (col_collection_id (colr_data row)) (t_collections db) of
               None \<Rightarrow> Some (colr_data row)
             | Some requirement \<Rightarrow> Some ((colr_data row)\<lparr>col_collection_name := cn_name requirement\<rparr>)))"

definition require_active :: "collector option \<Rightarrow> py_exc option" where
  "require_active source =
     (case source of
        None \<Rightarrow> Some (LifecycleErr ''COLLECTOR_NOT_FOUND'')
      | Some c \<Rightarrow> if col_lifecycle c = Archived then Some (LifecycleErr ''COLLECTOR_ARCHIVED'') else None)"

definition source_exists :: "db \<Rightarrow> string \<Rightarrow> string option \<Rightarrow> bool" where
  "source_exists db url exclude \<longleftrightarrow>
     (\<exists>r \<in> set (t_collectors db). col_source_url (colr_data r) = url \<and> \<not> is_deleted db (colr_id r) \<and>
        (case exclude of None \<Rightarrow> True | Some x \<Rightarrow> colr_id r \<noteq> x))"

subsection \<open>Saving\<close>

text \<open>
  \<open>save_collector\<close> refuses a tombstoned collector; an ordinary write must carry the
  stored lifecycle and management revision, a management write sets the next
  revision. The saved document is returned too, since the code updates it in place.
\<close>

definition save_collector :: "db \<Rightarrow> collector \<Rightarrow> bool \<Rightarrow> ts \<Rightarrow> py_exc + (db \<times> collector)" where
  "save_collector db c management now =
     (let current = map_option colr_data (tbl_get colr_id (col_id c) (t_collectors db))
      in if is_deleted db (col_id c) then Inl (LifecycleErr ''COLLECTOR_NOT_FOUND'')
         else if \<not> management \<and>
                 (case current of None \<Rightarrow> False
                  | Some cur \<Rightarrow> col_lifecycle cur \<noteq> col_lifecycle c \<or> col_revision cur \<noteq> col_revision c)
         then Inl (LifecycleErr ''COLLECTOR_CONFLICT'')
         else
           (let c' = (if management
                      then c\<lparr>col_revision := (case current of None \<Rightarrow> 0 | Some cur \<Rightarrow> col_revision cur) + 1\<rparr>
                      else c)
            in Inr (db\<lparr>t_collectors := tbl_upsert colr_id
                         \<lparr>colr_id = col_id c', colr_data = c', colr_created = now, colr_updated = now\<rparr>
                         (\<lambda>r. r\<lparr>colr_data := c', colr_updated := now\<rparr>) (t_collectors db)\<rparr>, c')))"

subsection \<open>History ownership\<close>

definition attribution_of :: "db \<Rightarrow> string \<Rightarrow> string \<Rightarrow> attribution option" where
  "attribution_of db collection_id version_id =
     (case tbl_get cn_id collection_id (t_collections db) of
        None \<Rightarrow> None
      | Some cn \<Rightarrow>
          if version_id = [] then None
          else Some \<lparr>ab_collection = collection_id, ab_name = cn_name cn, ab_version = version_id\<rparr>)"

definition rule_attribution :: "db \<Rightarrow> rule_version option \<Rightarrow> attribution option" where
  "rule_attribution db rule =
     (case rule of
        None \<Rightarrow> None
      | Some rv \<Rightarrow>
          (case (rv_ref_collection rv, rv_ref_version rv) of
             (Some c, Some v) \<Rightarrow> attribution_of db c v
           | _ \<Rightarrow> None))"

definition save_attribution :: "db \<Rightarrow> string \<Rightarrow> string \<Rightarrow> string \<Rightarrow> attribution option \<Rightarrow> db" where
  "save_attribution db kind resource cid v =
     (case v of
        None \<Rightarrow> db
      | Some a \<Rightarrow>
          if \<exists>o' \<in> set (t_ownership db). own_kind o' = kind \<and> own_resource o' = resource then db
          else db\<lparr>t_ownership := t_ownership db @
                 [\<lparr>own_kind = kind, own_resource = resource, own_collector = cid,
                   own_collection = ab_collection a, own_data = a\<rparr>]\<rparr>)"

definition history_exists :: "db \<Rightarrow> string \<Rightarrow> string \<Rightarrow> bool" where
  "history_exists db kind rid =
     (if kind = ''run'' then tbl_get rr_id rid (t_runs db) \<noteq> None
      else if kind = ''ai_run'' then tbl_get airr_id rid (t_ai_runs db) \<noteq> None
      else tbl_get opr_id rid (t_operations db) \<noteq> None)"

definition record_new_history :: "db \<Rightarrow> string \<Rightarrow> string \<Rightarrow> string option \<Rightarrow> string \<Rightarrow> py_exc + db" where
  "record_new_history db kind rid rule_version cid =
     (if history_exists db kind rid then Inr db
      else
        (case lock_collector db cid of
           Some e \<Rightarrow> Inl e
         | None \<Rightarrow>
             (case get_collector db cid of
                None \<Rightarrow> Inl (LifecycleErr ''COLLECTOR_NOT_FOUND'')
              | Some source \<Rightarrow>
                  (let by_rule = (if kind = ''run'' \<and> rule_version \<noteq> None
                                  then rule_attribution db (tbl_get rv_id (the rule_version) (t_rules db))
                                  else None);
                       owner = (case by_rule of
                                  Some a \<Rightarrow> Some a
                                | None \<Rightarrow> attribution_of db (col_collection_id source) (col_collection_version source))
                   in Inr (save_attribution db kind rid cid owner)))))"

subsection \<open>Operations, runs and AI runs\<close>

definition get_operation :: "db \<Rightarrow> string \<Rightarrow> operation option" where
  "get_operation db oid = map_option opr_data (tbl_get opr_id oid (t_operations db))"

definition operation_collector_id :: "db \<Rightarrow> string \<Rightarrow> py_exc + string" where
  "operation_collector_id db oid =
     (case tbl_get opr_id oid (t_operations db) of
        None \<Rightarrow> Inl (KeyErr oid)
      | Some r \<Rightarrow> Inr (opr_collector r))"

definition save_operation :: "db \<Rightarrow> operation \<Rightarrow> string \<Rightarrow> ts \<Rightarrow> py_exc + db" where
  "save_operation db o' cid now =
     (case record_new_history db ''operation'' (op_id o') None cid of
        Inl e \<Rightarrow> Inl e
      | Inr db1 \<Rightarrow>
          Inr (db1\<lparr>t_operations := tbl_upsert opr_id
                 \<lparr>opr_id = op_id o', opr_collector = cid, opr_data = o', opr_created = now, opr_updated = now\<rparr>
                 (\<lambda>r. r\<lparr>opr_data := o', opr_updated := now\<rparr>) (t_operations db1)\<rparr>))"

definition update_operation :: "db \<Rightarrow> string \<Rightarrow> (operation \<Rightarrow> operation) \<Rightarrow> ts \<Rightarrow> py_exc + (db \<times> operation)" where
  "update_operation db oid changes now =
     (case get_operation db oid of
        None \<Rightarrow> Inl (KeyErr oid)
      | Some o' \<Rightarrow>
          (case operation_collector_id db oid of
             Inl e \<Rightarrow> Inl e
           | Inr cid \<Rightarrow>
               (case save_operation db (changes o') cid now of
                  Inl e \<Rightarrow> Inl e
                | Inr db' \<Rightarrow> Inr (db', changes o'))))"

definition get_run :: "db \<Rightarrow> string \<Rightarrow> run option" where
  "get_run db rid =
     (case tbl_get rr_id rid (t_runs db) of
        None \<Rightarrow> None
      | Some r \<Rightarrow> Some ((rr_data r)\<lparr>run_started_iso := Some (rr_created r)\<rparr>))"

definition save_run :: "db \<Rightarrow> run \<Rightarrow> ts \<Rightarrow> py_exc + db" where
  "save_run db r now =
     (case record_new_history db ''run'' (run_id r)
             (if run_rule_version r = [] then None else Some (run_rule_version r)) (run_collector r) of
        Inl e \<Rightarrow> Inl e
      | Inr db1 \<Rightarrow>
          Inr (db1\<lparr>t_runs := tbl_upsert rr_id
                 \<lparr>rr_id = run_id r, rr_collector = run_collector r, rr_data = r, rr_created = now, rr_updated = now\<rparr>
                 (\<lambda>x. x\<lparr>rr_data := r, rr_updated := now\<rparr>) (t_runs db1)\<rparr>))"

definition get_ai_run :: "db \<Rightarrow> string \<Rightarrow> ai_run option" where
  "get_ai_run db aid = map_option airr_data (tbl_get airr_id aid (t_ai_runs db))"

definition save_ai_run :: "db \<Rightarrow> ai_run \<Rightarrow> string \<Rightarrow> string \<Rightarrow> ts \<Rightarrow> py_exc + db" where
  "save_ai_run db a cid oid now =
     (case record_new_history db ''ai_run'' (air_id a) None cid of
        Inl e \<Rightarrow> Inl e
      | Inr db1 \<Rightarrow>
          Inr (db1\<lparr>t_ai_runs := tbl_upsert airr_id
                 \<lparr>airr_id = air_id a, airr_operation = oid, airr_collector = cid, airr_data = a,
                  airr_created = now, airr_updated = now\<rparr>
                 (\<lambda>r. r\<lparr>airr_data := a, airr_updated := now\<rparr>) (t_ai_runs db1)\<rparr>))"

definition has_active_run :: "db \<Rightarrow> string \<Rightarrow> bool" where
  "has_active_run db cid \<longleftrightarrow>
     (\<exists>r \<in> set (t_runs db). rr_collector r = cid \<and> nonterminal_run (run_status (rr_data r)))"

subsection \<open>What the primitives touch\<close>

lemma lock_collector_get: "lock_collector db cid = None \<longleftrightarrow> get_collector db cid \<noteq> None"
  by (auto simp: lock_collector_def get_collector_def split: option.splits)

lemma get_collector_id:
  "get_collector db cid = Some c \<Longrightarrow> (\<And>r. r \<in> set (t_collectors db) \<Longrightarrow> col_id (colr_data r) = colr_id r) \<Longrightarrow>
   col_id c = cid"
  by (auto simp: get_collector_def dest!: tbl_get_SomeD split: option.splits if_splits)

lemma save_attribution_frame [simp]:
  "t_collectors (save_attribution db k r c v) = t_collectors db"
  "t_deleted (save_attribution db k r c v) = t_deleted db"
  "t_collections (save_attribution db k r c v) = t_collections db"
  "t_operations (save_attribution db k r c v) = t_operations db"
  "t_jobs (save_attribution db k r c v) = t_jobs db"
  "t_next_job (save_attribution db k r c v) = t_next_job db"
  "t_ai_runs (save_attribution db k r c v) = t_ai_runs db"
  "t_ai_attempts (save_attribution db k r c v) = t_ai_attempts db"
  "t_runs (save_attribution db k r c v) = t_runs db"
  "t_batches (save_attribution db k r c v) = t_batches db"
  "t_deliveries (save_attribution db k r c v) = t_deliveries db"
  "t_schedules (save_attribution db k r c v) = t_schedules db"
  "t_audit (save_attribution db k r c v) = t_audit db"
  "t_receipts (save_attribution db k r c v) = t_receipts db"
  by (auto simp: save_attribution_def split: option.splits)

lemma record_new_history_frame:
  assumes "record_new_history db kind rid rv cid = Inr db'"
  shows "t_collectors db' = t_collectors db" "t_deleted db' = t_deleted db" "t_collections db' = t_collections db"
    "t_operations db' = t_operations db" "t_jobs db' = t_jobs db" "t_next_job db' = t_next_job db"
    "t_ai_runs db' = t_ai_runs db" "t_ai_attempts db' = t_ai_attempts db" "t_runs db' = t_runs db"
    "t_batches db' = t_batches db" "t_deliveries db' = t_deliveries db" "t_schedules db' = t_schedules db"
    "t_audit db' = t_audit db" "t_receipts db' = t_receipts db"
  using assms by (auto simp: record_new_history_def Let_def split: if_splits option.splits)

text \<open>An id that is already in its table never raises: only new history needs the lock.\<close>

lemma record_new_history_known:
  "history_exists db kind rid \<Longrightarrow> record_new_history db kind rid rv cid = Inr db"
  by (simp add: record_new_history_def)

lemma save_operation_known:
  assumes "tbl_get opr_id (op_id o') (t_operations db) = Some r"
  shows "save_operation db o' cid now =
    Inr (db\<lparr>t_operations := tbl_upd opr_id (op_id o') (\<lambda>r. r\<lparr>opr_data := o', opr_updated := now\<rparr>) (t_operations db)\<rparr>)"
  using assms by (simp add: save_operation_def record_new_history_def history_exists_def tbl_upsert_def)

lemma save_run_known:
  assumes "tbl_get rr_id (run_id r) (t_runs db) = Some row"
  shows "save_run db r now =
    Inr (db\<lparr>t_runs := tbl_upd rr_id (run_id r) (\<lambda>x. x\<lparr>rr_data := r, rr_updated := now\<rparr>) (t_runs db)\<rparr>)"
  using assms by (simp add: save_run_def record_new_history_def history_exists_def tbl_upsert_def)

lemma save_ai_run_known:
  assumes "tbl_get airr_id (air_id a) (t_ai_runs db) = Some row"
  shows "save_ai_run db a cid oid now =
    Inr (db\<lparr>t_ai_runs := tbl_upd airr_id (air_id a) (\<lambda>x. x\<lparr>airr_data := a, airr_updated := now\<rparr>) (t_ai_runs db)\<rparr>)"
  using assms by (simp add: save_ai_run_def record_new_history_def history_exists_def tbl_upsert_def)

lemma save_operation_frame:
  assumes "save_operation db o' cid now = Inr db'"
  shows "t_collectors db' = t_collectors db" "t_deleted db' = t_deleted db" "t_collections db' = t_collections db"
    "t_jobs db' = t_jobs db" "t_next_job db' = t_next_job db"
    "t_ai_runs db' = t_ai_runs db" "t_ai_attempts db' = t_ai_attempts db" "t_runs db' = t_runs db"
    "t_batches db' = t_batches db" "t_deliveries db' = t_deliveries db" "t_schedules db' = t_schedules db"
    "t_audit db' = t_audit db" "t_receipts db' = t_receipts db"
  using assms by (auto simp: save_operation_def dest: record_new_history_frame split: sum.splits)

lemma save_run_frame:
  assumes "save_run db r now = Inr db'"
  shows "t_collectors db' = t_collectors db" "t_deleted db' = t_deleted db" "t_collections db' = t_collections db"
    "t_jobs db' = t_jobs db" "t_next_job db' = t_next_job db" "t_operations db' = t_operations db"
    "t_ai_runs db' = t_ai_runs db" "t_ai_attempts db' = t_ai_attempts db"
    "t_batches db' = t_batches db" "t_deliveries db' = t_deliveries db" "t_schedules db' = t_schedules db"
    "t_audit db' = t_audit db" "t_receipts db' = t_receipts db"
  using assms by (auto simp: save_run_def dest: record_new_history_frame split: sum.splits)

lemma save_ai_run_frame:
  assumes "save_ai_run db a cid oid now = Inr db'"
  shows "t_collectors db' = t_collectors db" "t_deleted db' = t_deleted db" "t_collections db' = t_collections db"
    "t_jobs db' = t_jobs db" "t_next_job db' = t_next_job db" "t_operations db' = t_operations db"
    "t_runs db' = t_runs db" "t_ai_attempts db' = t_ai_attempts db"
    "t_batches db' = t_batches db" "t_deliveries db' = t_deliveries db" "t_schedules db' = t_schedules db"
    "t_audit db' = t_audit db" "t_receipts db' = t_receipts db"
  using assms by (auto simp: save_ai_run_def dest: record_new_history_frame split: sum.splits)

lemma save_collector_frame:
  assumes "save_collector db c m now = Inr (db', c')"
  shows "t_deleted db' = t_deleted db" "t_collections db' = t_collections db"
    "t_jobs db' = t_jobs db" "t_next_job db' = t_next_job db" "t_operations db' = t_operations db"
    "t_runs db' = t_runs db" "t_ai_runs db' = t_ai_runs db" "t_ai_attempts db' = t_ai_attempts db"
    "t_batches db' = t_batches db" "t_deliveries db' = t_deliveries db" "t_schedules db' = t_schedules db"
    "t_audit db' = t_audit db" "t_receipts db' = t_receipts db"
  using assms by (auto simp: save_collector_def Let_def split: if_splits)

text \<open>The same, as the tables a save can change.\<close>

lemma record_new_history_only:
  assumes "record_new_history db kind rid rv cid = Inr db'"
  obtains ow where "db' = db\<lparr>t_ownership := ow\<rparr>"
proof -
  have "\<exists>ow. save_attribution d k r c v = d\<lparr>t_ownership := ow\<rparr>" for d k r c v
  proof (cases "save_attribution d k r c v = d")
    case True
    have "d = d\<lparr>t_ownership := t_ownership d\<rparr>" by simp
    with True show ?thesis by metis
  next
    case False
    then show ?thesis by (auto simp: save_attribution_def split: option.splits if_splits)
  qed
  moreover have "db = db\<lparr>t_ownership := t_ownership db\<rparr>" by simp
  moreover have "db' = db \<or> (\<exists>k r c v. db' = save_attribution db k r c v)"
    using assms by (auto simp: record_new_history_def Let_def split: if_splits option.splits)
  ultimately show ?thesis using that by metis
qed

lemma save_operation_only:
  assumes "save_operation db o' cid now = Inr db'"
  obtains ow ops where "db' = db\<lparr>t_ownership := ow, t_operations := ops\<rparr>"
  using assms by (auto simp: save_operation_def elim!: record_new_history_only split: sum.splits)

lemma save_run_only:
  assumes "save_run db r now = Inr db'"
  obtains ow rs where "db' = db\<lparr>t_ownership := ow, t_runs := rs\<rparr>"
  using assms by (auto simp: save_run_def elim!: record_new_history_only split: sum.splits)

lemma save_ai_run_only:
  assumes "save_ai_run db a cid oid now = Inr db'"
  obtains ow rs where "db' = db\<lparr>t_ownership := ow, t_ai_runs := rs\<rparr>"
  using assms by (auto simp: save_ai_run_def elim!: record_new_history_only split: sum.splits)

lemma save_collector_only:
  assumes "save_collector db c m now = Inr (db', c')"
  obtains cs where "db' = db\<lparr>t_collectors := cs\<rparr>"
  using assms by (auto simp: save_collector_def Let_def split: if_splits)

subsection \<open>Optimistic concurrency of collectors\<close>

definition stored_collector :: "db \<Rightarrow> string \<Rightarrow> collector option" where
  "stored_collector db cid = map_option colr_data (tbl_get colr_id cid (t_collectors db))"

lemma save_collector_stored:
  assumes "save_collector db c m now = Inr (db', c')"
  shows "stored_collector db' cid = (if cid = col_id c then Some c' else stored_collector db cid)"
    and "col_id c' = col_id c"
proof -
  show id: "col_id c' = col_id c"
    using assms by (auto simp: save_collector_def Let_def split: if_splits)
  have "db' = db\<lparr>t_collectors := tbl_upsert colr_id
      \<lparr>colr_id = col_id c', colr_data = c', colr_created = now, colr_updated = now\<rparr>
      (\<lambda>r. r\<lparr>colr_data := c', colr_updated := now\<rparr>) (t_collectors db)\<rparr>"
    using assms by (auto simp: save_collector_def Let_def split: if_splits)
  then show "stored_collector db' cid = (if cid = col_id c then Some c' else stored_collector db cid)"
    by (auto simp: stored_collector_def tbl_get_upsert id split: option.splits)
qed

lemma get_collector_stored:
  assumes "get_collector db cid = Some c"
  obtains old where "stored_collector db cid = Some old" "c = old\<lparr>col_collection_name := col_collection_name c\<rparr>"
    "\<not> is_deleted db cid"
  using assms by (auto simp: get_collector_def stored_collector_def split: option.splits if_splits)

lemma save_collector_ordinary:
  assumes "save_collector db c False now = Inr (db', c')"
  shows "c' = c" "stored_collector db' cid = (if cid = col_id c then Some c else stored_collector db cid)"
    "\<exists>cs. db' = db\<lparr>t_collectors := cs\<rparr>"
proof -
  show c': "c' = c" using assms by (auto simp: save_collector_def Let_def split: if_splits)
  show "stored_collector db' cid = (if cid = col_id c then Some c else stored_collector db cid)"
    using save_collector_stored(1) [OF assms] unfolding c' .
  show "\<exists>cs. db' = db\<lparr>t_collectors := cs\<rparr>" using save_collector_only [OF assms] by blast
qed

lemma stored_collector_cong: "t_collectors db' = t_collectors db \<Longrightarrow> stored_collector db' cid = stored_collector db cid"
  by (simp add: stored_collector_def)

text \<open>
  C22. Collector writes never lose a management change: an ordinary write only succeeds
  when it carries the stored revision and lifecycle, and leaves both as they are; a
  management write raises the revision by one; a tombstoned collector is never written.
\<close>

theorem save_collector_no_lost_update:
  assumes "save_collector db c m now = Inr (db', c')"
    and "stored_collector db (col_id c) = Some old"
  shows "\<not> is_deleted db (col_id c) \<and>
    (\<not> m \<longrightarrow> col_revision c = col_revision old \<and> col_lifecycle c = col_lifecycle old \<and> c' = c) \<and>
    (m \<longrightarrow> col_revision c' = col_revision old + 1) \<and>
    stored_collector db' (col_id c) = Some c'"
proof (intro conjI)
  show "stored_collector db' (col_id c) = Some c'"
    using save_collector_stored(1) [OF assms(1), of "col_id c"] by simp
  show "\<not> is_deleted db (col_id c)"
    and "\<not> m \<longrightarrow> col_revision c = col_revision old \<and> col_lifecycle c = col_lifecycle old \<and> c' = c"
    and "m \<longrightarrow> col_revision c' = col_revision old + 1"
    using assms by (auto simp: save_collector_def stored_collector_def Let_def split: if_splits)
qed

definition example_collector :: collector where
  "example_collector =
     \<lparr>col_id = ''collector_a'', col_name = ''A'', col_intent = ''notices'', col_source_url = ''https://a.test/'',
      col_source_host = ''a.test'', col_lifecycle = Active, col_revision = 3, col_status = ''published'',
      col_collection_id = ''collection_a'', col_collection_name = ''A'', col_collection_version = ''colver_a'',
      col_active_rule = Some ''rule_a'', col_active_operation = None, col_latest_run = None,
      col_updated = JustNow, col_candidate = None, col_preview_items = [], col_review_decisions = None,
      col_policy_id = None, col_policy = None, col_checkpoint = None, col_schedule = None,
      col_pending_version = None, col_migration = None, col_coverage = None, col_reassigned = False,
      col_quality_backlog = None\<rparr>"

definition example_db :: db where
  "example_db = empty_db\<lparr>t_collectors :=
     [\<lparr>colr_id = ''collector_a'', colr_data = example_collector, colr_created = 0, colr_updated = 0\<rparr>]\<rparr>"

theorem save_collector_no_lost_update_witness:
  "\<exists>db' c'. save_collector example_db (example_collector\<lparr>col_status := ''draft''\<rparr>) True 7 = Inr (db', c') \<and>
     col_revision c' = 4"
proof -
  have stored: "stored_collector example_db (col_id (example_collector\<lparr>col_status := ''draft''\<rparr>)) = Some example_collector"
    by (simp add: stored_collector_def example_db_def example_collector_def)
  obtain db' c' where run: "save_collector example_db (example_collector\<lparr>col_status := ''draft''\<rparr>) True 7 = Inr (db', c')"
    by (simp add: save_collector_def example_db_def empty_db_def is_deleted_def Let_def)
  then have "col_revision c' = col_revision example_collector + 1"
    using save_collector_no_lost_update [OF run stored] by simp
  with run show ?thesis by (auto simp: example_collector_def)
qed

end
