(* ===== verification/Audit_Log.thy ===== *)
theory Audit_Log
  imports Collectors
begin

text \<open>
  The hash-chained audit log and the signing keys (\<open>store.py\<close>). \<open>payload_hash\<close> is the
  parameter \<open>ph\<close>; a timestamp stands in a hashed document as its instant. Every
  command that changes the store appends its event in the same transaction.
\<close>

subsection \<open>Appending and verifying\<close>

record audit_args =
  aa_tenant :: string
  aa_actor :: string
  aa_action :: string
  aa_request :: string
  aa_details :: json

text \<open>The document of an event without its hash, keys in the order \<open>sort_keys\<close> gives them.\<close>

definition event_json :: "audit_event \<Rightarrow> json" where
  "event_json e = JObj
     [(''action'', JStr (ae_action e)), (''actorId'', JStr (ae_actor e)), (''afterDigest'', jopt (ae_after e)),
      (''beforeDigest'', jopt (ae_before e)), (''details'', ae_details e), (''id'', JStr (ae_id e)),
      (''occurredAt'', JNum (ae_occurred e)), (''previousEventId'', jopt (ae_previous e)),
      (''requestId'', JStr (ae_request e)), (''targetId'', JStr (ae_target_id e)),
      (''targetType'', JStr (ae_target_type e)), (''tenantId'', JStr (ae_tenant e))]"

definition chain_doc :: "audit_event \<Rightarrow> string option \<Rightarrow> json" where
  "chain_doc e previous_hash =
     JObj [(''event'', event_json e), (''previousEventHash'', jopt previous_hash)]"

definition event_hash :: "hasher \<Rightarrow> audit_event \<Rightarrow> string option \<Rightarrow> string" where
  "event_hash ph e previous_hash = sha256_tag (ph (chain_doc e previous_hash))"

definition tenant_rows :: "db \<Rightarrow> string \<Rightarrow> audit_row list" where
  "tenant_rows db tenant = filter (\<lambda>r. aur_tenant r = tenant) (t_audit db)"

definition next_audit_row ::
  "hasher \<Rightarrow> db \<Rightarrow> string \<Rightarrow> string \<Rightarrow> string \<Rightarrow> string \<Rightarrow> audit_args \<Rightarrow> string option \<Rightarrow> string option \<Rightarrow> ts \<Rightarrow> audit_row"
where
  "next_audit_row ph db event_id tenant target_type target_id audit before after now =
     (let rows = tenant_rows db tenant;
          previous = (if rows = [] then None else Some (last rows));
          e = \<lparr>ae_id = event_id, ae_tenant = tenant, ae_actor = aa_actor audit, ae_action = aa_action audit,
               ae_target_type = target_type, ae_target_id = target_id, ae_before = before, ae_after = after,
               ae_request = aa_request audit, ae_occurred = now,
               ae_previous = map_option aur_id previous, ae_details = aa_details audit\<rparr>;
          h = event_hash ph e (map_option aur_hash previous)
      in \<lparr>aur_id = event_id, aur_tenant = tenant, aur_hash = h, aur_data = e, aur_data_hash = Some h,
          aur_created = now\<rparr>)"

definition append_audit_event ::
  "hasher \<Rightarrow> db \<Rightarrow> string \<Rightarrow> string \<Rightarrow> string \<Rightarrow> string \<Rightarrow> audit_args \<Rightarrow> string option \<Rightarrow> string option \<Rightarrow> ts \<Rightarrow> db"
where
  "append_audit_event ph db event_id tenant target_type target_id audit before after now =
     db\<lparr>t_audit := t_audit db @
       [next_audit_row ph db event_id tenant target_type target_id audit before after now]\<rparr>"

fun verify_rows :: "hasher \<Rightarrow> string option \<Rightarrow> string option \<Rightarrow> audit_row list \<Rightarrow> bool" where
  "verify_rows ph previous_id previous_hash [] = True"
| "verify_rows ph previous_id previous_hash (r # rs) =
     (let expected = event_hash ph (aur_data r) previous_hash
      in if aur_data_hash r \<noteq> Some expected \<or> aur_hash r \<noteq> expected \<or> ae_previous (aur_data r) \<noteq> previous_id
         then False
         else verify_rows ph (Some (aur_id r)) (Some expected) rs)"

definition verify_audit_chain :: "hasher \<Rightarrow> db \<Rightarrow> string \<Rightarrow> bool" where
  "verify_audit_chain ph db tenant = verify_rows ph None None (tenant_rows db tenant)"

lemma append_audit_event_only:
  obtains rows where "append_audit_event ph db i tn tt tid aa b a now = db\<lparr>t_audit := rows\<rparr>"
  by (auto simp: append_audit_event_def)

lemma verify_rows_snoc:
  "verify_rows ph pid phash (rs @ [r]) \<longleftrightarrow>
     verify_rows ph pid phash rs \<and>
     (let last_id = (if rs = [] then pid else Some (aur_id (last rs)));
          last_hash = (if rs = [] then phash else Some (aur_hash (last rs)));
          expected = event_hash ph (aur_data r) last_hash
      in aur_data_hash r = Some expected \<and> aur_hash r = expected \<and> ae_previous (aur_data r) = last_id)"
  by (induction rs arbitrary: pid phash) (auto simp: Let_def)

lemma append_audit_frame [simp]:
  "t_collectors (append_audit_event ph db i tn tt tid aa b a now) = t_collectors db"
  "t_deleted (append_audit_event ph db i tn tt tid aa b a now) = t_deleted db"
  "t_collections (append_audit_event ph db i tn tt tid aa b a now) = t_collections db"
  "t_versions (append_audit_event ph db i tn tt tid aa b a now) = t_versions db"
  "t_suggestion_collections (append_audit_event ph db i tn tt tid aa b a now) = t_suggestion_collections db"
  "t_ownership (append_audit_event ph db i tn tt tid aa b a now) = t_ownership db"
  "t_migrations (append_audit_event ph db i tn tt tid aa b a now) = t_migrations db"
  "t_operations (append_audit_event ph db i tn tt tid aa b a now) = t_operations db"
  "t_jobs (append_audit_event ph db i tn tt tid aa b a now) = t_jobs db"
  "t_next_job (append_audit_event ph db i tn tt tid aa b a now) = t_next_job db"
  "t_ai_runs (append_audit_event ph db i tn tt tid aa b a now) = t_ai_runs db"
  "t_ai_attempts (append_audit_event ph db i tn tt tid aa b a now) = t_ai_attempts db"
  "t_invocations (append_audit_event ph db i tn tt tid aa b a now) = t_invocations db"
  "t_runs (append_audit_event ph db i tn tt tid aa b a now) = t_runs db"
  "t_items (append_audit_event ph db i tn tt tid aa b a now) = t_items db"
  "t_policies (append_audit_event ph db i tn tt tid aa b a now) = t_policies db"
  "t_checkpoints (append_audit_event ph db i tn tt tid aa b a now) = t_checkpoints db"
  "t_schedules (append_audit_event ph db i tn tt tid aa b a now) = t_schedules db"
  "t_occurrences (append_audit_event ph db i tn tt tid aa b a now) = t_occurrences db"
  "t_sinks (append_audit_event ph db i tn tt tid aa b a now) = t_sinks db"
  "t_deliveries (append_audit_event ph db i tn tt tid aa b a now) = t_deliveries db"
  "t_delivery_attempts (append_audit_event ph db i tn tt tid aa b a now) = t_delivery_attempts db"
  "t_receipts (append_audit_event ph db i tn tt tid aa b a now) = t_receipts db"
  "t_signing_keys (append_audit_event ph db i tn tt tid aa b a now) = t_signing_keys db"
  "t_rules (append_audit_event ph db i tn tt tid aa b a now) = t_rules db"
  "t_attestations (append_audit_event ph db i tn tt tid aa b a now) = t_attestations db"
  "t_batches (append_audit_event ph db i tn tt tid aa b a now) = t_batches db"
  by (simp_all add: append_audit_event_def)

lemma next_audit_row_fields [simp]:
  "aur_id (next_audit_row ph db i tn tt tid aa b a now) = i"
  "aur_tenant (next_audit_row ph db i tn tt tid aa b a now) = tn"
  "aur_data_hash (next_audit_row ph db i tn tt tid aa b a now) = Some (aur_hash (next_audit_row ph db i tn tt tid aa b a now))"
  "ae_action (aur_data (next_audit_row ph db i tn tt tid aa b a now)) = aa_action aa"
  "ae_target_id (aur_data (next_audit_row ph db i tn tt tid aa b a now)) = tid"
  "ae_before (aur_data (next_audit_row ph db i tn tt tid aa b a now)) = b"
  "ae_after (aur_data (next_audit_row ph db i tn tt tid aa b a now)) = a"
  by (simp_all add: next_audit_row_def Let_def)

lemma next_audit_row_links:
  "ae_previous (aur_data (next_audit_row ph db i tn tt tid aa b a now)) =
     (if tenant_rows db tn = [] then None else Some (aur_id (last (tenant_rows db tn))))"
  "aur_hash (next_audit_row ph db i tn tt tid aa b a now) =
     event_hash ph (aur_data (next_audit_row ph db i tn tt tid aa b a now))
       (if tenant_rows db tn = [] then None else Some (aur_hash (last (tenant_rows db tn))))"
  by (simp_all add: next_audit_row_def Let_def)

lemma tenant_rows_append:
  "tenant_rows (append_audit_event ph db i tn tt tid aa b a now) t =
     (if t = tn then tenant_rows db t @ [next_audit_row ph db i tn tt tid aa b a now] else tenant_rows db t)"
  by (simp add: append_audit_event_def tenant_rows_def)

text \<open>
  Appending an audit event neither breaks nor repairs any tenant's chain: the chain
  verifies afterwards exactly when it verified before.
\<close>

lemma audit_append_verifies:
  "verify_audit_chain ph (append_audit_event ph db i tn tt tid aa b a now) t \<longleftrightarrow> verify_audit_chain ph db t"
  by (simp add: verify_audit_chain_def tenant_rows_append verify_rows_snoc next_audit_row_links)

subsection \<open>Tamper evidence\<close>

text \<open>The documents hashed by a chain.\<close>

fun chain_docs :: "string option \<Rightarrow> audit_row list \<Rightarrow> json list" where
  "chain_docs previous_hash [] = []"
| "chain_docs previous_hash (r # rs) = chain_doc (aur_data r) previous_hash # chain_docs (Some (aur_hash r)) rs"

lemma event_json_inject: "event_json a = event_json b \<Longrightarrow> a = b"
  by (cases a; cases b) (auto simp: event_json_def jopt_def split: option.splits)

lemma chain_doc_inject: "chain_doc a p = chain_doc b q \<longleftrightarrow> a = b \<and> p = q"
  by (auto simp: chain_doc_def jopt_def dest: event_json_inject split: option.splits)

lemma chain_docs_snoc:
  "chain_docs p (rs @ [r]) = chain_docs p rs @
     [chain_doc (aur_data r) (if rs = [] then p else Some (aur_hash (last rs)))]"
  by (induction rs arbitrary: p) auto

lemma sha256_tag_inject: "sha256_tag a = sha256_tag b \<longleftrightarrow> a = b"
  by (simp add: sha256_tag_def)

lemma same_head_same_chain:
  assumes "verify_rows ph None None xs" and "verify_rows ph None None ys"
    and "inj_on ph (set (chain_docs None xs) \<union> set (chain_docs None ys))"
    and "xs \<noteq> []" and "ys \<noteq> []" and "aur_hash (last xs) = aur_hash (last ys)"
  shows "map aur_data xs = map aur_data ys"
  using assms
proof (induction xs arbitrary: ys rule: rev_induct)
  case Nil
  then show ?case by simp
next
  case (snoc x xs)
  from snoc.prems obtain y ys' where ys: "ys = ys' @ [y]" by (metis rev_exhaust)
  define p where "p = (if xs = [] then None else Some (aur_hash (last xs)))"
  define q where "q = (if ys' = [] then None else Some (aur_hash (last ys')))"
  have hx: "aur_hash x = event_hash ph (aur_data x) p" and hy: "aur_hash y = event_hash ph (aur_data y) q"
    and vx: "verify_rows ph None None xs" and vy: "verify_rows ph None None ys'"
    using snoc.prems by (simp_all add: ys verify_rows_snoc Let_def p_def q_def)
  have "ph (chain_doc (aur_data x) p) = ph (chain_doc (aur_data y) q)"
    using snoc.prems hx hy by (simp add: ys event_hash_def sha256_tag_inject)
  then have "chain_doc (aur_data x) p = chain_doc (aur_data y) q"
    by (rule inj_onD [OF snoc.prems(3)]) (simp_all add: ys chain_docs_snoc p_def q_def)
  then have xy: "aur_data x = aur_data y" and pq: "p = q" by (simp_all add: chain_doc_inject)
  have "map aur_data xs = map aur_data ys'"
  proof (cases "xs = []")
    case True
    with pq have "ys' = []" by (simp add: p_def q_def split: if_splits)
    with True show ?thesis by simp
  next
    case False
    with pq have ne: "ys' \<noteq> []" and eq: "aur_hash (last xs) = aur_hash (last ys')"
      by (auto simp: p_def q_def split: if_splits)
    have "inj_on ph (set (chain_docs None xs) \<union> set (chain_docs None ys'))"
      by (rule inj_on_subset [OF snoc.prems(3)]) (auto simp: ys chain_docs_snoc)
    from snoc.IH [OF vx vy this False ne eq] show ?thesis .
  qed
  with xy show ?case by (simp add: ys)
qed

text \<open>
  C11. Tamper evidence: two logs of a tenant that both verify and end in the same event
  hash hold the same events in the same order, unless two of their documents collide
  under the hash. So an event that was changed, removed or reordered anywhere below a
  known head hash makes the verification fail.
\<close>

theorem audit_tamper_evident:
  assumes "verify_audit_chain ph db tenant" and "verify_audit_chain ph db' tenant"
    and "inj_on ph (set (chain_docs None (tenant_rows db tenant)) \<union> set (chain_docs None (tenant_rows db' tenant)))"
    and "tenant_rows db tenant \<noteq> []" and "tenant_rows db' tenant \<noteq> []"
    and "aur_hash (last (tenant_rows db tenant)) = aur_hash (last (tenant_rows db' tenant))"
  shows "map aur_data (tenant_rows db tenant) = map aur_data (tenant_rows db' tenant)"
  using same_head_same_chain [OF assms(1,2)[unfolded verify_audit_chain_def] assms(3-6)] .

definition example_audit :: audit_args where
  "example_audit = \<lparr>aa_tenant = ''t1'', aa_actor = ''user_a'', aa_action = ''collector.archive'',
     aa_request = ''req_1'', aa_details = JNull\<rparr>"

text \<open>A hash for the examples: it tells the documents of the two-event log below apart.\<close>

definition example_hash :: hasher where
  "example_hash j = (case j of JObj [_, (_, JStr s)] \<Rightarrow> ''H'' @ s | _ \<Rightarrow> ''h0'')"

definition example_log :: db where
  "example_log =
     append_audit_event example_hash
       (append_audit_event example_hash empty_db ''audit_1'' ''t1'' ''Collector'' ''c1'' example_audit None None 5)
       ''audit_2'' ''t1'' ''Collector'' ''c2'' example_audit None (Some ''d'') 9"

theorem audit_tamper_evident_witness:
  "map aur_data (tenant_rows example_log ''t1'') = map aur_data (tenant_rows (example_log\<lparr>t_jobs := []\<rparr>) ''t1'') \<and>
   length (tenant_rows example_log ''t1'') = 2"
proof -
  have same: "tenant_rows (example_log\<lparr>t_jobs := []\<rparr>) ''t1'' = tenant_rows example_log ''t1''"
    by (simp add: tenant_rows_def)
  have v: "verify_audit_chain example_hash example_log ''t1''"
    unfolding example_log_def audit_append_verifies by (simp add: verify_audit_chain_def tenant_rows_def empty_db_def)
  have rows: "length (tenant_rows example_log ''t1'') = 2"
    by (simp add: example_log_def tenant_rows_append) (simp add: tenant_rows_def empty_db_def)
  then have ne: "tenant_rows example_log ''t1'' \<noteq> []" by auto
  have inj: "inj_on example_hash (set (chain_docs None (tenant_rows example_log ''t1'')))"
    by (simp add: example_log_def append_audit_event_def next_audit_row_def tenant_rows_def empty_db_def Let_def
        example_hash_def chain_doc_def jopt_def event_hash_def sha256_tag_def)
  show ?thesis
    using audit_tamper_evident [of example_hash example_log "''t1''" "example_log\<lparr>t_jobs := []\<rparr>"] v ne inj rows
    by (simp add: same verify_audit_chain_def)
qed

end
