(* ===== verification/Signing_Keys.thy ===== *)
theory Signing_Keys
  imports Audit_Log
begin

text \<open>
  Signing keys (\<open>Store.ensure_signing_key\<close>, \<open>Store.update_signing_key_status\<close>): a key is
  registered once, never rebound to another tenant or public key, and its status only
  moves forward. \<open>kj\<close> is the JSON document of a key, a parameter like the hash.
\<close>

definition get_signing_key :: "db \<Rightarrow> string \<Rightarrow> signing_key option" where
  "get_signing_key db kid = map_option skr_data (tbl_get skr_id kid (t_signing_keys db))"

definition ensure_signing_key ::
  "hasher \<Rightarrow> (signing_key \<Rightarrow> json) \<Rightarrow> db \<Rightarrow> signing_key \<Rightarrow> audit_args option \<Rightarrow> string \<Rightarrow> ts \<Rightarrow> py_exc + (db \<times> signing_key)"
where
  "ensure_signing_key ph kj db k audit event_id now =
     (case tbl_get skr_id (sk_id k) (t_signing_keys db) of
        Some row \<Rightarrow>
          (let existing = skr_data row
           in if sk_tenant existing \<noteq> sk_tenant k \<or> sk_public_pem existing \<noteq> sk_public_pem k
              then Inl (ValueErr ''signing key identity cannot be rebound'')
              else Inr (db, existing))
      | None \<Rightarrow>
          (let db1 = db\<lparr>t_signing_keys := t_signing_keys db @
                 [\<lparr>skr_id = sk_id k, skr_tenant = sk_tenant k, skr_status = sk_status k, skr_revision = sk_revision k,
                   skr_data = k, skr_created = now, skr_updated = now\<rparr>]\<rparr>
           in Inr (case audit of
                     None \<Rightarrow> db1
                   | Some aa \<Rightarrow> append_audit_event ph db1 event_id (sk_tenant k) ''SigningKey'' (sk_id k) aa
                                  None (Some (sha256_tag (ph (kj k)))) now, k)))"

definition allowed_key_transition :: "key_status \<Rightarrow> key_status \<Rightarrow> bool" where
  "allowed_key_transition old new =
     (case old of
        KPending \<Rightarrow> new \<in> {KTrusted, KCompromised}
      | KTrusted \<Rightarrow> new \<in> {KRetired, KCompromised}
      | KRetired \<Rightarrow> new \<in> {KCompromised}
      | KCompromised \<Rightarrow> False)"

definition key_status_name :: "key_status \<Rightarrow> string" where
  "key_status_name s = (case s of KPending \<Rightarrow> ''pending'' | KTrusted \<Rightarrow> ''trusted'' | KRetired \<Rightarrow> ''retired''
     | KCompromised \<Rightarrow> ''compromised'')"

definition update_signing_key_status ::
  "hasher \<Rightarrow> (signing_key \<Rightarrow> json) \<Rightarrow> db \<Rightarrow> string \<Rightarrow> key_status \<Rightarrow> string \<Rightarrow> string \<Rightarrow> ts option \<Rightarrow> string \<Rightarrow> ts \<Rightarrow>
   py_exc + (db \<times> signing_key)"
where
  "update_signing_key_status ph kj db kid status actor request effective_at event_id now =
     (if status = KPending then Inl (ValueErr ''unsupported signing key status'')
      else
        (case get_signing_key db kid of
           None \<Rightarrow> Inl (KeyErr kid)
         | Some k \<Rightarrow>
             if \<not> allowed_key_transition (sk_status k) status then Inl (ValueErr ''invalid signing key transition'')
             else
               (let k1 = k\<lparr>sk_status := status, sk_revision := sk_revision k + 1\<rparr>;
                    k2 = (if status = KRetired then k1\<lparr>sk_retired_at := Some now\<rparr>
                          else if status = KCompromised
                          then k1\<lparr>sk_compromise_at := Some (case effective_at of None \<Rightarrow> now | Some t \<Rightarrow> t)\<rparr>
                          else k1);
                    db1 = db\<lparr>t_signing_keys := tbl_upd skr_id kid
                            (\<lambda>r. r\<lparr>skr_status := status, skr_revision := sk_revision k2, skr_data := k2, skr_updated := now\<rparr>)
                            (t_signing_keys db)\<rparr>
                in Inr (append_audit_event ph db1 event_id (sk_tenant k2) ''SigningKey'' kid
                          \<lparr>aa_tenant = sk_tenant k2, aa_actor = actor,
                           aa_action = ''signing_key.'' @ key_status_name status, aa_request = request, aa_details = JObj []\<rparr>
                          (Some (sha256_tag (ph (kj k)))) (Some (sha256_tag (ph (kj k2)))) now, k2))))"

subsection \<open>One transition\<close>

lemma get_signing_key_audit [simp]:
  "get_signing_key (append_audit_event ph db i tn tt tid aa b a now) kid = get_signing_key db kid"
  by (simp add: get_signing_key_def)

lemma update_key_cases:
  assumes "update_signing_key_status ph kj db kid status actor request eff i now = Inr (db', k')"
  obtains k where "get_signing_key db kid = Some k" and "allowed_key_transition (sk_status k) status"
    and "sk_status k' = status" and "sk_revision k' = sk_revision k + 1"
    and "sk_tenant k' = sk_tenant k" and "sk_public_pem k' = sk_public_pem k"
    and "\<And>kid'. get_signing_key db' kid' = (if kid' = kid then Some k' else get_signing_key db kid')"
    and "t_audit db' = t_audit db @ [last (t_audit db')]"
    and "ae_before (aur_data (last (t_audit db'))) = Some (sha256_tag (ph (kj k)))"
    and "ae_after (aur_data (last (t_audit db'))) = Some (sha256_tag (ph (kj k')))"
    and "\<And>t. verify_audit_chain ph db' t = verify_audit_chain ph db t"
proof -
  from assms obtain k where k: "get_signing_key db kid = Some k" and al: "allowed_key_transition (sk_status k) status"
    by (auto simp: update_signing_key_status_def split: if_splits option.splits)
  then obtain row where row: "tbl_get skr_id kid (t_signing_keys db) = Some row"
    by (auto simp: get_signing_key_def)
  define db1 where "db1 = db\<lparr>t_signing_keys := tbl_upd skr_id kid
      (\<lambda>r. r\<lparr>skr_status := status, skr_revision := sk_revision k', skr_data := k', skr_updated := now\<rparr>) (t_signing_keys db)\<rparr>"
  define aa where "aa = \<lparr>aa_tenant = sk_tenant k', aa_actor = actor,
     aa_action = ''signing_key.'' @ key_status_name status, aa_request = request, aa_details = JObj []\<rparr>"
  have eq: "db' = append_audit_event ph db1 i (sk_tenant k') ''SigningKey'' kid aa
      (Some (sha256_tag (ph (kj k)))) (Some (sha256_tag (ph (kj k')))) now"
    using assms k al by (auto simp: update_signing_key_status_def Let_def db1_def aa_def split: if_splits)
  have fields: "sk_status k' = status" "sk_revision k' = sk_revision k + 1" "sk_tenant k' = sk_tenant k"
      "sk_public_pem k' = sk_public_pem k"
    using assms k al by (auto simp: update_signing_key_status_def Let_def split: if_splits)
  have get: "get_signing_key db' kid' = (if kid' = kid then Some k' else get_signing_key db kid')" for kid'
    unfolding eq using row by (simp add: db1_def get_signing_key_def tbl_get_upd)
  have same: "tenant_rows db1 t = tenant_rows db t" for t by (simp add: db1_def tenant_rows_def)
  have verify: "verify_audit_chain ph db' t = verify_audit_chain ph db t" for t
    unfolding eq by (simp add: verify_audit_chain_def tenant_rows_append verify_rows_snoc next_audit_row_links same)
  have aud: "t_audit db' = t_audit db @ [next_audit_row ph db1 i (sk_tenant k') ''SigningKey'' kid aa
      (Some (sha256_tag (ph (kj k)))) (Some (sha256_tag (ph (kj k')))) now]"
    by (simp add: eq append_audit_event_def) (simp add: db1_def)
  show ?thesis by (rule that [OF k al fields get _ _ _ verify]) (simp_all add: aud)
qed

text \<open>
  A successful status change of a signing key is one of the allowed transitions,
  raises the revision by one, keeps the key's tenant and public key, and appends exactly
  one audit event whose before and after digests are those of the two documents; the
  audit chains verify as before.
\<close>

lemma signing_key_transition:
  assumes "update_signing_key_status ph kj db kid status actor request eff i now = Inr (db', k')"
  shows "\<exists>k. get_signing_key db kid = Some k \<and> allowed_key_transition (sk_status k) status \<and>
           sk_status k' = status \<and> sk_revision k' = sk_revision k + 1 \<and> sk_tenant k' = sk_tenant k \<and>
           sk_public_pem k' = sk_public_pem k \<and> get_signing_key db' kid = Some k' \<and>
           t_audit db' = t_audit db @ [last (t_audit db')] \<and>
           ae_before (aur_data (last (t_audit db'))) = Some (sha256_tag (ph (kj k))) \<and>
           ae_after (aur_data (last (t_audit db'))) = Some (sha256_tag (ph (kj k'))) \<and>
           (\<forall>t. verify_audit_chain ph db' t = verify_audit_chain ph db t)"
  using assms by (elim update_key_cases) auto

definition example_key :: signing_key where
  "example_key = \<lparr>sk_id = ''key_a'', sk_tenant = ''t1'', sk_status = KTrusted, sk_revision = 2,
     sk_algorithm = ''Ed25519'', sk_public_pem = ''pem'', sk_retired_at = None, sk_compromise_at = None\<rparr>"

definition example_key_db :: db where
  "example_key_db = empty_db\<lparr>t_signing_keys :=
     [\<lparr>skr_id = ''key_a'', skr_tenant = ''t1'', skr_status = KTrusted, skr_revision = 2, skr_data = example_key,
       skr_created = 0, skr_updated = 0\<rparr>]\<rparr>"

lemma signing_key_transition_witness:
  "\<exists>db' k'. update_signing_key_status (\<lambda>_. ''h'') (\<lambda>_. JNull) example_key_db ''key_a'' KRetired ''u'' ''r'' None ''audit_9'' 7
     = Inr (db', k') \<and> sk_revision k' = 3"
proof -
  have get: "get_signing_key example_key_db ''key_a'' = Some example_key"
    by (simp add: get_signing_key_def example_key_db_def)
  obtain db' k' where run: "update_signing_key_status (\<lambda>_. ''h'') (\<lambda>_. JNull) example_key_db ''key_a'' KRetired ''u'' ''r'' None ''audit_9'' 7
      = Inr (db', k')"
    by (simp add: update_signing_key_status_def get allowed_key_transition_def example_key_def Let_def)
  have "sk_revision k' = 3"
    using signing_key_transition [OF run] get by (auto simp: example_key_def)
  with run show ?thesis by blast
qed

subsection \<open>The key machine\<close>

datatype key_event =
    EnsureKey signing_key "audit_args option" string ts
  | SetKeyStatus string key_status string string "ts option" string ts

definition key_step :: "hasher \<Rightarrow> (signing_key \<Rightarrow> json) \<Rightarrow> db \<Rightarrow> key_event \<Rightarrow> db" where
  "key_step ph kj db ev =
     (case ev of
        EnsureKey k audit i now \<Rightarrow> (case ensure_signing_key ph kj db k audit i now of Inl _ \<Rightarrow> db | Inr (d, _) \<Rightarrow> d)
      | SetKeyStatus kid st actor req eff i now \<Rightarrow>
          (case update_signing_key_status ph kj db kid st actor req eff i now of Inl _ \<Rightarrow> db | Inr (d, _) \<Rightarrow> d))"

definition key_rank :: "key_status \<Rightarrow> int" where
  "key_rank s = (case s of KPending \<Rightarrow> 0 | KTrusted \<Rightarrow> 1 | KRetired \<Rightarrow> 2 | KCompromised \<Rightarrow> 3)"

text \<open>The identity of a registered key, and how far its status has moved.\<close>

definition key_identity :: "string \<Rightarrow> string \<Rightarrow> string \<Rightarrow> db \<Rightarrow> bool" where
  "key_identity kid tenant pem db \<longleftrightarrow>
     (\<exists>k. get_signing_key db kid = Some k \<and> sk_tenant k = tenant \<and> sk_public_pem k = pem)"

definition key_progress :: "string \<Rightarrow> db \<Rightarrow> int" where
  "key_progress kid db = (case get_signing_key db kid of None \<Rightarrow> -1 | Some k \<Rightarrow> key_rank (sk_status k))"

lemma ensure_key_cases:
  assumes "ensure_signing_key ph kj db k audit i now = Inr (db', k')" and "get_signing_key db kid = Some k0"
  shows "get_signing_key db' kid = Some k0"
  using assms
  by (auto simp: ensure_signing_key_def get_signing_key_def Let_def tbl_get_append append_audit_event_def
      split: option.splits if_splits)

lemma allowed_rank: "allowed_key_transition a b \<Longrightarrow> key_rank a < key_rank b"
  by (auto simp: allowed_key_transition_def key_rank_def split: key_status.splits)

lemma key_step_keeps:
  assumes "key_identity kid tenant pem db"
  shows "key_identity kid tenant pem (key_step ph kj db ev) \<and> key_progress kid db \<le> key_progress kid (key_step ph kj db ev)"
proof -
  from assms obtain k0 where k0: "get_signing_key db kid = Some k0" "sk_tenant k0 = tenant" "sk_public_pem k0 = pem"
    by (auto simp: key_identity_def)
  show ?thesis
  proof (cases ev)
    case (EnsureKey k audit i now)
    show ?thesis
    proof (cases "ensure_signing_key ph kj db k audit i now")
      case (Inl e)
      then show ?thesis using assms EnsureKey by (simp add: key_step_def)
    next
      case (Inr p)
      then obtain db' k' where run: "ensure_signing_key ph kj db k audit i now = Inr (db', k')" by (cases p) auto
      from ensure_key_cases [OF run k0(1)] show ?thesis
        using run k0 EnsureKey by (simp add: key_step_def key_identity_def key_progress_def)
    qed
  next
    case (SetKeyStatus kid' st actor req eff i now)
    show ?thesis
    proof (cases "update_signing_key_status ph kj db kid' st actor req eff i now")
      case (Inl e)
      then show ?thesis using assms SetKeyStatus by (simp add: key_step_def)
    next
      case (Inr p)
      then obtain db' k' where run: "update_signing_key_status ph kj db kid' st actor req eff i now = Inr (db', k')"
        by (cases p) auto
      then obtain k where k: "get_signing_key db kid' = Some k" "allowed_key_transition (sk_status k) st"
        "sk_status k' = st" "sk_tenant k' = sk_tenant k" "sk_public_pem k' = sk_public_pem k"
        and get: "\<And>x. get_signing_key db' x = (if x = kid' then Some k' else get_signing_key db x)"
        by (elim update_key_cases) blast
      show ?thesis
        using run k k0 get [of kid] allowed_rank [OF k(2)] SetKeyStatus
        by (cases "kid = kid'") (simp_all add: key_step_def key_identity_def key_progress_def)
    qed
  qed
qed

interpretation key_machine: step_machine "key_step ph kj" "key_identity kid tenant pem" "key_progress kid"
  for ph kj kid tenant pem
  by unfold_locales (simp_all add: key_step_keeps)

text \<open>
  Over any sequence of registrations and status changes a signing key keeps its
  tenant and public key and its status never moves back: a retired key is never trusted
  again, a compromised key stays compromised.
\<close>

lemma signing_key_never_regresses:
  assumes "get_signing_key db kid = Some k"
  shows "\<exists>k'. get_signing_key (foldl (key_step ph kj) db evs) kid = Some k' \<and>
           sk_tenant k' = sk_tenant k \<and> sk_public_pem k' = sk_public_pem k \<and>
           key_rank (sk_status k) \<le> key_rank (sk_status k') \<and>
           (sk_status k = KCompromised \<longrightarrow> sk_status k' = KCompromised)"
proof -
  have start: "key_identity kid (sk_tenant k) (sk_public_pem k) db"
    using assms by (simp add: key_identity_def)
  from key_machine.run_inv [OF start, of ph kj evs] obtain k' where
    k': "get_signing_key (foldl (key_step ph kj) db evs) kid = Some k'"
      "sk_tenant k' = sk_tenant k" "sk_public_pem k' = sk_public_pem k"
    by (auto simp: key_identity_def)
  have "key_rank (sk_status k) \<le> key_rank (sk_status k')"
    using key_machine.run_rank [OF start, of ph kj evs] assms k' by (simp add: key_progress_def)
  moreover from this have "sk_status k = KCompromised \<longrightarrow> sk_status k' = KCompromised"
    by (auto simp: key_rank_def split: key_status.splits)
  ultimately show ?thesis using k' by blast
qed

theorem signing_key_never_regresses_witness:
  "\<exists>k'. get_signing_key (foldl (key_step (\<lambda>_. ''h'') (\<lambda>_. JNull)) example_key_db
       [SetKeyStatus ''key_a'' KRetired ''u'' ''r'' None ''audit_9'' 7,
        SetKeyStatus ''key_a'' KTrusted ''u'' ''r'' None ''audit_10'' 9]) ''key_a'' = Some k' \<and>
     1 \<le> key_rank (sk_status k')"
proof -
  have "get_signing_key example_key_db ''key_a'' = Some example_key"
    by (simp add: get_signing_key_def example_key_db_def)
  from signing_key_never_regresses [OF this, of "\<lambda>_. ''h''" "\<lambda>_. JNull"
      "[SetKeyStatus ''key_a'' KRetired ''u'' ''r'' None ''audit_9'' 7, SetKeyStatus ''key_a'' KTrusted ''u'' ''r'' None ''audit_10'' 9]"]
  have "\<exists>k'. get_signing_key (foldl (key_step (\<lambda>_. ''h'') (\<lambda>_. JNull)) example_key_db
       [SetKeyStatus ''key_a'' KRetired ''u'' ''r'' None ''audit_9'' 7,
        SetKeyStatus ''key_a'' KTrusted ''u'' ''r'' None ''audit_10'' 9]) ''key_a'' = Some k' \<and>
     key_rank (sk_status example_key) \<le> key_rank (sk_status k')" by blast
  then show ?thesis by (simp only: example_key_def signing_key.simps key_rank_def key_status.case)
qed

end
