(* ===== verification/Receipts.thy ===== *)
theory Receipts
  imports Audit_Log
begin

text \<open>
  Idempotency receipts: the transactional receipts of the reviewed commands
  (\<open>collection_workflows.receipt\<close>, \<open>finish_command\<close>) and the ones of the HTTP layer
  (\<open>Store.idempotency_replay\<close>, \<open>Store.remember_idempotency\<close>). The locale
  \<open>idempotent_command\<close> states what every command built on them promises: the commands
  interpret it in their own theories.
\<close>

definition find_receipt :: "db \<Rightarrow> string \<Rightarrow> string \<Rightarrow> receipt_row option" where
  "find_receipt db scope key = find (\<lambda>r. rc_scope r = scope \<and> rc_key r = key) (t_receipts db)"

definition receipt :: "hasher \<Rightarrow> db \<Rightarrow> string \<Rightarrow> string \<Rightarrow> json \<Rightarrow> py_exc + (int \<times> json) option" where
  "receipt ph db scope key body =
     (case find_receipt db scope key of
        None \<Rightarrow> Inr None
      | Some r \<Rightarrow>
          if rc_request_hash r \<noteq> ph body then Inl (IdempotencyConflict key)
          else Inr (Some (rc_status r, rc_response r)))"

text \<open>The outcome of a command: the new store, the HTTP status, the response, and whether it was replayed.\<close>

type_synonym outcome = "py_exc + (db \<times> int \<times> json \<times> bool)"

definition finish_command ::
  "hasher \<Rightarrow> db \<Rightarrow> string \<Rightarrow> string \<Rightarrow> json \<Rightarrow> json \<Rightarrow> int \<Rightarrow> audit_args \<Rightarrow> string \<Rightarrow> string \<Rightarrow> string \<Rightarrow> string \<Rightarrow> ts \<Rightarrow> outcome"
where
  "finish_command ph db scope key body value status audit target_type target_id action event_id now =
     (let db1 = append_audit_event ph db event_id (aa_tenant audit) target_type target_id
                  (audit\<lparr>aa_action := action\<rparr>) None (Some (sha256_tag (ph value))) now
      in if find_receipt db1 scope key \<noteq> None then Inl UniqueViolation
         else Inr (db1\<lparr>t_receipts := t_receipts db1 @
                [\<lparr>rc_scope = scope, rc_key = key, rc_request_hash = ph body, rc_status = status, rc_response = value,
                  rc_created = now\<rparr>]\<rparr>, status, value, False))"

text \<open>The frame every reviewed command has: replay its receipt, or run its body.\<close>

definition with_receipt ::
  "hasher \<Rightarrow> db \<Rightarrow> string \<Rightarrow> string \<Rightarrow> json \<Rightarrow> outcome \<Rightarrow> outcome" where
  "with_receipt ph db scope key body run =
     (case receipt ph db scope key body of
        Inl e \<Rightarrow> Inl e
      | Inr (Some (status, response)) \<Rightarrow> Inr (db, status, response, True)
      | Inr None \<Rightarrow> run)"

definition idempotency_replay :: "hasher \<Rightarrow> db \<Rightarrow> string \<Rightarrow> string \<Rightarrow> json \<Rightarrow> py_exc + (int \<times> json) option" where
  "idempotency_replay ph db scope key request =
     (let digest = ph request
      in (case find_receipt db scope key of
            None \<Rightarrow> Inr None
          | Some r \<Rightarrow> if rc_request_hash r \<noteq> digest then Inl (IdempotencyConflict key)
                      else Inr (Some (rc_status r, rc_response r))))"

text \<open>\<open>INSERT OR IGNORE\<close>: the first remembered response of a key stays.\<close>

definition remember_idempotency :: "hasher \<Rightarrow> db \<Rightarrow> string \<Rightarrow> string \<Rightarrow> json \<Rightarrow> int \<Rightarrow> json \<Rightarrow> ts \<Rightarrow> db" where
  "remember_idempotency ph db scope key request status response now =
     (if find_receipt db scope key \<noteq> None then db
      else db\<lparr>t_receipts := t_receipts db @
             [\<lparr>rc_scope = scope, rc_key = key, rc_request_hash = ph request, rc_status = status,
               rc_response = response, rc_created = now\<rparr>]\<rparr>)"

subsection \<open>Receipts stay\<close>

definition keeps_receipts :: "db \<Rightarrow> db \<Rightarrow> bool" where
  "keeps_receipts db db' \<longleftrightarrow>
     (\<forall>scope key r. find_receipt db scope key = Some r \<longrightarrow> find_receipt db' scope key = Some r)"

lemma keeps_receipts_refl [simp]: "keeps_receipts db db"
  by (simp add: keeps_receipts_def)

lemma keeps_receipts_same: "t_receipts db' = t_receipts db \<Longrightarrow> keeps_receipts db db'"
  by (simp add: keeps_receipts_def find_receipt_def)

lemma keeps_receipts_trans: "keeps_receipts a b \<Longrightarrow> keeps_receipts b c \<Longrightarrow> keeps_receipts a c"
  by (simp add: keeps_receipts_def)

lemma find_append: "find P (xs @ ys) = (case find P xs of Some x \<Rightarrow> Some x | None \<Rightarrow> find P ys)"
  by (induction xs) auto

lemma keeps_receipts_replay:
  "keeps_receipts db db' \<Longrightarrow> receipt ph db scope key body = Inr (Some v) \<Longrightarrow> receipt ph db' scope key body = Inr (Some v)"
  by (auto simp: keeps_receipts_def receipt_def split: option.splits if_splits)

lemma finish_command_cases:
  assumes "finish_command ph db scope key body value status audit tt tid action i now = Inr (db', st, v, rep)"
  shows "st = status" "v = value" "\<not> rep" "receipt ph db' scope key body = Inr (Some (status, value))"
    "keeps_receipts db db'" "\<And>t. verify_audit_chain ph db' t = verify_audit_chain ph db t"
    "db' = db\<lparr>t_audit := t_audit db', t_receipts := t_receipts db'\<rparr>"
    "t_audit db' = t_audit db @ [next_audit_row ph db i (aa_tenant audit) tt tid (audit\<lparr>aa_action := action\<rparr>) None
                                   (Some (sha256_tag (ph value))) now]"
proof -
  let ?db1 = "append_audit_event ph db i (aa_tenant audit) tt tid (audit\<lparr>aa_action := action\<rparr>) None
                (Some (sha256_tag (ph value))) now"
  let ?row = "\<lparr>rc_scope = scope, rc_key = key, rc_request_hash = ph body, rc_status = status, rc_response = value,
                  rc_created = now\<rparr>"
  have none: "find_receipt db scope key = None" and db': "db' = ?db1\<lparr>t_receipts := t_receipts db @ [?row]\<rparr>"
    and out: "st = status" "v = value" "\<not> rep"
    using assms by (auto simp: finish_command_def Let_def find_receipt_def split: if_splits)
  show "st = status" "v = value" "\<not> rep" by (fact out)+
  show "receipt ph db' scope key body = Inr (Some (status, value))"
    using none by (simp add: db' receipt_def find_receipt_def find_append)
  show "keeps_receipts db db'"
    by (simp add: db' keeps_receipts_def find_receipt_def find_append)
  have rows: "tenant_rows db' t = tenant_rows ?db1 t" for t by (simp add: db' tenant_rows_def)
  show "verify_audit_chain ph db' t = verify_audit_chain ph db t" for t
    unfolding verify_audit_chain_def rows
    by (simp add: tenant_rows_append verify_rows_snoc next_audit_row_links)
  show "db' = db\<lparr>t_audit := t_audit db', t_receipts := t_receipts db'\<rparr>"
    by (simp add: db' append_audit_event_def)
  show "t_audit db' = t_audit db @ [next_audit_row ph db i (aa_tenant audit) tt tid (audit\<lparr>aa_action := action\<rparr>) None
                                   (Some (sha256_tag (ph value))) now]"
    by (simp add: db' append_audit_event_def)
qed

subsection \<open>The contract of an idempotent command\<close>

text \<open>
  \<open>exec db c\<close> runs command \<open>c\<close>. A known receipt is replayed without touching the store,
  a receipt for another body is a conflict, a success leaves a receipt with its response,
  and no receipt is ever lost or rewritten.
\<close>

locale idempotent_command =
  fixes ph :: hasher
    and scope key :: "'c \<Rightarrow> string"
    and body :: "'c \<Rightarrow> json"
    and exec :: "db \<Rightarrow> 'c \<Rightarrow> outcome"
  assumes exec_replays:
      "receipt ph db (scope c) (key c) (body c) = Inr (Some (st, v)) \<Longrightarrow> exec db c = Inr (db, st, v, True)"
    and exec_conflicts: "receipt ph db (scope c) (key c) (body c) = Inl e \<Longrightarrow> exec db c = Inl e"
    and exec_records:
      "exec db c = Inr (db', st, v, rep) \<Longrightarrow>
       receipt ph db' (scope c) (key c) (body c) = Inr (Some (st, v)) \<and> keeps_receipts db db'"
begin

lemma retry: "exec db c = Inr (db', st, v, rep) \<Longrightarrow> exec db' c = Inr (db', st, v, True)"
  using exec_records exec_replays by blast

definition step :: "db \<Rightarrow> 'c \<Rightarrow> db" where
  "step db c = (case exec db c of Inl _ \<Rightarrow> db | Inr (db', _) \<Rightarrow> db')"

lemma step_keeps: "keeps_receipts db (step db c)"
proof (cases "exec db c")
  case (Inl e)
  then show ?thesis by (simp add: step_def)
next
  case (Inr p)
  then show ?thesis using exec_records [of db c] by (cases p) (auto simp: step_def)
qed

lemma run_keeps: "keeps_receipts db (foldl step db cs)"
proof (induction cs arbitrary: db)
  case Nil
  then show ?case by simp
next
  case (Cons c cs)
  then show ?case using step_keeps keeps_receipts_trans by fastforce
qed

lemma late_retry:
  assumes "exec db c = Inr (db', st, v, rep)" and "keeps_receipts db' db2"
  shows "exec db2 c = Inr (db2, st, v, True)"
  using assms exec_records [of db c] keeps_receipts_replay exec_replays by blast

lemma later_request_replays:
  assumes "exec db c = Inr (db', st, v, rep)" and "keeps_receipts db' db2"
    and "scope c' = scope c" and "key c' = key c" and "body c' = body c"
  shows "exec db2 c' = Inr (db2, st, v, True)"
proof -
  have "receipt ph db2 (scope c) (key c) (body c) = Inr (Some (st, v))"
    using assms(1,2) exec_records [of db c] keeps_receipts_replay by blast
  then show ?thesis using exec_replays assms(3-5) by metis
qed

lemma conflicting_retry:
  assumes "exec db c = Inr (db', st, v, rep)" and "keeps_receipts db' db2"
    and "scope c' = scope c" and "key c' = key c" and "ph (body c') \<noteq> ph (body c)"
  shows "exec db2 c' = Inl (IdempotencyConflict (key c))"
proof -
  have "receipt ph db2 (scope c) (key c) (body c) = Inr (Some (st, v))"
    using assms(1,2) exec_records [of db c] keeps_receipts_replay by blast
  then have "receipt ph db2 (scope c') (key c') (body c') = Inl (IdempotencyConflict (key c))"
    using assms(3-5) by (auto simp: receipt_def split: option.splits if_splits)
  then show ?thesis by (rule exec_conflicts)
qed

end

text \<open>A command built by \<open>with_receipt\<close> whose body ends in \<open>finish_command\<close> keeps the contract.\<close>

lemma with_receipt_replays:
  "receipt ph db scope key body = Inr (Some (st, v)) \<Longrightarrow> with_receipt ph db scope key body run = Inr (db, st, v, True)"
  by (simp add: with_receipt_def)

lemma with_receipt_conflicts:
  "receipt ph db scope key body = Inl e \<Longrightarrow> with_receipt ph db scope key body run = Inl e"
  by (simp add: with_receipt_def)

lemma with_receipt_cases:
  assumes "with_receipt ph db scope key body run = Inr (db', st, v, rep)"
  obtains (replayed) "receipt ph db scope key body = Inr (Some (st, v))" "db' = db" "rep"
    | (executed) "receipt ph db scope key body = Inr None" "run = Inr (db', st, v, rep)"
  using assms by (auto simp: with_receipt_def split: sum.splits option.splits)

lemma with_receipt_records:
  assumes "with_receipt ph db scope key body run = Inr (db', st, v, rep)"
    and "\<And>db' st v rep. run = Inr (db', st, v, rep) \<Longrightarrow>
         receipt ph db' scope key body = Inr (Some (st, v)) \<and> keeps_receipts db db'"
  shows "receipt ph db' scope key body = Inr (Some (st, v)) \<and> keeps_receipts db db'"
  using assms by (elim with_receipt_cases) auto

text \<open>
  The HTTP layer: the first remembered response of a key is what every later request with
  the same body gets, and a different body is refused.
\<close>

lemma replay_after_remember:
  assumes "find_receipt db scope key = None"
  shows "idempotency_replay ph (remember_idempotency ph db scope key request st v now) scope key request' =
    (if ph request' = ph request then Inr (Some (st, v)) else Inl (IdempotencyConflict key))"
  using assms by (simp add: idempotency_replay_def remember_idempotency_def find_receipt_def find_append)

end
