(* ===== verification/Texts.thy ===== *)
theory Texts
  imports Prelude "HOL-Library.Char_ord"
begin

text \<open>
  Identifiers and other texts: decimal numbers, ASCII case, stripping, and
  \<open>stable_id\<close> (store.py), which makes the ids of the store from a seed.
  Texts are lists of ASCII characters here.
\<close>

subsection \<open>Decimal text of a number\<close>

fun nat_text :: "nat \<Rightarrow> string" where
  "nat_text n = (if n < 10 then [char_of (48 + n)] else nat_text (n div 10) @ [char_of (48 + n mod 10)])"

declare nat_text.simps [simp del]

lemma char_of_digit_inject:
  fixes m n :: nat
  assumes mn: "m < 10" "n < 10"
  shows "(char_of (48 + m) = (char_of (48 + n) :: char)) \<longleftrightarrow> m = n"
proof -
  have "of_char (char_of (48 + m) :: char) = 48 + m" "of_char (char_of (48 + n) :: char) = 48 + n"
    using mn by (simp_all add: of_char_of)
  then show ?thesis by (metis add_left_cancel)
qed

lemma nat_text_nonempty [simp]: "nat_text n \<noteq> []"
  by (subst nat_text.simps) simp

lemma nat_text_inject: "nat_text m = nat_text n \<longleftrightarrow> m = n"
proof
  show "nat_text m = nat_text n \<Longrightarrow> m = n"
  proof (induction m arbitrary: n rule: nat_text.induct)
    case (1 m)
    have rec: "nat_text k = (if k < 10 then [] else nat_text (k div 10)) @ [char_of (48 + k mod 10)]" for k
      by (subst nat_text.simps) simp
    have last: "char_of (48 + m mod 10) = (char_of (48 + n mod 10) :: char)"
      and init: "(if m < 10 then [] else nat_text (m div 10)) = (if n < 10 then [] else nat_text (n div 10))"
      using "1.prems" by (simp_all add: rec [of m] rec [of n])
    from last have m: "m mod 10 = n mod 10" by (simp add: char_of_digit_inject)
    show ?case
    proof (cases "m < 10")
      case True
      with init have "n < 10" using nat_text_nonempty [of "n div 10"] by (cases "n < 10") simp_all
      with True m show ?thesis by simp
    next
      case False
      with init have n: "\<not> n < 10" using nat_text_nonempty [of "m div 10"] by (cases "n < 10") simp_all
      with False init have "m div 10 = n div 10" using "1.IH" by simp
      then have "m div 10 * 10 + m mod 10 = n div 10 * 10 + n mod 10" using m by simp
      then show ?thesis by (simp only: div_mult_mod_eq)
    qed
  qed
qed simp

subsection \<open>Case and stripping\<close>

definition is_upper :: "char \<Rightarrow> bool" where
  "is_upper c \<longleftrightarrow> CHR ''A'' \<le> c \<and> c \<le> CHR ''Z''"

definition is_lower :: "char \<Rightarrow> bool" where
  "is_lower c \<longleftrightarrow> CHR ''a'' \<le> c \<and> c \<le> CHR ''z''"

definition is_digit :: "char \<Rightarrow> bool" where
  "is_digit c \<longleftrightarrow> CHR ''0'' \<le> c \<and> c \<le> CHR ''9''"

text \<open>The number of a text of digits, as \<open>int\<close> reads it.\<close>

definition digits_value :: "string \<Rightarrow> nat" where
  "digits_value ds = foldl (\<lambda>n c. 10 * n + (of_char c - 48)) 0 ds"

lemma digit_char: "k < 10 \<Longrightarrow> is_digit (char_of (48 + k))"
  for k :: nat
  by (simp add: is_digit_def less_eq_char_def)

lemma nat_text_digits: "list_all is_digit (nat_text n)"
proof (induction n rule: nat_text.induct)
  case (1 n)
  then show ?case
    by (subst nat_text.simps) (auto simp del: char_of_eq_iff simp: digit_char)
qed

lemma digits_value_nat_text: "digits_value (nat_text n) = n"
proof (induction n rule: nat_text.induct)
  case (1 n)
  have step: "digits_value (ds @ [c]) = 10 * digits_value ds + (of_char c - 48)" for ds c by (simp add: digits_value_def)
  show ?case
  proof (cases "n < 10")
    case True
    then show ?thesis by (subst nat_text.simps) (simp add: digits_value_def)
  next
    case False
    have "of_char (char_of (48 + n mod 10) :: char) = (48 + n mod 10 :: nat)" by simp
    with 1 [OF False] False show ?thesis by (subst nat_text.simps) (simp add: step)
  qed
qed

definition lower_char :: "char \<Rightarrow> char" where
  "lower_char c = (if is_upper c then char_of ((of_char c :: nat) + 32) else c)"

definition lower :: "string \<Rightarrow> string" where
  "lower s = map lower_char s"

definition strip_chars :: "(char \<Rightarrow> bool) \<Rightarrow> string \<Rightarrow> string" where
  "strip_chars p s = rev (dropWhile p (rev (dropWhile p s)))"

definition is_space :: "char \<Rightarrow> bool" where
  "is_space c \<longleftrightarrow> c = CHR '' '' \<or> (of_char c :: nat) \<in> {9, 10, 11, 12, 13, 28, 29, 30, 31}"

definition strip :: "string \<Rightarrow> string" where
  "strip s = strip_chars is_space s"

definition starts_with :: "string \<Rightarrow> string \<Rightarrow> bool" where
  "starts_with p s \<longleftrightarrow> take (length p) s = p"

definition remove_prefix :: "string \<Rightarrow> string \<Rightarrow> string" where
  "remove_prefix p s = (if starts_with p s then drop (length p) s else s)"

fun is_infix :: "string \<Rightarrow> string \<Rightarrow> bool" where
  "is_infix t [] = (t = [])"
| "is_infix t (c # s) = (starts_with t (c # s) \<or> is_infix t s)"

lemma is_infix_iff: "is_infix t s \<longleftrightarrow> (\<exists>u v. s = u @ t @ v)"
proof (induction s)
  case Nil
  then show ?case by auto
next
  case (Cons c s)
  have "starts_with t (c # s) \<longleftrightarrow> (\<exists>v. c # s = t @ v)"
    unfolding starts_with_def by (metis append_eq_conv_conj append_take_drop_id)
  moreover have "(\<exists>u v. c # s = u @ t @ v) \<longleftrightarrow> (\<exists>v. c # s = t @ v) \<or> (\<exists>u v. s = u @ t @ v)"
    by (metis (no_types, opaque_lifting) append_Cons append_Nil list.inject neq_Nil_conv)
  ultimately show ?case using Cons by simp
qed

lemma strip_chars_ends:
  assumes "strip_chars p s \<noteq> []"
  shows "\<not> p (hd (strip_chars p s))" and "\<not> p (last (strip_chars p s))"
proof -
  let ?d = "dropWhile p s"
  have ne: "dropWhile p (rev ?d) \<noteq> []" using assms unfolding strip_chars_def by simp
  then show "\<not> p (last (strip_chars p s))"
    unfolding strip_chars_def last_rev by (rule hd_dropWhile)
  have d: "?d \<noteq> []" using ne by (metis dropWhile.simps(1) rev.simps(1))
  then have hd: "\<not> p (hd ?d)" by (rule hd_dropWhile)
  obtain w where w: "rev ?d = w @ dropWhile p (rev ?d)"
    by (metis takeWhile_dropWhile_id)
  then have "?d = rev (dropWhile p (rev ?d)) @ rev w" by (metis rev_append rev_rev_ident)
  with ne have "hd ?d = hd (strip_chars p s)"
    unfolding strip_chars_def by (metis hd_append2 rev_is_Nil_conv)
  with hd show "\<not> p (hd (strip_chars p s))" by simp
qed

lemma set_strip_chars: "set (strip_chars p s) \<subseteq> set s"
proof
  fix c
  assume "c \<in> set (strip_chars p s)"
  then have "c \<in> set (rev (dropWhile p s))"
    unfolding strip_chars_def set_rev [of "dropWhile p (rev (dropWhile p s))"] by (blast dest: set_dropWhileD)
  then show "c \<in> set s" unfolding set_rev by (blast dest: set_dropWhileD)
qed

subsection \<open>Ids\<close>

definition id_char :: "char \<Rightarrow> bool" where
  "id_char c \<longleftrightarrow> is_lower c \<or> is_digit c \<or> c = CHR ''_''"

text \<open>\<open>re.sub(r"[^a-z0-9_]", "_", seed.lower()).strip("_")\<close>, and the guard on its first character.\<close>

definition id_token :: "string \<Rightarrow> string" where
  "id_token seed = strip_chars (\<lambda>c. c = CHR ''_'') (map (\<lambda>c. if id_char c then c else CHR ''_'') (lower seed))"

definition stable_id :: "string \<Rightarrow> string \<Rightarrow> nat \<Rightarrow> string" where
  "stable_id prefix seed len =
     (let token = id_token seed;
          token' = (if token = [] \<or> \<not> is_lower (hd token) then ''x_'' @ token else token)
      in prefix @ ''_'' @ take len token')"

lemma id_token_chars: "c \<in> set (id_token seed) \<Longrightarrow> id_char c"
  using set_strip_chars [of "\<lambda>c. c = CHR ''_''"] unfolding id_token_def
  by (fastforce simp: id_char_def split: if_splits)

text \<open>
  An id made by \<open>stable_id\<close> is the prefix, an underscore and at most \<open>len\<close>
  characters of \<open>[a-z0-9_]\<close> of which the first is a letter.
\<close>

lemma stable_id_shape:
  assumes "0 < len"
  shows "\<exists>t. stable_id prefix seed len = prefix @ ''_'' @ t \<and> t \<noteq> [] \<and> length t \<le> len \<and>
             is_lower (hd t) \<and> (\<forall>c \<in> set t. id_char c)"
proof -
  define token where "token = id_token seed"
  define t where "t = (if token = [] \<or> \<not> is_lower (hd token) then ''x_'' @ token else token)"
  have chars: "\<forall>c \<in> set token. id_char c"
    unfolding token_def by (simp add: id_token_chars)
  have x: "is_lower (CHR ''x'')" "id_char (CHR ''x'')" "id_char (CHR ''_'')"
    by (simp_all add: is_lower_def id_char_def less_eq_char_def)
  have t: "t \<noteq> []" "is_lower (hd t)" "\<forall>c \<in> set t. id_char c"
    using chars x by (auto simp: t_def)
  have "stable_id prefix seed len = prefix @ ''_'' @ take len t"
    by (simp add: stable_id_def t_def token_def Let_def)
  moreover have "take len t \<noteq> []" "hd (take len t) = hd t"
    using assms t(1) by simp_all
  moreover have "\<forall>c \<in> set (take len t). id_char c"
    using t(3) by (meson in_set_takeD)
  ultimately show ?thesis using t(2) by (intro exI [of _ "take len t"]) simp
qed

lemma stable_id_shape_witness:
  "\<exists>t. stable_id ''op'' ''7F-x'' 16 = ''op'' @ ''_'' @ t \<and> t \<noteq> [] \<and> length t \<le> 16 \<and>
       is_lower (hd t) \<and> (\<forall>c \<in> set t. id_char c)"
  by (rule stable_id_shape) simp

end
