(* ===== verification/Activity.thy ===== *)
theory Activity
  imports Collectors Texts
begin

text \<open>
  Phase histories and AI runs (\<open>store.py\<close>): \<open>advance_activity\<close> with the live
  operation and the durable AI run kept aligned, the attempts of an AI run, the
  usage summary of its model calls, and the review states of a collector's AI runs.
\<close>

subsection \<open>The phase history\<close>

text \<open>
  \<open>int((finished - started).total_seconds() * 1000)\<close>, never negative; the instants are
  microseconds, and the float product is taken as the exact quotient.
\<close>

definition elapsed_ms :: "ts \<Rightarrow> ts \<Rightarrow> int" where
  "elapsed_ms started_at finished_at = max 0 ((finished_at - started_at) div 1000)"

definition close_entry :: "activity_entry \<Rightarrow> status \<Rightarrow> metrics \<Rightarrow> ts \<Rightarrow> activity_entry" where
  "close_entry e st m now =
     e\<lparr>act_status := st, act_finished := Some now, act_duration := Some (elapsed_ms (act_started e) now),
       act_metrics := m\<rparr>"

definition advance_activity ::
  "activity_entry list \<Rightarrow> string \<Rightarrow> metrics \<Rightarrow> ts \<Rightarrow> status option \<Rightarrow> activity_entry list" where
  "advance_activity current phase m now terminal =
     (if current = [] then
        [\<lparr>act_phase = phase,
          act_status = (case terminal of None \<Rightarrow> Running | Some t \<Rightarrow> t),
          act_started = now,
          act_finished = (case terminal of None \<Rightarrow> None | Some _ \<Rightarrow> Some now),
          act_duration = (case terminal of None \<Rightarrow> None | Some _ \<Rightarrow> Some 0),
          act_metrics = m\<rparr>]
      else
        (let latest = last current; before = butlast current
         in (case terminal of
               Some t \<Rightarrow>
                 (let latest' = (if act_status latest = Running
                                 then close_entry latest (if t = Failed then Failed else Succeeded) m now
                                 else latest)
                  in before @ [latest'] @
                     (if t = Succeeded \<and> act_phase latest' \<noteq> ''completed''
                      then [\<lparr>act_phase = ''completed'', act_status = Succeeded, act_started = now,
                             act_finished = Some now, act_duration = Some 0, act_metrics = m\<rparr>]
                      else []))
             | None \<Rightarrow>
                 if act_phase latest = phase \<and> act_status latest = Running
                 then before @ [latest\<lparr>act_metrics := m\<rparr>]
                 else before @
                      [if act_status latest = Running then close_entry latest Succeeded m now else latest] @
                      [\<lparr>act_phase = phase, act_status = Running, act_started = now,
                        act_finished = None, act_duration = None, act_metrics = m\<rparr>])))"

text \<open>A closed entry is finished and not running; a well-formed history has at most its last entry open.\<close>

definition closed_entry :: "activity_entry \<Rightarrow> bool" where
  "closed_entry e \<longleftrightarrow> act_status e \<noteq> Running \<and> act_finished e \<noteq> None \<and> act_duration e \<noteq> None"

definition open_entry :: "activity_entry \<Rightarrow> bool" where
  "open_entry e \<longleftrightarrow> act_status e = Running \<and> act_finished e = None \<and> act_duration e = None"

definition wf_activity :: "activity_entry list \<Rightarrow> bool" where
  "wf_activity es \<longleftrightarrow>
     (\<forall>e \<in> set (butlast es). closed_entry e) \<and> (es \<noteq> [] \<longrightarrow> closed_entry (last es) \<or> open_entry (last es))"

datatype activity_event = Progress string metrics ts | Finish string status metrics ts

definition activity_step :: "activity_entry list \<Rightarrow> activity_event \<Rightarrow> activity_entry list" where
  "activity_step es ev =
     (case ev of
        Progress phase m now \<Rightarrow> advance_activity es phase m now None
      | Finish phase st m now \<Rightarrow>
          if terminal_operation st then advance_activity es phase m now (Some st) else es)"

lemma close_entry_closed: "st \<noteq> Running \<Longrightarrow> closed_entry (close_entry e st m now)"
  by (simp add: close_entry_def closed_entry_def)

lemma wf_activity_snoc:
  "wf_activity (es @ [e]) \<longleftrightarrow> (\<forall>x \<in> set es. closed_entry x) \<and> (closed_entry e \<or> open_entry e)"
  by (simp add: wf_activity_def)

lemma wf_activity_split:
  assumes "wf_activity es" and "es \<noteq> []"
  obtains before latest where "es = before @ [latest]" "\<forall>x \<in> set before. closed_entry x"
    "closed_entry latest \<or> open_entry latest"
  using assms by (metis append_butlast_last_id wf_activity_def)

lemma advance_activity_wf:
  assumes "wf_activity es" and "\<forall>t. terminal = Some t \<longrightarrow> terminal_operation t"
  shows "wf_activity (advance_activity es phase m now terminal)"
proof (cases "es = []")
  case True
  with assms(2) show ?thesis
    by (auto simp: advance_activity_def wf_activity_def closed_entry_def open_entry_def terminal_operation_def
        split: option.splits)
next
  case False
  from wf_activity_split [OF assms(1) False] obtain before latest where
    es: "es = before @ [latest]" and before: "\<forall>x \<in> set before. closed_entry x"
    and latest: "closed_entry latest \<or> open_entry latest" by blast
  have shut: "closed_entry (if act_status latest = Running then close_entry latest st m now else latest)"
    if "st \<noteq> Running" for st
    using latest that by (auto simp: close_entry_closed closed_entry_def open_entry_def close_entry_def)
  show ?thesis
  proof (cases terminal)
    case None
    have "wf_activity (before @ [latest\<lparr>act_metrics := m\<rparr>])"
      using before latest by (simp add: wf_activity_snoc closed_entry_def open_entry_def)
    moreover have "wf_activity ((before @ [if act_status latest = Running then close_entry latest Succeeded m now else latest]) @
        [\<lparr>act_phase = phase, act_status = Running, act_started = now, act_finished = None, act_duration = None, act_metrics = m\<rparr>])"
      using before shut [of Succeeded] unfolding wf_activity_snoc by (simp add: open_entry_def)
    ultimately show ?thesis
      by (simp add: advance_activity_def es None Let_def)
  next
    case (Some t)
    define shutl where "shutl = (if act_status latest = Running
       then close_entry latest (if t = Failed then Failed else Succeeded) m now else latest)"
    have c: "closed_entry shutl" unfolding shutl_def by (rule shut) simp
    have "wf_activity (before @ [shutl])" using before c by (simp add: wf_activity_snoc)
    moreover have "wf_activity ((before @ [shutl]) @ [\<lparr>act_phase = ''completed'', act_status = Succeeded, act_started = now,
                             act_finished = Some now, act_duration = Some 0, act_metrics = m\<rparr>])"
      using before c unfolding wf_activity_snoc by (simp add: closed_entry_def)
    ultimately show ?thesis
      by (simp add: advance_activity_def es Some Let_def flip: shutl_def)
  qed
qed

lemma advance_activity_length:
  "length es \<le> length (advance_activity es phase m now terminal)"
  by (cases es rule: rev_cases) (auto simp: advance_activity_def Let_def split: option.splits)

lemma activity_step_wf: "wf_activity es \<Longrightarrow> wf_activity (activity_step es ev)"
  by (cases ev) (simp_all add: activity_step_def advance_activity_wf)

interpretation activity_machine: step_machine activity_step wf_activity "\<lambda>es. int (length es)"
  by unfold_locales
    (simp_all add: activity_step_wf, simp add: activity_step_def advance_activity_length split: activity_event.splits)

lemma advance_activity_keeps:
  "take (length es - 1) (advance_activity es phase m now terminal) = butlast es"
  by (cases es rule: rev_cases) (auto simp: advance_activity_def Let_def split: option.splits)

lemma advance_activity_terminal_closed:
  assumes "wf_activity es" and "terminal_operation t"
  shows "\<forall>e \<in> set (advance_activity es phase m now (Some t)). closed_entry e"
proof (cases "es = []")
  case True
  with assms(2) show ?thesis
    by (auto simp: advance_activity_def closed_entry_def terminal_operation_def)
next
  case False
  from wf_activity_split [OF assms(1) False] obtain before latest where
    es: "es = before @ [latest]" and before: "\<forall>x \<in> set before. closed_entry x"
    and latest: "closed_entry latest \<or> open_entry latest" by blast
  then show ?thesis
    by (auto simp: advance_activity_def es Let_def closed_entry_def open_entry_def close_entry_def)
qed

text \<open>
  However an operation reports its progress, its phase history stays well formed:
  only the last phase can be open, earlier phases are never rewritten, and once a
  terminal status arrives every phase is closed.
\<close>

lemma activity_history:
  assumes "terminal_operation t"
  shows "wf_activity (foldl activity_step [] evs) \<and>
    (\<forall>e \<in> set (activity_step (foldl activity_step [] evs) (Finish phase t m now)). closed_entry e) \<and>
    take (length (foldl activity_step [] evs) - 1)
      (activity_step (foldl activity_step [] evs) ev) = butlast (foldl activity_step [] evs)"
proof (intro conjI)
  show wf: "wf_activity (foldl activity_step [] evs)"
    by (rule activity_machine.run_inv) (simp add: wf_activity_def)
  with assms show "\<forall>e \<in> set (activity_step (foldl activity_step [] evs) (Finish phase t m now)). closed_entry e"
    by (simp add: activity_step_def advance_activity_terminal_closed)
  show "take (length (foldl activity_step [] evs) - 1)
           (activity_step (foldl activity_step [] evs) ev) = butlast (foldl activity_step [] evs)"
    unfolding activity_step_def
    by (auto simp only: advance_activity_keeps butlast_conv_take split: activity_event.splits if_splits)
qed

theorem activity_history_witness:
  "list_all closed_entry
     (activity_step (foldl activity_step [] [Progress ''fetching'' Map.empty 5, Progress ''compiling'' Map.empty 9])
       (Finish ''completed'' TimedOut Map.empty 12))"
  unfolding list_all_iff
  by (rule activity_history [THEN conjunct2, THEN conjunct1]) (simp add: terminal_operation_def)

text \<open>
  The phase an operation was in when it was cancelled or timed out is recorded as
  succeeded: only the terminal status \<open>failed\<close> marks the open phase as failed.
\<close>

lemma interrupted_phase_recorded_as_succeeded:
  assumes "es \<noteq> []" and "act_status (last es) = Running" and "t \<in> {Cancelled, TimedOut}"
  shows "act_status (last (advance_activity es phase m now (Some t))) = Succeeded \<and>
    act_status (last (advance_activity es phase m now (Some Failed))) = Failed"
  using assms by (auto simp: advance_activity_def Let_def close_entry_def)

lemma interrupted_phase_recorded_as_succeeded_witness:
  "act_status (last (advance_activity (advance_activity [] ''fetching'' Map.empty 5 None)
      ''completed'' Map.empty 12 (Some TimedOut))) = Succeeded"
  by (rule interrupted_phase_recorded_as_succeeded [THEN conjunct1]) (simp_all add: advance_activity_def)

end
