(* ===== verification/Ai_Runs.thy ===== *)
theory Ai_Runs
  imports Activity
begin

text \<open>
  AI runs (\<open>store.py\<close>): the writes of the durable run record and of its attempts and
  model calls. A command reads its row, changes the document and saves it under the
  row's own collector and operation; marking one run ready for review supersedes the
  older ready runs of the same collector, and publishing a rule closes them all. The
  clock is read once per command here.
\<close>

subsection \<open>Changes of a run\<close>

text \<open>The keyword arguments callers pass to \<open>update_ai_run\<close>; an absent one is \<open>None\<close>.\<close>

record ai_changes =
  uc_status :: "status option"
  uc_phase :: "string option"
  uc_progress :: "int option"
  uc_error :: "error_doc option option"
  uc_finished :: "ts option"
  uc_duration :: "int option"
  uc_result :: "result_status option"
  uc_review :: "review_status option"
  uc_validation :: "validation_summary option"
  uc_candidate :: "string option option"

definition no_ai_changes :: ai_changes where
  "no_ai_changes = \<lparr>uc_status = None, uc_phase = None, uc_progress = None, uc_error = None, uc_finished = None,
     uc_duration = None, uc_result = None, uc_review = None, uc_validation = None, uc_candidate = None\<rparr>"

definition changed :: "'a option \<Rightarrow> 'a \<Rightarrow> 'a" where
  "changed new old = (case new of None \<Rightarrow> old | Some x \<Rightarrow> x)"

definition apply_ai_changes :: "ai_changes \<Rightarrow> ai_run \<Rightarrow> ai_run" where
  "apply_ai_changes ch a =
     a\<lparr>air_status := changed (uc_status ch) (air_status a),
       air_phase := changed (uc_phase ch) (air_phase a),
       air_progress := changed (uc_progress ch) (air_progress a),
       air_error := changed (uc_error ch) (air_error a),
       air_finished := (case uc_finished ch of None \<Rightarrow> air_finished a | Some t \<Rightarrow> Some t),
       air_duration := (case uc_duration ch of None \<Rightarrow> air_duration a | Some d \<Rightarrow> Some d),
       air_result_status := changed (uc_result ch) (air_result_status a),
       air_review_status := changed (uc_review ch) (air_review_status a),
       air_validation := changed (uc_validation ch) (air_validation a),
       air_candidate_digest := changed (uc_candidate ch) (air_candidate_digest a)\<rparr>"

definition supersede :: "ai_run \<Rightarrow> ai_run" where
  "supersede a = a\<lparr>air_review_status := Superseded, air_published_rule := None\<rparr>"

definition publish_review :: "string \<Rightarrow> ai_run \<Rightarrow> ai_run" where
  "publish_review rule a = a\<lparr>air_review_status := Published, air_published_rule := Some rule\<rparr>"

definition update_ai_run :: "db \<Rightarrow> string \<Rightarrow> ai_changes \<Rightarrow> ts \<Rightarrow> py_exc + (db \<times> ai_run)" where
  "update_ai_run db aid ch now =
     (case tbl_get airr_id aid (t_ai_runs db) of
        None \<Rightarrow> Inl (KeyErr aid)
      | Some row \<Rightarrow>
          (let a = apply_ai_changes ch (airr_data row);
               older = (if uc_review ch = Some ReadyReview
                        then filter (\<lambda>r. airr_collector r = airr_collector row \<and> airr_id r \<noteq> aid \<and>
                                         air_review_status (airr_data r) = ReadyReview) (t_ai_runs db)
                        else [])
           in (case fold_result
                      (\<lambda>r d. save_ai_run d (supersede (airr_data r)) (airr_collector row) (airr_operation r) now)
                      older db of
                 Inl e \<Rightarrow> Inl e
               | Inr db1 \<Rightarrow>
                   (case save_ai_run db1 a (airr_collector row) (airr_operation row) now of
                      Inl e \<Rightarrow> Inl e
                    | Inr db2 \<Rightarrow> Inr (db2, a)))))"

text \<open>\<open>_publish_latest_ai_run\<close>: newest first; rows created at the same instant in insertion order.\<close>

fun publish_rows :: "string \<Rightarrow> string \<Rightarrow> ts \<Rightarrow> ai_run_row list \<Rightarrow> bool \<Rightarrow> db \<Rightarrow> py_exc + db" where
  "publish_rows cid rule now [] published db = Inr db"
| "publish_rows cid rule now (r # rs) published db =
     (if air_review_status (airr_data r) \<noteq> ReadyReview then publish_rows cid rule now rs published db
      else
        (case save_ai_run db
                (if \<not> published then publish_review rule (airr_data r) else supersede (airr_data r))
                cid (airr_operation r) now of
           Inl e \<Rightarrow> Inl e
         | Inr db' \<Rightarrow> publish_rows cid rule now rs True db'))"

definition publish_latest_ai_run :: "db \<Rightarrow> string \<Rightarrow> string \<Rightarrow> ts \<Rightarrow> py_exc + db" where
  "publish_latest_ai_run db cid rule now =
     publish_rows cid rule now
       (sort_key (\<lambda>r. - iso_key (airr_created r)) (filter (\<lambda>r. airr_collector r = cid) (t_ai_runs db))) False db"

subsection \<open>Attempts and model calls\<close>

definition start_ai_attempt :: "db \<Rightarrow> string \<Rightarrow> ts \<Rightarrow> py_exc + (db \<times> ai_attempt)" where
  "start_ai_attempt db aid now =
     (case tbl_get airr_id aid (t_ai_runs db) of
        None \<Rightarrow> Inl (KeyErr aid)
      | Some row \<Rightarrow>
          (let no = foldr max (map attr_no (filter (\<lambda>r. attr_ai_run r = aid) (t_ai_attempts db))) 0 + 1;
               attempt = \<lparr>att_id = stable_id ''ai_attempt'' (aid @ ''_'' @ nat_text no) 120, att_ai_run = aid,
                          att_no = no, att_status = Running, att_started = now, att_finished = None,
                          att_duration = None, att_error = None\<rparr>
           in if tbl_get attr_id (att_id attempt) (t_ai_attempts db) \<noteq> None then Inl UniqueViolation
              else
                (let db1 = db\<lparr>t_ai_attempts := t_ai_attempts db @
                       [\<lparr>attr_id = att_id attempt, attr_ai_run = aid, attr_no = no, attr_data = attempt,
                         attr_created = now, attr_updated = now\<rparr>]\<rparr>;
                     a = (airr_data row)\<lparr>air_status := Running,
                           air_started := (case air_started (airr_data row) of None \<Rightarrow> Some now | Some t \<Rightarrow> Some t),
                           air_attempt_count := no\<rparr>
                 in (case save_ai_run db1 a (airr_collector row) (airr_operation row) now of
                       Inl e \<Rightarrow> Inl e
                     | Inr db2 \<Rightarrow> Inr (db2, attempt)))))"

definition finish_ai_attempt :: "db \<Rightarrow> string \<Rightarrow> status \<Rightarrow> error_doc option \<Rightarrow> ts \<Rightarrow> py_exc + (db \<times> ai_attempt)" where
  "finish_ai_attempt db attempt_id st err now =
     (case tbl_get attr_id attempt_id (t_ai_attempts db) of
        None \<Rightarrow> Inl (KeyErr attempt_id)
      | Some row \<Rightarrow>
          (let attempt = (attr_data row)\<lparr>att_status := st, att_finished := Some now,
                 att_duration := Some (elapsed_ms (att_started (attr_data row)) now), att_error := err\<rparr>
           in Inr (db\<lparr>t_ai_attempts := tbl_upd attr_id attempt_id
                     (\<lambda>r. r\<lparr>attr_data := attempt, attr_updated := now\<rparr>) (t_ai_attempts db)\<rparr>, attempt)))"

text \<open>A model call as its caller reports it; provider, model and prompt version are left out.\<close>

record call_report =
  call_purpose :: string
  call_status :: string
  call_started :: ts
  call_finished :: ts
  call_duration :: int
  call_prompt :: int
  call_completion :: int
  call_digest :: "string option"
  call_error :: "error_doc option"

definition model_invocation_of :: "string \<Rightarrow> string \<Rightarrow> string \<Rightarrow> call_report \<Rightarrow> model_invocation" where
  "model_invocation_of iid aid attempt_id rep =
     \<lparr>inv_id = iid, inv_ai_run = aid, inv_attempt = attempt_id, inv_purpose = call_purpose rep,
      inv_status = call_status rep, inv_started = call_started rep, inv_finished = call_finished rep,
      inv_duration = call_duration rep,
      inv_prompt = max 0 (call_prompt rep), inv_completion = max 0 (call_completion rep),
      inv_total = max 0 (call_prompt rep) + max 0 (call_completion rep),
      inv_response_digest = call_digest rep, inv_error = call_error rep\<rparr>"

definition add_invocation :: "model_summary \<Rightarrow> model_invocation \<Rightarrow> model_summary" where
  "add_invocation s i =
     \<lparr>ms_invocations = ms_invocations s + 1, ms_prompt = ms_prompt s + inv_prompt i,
      ms_completion = ms_completion s + inv_completion i, ms_total = ms_total s + inv_total i\<rparr>"

definition record_model_invocation ::
  "db \<Rightarrow> string \<Rightarrow> string \<Rightarrow> string \<Rightarrow> call_report \<Rightarrow> ts \<Rightarrow> py_exc + (db \<times> model_invocation)" where
  "record_model_invocation db aid attempt_id iid rep now =
     (let i = model_invocation_of iid aid attempt_id rep;
          db1 = db\<lparr>t_invocations := t_invocations db @ [i]\<rparr>
      in (case tbl_get airr_id aid (t_ai_runs db1) of
            None \<Rightarrow> Inl (KeyErr aid)
          | Some row \<Rightarrow>
              (let a = (airr_data row)\<lparr>air_model_summary := add_invocation (air_model_summary (airr_data row)) i\<rparr>
               in (case save_ai_run db1 a (airr_collector row) (airr_operation row) now of
                     Inl e \<Rightarrow> Inl e
                   | Inr db2 \<Rightarrow> Inr (db2, i)))))"

subsection \<open>Progress of the operation and the run together\<close>

definition merge_metrics :: "metrics \<Rightarrow> metrics \<Rightarrow> metrics" where
  "merge_metrics old new = (empty_operation_metrics ++ old) ++ new"

definition update_ai_activity ::
  "db \<Rightarrow> string \<Rightarrow> string \<Rightarrow> status \<Rightarrow> string \<Rightarrow> int \<Rightarrow> metrics \<Rightarrow> error_doc option \<Rightarrow> ts \<Rightarrow>
   py_exc + (db \<times> operation \<times> ai_run)" where
  "update_ai_activity db oid aid st phase progress m err now =
     (case get_operation db oid of
        None \<Rightarrow> Inl (KeyErr oid)
      | Some o0 \<Rightarrow>
          (let merged = merge_metrics (op_metrics o0) m;
               terminal = (if terminal_operation st then Some st else None);
               o1 = o0\<lparr>op_status := st, op_phase := phase, op_progress := progress, op_metrics := merged,
                       op_error := err, op_activity := advance_activity (op_activity o0) phase merged now terminal\<rparr>
           in (case operation_collector_id db oid of
                 Inl e \<Rightarrow> Inl e
               | Inr cid \<Rightarrow>
                   (case save_operation db o1 cid now of
                      Inl e \<Rightarrow> Inl e
                    | Inr db1 \<Rightarrow>
                        (case tbl_get airr_id aid (t_ai_runs db1) of
                           None \<Rightarrow> Inl (KeyErr aid)
                         | Some row \<Rightarrow>
                             (let a0 = airr_data row;
                                  a1 = a0\<lparr>air_status := st, air_phase := phase, air_progress := progress,
                                          air_error := err,
                                          air_activity := advance_activity (air_activity a0) phase merged now terminal\<rparr>
                              in (case save_ai_run db1 a1 (airr_collector row) (airr_operation row) now of
                                    Inl e \<Rightarrow> Inl e
                                  | Inr db2 \<Rightarrow> Inr (db2, o1, a1))))))))"

text \<open>The run document \<open>create_async_command\<close> stores for a new exploration.\<close>

definition queued_ai_run :: "ai_run \<Rightarrow> string \<Rightarrow> activity_entry list \<Rightarrow> ts \<Rightarrow> ai_run" where
  "queued_ai_run a oid act now =
     a\<lparr>air_operation := oid, air_status := Queued, air_phase := ''queued'', air_progress := 0,
       air_result_status := Pending, air_review_status := NotReady, air_attempt_count := 0,
       air_model_summary := \<lparr>ms_invocations = 0, ms_prompt = 0, ms_completion = 0, ms_total = 0\<rparr>,
       air_validation := \<lparr>vs_accepted = 0, vs_rejected = 0, vs_warnings = 0\<rparr>,
       air_candidate_digest := None, air_published_rule := None, air_created := now, air_started := None,
       air_finished := None, air_duration := None, air_error := None, air_activity := act\<rparr>"

subsection \<open>What the writes keep\<close>

definition ai_wf :: "db \<Rightarrow> bool" where
  "ai_wf db \<longleftrightarrow> distinct (map airr_id (t_ai_runs db)) \<and> (\<forall>r \<in> set (t_ai_runs db). air_id (airr_data r) = airr_id r)"

definition ready_runs :: "db \<Rightarrow> string \<Rightarrow> string set" where
  "ready_runs db cid = airr_id ` {r \<in> set (t_ai_runs db). airr_collector r = cid \<and>
                                   air_review_status (airr_data r) = ReadyReview}"

text \<open>The usage of a run computed from its model calls.\<close>

definition usage :: "model_invocation list \<Rightarrow> string \<Rightarrow> model_summary" where
  "usage is aid =
     (let mine = filter (\<lambda>i. inv_ai_run i = aid) is
      in \<lparr>ms_invocations = int (length mine), ms_prompt = sum_list (map inv_prompt mine),
          ms_completion = sum_list (map inv_completion mine), ms_total = sum_list (map inv_total mine)\<rparr>)"

definition usage_exact :: "db \<Rightarrow> bool" where
  "usage_exact db \<longleftrightarrow>
     (\<forall>r \<in> set (t_ai_runs db). air_model_summary (airr_data r) = usage (t_invocations db) (airr_id r)) \<and>
     inv_ai_run ` set (t_invocations db) \<subseteq> airr_id ` set (t_ai_runs db)"

definition single_ready :: "db \<Rightarrow> bool" where
  "single_ready db \<longleftrightarrow> (\<forall>cid. \<forall>x \<in> ready_runs db cid. \<forall>y \<in> ready_runs db cid. x = y)"

text \<open>Saving a known run: only its document changes.\<close>

lemma save_known:
  assumes "save_ai_run db a cid oid now = Inr db'" and "air_id a \<in> airr_id ` set (t_ai_runs db)"
  shows "db' = db\<lparr>t_ai_runs := tbl_upd airr_id (air_id a) (\<lambda>x. x\<lparr>airr_data := a, airr_updated := now\<rparr>) (t_ai_runs db)\<rparr>"
proof -
  from assms(2) obtain row where "tbl_get airr_id (air_id a) (t_ai_runs db) = Some row"
    by (metis image_iff not_Some_eq tbl_get_None_iff)
  from save_ai_run_known [OF this] assms(1) show ?thesis by simp
qed

lemma save_known_wf:
  assumes "save_ai_run db a cid oid now = Inr db'" and "air_id a \<in> airr_id ` set (t_ai_runs db)"
  shows "ai_wf db \<Longrightarrow> ai_wf db'" and "airr_id ` set (t_ai_runs db') = airr_id ` set (t_ai_runs db)"
    and "t_invocations db' = t_invocations db"
proof -
  let ?rows = "tbl_upd airr_id (air_id a) (\<lambda>x. x\<lparr>airr_data := a, airr_updated := now\<rparr>) (t_ai_runs db)"
  have eq: "db' = db\<lparr>t_ai_runs := ?rows\<rparr>" by (rule save_known [OF assms])
  have ids: "map airr_id ?rows = map airr_id (t_ai_runs db)" by simp
  then show "airr_id ` set (t_ai_runs db') = airr_id ` set (t_ai_runs db)"
    unfolding eq by (simp flip: set_map)
  show "t_invocations db' = t_invocations db" by (simp add: eq)
  show "ai_wf db'" if "ai_wf db"
    unfolding eq using that ids by (auto simp: ai_wf_def set_tbl_upd simp flip: set_map)
qed

lemma save_known_ready:
  assumes "save_ai_run db a cid oid now = Inr db'" and "air_id a \<in> airr_id ` set (t_ai_runs db)"
    and "air_review_status a \<noteq> ReadyReview"
  shows "ready_runs db' c = ready_runs db c - {air_id a}"
  unfolding ready_runs_def save_known [OF assms(1,2)] using assms(3)
  by (auto simp: set_tbl_upd image_iff split: if_splits)

lemma save_known_usage:
  assumes "save_ai_run db a cid oid now = Inr db'" and "air_id a \<in> airr_id ` set (t_ai_runs db)"
    and "\<forall>r \<in> set (t_ai_runs db). air_model_summary (airr_data r) = f (airr_id r)"
    and "air_model_summary a = f (air_id a)"
  shows "\<forall>r \<in> set (t_ai_runs db'). air_model_summary (airr_data r) = f (airr_id r)"
  unfolding save_known [OF assms(1,2)] using assms(3,4) by (auto simp: set_tbl_upd)

lemma summary_fields [simp]:
  "air_id (supersede a) = air_id a" "air_model_summary (supersede a) = air_model_summary a"
  "air_review_status (supersede a) = Superseded"
  "air_id (publish_review rule a) = air_id a" "air_model_summary (publish_review rule a) = air_model_summary a"
  "air_review_status (publish_review rule a) = Published"
  "air_id (apply_ai_changes ch a) = air_id a" "air_model_summary (apply_ai_changes ch a) = air_model_summary a"
  by (simp_all add: supersede_def publish_review_def apply_ai_changes_def)

text \<open>
  A write of a loop over rows already read: the rows keep their ids and usage, and none
  of them is ready for review any more.
\<close>

lemma supersede_loop:
  assumes "fold_result (\<lambda>r d. save_ai_run d (supersede (airr_data r)) cid (airr_operation r) now) rs db = Inr db'"
    and "ai_wf db" and "\<forall>r \<in> set rs. air_id (airr_data r) = airr_id r \<and> airr_id r \<in> airr_id ` set (t_ai_runs db)"
    and "\<forall>r \<in> set (t_ai_runs db). air_model_summary (airr_data r) = f (airr_id r)"
    and "\<forall>r \<in> set rs. air_model_summary (airr_data r) = f (airr_id r)"
  shows "ai_wf db'" "ready_runs db' c = ready_runs db c - airr_id ` set rs"
    "airr_id ` set (t_ai_runs db') = airr_id ` set (t_ai_runs db)" "t_invocations db' = t_invocations db"
    "\<forall>r \<in> set (t_ai_runs db'). air_model_summary (airr_data r) = f (airr_id r)"
  using assms
proof (atomize (full), induction rs arbitrary: db)
  case Nil
  then show ?case by simp
next
  case (Cons r rs)
  let ?a = "supersede (airr_data r)"
  from Cons.prems obtain db1 where s: "save_ai_run db ?a cid (airr_operation r) now = Inr db1"
    and loop: "fold_result (\<lambda>r d. save_ai_run d (supersede (airr_data r)) cid (airr_operation r) now) rs db1 = Inr db'"
    by (auto split: sum.splits)
  have k: "air_id ?a \<in> airr_id ` set (t_ai_runs db)" using Cons.prems by simp
  have ids: "airr_id ` set (t_ai_runs db1) = airr_id ` set (t_ai_runs db)"
    and inv: "t_invocations db1 = t_invocations db"
    using save_known_wf(2,3) [OF s k] by simp_all
  have u: "\<forall>r \<in> set (t_ai_runs db1). air_model_summary (airr_data r) = f (airr_id r)"
    using Cons.prems by (intro save_known_usage [OF s k]) simp_all
  have "ready_runs db1 c = ready_runs db c - {airr_id r}"
    using save_known_ready [OF s k] Cons.prems by simp
  with Cons.IH [of db1] loop Cons.prems ids inv u save_known_wf(1) [OF s k] show ?case by auto
qed

lemma publish_loop:
  assumes "publish_rows cid rule now rs published db = Inr db'"
    and "ai_wf db" and "\<forall>r \<in> set rs. air_id (airr_data r) = airr_id r \<and> airr_id r \<in> airr_id ` set (t_ai_runs db)"
    and "\<forall>r \<in> set (t_ai_runs db). air_model_summary (airr_data r) = f (airr_id r)"
    and "\<forall>r \<in> set rs. air_model_summary (airr_data r) = f (airr_id r)"
  shows "ai_wf db'"
    "ready_runs db' c = ready_runs db c - airr_id ` {r \<in> set rs. air_review_status (airr_data r) = ReadyReview}"
    "airr_id ` set (t_ai_runs db') = airr_id ` set (t_ai_runs db)" "t_invocations db' = t_invocations db"
    "\<forall>r \<in> set (t_ai_runs db'). air_model_summary (airr_data r) = f (airr_id r)"
  using assms
proof (atomize (full), induction rs arbitrary: db published)
  case Nil
  then show ?case by simp
next
  case (Cons r rs)
  show ?case
  proof (cases "air_review_status (airr_data r) = ReadyReview")
    case False
    with Cons.IH [of published db] Cons.prems have
      "ready_runs db' c = ready_runs db c - airr_id ` {r \<in> set rs. air_review_status (airr_data r) = ReadyReview}"
      by simp
    moreover have "{x \<in> set (r # rs). air_review_status (airr_data x) = ReadyReview} =
        {x \<in> set rs. air_review_status (airr_data x) = ReadyReview}"
      using False by auto
    ultimately show ?thesis using False Cons.IH [of published db] Cons.prems by simp
  next
    case True
    define a where "a = (if \<not> published then publish_review rule (airr_data r) else supersede (airr_data r))"
    have a: "air_id a = airr_id r" "air_model_summary a = f (airr_id r)" "air_review_status a \<noteq> ReadyReview"
      using Cons.prems by (auto simp: a_def)
    from Cons.prems True obtain db1 where s: "save_ai_run db a cid (airr_operation r) now = Inr db1"
      and loop: "publish_rows cid rule now rs True db1 = Inr db'"
      unfolding a_def by (cases "save_ai_run db (if \<not> published then publish_review rule (airr_data r) else supersede (airr_data r)) cid (airr_operation r) now") (simp_all only: publish_rows.simps True simp_thms if_False sum.case sum.inject sum.distinct)
    have k: "air_id a \<in> airr_id ` set (t_ai_runs db)" using Cons.prems a by simp
    have ids: "airr_id ` set (t_ai_runs db1) = airr_id ` set (t_ai_runs db)"
      and inv: "t_invocations db1 = t_invocations db"
      using save_known_wf(2,3) [OF s k] by simp_all
    have u: "\<forall>r \<in> set (t_ai_runs db1). air_model_summary (airr_data r) = f (airr_id r)"
      using Cons.prems a by (intro save_known_usage [OF s k]) simp_all
    have "ready_runs db1 c = ready_runs db c - {airr_id r}"
      using save_known_ready [OF s k a(3)] a by simp
    moreover have "{x \<in> set (r # rs). air_review_status (airr_data x) = ReadyReview} =
        insert r {x \<in> set rs. air_review_status (airr_data x) = ReadyReview}"
      using True by auto
    ultimately show ?thesis
      using Cons.IH [of True db1] loop Cons.prems ids inv u save_known_wf(1) [OF s k] by auto
  qed
qed

subsection \<open>The AI-run machine\<close>

text \<open>
  Every command that writes AI runs, as an event. A new run has a fresh id (\<open>uuid4\<close>
  in the code), so an \<open>AiCreate\<close> of a known id is no event.
\<close>

datatype ai_event =
    AiCreate ai_run string string "activity_entry list" ts
  | AiUpdate string ai_changes ts
  | AiPublish string string ts
  | AiAttempt string ts
  | AiAttemptEnd string status "error_doc option" ts
  | AiCall string string string call_report ts
  | AiProgress string string status string int metrics "error_doc option" ts

definition ai_step :: "db \<Rightarrow> ai_event \<Rightarrow> db" where
  "ai_step db ev =
     (case ev of
        AiCreate a cid oid act now \<Rightarrow>
          if tbl_get airr_id (air_id a) (t_ai_runs db) \<noteq> None then db
          else (case save_ai_run db (queued_ai_run a oid act now) cid oid now of Inl _ \<Rightarrow> db | Inr d \<Rightarrow> d)
      | AiUpdate aid ch now \<Rightarrow> (case update_ai_run db aid ch now of Inl _ \<Rightarrow> db | Inr (d, _) \<Rightarrow> d)
      | AiPublish cid rule now \<Rightarrow> (case publish_latest_ai_run db cid rule now of Inl _ \<Rightarrow> db | Inr d \<Rightarrow> d)
      | AiAttempt aid now \<Rightarrow> (case start_ai_attempt db aid now of Inl _ \<Rightarrow> db | Inr (d, _) \<Rightarrow> d)
      | AiAttemptEnd attempt st err now \<Rightarrow>
          (case finish_ai_attempt db attempt st err now of Inl _ \<Rightarrow> db | Inr (d, _) \<Rightarrow> d)
      | AiCall aid attempt iid rep now \<Rightarrow>
          (case record_model_invocation db aid attempt iid rep now of Inl _ \<Rightarrow> db | Inr (d, _) \<Rightarrow> d)
      | AiProgress oid aid st phase progress m err now \<Rightarrow>
          (case update_ai_activity db oid aid st phase progress m err now of Inl _ \<Rightarrow> db | Inr (d, _) \<Rightarrow> d))"

definition ai_inv :: "db \<Rightarrow> bool" where
  "ai_inv db \<longleftrightarrow> ai_wf db \<and> single_ready db \<and> usage_exact db"

lemma tbl_get_known: "tbl_get airr_id aid (t_ai_runs db) = Some row \<Longrightarrow> aid \<in> airr_id ` set (t_ai_runs db)"
  by (drule tbl_get_SomeD) blast

lemma single_ready_antimono:
  "single_ready db \<Longrightarrow> (\<And>c. ready_runs db' c \<subseteq> ready_runs db c) \<Longrightarrow> single_ready db'"
  unfolding single_ready_def by blast

lemma usage_exact_transfer:
  assumes "usage_exact db" and "airr_id ` set (t_ai_runs db') = airr_id ` set (t_ai_runs db)"
    and "t_invocations db' = t_invocations db"
    and "\<forall>r \<in> set (t_ai_runs db'). air_model_summary (airr_data r) = usage (t_invocations db) (airr_id r)"
  shows "usage_exact db'"
  using assms by (simp add: usage_exact_def)

text \<open>What a save of a known run does to the runs ready for review.\<close>

lemma unique_row:
  assumes "ai_wf db" and "tbl_get airr_id aid (t_ai_runs db) = Some row" and "r \<in> set (t_ai_runs db)" and "airr_id r = aid"
  shows "r = row"
  using assms tbl_get_unique [of airr_id "t_ai_runs db" r] by (simp add: ai_wf_def)

lemma save_known_ready_sub:
  assumes save: "save_ai_run db a cid oid now = Inr db'" and wf: "ai_wf db"
    and row: "tbl_get airr_id (air_id a) (t_ai_runs db) = Some row"
    and x: "x \<in> ready_runs db' c"
  shows "x \<in> ready_runs db c \<or> (x = air_id a \<and> c = airr_collector row \<and> air_review_status a = ReadyReview)"
proof -
  have k: "air_id a \<in> airr_id ` set (t_ai_runs db)" by (rule tbl_get_known [OF row])
  from x obtain r' where r': "r' \<in> set (t_ai_runs db')" "airr_collector r' = c"
    "air_review_status (airr_data r') = ReadyReview" "x = airr_id r'"
    by (auto simp: ready_runs_def)
  from r'(1) save_known [OF save k] obtain r where r: "r \<in> set (t_ai_runs db)"
    "r' = (if airr_id r = air_id a then r\<lparr>airr_data := a, airr_updated := now\<rparr> else r)"
    by (auto simp: tbl_upd_def)
  show ?thesis
  proof (cases "airr_id r = air_id a")
    case True
    with r unique_row [OF wf row] r' show ?thesis by auto
  next
    case False
    with r r' show ?thesis by (auto simp: ready_runs_def)
  qed
qed

lemma save_known_inv:
  assumes save: "save_ai_run db a cid oid now = Inr db'" and inv: "ai_inv db"
    and row: "tbl_get airr_id (air_id a) (t_ai_runs db) = Some row"
    and u: "air_model_summary a = air_model_summary (airr_data row)"
    and rev: "air_review_status a \<noteq> ReadyReview \<or> air_review_status (airr_data row) = ReadyReview
       \<or> ready_runs db (airr_collector row) \<subseteq> {air_id a}"
  shows "ai_inv db'" and "t_invocations db' = t_invocations db"
proof -
  have wf: "ai_wf db" and single: "single_ready db" and us: "usage_exact db" using inv by (simp_all add: ai_inv_def)
  have rowin: "row \<in> set (t_ai_runs db)" "airr_id row = air_id a" using tbl_get_SomeD [OF row] by auto
  have k: "air_id a \<in> airr_id ` set (t_ai_runs db)" by (rule tbl_get_known [OF row])
  note keep = save_known_wf [OF save k]
  show "t_invocations db' = t_invocations db" by (rule keep(3))
  have au: "air_model_summary a = usage (t_invocations db) (air_id a)"
    and allu: "\<forall>r \<in> set (t_ai_runs db). air_model_summary (airr_data r) = usage (t_invocations db) (airr_id r)"
    using us rowin u by (simp_all add: usage_exact_def)
  have "usage_exact db'"
    by (rule usage_exact_transfer [OF us keep(2,3) save_known_usage [OF save k allu au]])
  moreover have "x = y" if xy: "x \<in> ready_runs db' c" "y \<in> ready_runs db' c" for x y c
  proof -
    note sub = save_known_ready_sub [OF save wf row]
    have mine: "air_id a \<in> ready_runs db (airr_collector row)" if "air_review_status (airr_data row) = ReadyReview"
      using that rowin by (force simp: ready_runs_def)
    have one: "p = q" if "p \<in> ready_runs db c" "q \<in> ready_runs db c" for p q
      using single that unfolding single_ready_def by blast
    consider "x \<in> ready_runs db c" "y \<in> ready_runs db c"
      | (new) "c = airr_collector row" "air_review_status a = ReadyReview"
      using sub [OF xy(1)] sub [OF xy(2)] by blast
    then show ?thesis
    proof cases
      case 1
      then show ?thesis by (rule one)
    next
      case new
      from rev new mine have "ready_runs db c \<subseteq> {air_id a}"
        using one by blast
      with sub [OF xy(1)] sub [OF xy(2)] show ?thesis by blast
    qed
  qed
  ultimately show "ai_inv db'" using keep(1) [OF wf] unfolding ai_inv_def single_ready_def by blast
qed

lemma row_of:
  assumes "ai_inv db" and "tbl_get airr_id aid (t_ai_runs db) = Some row"
  shows "row \<in> set (t_ai_runs db)" "airr_id row = aid" "air_id (airr_data row) = aid"
    "air_model_summary (airr_data row) = usage (t_invocations db) aid"
  using assms tbl_get_SomeD [OF assms(2)] by (auto simp: ai_inv_def ai_wf_def usage_exact_def)

lemma update_ai_run_inv:
  assumes inv: "ai_inv db" and upd: "update_ai_run db aid ch now = Inr (db', a)"
  shows "ai_inv db'" "t_invocations db' = t_invocations db"
proof -
  from upd obtain row where row: "tbl_get airr_id aid (t_ai_runs db) = Some row"
    by (auto simp: update_ai_run_def split: option.splits)
  note r = row_of [OF inv row]
  define older where "older = (if uc_review ch = Some ReadyReview
                        then filter (\<lambda>r. airr_collector r = airr_collector row \<and> airr_id r \<noteq> aid \<and>
                                         air_review_status (airr_data r) = ReadyReview) (t_ai_runs db)
                        else [])"
  from upd row obtain db1 where
    loop: "fold_result (\<lambda>r d. save_ai_run d (supersede (airr_data r)) (airr_collector row) (airr_operation r) now) older db = Inr db1"
    and save: "save_ai_run db1 a (airr_collector row) (airr_operation row) now = Inr db'"
    and a: "a = apply_ai_changes ch (airr_data row)"
    by (auto simp: update_ai_run_def Let_def older_def [symmetric] split: sum.splits)
  have olds: "set older \<subseteq> set (t_ai_runs db)" by (auto simp: older_def)
  have wf: "ai_wf db" and u: "\<forall>r \<in> set (t_ai_runs db). air_model_summary (airr_data r) = usage (t_invocations db) (airr_id r)"
    using inv by (auto simp: ai_inv_def usage_exact_def)
  have ok: "\<forall>r \<in> set older. air_id (airr_data r) = airr_id r \<and> airr_id r \<in> airr_id ` set (t_ai_runs db)"
    and oku: "\<forall>r \<in> set older. air_model_summary (airr_data r) = usage (t_invocations db) (airr_id r)"
    using wf u olds by (auto simp: ai_wf_def)
  have l: "ai_wf db1" "airr_id ` set (t_ai_runs db1) = airr_id ` set (t_ai_runs db)" "t_invocations db1 = t_invocations db"
    "\<forall>r \<in> set (t_ai_runs db1). air_model_summary (airr_data r) = usage (t_invocations db) (airr_id r)"
    and lr: "\<And>c. ready_runs db1 c = ready_runs db c - airr_id ` set older"
    by (fact supersede_loop [where f = "usage (t_invocations db)", OF loop wf ok u oku])+
  have single1: "single_ready db1"
    by (rule single_ready_antimono [of db]) (use inv lr in \<open>auto simp: ai_inv_def\<close>)
  have us1: "usage_exact db1"
    by (rule usage_exact_transfer [of db]) (use inv l in \<open>simp_all add: ai_inv_def\<close>)
  have inv1: "ai_inv db1"
    using l(1) single1 us1 by (simp add: ai_inv_def)
  have ida: "air_id a = aid" using a r by simp
  have "ai_inv db' \<and> t_invocations db' = t_invocations db"
  proof (cases "uc_review ch = Some ReadyReview")
    case False
    then have "older = []" by (simp add: older_def)
    then have same: "db1 = db" using loop by simp
    have rev: "air_review_status a \<noteq> ReadyReview \<or> air_review_status (airr_data row) = ReadyReview"
      using False a by (auto simp: apply_ai_changes_def changed_def split: option.splits)
    have row': "tbl_get airr_id (air_id a) (t_ai_runs db) = Some row" using row ida by simp
    note save' = save [unfolded same]
    show ?thesis
      using save_known_inv [OF save' inv row'] rev a by auto
  next
    case True
    have olds_id: "\<forall>x \<in> set older. airr_id x \<noteq> aid" using True by (simp add: older_def)
    have "tbl_get airr_id aid (t_ai_runs db1) = Some row \<and> airr_id ` set (t_ai_runs db1) = airr_id ` set (t_ai_runs db)"
      using loop
    proof (rule fold_result_invariant [where P = "\<lambda>d. tbl_get airr_id aid (t_ai_runs d) = Some row \<and>
        airr_id ` set (t_ai_runs d) = airr_id ` set (t_ai_runs db)"], goal_cases)
      case 1
      from row show ?case by simp
    next
      case (2 x s s')
      let ?x = "supersede (airr_data x)"
      have idx: "air_id ?x = airr_id x" and kx: "air_id ?x \<in> airr_id ` set (t_ai_runs s)"
        using ok 2 by simp_all
      have "aid \<noteq> airr_id x" using 2(1) olds_id by auto
      then show ?case
        using 2(2) save_known_wf(2) [OF 2(3) kx] idx
        by (simp add: save_known [OF 2(3) kx] tbl_get_upd)
    qed
    then have row1: "tbl_get airr_id (air_id a) (t_ai_runs db1) = Some row" using ida by simp
    have "ready_runs db (airr_collector row) \<subseteq> insert aid (airr_id ` set older)"
      unfolding ready_runs_def older_def using True by auto
    then have "ready_runs db1 (airr_collector row) \<subseteq> {air_id a}"
      using lr ida by blast
    then show ?thesis
      using save_known_inv [OF save inv1 row1] a l(3) by simp
  qed
  then show "ai_inv db'" "t_invocations db' = t_invocations db" by blast+
qed

lemma publish_latest_inv:
  assumes inv: "ai_inv db" and pub: "publish_latest_ai_run db cid rule now = Inr db'"
  shows "ai_inv db'" "t_invocations db' = t_invocations db" "ready_runs db' cid = {}"
proof -
  define rs where "rs = sort_key (\<lambda>r. - iso_key (airr_created r)) (filter (\<lambda>r. airr_collector r = cid) (t_ai_runs db))"
  have rs: "set rs = {r \<in> set (t_ai_runs db). airr_collector r = cid}" by (simp add: rs_def)
  have wf: "ai_wf db" and u: "\<forall>r \<in> set (t_ai_runs db). air_model_summary (airr_data r) = usage (t_invocations db) (airr_id r)"
    using inv by (simp_all add: ai_inv_def usage_exact_def)
  have pub': "publish_rows cid rule now rs False db = Inr db'" using pub unfolding publish_latest_ai_run_def rs_def .
  have ok: "\<forall>r \<in> set rs. air_id (airr_data r) = airr_id r \<and> airr_id r \<in> airr_id ` set (t_ai_runs db)"
    and oku: "\<forall>r \<in> set rs. air_model_summary (airr_data r) = usage (t_invocations db) (airr_id r)"
    using wf u by (simp_all add: ai_wf_def rs)
  have l: "ai_wf db'" "airr_id ` set (t_ai_runs db') = airr_id ` set (t_ai_runs db)" "t_invocations db' = t_invocations db"
    "\<forall>r \<in> set (t_ai_runs db'). air_model_summary (airr_data r) = usage (t_invocations db) (airr_id r)"
    and lr: "\<And>c. ready_runs db' c = ready_runs db c - airr_id ` {r \<in> set rs. air_review_status (airr_data r) = ReadyReview}"
    by (fact publish_loop [where f = "usage (t_invocations db)", OF pub' wf ok u oku])+
  show "t_invocations db' = t_invocations db" by (rule l(3))
  have "ready_runs db cid = airr_id ` {r \<in> set rs. air_review_status (airr_data r) = ReadyReview}"
    unfolding ready_runs_def rs by (rule arg_cong [where f = "image airr_id"]) blast
  then show "ready_runs db' cid = {}" unfolding lr by blast
  have "single_ready db'"
    by (rule single_ready_antimono [of db]) (use inv lr in \<open>auto simp: ai_inv_def\<close>)
  moreover have "usage_exact db'"
    by (rule usage_exact_transfer [OF _ l(2,3,4)]) (use inv in \<open>simp add: ai_inv_def\<close>)
  ultimately show "ai_inv db'" using l(1) by (simp add: ai_inv_def)
qed

lemma ai_inv_cong:
  assumes "ai_inv db" and "t_ai_runs db' = t_ai_runs db" and "t_invocations db' = t_invocations db"
  shows "ai_inv db'"
  using assms(1) unfolding ai_inv_def ai_wf_def single_ready_def ready_runs_def usage_exact_def assms(2,3) .

lemma usage_snoc:
  "usage (is @ [i]) aid = (if inv_ai_run i = aid then add_invocation (usage is aid) i else usage is aid)"
  by (simp add: usage_def add_invocation_def Let_def)

lemma usage_none: "aid \<notin> inv_ai_run ` set is \<Longrightarrow>
    usage is aid = \<lparr>ms_invocations = 0, ms_prompt = 0, ms_completion = 0, ms_total = 0\<rparr>"
proof -
  assume "aid \<notin> inv_ai_run ` set is"
  then have "filter (\<lambda>i. inv_ai_run i = aid) is = []" by (auto simp: filter_empty_conv)
  then show ?thesis by (simp add: usage_def)
qed

lemma create_inv:
  assumes inv: "ai_inv db" and fresh: "tbl_get airr_id (air_id a) (t_ai_runs db) = None"
    and save: "save_ai_run db (queued_ai_run a oid act now) cid oid now = Inr db'"
  shows "ai_inv db'" "t_invocations db' = t_invocations db"
proof -
  define q where "q = queued_ai_run a oid act now"
  define row where "row = \<lparr>airr_id = air_id q, airr_operation = oid, airr_collector = cid, airr_data = q,
                  airr_created = now, airr_updated = now\<rparr>"
  have q: "air_id q = air_id a" "air_review_status q = NotReady"
    "air_model_summary q = \<lparr>ms_invocations = 0, ms_prompt = 0, ms_completion = 0, ms_total = 0\<rparr>"
    by (simp_all add: q_def queued_ai_run_def)
  have row: "airr_id row = air_id a" "airr_data row = q" by (simp_all add: row_def q)
  obtain db1 where hist: "record_new_history db ''ai_run'' (air_id q) None cid = Inr db1"
    and db': "db' = db1\<lparr>t_ai_runs := tbl_upsert airr_id row (\<lambda>r. r\<lparr>airr_data := q, airr_updated := now\<rparr>) (t_ai_runs db1)\<rparr>"
    using save by (auto simp: save_ai_run_def q_def row_def split: sum.splits)
  from hist obtain ow where db1: "db1 = db\<lparr>t_ownership := ow\<rparr>" by (rule record_new_history_only)
  have rows: "t_ai_runs db' = t_ai_runs db @ [row]" and invs: "t_invocations db' = t_invocations db"
    using fresh by (simp_all add: db' db1 tbl_upsert_def row)
  show "t_invocations db' = t_invocations db" by (rule invs)
  have wf: "ai_wf db" and single: "single_ready db" and us: "usage_exact db" using inv by (simp_all add: ai_inv_def)
  have new: "air_id a \<notin> airr_id ` set (t_ai_runs db)" using fresh by (auto simp: tbl_get_None_iff)
  then have "air_id a \<notin> inv_ai_run ` set (t_invocations db)" using us by (auto simp: usage_exact_def)
  then have zero: "usage (t_invocations db) (air_id a) = air_model_summary q"
    by (simp add: usage_none q)
  have "ready_runs db' c \<subseteq> ready_runs db c" for c
    by (auto simp: ready_runs_def rows row q)
  then have "single_ready db'" by (rule single_ready_antimono [OF single])
  moreover have "ai_wf db'" using wf new by (auto simp: ai_wf_def rows row q)
  moreover have "usage_exact db'" using us zero by (auto simp: usage_exact_def rows row invs)
  ultimately show "ai_inv db'" by (simp add: ai_inv_def)
qed

lemma start_attempt_inv:
  assumes inv: "ai_inv db" and run: "start_ai_attempt db aid now = Inr (db', at)"
  shows "ai_inv db'" "t_invocations db' = t_invocations db"
proof -
  obtain row where row: "tbl_get airr_id aid (t_ai_runs db) = Some row"
    using run by (auto simp: start_ai_attempt_def split: option.splits)
  obtain db1 a where db1: "t_ai_runs db1 = t_ai_runs db" "t_invocations db1 = t_invocations db"
    and save: "save_ai_run db1 a (airr_collector row) (airr_operation row) now = Inr db'"
    and a: "air_id a = air_id (airr_data row)" "air_model_summary a = air_model_summary (airr_data row)"
      "air_review_status a = air_review_status (airr_data row)"
    using run that [of "db\<lparr>t_ai_attempts := _\<rparr>" "(airr_data row)\<lparr>air_status := _, air_started := _, air_attempt_count := _\<rparr>"]
    by (auto simp: start_ai_attempt_def row Let_def split: sum.splits if_splits)
  have inv1: "ai_inv db1" by (rule ai_inv_cong [OF inv db1])
  have "tbl_get airr_id (air_id a) (t_ai_runs db1) = Some row" using row row_of [OF inv row] a db1 by simp
  from save_known_inv [OF save inv1 this a(2)] a(3) db1
  show "ai_inv db'" "t_invocations db' = t_invocations db" by auto
qed

lemma progress_inv:
  assumes inv: "ai_inv db" and run: "update_ai_activity db oid aid st phase progress m err now = Inr (db', o1, a1)"
  shows "ai_inv db'" "t_invocations db' = t_invocations db"
proof -
  obtain o2 cid db1 row where op: "save_operation db o2 cid now = Inr db1"
    and row: "tbl_get airr_id aid (t_ai_runs db1) = Some row"
    and save: "save_ai_run db1 a1 (airr_collector row) (airr_operation row) now = Inr db'"
    and a: "air_id a1 = air_id (airr_data row)" "air_model_summary a1 = air_model_summary (airr_data row)"
      "air_review_status a1 = air_review_status (airr_data row)"
    using run by (auto simp: update_ai_activity_def Let_def split: option.splits sum.splits)
  from op obtain ow ops where db1: "db1 = db\<lparr>t_ownership := ow, t_operations := ops\<rparr>" by (rule save_operation_only)
  have inv1: "ai_inv db1" by (rule ai_inv_cong [OF inv]) (simp_all add: db1)
  have "tbl_get airr_id (air_id a1) (t_ai_runs db1) = Some row" using row row_of [OF inv1 row] a by simp
  from save_known_inv [OF save inv1 this a(2)] a(3) db1
  show "ai_inv db'" "t_invocations db' = t_invocations db" by auto
qed

lemma call_inv:
  assumes inv: "ai_inv db" and run: "record_model_invocation db aid attempt iid rep now = Inr (db', i)"
  shows "ai_inv db'" "t_invocations db' = t_invocations db @ [i]"
proof -
  define db1 where "db1 = db\<lparr>t_invocations := t_invocations db @ [i]\<rparr>"
  obtain row where row: "tbl_get airr_id aid (t_ai_runs db) = Some row"
    using run by (auto simp: record_model_invocation_def Let_def split: option.splits)
  define a where "a = (airr_data row)\<lparr>air_model_summary := add_invocation (air_model_summary (airr_data row)) i\<rparr>"
  have i: "i = model_invocation_of iid aid attempt rep"
    and save: "save_ai_run db1 a (airr_collector row) (airr_operation row) now = Inr db'"
    using run row by (auto simp: record_model_invocation_def Let_def db1_def a_def split: sum.splits)
  have irun: "inv_ai_run i = aid" by (simp add: i model_invocation_of_def)
  note r = row_of [OF inv row]
  have rows1: "t_ai_runs db1 = t_ai_runs db" by (simp add: db1_def)
  have ida: "air_id a = aid" using a_def r by simp
  have row1: "tbl_get airr_id (air_id a) (t_ai_runs db1) = Some row" using row ida rows1 by simp
  have k: "air_id a \<in> airr_id ` set (t_ai_runs db1)" by (rule tbl_get_known [OF row1])
  have wf1: "ai_wf db1" using inv by (simp add: ai_inv_def ai_wf_def rows1)
  note keep = save_known_wf [OF save k]
  show invs: "t_invocations db' = t_invocations db @ [i]" unfolding keep(3) by (simp add: db1_def)
  have single: "single_ready db" and us: "usage_exact db" using inv by (simp_all add: ai_inv_def)
  have ra: "air_review_status a = air_review_status (airr_data row)" by (simp add: a_def)
  have mine: "aid \<in> ready_runs db (airr_collector row)" if "air_review_status a = ReadyReview"
    using that r(1,2) unfolding ready_runs_def ra by blast
  have same: "ready_runs db1 c = ready_runs db c" for c by (simp only: ready_runs_def rows1)
  have "ready_runs db' c \<subseteq> ready_runs db c" for c
  proof
    fix x
    assume "x \<in> ready_runs db' c"
    from save_known_ready_sub [OF save wf1 row1 this] mine show "x \<in> ready_runs db c"
      unfolding same ida by blast
  qed
  then have single': "single_ready db'" by (rule single_ready_antimono [OF single])
  have "air_model_summary (airr_data r') = usage (t_invocations db') (airr_id r')" if "r' \<in> set (t_ai_runs db')" for r'
  proof -
    from that save_known [OF save k] rows1 obtain r0 where r0: "r0 \<in> set (t_ai_runs db)"
      "r' = (if airr_id r0 = air_id a then r0\<lparr>airr_data := a, airr_updated := now\<rparr> else r0)"
      by (auto simp: tbl_upd_def)
    have u0: "air_model_summary (airr_data r0) = usage (t_invocations db) (airr_id r0)"
      using us r0(1) by (simp add: usage_exact_def)
    have "air_model_summary a = add_invocation (usage (t_invocations db) aid) i"
      unfolding a_def using r(4) by simp
    with u0 show ?thesis
      unfolding invs usage_snoc irun r0(2) ida by simp
  qed
  moreover have "inv_ai_run ` set (t_invocations db') \<subseteq> airr_id ` set (t_ai_runs db')"
  proof -
    have "aid \<in> airr_id ` set (t_ai_runs db)" by (rule tbl_get_known [OF row])
    then show ?thesis using us irun unfolding keep(2) rows1 invs by (simp add: usage_exact_def)
  qed
  ultimately show "ai_inv db'" using single' keep(1) [OF wf1] by (simp add: ai_inv_def usage_exact_def)
qed

lemma attempt_end_inv:
  "ai_inv db \<Longrightarrow> finish_ai_attempt db attempt st err now = Inr (db', at) \<Longrightarrow> ai_inv db' \<and> t_invocations db' = t_invocations db"
  by (auto simp: finish_ai_attempt_def Let_def intro: ai_inv_cong split: option.splits)

lemma ai_step_inv:
  assumes "ai_inv db"
  shows "ai_inv (ai_step db ev) \<and> length (t_invocations db) \<le> length (t_invocations (ai_step db ev))"
proof (cases ev)
  case (AiCreate a cid oid act now)
  then show ?thesis
    using assms by (auto simp: ai_step_def dest: create_inv split: sum.splits)
next
  case (AiUpdate aid ch now)
  then show ?thesis using assms by (auto simp: ai_step_def dest: update_ai_run_inv split: sum.splits)
next
  case (AiPublish cid rule now)
  then show ?thesis using assms by (auto simp: ai_step_def dest: publish_latest_inv split: sum.splits)
next
  case (AiAttempt aid now)
  then show ?thesis using assms by (auto simp: ai_step_def dest: start_attempt_inv split: sum.splits)
next
  case (AiAttemptEnd attempt st err now)
  then show ?thesis using assms by (auto simp: ai_step_def dest: attempt_end_inv split: sum.splits)
next
  case (AiCall aid attempt iid rep now)
  then show ?thesis using assms by (auto simp: ai_step_def dest: call_inv split: sum.splits)
next
  case (AiProgress oid aid st phase progress m err now)
  then show ?thesis using assms by (auto simp: ai_step_def dest: progress_inv split: sum.splits)
qed

interpretation ai_machine: step_machine ai_step ai_inv "\<lambda>db. int (length (t_invocations db))"
  by unfold_locales (simp_all add: ai_step_inv)

lemma ai_inv_start: "t_ai_runs db = [] \<Longrightarrow> t_invocations db = [] \<Longrightarrow> ai_inv db"
  by (simp add: ai_inv_def ai_wf_def single_ready_def ready_runs_def usage_exact_def)

text \<open>
  C18. Whatever sequence of AI-run commands a store has executed, a collector never has two
  AI runs waiting for review, and every AI run's stored usage summary is exactly the
  count and the token sums of its recorded model calls.
\<close>

theorem ai_runs_consistent:
  assumes "t_ai_runs db = []" and "t_invocations db = []"
    and "r \<in> set (t_ai_runs (foldl ai_step db evs))"
  shows "air_model_summary (airr_data r) = usage (t_invocations (foldl ai_step db evs)) (airr_id r) \<and>
    (air_review_status (airr_data r) = ReadyReview \<longrightarrow>
     (\<forall>s \<in> set (t_ai_runs (foldl ai_step db evs)). airr_collector s = airr_collector r \<longrightarrow>
        air_review_status (airr_data s) = ReadyReview \<longrightarrow> s = r))"
proof (intro conjI impI ballI)
  have inv: "ai_inv (foldl ai_step db evs)"
    by (rule ai_machine.run_inv) (rule ai_inv_start [OF assms(1,2)])
  then show "air_model_summary (airr_data r) = usage (t_invocations (foldl ai_step db evs)) (airr_id r)"
    using assms(3) by (simp add: ai_inv_def usage_exact_def)
  fix s
  assume "air_review_status (airr_data r) = ReadyReview" "s \<in> set (t_ai_runs (foldl ai_step db evs))"
    "airr_collector s = airr_collector r" "air_review_status (airr_data s) = ReadyReview"
  with assms(3) have "airr_id r \<in> ready_runs (foldl ai_step db evs) (airr_collector r)"
    "airr_id s \<in> ready_runs (foldl ai_step db evs) (airr_collector r)"
    by (auto simp: ready_runs_def)
  with inv have "airr_id s = airr_id r" unfolding ai_inv_def single_ready_def by blast
  with inv \<open>s \<in> _\<close> assms(3) show "s = r"
    unfolding ai_inv_def ai_wf_def by (metis option.inject tbl_get_unique)
qed

definition example_ai_run :: ai_run where
  "example_ai_run =
     \<lparr>air_id = ''ai_run_a'', air_operation = ''op_a'', air_status = Queued, air_phase = ''queued'', air_progress = 0,
      air_result_status = Pending, air_review_status = NotReady, air_attempt_count = 0,
      air_model_summary = \<lparr>ms_invocations = 0, ms_prompt = 0, ms_completion = 0, ms_total = 0\<rparr>,
      air_validation = \<lparr>vs_accepted = 0, vs_rejected = 0, vs_warnings = 0\<rparr>,
      air_candidate_digest = None, air_published_rule = None, air_created = 1, air_started = None,
      air_finished = None, air_duration = None, air_error = None, air_activity = []\<rparr>"

definition example_call :: call_report where
  "example_call = \<lparr>call_purpose = ''compile'', call_status = ''succeeded'', call_started = 3, call_finished = 9,
     call_duration = 6, call_prompt = 20, call_completion = -1, call_digest = None, call_error = None\<rparr>"

definition example_ai_db :: db where
  "example_ai_db = foldl ai_step example_db
     [AiCreate example_ai_run ''collector_a'' ''op_a'' [] 1, AiCall ''ai_run_a'' ''att_a'' ''call_a'' example_call 9,
      AiUpdate ''ai_run_a'' (no_ai_changes\<lparr>uc_review := Some ReadyReview\<rparr>) 11]"

lemma example_ai_db_run:
  "\<exists>r \<in> set (t_ai_runs example_ai_db). air_review_status (airr_data r) = ReadyReview \<and> airr_id r = ''ai_run_a''"
  by (simp add: example_ai_db_def ai_step_def save_ai_run_def record_new_history_def history_exists_def
      example_db_def empty_db_def example_ai_run_def queued_ai_run_def lock_collector_def is_deleted_def
      get_collector_def attribution_of_def save_attribution_def record_model_invocation_def model_invocation_of_def
      update_ai_run_def apply_ai_changes_def no_ai_changes_def changed_def Let_def tbl_upsert_def tbl_upd_def
      example_call_def add_invocation_def)

theorem ai_runs_consistent_witness:
  "\<exists>r \<in> set (t_ai_runs example_ai_db). air_review_status (airr_data r) = ReadyReview \<and>
     air_model_summary (airr_data r) = usage (t_invocations example_ai_db) ''ai_run_a'' \<and>
     {s \<in> set (t_ai_runs example_ai_db). airr_collector s = airr_collector r \<and>
        air_review_status (airr_data s) = ReadyReview} = {r}"
proof -
  from example_ai_db_run obtain r where r: "r \<in> set (t_ai_runs example_ai_db)"
    "air_review_status (airr_data r) = ReadyReview" "airr_id r = ''ai_run_a''" by blast
  have start: "t_ai_runs example_db = []" "t_invocations example_db = []"
    by (simp_all add: example_db_def empty_db_def)
  note facts = ai_runs_consistent [OF start r(1) [unfolded example_ai_db_def], folded example_ai_db_def]
  from r facts show ?thesis by (intro bexI [of _ r]) auto
qed

end
