(* ===== verification/Leases.thy ===== *)
theory Leases
  imports Iso_Time
begin

text \<open>
  The lease discipline the job queue and the delivery outbox share: a row can be
  claimed or is owned under a tag, never both at one instant; a grant makes the row
  owned under a new tag, so the holder before it has lost the row for good.
\<close>

locale lease_discipline =
  fixes claimable :: "'r \<Rightarrow> ts \<Rightarrow> bool"
    and owned :: "'r \<Rightarrow> 'tag \<Rightarrow> ts \<Rightarrow> bool"
    and grant :: "'r \<Rightarrow> 'k \<Rightarrow> ts \<Rightarrow> 'r"
    and tag_of :: "'r \<Rightarrow> 'tag"
    and valid :: "'k \<Rightarrow> 'r \<Rightarrow> bool"
  assumes owned_tag: "owned r g t \<Longrightarrow> tag_of r = g"
    and owned_excludes: "owned r g t \<Longrightarrow> \<not> claimable r t"
    and grant_owned: "valid k r \<Longrightarrow> owned (grant r k t) (tag_of (grant r k t)) t"
    and grant_new: "valid k r \<Longrightarrow> tag_of (grant r k t) \<noteq> tag_of r"
begin

lemma one_owner: "owned r g t \<Longrightarrow> owned r h u \<Longrightarrow> g = h"
  using owned_tag by metis

lemma granted_not_claimable: "valid k r \<Longrightarrow> \<not> claimable (grant r k t) t"
  using grant_owned owned_excludes by blast

lemma superseded: "owned r g u \<Longrightarrow> valid k r \<Longrightarrow> \<not> owned (grant r k t) g v"
  using owned_tag grant_new by metis

end

end
