(* ===== verification/Jobs.thy ===== *)
theory Jobs
  imports Ai_Runs Audit_Log Leases
begin

text \<open>
  The job queue: creating a command with its operation and job
  (\<open>Store.create_async_command\<close>), claiming under a lease (\<open>Store.claim_job\<close>), the
  ownership check and renewal of a claim, settling and cancelling
  (\<open>job_control.py\<close>), and the guards of a new command
  (\<open>collector_lifecycle.active_blockers\<close>, \<open>source_execution_digest\<close>,
  \<open>bounded_recovery.guard_source_work\<close>). A transaction reads the clock once here.
  \<open>hostname\<close> is \<open>urlsplit(url).hostname\<close> of the Python library, a parameter.
\<close>

subsection \<open>Guards of a new command\<close>

definition source_execution_digest :: "hasher \<Rightarrow> collector \<Rightarrow> string" where
  "source_execution_digest ph c = ph (JObj
     [(''activeRuleVersion'', jopt (col_active_rule c)), (''candidate'', jor (col_candidate c)),
      (''collectionId'', JStr (col_collection_id c)), (''collectionVersion'', JStr (col_collection_version c)),
      (''intent'', JStr (col_intent c)), (''managementRevision'', JNum (int (col_revision c))),
      (''pendingCollectionVersion'', jopt (col_pending_version c)), (''sourceUrl'', JStr (col_source_url c)),
      (''status'', JStr (col_status c))])"

definition unfinished_job :: "job_row \<Rightarrow> bool" where
  "unfinished_job j \<longleftrightarrow> job_status j \<in> {JQueued, JProcessing}"

definition active_blockers :: "db \<Rightarrow> string \<Rightarrow> string list" where
  "active_blockers db cid =
     (let active = (\<exists>r \<in> set (t_operations db). opr_collector r = cid \<and> \<not> terminal_operation (op_status (opr_data r))) \<or>
                   (\<exists>r \<in> set (t_ai_runs db). airr_collector r = cid \<and> \<not> terminal_operation (air_status (airr_data r)));
          jobs = (\<exists>j \<in> set (t_jobs db). unfinished_job j \<and>
                    (\<exists>r \<in> set (t_operations db). opr_id r = job_operation j \<and> opr_collector r = cid))
      in (if jobs \<or> active then [''TASK_ALREADY_ACTIVE''] else []) @
         (if has_active_run db cid then [''RUN_ALREADY_ACTIVE''] else []))"

definition clean_host :: "string \<Rightarrow> string" where
  "clean_host h = rev (dropWhile (\<lambda>c. c = CHR ''.'') (rev (lower h)))"

definition source_hosts :: "(string \<Rightarrow> string option) \<Rightarrow> db \<Rightarrow> collector \<Rightarrow> string list" where
  "source_hosts hostname db c =
     (let rule = (case col_active_rule c of None \<Rightarrow> None | Some rv \<Rightarrow> tbl_get rv_id rv (t_rules db));
          allowed = (case rule of None \<Rightarrow> [] | Some rv \<Rightarrow> rv_allowed_hosts rv);
          own = (case hostname (col_source_url c) of None \<Rightarrow> [] | Some h \<Rightarrow> [h])
      in sort (remdups (map clean_host (filter (\<lambda>h. h \<noteq> []) (allowed @ own)))))"

definition active_batch :: "batch_status \<Rightarrow> bool" where
  "active_batch s \<longleftrightarrow> s \<in> {CoolingDown, BRunning, Cancelling}"

definition guard_source_work ::
  "(string \<Rightarrow> string option) \<Rightarrow> db \<Rightarrow> collector \<Rightarrow> string option \<Rightarrow> ts \<Rightarrow> py_exc option" where
  "guard_source_work hostname db c owner now =
     (if \<exists>b \<in> set (t_batches db).
           (active_batch (br_status b) \<or> (case br_hold_until b of None \<Rightarrow> False | Some t \<Rightarrow> tlt now t)) \<and>
           set (rb_hosts (br_data b)) \<inter> set (source_hosts hostname db c) \<noteq> {} \<and> Some (rb_id (br_data b)) \<noteq> owner
      then Some (RecoveryErr ''SOURCE_RECOVERY_ACTIVE'') else None)"

subsection \<open>Creating a command\<close>

record async_request =
  ar_kind :: string
  ar_resource_type :: string
  ar_resource_id :: string
  ar_payload :: job_payload
  ar_changes :: "(collector \<Rightarrow> collector) option"
  ar_run :: "run option"
  ar_ai_run :: "ai_run option"
  ar_activate :: bool
  ar_expected_digest :: "string option"

definition queued_entry :: "ts \<Rightarrow> activity_entry" where
  "queued_entry now = \<lparr>act_phase = ''queued'', act_status = Running, act_started = now, act_finished = None,
     act_duration = None, act_metrics = empty_operation_metrics\<rparr>"

definition queued_operation :: "string \<Rightarrow> async_request \<Rightarrow> ts \<Rightarrow> operation" where
  "queued_operation oid req now =
     \<lparr>op_id = oid, op_kind = ar_kind req, op_status = Queued, op_phase = ''queued'', op_progress = 0,
      op_resource_type = ar_resource_type req, op_resource_id = ar_resource_id req,
      op_status_url = ''/api/v1/operations/'' @ oid, op_poll_after_ms = 400, op_queued_at = now,
      op_metrics = empty_operation_metrics, op_error = None,
      op_ai_run_id = map_option air_id (ar_ai_run req),
      op_activity = (case ar_ai_run req of None \<Rightarrow> [] | Some _ \<Rightarrow> [queued_entry now]),
      op_cancel_requested = False\<rparr>"

text \<open>The checks on the locked collector before anything is written.\<close>

definition command_guard ::
  "hasher \<Rightarrow> (string \<Rightarrow> string option) \<Rightarrow> db \<Rightarrow> string \<Rightarrow> collector \<Rightarrow> async_request \<Rightarrow> ts \<Rightarrow> py_exc option" where
  "command_guard ph hostname db cid c req now =
     (case require_active (Some c) of
        Some e \<Rightarrow> Some e
      | None \<Rightarrow>
          (case (if ar_kind req \<in> {''run'', ''explore''}
                 then guard_source_work hostname db c (pl_recovery_batch (ar_payload req)) now else None) of
             Some e \<Rightarrow> Some e
           | None \<Rightarrow>
               if ar_expected_digest req \<noteq> None \<and> ar_expected_digest req \<noteq> Some (source_execution_digest ph c)
               then Some (LifecycleErr ''COLLECTOR_CONFLICT'')
               else if active_blockers db cid \<noteq> [] then Some (LifecycleErr (hd (active_blockers db cid)))
               else if ar_kind req = ''run'' then
                 (if col_pending_version c \<noteq> None then Some (LifecycleErr ''MIGRATION_ALREADY_ACTIVE'')
                  else if col_status c \<noteq> ''published'' \<or> col_active_rule c = None
                  then Some (LifecycleErr ''RULE_NOT_PUBLISHED'')
                  else
                    (case ar_run req of
                       None \<Rightarrow> None
                     | Some r \<Rightarrow>
                         if Some (run_rule_version r) \<noteq> col_active_rule c then Some (LifecycleErr ''COLLECTOR_CONFLICT'')
                         else if Some (run_policy_version r) \<noteq> col_policy_id c
                         then Some (LifecycleErr ''COLLECTOR_CONFLICT'')
                         else None))
               else None))"

text \<open>The collector with the changes of the command and its new active operation.\<close>

definition changed_collector :: "async_request \<Rightarrow> string \<Rightarrow> collector \<Rightarrow> collector" where
  "changed_collector req oid c =
     (let c1 = (case ar_changes req of None \<Rightarrow> c | Some f \<Rightarrow> f c)
      in if ar_activate req then c1\<lparr>col_active_operation := Some oid\<rparr> else c1)"

text \<open>\<open>oid\<close> is the fresh operation id.\<close>

definition create_async_command ::
  "hasher \<Rightarrow> (string \<Rightarrow> string option) \<Rightarrow> db \<Rightarrow> string \<Rightarrow> async_request \<Rightarrow> string \<Rightarrow> ts \<Rightarrow> py_exc + (db \<times> operation)"
where
  "create_async_command ph hostname db cid req oid now =
     (let o' = queued_operation oid req now
      in (case lock_collector db cid of
            Some e \<Rightarrow> Inl e
          | None \<Rightarrow>
      (case get_collector db cid of
         None \<Rightarrow> Inl (LifecycleErr ''COLLECTOR_NOT_FOUND'')
       | Some c \<Rightarrow>
      (case command_guard ph hostname db cid c req now of
         Some e \<Rightarrow> Inl e
       | None \<Rightarrow>
      (let payload = (ar_payload req)\<lparr>pl_collector_id := Some cid, pl_management_revision := col_revision c\<rparr>
       in (case (if ar_changes req \<noteq> None \<or> ar_activate req
                 then map_sum id fst (save_collector db (changed_collector req oid c) False now) else Inr db) of
             Inl e \<Rightarrow> Inl e
           | Inr db1 \<Rightarrow>
          (case (case ar_run req of None \<Rightarrow> Inr db1 | Some r \<Rightarrow> save_run db1 (r\<lparr>run_operation := Some oid\<rparr>) now) of
             Inl e \<Rightarrow> Inl e
           | Inr db2 \<Rightarrow>
          (case save_operation db2 o' cid now of
             Inl e \<Rightarrow> Inl e
           | Inr db3 \<Rightarrow>
          (case (case ar_ai_run req of
                   None \<Rightarrow> Inr db3
                 | Some a \<Rightarrow> save_ai_run db3 (queued_ai_run a oid (op_activity o') now) cid oid now) of
             Inl e \<Rightarrow> Inl e
           | Inr db4 \<Rightarrow>
               Inr (db4\<lparr>t_jobs := t_jobs db4 @
                      [\<lparr>job_id = t_next_job db4, job_operation = oid, job_kind = ar_kind req, job_payload = payload,
                        job_status = JQueued, job_attempts = 0, job_available_at = now, job_lease_until = None,
                        job_last_error = None\<rparr>],
                      t_next_job := t_next_job db4 + 1\<rparr>, o'))))))))))"

subsection \<open>Owning a claim\<close>

text \<open>The check \<open>owned_transaction\<close> makes before its body runs in the same transaction.\<close>

definition owned_check :: "db \<Rightarrow> claimed_job \<Rightarrow> bool \<Rightarrow> ts \<Rightarrow> py_exc option" where
  "owned_check db job allow_cancel now =
     (case tbl_get job_id (cj_id job) (t_jobs db) of
        None \<Rightarrow> Some JobLeaseLost
      | Some row \<Rightarrow>
          if job_status row \<noteq> JProcessing \<or> job_attempts row \<noteq> cj_attempts job \<or>
             (case job_lease_until row of None \<Rightarrow> True | Some t \<Rightarrow> tle t now)
          then Some JobLeaseLost
          else
            (case get_operation db (cj_operation job) of
               None \<Rightarrow> Some JobLeaseLost
             | Some o' \<Rightarrow>
                 if terminal_operation (op_status o') then Some JobLeaseLost
                 else if op_cancel_requested o' \<and> \<not> allow_cancel then Some JobCancelled
                 else None))"

definition lease_end :: "ts \<Rightarrow> int \<Rightarrow> ts" where
  "lease_end now seconds = now + seconds * 1000000"

definition renew_job :: "db \<Rightarrow> claimed_job \<Rightarrow> ts \<Rightarrow> py_exc + db" where
  "renew_job db job now =
     (case owned_check db job False now of
        Some e \<Rightarrow> Inl e
      | None \<Rightarrow> Inr (db\<lparr>t_jobs := tbl_upd job_id (cj_id job)
                 (\<lambda>r. r\<lparr>job_lease_until := Some (lease_end now (cj_lease_seconds job))\<rparr>) (t_jobs db)\<rparr>))"

definition finish_job :: "db \<Rightarrow> nat \<Rightarrow> db" where
  "finish_job db jid = db\<lparr>t_jobs := tbl_upd job_id jid
     (\<lambda>r. r\<lparr>job_status := JCompleted, job_lease_until := None\<rparr>) (t_jobs db)\<rparr>"

definition fail_job :: "db \<Rightarrow> nat \<Rightarrow> string \<Rightarrow> db" where
  "fail_job db jid message = db\<lparr>t_jobs := tbl_upd job_id jid
     (\<lambda>r. r\<lparr>job_status := JFailed, job_lease_until := None, job_last_error := Some (take 2000 message)\<rparr>) (t_jobs db)\<rparr>"

subsection \<open>Settling a job that did not succeed\<close>

text \<open>The operation with its AI run and attempts, or the operation alone.\<close>

definition finish_ai_resources ::
  "db \<Rightarrow> string \<Rightarrow> string \<Rightarrow> error_doc \<Rightarrow> status \<Rightarrow> ts \<Rightarrow> py_exc + db" where
  "finish_ai_resources db oid aid err st now =
     (case update_ai_activity db oid aid st ''completed'' 100 Map.empty (Some err) now of
        Inl e \<Rightarrow> Inl e
      | Inr (db1, _, a) \<Rightarrow>
          (let started = (case air_started a of None \<Rightarrow> air_created a | Some t \<Rightarrow> t)
           in (case update_ai_run db1 aid
                      (no_ai_changes\<lparr>uc_finished := Some now, uc_duration := Some (elapsed_ms started now),
                                     uc_result := Some NoCandidate, uc_review := Some NotReady\<rparr>) now of
                 Inl e \<Rightarrow> Inl e
               | Inr (db2, _) \<Rightarrow>
                   fold_result (\<lambda>r d. map_sum id fst (finish_ai_attempt d (attr_id r) st (Some err) now))
                     (filter (\<lambda>r. attr_ai_run r = aid \<and> att_status (attr_data r) = Running) (t_ai_attempts db2)) db2)))"

definition release_collector :: "db \<Rightarrow> claimed_job \<Rightarrow> string \<Rightarrow> ts \<Rightarrow> py_exc + db" where
  "release_collector db job cid now =
     (case get_collector db cid of
        None \<Rightarrow> Inr db
      | Some c \<Rightarrow>
          if col_active_operation c \<noteq> Some (cj_operation job) then Inr db
          else
            (let c1 = c\<lparr>col_active_operation := None\<rparr>;
                 c2 = (if cj_kind job = ''explore''
                       then c1\<lparr>col_status := (case pl_previous_status (cj_payload job) of None \<Rightarrow> ''draft'' | Some s \<Rightarrow> s),
                               col_migration := map_option (mg_status_update (\<lambda>_. ''failed'')) (col_migration c1)\<rparr>
                       else c1)
             in map_sum id fst (save_collector db c2 False now)))"

definition settle_run :: "db \<Rightarrow> claimed_job \<Rightarrow> error_doc \<Rightarrow> status \<Rightarrow> ts \<Rightarrow> py_exc + db" where
  "settle_run db job err st now =
     (case pl_run_id (cj_payload job) of
        None \<Rightarrow> Inr db
      | Some rid \<Rightarrow>
          (case get_run db rid of
             None \<Rightarrow> Inr db
           | Some r \<Rightarrow>
               save_run db
                 (r\<lparr>run_status := st, run_duration_micros := None, run_summary := err_message err,
                    run_recovery_action := ''Review the failure and retry.'',
                    run_integrity := (if starts_with ''INTEGRITY'' (err_code err) then ''invalid'' else run_integrity r)\<rparr>) now))"

definition finish_resources :: "db \<Rightarrow> claimed_job \<Rightarrow> error_doc \<Rightarrow> status \<Rightarrow> ts \<Rightarrow> py_exc + db" where
  "finish_resources db job err st now =
     (let cid = pl_collector_id (cj_payload job);
          oid = cj_operation job
      in (case (case cid of None \<Rightarrow> None | Some c \<Rightarrow> lock_collector db c) of
            Some e \<Rightarrow> Inl e
          | None \<Rightarrow>
      (case get_operation db oid of
         None \<Rightarrow> Inr db
       | Some o' \<Rightarrow>
      if terminal_operation (op_status o') then Inr db
      else
      (case (case pl_ai_run_id (cj_payload job) of
               Some aid \<Rightarrow> finish_ai_resources db oid aid err st now
             | None \<Rightarrow> save_operation db
                  (o'\<lparr>op_status := st, op_phase := ''completed'', op_progress := 100, op_error := Some err\<rparr>)
                  (case cid of None \<Rightarrow> [] | Some c \<Rightarrow> c) now) of
         Inl e \<Rightarrow> Inl e
       | Inr db1 \<Rightarrow>
      (case (case cid of None \<Rightarrow> Inr db1 | Some c \<Rightarrow> release_collector db1 job c now) of
         Inl e \<Rightarrow> Inl e
       | Inr db2 \<Rightarrow>
      (case settle_run db2 job err st now of
         Inl e \<Rightarrow> Inl e
       | Inr db3 \<Rightarrow> Inr (fail_job db3 (cj_id job) (err_message err))))))))"

subsection \<open>Claiming and cancelling\<close>

definition claimable :: "job_row \<Rightarrow> ts \<Rightarrow> bool" where
  "claimable j now \<longleftrightarrow> tle (job_available_at j) now \<and>
     (job_status j = JQueued \<or>
      (job_status j = JProcessing \<and> (case job_lease_until j of None \<Rightarrow> False | Some t \<Rightarrow> tlt t now)))"

definition worker_error :: "string \<Rightarrow> bool \<Rightarrow> error_doc" where
  "worker_error oid cancelled =
     \<lparr>err_code = (if cancelled then ''JOB_CANCELLED'' else ''JOB_ATTEMPTS_EXHAUSTED''),
      err_message = (if cancelled then ''Job cancelled'' else ''Job recovery attempts exhausted''),
      err_request_id = ''worker_'' @ oid, err_retryable = False, err_details = []\<rparr>"

definition job_of_row :: "job_row \<Rightarrow> nat \<Rightarrow> int \<Rightarrow> claimed_job" where
  "job_of_row j attempts lease =
     \<lparr>cj_id = job_id j, cj_operation = job_operation j, cj_kind = job_kind j, cj_payload = job_payload j,
      cj_attempts = attempts, cj_lease_seconds = lease\<rparr>"

definition grant_job :: "job_row \<Rightarrow> int \<Rightarrow> ts \<Rightarrow> job_row" where
  "grant_job r lease now =
     r\<lparr>job_status := JProcessing, job_attempts := job_attempts r + 1, job_lease_until := Some (lease_end now lease)\<rparr>"

definition claim_job :: "db \<Rightarrow> int \<Rightarrow> ts \<Rightarrow> py_exc + (db \<times> claimed_job option)" where
  "claim_job db lease now =
     (if lease < 1 then Inl (ValueErr ''job lease must be positive'')
      else
        (case find (\<lambda>j. claimable j now) (sort_key job_id (t_jobs db)) of
           None \<Rightarrow> Inr (db, None)
         | Some row \<Rightarrow>
             (let job = job_of_row row (job_attempts row + 1) lease
              in (case get_operation db (job_operation row) of
                    None \<Rightarrow> Inr (finish_job db (job_id row), None)
                  | Some o' \<Rightarrow>
                      if terminal_operation (op_status o') then Inr (finish_job db (job_id row), None)
                      else if op_cancel_requested o' \<or>
                              (case pl_max_job_attempts (job_payload row) of None \<Rightarrow> 3 | Some n \<Rightarrow> n) \<le> job_attempts row
                      then map_sum id (\<lambda>d. (d, None))
                             (finish_resources db job (worker_error (job_operation row) (op_cancel_requested o'))
                               (if op_cancel_requested o' then Cancelled else Failed) now)
                      else Inr (db\<lparr>t_jobs := tbl_upd job_id (job_id row)
                               (\<lambda>r. grant_job r lease now) (t_jobs db)\<rparr>, Some job)))))"

definition cancel_error :: "audit_args \<Rightarrow> error_doc" where
  "cancel_error audit = \<lparr>err_code = ''JOB_CANCELLED'', err_message = ''Job cancelled'',
     err_request_id = aa_request audit, err_retryable = False, err_details = []\<rparr>"

definition request_cancel ::
  "hasher \<Rightarrow> db \<Rightarrow> string \<Rightarrow> audit_args \<Rightarrow> string \<Rightarrow> ts \<Rightarrow> py_exc + (db \<times> operation)" where
  "request_cancel ph db oid audit event_id now =
     (case (find (\<lambda>j. job_operation j = oid) (t_jobs db), get_operation db oid) of
        (Some row, Some o') \<Rightarrow>
          if terminal_operation (op_status o') \<or> op_cancel_requested o' then Inr (db, o')
          else
            (case operation_collector_id db oid of
               Inl e \<Rightarrow> Inl e
             | Inr cid \<Rightarrow>
            (case save_operation db (o'\<lparr>op_cancel_requested := True\<rparr>) cid now of
               Inl e \<Rightarrow> Inl e
             | Inr db1 \<Rightarrow>
            (case (if job_status row = JQueued \<or> (case job_lease_until row of None \<Rightarrow> True | Some t \<Rightarrow> tle t now)
                   then finish_resources db1 (job_of_row row (job_attempts row) 0) (cancel_error audit) Cancelled now
                   else Inr db1) of
               Inl e \<Rightarrow> Inl e
             | Inr db2 \<Rightarrow>
                 (let db3 = append_audit_event ph db2 event_id (aa_tenant audit) ''Operation'' oid
                              (audit\<lparr>aa_action := ''operation.cancel''\<rparr>) None None now
                  in (case get_operation db3 oid of
                        None \<Rightarrow> Inl (KeyErr oid)
                      | Some o'' \<Rightarrow> Inr (db3, o''))))))
      | _ \<Rightarrow> Inl (KeyErr oid))"

subsection \<open>Progress and success of a claim\<close>

text \<open>\<open>Worker._progress\<close> inside the ownership check; \<open>settle_operation\<close> is the success path.\<close>

definition job_progress ::
  "db \<Rightarrow> claimed_job \<Rightarrow> string \<Rightarrow> int \<Rightarrow> metrics \<Rightarrow> ts \<Rightarrow> py_exc + db" where
  "job_progress db job phase progress m now =
     (case owned_check db job False now of
        Some e \<Rightarrow> Inl e
      | None \<Rightarrow>
          (case pl_ai_run_id (cj_payload job) of
             Some aid \<Rightarrow> map_sum id fst
               (update_ai_activity db (cj_operation job) aid Running phase progress m None now)
           | None \<Rightarrow> map_sum id fst
               (update_operation db (cj_operation job)
                  (\<lambda>o'. o'\<lparr>op_status := Running, op_phase := phase, op_progress := progress, op_metrics := m,
                           op_error := None\<rparr>) now)))"

text \<open>
  How a job ends when its processing raised: \<open>Worker.fail\<close> settles the resources under
  the ownership check, unless the lease is gone. An exception is its kind and the error
  document made from it; \<open>JobLeaseLost\<close> is ignored by the caller.
\<close>

datatype failure = FCancelled error_doc | FTimedOut error_doc | FIntegrity error_doc | FOther error_doc

definition failure_doc :: "failure \<Rightarrow> error_doc" where
  "failure_doc f = (case f of FCancelled e \<Rightarrow> e | FTimedOut e \<Rightarrow> e | FIntegrity e \<Rightarrow> e | FOther e \<Rightarrow> e)"

definition failure_status :: "bool \<Rightarrow> failure \<Rightarrow> status" where
  "failure_status requested f =
     (if requested \<or> (case f of FCancelled _ \<Rightarrow> True | _ \<Rightarrow> False) then Cancelled
      else case f of FTimedOut _ \<Rightarrow> TimedOut | _ \<Rightarrow> Failed)"

definition failure_error :: "status \<Rightarrow> failure \<Rightarrow> error_doc" where
  "failure_error st f =
     (if st = Cancelled then (failure_doc f)\<lparr>err_code := ''JOB_CANCELLED'', err_message := ''Job cancelled''\<rparr>
      else if st = TimedOut
      then (failure_doc f)\<lparr>err_code := ''JOB_TIMED_OUT'', err_message := ''Job duration budget exhausted''\<rparr>
      else failure_doc f)"

definition invalidate_run :: "db \<Rightarrow> string \<Rightarrow> ts \<Rightarrow> py_exc + db" where
  "invalidate_run db rid now =
     (case get_run db rid of
        None \<Rightarrow> Inl (RuntimeErr ''run missing'')
      | Some r \<Rightarrow> save_run db (r\<lparr>run_integrity := ''invalid''\<rparr>) now)"

definition fail_owned :: "db \<Rightarrow> claimed_job \<Rightarrow> failure \<Rightarrow> ts \<Rightarrow> py_exc + (db \<times> status)" where
  "fail_owned db job f now =
     (case owned_check db job True now of
        Some e \<Rightarrow> Inl e
      | None \<Rightarrow>
          (case get_operation db (cj_operation job) of
             None \<Rightarrow> Inl JobLeaseLost
           | Some o' \<Rightarrow>
               (let st = failure_status (op_cancel_requested o') f
                in (case finish_resources db job (failure_error st f) st now of
                      Inl e \<Rightarrow> Inl e
                    | Inr db1 \<Rightarrow>
                        (case (f, pl_run_id (cj_payload job)) of
                           (FIntegrity _, Some rid) \<Rightarrow> map_sum id (\<lambda>d. (d, st)) (invalidate_run db1 rid now)
                         | _ \<Rightarrow> Inr (db1, st))))))"

text \<open>
  The end of a successful claim, on the operation and the job: the body of the last
  transaction of \<open>Worker._process_owned\<close> without the documents of the run.
\<close>

definition settle_success :: "db \<Rightarrow> claimed_job \<Rightarrow> metrics \<Rightarrow> ts \<Rightarrow> py_exc + db" where
  "settle_success db job m now =
     (case owned_check db job False now of
        Some e \<Rightarrow> Inl e
      | None \<Rightarrow>
          (case (case pl_ai_run_id (cj_payload job) of
                   Some aid \<Rightarrow> map_sum id fst
                     (update_ai_activity db (cj_operation job) aid Succeeded ''completed'' 100 m None now)
                 | None \<Rightarrow> map_sum id fst
                     (update_operation db (cj_operation job)
                        (\<lambda>o'. o'\<lparr>op_status := Succeeded, op_phase := ''completed'', op_progress := 100,
                                 op_metrics := m, op_error := None\<rparr>) now)) of
             Inl e \<Rightarrow> Inl e
           | Inr db1 \<Rightarrow> Inr (finish_job db1 (cj_id job))))"

end
