(* ===== verification/Job_Safety.thy ===== *)
theory Job_Safety
  imports Jobs
begin

text \<open>
  What the job queue guarantees: the lease discipline of its rows, attempts that never
  exceed their bound, terminal operations that are never reopened, at most one
  unfinished operation per collector, and cancellation that ends in a cancelled
  operation whatever the worker does.
\<close>

subsection \<open>The lease of a job row\<close>

definition row_owned :: "job_row \<Rightarrow> nat \<Rightarrow> ts \<Rightarrow> bool" where
  "row_owned j attempts now \<longleftrightarrow> job_status j = JProcessing \<and> job_attempts j = attempts \<and>
     (case job_lease_until j of None \<Rightarrow> False | Some t \<Rightarrow> tlt now t)"

lemma lease_end_later: "1 \<le> s \<Longrightarrow> tlt now (lease_end now s)"
  by (simp add: tlt_def lease_end_def iso_key_def)

interpretation job_lease: lease_discipline claimable row_owned "\<lambda>r k t. grant_job r k t" job_attempts "\<lambda>k r. 1 \<le> k"
proof
  show "row_owned r g t \<Longrightarrow> job_attempts r = g" for r g t
    by (simp add: row_owned_def)
  show "row_owned r g t \<Longrightarrow> \<not> claimable r t" for r g t
    by (auto simp: row_owned_def claimable_def tlt_def split: option.splits)
  show "1 \<le> k \<Longrightarrow> row_owned (grant_job r k t) (job_attempts (grant_job r k t)) t" for k r t
    by (simp add: row_owned_def grant_job_def lease_end_later)
  show "1 \<le> k \<Longrightarrow> job_attempts (grant_job r k t) \<noteq> job_attempts r" for k r t
    by (simp add: grant_job_def)
qed

lemma owned_check_row:
  assumes "owned_check db job allow now = None"
  obtains row o' where "tbl_get job_id (cj_id job) (t_jobs db) = Some row" and "row_owned row (cj_attempts job) now"
    and "get_operation db (cj_operation job) = Some o'" and "\<not> terminal_operation (op_status o')"
    and "op_cancel_requested o' \<longrightarrow> allow"
  using assms
  by (auto simp: owned_check_def row_owned_def not_tle split: option.splits if_splits)

lemma owned_checkI:
  assumes "tbl_get job_id (cj_id job) (t_jobs db) = Some row" and "row_owned row (cj_attempts job) now"
    and "get_operation db (cj_operation job) = Some o'" and "\<not> terminal_operation (op_status o')"
    and "op_cancel_requested o' \<longrightarrow> allow"
  shows "owned_check db job allow now = None"
  using assms by (simp add: owned_check_def row_owned_def not_tle split: option.splits)

subsection \<open>What the AI-run writes leave alone\<close>

lemma update_ai_run_only:
  assumes "update_ai_run db aid ch now = Inr (db', a)"
  obtains ow rs where "db' = db\<lparr>t_ownership := ow, t_ai_runs := rs\<rparr>"
proof -
  from assms obtain row where row: "tbl_get airr_id aid (t_ai_runs db) = Some row"
    by (auto simp: update_ai_run_def split: option.splits)
  define older where "older = (if uc_review ch = Some ReadyReview
                        then filter (\<lambda>r. airr_collector r = airr_collector row \<and> airr_id r \<noteq> aid \<and>
                                         air_review_status (airr_data r) = ReadyReview) (t_ai_runs db)
                        else [])"
  from assms row obtain db1 where
    loop: "fold_result (\<lambda>r d. save_ai_run d (supersede (airr_data r)) (airr_collector row) (airr_operation r) now) older db = Inr db1"
    and save: "save_ai_run db1 a (airr_collector row) (airr_operation row) now = Inr db'"
    by (auto simp: update_ai_run_def Let_def older_def [symmetric] split: sum.splits)
  have "\<exists>ow rs. db1 = db\<lparr>t_ownership := ow, t_ai_runs := rs\<rparr>"
    using loop
  proof (rule fold_result_invariant, goal_cases)
    case 1
    have "db = db\<lparr>t_ownership := t_ownership db, t_ai_runs := t_ai_runs db\<rparr>" by simp
    then show ?case by blast
  next
    case (2 x s s')
    then obtain ow rs where s: "s = db\<lparr>t_ownership := ow, t_ai_runs := rs\<rparr>" by blast
    from 2(3) obtain ow' rs' where "s' = s\<lparr>t_ownership := ow', t_ai_runs := rs'\<rparr>" by (rule save_ai_run_only)
    then show ?case by (auto simp: s)
  qed
  then obtain ow rs where d1: "db1 = db\<lparr>t_ownership := ow, t_ai_runs := rs\<rparr>" by blast
  from save obtain ow' rs' where "db' = db1\<lparr>t_ownership := ow', t_ai_runs := rs'\<rparr>" by (rule save_ai_run_only)
  then show ?thesis using that by (simp add: d1)
qed

lemma finish_ai_attempt_only:
  assumes "finish_ai_attempt db x st err now = Inr (db', a)"
  obtains rs where "db' = db\<lparr>t_ai_attempts := rs\<rparr>"
  using assms by (auto simp: finish_ai_attempt_def Let_def split: option.splits)

subsection \<open>Steps of the queue\<close>

definition max_attempts :: "job_payload \<Rightarrow> nat" where
  "max_attempts p = (case pl_max_job_attempts p of None \<Rightarrow> 3 | Some n \<Rightarrow> n)"

definition unfinished_op :: "operation_row \<Rightarrow> bool" where
  "unfinished_op r \<longleftrightarrow> \<not> terminal_operation (op_status (opr_data r))"

definition queue_inv :: "db \<Rightarrow> bool" where
  "queue_inv db \<longleftrightarrow>
     distinct (map opr_id (t_operations db)) \<and> (\<forall>r \<in> set (t_operations db). op_id (opr_data r) = opr_id r) \<and>
     (\<forall>r \<in> set (t_operations db). \<forall>s \<in> set (t_operations db).
        unfinished_op r \<longrightarrow> unfinished_op s \<longrightarrow> opr_collector r = opr_collector s \<longrightarrow> opr_id r = opr_id s) \<and>
     distinct (map job_id (t_jobs db)) \<and> distinct (map job_operation (t_jobs db)) \<and>
     (\<forall>j \<in> set (t_jobs db). job_id j < t_next_job db \<and> job_attempts j \<le> max_attempts (job_payload j) \<and>
        job_operation j \<in> opr_id ` set (t_operations db))"

lemma queue_invD:
  assumes "queue_inv db"
  shows "distinct (map opr_id (t_operations db))" "\<forall>r \<in> set (t_operations db). op_id (opr_data r) = opr_id r"
    "\<forall>r \<in> set (t_operations db). \<forall>s \<in> set (t_operations db).
        unfinished_op r \<longrightarrow> unfinished_op s \<longrightarrow> opr_collector r = opr_collector s \<longrightarrow> opr_id r = opr_id s"
    "distinct (map job_id (t_jobs db))" "distinct (map job_operation (t_jobs db))"
    "\<forall>j \<in> set (t_jobs db). job_id j < t_next_job db \<and> job_attempts j \<le> max_attempts (job_payload j) \<and>
        job_operation j \<in> opr_id ` set (t_operations db)"
  using assms unfolding queue_inv_def by blast+

text \<open>An operation whose cancellation is requested and that has not ended otherwise.\<close>

definition doomed :: "operation \<Rightarrow> bool" where
  "doomed o' \<longleftrightarrow> op_cancel_requested o' \<and> (\<not> terminal_operation (op_status o') \<or> op_status o' = Cancelled)"

definition queue_step :: "db \<Rightarrow> db \<Rightarrow> bool" where
  "queue_step db db' \<longleftrightarrow> queue_inv db' \<and>
     (\<forall>oid o'. get_operation db oid = Some o' \<longrightarrow> terminal_operation (op_status o') \<longrightarrow> get_operation db' oid = Some o') \<and>
     (\<forall>oid o'. get_operation db oid = Some o' \<longrightarrow> doomed o' \<longrightarrow> (\<exists>o''. get_operation db' oid = Some o'' \<and> doomed o'')) \<and>
     (\<forall>jid r. tbl_get job_id jid (t_jobs db) = Some r \<longrightarrow>
        (\<exists>r'. tbl_get job_id jid (t_jobs db') = Some r' \<and> job_attempts r \<le> job_attempts r'))"

lemma queue_step_refl: "queue_inv db \<Longrightarrow> queue_step db db"
  by (auto simp: queue_step_def)

lemma queue_step_inv: "queue_step db db' \<Longrightarrow> queue_inv db'"
  by (simp add: queue_step_def)

lemma queue_step_trans: "queue_step a b \<Longrightarrow> queue_step b c \<Longrightarrow> queue_step a c"
  unfolding queue_step_def by (meson order_trans)

lemma queue_step_same:
  assumes "queue_inv db" and "t_operations db' = t_operations db" and "t_jobs db' = t_jobs db" and "t_next_job db' = t_next_job db"
  shows "queue_step db db'"
proof -
  have "queue_inv db'" using assms(1) unfolding queue_inv_def assms(2-4) .
  then show ?thesis unfolding queue_step_def get_operation_def assms(2,3) by auto
qed

lemma get_operation_row:
  assumes "get_operation db oid = Some o'"
  obtains r where "tbl_get opr_id oid (t_operations db) = Some r" "opr_data r = o'" "r \<in> set (t_operations db)" "opr_id r = oid"
  using assms by (auto simp: get_operation_def dest: tbl_get_SomeD)

text \<open>Saving an operation that has not ended.\<close>

lemma queue_step_save:
  assumes inv: "queue_inv db" and get: "get_operation db oid = Some o0" and open': "\<not> terminal_operation (op_status o0)"
    and id: "op_id o1 = oid" and flag: "op_cancel_requested o0 \<longrightarrow> doomed o1"
    and save: "save_operation db o1 cid now = Inr db'"
  shows "queue_step db db'" "get_operation db' oid = Some o1" "t_jobs db' = t_jobs db"
proof -
  from get obtain row where row: "tbl_get opr_id oid (t_operations db) = Some row" "opr_data row = o0"
    "row \<in> set (t_operations db)" "opr_id row = oid" by (rule get_operation_row)
  define f :: "operation_row \<Rightarrow> operation_row" where "f = (\<lambda>r. r\<lparr>opr_data := o1, opr_updated := now\<rparr>)"
  have f: "opr_id (f r) = opr_id r" "opr_collector (f r) = opr_collector r" "opr_data (f r) = o1" for r
    by (simp_all add: f_def)
  have db': "db' = db\<lparr>t_operations := tbl_upd opr_id oid f (t_operations db)\<rparr>"
    using save_operation_known [of o1 db row cid now] row(1) id save by (simp add: f_def)
  show "t_jobs db' = t_jobs db" by (simp add: db')
  have gets: "get_operation db' k = (if k = oid then Some o1 else get_operation db k)" for k
    using row(1) f by (simp add: db' get_operation_def tbl_get_upd)
  then show "get_operation db' oid = Some o1" by simp
  have ops': "set (t_operations db') = (\<lambda>r. if opr_id r = oid then f r else r) ` set (t_operations db)"
    by (simp add: db' set_tbl_upd)
  note i = queue_invD [OF inv]
  note dist = i(1)
  have uniq: "r = row" if "r \<in> set (t_operations db)" "opr_id r = oid" for r
    using tbl_get_unique [OF dist that(1)] that(2) row(1) by simp
  have prev_row: "\<exists>r0 \<in> set (t_operations db). opr_id r0 = opr_id r \<and> opr_collector r0 = opr_collector r \<and>
      (unfinished_op r \<longrightarrow> unfinished_op r0)" if "r \<in> set (t_operations db')" for r
  proof -
    from that ops' obtain r0 where r0: "r0 \<in> set (t_operations db)" "r = (if opr_id r0 = oid then f r0 else r0)" by auto
    show ?thesis
    proof (cases "opr_id r0 = oid")
      case True
      with uniq r0 have "r0 = row" by simp
      then show ?thesis using r0 f row open' by (intro bexI [of _ row]) (simp_all add: unfinished_op_def)
    next
      case False
      then show ?thesis using r0 by auto
    qed
  qed
  have single: "\<forall>r \<in> set (t_operations db'). \<forall>s \<in> set (t_operations db').
        unfinished_op r \<longrightarrow> unfinished_op s \<longrightarrow> opr_collector r = opr_collector s \<longrightarrow> opr_id r = opr_id s"
  proof (intro ballI impI)
    fix r s
    assume rs: "r \<in> set (t_operations db')" "s \<in> set (t_operations db')" "unfinished_op r" "unfinished_op s"
      "opr_collector r = opr_collector s"
    from prev_row [OF rs(1)] prev_row [OF rs(2)] rs obtain r0 s0 where
      "r0 \<in> set (t_operations db)" "s0 \<in> set (t_operations db)" "unfinished_op r0" "unfinished_op s0"
      "opr_collector r0 = opr_collector s0" "opr_id r0 = opr_id r" "opr_id s0 = opr_id s" by metis
    with i(3) show "opr_id r = opr_id s" by metis
  qed
  have ids: "map opr_id (t_operations db') = map opr_id (t_operations db)" using f by (simp add: db')
  have "queue_inv db'"
    unfolding queue_inv_def
  proof (intro conjI)
    show "distinct (map opr_id (t_operations db'))" using dist ids by simp
    show "\<forall>r \<in> set (t_operations db'). op_id (opr_data r) = opr_id r"
      using i(2) f id by (auto simp: ops')
    show "distinct (map job_id (t_jobs db'))" "distinct (map job_operation (t_jobs db'))"
      using i(4,5) by (simp_all add: db')
    show "\<forall>j \<in> set (t_jobs db'). job_id j < t_next_job db' \<and> job_attempts j \<le> max_attempts (job_payload j) \<and>
        job_operation j \<in> opr_id ` set (t_operations db')"
    proof -
      have "opr_id ` set (t_operations db') = opr_id ` set (t_operations db)" using ids by (metis list.set_map)
      then show ?thesis using i(6) by (simp add: db')
    qed
  qed (rule single)
  moreover have "get_operation db' k = Some o'" if "get_operation db k = Some o'" "terminal_operation (op_status o')" for k o'
    using that gets get open' by (auto split: if_splits)
  moreover have "\<exists>o''. get_operation db' k = Some o'' \<and> doomed o''" if "get_operation db k = Some o'" "doomed o'" for k o'
    using that gets get flag by (auto simp: doomed_def)
  ultimately show "queue_step db db'" unfolding queue_step_def by (auto simp: db')
qed

lemma queue_step_jobs:
  assumes inv: "queue_inv db" and f: "\<And>r. job_id (f r) = job_id r" "\<And>r. job_operation (f r) = job_operation r"
      "\<And>r. job_payload (f r) = job_payload r" "\<And>r. job_attempts r \<le> job_attempts (f r)"
    and bound: "\<And>r. r \<in> set (t_jobs db) \<Longrightarrow> job_id r = jid \<Longrightarrow> job_attempts (f r) \<le> max_attempts (job_payload r)"
  shows "queue_step db (db\<lparr>t_jobs := tbl_upd job_id jid f (t_jobs db)\<rparr>)"
proof -
  let ?db' = "db\<lparr>t_jobs := tbl_upd job_id jid f (t_jobs db)\<rparr>"
  have ids: "map job_id (t_jobs ?db') = map job_id (t_jobs db)" using f by simp
  have ops: "map job_operation (t_jobs ?db') = map job_operation (t_jobs db)"
    using f by (simp add: tbl_upd_def)
  have same: "t_operations ?db' = t_operations db" "t_next_job ?db' = t_next_job db" by simp_all
  have rows: "\<forall>j \<in> set (t_jobs ?db'). job_id j < t_next_job db \<and> job_attempts j \<le> max_attempts (job_payload j) \<and>
        job_operation j \<in> opr_id ` set (t_operations db)"
  proof
    fix j
    assume "j \<in> set (t_jobs ?db')"
    then obtain j0 where j0: "j0 \<in> set (t_jobs db)" "j = (if job_id j0 = jid then f j0 else j0)"
      by (auto simp: tbl_upd_def)
    have "job_id j0 < t_next_job db \<and> job_attempts j0 \<le> max_attempts (job_payload j0) \<and>
        job_operation j0 \<in> opr_id ` set (t_operations db)"
      using inv j0(1) unfolding queue_inv_def by blast
    then show "job_id j < t_next_job db \<and> job_attempts j \<le> max_attempts (job_payload j) \<and>
        job_operation j \<in> opr_id ` set (t_operations db)"
      using j0 f bound [of j0] by simp
  qed
  have "queue_inv ?db'"
    using inv rows unfolding queue_inv_def ids ops same by blast
  moreover have "get_operation ?db' k = get_operation db k" for k by (simp add: get_operation_def)
  moreover have "\<exists>r'. tbl_get job_id k (t_jobs ?db') = Some r' \<and> job_attempts r \<le> job_attempts r'"
    if "tbl_get job_id k (t_jobs db) = Some r" for k r
    using that f(4) [of r] by (auto simp: tbl_get_upd [of job_id f, OF f(1)])
  ultimately show ?thesis unfolding queue_step_def by auto
qed

subsection \<open>The operations of the queue, step by step\<close>

lemma queue_op_id: "queue_inv db \<Longrightarrow> get_operation db oid = Some o' \<Longrightarrow> op_id o' = oid"
  by (elim get_operation_row) (use queue_invD(2) in blast)

lemma update_ai_activity_step:
  assumes inv: "queue_inv db" and get: "get_operation db oid = Some o0" and open0: "\<not> terminal_operation (op_status o0)"
    and st: "op_cancel_requested o0 \<longrightarrow> st = Cancelled"
    and run: "update_ai_activity db oid aid st phase progress m err now = Inr (db', o1, a1)"
  shows "queue_step db db'" "get_operation db' oid = Some o1" "op_status o1 = st" "t_jobs db' = t_jobs db"
proof -
  obtain cid where cid: "operation_collector_id db oid = Inr cid"
    using run get by (auto simp: update_ai_activity_def Let_def split: sum.splits)
  have o1: "op_id o1 = op_id o0" "op_status o1 = st" "op_cancel_requested o1 = op_cancel_requested o0"
    using run get by (auto simp: update_ai_activity_def Let_def split: option.splits sum.splits)
  obtain db1 where op: "save_operation db o1 cid now = Inr db1"
    using run get cid by (auto simp: update_ai_activity_def Let_def split: option.splits sum.splits)
  obtain row where row: "tbl_get airr_id aid (t_ai_runs db1) = Some row"
    and ai: "save_ai_run db1 a1 (airr_collector row) (airr_operation row) now = Inr db'"
    using run get cid op by (auto simp: update_ai_activity_def Let_def split: option.splits sum.splits)
  have id: "op_id o1 = oid" using o1(1) queue_op_id [OF inv get] by simp
  have flag: "op_cancel_requested o0 \<longrightarrow> doomed o1" using st o1 by (simp add: doomed_def)
  note s = queue_step_save [OF inv get open0 id flag op]
  from ai obtain ow rs where db': "db' = db1\<lparr>t_ownership := ow, t_ai_runs := rs\<rparr>" by (rule save_ai_run_only)
  have "queue_step db1 db'" by (rule queue_step_same [OF queue_step_inv [OF s(1)]]) (simp_all add: db')
  with s(1) show "queue_step db db'" by (rule queue_step_trans)
  show "get_operation db' oid = Some o1" using s(2) by (simp add: db' get_operation_def)
  show "op_status o1 = st" by (rule o1(2))
  show "t_jobs db' = t_jobs db" using s(3) by (simp add: db')
qed

lemma update_operation_step:
  assumes inv: "queue_inv db" and get: "get_operation db oid = Some o0" and open0: "\<not> terminal_operation (op_status o0)"
    and f: "op_id (f o0) = op_id o0" and flag: "op_cancel_requested o0 \<longrightarrow> doomed (f o0)"
    and run: "update_operation db oid f now = Inr (db', o1)"
  shows "queue_step db db'" "get_operation db' oid = Some o1" "o1 = f o0" "t_jobs db' = t_jobs db"
proof -
  obtain cid where cid: "operation_collector_id db oid = Inr cid"
    using run get by (auto simp: update_operation_def split: sum.splits)
  have op: "save_operation db (f o0) cid now = Inr db'" and o1: "o1 = f o0"
    using run get cid by (auto simp: update_operation_def split: sum.splits)
  have id: "op_id (f o0) = oid" using f queue_op_id [OF inv get] by simp
  note s = queue_step_save [OF inv get open0 id flag op]
  show "queue_step db db'" "t_jobs db' = t_jobs db" "o1 = f o0" by (fact s(1), fact s(3), fact o1)
  show "get_operation db' oid = Some o1" unfolding o1 by (fact s(2))
qed

text \<open>Steps that leave operations and jobs alone.\<close>

definition same_queue :: "db \<Rightarrow> db \<Rightarrow> bool" where
  "same_queue db db' \<longleftrightarrow> t_operations db' = t_operations db \<and> t_jobs db' = t_jobs db \<and> t_next_job db' = t_next_job db"

lemma same_queue_step: "queue_inv db \<Longrightarrow> same_queue db db' \<Longrightarrow> queue_step db db'"
  by (rule queue_step_same) (simp_all add: same_queue_def)

lemma same_queue_get: "same_queue db db' \<Longrightarrow> get_operation db' oid = get_operation db oid"
  by (simp add: same_queue_def get_operation_def)

lemma same_queue_refl [simp]: "same_queue db db"
  by (simp add: same_queue_def)

lemma same_queue_trans: "same_queue a b \<Longrightarrow> same_queue b c \<Longrightarrow> same_queue a c"
  by (simp add: same_queue_def)

lemma update_ai_run_queue: "update_ai_run db aid ch now = Inr (db', a) \<Longrightarrow> same_queue db db'"
  by (elim update_ai_run_only) (simp add: same_queue_def)

lemma finish_ai_attempts_queue:
  assumes "fold_result (\<lambda>r d. map_sum id fst (finish_ai_attempt d (attr_id r) st err now)) rs db = Inr db'"
  shows "same_queue db db'"
  using assms
proof (rule fold_result_invariant, goal_cases)
  case 1
  show ?case by simp
next
  case (2 x s s')
  then obtain a where "finish_ai_attempt s (attr_id x) st err now = Inr (s', a)" by auto
  then have "same_queue s s'" by (elim finish_ai_attempt_only) (simp add: same_queue_def)
  with 2 show ?case using same_queue_trans by blast
qed

lemma release_collector_queue: "release_collector db job cid now = Inr db' \<Longrightarrow> same_queue db db'"
  by (auto simp: release_collector_def Let_def same_queue_def elim!: save_collector_only split: option.splits if_splits)

lemma settle_run_queue: "settle_run db job err st now = Inr db' \<Longrightarrow> same_queue db db'"
  by (auto simp: settle_run_def same_queue_def dest: save_run_frame split: option.splits)

lemma finish_ai_resources_step:
  assumes inv: "queue_inv db" and get: "get_operation db oid = Some o0" and open0: "\<not> terminal_operation (op_status o0)"
    and st: "op_cancel_requested o0 \<longrightarrow> st = Cancelled"
    and run: "finish_ai_resources db oid aid err st now = Inr db'"
  shows "queue_step db db' \<and> t_jobs db' = t_jobs db \<and> (\<exists>o1. get_operation db' oid = Some o1 \<and> op_status o1 = st)"
proof -
  obtain db1 o1 a1 where act: "update_ai_activity db oid aid st ''completed'' 100 Map.empty (Some err) now = Inr (db1, o1, a1)"
    using run by (auto simp: finish_ai_resources_def split: sum.splits)
  define ch where "ch = no_ai_changes\<lparr>uc_finished := Some now,
     uc_duration := Some (elapsed_ms (case air_started a1 of None \<Rightarrow> air_created a1 | Some t \<Rightarrow> t) now),
     uc_result := Some NoCandidate, uc_review := Some NotReady\<rparr>"
  obtain db2 a2 where upd: "update_ai_run db1 aid ch now = Inr (db2, a2)"
    using run act by (auto simp: finish_ai_resources_def Let_def ch_def split: sum.splits)
  have loop: "fold_result (\<lambda>r d. map_sum id fst (finish_ai_attempt d (attr_id r) st (Some err) now))
      (filter (\<lambda>r. attr_ai_run r = aid \<and> att_status (attr_data r) = Running) (t_ai_attempts db2)) db2 = Inr db'"
    using run act upd by (simp add: finish_ai_resources_def Let_def ch_def)
  note a = update_ai_activity_step [OF inv get open0 st act]
  have q: "same_queue db1 db'"
    using upd loop update_ai_run_queue finish_ai_attempts_queue same_queue_trans by blast
  have "queue_step db1 db'" by (rule same_queue_step [OF queue_step_inv [OF a(1)] q])
  with a q show ?thesis
    using queue_step_trans same_queue_get [OF q] by (auto simp: same_queue_def)
qed

lemma finish_resources_settles:
  assumes inv: "queue_inv db" and run: "finish_resources db job err st now = Inr db'"
    and st: "op_cancel_requested o0 \<longrightarrow> st = Cancelled"
    and get: "get_operation db (cj_operation job) = Some o0" and open0: "\<not> terminal_operation (op_status o0)"
  shows "\<exists>db3 o1. db' = fail_job db3 (cj_id job) (err_message err) \<and> queue_step db db3 \<and>
           get_operation db3 (cj_operation job) = Some o1 \<and> op_status o1 = st"
proof -
  let ?oid = "cj_operation job"
  obtain db1 db2 db3 where
    first: "(case pl_ai_run_id (cj_payload job) of
             Some aid \<Rightarrow> finish_ai_resources db ?oid aid err st now
           | None \<Rightarrow> save_operation db
                (o0\<lparr>op_status := st, op_phase := ''completed'', op_progress := 100, op_error := Some err\<rparr>)
                (case pl_collector_id (cj_payload job) of None \<Rightarrow> [] | Some c \<Rightarrow> c) now) = Inr db1"
    and second: "(case pl_collector_id (cj_payload job) of None \<Rightarrow> Inr db1 | Some c \<Rightarrow> release_collector db1 job c now) = Inr db2"
    and third: "settle_run db2 job err st now = Inr db3"
    and db': "db' = fail_job db3 (cj_id job) (err_message err)"
    using run get open0 by (auto simp: finish_resources_def Let_def split: option.splits sum.splits)
  have s1: "queue_step db db1 \<and> (\<exists>o1. get_operation db1 ?oid = Some o1 \<and> op_status o1 = st)"
  proof (cases "pl_ai_run_id (cj_payload job)")
    case (Some aid)
    with first have "finish_ai_resources db ?oid aid err st now = Inr db1" by simp
    from finish_ai_resources_step [OF inv get open0 _ this] st show ?thesis by blast
  next
    case None
    let ?o1 = "o0\<lparr>op_status := st, op_phase := ''completed'', op_progress := 100, op_error := Some err\<rparr>"
    have "op_cancel_requested o0 \<longrightarrow> doomed ?o1" using st by (simp add: doomed_def)
    with None first queue_step_save [OF inv get open0, of ?o1] queue_op_id [OF inv get] show ?thesis
      by fastforce
  qed
  have "same_queue db1 db2"
    using second by (auto dest: release_collector_queue split: option.splits)
  then have q: "same_queue db1 db3"
    using settle_run_queue [OF third] by (rule same_queue_trans)
  have s2: "queue_step db1 db3"
    using s1 same_queue_step [OF _ q] queue_step_inv by blast
  from s1 obtain o1 where o1: "get_operation db1 ?oid = Some o1" "op_status o1 = st" by blast
  have "get_operation db3 ?oid = Some o1" using o1 same_queue_get [OF q] by simp
  moreover have "queue_step db db3" using s1 s2 queue_step_trans by blast
  ultimately show ?thesis using db' o1(2) by blast
qed

lemma finish_resources_step:
  assumes inv: "queue_inv db" and run: "finish_resources db job err st now = Inr db'"
    and st: "\<And>o0. get_operation db (cj_operation job) = Some o0 \<Longrightarrow> op_cancel_requested o0 \<Longrightarrow> st = Cancelled"
  shows "queue_step db db'"
    and "\<And>o0. get_operation db (cj_operation job) = Some o0 \<Longrightarrow> \<not> terminal_operation (op_status o0) \<Longrightarrow>
           \<exists>o1. get_operation db' (cj_operation job) = Some o1 \<and> op_status o1 = st"
proof -
  let ?oid = "cj_operation job"
  have "queue_step db db' \<and> (\<forall>o0. get_operation db ?oid = Some o0 \<longrightarrow> \<not> terminal_operation (op_status o0) \<longrightarrow>
           (\<exists>o1. get_operation db' ?oid = Some o1 \<and> op_status o1 = st))"
  proof (cases "\<exists>o0. get_operation db ?oid = Some o0 \<and> \<not> terminal_operation (op_status o0)")
    case False
    then have "db' = db"
      using run by (auto simp: finish_resources_def Let_def split: option.splits)
    then show ?thesis using False queue_step_refl [OF inv] by auto
  next
    case True
    then obtain o0 where get: "get_operation db ?oid = Some o0" and open0: "\<not> terminal_operation (op_status o0)" by blast
    obtain db3 o1 where db': "db' = fail_job db3 (cj_id job) (err_message err)" and s3: "queue_step db db3"
      and o1: "get_operation db3 ?oid = Some o1" "op_status o1 = st"
      using finish_resources_settles [OF inv run _ get open0] st [OF get] by blast
    have inv3: "queue_inv db3" by (rule queue_step_inv [OF s3])
    have s4: "queue_step db3 db'"
      unfolding db' fail_job_def
      by (rule queue_step_jobs [OF inv3]) (use queue_invD(6) [OF inv3] in auto)
    have "get_operation db' ?oid = Some o1" using o1 by (simp add: db' fail_job_def get_operation_def)
    then show ?thesis using queue_step_trans [OF s3 s4] o1(2) by blast
  qed
  then show "queue_step db db'"
    and "\<And>o0. get_operation db ?oid = Some o0 \<Longrightarrow> \<not> terminal_operation (op_status o0) \<Longrightarrow>
           \<exists>o1. get_operation db' ?oid = Some o1 \<and> op_status o1 = st" by blast+
qed

lemma finish_job_step: "queue_inv db \<Longrightarrow> queue_step db (finish_job db jid)"
  unfolding finish_job_def by (rule queue_step_jobs) (auto dest: queue_invD(6))

lemma owned_check_get:
  assumes "owned_check db job allow now = None"
  obtains o0 where "get_operation db (cj_operation job) = Some o0" "\<not> terminal_operation (op_status o0)"
    "op_cancel_requested o0 \<longrightarrow> allow"
  using assms by (elim owned_check_row)

lemma renew_job_step: "queue_inv db \<Longrightarrow> renew_job db job now = Inr db' \<Longrightarrow> queue_step db db'"
  by (auto simp: renew_job_def split: option.splits intro!: queue_step_jobs dest: queue_invD(6))

lemma job_progress_step:
  assumes inv: "queue_inv db" and run: "job_progress db job phase progress m now = Inr db'"
  shows "queue_step db db'"
proof -
  have own: "owned_check db job False now = None" using run by (auto simp: job_progress_def split: option.splits)
  then obtain o0 where o0: "get_operation db (cj_operation job) = Some o0" "\<not> terminal_operation (op_status o0)"
    "\<not> op_cancel_requested o0" by (elim owned_check_get) auto
  show ?thesis
  proof (cases "pl_ai_run_id (cj_payload job)")
    case (Some aid)
    then obtain p where "update_ai_activity db (cj_operation job) aid Running phase progress m None now = Inr (db', p)"
      using run own by (auto simp: job_progress_def)
    with update_ai_activity_step(1) [OF inv o0(1,2)] o0(3) show ?thesis by (cases p) blast
  next
    case None
    let ?f = "\<lambda>o'. o'\<lparr>op_status := Running, op_phase := phase, op_progress := progress, op_metrics := m, op_error := None\<rparr>"
    from None obtain o1 where "update_operation db (cj_operation job) ?f now = Inr (db', o1)"
      using run own by (auto simp: job_progress_def)
    with update_operation_step(1) [OF inv o0(1,2), of ?f] o0(3) show ?thesis by simp
  qed
qed

lemma settle_success_step:
  assumes inv: "queue_inv db" and run: "settle_success db job m now = Inr db'"
  shows "queue_step db db'"
proof -
  have own: "owned_check db job False now = None" using run by (auto simp: settle_success_def split: option.splits)
  then obtain o0 where o0: "get_operation db (cj_operation job) = Some o0" "\<not> terminal_operation (op_status o0)"
    "\<not> op_cancel_requested o0" by (elim owned_check_get) auto
  have "\<exists>db1. queue_step db db1 \<and> db' = finish_job db1 (cj_id job)"
  proof (cases "pl_ai_run_id (cj_payload job)")
    case (Some aid)
    then obtain db1 p where "update_ai_activity db (cj_operation job) aid Succeeded ''completed'' 100 m None now = Inr (db1, p)"
      "db' = finish_job db1 (cj_id job)"
      using run own by (auto simp: settle_success_def split: sum.splits)
    with update_ai_activity_step(1) [OF inv o0(1,2)] o0(3) show ?thesis by (cases p) blast
  next
    case None
    let ?f = "\<lambda>o'. o'\<lparr>op_status := Succeeded, op_phase := ''completed'', op_progress := 100, op_metrics := m, op_error := None\<rparr>"
    from None obtain db1 o1 where "update_operation db (cj_operation job) ?f now = Inr (db1, o1)" "db' = finish_job db1 (cj_id job)"
      using run own by (auto simp: settle_success_def split: sum.splits)
    with update_operation_step(1) [OF inv o0(1,2), of ?f] o0(3) show ?thesis by auto
  qed
  then show ?thesis using finish_job_step queue_step_inv queue_step_trans by blast
qed

lemma invalidate_run_queue: "invalidate_run db rid now = Inr db' \<Longrightarrow> same_queue db db'"
  by (auto simp: invalidate_run_def same_queue_def dest: save_run_frame split: option.splits)

lemma fail_owned_step:
  assumes inv: "queue_inv db" and run: "fail_owned db job f now = Inr (db', st)"
  shows "queue_step db db'" "\<exists>o1. get_operation db' (cj_operation job) = Some o1 \<and> op_status o1 = st"
    "\<And>o0. get_operation db (cj_operation job) = Some o0 \<Longrightarrow> op_cancel_requested o0 \<Longrightarrow> st = Cancelled"
proof -
  have own: "owned_check db job True now = None" using run by (auto simp: fail_owned_def split: option.splits)
  then obtain o0 where o0: "get_operation db (cj_operation job) = Some o0" "\<not> terminal_operation (op_status o0)"
    by (elim owned_check_get)
  have st: "st = failure_status (op_cancel_requested o0) f"
    using run own o0 by (auto simp: fail_owned_def Let_def split: sum.splits option.splits failure.splits)
  obtain db1 where fin: "finish_resources db job (failure_error st f) st now = Inr db1"
    using run own o0 st by (auto simp: fail_owned_def Let_def split: sum.splits)
  have q: "same_queue db1 db'"
    using run own o0 st fin
    by (auto simp: fail_owned_def Let_def map_sum_def dest: invalidate_run_queue
        split: sum.splits option.splits failure.splits)
  have canc: "op_cancel_requested o0 \<Longrightarrow> st = Cancelled" by (simp add: st failure_status_def)
  note s = finish_resources_step [OF inv fin]
  have s1: "queue_step db db1" using s(1) o0(1) canc by simp
  then show "queue_step db db'" using same_queue_step [OF queue_step_inv q] queue_step_trans by blast
  show "\<exists>o1. get_operation db' (cj_operation job) = Some o1 \<and> op_status o1 = st"
    using s(2) [OF _ o0(1,2)] o0(1) canc same_queue_get [OF q] by simp
  show "\<And>o0'. get_operation db (cj_operation job) = Some o0' \<Longrightarrow> op_cancel_requested o0' \<Longrightarrow> st = Cancelled"
    using o0(1) canc by simp
qed

lemma find_sorted_job:
  assumes "find P (sort_key job_id (t_jobs db)) = Some row"
  shows "row \<in> set (t_jobs db)" "P row"
  using find_SomeD [OF assms] by simp_all

lemma claim_job_cases:
  assumes "claim_job db lease now = Inr (db', res)"
  obtains (idle) "find (\<lambda>j. claimable j now) (sort_key job_id (t_jobs db)) = None" "db' = db" "res = None"
    | (stale) row where "find (\<lambda>j. claimable j now) (sort_key job_id (t_jobs db)) = Some row"
        "db' = finish_job db (job_id row)" "res = None"
        "\<forall>o'. get_operation db (job_operation row) = Some o' \<longrightarrow> terminal_operation (op_status o')"
    | (settled) row o' where "find (\<lambda>j. claimable j now) (sort_key job_id (t_jobs db)) = Some row"
        "get_operation db (job_operation row) = Some o'" "\<not> terminal_operation (op_status o')"
        "op_cancel_requested o' \<or> max_attempts (job_payload row) \<le> job_attempts row"
        "finish_resources db (job_of_row row (job_attempts row + 1) lease)
           (worker_error (job_operation row) (op_cancel_requested o'))
           (if op_cancel_requested o' then Cancelled else Failed) now = Inr db'" "res = None"
    | (granted) row o' where "find (\<lambda>j. claimable j now) (sort_key job_id (t_jobs db)) = Some row"
        "get_operation db (job_operation row) = Some o'" "\<not> terminal_operation (op_status o')"
        "\<not> op_cancel_requested o'" "job_attempts row < max_attempts (job_payload row)" "1 \<le> lease"
        "db' = db\<lparr>t_jobs := tbl_upd job_id (job_id row) (\<lambda>r. grant_job r lease now) (t_jobs db)\<rparr>"
        "res = Some (job_of_row row (job_attempts row + 1) lease)"
proof (cases "find (\<lambda>j. claimable j now) (sort_key job_id (t_jobs db))")
  case None
  then show ?thesis using assms idle by (simp add: claim_job_def split: if_splits)
next
  case (Some row)
  show ?thesis
  proof (cases "get_operation db (job_operation row)")
    case None
    then show ?thesis using assms Some stale by (simp add: claim_job_def Let_def split: if_splits)
  next
    case op: (Some o')
    consider "terminal_operation (op_status o')"
      | "\<not> terminal_operation (op_status o')" "op_cancel_requested o' \<or> max_attempts (job_payload row) \<le> job_attempts row"
      | "\<not> terminal_operation (op_status o')" "\<not> op_cancel_requested o'" "job_attempts row < max_attempts (job_payload row)"
      by fastforce
    then show ?thesis
    proof cases
      case 1
      then show ?thesis using assms Some op stale by (simp add: claim_job_def Let_def split: if_splits)
    next
      case 2
      then show ?thesis using assms settled [OF Some op]
        by (auto simp: claim_job_def Some op Let_def max_attempts_def map_sum_def split: if_splits sum.splits)
    next
      case 3
      then show ?thesis using assms granted [OF Some op]
        by (auto simp: claim_job_def Some op Let_def max_attempts_def not_le split: if_splits)
    qed
  qed
qed

lemma claim_job_step:
  assumes inv: "queue_inv db" and run: "claim_job db lease now = Inr (db', res)"
  shows "queue_step db db'"
  using run
proof (cases rule: claim_job_cases)
  case idle
  then show ?thesis using queue_step_refl [OF inv] by simp
next
  case (stale row)
  then show ?thesis using finish_job_step [OF inv] by simp
next
  case (settled row o')
  show ?thesis
    by (rule finish_resources_step(1) [OF inv settled(5)]) (use settled(2) in \<open>simp add: job_of_row_def\<close>)
next
  case (granted row o')
  have "queue_step db (db\<lparr>t_jobs := tbl_upd job_id (job_id row) (\<lambda>r. grant_job r lease now) (t_jobs db)\<rparr>)"
  proof (rule queue_step_jobs [OF inv])
    fix r
    assume r: "r \<in> set (t_jobs db)" "job_id r = job_id row"
    have "row \<in> set (t_jobs db)" by (rule find_sorted_job(1) [OF granted(1)])
    with r queue_invD(4) [OF inv] have "r = row" by (metis option.inject tbl_get_unique)
    then show "job_attempts (grant_job r lease now) \<le> max_attempts (job_payload r)"
      using granted(5) by (simp add: grant_job_def)
  qed (simp_all add: grant_job_def)
  with granted show ?thesis by simp
qed

lemma request_cancel_step:
  assumes inv: "queue_inv db" and run: "request_cancel ph db oid audit i now = Inr (db', o1)"
  shows "queue_step db db'" "get_operation db' oid = Some o1" "terminal_operation (op_status o1) \<or> op_cancel_requested o1"
    "\<And>o0. get_operation db oid = Some o0 \<Longrightarrow> \<not> terminal_operation (op_status o0) \<Longrightarrow> doomed o1"
proof -
  obtain row o0 where row: "find (\<lambda>j. job_operation j = oid) (t_jobs db) = Some row" and get: "get_operation db oid = Some o0"
    using run by (auto simp: request_cancel_def split: option.splits)
  have rowop: "job_operation row = oid" using find_SomeD [OF row] by simp
  have "queue_step db db' \<and> get_operation db' oid = Some o1 \<and> (terminal_operation (op_status o1) \<or> op_cancel_requested o1) \<and>
      (\<not> terminal_operation (op_status o0) \<longrightarrow> doomed o1)"
  proof (cases "terminal_operation (op_status o0) \<or> op_cancel_requested o0")
    case True
    then show ?thesis using run row get queue_step_refl [OF inv] by (auto simp: request_cancel_def doomed_def)
  next
    case False
    then have open0: "\<not> terminal_operation (op_status o0)" by simp
    let ?of = "o0\<lparr>op_cancel_requested := True\<rparr>"
    obtain cid where cid: "operation_collector_id db oid = Inr cid"
      using run row get False by (auto simp: request_cancel_def split: sum.splits)
    obtain db1 where save: "save_operation db ?of cid now = Inr db1"
      using run row get False cid by (auto simp: request_cancel_def split: sum.splits)
    have dm: "doomed ?of" using open0 by (simp add: doomed_def)
    have idf: "op_id ?of = oid" using queue_op_id [OF inv get] by simp
    note s1 = queue_step_save [OF inv get open0 idf _ save]
    have step1: "queue_step db db1" and get1: "get_operation db1 oid = Some ?of" using s1 dm by simp_all
    obtain db2 where mid: "(if job_status row = JQueued \<or> (case job_lease_until row of None \<Rightarrow> True | Some t \<Rightarrow> tle t now)
                   then finish_resources db1 (job_of_row row (job_attempts row) 0) (cancel_error audit) Cancelled now
                   else Inr db1) = Inr db2"
      using run row get False cid save by (auto simp: request_cancel_def Let_def split: sum.splits)
    have step2: "queue_step db1 db2"
    proof (cases "job_status row = JQueued \<or> (case job_lease_until row of None \<Rightarrow> True | Some t \<Rightarrow> tle t now)")
      case True
      with mid have "finish_resources db1 (job_of_row row (job_attempts row) 0) (cancel_error audit) Cancelled now = Inr db2"
        by simp
      then show ?thesis by (rule finish_resources_step(1) [OF queue_step_inv [OF step1]]) simp
    next
      case False
      with mid have "db2 = db1" by simp
      then show ?thesis using queue_step_refl [OF queue_step_inv [OF step1]] by simp
    qed
    define db3 where "db3 = append_audit_event ph db2 i (aa_tenant audit) ''Operation'' oid
                              (audit\<lparr>aa_action := ''operation.cancel''\<rparr>) None None now"
    have res: "db' = db3 \<and> get_operation db3 oid = Some o1"
      using run row get False cid save mid
      by (simp add: request_cancel_def Let_def db3_def split: option.splits)
    have q: "same_queue db2 db3" by (simp add: same_queue_def db3_def)
    have step: "queue_step db1 db3"
      by (rule queue_step_trans [OF step2 same_queue_step [OF queue_step_inv [OF step2] q]])
    obtain o2 where "get_operation db3 oid = Some o2" "doomed o2"
      using step get1 dm unfolding queue_step_def by blast
    with res have "doomed o1" by simp
    moreover have "queue_step db db'" using res queue_step_trans [OF step1 step] by simp
    ultimately show ?thesis using res by (simp add: doomed_def)
  qed
  then show "queue_step db db'" "get_operation db' oid = Some o1" "terminal_operation (op_status o1) \<or> op_cancel_requested o1"
    "\<And>o0. get_operation db oid = Some o0 \<Longrightarrow> \<not> terminal_operation (op_status o0) \<Longrightarrow> doomed o1"
    using get by simp_all
qed

lemma no_blockers_no_open:
  assumes "active_blockers db cid = []" and "r \<in> set (t_operations db)" and "opr_collector r = cid"
  shows "\<not> unfinished_op r"
  using assms by (auto simp: active_blockers_def Let_def unfinished_op_def split: if_splits)

lemma command_guard_blockers: "command_guard ph hostname db cid c req now = None \<Longrightarrow> active_blockers db cid = []"
  by (auto simp: command_guard_def split: option.splits if_splits)

lemma queue_step_new:
  assumes inv: "queue_inv db" and fresh: "get_operation db oid = None" and noopen: "active_blockers db cid = []"
    and ops: "t_operations db' = t_operations db @ [r]" and r: "opr_id r = oid" "opr_collector r = cid" "op_id (opr_data r) = oid"
    and jobs: "t_jobs db' = t_jobs db @ [j]" and j: "job_id j = t_next_job db" "job_operation j = oid" "job_attempts j = 0"
    and nxt: "t_next_job db' = t_next_job db + 1"
  shows "queue_step db db'"
proof -
  note i = queue_invD [OF inv]
  have new: "oid \<notin> opr_id ` set (t_operations db)"
    using fresh by (auto simp: get_operation_def tbl_get_None_iff)
  have single: "\<forall>a \<in> set (t_operations db'). \<forall>b \<in> set (t_operations db').
        unfinished_op a \<longrightarrow> unfinished_op b \<longrightarrow> opr_collector a = opr_collector b \<longrightarrow> opr_id a = opr_id b"
  proof (intro ballI impI)
    fix a b
    assume ab: "a \<in> set (t_operations db')" "b \<in> set (t_operations db')" "unfinished_op a" "unfinished_op b"
      "opr_collector a = opr_collector b"
    have "a \<in> set (t_operations db) \<or> a = r" "b \<in> set (t_operations db) \<or> b = r" using ab ops by auto
    moreover have "opr_collector a \<noteq> cid" if "a \<in> set (t_operations db)"
      using no_blockers_no_open [OF noopen that] ab(3) by blast
    moreover have "opr_collector b \<noteq> cid" if "b \<in> set (t_operations db)"
      using no_blockers_no_open [OF noopen that] ab(4) by blast
    ultimately show "opr_id a = opr_id b" using i(3) ab(3-5) r(2) by metis
  qed
  have jnew: "t_next_job db \<notin> job_id ` set (t_jobs db)" "oid \<notin> job_operation ` set (t_jobs db)"
    using i(6) new by auto
  have "queue_inv db'"
    unfolding queue_inv_def
  proof (intro conjI)
    show "distinct (map opr_id (t_operations db'))" using i(1) new by (simp add: ops r)
    show "\<forall>r \<in> set (t_operations db'). op_id (opr_data r) = opr_id r" using i(2) r by (simp add: ops)
    show "distinct (map job_id (t_jobs db'))" "distinct (map job_operation (t_jobs db'))"
      using i(4,5) jnew by (simp_all add: jobs j)
    show "\<forall>k \<in> set (t_jobs db'). job_id k < t_next_job db' \<and> job_attempts k \<le> max_attempts (job_payload k) \<and>
        job_operation k \<in> opr_id ` set (t_operations db')"
      using i(6) by (auto simp: jobs ops j r nxt)
  qed (rule single)
  moreover have "get_operation db' k = Some o'" if "get_operation db k = Some o'" for k o'
    using that by (auto simp: get_operation_def ops tbl_get_append split: option.splits)
  moreover have "tbl_get job_id k (t_jobs db') = Some x" if "tbl_get job_id k (t_jobs db) = Some x" for k x
    using that by (simp add: jobs tbl_get_append)
  ultimately show ?thesis unfolding queue_step_def by auto
qed

lemma create_async_command_cases:
  assumes "create_async_command ph hostname db cid req oid now = Inr (db', o1)"
  obtains c db1 db2 db3 db4 where "get_collector db cid = Some c" "command_guard ph hostname db cid c req now = None"
    "same_queue db db2" "save_operation db2 o1 cid now = Inr db3" "same_queue db3 db4"
    "o1 = queued_operation oid req now"
    "t_operations db' = t_operations db4" "t_next_job db' = t_next_job db4 + 1"
    "t_jobs db' = t_jobs db4 @ [\<lparr>job_id = t_next_job db4, job_operation = oid, job_kind = ar_kind req,
        job_payload = (ar_payload req)\<lparr>pl_collector_id := Some cid, pl_management_revision := col_revision c\<rparr>,
        job_status = JQueued, job_attempts = 0, job_available_at = now, job_lease_until = None, job_last_error = None\<rparr>]"
proof -
  define op where "op = queued_operation oid req now"
  obtain c where c: "lock_collector db cid = None" "get_collector db cid = Some c" "command_guard ph hostname db cid c req now = None"
    using assms by (auto simp: create_async_command_def Let_def split: option.splits)
  obtain db1 where d1: "(if ar_changes req \<noteq> None \<or> ar_activate req
                 then map_sum id fst (save_collector db (changed_collector req oid c) False now) else Inr db) = Inr db1"
    using assms c by (auto simp: create_async_command_def Let_def split: sum.splits)
  obtain db2 where d2: "(case ar_run req of None \<Rightarrow> Inr db1 | Some r \<Rightarrow> save_run db1 (r\<lparr>run_operation := Some oid\<rparr>) now) = Inr db2"
    using assms c d1 by (auto simp: create_async_command_def Let_def split: sum.splits)
  obtain db3 where d3: "save_operation db2 op cid now = Inr db3"
    using assms c d1 d2 by (auto simp: create_async_command_def Let_def op_def [symmetric] split: sum.splits)
  obtain db4 where d4: "(case ar_ai_run req of
                   None \<Rightarrow> Inr db3
                 | Some a \<Rightarrow> save_ai_run db3 (queued_ai_run a oid (op_activity op) now) cid oid now) = Inr db4"
    using assms c d1 d2 d3 by (auto simp: create_async_command_def Let_def op_def [symmetric] split: sum.splits)
  have q1: "same_queue db db1"
    using d1 by (auto simp: same_queue_def elim!: save_collector_only split: if_splits)
  have q2: "same_queue db1 db2"
    using d2 by (auto simp: same_queue_def dest: save_run_frame split: option.splits)
  have q4: "same_queue db3 db4"
    using d4 by (auto simp: same_queue_def dest: save_ai_run_frame split: option.splits)
  have o1: "o1 = op" and db': "db' = db4\<lparr>t_jobs := t_jobs db4 @
                      [\<lparr>job_id = t_next_job db4, job_operation = oid, job_kind = ar_kind req,
                        job_payload = (ar_payload req)\<lparr>pl_collector_id := Some cid, pl_management_revision := col_revision c\<rparr>,
                        job_status = JQueued, job_attempts = 0, job_available_at = now, job_lease_until = None,
                        job_last_error = None\<rparr>],
                      t_next_job := t_next_job db4 + 1\<rparr>"
    using assms c d1 d2 d3 d4
    by (simp_all add: create_async_command_def Let_def op_def [symmetric])
  show ?thesis
    by (rule that [OF c(2,3) same_queue_trans [OF q1 q2] _ q4]) (simp_all add: db' o1 d3 op_def [symmetric])
qed

lemma create_async_command_step:
  assumes inv: "queue_inv db" and fresh: "get_operation db oid = None"
    and run: "create_async_command ph hostname db cid req oid now = Inr (db', o1)"
  shows "queue_step db db'" "get_operation db' oid = Some o1" "op_status o1 = Queued"
proof -
  from run obtain c db2 db3 db4 j where c: "command_guard ph hostname db cid c req now = None"
    and q2: "same_queue db db2" and save: "save_operation db2 o1 cid now = Inr db3" and q4: "same_queue db3 db4"
    and o1: "o1 = queued_operation oid req now" and ops: "t_operations db' = t_operations db4"
    and nxt: "t_next_job db' = t_next_job db4 + 1" and jobs: "t_jobs db' = t_jobs db4 @ [j]"
    and j: "job_id j = t_next_job db4" "job_operation j = oid" "job_attempts j = 0"
    by (elim create_async_command_cases) simp
  have id: "op_id o1 = oid" and st: "op_status o1 = Queued" by (simp_all add: o1 queued_operation_def)
  let ?row = "\<lparr>opr_id = oid, opr_collector = cid, opr_data = o1, opr_created = now, opr_updated = now\<rparr>"
  have none: "tbl_get opr_id oid (t_operations db2) = None"
    using fresh q2 by (simp add: get_operation_def same_queue_def)
  obtain dbh where hist: "record_new_history db2 ''operation'' oid None cid = Inr dbh"
    and db3: "db3 = dbh\<lparr>t_operations := tbl_upsert opr_id ?row (\<lambda>r. r\<lparr>opr_data := o1, opr_updated := now\<rparr>) (t_operations dbh)\<rparr>"
    using save id by (auto simp: save_operation_def split: sum.splits)
  note h = record_new_history_frame [OF hist]
  have ops3: "t_operations db3 = t_operations db2 @ [?row]" and jobs3: "t_jobs db3 = t_jobs db2" "t_next_job db3 = t_next_job db2"
    using none h by (simp_all add: db3 tbl_upsert_def)
  have ops': "t_operations db' = t_operations db @ [?row]" and jobs': "t_jobs db' = t_jobs db @ [j]"
    and nxt': "t_next_job db' = t_next_job db + 1" and jid: "job_id j = t_next_job db"
    using ops ops3 jobs3 q2 q4 jobs nxt j by (simp_all add: same_queue_def)
  show "queue_step db db'"
    by (rule queue_step_new [OF inv fresh command_guard_blockers [OF c] ops' _ _ _ jobs' jid j(2,3) nxt']) (simp_all add: id)
  show "get_operation db' oid = Some o1"
    using fresh by (simp add: get_operation_def ops' tbl_get_append split: option.splits)
  show "op_status o1 = Queued" by (rule st)
qed

subsection \<open>The queue machine\<close>

text \<open>
  Every command of API and workers on the queue, as an event; an event whose
  transaction raises changes nothing. The operation id of a new command is fresh
  (\<open>uuid4\<close> in the code).
\<close>

datatype queue_event =
    QCreate string async_request string ts
  | QClaim int ts
  | QRenew claimed_job ts
  | QProgress claimed_job string int metrics ts
  | QSucceed claimed_job metrics ts
  | QFail claimed_job failure ts
  | QCancel string audit_args string ts

definition keep_on_error :: "db \<Rightarrow> py_exc + db \<Rightarrow> db" where
  "keep_on_error db r = (case r of Inl _ \<Rightarrow> db | Inr db' \<Rightarrow> db')"

definition queue_event_step :: "hasher \<Rightarrow> (string \<Rightarrow> string option) \<Rightarrow> db \<Rightarrow> queue_event \<Rightarrow> db" where
  "queue_event_step ph hostname db ev =
     keep_on_error db
       (case ev of
          QCreate cid req oid now \<Rightarrow>
            if get_operation db oid \<noteq> None then Inr db
            else map_sum id fst (create_async_command ph hostname db cid req oid now)
        | QClaim lease now \<Rightarrow> map_sum id fst (claim_job db lease now)
        | QRenew job now \<Rightarrow> renew_job db job now
        | QProgress job phase p m now \<Rightarrow> job_progress db job phase p m now
        | QSucceed job m now \<Rightarrow> settle_success db job m now
        | QFail job f now \<Rightarrow> map_sum id fst (fail_owned db job f now)
        | QCancel oid audit i now \<Rightarrow> map_sum id fst (request_cancel ph db oid audit i now))"

lemma queue_event_keeps:
  assumes "queue_inv db"
  shows "queue_step db (queue_event_step ph hostname db ev)"
proof -
  have "queue_step db db'" if "(case ev of
          QCreate cid req oid now \<Rightarrow>
            if get_operation db oid \<noteq> None then Inr db
            else map_sum id fst (create_async_command ph hostname db cid req oid now)
        | QClaim lease now \<Rightarrow> map_sum id fst (claim_job db lease now)
        | QRenew job now \<Rightarrow> renew_job db job now
        | QProgress job phase p m now \<Rightarrow> job_progress db job phase p m now
        | QSucceed job m now \<Rightarrow> settle_success db job m now
        | QFail job f now \<Rightarrow> map_sum id fst (fail_owned db job f now)
        | QCancel oid audit i now \<Rightarrow> map_sum id fst (request_cancel ph db oid audit i now)) = Inr db'" for db'
    using that assms
    by (cases ev) (auto split: if_splits intro: queue_step_refl create_async_command_step(1) claim_job_step
        renew_job_step job_progress_step settle_success_step fail_owned_step(1) request_cancel_step(1))
  then show ?thesis
    using queue_step_refl [OF assms] unfolding queue_event_step_def keep_on_error_def by (auto split: sum.splits)
qed

definition attempts_of :: "nat \<Rightarrow> db \<Rightarrow> int" where
  "attempts_of jid db = (case tbl_get job_id jid (t_jobs db) of None \<Rightarrow> -1 | Some r \<Rightarrow> int (job_attempts r))"

lemma queue_step_attempts: "queue_step a b \<Longrightarrow> attempts_of jid a \<le> attempts_of jid b"
  unfolding queue_step_def attempts_of_def
  by (cases "tbl_get job_id jid (t_jobs a)") (force split: option.splits)+

interpretation queue_machine: step_machine "queue_event_step ph hostname" "queue_step db0" "attempts_of jid"
  for ph hostname db0 jid
proof
  show "queue_step db0 s \<Longrightarrow> queue_step db0 (queue_event_step ph hostname s e)" for s e
    using queue_event_keeps queue_step_inv queue_step_trans by blast
  show "queue_step db0 s \<Longrightarrow> attempts_of jid s \<le> attempts_of jid (queue_event_step ph hostname s e)" for s e
    using queue_event_keeps queue_step_inv queue_step_attempts by blast
qed

abbreviation queue_run :: "hasher \<Rightarrow> (string \<Rightarrow> string option) \<Rightarrow> db \<Rightarrow> queue_event list \<Rightarrow> db" where
  "queue_run ph hostname \<equiv> foldl (queue_event_step ph hostname)"

lemma queue_run_step: "queue_inv db \<Longrightarrow> queue_step db (queue_run ph hostname db evs)"
  by (rule queue_machine.run_inv) (rule queue_step_refl)

subsection \<open>Example queues\<close>

definition example_operation :: operation where
  "example_operation =
     \<lparr>op_id = ''op_a'', op_kind = ''run'', op_status = Running, op_phase = ''fetching'', op_progress = 20,
      op_resource_type = ''run'', op_resource_id = ''run_a'', op_status_url = ''/api/v1/operations/op_a'',
      op_poll_after_ms = 400, op_queued_at = 1, op_metrics = empty_operation_metrics, op_error = None,
      op_ai_run_id = None, op_activity = [], op_cancel_requested = False\<rparr>"

definition example_payload :: job_payload where
  "example_payload = \<lparr>pl_collector_id = Some ''collector_a'', pl_ai_run_id = None, pl_run_id = None,
     pl_previous_status = None, pl_max_job_attempts = None, pl_recovery_batch = None, pl_management_revision = 3,
     pl_integrity = None, pl_policy = None, pl_retry_records = None, pl_extra = []\<rparr>"

definition example_job :: job_row where
  "example_job = \<lparr>job_id = 1, job_operation = ''op_a'', job_kind = ''run'', job_payload = example_payload,
     job_status = JProcessing, job_attempts = 1, job_available_at = 1, job_lease_until = Some 90000000,
     job_last_error = None\<rparr>"

definition queue_with :: "operation \<Rightarrow> job_row \<Rightarrow> db" where
  "queue_with o' j = example_db\<lparr>
     t_operations := [\<lparr>opr_id = op_id o', opr_collector = ''collector_a'', opr_data = o', opr_created = 1, opr_updated = 1\<rparr>],
     t_jobs := [j], t_next_job := 2\<rparr>"

lemma queue_with_inv:
  "job_id j < 2 \<Longrightarrow> job_attempts j \<le> max_attempts (job_payload j) \<Longrightarrow> job_operation j = op_id o' \<Longrightarrow>
   queue_inv (queue_with o' j)"
  by (simp add: queue_inv_def queue_with_def)

lemma queue_with_get [simp]:
  "get_operation (queue_with o' j) oid = (if oid = op_id o' then Some o' else None)"
  by (auto simp: get_operation_def queue_with_def)

lemma example_inv: "queue_inv (queue_with example_operation example_job)"
  by (rule queue_with_inv) (simp_all add: example_job_def example_operation_def example_payload_def max_attempts_def)

definition no_hostname :: "string \<Rightarrow> string option" where
  "no_hostname url = None"

subsection \<open>Properties\<close>

text \<open>
  C2. From a store with an empty queue, no interleaving of new commands, claims, renewals,
  progress, results and cancellations leaves two unfinished operations on one collector
  or a job claimed more often than its attempt bound, and every job belongs to its own
  operation.
\<close>

theorem job_queue_invariant:
  assumes "t_operations db = []" and "t_jobs db = []"
  shows "(\<forall>r \<in> set (t_operations (queue_run ph hostname db evs)). \<forall>s \<in> set (t_operations (queue_run ph hostname db evs)).
           \<not> terminal_operation (op_status (opr_data r)) \<and> \<not> terminal_operation (op_status (opr_data s)) \<and>
           opr_collector r = opr_collector s \<longrightarrow> r = s) \<and>
    (\<forall>j \<in> set (t_jobs (queue_run ph hostname db evs)). job_attempts j \<le> max_attempts (job_payload j)) \<and>
    distinct (map job_operation (t_jobs (queue_run ph hostname db evs)))"
proof (intro conjI)
  have "queue_inv db" using assms by (simp add: queue_inv_def)
  then have "queue_inv (queue_run ph hostname db evs)" by (rule queue_step_inv [OF queue_run_step])
  note i = queue_invD [OF this]
  show "\<forall>r \<in> set (t_operations (queue_run ph hostname db evs)). \<forall>s \<in> set (t_operations (queue_run ph hostname db evs)).
           \<not> terminal_operation (op_status (opr_data r)) \<and> \<not> terminal_operation (op_status (opr_data s)) \<and>
           opr_collector r = opr_collector s \<longrightarrow> r = s"
  proof (intro ballI impI)
    fix r s
    assume rs: "r \<in> set (t_operations (queue_run ph hostname db evs))" "s \<in> set (t_operations (queue_run ph hostname db evs))"
      "\<not> terminal_operation (op_status (opr_data r)) \<and> \<not> terminal_operation (op_status (opr_data s)) \<and>
           opr_collector r = opr_collector s"
    then have "opr_id r = opr_id s" using i(3) unfolding unfinished_op_def by blast
    with rs(1,2) i(1) show "r = s" by (metis option.inject tbl_get_unique)
  qed
  show "\<forall>j \<in> set (t_jobs (queue_run ph hostname db evs)). job_attempts j \<le> max_attempts (job_payload j)"
    using i(6) by blast
  show "distinct (map job_operation (t_jobs (queue_run ph hostname db evs)))" by (rule i(5))
qed

theorem job_queue_invariant_witness:
  "list_all (\<lambda>j. job_attempts j \<le> max_attempts (job_payload j))
     (t_jobs (queue_run (\<lambda>_. ''h'') no_hostname example_db [QClaim 60 5, QCancel ''op_a'' example_audit ''audit_1'' 6]))"
  unfolding list_all_iff
  by (rule job_queue_invariant [THEN conjunct2, THEN conjunct1]) (simp_all add: example_db_def empty_db_def)

text \<open>
  C1. A claim is exclusive and fences the claims before it: right after the claim its
  holder passes the ownership check and nobody can claim the job; and whatever happens
  later, a holder of an earlier claim of the job only ever gets \<open>JobLeaseLost\<close>.
\<close>

theorem claim_exclusive_and_fenced:
  assumes "queue_inv db" and "claim_job db lease now = Inr (db', Some job)"
  shows "owned_check db' job False now = None \<and>
    (\<exists>row. tbl_get job_id (cj_id job) (t_jobs db') = Some row \<and> \<not> claimable row now \<and>
           job_attempts row = cj_attempts job \<and> cj_attempts job \<le> max_attempts (job_payload row)) \<and>
    (cj_id old = cj_id job \<and> cj_attempts old < cj_attempts job \<longrightarrow>
     owned_check (queue_run ph hostname db' evs) old allow t = Some JobLeaseLost)"
proof (intro conjI impI)
  from assms(2) obtain row o' where granted: "find (\<lambda>j. claimable j now) (sort_key job_id (t_jobs db)) = Some row"
        "get_operation db (job_operation row) = Some o'" "\<not> terminal_operation (op_status o')"
        "\<not> op_cancel_requested o'" "job_attempts row < max_attempts (job_payload row)" "1 \<le> lease"
        "db' = db\<lparr>t_jobs := tbl_upd job_id (job_id row) (\<lambda>r. grant_job r lease now) (t_jobs db)\<rparr>"
        "Some job = Some (job_of_row row (job_attempts row + 1) lease)"
  proof (cases rule: claim_job_cases)
    case (granted row o')
    then show ?thesis using that by blast
  qed simp_all
  have job: "job = job_of_row row (job_attempts row + 1) lease" using granted(8) by simp
  have inv': "queue_inv db'" by (rule queue_step_inv [OF claim_job_step [OF assms]])
  have rowin: "row \<in> set (t_jobs db)" by (rule find_sorted_job(1) [OF granted(1)])
  have "tbl_get job_id (job_id row) (t_jobs db) = Some row"
    by (rule tbl_get_unique [OF queue_invD(4) [OF assms(1)] rowin])
  then have row': "tbl_get job_id (cj_id job) (t_jobs db') = Some (grant_job row lease now)"
    by (simp add: granted(7) job job_of_row_def tbl_get_upd grant_job_def)
  have att: "job_attempts (grant_job row lease now) = cj_attempts job"
    by (simp add: job job_of_row_def grant_job_def)
  have own: "row_owned (grant_job row lease now) (cj_attempts job) now"
    using job_lease.grant_owned [OF granted(6), of row now] att by simp
  have op: "get_operation db' (cj_operation job) = Some o'"
    using granted(2) by (simp add: granted(7) job job_of_row_def get_operation_def)
  show "owned_check db' job False now = None"
    by (rule owned_checkI [OF row' own op granted(3)]) (simp add: granted(4))
  have "\<not> claimable (grant_job row lease now) now"
    by (rule job_lease.granted_not_claimable [OF granted(6)])
  moreover have "cj_attempts job \<le> max_attempts (job_payload (grant_job row lease now))"
    using granted(5) by (simp add: job job_of_row_def grant_job_def)
  ultimately show "\<exists>row. tbl_get job_id (cj_id job) (t_jobs db') = Some row \<and> \<not> claimable row now \<and>
           job_attempts row = cj_attempts job \<and> cj_attempts job \<le> max_attempts (job_payload row)"
    using row' att by blast
  show "owned_check (queue_run ph hostname db' evs) old allow t = Some JobLeaseLost"
    if old: "cj_id old = cj_id job \<and> cj_attempts old < cj_attempts job"
  proof -
    have "attempts_of (cj_id job) db' \<le> attempts_of (cj_id job) (queue_run ph hostname db' evs)"
    by (rule queue_machine.run_rank) (rule queue_step_refl [OF inv'])
  then have "int (cj_attempts job) \<le> attempts_of (cj_id job) (queue_run ph hostname db' evs)"
    using row' att by (simp add: attempts_of_def)
    with old show ?thesis
      by (auto simp: owned_check_def attempts_of_def split: option.splits)
  qed
qed

lemma example_claim:
  "claim_job (queue_with example_operation example_job) 60 100000000 =
     Inr ((queue_with example_operation example_job)\<lparr>t_jobs := [grant_job example_job 60 100000000]\<rparr>,
          Some (job_of_row example_job 2 60))"
  by (simp add: claim_job_def queue_with_def example_job_def claimable_def tle_def tlt_def iso_key_def
      get_operation_def example_operation_def terminal_operation_def example_payload_def tbl_upd_def Let_def
      numeral_2_eq_2)

theorem claim_exclusive_and_fenced_witness:
  "owned_check (queue_run (\<lambda>_. ''h'') no_hostname
       ((queue_with example_operation example_job)\<lparr>t_jobs := [grant_job example_job 60 100000000]\<rparr>)
       [QProgress (job_of_row example_job 2 60) ''parsing'' 40 Map.empty 100000005])
     (job_of_row example_job 1 60) False 100000009 = Some JobLeaseLost"
  by (rule claim_exclusive_and_fenced [OF example_inv example_claim, THEN conjunct2, THEN conjunct2, THEN mp])
    (simp add: job_of_row_def)

text \<open>
  C20. The outcome of an operation is final: once it has succeeded, failed, been cancelled
  or timed out, no later event of the queue changes its document.
\<close>

theorem terminal_operation_final:
  assumes "queue_inv db" and "get_operation db oid = Some o'" and "terminal_operation (op_status o')"
  shows "get_operation (queue_run ph hostname db evs) oid = Some o'"
  using queue_run_step [OF assms(1), of ph hostname evs] assms(2,3) unfolding queue_step_def by blast

theorem terminal_operation_final_witness:
  "get_operation (queue_run (\<lambda>_. ''h'') no_hostname (queue_with (example_operation\<lparr>op_status := Succeeded\<rparr>) example_job)
     [QClaim 60 100000000, QCancel ''op_a'' example_audit ''audit_1'' 100000006]) ''op_a'' =
   Some (example_operation\<lparr>op_status := Succeeded\<rparr>)"
proof (rule terminal_operation_final)
  show "queue_inv (queue_with (example_operation\<lparr>op_status := Succeeded\<rparr>) example_job)"
    by (rule queue_with_inv) (simp_all add: example_job_def example_operation_def example_payload_def max_attempts_def)
qed (simp_all add: example_operation_def terminal_operation_def)

text \<open>
  C19. A cancellation wins: after a request for an unfinished operation was accepted, the
  operation stays flagged and can only end as cancelled, in every later state, and every
  worker's ownership check on it refuses, so no progress and no success is recorded.
\<close>

theorem cancellation_wins:
  assumes "queue_inv db" and "get_operation db oid = Some o0" and "\<not> terminal_operation (op_status o0)"
    and "request_cancel ph db oid audit i now = Inr (db', o1)"
  shows "(\<exists>o'. get_operation (queue_run ph hostname db' evs) oid = Some o' \<and> op_cancel_requested o' \<and>
           (\<not> terminal_operation (op_status o') \<or> op_status o' = Cancelled)) \<and>
    (cj_operation job = oid \<longrightarrow> owned_check (queue_run ph hostname db' evs) job False t \<noteq> None)"
proof (intro conjI impI)
  note c = request_cancel_step [OF assms(1,4)]
  have "doomed o1" by (rule c(4) [OF assms(2,3)])
  with queue_run_step [OF queue_step_inv [OF c(1)], of ph hostname evs] c(2) obtain o' where
    o': "get_operation (queue_run ph hostname db' evs) oid = Some o'" "doomed o'"
    unfolding queue_step_def by blast
  then show "\<exists>o'. get_operation (queue_run ph hostname db' evs) oid = Some o' \<and> op_cancel_requested o' \<and>
           (\<not> terminal_operation (op_status o') \<or> op_status o' = Cancelled)"
    by (auto simp: doomed_def)
  show "owned_check (queue_run ph hostname db' evs) job False t \<noteq> None" if "cj_operation job = oid"
    using o' that by (auto simp: owned_check_def doomed_def split: option.splits)
qed

theorem cancellation_wins_witness:
  "\<exists>db' o1. request_cancel (\<lambda>_. ''h'') (queue_with example_operation example_job) ''op_a'' example_audit ''audit_1'' 7 = Inr (db', o1) \<and>
     owned_check (queue_run (\<lambda>_. ''h'') no_hostname db' [QClaim 60 8]) (job_of_row example_job 1 60) False 9 \<noteq> None"
proof -
  have get: "get_operation (queue_with example_operation example_job) ''op_a'' = Some example_operation"
    and open0: "\<not> terminal_operation (op_status example_operation)"
    by (simp_all add: example_operation_def terminal_operation_def)
  have "\<exists>db' o1. request_cancel (\<lambda>_. ''h'') (queue_with example_operation example_job) ''op_a'' example_audit ''audit_1'' 7 = Inr (db', o1)"
    by (simp add: request_cancel_def queue_with_def example_operation_def example_job_def get_operation_def
        terminal_operation_def operation_collector_id_def save_operation_def record_new_history_def history_exists_def
        tbl_upsert_def tbl_upd_def tle_def iso_key_def Let_def)
  then obtain db' o1 where run: "request_cancel (\<lambda>_. ''h'') (queue_with example_operation example_job) ''op_a'' example_audit ''audit_1'' 7
      = Inr (db', o1)" by blast
  have "cj_operation (job_of_row example_job 1 60) = ''op_a''" by (simp add: job_of_row_def example_job_def)
  from cancellation_wins [OF example_inv get open0 run, THEN conjunct2, THEN mp, OF this] run show ?thesis by blast
qed

text \<open>
  A job whose attempts are used up, or whose cancellation was requested, is not handed
  out again: the next claim that reaches it returns no job and settles the operation as
  failed or cancelled, and the job row as failed with no lease.
\<close>

lemma exhausted_job_is_settled:
  assumes "queue_inv db" and "claim_job db lease now = Inr (db', res)"
    and "find (\<lambda>j. claimable j now) (sort_key job_id (t_jobs db)) = Some row"
    and "get_operation db (job_operation row) = Some o0" and "\<not> terminal_operation (op_status o0)"
    and "op_cancel_requested o0 \<or> max_attempts (job_payload row) \<le> job_attempts row"
  shows "res = None \<and>
    (\<exists>o1. get_operation db' (job_operation row) = Some o1 \<and>
           op_status o1 = (if op_cancel_requested o0 then Cancelled else Failed)) \<and>
    (\<exists>row'. tbl_get job_id (job_id row) (t_jobs db') = Some row' \<and> job_status row' = JFailed \<and> job_lease_until row' = None)"
proof (intro conjI)
  have fin: "finish_resources db (job_of_row row (job_attempts row + 1) lease)
           (worker_error (job_operation row) (op_cancel_requested o0))
           (if op_cancel_requested o0 then Cancelled else Failed) now = Inr db'" and res: "res = None"
    using assms(2-6) by (elim claim_job_cases; auto)+
  show "res = None" by (rule res)
  show "\<exists>o1. get_operation db' (job_operation row) = Some o1 \<and>
           op_status o1 = (if op_cancel_requested o0 then Cancelled else Failed)"
    using finish_resources_step(2) [OF assms(1) fin] assms(4,5) by (simp add: job_of_row_def)
  have "row \<in> set (t_jobs db)" by (rule find_sorted_job(1) [OF assms(3)])
  then have get: "tbl_get job_id (job_id row) (t_jobs db) = Some row"
    by (rule tbl_get_unique [OF queue_invD(4) [OF assms(1)]])
  obtain db3 where db3: "db' = fail_job db3 (job_id row) (err_message (worker_error (job_operation row) (op_cancel_requested o0)))"
    and jobs: "queue_step db db3"
    using finish_resources_settles [OF assms(1) fin, of o0] assms(4,5) by (auto simp: job_of_row_def)
  from jobs get obtain r3 where "tbl_get job_id (job_id row) (t_jobs db3) = Some r3" unfolding queue_step_def by blast
  then show "\<exists>row'. tbl_get job_id (job_id row) (t_jobs db') = Some row' \<and> job_status row' = JFailed \<and> job_lease_until row' = None"
    by (simp add: db3 fail_job_def tbl_get_upd)
qed

theorem exhausted_job_is_settled_witness:
  "\<exists>db' res o1. claim_job (queue_with example_operation (example_job\<lparr>job_attempts := 3\<rparr>)) 60 100000000 = Inr (db', res) \<and>
     get_operation db' ''op_a'' = Some o1 \<and> op_status o1 = Failed"
proof -
  let ?db = "queue_with example_operation (example_job\<lparr>job_attempts := 3\<rparr>)"
  have inv: "queue_inv ?db"
    by (rule queue_with_inv) (simp_all add: example_job_def example_operation_def example_payload_def max_attempts_def)
  have find: "find (\<lambda>j. claimable j 100000000) (sort_key job_id (t_jobs ?db)) = Some (example_job\<lparr>job_attempts := 3\<rparr>)"
    by (simp add: queue_with_def example_job_def claimable_def tle_def tlt_def iso_key_def)
  have get: "get_operation ?db (job_operation (example_job\<lparr>job_attempts := 3\<rparr>)) = Some example_operation"
    by (simp add: example_job_def example_operation_def)
  have open0: "\<not> terminal_operation (op_status example_operation)"
    by (simp add: example_operation_def terminal_operation_def)
  have full: "op_cancel_requested example_operation \<or>
      max_attempts (job_payload (example_job\<lparr>job_attempts := 3\<rparr>)) \<le> job_attempts (example_job\<lparr>job_attempts := 3\<rparr>)"
    by (simp add: example_job_def example_payload_def max_attempts_def)
  have "\<exists>db' res. claim_job ?db 60 100000000 = Inr (db', res)"
    by (simp add: claim_job_def queue_with_def example_job_def claimable_def tle_def tlt_def iso_key_def
        get_operation_def example_operation_def terminal_operation_def example_payload_def Let_def
        finish_resources_def job_of_row_def lock_collector_def is_deleted_def example_db_def empty_db_def
        save_operation_def record_new_history_def history_exists_def release_collector_def get_collector_def
        example_collector_def settle_run_def)
  then obtain db' res where run: "claim_job ?db 60 100000000 = Inr (db', res)" by blast
  from exhausted_job_is_settled [OF inv run find get open0 full] run show ?thesis
    by (auto simp: example_job_def example_operation_def)
qed

end
