(* ===== verification/Deliveries.thy ===== *)
theory Deliveries
  imports Audit_Log Texts Leases "HOL-Library.Option_ord"
begin

text \<open>
  Webhook sinks and the delivery outbox (\<open>store.py\<close>): enqueueing once per item event
  and sink version, leasing due deliveries, the lease check, finalizing an attempt, the
  append-only attempt history and manual redelivery. \<open>th\<close> is the SHA-256 of a text,
  \<open>tok\<close> the fresh lease token drawn for a row, \<open>enc\<close> the credential cipher.
\<close>

subsection \<open>Sinks\<close>

definition create_sink ::
  "(string \<Rightarrow> string) \<Rightarrow> (db \<Rightarrow> py_exc option) \<Rightarrow> db \<Rightarrow> string \<Rightarrow> string \<Rightarrow> string \<Rightarrow> string option \<Rightarrow> bool \<Rightarrow>
   string \<Rightarrow> ts \<Rightarrow> py_exc + (db \<times> sink_row)"
where
  "create_sink enc credentials_ok db cid sink_type url secret enabled sink_id now =
     (if sink_type \<noteq> ''webhook'' then Inl (ValueErr ''unsupported sink type'')
      else if strip url = [] then Inl (ValueErr ''sink url must be a non-empty string'')
      else
        (case lock_collector db cid of
           Some e \<Rightarrow> Inl e
         | None \<Rightarrow>
             (let configured = (case secret of None \<Rightarrow> False | Some s \<Rightarrow> s \<noteq> []);
                  row = \<lparr>snk_id = sink_id, snk_collector = cid, snk_type = sink_type, snk_url = url,
                         snk_secret = (if configured then map_option enc secret else None), snk_enabled = enabled,
                         snk_version = 1, snk_created = now, snk_updated = now\<rparr>
              in (case (if configured then credentials_ok db else None) of
                    Some e \<Rightarrow> Inl e
                  | None \<Rightarrow> Inr (db\<lparr>t_sinks := t_sinks db @ [row]\<rparr>, row)))))"

definition update_sink ::
  "(string \<Rightarrow> string) option \<Rightarrow> (db \<Rightarrow> py_exc option) \<Rightarrow> db \<Rightarrow> string \<Rightarrow> string option \<Rightarrow> string option \<Rightarrow> bool option \<Rightarrow>
   ts \<Rightarrow> py_exc + (db \<times> sink_row)"
where
  "update_sink cipher credentials_ok db sink_id url secret enabled now =
     (if secret \<noteq> None \<and> cipher = None then Inl (ValueErr ''updating the sink secret requires the credential cipher'')
      else if (case url of None \<Rightarrow> False | Some u \<Rightarrow> strip u = []) then Inl (ValueErr ''sink url must be a non-empty string'')
      else
        (case tbl_get snk_id sink_id (t_sinks db) of
           None \<Rightarrow> Inl (KeyErr sink_id)
         | Some row \<Rightarrow>
             (case lock_collector db (snk_collector row) of
                Some e \<Rightarrow> Inl e
              | None \<Rightarrow>
                  (case (if secret \<noteq> None then credentials_ok db else None) of
                     Some e \<Rightarrow> Inl e
                   | None \<Rightarrow>
                       (let row' = row\<lparr>snk_url := (case url of None \<Rightarrow> snk_url row | Some u \<Rightarrow> u),
                              snk_enabled := (case enabled of None \<Rightarrow> snk_enabled row | Some b \<Rightarrow> b),
                              snk_secret := (case (secret, cipher) of (Some s, Some enc) \<Rightarrow> Some (enc s) | _ \<Rightarrow> snk_secret row),
                              snk_version := snk_version row + 1, snk_updated := now\<rparr>
                        in Inr (db\<lparr>t_sinks := tbl_upd snk_id sink_id (\<lambda>_. row') (t_sinks db)\<rparr>, row'))))))"

definition delete_sink :: "db \<Rightarrow> string \<Rightarrow> py_exc + db" where
  "delete_sink db sink_id =
     (case tbl_get snk_id sink_id (t_sinks db) of
        None \<Rightarrow> Inl (KeyErr sink_id)
      | Some row \<Rightarrow>
          (case lock_collector db (snk_collector row) of
             Some e \<Rightarrow> Inl e
           | None \<Rightarrow> Inr (db\<lparr>t_sinks := tbl_del snk_id sink_id (t_sinks db)\<rparr>)))"

subsection \<open>Enqueueing\<close>

definition sink_version_of :: "sink_row \<Rightarrow> string" where
  "sink_version_of s = snk_id s @ ''#v'' @ nat_text (snk_version s)"

definition newline :: string where
  "newline = [CHR 0x0A]"

definition delivery_id_of :: "(string \<Rightarrow> string) \<Rightarrow> string \<Rightarrow> string \<Rightarrow> string" where
  "delivery_id_of th item version = sha256_tag (th (item @ newline @ version))"

definition find_delivery :: "db \<Rightarrow> string \<Rightarrow> string \<Rightarrow> delivery_row option" where
  "find_delivery db item version =
     find (\<lambda>d. dl_item d = item \<and> dl_sink_version d = version) (t_deliveries db)"

definition new_delivery :: "(string \<Rightarrow> string) \<Rightarrow> string \<Rightarrow> string \<Rightarrow> string \<Rightarrow> string \<Rightarrow> ts \<Rightarrow> delivery_row" where
  "new_delivery th cid sink_id item version now =
     \<lparr>dl_id = delivery_id_of th item version, dl_collector = cid, dl_sink = sink_id, dl_sink_version = version,
      dl_item = item, dl_status = DPending, dl_attempt_count = 0, dl_next_attempt = Some now, dl_lease_until = None,
      dl_last_code = None, dl_last_error = None, dl_redeliveries = 0, dl_lease_token = None, dl_cycle = 0,
      dl_created = now, dl_updated = now\<rparr>"

text \<open>\<open>INSERT OR IGNORE\<close>: an existing id or an existing pair of item and version keeps its row.\<close>

definition enqueue_delivery ::
  "(string \<Rightarrow> string) \<Rightarrow> db \<Rightarrow> string \<Rightarrow> string \<Rightarrow> string \<Rightarrow> string option \<Rightarrow> ts \<Rightarrow> py_exc + (db \<times> delivery_row)"
where
  "enqueue_delivery th db cid sink_id item version now =
     (case (case version of
              Some v \<Rightarrow> Inr v
            | None \<Rightarrow> (case tbl_get snk_id sink_id (t_sinks db) of
                         None \<Rightarrow> Inl (KeyErr sink_id) | Some s \<Rightarrow> Inr (sink_version_of s))) of
        Inl e \<Rightarrow> Inl e
      | Inr v \<Rightarrow>
          (let row = new_delivery th cid sink_id item v now;
               db1 = (if tbl_get dl_id (dl_id row) (t_deliveries db) \<noteq> None \<or> find_delivery db item v \<noteq> None then db
                      else db\<lparr>t_deliveries := t_deliveries db @ [row]\<rparr>)
           in (case find_delivery db1 item v of
                 None \<Rightarrow> Inl (RuntimeErr ''enqueued delivery is unavailable'')
               | Some r \<Rightarrow> Inr (db1, r))))"

subsection \<open>Leasing\<close>

definition delivery_due :: "delivery_row \<Rightarrow> ts \<Rightarrow> bool" where
  "delivery_due d now \<longleftrightarrow>
     (dl_status d \<in> {DPending, DFailed} \<and> (case dl_next_attempt d of None \<Rightarrow> False | Some t \<Rightarrow> tle t now)) \<or>
     (dl_status d = DDelivering \<and> (case dl_lease_until d of None \<Rightarrow> False | Some t \<Rightarrow> tlt t now))"

definition grant_delivery :: "delivery_row \<Rightarrow> int \<times> string \<Rightarrow> ts \<Rightarrow> delivery_row" where
  "grant_delivery d k now =
     d\<lparr>dl_status := DDelivering, dl_lease_until := Some (now + fst k * 1000000), dl_lease_token := Some (snd k),
       dl_cycle := dl_cycle d + 1, dl_updated := now\<rparr>"

text \<open>The claimable rows whose sink still exists, by next attempt and id.\<close>

definition due_deliveries :: "db \<Rightarrow> ts \<Rightarrow> delivery_row list" where
  "due_deliveries db now =
     sort_key (\<lambda>d. map_option iso_key (dl_next_attempt d))
       (sort_key dl_id
         (filter (\<lambda>d. delivery_due d now \<and> tbl_get snk_id (dl_sink d) (t_sinks db) \<noteq> None) (t_deliveries db)))"

definition claim_due_deliveries ::
  "db \<Rightarrow> nat \<Rightarrow> int \<Rightarrow> (string \<Rightarrow> string) \<Rightarrow> ts \<Rightarrow> py_exc + (db \<times> delivery_row list)" where
  "claim_due_deliveries db limit lease_seconds tok now =
     (if limit < 1 then Inl (ValueErr ''claim limit must be positive'')
      else
        (let rows = take limit (due_deliveries db now);
             grant = (\<lambda>d. grant_delivery d (lease_seconds, tok (dl_id d)) now)
         in Inr (foldl (\<lambda>d r. d\<lparr>t_deliveries := tbl_upd dl_id (dl_id r) grant (t_deliveries d)\<rparr>) db rows,
                 map grant rows)))"

text \<open>\<open>d\<close> is the claimed view: its token is the one the claim handed out.\<close>

definition check_delivery_lease :: "db \<Rightarrow> delivery_row \<Rightarrow> ts \<Rightarrow> py_exc option" where
  "check_delivery_lease db d now =
     (case tbl_get dl_id (dl_id d) (t_deliveries db) of
        None \<Rightarrow> Some JobLeaseLost
      | Some row \<Rightarrow>
          if dl_status row \<noteq> DDelivering \<or> dl_lease_token d = None \<or> dl_lease_token row \<noteq> dl_lease_token d \<or>
             (case dl_lease_until row of None \<Rightarrow> True | Some t \<Rightarrow> tle t now)
          then Some JobLeaseLost else None)"

subsection \<open>Attempts and outcomes\<close>

definition attempt_id_of :: "(string \<Rightarrow> string) \<Rightarrow> string \<Rightarrow> nat \<Rightarrow> string" where
  "attempt_id_of th did no = sha256_tag (th (did @ newline @ nat_text no))"

definition record_delivery_attempt ::
  "(string \<Rightarrow> string) \<Rightarrow> db \<Rightarrow> string \<Rightarrow> int option \<Rightarrow> string option \<Rightarrow> ts option \<Rightarrow> ts \<Rightarrow> py_exc + db" where
  "record_delivery_attempt th db did code error next_at now =
     (case tbl_get dl_id did (t_deliveries db) of
        None \<Rightarrow> Inl (KeyErr did)
      | Some row \<Rightarrow>
          (let no = dl_attempt_count row + 1;
               aid = attempt_id_of th did no
           in if tbl_get da_id aid (t_delivery_attempts db) \<noteq> None then Inl UniqueViolation
              else Inr (db\<lparr>t_delivery_attempts := t_delivery_attempts db @
                     [\<lparr>da_id = aid, da_delivery = did, da_no = no, da_started = now, da_finished = now,
                       da_code = code, da_error = error\<rparr>],
                   t_deliveries := tbl_upd dl_id did
                     (\<lambda>r. r\<lparr>dl_attempt_count := no, dl_last_code := code, dl_last_error := error,
                            dl_next_attempt := (case next_at of None \<Rightarrow> dl_next_attempt r | Some t \<Rightarrow> Some t),
                            dl_status := (if error \<noteq> None then DFailed else dl_status row), dl_updated := now\<rparr>)
                     (t_deliveries db)\<rparr>)))"

definition finalize_delivery ::
  "(string \<Rightarrow> string) \<Rightarrow> db \<Rightarrow> delivery_row \<Rightarrow> delivery_status \<Rightarrow> int option \<Rightarrow> string option \<Rightarrow> ts option \<Rightarrow> bool \<Rightarrow> ts \<Rightarrow>
   py_exc + db"
where
  "finalize_delivery th db d status code error next_at record_attempt now =
     (if status \<notin> {DDelivered, DFailed, DDeadLettered} then Inl (ValueErr ''invalid delivery outcome'')
      else
        (case check_delivery_lease db d now of
           Some e \<Rightarrow> Inl e
         | None \<Rightarrow>
             (case (if record_attempt then record_delivery_attempt th db (dl_id d) code error None now else Inr db) of
                Inl e \<Rightarrow> Inl e
              | Inr db1 \<Rightarrow>
                  Inr (db1\<lparr>t_deliveries := tbl_upd dl_id (dl_id d)
                        (\<lambda>r. r\<lparr>dl_status := status, dl_last_error := error, dl_next_attempt := next_at,
                               dl_lease_until := None, dl_lease_token := None, dl_updated := now\<rparr>)
                        (t_deliveries db1)\<rparr>))))"

definition mark_delivery_delivered :: "db \<Rightarrow> string \<Rightarrow> ts \<Rightarrow> py_exc + db" where
  "mark_delivery_delivered db did now =
     (if tbl_get dl_id did (t_deliveries db) = None then Inl (KeyErr did)
      else Inr (db\<lparr>t_deliveries := tbl_upd dl_id did
             (\<lambda>r. r\<lparr>dl_status := DDelivered, dl_lease_until := None, dl_next_attempt := None, dl_updated := now\<rparr>)
             (t_deliveries db)\<rparr>))"

definition mark_delivery_dead_lettered :: "db \<Rightarrow> string \<Rightarrow> string option \<Rightarrow> ts \<Rightarrow> py_exc + db" where
  "mark_delivery_dead_lettered db did error now =
     (if tbl_get dl_id did (t_deliveries db) = None then Inl (KeyErr did)
      else Inr (db\<lparr>t_deliveries := tbl_upd dl_id did
             (\<lambda>r. r\<lparr>dl_status := DDeadLettered, dl_lease_until := None,
                    dl_last_error := (case error of None \<Rightarrow> dl_last_error r | Some e \<Rightarrow> Some e), dl_updated := now\<rparr>)
             (t_deliveries db)\<rparr>))"

definition redeliver_delivery ::
  "hasher \<Rightarrow> db \<Rightarrow> string \<Rightarrow> audit_args option \<Rightarrow> string \<Rightarrow> ts \<Rightarrow> py_exc + db" where
  "redeliver_delivery ph db did audit event_id now =
     (case tbl_get dl_id did (t_deliveries db) of
        None \<Rightarrow> Inl (KeyErr did)
      | Some row \<Rightarrow>
          if dl_status row = DDelivering
          then Inl (ValueErr ''delivery is actively being delivered; wait for its lease to expire'')
          else
            (let db1 = db\<lparr>t_deliveries := tbl_upd dl_id did
                   (\<lambda>r. r\<lparr>dl_status := DPending, dl_next_attempt := Some now, dl_lease_until := None,
                          dl_lease_token := None, dl_cycle := 0, dl_redeliveries := dl_redeliveries r + 1,
                          dl_updated := now\<rparr>) (t_deliveries db)\<rparr>
             in Inr (case audit of
                       None \<Rightarrow> db1
                     | Some aa \<Rightarrow> append_audit_event ph db1 event_id (aa_tenant aa) ''Delivery'' did
                                    (aa\<lparr>aa_action := ''delivery.redeliver''\<rparr>) None None now)))"

end
