(* ===== verification/Webhook.thy ===== *)
theory Webhook
  imports Deliveries
begin

text \<open>
  The webhook dispatcher (\<open>delivery.py\<close>): one claimed delivery is checked against its
  lease and sink, posted, and its outcome written by \<open>finalize_delivery\<close>. What the HTTP
  client does with the request is the parameter \<open>post\<close>; an exception of any other kind
  raised on the way (decrypting the secret, serialising) is \<open>Crashed\<close>.
\<close>

datatype outcome_text = OutDelivered | OutRetry | OutDeadLettered | OutError

datatype post_result = HttpStatus int | HttpFailed string | Crashed string

definition max_delivery_attempts :: nat where
  "max_delivery_attempts = 5"

definition backoff_schedule :: "int list" where
  "backoff_schedule = [60, 300, 1800, 7200, 21600]"

definition backoff_seconds :: "nat \<Rightarrow> int" where
  "backoff_seconds attempt_no = backoff_schedule ! (min attempt_no (length backoff_schedule) - 1)"

definition error_text :: "string \<Rightarrow> string" where
  "error_text s = take 300 s"

definition is_test_delivery :: "delivery_row \<Rightarrow> bool" where
  "is_test_delivery d \<longleftrightarrow> dl_item d = ''test'' \<or> starts_with ''test_'' (dl_item d)"

text \<open>\<open>_build_payload\<close>: whether there is something to send; its text is not modelled.\<close>

definition payload_available :: "db \<Rightarrow> delivery_row \<Rightarrow> bool" where
  "payload_available db d \<longleftrightarrow> is_test_delivery d \<or> tbl_get it_id (dl_item d) (t_items db) \<noteq> None"

text \<open>\<open>_post\<close>: the status code and the error text of a response.\<close>

definition response_of :: "int \<Rightarrow> int option \<times> string option" where
  "response_of code =
     (Some code, if 200 \<le> code \<and> code < 300 then None else Some (''unexpected response status '' @ nat_text (nat code)))"

definition dead_letter ::
  "(string \<Rightarrow> string) \<Rightarrow> db \<Rightarrow> delivery_row \<Rightarrow> string \<Rightarrow> int option \<Rightarrow> bool \<Rightarrow> ts \<Rightarrow> py_exc + (db \<times> outcome_text)" where
  "dead_letter th db d error code record_attempt now =
     map_sum id (\<lambda>x. (x, OutDeadLettered))
       (finalize_delivery th db d DDeadLettered code (Some (error_text error)) None record_attempt now)"

definition record_failure ::
  "(string \<Rightarrow> string) \<Rightarrow> db \<Rightarrow> delivery_row \<Rightarrow> int option \<Rightarrow> string \<Rightarrow> ts \<Rightarrow> py_exc + (db \<times> outcome_text)" where
  "record_failure th db d code error now =
     (if max_delivery_attempts \<le> dl_cycle d then dead_letter th db d error code True now
      else map_sum id (\<lambda>x. (x, OutRetry))
             (finalize_delivery th db d DFailed code (Some (error_text error))
               (Some (now + backoff_seconds (dl_cycle d) * 1000000)) True now))"

text \<open>The result of \<open>_deliver\<close>: an exception of the store, of something else, or an outcome.\<close>

datatype deliver_result = Raised py_exc | RaisedOther string | Done "db \<times> outcome_text"

definition of_store :: "py_exc + (db \<times> outcome_text) \<Rightarrow> deliver_result" where
  "of_store r = (case r of Inl e \<Rightarrow> Raised e | Inr p \<Rightarrow> Done p)"

text \<open>
  The transactions of one dispatch. The first reads: it checks the lease and decides whether there
  is a request to make. The request runs outside any transaction, so the claim may be taken over
  meanwhile. The last writes the outcome under the lease check of \<open>finalize_delivery\<close>.
\<close>

datatype delivery_plan = PlanRaise py_exc | PlanStop string | PlanPost string

definition plan_delivery :: "db \<Rightarrow> delivery_row \<Rightarrow> ts \<Rightarrow> delivery_plan" where
  "plan_delivery db d now =
     (case check_delivery_lease db d now of
        Some e \<Rightarrow> PlanRaise e
      | None \<Rightarrow>
          (case tbl_get snk_id (dl_sink d) (t_sinks db) of
             None \<Rightarrow> PlanStop ''sink deleted before delivery''
           | Some s \<Rightarrow>
               if \<not> snk_enabled s then PlanStop ''sink disabled before delivery''
               else if snk_type s \<noteq> ''webhook'' then PlanStop (''unsupported sink type: '' @ snk_type s)
               else if dl_sink_version d \<noteq> sink_version_of s then PlanStop ''sink version changed before delivery''
               else if max_delivery_attempts < dl_cycle d then PlanStop ''exceeded 5 delivery attempts''
               else if \<not> payload_available db d then PlanStop (''referenced item '' @ dl_item d @ '' not found'')
               else PlanPost (snk_url s)))"

definition stop_delivery :: "(string \<Rightarrow> string) \<Rightarrow> db \<Rightarrow> delivery_row \<Rightarrow> string \<Rightarrow> ts \<Rightarrow> deliver_result" where
  "stop_delivery th db d reason now = of_store (dead_letter th db d reason None False now)"

definition settle_delivery :: "(string \<Rightarrow> string) \<Rightarrow> db \<Rightarrow> delivery_row \<Rightarrow> post_result \<Rightarrow> ts \<Rightarrow> deliver_result" where
  "settle_delivery th db d result now =
     (case result of
        Crashed name \<Rightarrow> RaisedOther name
      | HttpFailed name \<Rightarrow> of_store (record_failure th db d None (error_text (''request failed: '' @ name)) now)
      | HttpStatus code \<Rightarrow>
          (case response_of code of
             (c, None) \<Rightarrow> of_store (map_sum id (\<lambda>x. (x, OutDelivered))
                           (finalize_delivery th db d DDelivered c None None True now))
           | (c, Some error) \<Rightarrow>
               if 400 \<le> code \<and> code < 500 \<and> code \<noteq> 429 then of_store (dead_letter th db d error c True now)
               else of_store (record_failure th db d c error now)))"

definition deliver ::
  "(string \<Rightarrow> string) \<Rightarrow> (string \<Rightarrow> post_result) \<Rightarrow> db \<Rightarrow> delivery_row \<Rightarrow> ts \<Rightarrow> deliver_result" where
  "deliver th post db d now =
     (case plan_delivery db d now of
        PlanRaise e \<Rightarrow> Raised e
      | PlanStop reason \<Rightarrow> stop_delivery th db d reason now
      | PlanPost url \<Rightarrow> settle_delivery th db d (post url) now)"

text \<open>\<open>process\<close> never raises: a lost lease is an error outcome, any other exception a recorded failure.\<close>

definition caught :: "(string \<Rightarrow> string) \<Rightarrow> db \<Rightarrow> delivery_row \<Rightarrow> ts \<Rightarrow> deliver_result \<Rightarrow> db \<times> outcome_text" where
  "caught th db d now r =
     (case r of
        Done p \<Rightarrow> p
      | Raised JobLeaseLost \<Rightarrow> (db, OutError)
      | Raised e \<Rightarrow> (case record_failure th db d None ''dispatcher error'' now of Inl _ \<Rightarrow> (db, OutError) | Inr p \<Rightarrow> p)
      | RaisedOther name \<Rightarrow>
          (case record_failure th db d None (error_text (''dispatcher error: '' @ name)) now of
             Inl _ \<Rightarrow> (db, OutError) | Inr p \<Rightarrow> p))"

text \<open>A dispatch nothing comes in between of.\<close>

definition process_delivery ::
  "(string \<Rightarrow> string) \<Rightarrow> (string \<Rightarrow> post_result) \<Rightarrow> db \<Rightarrow> delivery_row \<Rightarrow> ts \<Rightarrow> db \<times> outcome_text" where
  "process_delivery th post db d now = caught th db d now (deliver th post db d now)"

fun process_batch ::
  "(string \<Rightarrow> string) \<Rightarrow> (string \<Rightarrow> post_result) \<Rightarrow> db \<Rightarrow> delivery_row list \<Rightarrow> ts \<Rightarrow> db \<times> outcome_text list" where
  "process_batch th post db [] now = (db, [])"
| "process_batch th post db (d # ds) now =
     (case process_delivery th post db d now of
        (db1, o1) \<Rightarrow> (case process_batch th post db1 ds now of (db2, os) \<Rightarrow> (db2, o1 # os)))"

end
