(* ===== verification/Delivery_Safety.thy ===== *)
theory Delivery_Safety
  imports Webhook
begin

text \<open>
  What the outbox guarantees, over every interleaving of enqueueing, claiming,
  dispatching, redelivery and sink changes: one delivery per item event and sink
  version, a gapless append-only attempt history, a bounded number of retries, and no
  effect of a dispatcher whose lease was taken over.
\<close>

subsection \<open>The lease of a delivery row\<close>

definition delivery_owned :: "delivery_row \<Rightarrow> string option \<Rightarrow> ts \<Rightarrow> bool" where
  "delivery_owned d token now \<longleftrightarrow> dl_status d = DDelivering \<and> token \<noteq> None \<and> dl_lease_token d = token \<and>
     (case dl_lease_until d of None \<Rightarrow> False | Some t \<Rightarrow> tlt now t)"

lemma lease_later: "1 \<le> s \<Longrightarrow> tlt now (now + s * 1000000)"
  by (simp add: tlt_def iso_key_def)

interpretation delivery_lease: lease_discipline delivery_due delivery_owned grant_delivery dl_lease_token
  "\<lambda>k d. 1 \<le> fst k \<and> dl_lease_token d \<noteq> Some (snd k)"
proof
  show "delivery_owned r g t \<Longrightarrow> dl_lease_token r = g" for r g t
    by (simp add: delivery_owned_def)
  show "delivery_owned r g t \<Longrightarrow> \<not> delivery_due r t" for r g t
    by (auto simp: delivery_owned_def delivery_due_def tlt_def split: option.splits)
  show "1 \<le> fst k \<and> dl_lease_token r \<noteq> Some (snd k) \<Longrightarrow>
        delivery_owned (grant_delivery r k t) (dl_lease_token (grant_delivery r k t)) t" for k r t
    by (simp add: delivery_owned_def grant_delivery_def lease_later)
  show "1 \<le> fst k \<and> dl_lease_token r \<noteq> Some (snd k) \<Longrightarrow>
        dl_lease_token (grant_delivery r k t) \<noteq> dl_lease_token r" for k r t
    by (auto simp: grant_delivery_def)
qed

lemma check_delivery_lease_iff:
  "check_delivery_lease db d now = None \<longleftrightarrow>
     (\<exists>row. tbl_get dl_id (dl_id d) (t_deliveries db) = Some row \<and> delivery_owned row (dl_lease_token d) now)"
  by (auto simp: check_delivery_lease_def delivery_owned_def split: option.splits simp flip: not_tle)

lemma check_delivery_lease_error: "check_delivery_lease db d now = Some e \<Longrightarrow> e = JobLeaseLost"
  by (auto simp: check_delivery_lease_def split: option.splits if_splits)

subsection \<open>What the writes do\<close>

lemma foldl_upd_map:
  assumes "\<And>x. key (f x) = key x" and "distinct (map key rs)"
  shows "foldl (\<lambda>t r. tbl_upd key (key r) f t) table rs = map (\<lambda>x. if key x \<in> key ` set rs then f x else x) table"
  using assms(2)
proof (induction rs arbitrary: table)
  case Nil
  then show ?case by simp
next
  case (Cons r rs)
  then show ?case using assms(1) by (auto simp: tbl_upd_def)
qed

lemma foldl_deliveries:
  "foldl (\<lambda>d r. d\<lparr>t_deliveries := F r (t_deliveries d)\<rparr>) db rs = db\<lparr>t_deliveries := foldl (\<lambda>t r. F r t) (t_deliveries db) rs\<rparr>"
  by (induction rs arbitrary: db) simp_all

lemma foldl_upd_attempts:
  "t_delivery_attempts (foldl (\<lambda>d r. d\<lparr>t_deliveries := tbl_upd dl_id (dl_id r) f (t_deliveries d)\<rparr>) db rs) = t_delivery_attempts db"
  by (induction rs arbitrary: db) simp_all

lemma due_deliveries_set:
  "set (due_deliveries db now) \<subseteq> {d \<in> set (t_deliveries db). delivery_due d now}"
  by (auto simp: due_deliveries_def)

lemma distinct_due_deliveries: "distinct (map dl_id (t_deliveries db)) \<Longrightarrow> distinct (map dl_id (due_deliveries db now))"
proof -
  assume d: "distinct (map dl_id (t_deliveries db))"
  have inj: "inj_on dl_id (set (t_deliveries db))" and dt: "distinct (t_deliveries db)"
    using d by (simp_all add: distinct_map)
  have "distinct (due_deliveries db now)" using dt by (simp add: due_deliveries_def)
  moreover have "inj_on dl_id (set (due_deliveries db now))"
    by (rule inj_on_subset [OF inj]) (use due_deliveries_set in blast)
  ultimately show ?thesis by (simp add: distinct_map)
qed

lemma claim_due_cases:
  assumes "claim_due_deliveries db limit lease tok now = Inr (db', views)" and "distinct (map dl_id (t_deliveries db))"
  obtains rows where "distinct (map dl_id rows)" "set rows \<subseteq> {d \<in> set (t_deliveries db). delivery_due d now}"
    "length rows \<le> limit" "views = map (\<lambda>d. grant_delivery d (lease, tok (dl_id d)) now) rows"
    "db' = db\<lparr>t_deliveries := map (\<lambda>x. if dl_id x \<in> dl_id ` set rows then grant_delivery x (lease, tok (dl_id x)) now else x)
                                (t_deliveries db)\<rparr>"
proof -
  define rows where "rows = take limit (due_deliveries db now)"
  let ?g = "\<lambda>d. grant_delivery d (lease, tok (dl_id d)) now"
  have dist: "distinct (map dl_id rows)"
    using distinct_due_deliveries [OF assms(2)] by (simp add: rows_def take_map [symmetric])
  have sub: "set rows \<subseteq> {d \<in> set (t_deliveries db). delivery_due d now}"
    using due_deliveries_set set_take_subset unfolding rows_def by fast
  have g: "dl_id (?g x) = dl_id x" for x by (simp add: grant_delivery_def)
  have "db' = foldl (\<lambda>d r. d\<lparr>t_deliveries := tbl_upd dl_id (dl_id r) ?g (t_deliveries d)\<rparr>) db rows"
    and views: "views = map ?g rows"
    using assms(1) by (auto simp: claim_due_deliveries_def Let_def rows_def split: if_splits)
  then have "db' = db\<lparr>t_deliveries := map (\<lambda>x. if dl_id x \<in> dl_id ` set rows then ?g x else x) (t_deliveries db)\<rparr>"
    unfolding foldl_deliveries [where F = "\<lambda>r. tbl_upd dl_id (dl_id r) ?g"]
    using foldl_upd_map [of dl_id ?g rows "t_deliveries db", OF g dist] by simp
  moreover have "length rows \<le> limit" by (simp add: rows_def)
  ultimately show ?thesis using that dist sub views by blast
qed

text \<open>Finalizing: the row of the claim, its new attempt, and its new status.\<close>

lemma finalize_delivery_cases:
  assumes "finalize_delivery th db d status code error next_at rec now = Inr db'"
  obtains row no where "tbl_get dl_id (dl_id d) (t_deliveries db) = Some row" "delivery_owned row (dl_lease_token d) now"
    "status \<in> {DDelivered, DFailed, DDeadLettered}" "no = dl_attempt_count row + (if rec then 1 else 0)"
    "t_deliveries db' = tbl_upd dl_id (dl_id d)
       (\<lambda>r. r\<lparr>dl_attempt_count := (if rec then no else dl_attempt_count r),
              dl_last_code := (if rec then code else dl_last_code r), dl_last_error := error,
              dl_status := status, dl_next_attempt := next_at,
              dl_lease_until := None, dl_lease_token := None, dl_updated := now\<rparr>) (t_deliveries db)"
    "t_delivery_attempts db' = t_delivery_attempts db @
       (if rec then [\<lparr>da_id = attempt_id_of th (dl_id d) no, da_delivery = dl_id d, da_no = no, da_started = now,
          da_finished = now, da_code = code, da_error = error\<rparr>] else [])"
    "t_sinks db' = t_sinks db" "t_items db' = t_items db"
proof -
  have own: "check_delivery_lease db d now = None" and st: "status \<in> {DDelivered, DFailed, DDeadLettered}"
    using assms by (auto simp: finalize_delivery_def split: if_splits option.splits)
  then obtain row where row: "tbl_get dl_id (dl_id d) (t_deliveries db) = Some row" "delivery_owned row (dl_lease_token d) now"
    by (auto simp: check_delivery_lease_iff)
  obtain db1 where db1: "(if rec then record_delivery_attempt th db (dl_id d) code error None now else Inr db) = Inr db1"
    and db': "db' = db1\<lparr>t_deliveries := tbl_upd dl_id (dl_id d)
                        (\<lambda>r. r\<lparr>dl_status := status, dl_last_error := error, dl_next_attempt := next_at,
                               dl_lease_until := None, dl_lease_token := None, dl_updated := now\<rparr>)
                        (t_deliveries db1)\<rparr>"
    using assms own st by (auto simp: finalize_delivery_def split: sum.splits)
  show ?thesis
  proof (cases rec)
    case False
    with db1 have "db1 = db" by simp
    then show ?thesis
      by (intro that [OF row st refl]) (simp_all add: False db' tbl_upd_def)
  next
    case True
    show ?thesis
      by (intro that [OF row st refl])
        (use db1 row in \<open>auto simp: True db' record_delivery_attempt_def Let_def tbl_upd_def split: if_splits\<close>)
  qed
qed

subsection \<open>The outbox machine\<close>

text \<open>
  The state is the store and the claimed views handed out, newest first; a lease token is
  fresh (\<open>uuid4\<close> in the code), so a claim that would reuse one is no event. A view can
  be dispatched at any later time, any number of times, as a whole (\<open>DlDispatch\<close>) or in its
  transactions: \<open>DlStop\<close> is the dead letter of a plan made earlier and \<open>DlSettle\<close> the outcome of
  a request sent earlier, so that anything may happen between the two.
\<close>

record outbox =
  ob_db :: db
  ob_issued :: "delivery_row list"

datatype delivery_event =
    DlEnqueue string string string "string option" ts
  | DlClaim nat int "string \<Rightarrow> string" ts
  | DlDispatch nat "string \<Rightarrow> post_result" ts
  | DlStop nat string ts
  | DlSettle nat post_result ts
  | DlRedeliver string "audit_args option" string ts
  | DlDeleteSink string

definition fresh_tokens :: "outbox \<Rightarrow> (string \<Rightarrow> string) \<Rightarrow> bool" where
  "fresh_tokens ob tok \<longleftrightarrow>
     distinct (map (\<lambda>d. tok (dl_id d)) (t_deliveries (ob_db ob))) \<and>
     (\<forall>d \<in> set (t_deliveries (ob_db ob)). \<forall>v \<in> set (ob_issued ob). dl_lease_token v \<noteq> Some (tok (dl_id d)))"

definition outbox_step :: "(string \<Rightarrow> string) \<Rightarrow> hasher \<Rightarrow> outbox \<Rightarrow> delivery_event \<Rightarrow> outbox" where
  "outbox_step th ph ob ev =
     (case ev of
        DlEnqueue cid sink item v now \<Rightarrow>
          (case enqueue_delivery th (ob_db ob) cid sink item v now of Inl _ \<Rightarrow> ob | Inr (d, _) \<Rightarrow> ob\<lparr>ob_db := d\<rparr>)
      | DlClaim limit lease tok now \<Rightarrow>
          if \<not> fresh_tokens ob tok then ob
          else (case claim_due_deliveries (ob_db ob) limit lease tok now of
                  Inl _ \<Rightarrow> ob
                | Inr (d, views) \<Rightarrow> ob\<lparr>ob_db := d, ob_issued := rev views @ ob_issued ob\<rparr>)
      | DlDispatch n post now \<Rightarrow>
          if n < length (ob_issued ob)
          then ob\<lparr>ob_db := fst (process_delivery th post (ob_db ob) (ob_issued ob ! n) now)\<rparr> else ob
      | DlStop n reason now \<Rightarrow>
          if n < length (ob_issued ob)
          then ob\<lparr>ob_db := fst (caught th (ob_db ob) (ob_issued ob ! n) now
                 (stop_delivery th (ob_db ob) (ob_issued ob ! n) reason now))\<rparr> else ob
      | DlSettle n result now \<Rightarrow>
          if n < length (ob_issued ob)
          then ob\<lparr>ob_db := fst (caught th (ob_db ob) (ob_issued ob ! n) now
                 (settle_delivery th (ob_db ob) (ob_issued ob ! n) result now))\<rparr> else ob
      | DlRedeliver did audit i now \<Rightarrow>
          (case redeliver_delivery ph (ob_db ob) did audit i now of Inl _ \<Rightarrow> ob | Inr d \<Rightarrow> ob\<lparr>ob_db := d\<rparr>)
      | DlDeleteSink sid \<Rightarrow>
          (case delete_sink (ob_db ob) sid of Inl _ \<Rightarrow> ob | Inr d \<Rightarrow> ob\<lparr>ob_db := d\<rparr>))"

text \<open>
  The rows: unique ids and unique pairs of item and sink version; a pending row starts a
  cycle, a failed row has retries left, and both know when they are due.
\<close>

definition row_ok :: "delivery_row \<Rightarrow> bool" where
  "row_ok d \<longleftrightarrow>
     (dl_status d = DPending \<longrightarrow> dl_cycle d = 0 \<and> dl_next_attempt d \<noteq> None) \<and>
     (dl_status d = DFailed \<longrightarrow> dl_cycle d < max_delivery_attempts \<and> dl_next_attempt d \<noteq> None)"

definition attempts_gapless :: "db \<Rightarrow> bool" where
  "attempts_gapless db \<longleftrightarrow>
     (\<forall>d \<in> set (t_deliveries db).
        map da_no (filter (\<lambda>a. da_delivery a = dl_id d) (t_delivery_attempts db)) = [1..<dl_attempt_count d + 1]) \<and>
     (\<forall>a \<in> set (t_delivery_attempts db). da_delivery a \<in> dl_id ` set (t_deliveries db))"

text \<open>A row that carries a lease token is the newest claim of it, with its cycle.\<close>

definition newest_view :: "delivery_row list \<Rightarrow> delivery_row \<Rightarrow> bool" where
  "newest_view issued d \<longleftrightarrow>
     (\<forall>t. dl_lease_token d = Some t \<longrightarrow>
        (\<exists>v. tbl_get dl_id (dl_id d) issued = Some v \<and> dl_lease_token v = Some t \<and> dl_cycle v = dl_cycle d))"

definition outbox_inv :: "outbox \<Rightarrow> bool" where
  "outbox_inv ob \<longleftrightarrow>
     distinct (map dl_id (t_deliveries (ob_db ob))) \<and>
     distinct (map (\<lambda>d. (dl_item d, dl_sink_version d)) (t_deliveries (ob_db ob))) \<and>
     (\<forall>d \<in> set (t_deliveries (ob_db ob)). row_ok d \<and> newest_view (ob_issued ob) d) \<and>
     attempts_gapless (ob_db ob) \<and>
     distinct (map dl_lease_token (ob_issued ob)) \<and> (\<forall>v \<in> set (ob_issued ob). dl_lease_token v \<noteq> None)"

lemma outbox_invD:
  assumes "outbox_inv ob"
  shows "distinct (map dl_id (t_deliveries (ob_db ob)))"
    "distinct (map (\<lambda>d. (dl_item d, dl_sink_version d)) (t_deliveries (ob_db ob)))"
    "\<And>d. d \<in> set (t_deliveries (ob_db ob)) \<Longrightarrow> row_ok d"
    "\<And>d. d \<in> set (t_deliveries (ob_db ob)) \<Longrightarrow> newest_view (ob_issued ob) d"
    "attempts_gapless (ob_db ob)" "distinct (map dl_lease_token (ob_issued ob))"
    "\<And>v. v \<in> set (ob_issued ob) \<Longrightarrow> dl_lease_token v \<noteq> None"
  using assms by (simp_all add: outbox_inv_def)

lemma outbox_inv_db:
  assumes "outbox_inv ob" and "t_deliveries db = t_deliveries (ob_db ob)" and "t_delivery_attempts db = t_delivery_attempts (ob_db ob)"
  shows "outbox_inv (ob\<lparr>ob_db := db\<rparr>)"
  using assms by (simp add: outbox_inv_def attempts_gapless_def)

lemma enqueue_inv:
  assumes inv: "outbox_inv ob" and run: "enqueue_delivery th (ob_db ob) cid sink item v now = Inr (db', r)"
  shows "outbox_inv (ob\<lparr>ob_db := db'\<rparr>)"
proof -
  let ?db = "ob_db ob"
  obtain w where r: "db' = (if tbl_get dl_id (dl_id (new_delivery th cid sink item w now)) (t_deliveries ?db) \<noteq> None \<or> find_delivery ?db item w \<noteq> None
      then ?db else ?db\<lparr>t_deliveries := t_deliveries ?db @ [new_delivery th cid sink item w now]\<rparr>)"
    using run by (auto simp: enqueue_delivery_def Let_def split: sum.splits option.splits)
  define row where "row = new_delivery th cid sink item w now"
  show ?thesis
  proof (cases "tbl_get dl_id (dl_id row) (t_deliveries ?db) \<noteq> None \<or> find_delivery ?db item w \<noteq> None")
    case True
    then have "db' = ?db" using r by (simp add: row_def)
    with inv show ?thesis by simp
  next
    case False
    note i = outbox_invD [OF inv]
    have db': "db' = ?db\<lparr>t_deliveries := t_deliveries ?db @ [row]\<rparr>" using False r by (simp add: row_def)
    have newid: "dl_id row \<notin> dl_id ` set (t_deliveries ?db)" using False by (auto simp: tbl_get_None_iff)
    have pair: "(dl_item row, dl_sink_version row) \<notin> (\<lambda>d. (dl_item d, dl_sink_version d)) ` set (t_deliveries ?db)"
      using False by (auto simp: find_delivery_def find_None_iff row_def new_delivery_def)
    have ok: "row_ok row" "dl_lease_token row = None" "dl_attempt_count row = 0"
      by (simp_all add: row_def new_delivery_def row_ok_def)
    have none: "filter (\<lambda>a. da_delivery a = dl_id row) (t_delivery_attempts ?db) = []"
    proof -
      have "\<forall>a \<in> set (t_delivery_attempts ?db). da_delivery a \<in> dl_id ` set (t_deliveries ?db)"
        using i(5) unfolding attempts_gapless_def by blast
      with newid show ?thesis unfolding filter_empty_conv by metis
    qed
    have "attempts_gapless db'"
      using i(5) ok none by (auto simp: attempts_gapless_def db')
    then show ?thesis
      using i newid pair ok by (simp add: outbox_inv_def db' newest_view_def)
  qed
qed

lemma claim_inv:
  assumes inv: "outbox_inv ob" and fresh: "fresh_tokens ob tok"
    and run: "claim_due_deliveries (ob_db ob) limit lease tok now = Inr (db', views)"
  shows "outbox_inv (ob\<lparr>ob_db := db', ob_issued := rev views @ ob_issued ob\<rparr>)"
proof -
  note i = outbox_invD [OF inv]
  let ?g = "\<lambda>d. grant_delivery d (lease, tok (dl_id d)) now"
  obtain rows where rows: "distinct (map dl_id rows)" "set rows \<subseteq> {d \<in> set (t_deliveries (ob_db ob)). delivery_due d now}"
    "views = map ?g rows"
    and db': "db' = (ob_db ob)\<lparr>t_deliveries := map (\<lambda>x. if dl_id x \<in> dl_id ` set rows then ?g x else x) (t_deliveries (ob_db ob))\<rparr>"
    by (rule claim_due_cases [OF run i(1)]) (rule that; assumption)
  define f where "f = (\<lambda>x. if dl_id x \<in> dl_id ` set rows then ?g x else x)"
  have f: "dl_id (f x) = dl_id x" "dl_item (f x) = dl_item x" "dl_sink_version (f x) = dl_sink_version x"
      "dl_attempt_count (f x) = dl_attempt_count x" for x
    by (simp_all add: f_def grant_delivery_def)
  have ds: "t_deliveries db' = map f (t_deliveries (ob_db ob))" by (simp add: db' f_def)
  have as: "t_delivery_attempts db' = t_delivery_attempts (ob_db ob)" by (simp add: db')
  have vid: "map dl_id views = map dl_id rows" "map dl_lease_token views = map (\<lambda>d. Some (tok (dl_id d))) rows"
    by (simp_all add: rows(3) grant_delivery_def)
  have sub: "set rows \<subseteq> set (t_deliveries (ob_db ob))" using rows(2) by blast
  have same: "r = x" if "r \<in> set rows" "x \<in> set (t_deliveries (ob_db ob))" "dl_id r = dl_id x" for r x
    using tbl_get_unique [OF i(1), of r] tbl_get_unique [OF i(1), of x] that sub by auto
  have row: "row_ok (f x) \<and> newest_view (rev views @ ob_issued ob) (f x)" if x: "x \<in> set (t_deliveries (ob_db ob))" for x
  proof (cases "dl_id x \<in> dl_id ` set rows")
    case False
    then have fx: "f x = x" by (simp add: f_def)
    have "dl_id x \<notin> dl_id ` set views" using False vid(1) by (metis list.set_map)
    then have "tbl_get dl_id (dl_id x) (rev views) = None"
      unfolding tbl_get_None_iff set_rev by (metis imageI)
    then show ?thesis using i(3,4) [OF x] by (simp add: fx newest_view_def tbl_get_append)
  next
    case True
    then obtain r where r: "r \<in> set rows" "dl_id r = dl_id x" by auto
    then have rx: "r = x" using same x by blast
    have fx: "f x = ?g x" using True by (simp add: f_def)
    have gin: "?g x \<in> set (rev views)" using r rx by (auto simp: rows(3))
    have dv: "distinct (map dl_id (rev views))" using rows(1) vid(1) by (simp add: rev_map [symmetric])
    have "tbl_get dl_id (dl_id x) (rev views) = Some (?g x)"
      using tbl_get_unique [OF dv gin] by (simp add: grant_delivery_def)
    then show ?thesis
      by (simp add: fx newest_view_def tbl_get_append row_ok_def) (simp add: grant_delivery_def)
  qed
  have gap: "attempts_gapless db'"
    using i(5) f by (simp add: attempts_gapless_def ds as image_image)
  have "distinct (map (\<lambda>d. Some (tok (dl_id d))) rows)"
  proof -
    have "inj_on (\<lambda>d. tok (dl_id d)) (set rows)"
      using fresh sub by (auto simp: fresh_tokens_def distinct_map intro: inj_on_subset)
    moreover have "distinct rows" using rows(1) by (simp add: distinct_map)
    ultimately show ?thesis by (auto simp: distinct_map inj_on_def)
  qed
  moreover have "set (map (\<lambda>d. Some (tok (dl_id d))) rows) \<inter> set (map dl_lease_token (ob_issued ob)) = {}"
    using fresh sub by (fastforce simp: fresh_tokens_def)
  ultimately have toks: "distinct (map dl_lease_token (rev views @ ob_issued ob))"
    using i(6) vid(2) by (simp add: rev_map [symmetric])
  have some: "\<forall>v \<in> set (rev views @ ob_issued ob). dl_lease_token v \<noteq> None"
    using i(7) by (auto simp: rows(3) grant_delivery_def)
  have "distinct (map dl_id (t_deliveries db'))" "distinct (map (\<lambda>d. (dl_item d, dl_sink_version d)) (t_deliveries db'))"
    using i(1,2) f by (simp_all add: ds comp_def)
  then show ?thesis
    using row gap toks some by (simp add: outbox_inv_def ds)
qed

lemma finalize_inv:
  assumes inv: "outbox_inv ob" and v: "v \<in> set (ob_issued ob)"
    and run: "finalize_delivery th (ob_db ob) v status code error next_at rec now = Inr db'"
    and failed: "status = DFailed \<longrightarrow> dl_cycle v < max_delivery_attempts \<and> next_at \<noteq> None"
  shows "outbox_inv (ob\<lparr>ob_db := db'\<rparr>)"
proof -
  note i = outbox_invD [OF inv]
  obtain row no where row: "tbl_get dl_id (dl_id v) (t_deliveries (ob_db ob)) = Some row" "delivery_owned row (dl_lease_token v) now"
    and st: "status \<in> {DDelivered, DFailed, DDeadLettered}" and no: "no = dl_attempt_count row + (if rec then 1 else 0)"
    and ds: "t_deliveries db' = tbl_upd dl_id (dl_id v)
       (\<lambda>r. r\<lparr>dl_attempt_count := (if rec then no else dl_attempt_count r),
              dl_last_code := (if rec then code else dl_last_code r), dl_last_error := error,
              dl_status := status, dl_next_attempt := next_at,
              dl_lease_until := None, dl_lease_token := None, dl_updated := now\<rparr>) (t_deliveries (ob_db ob))"
    and as: "t_delivery_attempts db' = t_delivery_attempts (ob_db ob) @
       (if rec then [\<lparr>da_id = attempt_id_of th (dl_id v) no, da_delivery = dl_id v, da_no = no, da_started = now,
          da_finished = now, da_code = code, da_error = error\<rparr>] else [])"
    by (rule finalize_delivery_cases [OF run]) (rule that; assumption)
  define f :: "delivery_row \<Rightarrow> delivery_row" where "f = (\<lambda>r. r\<lparr>dl_attempt_count := (if rec then no else dl_attempt_count r),
              dl_last_code := (if rec then code else dl_last_code r), dl_last_error := error,
              dl_status := status, dl_next_attempt := next_at,
              dl_lease_until := None, dl_lease_token := None, dl_updated := now\<rparr>)"
  have f: "dl_id (f x) = dl_id x" "dl_item (f x) = dl_item x" "dl_sink_version (f x) = dl_sink_version x"
      "dl_cycle (f x) = dl_cycle x" "dl_status (f x) = status" "dl_lease_token (f x) = None" "dl_next_attempt (f x) = next_at"
      "dl_attempt_count (f x) = (if rec then no else dl_attempt_count x)" for x
    by (simp_all add: f_def)
  define g where "g = (\<lambda>r. if dl_id r = dl_id v then f r else r)"
  have g: "dl_id (g x) = dl_id x" "dl_item (g x) = dl_item x" "dl_sink_version (g x) = dl_sink_version x" for x
    by (simp_all add: g_def f)
  have ds': "t_deliveries db' = map g (t_deliveries (ob_db ob))" by (simp add: ds tbl_upd_def g_def f_def)
  have rowin: "row \<in> set (t_deliveries (ob_db ob))" "dl_id row = dl_id v" using tbl_get_SomeD [OF row(1)] by auto
  have only: "x = row" if "x \<in> set (t_deliveries (ob_db ob))" "dl_id x = dl_id v" for x
    using tbl_get_unique [OF i(1) that(1)] that(2) row(1) by simp
  have cycle: "dl_cycle row = dl_cycle v"
  proof -
    have "dl_lease_token row = dl_lease_token v" "dl_lease_token v \<noteq> None"
      using row(2) by (simp_all add: delivery_owned_def)
    then obtain t where t: "dl_lease_token row = Some t" "dl_lease_token v = Some t" by auto
    from i(4) [OF rowin(1)] t obtain w where w: "tbl_get dl_id (dl_id row) (ob_issued ob) = Some w"
      "dl_lease_token w = Some t" "dl_cycle w = dl_cycle row" by (auto simp: newest_view_def)
    have "w \<in> set (ob_issued ob)" using tbl_get_SomeD [OF w(1)] by simp
    then have "w = v"
      using i(6) v w(2) t(2) inj_onD [of dl_lease_token "set (ob_issued ob)" w v] by (simp add: distinct_map)
    with w show ?thesis by simp
  qed
  have rows: "row_ok (g x) \<and> newest_view (ob_issued ob) (g x)" if x: "x \<in> set (t_deliveries (ob_db ob))" for x
  proof (cases "dl_id x = dl_id v")
    case True
    with only x have "dl_cycle x = dl_cycle v" using cycle by simp
    moreover have "g x = f x" using True by (simp add: g_def)
    ultimately show ?thesis using st failed f by (auto simp: row_ok_def newest_view_def)
  next
    case False
    then show ?thesis using i(3,4) [OF x] by (simp add: g_def)
  qed
  have gap: "attempts_gapless db'"
    unfolding attempts_gapless_def
  proof (intro conjI ballI)
    fix d
    assume "d \<in> set (t_deliveries db')"
    then obtain x where x: "x \<in> set (t_deliveries (ob_db ob))" "d = g x" by (auto simp: ds')
    have old: "map da_no (filter (\<lambda>a. da_delivery a = dl_id x) (t_delivery_attempts (ob_db ob))) = [1..<dl_attempt_count x + 1]"
      using i(5) x(1) by (simp add: attempts_gapless_def)
    show "map da_no (filter (\<lambda>a. da_delivery a = dl_id d) (t_delivery_attempts db')) = [1..<dl_attempt_count d + 1]"
    proof (cases "dl_id x = dl_id v")
      case True
      with only x have "x = row" by simp
      then show ?thesis using True old no f by (simp add: x(2) g_def as)
    next
      case False
      then show ?thesis using old by (simp add: x(2) g_def as)
    qed
  next
    fix a
    assume "a \<in> set (t_delivery_attempts db')"
    then have "a \<in> set (t_delivery_attempts (ob_db ob)) \<or> da_delivery a = dl_id v"
      by (auto simp: as split: if_splits)
    moreover have "dl_id v \<in> dl_id ` set (t_deliveries (ob_db ob))" using rowin by (metis imageI)
    ultimately have "da_delivery a \<in> dl_id ` set (t_deliveries (ob_db ob))"
      using i(5) unfolding attempts_gapless_def by metis
    then show "da_delivery a \<in> dl_id ` set (t_deliveries db')" by (simp add: ds' image_image g)
  qed
  have "distinct (map dl_id (t_deliveries db'))" "distinct (map (\<lambda>d. (dl_item d, dl_sink_version d)) (t_deliveries db'))"
    using i(1,2) g by (simp_all add: ds' comp_def)
  then show ?thesis
    using rows gap i(6,7) by (simp add: outbox_inv_def ds')
qed

text \<open>A dispatch changes the store by at most one finalization.\<close>

lemma record_failure_finalizes:
  assumes "record_failure th db v code error now = Inr (db', out)"
  shows "\<exists>st err next_at. finalize_delivery th db v st code err next_at True now = Inr db' \<and>
           (st = DFailed \<longrightarrow> dl_cycle v < max_delivery_attempts \<and> next_at \<noteq> None)"
  using assms unfolding record_failure_def dead_letter_def by (auto simp: not_le split: if_splits)

lemma dead_letter_finalizes:
  "dead_letter th db v error code rec now = Inr (db', out) \<Longrightarrow>
   finalize_delivery th db v DDeadLettered code (Some (error_text error)) None rec now = Inr db'"
  by (simp add: dead_letter_def)

definition finalized :: "(string \<Rightarrow> string) \<Rightarrow> db \<Rightarrow> delivery_row \<Rightarrow> ts \<Rightarrow> db \<Rightarrow> bool" where
  "finalized th db v now db' \<longleftrightarrow>
     (\<exists>st code err next_at rec. finalize_delivery th db v st code err next_at rec now = Inr db' \<and>
        (st = DFailed \<longrightarrow> dl_cycle v < max_delivery_attempts \<and> next_at \<noteq> None))"

lemma finalized_failure: "record_failure th db v code error now = Inr (db', out) \<Longrightarrow> finalized th db v now db'"
  using record_failure_finalizes unfolding finalized_def by metis

lemma finalized_dead: "dead_letter th db v error code rec now = Inr (db', out) \<Longrightarrow> finalized th db v now db'"
  using dead_letter_finalizes unfolding finalized_def by (metis delivery_status.distinct(19))

lemma finalized_delivered:
  "finalize_delivery th db v DDelivered c err next_at rec now = Inr db' \<Longrightarrow> finalized th db v now db'"
  unfolding finalized_def by (intro exI [of _ DDelivered] exI conjI) (assumption, simp)

lemma of_store_Done [simp]: "of_store r = Done p \<longleftrightarrow> r = Inr p"
  by (auto simp: of_store_def split: sum.splits)

lemma stop_finalizes: "stop_delivery th db v reason now = Done (db', out) \<Longrightarrow> finalized th db v now db'"
  by (auto simp: stop_delivery_def intro: finalized_dead)

lemma settle_finalizes: "settle_delivery th db v r now = Done (db', out) \<Longrightarrow> finalized th db v now db'"
  by (auto simp: settle_delivery_def Let_def response_of_def intro: finalized_dead finalized_failure finalized_delivered
      split: if_splits post_result.splits)

lemma deliver_finalizes: "deliver th post db v now = Done (db', out) \<Longrightarrow> finalized th db v now db'"
  by (auto simp: deliver_def intro: stop_finalizes settle_finalizes split: delivery_plan.splits)

lemma caught_finalizes:
  assumes "caught th db v now r = (db', out)" and "\<And>db' out. r = Done (db', out) \<Longrightarrow> finalized th db v now db'"
  shows "db' = db \<or> finalized th db v now db'"
  using assms by (auto simp: caught_def intro: finalized_failure split: deliver_result.splits py_exc.splits sum.splits)

lemma process_finalizes: "process_delivery th post db v now = (db', out) \<Longrightarrow> db' = db \<or> finalized th db v now db'"
  unfolding process_delivery_def by (erule caught_finalizes) (rule deliver_finalizes)

lemma written_inv:
  assumes "outbox_inv ob" "v \<in> set (ob_issued ob)" "db' = ob_db ob \<or> finalized th (ob_db ob) v now db'"
  shows "outbox_inv (ob\<lparr>ob_db := db'\<rparr>)"
  using assms(3)
proof
  assume "db' = ob_db ob"
  then show ?thesis using assms(1) by simp
next
  assume "finalized th (ob_db ob) v now db'"
  then show ?thesis using finalize_inv [OF assms(1,2)] by (auto simp: finalized_def)
qed

text \<open>What one step of a dispatcher writes, as a whole dispatch or after its request.\<close>

definition dispatcher_step :: "(string \<Rightarrow> string) \<Rightarrow> db \<Rightarrow> delivery_row \<Rightarrow> delivery_event \<Rightarrow> ts \<Rightarrow> db \<Rightarrow> bool" where
  "dispatcher_step th db v ev now db' \<longleftrightarrow>
     (\<exists>n. (\<exists>post. ev = DlDispatch n post now \<and> db' = fst (process_delivery th post db v now)) \<or>
          (\<exists>reason. ev = DlStop n reason now \<and> db' = fst (caught th db v now (stop_delivery th db v reason now))) \<or>
          (\<exists>result. ev = DlSettle n result now \<and> db' = fst (caught th db v now (settle_delivery th db v result now))))"

lemma dispatcher_writes:
  assumes "dispatcher_step th db v ev now db'" shows "db' = db \<or> finalized th db v now db'"
proof -
  have one: "fst (caught th db v now r) = db \<or> finalized th db v now (fst (caught th db v now r))"
    if "\<And>db' out. r = Done (db', out) \<Longrightarrow> finalized th db v now db'" for r
    using caught_finalizes [of th db v now r] that by (metis surjective_pairing)
  from assms consider (whole) post where "db' = fst (process_delivery th post db v now)"
    | (stopped) reason where "db' = fst (caught th db v now (stop_delivery th db v reason now))"
    | (settled) result where "db' = fst (caught th db v now (settle_delivery th db v result now))"
    unfolding dispatcher_step_def by blast
  then show ?thesis
  proof cases
    case whole
    show ?thesis using one [of "deliver th post db v now"] deliver_finalizes unfolding whole process_delivery_def by metis
  next
    case stopped
    show ?thesis using one [of "stop_delivery th db v reason now"] stop_finalizes unfolding stopped by metis
  next
    case settled
    show ?thesis using one [of "settle_delivery th db v result now"] settle_finalizes unfolding settled by metis
  qed
qed

lemma redeliver_inv:
  assumes inv: "outbox_inv ob" and run: "redeliver_delivery ph (ob_db ob) did audit i now = Inr db'"
  shows "outbox_inv (ob\<lparr>ob_db := db'\<rparr>)"
proof -
  note i = outbox_invD [OF inv]
  define f :: "delivery_row \<Rightarrow> delivery_row" where
    "f = (\<lambda>r. r\<lparr>dl_status := DPending, dl_next_attempt := Some now, dl_lease_until := None,
                          dl_lease_token := None, dl_cycle := 0, dl_redeliveries := dl_redeliveries r + 1,
                          dl_updated := now\<rparr>)"
  define g where "g = (\<lambda>r. if dl_id r = did then f r else r)"
  have f: "dl_id (f x) = dl_id x" "dl_item (f x) = dl_item x" "dl_sink_version (f x) = dl_sink_version x"
      "dl_attempt_count (f x) = dl_attempt_count x" "row_ok (f x)" "newest_view is (f x)" for x "is"
    by (simp_all add: f_def row_ok_def newest_view_def)
  have g: "dl_id (g x) = dl_id x" "dl_item (g x) = dl_item x" "dl_sink_version (g x) = dl_sink_version x"
      "dl_attempt_count (g x) = dl_attempt_count x" for x
    by (simp_all add: g_def f)
  have ds: "t_deliveries db' = map g (t_deliveries (ob_db ob))" "t_delivery_attempts db' = t_delivery_attempts (ob_db ob)"
    using run by (auto simp: redeliver_delivery_def Let_def tbl_upd_def g_def f_def split: option.splits if_splits)
  have "attempts_gapless db'"
    using i(5) g by (simp add: attempts_gapless_def ds image_image)
  moreover have "distinct (map dl_id (t_deliveries db'))" "distinct (map (\<lambda>d. (dl_item d, dl_sink_version d)) (t_deliveries db'))"
    using i(1,2) g by (simp_all add: ds comp_def)
  moreover have "\<forall>d \<in> set (t_deliveries db'). row_ok d \<and> newest_view (ob_issued ob) d"
    using i(3,4) f by (auto simp: ds g_def)
  ultimately show ?thesis using i(6,7) by (simp add: outbox_inv_def)
qed

lemma outbox_step_inv:
  assumes "outbox_inv ob"
  shows "outbox_inv (outbox_step th ph ob ev)"
proof (cases ev)
  case (DlEnqueue cid sink item v now)
  then show ?thesis using assms by (auto simp: outbox_step_def dest: enqueue_inv split: sum.splits)
next
  case (DlClaim limit lease tok now)
  then show ?thesis using assms by (auto simp: outbox_step_def dest: claim_inv split: sum.splits)
next
  case (DlDispatch n post now)
  then show ?thesis using assms written_inv [OF assms _ dispatcher_writes, of "ob_issued ob ! n" th ev now]
    by (simp add: outbox_step_def dispatcher_step_def)
next
  case (DlStop n reason now)
  then show ?thesis using assms written_inv [OF assms _ dispatcher_writes, of "ob_issued ob ! n" th ev now]
    by (simp add: outbox_step_def dispatcher_step_def)
next
  case (DlSettle n result now)
  then show ?thesis using assms written_inv [OF assms _ dispatcher_writes, of "ob_issued ob ! n" th ev now]
    by (simp add: outbox_step_def dispatcher_step_def)
next
  case (DlRedeliver did audit i now)
  then show ?thesis using assms by (auto simp: outbox_step_def dest: redeliver_inv split: sum.splits)
next
  case (DlDeleteSink sid)
  have "outbox_inv (ob\<lparr>ob_db := d\<rparr>)" if "delete_sink (ob_db ob) sid = Inr d" for d
    by (rule outbox_inv_db [OF assms]) (use that in \<open>auto simp: delete_sink_def split: option.splits\<close>)
  then show ?thesis using assms DlDeleteSink by (auto simp: outbox_step_def split: sum.splits)
qed

lemma finalize_attempts_grow:
  "finalized th db v now db' \<Longrightarrow> \<exists>new. t_delivery_attempts db' = t_delivery_attempts db @ new"
  by (auto simp: finalized_def elim!: finalize_delivery_cases)

lemma outbox_step_appends:
  "\<exists>new. t_delivery_attempts (ob_db (outbox_step th ph ob ev)) = t_delivery_attempts (ob_db ob) @ new"
proof -
  have grow: "\<exists>new. t_delivery_attempts db' = t_delivery_attempts (ob_db ob) @ new"
    if "dispatcher_step th (ob_db ob) v ev now db'" for v now db'
    using dispatcher_writes [OF that] finalize_attempts_grow by auto
  show ?thesis
  proof (cases ev)
    case (DlDispatch n post now)
    then show ?thesis using grow [of "ob_issued ob ! n" now] by (simp add: outbox_step_def dispatcher_step_def)
  next
    case (DlStop n reason now)
    then show ?thesis using grow [of "ob_issued ob ! n" now] by (simp add: outbox_step_def dispatcher_step_def)
  next
    case (DlSettle n result now)
    then show ?thesis using grow [of "ob_issued ob ! n" now] by (simp add: outbox_step_def dispatcher_step_def)
  next
    case (DlClaim limit lease tok now)
    then show ?thesis
      by (auto simp: outbox_step_def claim_due_deliveries_def Let_def foldl_upd_attempts split: sum.splits if_splits)
  qed (auto simp: outbox_step_def enqueue_delivery_def redeliver_delivery_def delete_sink_def Let_def
        split: sum.splits option.splits if_splits)
qed

interpretation outbox_machine: step_machine "outbox_step th ph" outbox_inv "\<lambda>ob. int (length (t_delivery_attempts (ob_db ob)))"
  for th ph
proof
  show "outbox_inv (outbox_step th ph s e)" if "outbox_inv s" for s e by (rule outbox_step_inv [OF that])
  show "int (length (t_delivery_attempts (ob_db s))) \<le> int (length (t_delivery_attempts (ob_db (outbox_step th ph s e))))" for s e
    using outbox_step_appends [of th ph s e] by auto
qed

subsection \<open>Properties\<close>

definition outbox_start :: "db \<Rightarrow> outbox" where
  "outbox_start db = \<lparr>ob_db = db, ob_issued = []\<rparr>"

lemma outbox_start_inv: "t_deliveries db = [] \<Longrightarrow> t_delivery_attempts db = [] \<Longrightarrow> outbox_inv (outbox_start db)"
  by (simp add: outbox_inv_def outbox_start_def attempts_gapless_def)

abbreviation outbox_run :: "(string \<Rightarrow> string) \<Rightarrow> hasher \<Rightarrow> db \<Rightarrow> delivery_event list \<Rightarrow> outbox" where
  "outbox_run th ph db evs \<equiv> foldl (outbox_step th ph) (outbox_start db) evs"

lemma outbox_run_inv: "t_deliveries db = [] \<Longrightarrow> t_delivery_attempts db = [] \<Longrightarrow> outbox_inv (outbox_run th ph db evs)"
  by (intro outbox_machine.run_inv outbox_start_inv)

lemma foldl_appends:
  "\<exists>new. t_delivery_attempts (ob_db (foldl (outbox_step th ph) ob evs)) = t_delivery_attempts (ob_db ob) @ new"
proof (induction evs arbitrary: ob)
  case Nil
  then show ?case by simp
next
  case (Cons e evs)
  from outbox_step_appends [of th ph ob e] Cons.IH [of "outbox_step th ph ob e"] show ?case by auto
qed

text \<open>
  However the outbox is used, an item event is enqueued at most once per sink version,
  and a repeated enqueue returns the delivery that is there and changes nothing.
\<close>

lemma delivery_identity:
  assumes "t_deliveries db = []" and "t_delivery_attempts db = []"
    and "d \<in> set (t_deliveries (ob_db (outbox_run th ph db evs)))"
  shows "(\<forall>d' \<in> set (t_deliveries (ob_db (outbox_run th ph db evs))). dl_item d' = dl_item d \<longrightarrow>
         dl_sink_version d' = dl_sink_version d \<longrightarrow> d' = d) \<and>
    enqueue_delivery th (ob_db (outbox_run th ph db evs)) cid sink (dl_item d) (Some (dl_sink_version d)) now =
    Inr (ob_db (outbox_run th ph db evs), d)"
proof (intro conjI)
  let ?db = "ob_db (outbox_run th ph db evs)"
  note i = outbox_invD [OF outbox_run_inv [OF assms(1,2), of th ph evs]]
  have uniq: "d' = d" if "d' \<in> set (t_deliveries ?db)" "dl_item d' = dl_item d" "dl_sink_version d' = dl_sink_version d" for d'
    using i(2) that assms(3) inj_onD [of "\<lambda>d. (dl_item d, dl_sink_version d)" "set (t_deliveries ?db)" d' d]
    by (simp add: distinct_map)
  then show "\<forall>d' \<in> set (t_deliveries ?db). dl_item d' = dl_item d \<longrightarrow> dl_sink_version d' = dl_sink_version d \<longrightarrow> d' = d" by blast
  have "find_delivery ?db (dl_item d) (dl_sink_version d) = Some d"
  proof (cases "find_delivery ?db (dl_item d) (dl_sink_version d)")
    case None
    then show ?thesis using assms(3) by (auto simp: find_delivery_def find_None_iff)
  next
    case (Some x)
    then have "x = d" using find_SomeD [OF Some [unfolded find_delivery_def]] uniq by blast
    with Some show ?thesis by simp
  qed
  then show "enqueue_delivery th ?db cid sink (dl_item d) (Some (dl_sink_version d)) now = Inr (?db, d)"
    by (simp add: enqueue_delivery_def Let_def)
qed

definition example_outbox_events :: "delivery_event list" where
  "example_outbox_events = [DlEnqueue ''collector_a'' ''sink_a'' ''item_a'' (Some ''sink_a#v1'') 5]"

lemma example_outbox:
  "\<exists>d. t_deliveries (ob_db (outbox_run id (\<lambda>_. ''h'') empty_db example_outbox_events)) = [d] \<and>
     dl_item d = ''item_a'' \<and> dl_sink_version d = ''sink_a#v1'' \<and> dl_status d = DPending"
  by (simp add: example_outbox_events_def outbox_start_def outbox_step_def enqueue_delivery_def empty_db_def
      find_delivery_def new_delivery_def Let_def)

theorem delivery_identity_witness:
  "\<exists>d. t_deliveries (ob_db (outbox_run id (\<lambda>_. ''h'') empty_db example_outbox_events)) = [d] \<and>
     enqueue_delivery id (ob_db (outbox_run id (\<lambda>_. ''h'') empty_db example_outbox_events)) ''collector_a'' ''sink_a''
       ''item_a'' (Some ''sink_a#v1'') 9 = Inr (ob_db (outbox_run id (\<lambda>_. ''h'') empty_db example_outbox_events), d)"
proof -
  from example_outbox obtain d where d: "t_deliveries (ob_db (outbox_run id (\<lambda>_. ''h'') empty_db example_outbox_events)) = [d]"
    "dl_item d = ''item_a''" "dl_sink_version d = ''sink_a#v1''" by blast
  have "t_deliveries empty_db = []" "t_delivery_attempts empty_db = []" by (simp_all add: empty_db_def)
  from delivery_identity [OF this, of d id "\<lambda>_. ''h''" example_outbox_events "''collector_a''" "''sink_a''" 9] d show ?thesis
    by auto
qed

text \<open>
  The attempt history of every delivery is append-only and gapless: its attempts are
  numbered 1, 2, ... up to the delivery's attempt count in the order they were recorded,
  and later events only append.
\<close>

lemma attempt_history_append_only:
  assumes "t_deliveries db = []" and "t_delivery_attempts db = []"
  shows "(\<forall>d \<in> set (t_deliveries (ob_db (outbox_run th ph db evs))).
         map da_no (filter (\<lambda>a. da_delivery a = dl_id d) (t_delivery_attempts (ob_db (outbox_run th ph db evs)))) =
         [1..<dl_attempt_count d + 1]) \<and>
    (\<exists>new. t_delivery_attempts (ob_db (outbox_run th ph db (evs @ later))) =
           t_delivery_attempts (ob_db (outbox_run th ph db evs)) @ new)"
  using outbox_invD(5) [OF outbox_run_inv [OF assms, of th ph evs]] foldl_appends [of th ph "outbox_run th ph db evs" later]
  by (auto simp: attempts_gapless_def)

theorem attempt_history_append_only_witness:
  "\<exists>new. t_delivery_attempts (ob_db (outbox_run id (\<lambda>_. ''h'') empty_db (example_outbox_events @
       [DlClaim 5 60 id 9, DlDispatch 0 (\<lambda>_. HttpStatus 200) 10]))) =
     t_delivery_attempts (ob_db (outbox_run id (\<lambda>_. ''h'') empty_db example_outbox_events)) @ new"
  by (rule attempt_history_append_only [THEN conjunct2]) (simp_all add: empty_db_def)

text \<open>
  Retries are bounded: in every reachable state a delivery waiting for a retry has used
  fewer than five claims of its cycle and knows when it is due, and a delivery waiting
  for its first attempt has used none.
\<close>

lemma delivery_retries_bounded:
  assumes "t_deliveries db = []" and "t_delivery_attempts db = []"
    and "d \<in> set (t_deliveries (ob_db (outbox_run th ph db evs)))"
  shows "(dl_status d = DFailed \<longrightarrow> dl_cycle d < 5 \<and> dl_next_attempt d \<noteq> None) \<and>
    (dl_status d = DPending \<longrightarrow> dl_cycle d = 0 \<and> dl_next_attempt d \<noteq> None)"
  using outbox_invD(3) [OF outbox_run_inv [OF assms(1,2)] assms(3)]
  by (simp_all add: row_ok_def max_delivery_attempts_def)

theorem delivery_retries_bounded_witness:
  "\<exists>d. t_deliveries (ob_db (outbox_run id (\<lambda>_. ''h'') empty_db example_outbox_events)) = [d] \<and>
     dl_cycle d = 0 \<and> dl_next_attempt d \<noteq> None"
proof -
  from example_outbox obtain d where d: "t_deliveries (ob_db (outbox_run id (\<lambda>_. ''h'') empty_db example_outbox_events)) = [d]"
    "dl_status d = DPending" by blast
  have e: "t_deliveries empty_db = []" "t_delivery_attempts empty_db = []" by (simp_all add: empty_db_def)
  have "d \<in> set (t_deliveries (ob_db (outbox_run id (\<lambda>_. ''h'') empty_db example_outbox_events)))" using d by simp
  from delivery_retries_bounded [OF e this] d show ?thesis by blast
qed

lemma lost_lease_powerless:
  assumes "check_delivery_lease db v now = Some JobLeaseLost"
  shows "process_delivery th post db v now = (db, OutError)"
    "caught th db v now (stop_delivery th db v reason now) = (db, OutError)"
    "caught th db v now (settle_delivery th db v result now) = (db, OutError)"
proof -
  have fin: "finalize_delivery th db v st code e nx rec now = Inl JobLeaseLost" if "st \<in> {DDelivered, DFailed, DDeadLettered}" for st code e nx rec
    using assms that by (auto simp: finalize_delivery_def)
  have dead: "dead_letter th db v e code rec now = Inl JobLeaseLost" for e code rec
    by (simp add: dead_letter_def fin)
  have fail: "record_failure th db v code e now = Inl JobLeaseLost" for code e
    by (simp add: record_failure_def dead fin)
  show "process_delivery th post db v now = (db, OutError)"
    using assms by (simp add: process_delivery_def caught_def deliver_def plan_delivery_def)
  show "caught th db v now (stop_delivery th db v reason now) = (db, OutError)"
    by (simp add: caught_def stop_delivery_def of_store_def dead)
  show "caught th db v now (settle_delivery th db v result now) = (db, OutError)"
    by (cases result) (simp_all add: caught_def settle_delivery_def of_store_def response_of_def dead fail fin)
qed

text \<open>
  C21. A dispatcher whose lease was taken over is powerless, at whatever point of its dispatch that
  happened: over any interleaving of claims, requests and outcomes, a view of a delivery that has
  been claimed again since writes nothing, neither with a whole dispatch, nor with the dead letter
  it had decided on, nor with the outcome of the request it had already sent, whatever that returned.
\<close>

theorem stale_dispatcher_powerless:
  assumes "t_deliveries db = []" and "t_delivery_attempts db = []"
    and "n < length (ob_issued (outbox_run th ph db evs))" and "m < n"
    and "dl_id (ob_issued (outbox_run th ph db evs) ! m) = dl_id (ob_issued (outbox_run th ph db evs) ! n)"
    and "D = ob_db (outbox_run th ph db evs)" and "v = ob_issued (outbox_run th ph db evs) ! n"
  shows "process_delivery th post D v now = (D, OutError) \<and>
         caught th D v now (stop_delivery th D v reason now) = (D, OutError) \<and>
         caught th D v now (settle_delivery th D v result now) = (D, OutError)"
proof -
  define ob where "ob = outbox_run th ph db evs"
  note i = outbox_invD [OF outbox_run_inv [OF assms(1,2), of th ph evs], folded ob_def]
  have n: "n < length (ob_issued ob)" and id: "dl_id (ob_issued ob ! m) = dl_id v" and v: "v = ob_issued ob ! n"
    using assms(3,5,7) by (simp_all add: ob_def)
  have "check_delivery_lease (ob_db ob) v now \<noteq> None"
  proof
    assume "check_delivery_lease (ob_db ob) v now = None"
    then obtain row where row: "tbl_get dl_id (dl_id v) (t_deliveries (ob_db ob)) = Some row"
      "delivery_owned row (dl_lease_token v) now" by (auto simp: check_delivery_lease_iff)
    have rowin: "row \<in> set (t_deliveries (ob_db ob))" "dl_id row = dl_id v" using tbl_get_SomeD [OF row(1)] by auto
    from row(2) obtain t where t: "dl_lease_token row = Some t" "dl_lease_token v = Some t"
      by (auto simp: delivery_owned_def)
    from i(4) [OF rowin(1)] t rowin obtain w where w: "tbl_get dl_id (dl_id v) (ob_issued ob) = Some w"
      "dl_lease_token w = Some t" by (auto simp: newest_view_def)
    obtain k where k: "k < length (ob_issued ob)" "ob_issued ob ! k = w" "\<forall>j < k. dl_id (ob_issued ob ! j) \<noteq> dl_id v"
      using w(1) unfolding tbl_get_def find_Some_iff by auto
    have "map dl_lease_token (ob_issued ob) ! k = map dl_lease_token (ob_issued ob) ! n"
      using k(1,2) n w(2) t(2) by (simp add: v)
    with nth_eq_iff_index_eq [OF i(6), of k n] k(1) n have "k = n" by simp
    with k(3) id assms(4) show False by blast
  qed
  then have "check_delivery_lease D v now = Some JobLeaseLost"
    using check_delivery_lease_error by (metis assms(6) not_None_eq ob_def)
  then show ?thesis using lost_lease_powerless by blast
qed

definition example_sink :: sink_row where
  "example_sink = \<lparr>snk_id = ''sink_a'', snk_collector = ''collector_a'', snk_type = ''webhook'', snk_url = ''https://hook.test/'',
     snk_secret = None, snk_enabled = True, snk_version = 1, snk_created = 0, snk_updated = 0\<rparr>"

definition two_claims :: "delivery_event list" where
  "two_claims = [DlEnqueue ''collector_a'' ''sink_a'' ''test_a'' None 5, DlClaim 5 60 (\<lambda>_. ''t1'') 9,
     DlClaim 5 60 (\<lambda>_. ''t2'') 90000000]"

lemma two_claims_issued:
  "\<exists>w v. ob_issued (outbox_run id (\<lambda>_. ''h'') (empty_db\<lparr>t_sinks := [example_sink]\<rparr>) two_claims) = [w, v] \<and> dl_id w = dl_id v"
  by (simp add: two_claims_def outbox_start_def outbox_step_def enqueue_delivery_def empty_db_def find_delivery_def
      new_delivery_def Let_def example_sink_def claim_due_deliveries_def due_deliveries_def delivery_due_def
      grant_delivery_def fresh_tokens_def tle_def tlt_def iso_key_def tbl_upd_def)

theorem stale_dispatcher_powerless_witness:
  "\<exists>v D. v = ob_issued (outbox_run id (\<lambda>_. ''h'') (empty_db\<lparr>t_sinks := [example_sink]\<rparr>) two_claims) ! 1 \<and>
     D = ob_db (outbox_run id (\<lambda>_. ''h'') (empty_db\<lparr>t_sinks := [example_sink]\<rparr>) two_claims) \<and>
     caught id D v 90000001 (settle_delivery id D v (HttpStatus 200) 90000001) = (D, OutError)"
proof -
  let ?ob = "outbox_run id (\<lambda>_. ''h'') (empty_db\<lparr>t_sinks := [example_sink]\<rparr>) two_claims"
  have e: "t_deliveries (empty_db\<lparr>t_sinks := [example_sink]\<rparr>) = []" "t_delivery_attempts (empty_db\<lparr>t_sinks := [example_sink]\<rparr>) = []"
    by (simp_all add: empty_db_def)
  have n: "1 < length (ob_issued ?ob)" and same: "dl_id (ob_issued ?ob ! 0) = dl_id (ob_issued ?ob ! 1)"
    using two_claims_issued by auto
  show ?thesis
    by (intro exI conjI, rule refl, rule refl)
       (rule conjunct2 [OF conjunct2 [OF stale_dispatcher_powerless [OF e n zero_less_one same refl refl]]])
qed

text \<open>
  A settled delivery stays settled: a delivered or dead-lettered row is changed only by
  a manual redelivery of it.
\<close>

lemma settled_delivery_final:
  assumes "outbox_inv ob" and "tbl_get dl_id did (t_deliveries (ob_db ob)) = Some d"
    and "dl_status d \<in> {DDelivered, DDeadLettered}" and "\<forall>audit i now. ev \<noteq> DlRedeliver did audit i now"
  shows "tbl_get dl_id did (t_deliveries (ob_db (outbox_step th ph ob ev))) = Some d"
proof -
  note i = outbox_invD [OF assms(1)]
  have d: "d \<in> set (t_deliveries (ob_db ob))" "dl_id d = did" using tbl_get_SomeD [OF assms(2)] by auto
  have kept: "tbl_get dl_id did (t_deliveries db') = Some d" if "dispatcher_step th (ob_db ob) v ev now db'" for v now db'
    using dispatcher_writes [OF that]
  proof
    assume "finalized th (ob_db ob) v now db'"
    then obtain row f where row: "tbl_get dl_id (dl_id v) (t_deliveries (ob_db ob)) = Some row" "dl_status row = DDelivering"
      and ds: "t_deliveries db' = tbl_upd dl_id (dl_id v) f (t_deliveries (ob_db ob))" "\<And>x. dl_id (f x) = dl_id x"
      by (auto simp: finalized_def delivery_owned_def elim!: finalize_delivery_cases)
    have "did \<noteq> dl_id v" using row assms(2,3) by auto
    then show ?thesis using assms(2) by (simp add: ds(1) tbl_get_upd [of dl_id f, OF ds(2)])
  qed (simp add: assms(2))
  show ?thesis
  proof (cases ev)
    case (DlEnqueue cid sink item v now)
    then show ?thesis using assms(2)
      by (auto simp: outbox_step_def enqueue_delivery_def Let_def tbl_get_append split: sum.splits option.splits if_splits)
  next
    case (DlClaim limit lease tok now)
    have "tbl_get dl_id did (t_deliveries db') = Some d" if run: "claim_due_deliveries (ob_db ob) limit lease tok now = Inr (db', views)" for db' views
    proof -
      obtain rows where rows: "set rows \<subseteq> {d \<in> set (t_deliveries (ob_db ob)). delivery_due d now}"
        and db': "db' = (ob_db ob)\<lparr>t_deliveries := map (\<lambda>x. if dl_id x \<in> dl_id ` set rows then grant_delivery x (lease, tok (dl_id x)) now else x) (t_deliveries (ob_db ob))\<rparr>"
        by (rule claim_due_cases [OF run i(1)]) (rule that; assumption)
      have notin: "did \<notin> dl_id ` set rows"
      proof
        assume "did \<in> dl_id ` set rows"
        then obtain r where r: "r \<in> set rows" "dl_id r = did" by auto
        with rows have "r \<in> set (t_deliveries (ob_db ob))" "delivery_due r now" by auto
        moreover from this r(2) assms(2) have "r = d" using tbl_get_unique [OF i(1), of r] by simp
        ultimately show False using assms(3) by (auto simp: delivery_due_def)
      qed
      define f where "f = (\<lambda>x. if dl_id x \<in> dl_id ` set rows then grant_delivery x (lease, tok (dl_id x)) now else x)"
      have "dl_id (f x) = dl_id x" for x by (simp add: f_def grant_delivery_def)
      then have dist: "distinct (map dl_id (map f (t_deliveries (ob_db ob))))" using i(1) by (simp add: comp_def)
      have "f d = d" using notin d(2) by (simp add: f_def)
      then have "d \<in> set (map f (t_deliveries (ob_db ob)))" using d(1) by force
      from tbl_get_unique [OF dist this] show ?thesis using d(2) by (simp add: db' f_def)
    qed
    then show ?thesis using assms(2) DlClaim by (auto simp: outbox_step_def split: sum.splits)
  next
    case (DlDispatch n post now)
    then show ?thesis using kept [of "ob_issued ob ! n" now] assms(2) by (simp add: outbox_step_def dispatcher_step_def)
  next
    case (DlStop n reason now)
    then show ?thesis using kept [of "ob_issued ob ! n" now] assms(2) by (simp add: outbox_step_def dispatcher_step_def)
  next
    case (DlSettle n result now)
    then show ?thesis using kept [of "ob_issued ob ! n" now] assms(2) by (simp add: outbox_step_def dispatcher_step_def)
  next
    case (DlRedeliver did' audit i now)
    then have "did' \<noteq> did" using assms(4) by blast
    then show ?thesis using assms(2) DlRedeliver
      by (auto simp: outbox_step_def redeliver_delivery_def Let_def tbl_get_upd split: sum.splits option.splits if_splits)
  next
    case (DlDeleteSink sid)
    then show ?thesis using assms(2) by (auto simp: outbox_step_def delete_sink_def split: sum.splits option.splits)
  qed
qed

theorem settled_delivery_final_witness:
  "tbl_get dl_id ''d1'' (t_deliveries (ob_db (outbox_step id (\<lambda>_. ''h'')
      (outbox_start (empty_db\<lparr>t_deliveries := [(new_delivery id ''c'' ''s'' ''i'' ''v'' 3)\<lparr>dl_id := ''d1'', dl_status := DDelivered\<rparr>]\<rparr>))
      (DlClaim 5 60 id 9)))) =
   Some ((new_delivery id ''c'' ''s'' ''i'' ''v'' 3)\<lparr>dl_id := ''d1'', dl_status := DDelivered\<rparr>)"
proof (rule settled_delivery_final)
  show "outbox_inv (outbox_start (empty_db\<lparr>t_deliveries := [(new_delivery id ''c'' ''s'' ''i'' ''v'' 3)\<lparr>dl_id := ''d1'', dl_status := DDelivered\<rparr>]\<rparr>))"
    by (simp add: outbox_inv_def outbox_start_def empty_db_def new_delivery_def attempts_gapless_def row_ok_def newest_view_def)
qed (simp_all add: outbox_start_def empty_db_def new_delivery_def)

subsection \<open>The outcome of one dispatch\<close>






end
