(* ===== verification/Policies.thy ===== *)
theory Policies
  imports Collectors Texts
begin

text \<open>
  The collection policies of a source and its checkpoint
  (\<open>Store.validate_collection_policy\<close>, \<open>create_collection_policy\<close>,
  \<open>ensure_collection_policy\<close>, \<open>get_checkpoint\<close>, \<open>_write_checkpoint\<close>). A policy is
  immutable: changing it inserts the next version and makes it the active one.
\<close>

definition default_policy :: policy_values where
  "default_policy =
     \<lparr>pv_mode = ''rolling_incremental'', pv_initial_window_days = 30, pv_lookback_days = 3,
      pv_consecutive_older_pages = 2, pv_max_pages = 20, pv_max_items = 300,
      pv_timezone = ''Asia/Shanghai'', pv_checkpoint_mode = None\<rparr>"

definition policy_error :: "string \<Rightarrow> py_exc" where
  "policy_error key = ValueErr (''collection policy '' @ key @ '' is out of range'')"

text \<open>The loop over the ranges, in the order of the dict.\<close>

fun check_ranges :: "(string \<times> int \<times> int \<times> int) list \<Rightarrow> py_exc option" where
  "check_ranges [] = None"
| "check_ranges ((key, v, lo, hi) # rest) = (if lo \<le> v \<and> v \<le> hi then check_ranges rest else Some (policy_error key))"

definition policy_ranges :: "policy_values \<Rightarrow> (string \<times> int \<times> int \<times> int) list" where
  "policy_ranges v =
     [(''initialWindowDays'', pv_initial_window_days v, 1, 3650),
      (''lookbackDays'', pv_lookback_days v, 0, 90),
      (''consecutiveOlderPages'', pv_consecutive_older_pages v, 1, 10),
      (''maxPages'', pv_max_pages v, 1, 1000),
      (''maxItems'', pv_max_items v, 1, 100000)]"

definition validate_collection_policy :: "policy_values \<Rightarrow> py_exc option" where
  "validate_collection_policy v =
     (if pv_mode v \<noteq> ''rolling_incremental'' \<or> pv_timezone v \<noteq> ''Asia/Shanghai'' \<or>
         (case pv_checkpoint_mode v of None \<Rightarrow> False | Some m \<Rightarrow> m \<notin> {''accepted_only'', ''observed''})
      then Some (ValueErr ''collection policy fields are invalid'')
      else check_ranges (policy_ranges v))"

text \<open>The document the digest is taken of: the policy without its digest.\<close>

definition policy_values_json :: "policy_values \<Rightarrow> (string \<times> json) list" where
  "policy_values_json v =
     [(''mode'', JStr (pv_mode v)), (''initialWindowDays'', JNum (pv_initial_window_days v)),
      (''lookbackDays'', JNum (pv_lookback_days v)), (''consecutiveOlderPages'', JNum (pv_consecutive_older_pages v)),
      (''maxPages'', JNum (pv_max_pages v)), (''maxItems'', JNum (pv_max_items v)),
      (''timezone'', JStr (pv_timezone v))] @
     (case pv_checkpoint_mode v of None \<Rightarrow> [] | Some m \<Rightarrow> [(''checkpointMode'', JStr m)])"

definition policy_body_json :: "string \<Rightarrow> string \<Rightarrow> nat \<Rightarrow> policy_values \<Rightarrow> ts \<Rightarrow> (string \<times> json) list" where
  "policy_body_json pid cid version v now =
     [(''id'', JStr pid), (''collectorId'', JStr cid), (''version'', JNum (int version))] @ policy_values_json v @
     [(''createdAt'', JNum now)]"

definition policy_json :: "policy \<Rightarrow> json" where
  "policy_json p = JObj (policy_body_json (pol_id p) (pol_collector p) (pol_version p) (pol_values p) (pol_created p) @
     [(''digest'', JStr (pol_digest p))])"

definition collector_suffix :: "string \<Rightarrow> string" where
  "collector_suffix cid = remove_prefix ''collector_'' cid"

definition last_policy_version :: "db \<Rightarrow> string \<Rightarrow> nat" where
  "last_policy_version db cid = foldr max (map pol_version (filter (\<lambda>p. pol_collector p = cid) (t_policies db))) 0"

definition next_policy :: "hasher \<Rightarrow> db \<Rightarrow> string \<Rightarrow> policy_values \<Rightarrow> ts \<Rightarrow> policy" where
  "next_policy ph db cid v now =
     (let version = last_policy_version db cid + 1;
          pid = stable_id ''policy'' (collector_suffix cid @ ''_v'' @ nat_text version) 120
      in \<lparr>pol_id = pid, pol_collector = cid, pol_version = version, pol_values = v, pol_created = now,
          pol_digest = sha256_tag (ph (JObj (policy_body_json pid cid version v now)))\<rparr>)"

definition create_collection_policy ::
  "hasher \<Rightarrow> db \<Rightarrow> string \<Rightarrow> policy_values \<Rightarrow> ts \<Rightarrow> py_exc + (db \<times> collector)" where
  "create_collection_policy ph db cid v now =
     (case validate_collection_policy v of
        Some e \<Rightarrow> Inl e
      | None \<Rightarrow>
     (case lock_collector db cid of
        Some e \<Rightarrow> Inl e
      | None \<Rightarrow>
     (case get_collector db cid of
        None \<Rightarrow> Inl (KeyErr cid)
      | Some c \<Rightarrow>
     (case require_active (Some c) of
        Some e \<Rightarrow> Inl e
      | None \<Rightarrow>
          (let p = next_policy ph db cid v now
           in if tbl_get pol_id (pol_id p) (t_policies db) \<noteq> None then Inl UniqueViolation
              else save_collector
                (db\<lparr>t_policies := t_policies db @ [p], t_checkpoints := tbl_del ck_collector cid (t_checkpoints db)\<rparr>)
                (c\<lparr>col_policy_id := Some (pol_id p), col_policy := Some p, col_checkpoint := None,
                   col_updated := JustNow, col_coverage := None\<rparr>) False now)))))"

definition ensure_collection_policy :: "hasher \<Rightarrow> db \<Rightarrow> string \<Rightarrow> ts \<Rightarrow> py_exc + (db \<times> collector)" where
  "ensure_collection_policy ph db cid now =
     (case get_collector db cid of
        None \<Rightarrow> Inl (KeyErr cid)
      | Some c \<Rightarrow>
          if col_policy c \<noteq> None \<and> col_policy_id c \<noteq> None then Inr (db, c)
          else create_collection_policy ph db cid default_policy now)"

definition get_checkpoint :: "db \<Rightarrow> string \<Rightarrow> checkpoint option" where
  "get_checkpoint db cid = tbl_get ck_collector cid (t_checkpoints db)"

definition save_checkpoint :: "db \<Rightarrow> checkpoint \<Rightarrow> ts \<Rightarrow> py_exc + db" where
  "save_checkpoint db ck now =
     (let db1 = db\<lparr>t_checkpoints := tbl_upsert ck_collector ck (\<lambda>_. ck) (t_checkpoints db)\<rparr>
      in (case get_collector db1 (ck_collector ck) of
            None \<Rightarrow> Inl (KeyErr (ck_collector ck))
          | Some c \<Rightarrow> map_sum id fst (save_collector db1 (c\<lparr>col_checkpoint := Some ck\<rparr>) False now)))"

subsection \<open>Histories of policies\<close>

datatype policy_event =
    PolicyCreate string policy_values ts
  | PolicyEnsure string ts
  | CheckpointSave checkpoint ts

definition policy_step :: "hasher \<Rightarrow> db \<Rightarrow> policy_event \<Rightarrow> db" where
  "policy_step ph db e =
     (case (case e of
              PolicyCreate cid v now \<Rightarrow> map_sum id fst (create_collection_policy ph db cid v now)
            | PolicyEnsure cid now \<Rightarrow> map_sum id fst (ensure_collection_policy ph db cid now)
            | CheckpointSave ck now \<Rightarrow> save_checkpoint db ck now) of
        Inl _ \<Rightarrow> db | Inr db' \<Rightarrow> db')"

definition policies_of :: "db \<Rightarrow> string \<Rightarrow> policy list" where
  "policies_of db cid = filter (\<lambda>p. pol_collector p = cid) (t_policies db)"

definition newest :: "'a list \<Rightarrow> 'a option" where
  "newest xs = (if xs = [] then None else Some (last xs))"

definition sound_policy :: "hasher \<Rightarrow> policy \<Rightarrow> bool" where
  "sound_policy ph p \<longleftrightarrow> validate_collection_policy (pol_values p) = None \<and>
     pol_digest p = sha256_tag (ph (JObj
       (policy_body_json (pol_id p) (pol_collector p) (pol_version p) (pol_values p) (pol_created p))))"

text \<open>The document of a source agrees with the policies and the checkpoint stored for it.\<close>

definition policy_mirror :: "db \<Rightarrow> collector \<Rightarrow> string \<Rightarrow> bool" where
  "policy_mirror db c cid \<longleftrightarrow> col_id c = cid \<and> col_policy c = newest (policies_of db cid) \<and>
     col_policy_id c = map_option pol_id (col_policy c) \<and> col_checkpoint c = get_checkpoint db cid"

definition policy_inv :: "hasher \<Rightarrow> db \<Rightarrow> bool" where
  "policy_inv ph db \<longleftrightarrow>
     (\<forall>cid. map pol_version (policies_of db cid) = [1..<length (policies_of db cid) + 1]) \<and>
     (\<forall>p \<in> set (t_policies db). sound_policy ph p) \<and>
     (\<forall>cid c. stored_collector db cid = Some c \<longrightarrow> policy_mirror db c cid)"

lemma foldr_max_upt: "foldr max [1..<n + 1] (0 :: nat) = n"
proof -
  have "foldr max [1..<k] m = max (k - 1) m" if "m \<ge> k \<or> m = 0" for k m :: nat
  proof -
    have "foldr max xs (0 :: nat) = Max (insert 0 (set xs))" for xs
      by (induction xs) (simp_all add: max.commute max.left_commute insert_commute)
    moreover have "foldr max [1..<k] m = max (k - 1) m" if "m \<ge> k"
      using that by (induction k) (auto simp: max_def)
    moreover have "Max (insert 0 {1..<k}) = k - 1"
      by (cases "k \<le> 1") (auto intro!: Max_eqI simp: max_def)
    ultimately show ?thesis using that by auto
  qed
  then show ?thesis by simp
qed

lemma create_collection_policy_cases:
  assumes "create_collection_policy ph db cid v now = Inr (db', c')" and "policy_inv ph db"
  obtains old where "stored_collector db cid = Some old"
    and "t_policies db' = t_policies db @ [next_policy ph db cid v now]"
    and "validate_collection_policy v = None"
    and "t_checkpoints db' = tbl_del ck_collector cid (t_checkpoints db)"
    and "\<And>k. stored_collector db' k = (if k = cid then Some c' else stored_collector db k)"
    and "col_id c' = cid" "col_policy c' = Some (next_policy ph db cid v now)"
      "col_policy_id c' = Some (pol_id (next_policy ph db cid v now))" "col_checkpoint c' = None" "col_coverage c' = None"
proof -
  let ?p = "next_policy ph db cid v now"
  let ?db1 = "db\<lparr>t_policies := t_policies db @ [?p], t_checkpoints := tbl_del ck_collector cid (t_checkpoints db)\<rparr>"
  from assms(1) obtain c where c: "validate_collection_policy v = None" "get_collector db cid = Some c"
    "save_collector ?db1 (c\<lparr>col_policy_id := Some (pol_id ?p), col_policy := Some ?p, col_checkpoint := None,
                   col_updated := JustNow, col_coverage := None\<rparr>) False now = Inr (db', c')"
    by (auto simp: create_collection_policy_def Let_def split: option.splits if_splits)
  from get_collector_stored [OF c(2)] obtain old where old: "stored_collector db cid = Some old"
    "c = old\<lparr>col_collection_name := col_collection_name c\<rparr>" by metis
  have id: "col_id old = cid" using assms(2) old(1) by (auto simp: policy_inv_def policy_mirror_def)
  have idc: "col_id c = cid" by (subst old(2)) (simp add: id)
  note s = save_collector_ordinary [OF c(3)]
  have stored: "stored_collector db' k = (if k = cid then Some c' else stored_collector db k)" for k
    using s(2) [of k] idc by (simp add: s(1) stored_collector_def)
  from s(3) obtain cs where db': "db' = ?db1\<lparr>t_collectors := cs\<rparr>" by blast
  show ?thesis
    by (rule that [OF old(1) _ c(1) _ stored]) (simp_all add: db' s(1) idc)
qed

lemma create_collection_policy_inv:
  assumes run: "create_collection_policy ph db cid v now = Inr (db', c')" and inv: "policy_inv ph db"
  shows "policy_inv ph db'" and "\<exists>new. t_policies db' = t_policies db @ new"
proof -
  let ?p = "next_policy ph db cid v now"
  from create_collection_policy_cases [OF run inv] obtain old where f:
    "stored_collector db cid = Some old" "t_policies db' = t_policies db @ [?p]"
    "validate_collection_policy v = None" "t_checkpoints db' = tbl_del ck_collector cid (t_checkpoints db)"
    "\<And>k. stored_collector db' k = (if k = cid then Some c' else stored_collector db k)"
    "col_id c' = cid" "col_policy c' = Some ?p" "col_policy_id c' = Some (pol_id ?p)" "col_checkpoint c' = None"
    by metis
  have vs: "map pol_version (policies_of db k) = [1..<length (policies_of db k) + 1]" for k
    using inv by (simp add: policy_inv_def)
  have cid: "pol_collector ?p = cid" by (simp add: next_policy_def Let_def)
  have of: "policies_of db' k = (if k = cid then policies_of db cid @ [?p] else policies_of db k)" for k
    using cid by (auto simp: policies_of_def f(2))
  have "last_policy_version db cid = length (policies_of db cid)"
    unfolding last_policy_version_def policies_of_def [symmetric] vs foldr_max_upt ..
  then have ver: "pol_version ?p = length (policies_of db cid) + 1" by (simp add: next_policy_def Let_def)
  have "map pol_version (policies_of db' k) = [1..<length (policies_of db' k) + 1]" for k
    using vs [of k] ver by (auto simp: of)
  moreover have "sound_policy ph ?p" using f(3) by (simp add: sound_policy_def next_policy_def Let_def)
  then have "\<forall>p \<in> set (t_policies db'). sound_policy ph p" using inv by (auto simp: f(2) policy_inv_def)
  moreover have "policy_mirror db' c k" if "stored_collector db' k = Some c" for k c
  proof (cases "k = cid")
    case True
    then show ?thesis using that f(5-9) by (auto simp: policy_mirror_def of newest_def get_checkpoint_def f(4) tbl_get_del)
  next
    case False
    then have "policy_mirror db c k" using that inv f(5) by (auto simp: policy_inv_def)
    then show ?thesis using False by (simp add: policy_mirror_def of get_checkpoint_def f(4) tbl_get_del)
  qed
  ultimately show "policy_inv ph db'" by (simp add: policy_inv_def)
  show "\<exists>new. t_policies db' = t_policies db @ new" using f(2) by blast
qed

lemma save_checkpoint_inv:
  assumes run: "save_checkpoint db ck now = Inr db'" and inv: "policy_inv ph db"
  shows "policy_inv ph db'" and "t_policies db' = t_policies db"
proof -
  let ?db1 = "db\<lparr>t_checkpoints := tbl_upsert ck_collector ck (\<lambda>_. ck) (t_checkpoints db)\<rparr>"
  let ?cid = "ck_collector ck"
  from run obtain c c' where c: "get_collector ?db1 ?cid = Some c"
    "save_collector ?db1 (c\<lparr>col_checkpoint := Some ck\<rparr>) False now = Inr (db', c')"
    by (auto simp: save_checkpoint_def Let_def split: option.splits)
  from get_collector_stored [OF c(1)] obtain old where old: "stored_collector ?db1 ?cid = Some old"
    "c = old\<lparr>col_collection_name := col_collection_name c\<rparr>" by metis
  then have "stored_collector db ?cid = Some old" by (simp add: stored_collector_def)
  then have m: "policy_mirror db old ?cid" using inv by (auto simp: policy_inv_def)
  have idc: "col_id c = ?cid" by (subst old(2)) (use m in \<open>simp add: policy_mirror_def\<close>)
  note s = save_collector_ordinary [OF c(2)]
  from s(3) obtain cs where db': "db' = ?db1\<lparr>t_collectors := cs\<rparr>" by blast
  then show pol: "t_policies db' = t_policies db" by simp
  then have of: "policies_of db' k = policies_of db k" for k by (simp add: policies_of_def)
  have ck: "get_checkpoint db' k = (if k = ?cid then Some ck else get_checkpoint db k)" for k
  proof (cases "tbl_get ck_collector ?cid (t_checkpoints db)")
    case None
    then show ?thesis by (auto simp: db' get_checkpoint_def tbl_upsert_def tbl_get_append split: option.splits)
  next
    case (Some x)
    have "tbl_get ck_collector k (tbl_upd ck_collector ?cid (\<lambda>_. ck) rows) =
      (if k = ?cid then map_option (\<lambda>_. ck) (tbl_get ck_collector k rows) else tbl_get ck_collector k rows)" for rows
      by (induction rows) (auto simp: tbl_upd_def)
    with Some show ?thesis by (auto simp: db' get_checkpoint_def tbl_upsert_def)
  qed
  have "policy_mirror db' x k" if "stored_collector db' k = Some x" for k x
  proof (cases "k = ?cid")
    case True
    then have "x = c\<lparr>col_checkpoint := Some ck\<rparr>" using that s(2) [of k] idc by simp
    moreover have "col_policy c = col_policy old" "col_policy_id c = col_policy_id old" by (subst old(2); simp)+
    ultimately show ?thesis using m idc True by (simp add: policy_mirror_def of ck)
  next
    case False
    moreover have "stored_collector ?db1 k = stored_collector db k" by (rule stored_collector_cong) simp
    ultimately have "stored_collector db k = Some x" using that s(2) [of k] idc by simp
    then have "policy_mirror db x k" using inv by (auto simp: policy_inv_def)
    then show ?thesis using False by (simp add: policy_mirror_def of ck)
  qed
  then show "policy_inv ph db'" using inv by (simp add: policy_inv_def of pol)
qed

lemma policy_step_inv:
  assumes "policy_inv ph db"
  shows "policy_inv ph (policy_step ph db e)" and "\<exists>new. t_policies (policy_step ph db e) = t_policies db @ new"
  using assms create_collection_policy_inv save_checkpoint_inv
  by (auto simp: policy_step_def ensure_collection_policy_def split: policy_event.splits sum.splits option.splits if_splits)

interpretation policy_machine: step_machine "policy_step ph" "policy_inv ph" "\<lambda>db. int (length (t_policies db))"
proof
  fix db e
  assume inv: "policy_inv ph db"
  then show "policy_inv ph (policy_step ph db e)" by (rule policy_step_inv)
  from policy_step_inv(2) [OF inv] show "int (length (t_policies db)) \<le> int (length (t_policies (policy_step ph db e)))"
    by (metis length_append nat_le_iff_add of_nat_le_iff)
qed

lemma policy_run_appends:
  "policy_inv ph db \<Longrightarrow> \<exists>new. t_policies (foldl (policy_step ph) db evs) = t_policies db @ new"
proof (induction evs arbitrary: db)
  case Nil
  then show ?case by simp
next
  case (Cons e evs)
  from policy_step_inv [OF Cons.prems] Cons.IH [of "policy_step ph db e"] show ?case by (metis append.assoc foldl_Cons)
qed

text \<open>
  The policies of a source are an append-only, gapless history: however policies are
  created and checkpoints saved, the versions of a source are numbered 1, 2, ..., every
  stored policy is within the allowed ranges and carries the digest of its own content,
  the source's document names its newest policy and its current checkpoint, and later
  events only append policies.
\<close>

lemma policy_history:
  assumes "policy_inv ph db"
  shows "(\<forall>cid. map pol_version (policies_of (foldl (policy_step ph) db evs) cid) =
            [1..<length (policies_of (foldl (policy_step ph) db evs) cid) + 1]) \<and>
    (\<forall>p \<in> set (t_policies (foldl (policy_step ph) db evs)). sound_policy ph p) \<and>
    (\<forall>cid c. stored_collector (foldl (policy_step ph) db evs) cid = Some c \<longrightarrow>
       col_policy c = newest (policies_of (foldl (policy_step ph) db evs) cid) \<and>
       col_checkpoint c = get_checkpoint (foldl (policy_step ph) db evs) cid) \<and>
    (\<exists>new. t_policies (foldl (policy_step ph) db (evs @ later)) = t_policies (foldl (policy_step ph) db evs) @ new)"
proof -
  have inv: "policy_inv ph (foldl (policy_step ph) db evs)" by (rule policy_machine.run_inv [OF assms])
  show ?thesis using inv policy_run_appends [OF inv, of later] by (auto simp: policy_inv_def policy_mirror_def)
qed

theorem policy_history_witness:
  "policies_of example_db ''collector_a'' = [] \<and>
   col_policy example_collector = newest (policies_of example_db ''collector_a'') \<and>
   list_all (sound_policy (\<lambda>_. ''h'')) (t_policies (foldl (policy_step (\<lambda>_. ''h'')) example_db
     [PolicyCreate ''collector_a'' default_policy 5, PolicyEnsure ''collector_a'' 7])) \<and>
   length (t_policies (foldl (policy_step (\<lambda>_. ''h'')) example_db
     [PolicyCreate ''collector_a'' default_policy 5, PolicyEnsure ''collector_a'' 7])) = 1"
proof -
  have inv: "policy_inv (\<lambda>_. ''h'') example_db"
    by (auto simp: policy_inv_def policies_of_def example_db_def empty_db_def stored_collector_def policy_mirror_def
        newest_def get_checkpoint_def example_collector_def split: if_splits)
  note h = policy_history [OF inv, of "[PolicyCreate ''collector_a'' default_policy 5, PolicyEnsure ''collector_a'' 7]"]
  have "length (t_policies (foldl (policy_step (\<lambda>_. ''h'')) example_db
     [PolicyCreate ''collector_a'' default_policy 5, PolicyEnsure ''collector_a'' 7])) = 1"
    by (simp add: policy_step_def create_collection_policy_def ensure_collection_policy_def example_db_def empty_db_def
        validate_collection_policy_def default_policy_def policy_ranges_def lock_collector_def is_deleted_def
        get_collector_def require_active_def example_collector_def save_collector_def tbl_upsert_def tbl_upd_def Let_def)
  then show ?thesis using h
    by (auto simp: list_all_iff policies_of_def newest_def example_db_def empty_db_def example_collector_def)
qed

end
