(* ===== verification/Coverage.thy ===== *)
theory Coverage
  imports Collectors
begin

text \<open>Bounded list traversal progress (\<open>coverage.py\<close>).\<close>

definition valid_progress :: "coverage_progress option \<Rightarrow> string \<Rightarrow> string option \<Rightarrow> bool" where
  "valid_progress progress rule_digest policy_id \<longleftrightarrow>
     (case progress of
        None \<Rightarrow> False
      | Some p \<Rightarrow> cp_rule_digest p = rule_digest \<and> Some (cp_policy_version p) = policy_id \<and> cp_window_start p \<noteq> [])"

text \<open>\<open>processed\<close> is the set of URLs as a list; the record keeps it sorted.\<close>

definition progress_record ::
  "string \<Rightarrow> string \<Rightarrow> string \<Rightarrow> string \<Rightarrow> int \<Rightarrow> string option \<Rightarrow> string list \<Rightarrow> int \<Rightarrow> string option \<Rightarrow> string option \<Rightarrow>
   bool \<Rightarrow> string list \<Rightarrow> coverage_progress" where
  "progress_record rule_digest policy_id window_start url page_index anchor processed older_before watermark oldest_before
     page_complete overlap_urls =
     \<lparr>cp_rule_digest = rule_digest, cp_policy_version = policy_id, cp_window_start = window_start, cp_resume_url = url,
      cp_page_index = page_index, cp_anchor_url = anchor, cp_processed_urls = sort processed,
      cp_older_pages_before = older_before, cp_watermark = watermark, cp_oldest_before = oldest_before,
      cp_page_complete = page_complete, cp_overlap_urls = overlap_urls\<rparr>"

fun some_ascent :: "int list \<Rightarrow> bool" where
  "some_ascent (a # b # rest) = (a < b \<or> some_ascent (b # rest))"
| "some_ascent _ = False"

definition dates_descend :: "'r list \<Rightarrow> ('r \<Rightarrow> int option) \<Rightarrow> string option" where
  "dates_descend records parse =
     (let values = map parse records
      in if None \<in> set values then Some ''coverage_date_unknown''
         else if some_ascent (map the values) then Some ''coverage_order_unverified''
         else None)"

lemma some_ascent_sorted: "\<not> some_ascent xs \<longleftrightarrow> sorted_wrt (\<ge>) xs"
proof (induction xs rule: some_ascent.induct)
  case (1 a b rest)
  have "transp ((\<ge>) :: int \<Rightarrow> int \<Rightarrow> bool)" by (auto intro: transpI)
  then have "sorted_wrt (\<ge>) (a # b # rest) \<longleftrightarrow> b \<le> a \<and> sorted_wrt (\<ge>) (b # rest)" by (rule sorted_wrt2)
  with 1 show ?case by (auto simp del: sorted_wrt.simps)
qed simp_all

text \<open>
  The order check of a listing is exact: it passes exactly when every date is known
  and no later record is newer than an earlier one, and it names the first failed
  condition otherwise.
\<close>

lemma dates_descend_exact:
  "dates_descend records parse =
     (if None \<in> set (map parse records) then Some ''coverage_date_unknown''
      else if sorted_wrt (\<lambda>r s. the (parse s) \<le> the (parse r)) records then None
      else Some ''coverage_order_unverified'')"
  unfolding dates_descend_def Let_def
  using some_ascent_sorted [of "map the (map parse records)"] by (auto simp: sorted_wrt_map simp del: set_map)

end
