(* ===== verification/Recovery.thy ===== *)
theory Recovery
  imports Jobs Receipts Signing_Keys Policies Coverage
begin

text \<open>
  Bounded recovery (\<open>bounded_recovery.py\<close>): after a run was stopped by the source's rate
  limit an operator may authorize a batch of at most three continuation attempts, each
  after a cool-down, within one day. \<open>tick\<close> is the dispatcher that observes the
  attempts and starts the next one. Parameters: \<open>hostname\<close> of the URL library,
  \<open>verify\<close> of the integrity library (the verified rule digest, or the code of the
  exception it raises), \<open>batch_json\<close> for the response document, and \<open>create_run\<close>, the run
  starter the application passes to \<open>tick\<close>.
\<close>

definition delays :: "int list" where
  "delays = [1800, 7200, 21600]"

definition request_limit :: nat where
  "request_limit = 120"

definition get_batch :: "db \<Rightarrow> string \<Rightarrow> recovery_batch option" where
  "get_batch db bid = map_option br_data (tbl_get br_id bid (t_batches db))"

definition batch_for_run :: "db \<Rightarrow> string \<Rightarrow> recovery_batch option" where
  "batch_for_run db rid =
     (case get_run db rid of
        Some r \<Rightarrow> (case run_recovery_batch r of
                     Some bid \<Rightarrow> get_batch db bid
                   | None \<Rightarrow> map_option br_data (tbl_get br_seed_run rid (t_batches db)))
      | None \<Rightarrow> map_option br_data (tbl_get br_seed_run rid (t_batches db)))"

definition active_batches :: "db \<Rightarrow> recovery_batch list" where
  "active_batches db =
     map br_data (sort_key (\<lambda>r. iso_key (br_created r)) (filter (\<lambda>r. active_batch (br_status r)) (t_batches db)))"

definition lifecycle_text :: "lifecycle \<Rightarrow> string" where
  "lifecycle_text l = (case l of Active \<Rightarrow> ''active'' | Archived \<Rightarrow> ''archived'')"

definition source_context :: "hasher \<Rightarrow> collector \<Rightarrow> string" where
  "source_context ph c = ph (JObj
     [(''source'', JStr (source_execution_digest ph c)),
      (''policy'', case col_policy c of None \<Rightarrow> JNull | Some p \<Rightarrow> policy_json p),
      (''collectionVersion'', JStr (col_collection_version c)),
      (''lifecycle'', JStr (lifecycle_text (col_lifecycle c)))])"

text \<open>\<open>finished\<close>: the recorded end of a run, or its start and duration, or the fallback.\<close>

definition run_finished :: "run \<Rightarrow> ts \<Rightarrow> ts" where
  "run_finished r fallback =
     (case run_finished_iso r of
        Some t \<Rightarrow> t
      | None \<Rightarrow> (case (run_duration_micros r, run_started_iso r) of
                   (Some d, Some s) \<Rightarrow> s + d
                 | _ \<Rightarrow> fallback))"

definition save_batch :: "db \<Rightarrow> recovery_batch \<Rightarrow> ts \<Rightarrow> db" where
  "save_batch db b now =
     (let b' = b\<lparr>rb_updated := now\<rparr>
      in db\<lparr>t_batches := tbl_upd br_id (rb_id b')
             (\<lambda>r. r\<lparr>br_status := rb_status b', br_hold_until := rb_not_before b', br_data := b', br_updated := now\<rparr>)
             (t_batches db)\<rparr>)"

definition stop_batch :: "recovery_batch \<Rightarrow> string \<Rightarrow> ts \<Rightarrow> batch_status \<Rightarrow> recovery_batch" where
  "stop_batch b reason now status =
     b\<lparr>rb_status := status, rb_reason := reason, rb_next_attempt := None, rb_finished := Some now\<rparr>"

definition cool_due :: "recovery_batch \<Rightarrow> run \<Rightarrow> ts \<Rightarrow> ts" where
  "cool_due b r now =
     (let index = length (rb_attempt_runs b);
          delay = max (delays ! min index (length delays - 1)) (case run_retry_after_seconds r of None \<Rightarrow> 0 | Some s \<Rightarrow> s)
      in run_finished r now + delay * 1000000)"

definition cool :: "recovery_batch \<Rightarrow> run \<Rightarrow> ts \<Rightarrow> recovery_batch" where
  "cool b r now =
     (let due = cool_due b r now; b1 = b\<lparr>rb_not_before := Some due\<rparr>
      in if rb_max_attempts b \<le> length (rb_attempt_runs b) then stop_batch b1 ''attempt_limit'' now NeedsAttention
         else if rb_expires b \<le> due then stop_batch b1 ''server_wait_exceeds_deadline'' now NeedsAttention
         else b1\<lparr>rb_status := CoolingDown, rb_reason := ''source_rate_limited'', rb_next_attempt := Some due\<rparr>)"

subsection \<open>Starting a batch\<close>

text \<open>\<open>verify_rule_attestation\<close>: the code of the \<open>IntegrityError\<close>, or the verified digest.\<close>

type_synonym verifier = "rule_version \<Rightarrow> attestation \<Rightarrow> signing_key \<Rightarrow> string + string"

definition latest_rule_attestation :: "db \<Rightarrow> string \<Rightarrow> attestation option" where
  "latest_rule_attestation db rid =
     (case sort_key (\<lambda>a. - iso_key (at_signed_at a)) (filter (\<lambda>a. at_rule_version a = rid) (t_attestations db)) of
        [] \<Rightarrow> None | a # _ \<Rightarrow> Some a)"

text \<open>The long condition on the seed run and its source; \<open>True\<close> is a seed that may start a batch.\<close>

definition seed_valid :: "db \<Rightarrow> collector \<Rightarrow> string \<Rightarrow> run \<Rightarrow> bool" where
  "seed_valid db c rid r \<longleftrightarrow>
     col_status c = ''published'' \<and> col_latest_run c = Some rid \<and>
     (case col_schedule c of None \<Rightarrow> True | Some s \<Rightarrow> \<not> sv_enabled (sch_values s)) \<and>
     col_active_operation c = None \<and> col_pending_version c = None \<and> \<not> has_active_run db (col_id c) \<and>
     run_stop_reason r = Some ''source_rate_limited'' \<and> run_status r = Failed \<and> run_integrity r = ''verified'' \<and>
     Some (run_rule_version r) = col_active_rule c \<and>
     (case col_policy c of
        None \<Rightarrow> False
      | Some p \<Rightarrow>
          run_policy_version r = pol_id p \<and> pv_checkpoint_mode (pol_values p) = Some ''observed'' \<and>
          valid_progress (col_coverage c) (run_rule_digest r) (Some (pol_id p)) \<and>
          col_coverage c = run_coverage_after r \<and> col_coverage c = run_coverage_before r \<and>
          run_checkpoint_after r = None \<and> run_items r = [] \<and>
          pv_max_pages (pol_values p) \<le> 3 \<and> pv_max_items (pol_values p) \<le> 50)"

definition seed_verified ::
  "verifier \<Rightarrow> db \<Rightarrow> collector \<Rightarrow> run \<Rightarrow> bool" where
  "seed_verified verify db c r \<longleftrightarrow>
     (case col_active_rule c of
        None \<Rightarrow> False
      | Some rid \<Rightarrow>
          (case (tbl_get rv_id rid (t_rules db), latest_rule_attestation db rid) of
             (Some rule, Some a) \<Rightarrow>
               (case get_signing_key db (at_key_id a) of
                  None \<Rightarrow> False
                | Some k \<Rightarrow> verify rule a k = Inr (run_rule_digest r))
           | _ \<Rightarrow> False))"

text \<open>Another source task on one of the hosts is queued or running.\<close>

definition competing_job :: "(string \<Rightarrow> string option) \<Rightarrow> db \<Rightarrow> string list \<Rightarrow> bool" where
  "competing_job hostname db hs \<longleftrightarrow>
     (\<exists>j \<in> set (t_jobs db). unfinished_job j \<and> job_kind j \<in> {''run'', ''explore''} \<and>
        (\<exists>o' \<in> set (t_operations db). opr_id o' = job_operation j \<and>
           (case get_collector db (opr_collector o') of
              None \<Rightarrow> False
            | Some c \<Rightarrow> set hs \<inter> set (source_hosts hostname db c) \<noteq> {})))"

definition new_batch ::
  "hasher \<Rightarrow> (string \<Rightarrow> string option) \<Rightarrow> db \<Rightarrow> collector \<Rightarrow> string \<Rightarrow> run \<Rightarrow> coverage_progress \<Rightarrow> string \<Rightarrow> ts \<Rightarrow> recovery_batch" where
  "new_batch ph hostname db c rid r progress bid now =
     \<lparr>rb_id = bid, rb_collector = col_id c, rb_seed_run = rid, rb_status = CoolingDown,
      rb_reason = ''source_rate_limited'', rb_created = now, rb_updated = now,
      rb_expires = now + 24 * 3600 * 1000000, rb_finished = None, rb_next_attempt = None, rb_max_attempts = 3,
      rb_attempt_runs = [], rb_active_run = None, rb_reserved = 0, rb_max_requests = 360,
      rb_hosts = source_hosts hostname db c, rb_context = source_context ph c, rb_progress = progress,
      rb_checkpoint = get_checkpoint db (col_id c), rb_rule_version = run_rule_version r,
      rb_rule_digest = run_rule_digest r, rb_policy_version = run_policy_version r,
      rb_window_start = cp_window_start progress, rb_cancel = False, rb_not_before = None\<rparr>"

definition batch_row_of :: "recovery_batch \<Rightarrow> batch_row" where
  "batch_row_of b =
     \<lparr>br_id = rb_id b, br_seed_run = rb_seed_run b, br_collector = rb_collector b, br_status = rb_status b,
      br_hold_until = rb_not_before b, br_data = b, br_created = rb_created b, br_updated = rb_updated b\<rparr>"

definition start_scope :: "string \<Rightarrow> string" where
  "start_scope rid = ''POST:/runs/'' @ rid @ ''/recovery''"

definition start_recovery ::
  "hasher \<Rightarrow> (string \<Rightarrow> string option) \<Rightarrow> verifier \<Rightarrow>
   (recovery_batch \<Rightarrow> json) \<Rightarrow> db \<Rightarrow> string \<Rightarrow> string \<Rightarrow> audit_args \<Rightarrow> string \<Rightarrow> string \<Rightarrow> ts \<Rightarrow> outcome" where
  "start_recovery ph hostname verify batch_json db rid key audit bid event_id now =
     with_receipt ph db (start_scope rid) key (JObj [])
      (if batch_for_run db rid \<noteq> None then Inl (RecoveryErr ''RECOVERY_ALREADY_EXISTS'')
       else
      (case get_run db rid of
         None \<Rightarrow> Inl (RecoveryErr ''RUN_NOT_FOUND'')
       | Some r \<Rightarrow>
      (case lock_collector db (run_collector r) of
         Some e \<Rightarrow> Inl e
       | None \<Rightarrow>
      (case get_collector db (run_collector r) of
         None \<Rightarrow> Inl (LifecycleErr ''COLLECTOR_NOT_FOUND'')
       | Some c \<Rightarrow>
      (case require_active (Some c) of
         Some e \<Rightarrow> Inl e
       | None \<Rightarrow>
           (if \<not> seed_valid db c rid r then Inl (RecoveryErr ''RECOVERY_SEED_INVALID'')
            else if \<not> seed_verified verify db c r then Inl (RecoveryErr ''RECOVERY_SEED_INVALID'')
            else
              (case guard_source_work hostname db c None now of
                 Some e \<Rightarrow> Inl e
               | None \<Rightarrow>
                   if competing_job hostname db (source_hosts hostname db c)
                   then Inl (RecoveryErr ''SOURCE_RECOVERY_ACTIVE'')
                   else
                     (let b = cool (new_batch ph hostname db c rid r (the (col_coverage c)) bid now) r now
                      in if tbl_get br_id bid (t_batches db) \<noteq> None \<or> tbl_get br_seed_run rid (t_batches db) \<noteq> None
                         then Inl UniqueViolation
                         else finish_command ph (db\<lparr>t_batches := t_batches db @ [batch_row_of b]\<rparr>)
                                (start_scope rid) key (JObj []) (batch_json b) 201 audit ''recovery_batch'' bid
                                ''recovery.start'' event_id now))))))))"

subsection \<open>Stopping a batch\<close>

definition stop_scope :: "string \<Rightarrow> string" where
  "stop_scope bid = ''POST:/recovery-batches/'' @ bid @ ''/cancel''"

text \<open>The flag on the operation of the active attempt, when it still runs.\<close>

definition cancel_attempt :: "db \<Rightarrow> recovery_batch \<Rightarrow> string \<Rightarrow> ts \<Rightarrow> py_exc + db" where
  "cancel_attempt db b rid now =
     (case get_run db rid of
        None \<Rightarrow> Inl (RuntimeErr ''run missing'')
      | Some r \<Rightarrow>
          (case (case run_operation r of None \<Rightarrow> None | Some oid \<Rightarrow> get_operation db oid) of
             None \<Rightarrow> Inl (RuntimeErr ''operation missing'')
           | Some o' \<Rightarrow>
               if terminal_operation (op_status o') then Inr db
               else save_operation db (o'\<lparr>op_cancel_requested := True\<rparr>) (rb_collector b) now))"

definition request_stop ::
  "hasher \<Rightarrow> (recovery_batch \<Rightarrow> json) \<Rightarrow> db \<Rightarrow> string \<Rightarrow> string \<Rightarrow> audit_args \<Rightarrow> string \<Rightarrow> ts \<Rightarrow> outcome" where
  "request_stop ph batch_json db bid key audit event_id now =
     with_receipt ph db (stop_scope bid) key (JObj [])
      (case get_batch db bid of
         None \<Rightarrow> Inl (RecoveryErr ''RECOVERY_NOT_FOUND'')
       | Some b \<Rightarrow>
           (case (if active_batch (rb_status b) then
                    (let b1 = b\<lparr>rb_cancel := True\<rparr>
                     in (case rb_active_run b of
                           Some rid \<Rightarrow>
                             (case cancel_attempt db b1 rid now of
                                Inl e \<Rightarrow> Inl e
                              | Inr db1 \<Rightarrow>
                                  (let b2 = b1\<lparr>rb_status := Cancelling, rb_reason := ''cancel_requested'', rb_next_attempt := None\<rparr>
                                   in Inr (save_batch db1 b2 now, b2\<lparr>rb_updated := now\<rparr>)))
                         | None \<Rightarrow>
                             (let b2 = stop_batch b1 ''cancel_requested'' now BCancelled
                              in Inr (save_batch db b2 now, b2\<lparr>rb_updated := now\<rparr>))))
                  else Inr (db, b)) of
              Inl e \<Rightarrow> Inl e
            | Inr (db1, b1) \<Rightarrow>
                finish_command ph db1 (stop_scope bid) key (JObj []) (batch_json b1) 200 audit ''recovery_batch'' bid
                  ''recovery.cancel'' event_id now))"

subsection \<open>The dispatcher\<close>

text \<open>\<open>context(source) != batch['contextDigest'] or source['schedule']['enabled']\<close>.\<close>

definition context_changed :: "hasher \<Rightarrow> collector \<Rightarrow> recovery_batch \<Rightarrow> py_exc + bool" where
  "context_changed ph c b =
     (if source_context ph c \<noteq> rb_context b then Inr True
      else (case col_schedule c of None \<Rightarrow> Inl (KeyErr ''schedule'') | Some s \<Rightarrow> Inr (sv_enabled (sch_values s))))"

definition continuation_verified ::
  "(string \<Rightarrow> string option) \<Rightarrow> db \<Rightarrow> collector \<Rightarrow> recovery_batch \<Rightarrow> run \<Rightarrow> bool" where
  "continuation_verified hostname db c b r \<longleftrightarrow>
     run_status r \<in> {Succeeded, PartiallySucceeded} \<and>
     run_stop_reason r \<in> Some ` {''max_pages'', ''max_items'', ''checkpoint_reached'', ''time_window_reached''} \<and>
     run_list_pages r \<le> 3 \<and> run_detail_pages r \<le> 50 \<and> length (run_items r) \<le> 50 \<and>
     (case run_source_requests r of None \<Rightarrow> 0 | Some n \<Rightarrow> n) \<le> int request_limit \<and>
     (case run_checkpoint_after r of
        Some ck \<Rightarrow>
          ck_kind ck = Some ''coverage'' \<and> ck_policy_version ck = rb_policy_version b \<and>
          ck_rule_digest ck = Some (rb_rule_digest b) \<and> get_checkpoint db (col_id c) = Some ck \<and> col_coverage c = None
      | None \<Rightarrow>
          (case run_coverage_after r of
             None \<Rightarrow> False
           | Some after \<Rightarrow>
               valid_progress (Some after) (rb_rule_digest b) (Some (rb_policy_version b)) \<and>
               cp_window_start after = rb_window_start b \<and> after \<noteq> rb_progress b \<and> Some after = col_coverage c \<and>
               cp_page_index (rb_progress b) \<le> cp_page_index after \<and>
               lower (case hostname (cp_resume_url after) of None \<Rightarrow> [] | Some h \<Rightarrow> h) \<in> set (rb_hosts b)))"

text \<open>The run of the attempt is not the continuation the batch asked for.\<close>

definition attempt_drifted :: "recovery_batch \<Rightarrow> run \<Rightarrow> bool" where
  "attempt_drifted b r \<longleftrightarrow>
     run_coverage_before r \<noteq> Some (rb_progress b) \<or> run_checkpoint_before r \<noteq> rb_checkpoint b \<or>
     run_integrity r \<noteq> ''verified'' \<or> run_rule_version r \<noteq> rb_rule_version b \<or>
     run_policy_version r \<noteq> rb_policy_version b \<or> run_rule_digest r \<noteq> rb_rule_digest b"

text \<open>The decision on a batch whose attempt has ended.\<close>

definition judge_attempt ::
  "hasher \<Rightarrow> (string \<Rightarrow> string option) \<Rightarrow> db \<Rightarrow> collector \<Rightarrow> recovery_batch \<Rightarrow> run \<Rightarrow> ts \<Rightarrow> py_exc + recovery_batch" where
  "judge_attempt ph hostname db c b r now =
     (if rb_status b = Cancelling
      then Inr (stop_batch b (rb_reason b) now (if rb_cancel b then BCancelled else NeedsAttention))
      else
        (case context_changed ph c b of
           Inl e \<Rightarrow> Inl e
         | Inr moved \<Rightarrow>
             if moved then Inr (stop_batch b ''context_changed'' now NeedsAttention)
             else if attempt_drifted b r then Inr (stop_batch b ''context_changed'' now NeedsAttention)
             else if run_stop_reason r = Some ''source_rate_limited'' then
               (if run_items r \<noteq> [] \<or> run_checkpoint_after r \<noteq> None \<or> run_coverage_after r \<noteq> Some (rb_progress b) \<or>
                   col_coverage c \<noteq> Some (rb_progress b)
                then Inr (stop_batch b ''progress_changed'' now NeedsAttention)
                else Inr (cool b r now))
             else if continuation_verified hostname db c b r
             then Inr (stop_batch (b\<lparr>rb_not_before := None\<rparr>) ''continuation_verified'' now Recovered)
             else Inr (stop_batch b ''run_not_recoverable'' now NeedsAttention)))"

text \<open>Observing the active attempt; the flag says whether the loop goes on with the next batch.\<close>

definition observe_attempt ::
  "hasher \<Rightarrow> (string \<Rightarrow> string option) \<Rightarrow> db \<Rightarrow> collector \<Rightarrow> recovery_batch \<Rightarrow> ts \<Rightarrow> py_exc + db \<times> recovery_batch \<times> bool" where
  "observe_attempt ph hostname db c b now =
     (case rb_active_run b of
        None \<Rightarrow> Inr (db, b, False)
      | Some rid \<Rightarrow>
          (case get_run db rid of
             None \<Rightarrow> Inl (RuntimeErr ''run missing'')
           | Some r \<Rightarrow>
               if nonterminal_run (run_status r) then
                 (if rb_expires b \<le> now \<or> rb_cancel b then
                    (case (case run_operation r of None \<Rightarrow> None | Some oid \<Rightarrow> get_operation db oid) of
                       None \<Rightarrow> Inl (RuntimeErr ''operation missing'')
                     | Some o' \<Rightarrow>
                         (case save_operation db (o'\<lparr>op_cancel_requested := True\<rparr>) (col_id c) now of
                            Inl e \<Rightarrow> Inl e
                          | Inr db1 \<Rightarrow>
                              (let b1 = b\<lparr>rb_status := Cancelling,
                                          rb_reason := if rb_cancel b then ''cancel_requested'' else ''deadline_reached''\<rparr>
                               in Inr (save_batch db1 b1 now, b1, True))))
                  else Inr (db, b, True))
               else
                 (case judge_attempt ph hostname db c (b\<lparr>rb_active_run := None\<rparr>) r now of
                    Inl e \<Rightarrow> Inl e
                  | Inr b1 \<Rightarrow> Inr (save_batch db b1 now, b1\<lparr>rb_updated := now\<rparr>, False))))"

text \<open>
  The run starter returns its result together with the store, since what it wrote before
  an exception the dispatcher catches stays in the transaction.
\<close>

type_synonym run_starter = "db \<Rightarrow> string \<Rightarrow> string \<Rightarrow> db \<times> (py_exc + string)"

text \<open>\<open>except (ValueError, RuntimeError)\<close>.\<close>

definition value_or_runtime :: "py_exc \<Rightarrow> bool" where
  "value_or_runtime e = (case e of ValueErr _ \<Rightarrow> True | RuntimeErr _ \<Rightarrow> True | LifecycleErr _ \<Rightarrow> True | RecoveryErr _ \<Rightarrow> True
     | IntegrityErr _ \<Rightarrow> True | RunStartErr _ \<Rightarrow> True | JobLeaseLost \<Rightarrow> True | JobCancelled \<Rightarrow> True | JobTimedOut \<Rightarrow> True | _ \<Rightarrow> False)"

definition dispatch_attempt ::
  "hasher \<Rightarrow> run_starter \<Rightarrow> db \<Rightarrow> collector \<Rightarrow> recovery_batch \<Rightarrow> ts \<Rightarrow> py_exc + db \<times> recovery_batch \<times> nat" where
  "dispatch_attempt ph create_run db c b now =
     (if rb_expires b \<le> now then Inr (db, stop_batch b ''deadline_reached'' now NeedsAttention, 0)
      else
        (case context_changed ph c b of
           Inl e \<Rightarrow> Inl e
         | Inr moved \<Rightarrow>
             if moved then Inr (db, stop_batch b ''context_changed'' now NeedsAttention, 0)
             else if col_coverage c \<noteq> Some (rb_progress b) \<or> get_checkpoint db (col_id c) \<noteq> rb_checkpoint b
             then Inr (db, stop_batch b ''progress_changed'' now NeedsAttention, 0)
             else
               (case rb_next_attempt b of
                  None \<Rightarrow> Inl (RuntimeErr ''next attempt missing'')
                | Some due \<Rightarrow>
                    if now < due then Inr (db, b, 0)
                    else if rb_max_attempts b \<le> length (rb_attempt_runs b) \<or>
                            rb_max_requests b < rb_reserved b + request_limit
                    then Inr (db, stop_batch b ''attempt_limit'' now NeedsAttention, 0)
                    else
                      (case create_run db (col_id c) (rb_id b) of
                         (db1, Inl e) \<Rightarrow>
                           if value_or_runtime e then Inr (db1, stop_batch b ''dispatch_rejected'' now NeedsAttention, 0)
                           else Inl e
                       | (db1, Inr rid) \<Rightarrow>
                           Inr (db1, b\<lparr>rb_active_run := Some rid, rb_attempt_runs := rb_attempt_runs b @ [rid],
                                       rb_reserved := rb_reserved b + request_limit, rb_status := BRunning,
                                       rb_next_attempt := None, rb_reason := ''continuation_running''\<rparr>, 1)))))"

definition tick_batch ::
  "hasher \<Rightarrow> (string \<Rightarrow> string option) \<Rightarrow> run_starter \<Rightarrow> ts \<Rightarrow> recovery_batch \<Rightarrow> db \<times> nat \<Rightarrow> py_exc + db \<times> nat" where
  "tick_batch ph hostname create_run now b state =
     (case state of (db, dispatched) \<Rightarrow>
     (if lock_collector db (rb_collector b) \<noteq> None
      then Inr (save_batch db (stop_batch b ''source_unavailable'' now NeedsAttention) now, dispatched)
      else
     (case get_collector db (rb_collector b) of
        None \<Rightarrow> Inl (RuntimeErr ''collector missing'')
      | Some c \<Rightarrow>
     (case observe_attempt ph hostname db c b now of
        Inl e \<Rightarrow> Inl e
      | Inr (db1, b1, skip) \<Rightarrow>
          if skip \<or> rb_status b1 \<noteq> CoolingDown then Inr (db1, dispatched)
          else
            (case dispatch_attempt ph create_run db1 c b1 now of
               Inl e \<Rightarrow> Inl e
             | Inr (db2, b2, n) \<Rightarrow> Inr (save_batch db2 b2 now, dispatched + n))))))"

definition tick :: "hasher \<Rightarrow> (string \<Rightarrow> string option) \<Rightarrow> run_starter \<Rightarrow> db \<Rightarrow> ts \<Rightarrow> py_exc + db \<times> nat" where
  "tick ph hostname create_run db now =
     fold_result (tick_batch ph hostname create_run now) (active_batches db) (db, 0)"

text \<open>The worker's check before a recovery attempt touches the source.\<close>

definition validate_attempt :: "hasher \<Rightarrow> db \<Rightarrow> run \<Rightarrow> ts \<Rightarrow> py_exc option" where
  "validate_attempt ph db r now =
     (case run_recovery_batch r of
        None \<Rightarrow> None
      | Some bid \<Rightarrow>
          (case (get_batch db bid, get_collector db (run_collector r)) of
             (Some b, Some c) \<Rightarrow>
               if rb_status b \<noteq> BRunning \<or> rb_active_run b \<noteq> Some (run_id r) \<or> rb_cancel b \<or> rb_expires b \<le> now \<or>
                  (case rb_not_before b of None \<Rightarrow> False | Some t \<Rightarrow> now < t)
               then Some (RecoveryErr ''RECOVERY_ATTEMPT_BLOCKED'')
               else
                 (case context_changed ph c b of
                    Inl e \<Rightarrow> Some e
                  | Inr moved \<Rightarrow>
                      if moved \<or> col_coverage c \<noteq> Some (rb_progress b) \<or>
                         get_checkpoint db (col_id c) \<noteq> rb_checkpoint b
                      then Some (RecoveryErr ''RECOVERY_ATTEMPT_BLOCKED'') else None)
           | _ \<Rightarrow> Some (RecoveryErr ''RECOVERY_ATTEMPT_BLOCKED'')))"

end
