(* ===== verification/Recovery_Safety.thy ===== *)
theory Recovery_Safety
  imports Recovery
begin

text \<open>
  What a recovery batch promises: bounded attempts and requests, cool-downs that are
  kept, final outcomes, exclusion of other work on its hosts, and idempotent commands.
  The run starter is an interface (locale \<open>batch_keeping_starter\<close>) of which only one law is
  needed: it leaves the batches alone.
\<close>

definition terminal_batch :: "recovery_batch \<Rightarrow> bool" where
  "terminal_batch b \<longleftrightarrow> \<not> active_batch (rb_status b)"

definition batch_wf :: "recovery_batch \<Rightarrow> bool" where
  "batch_wf b \<longleftrightarrow>
     rb_max_attempts b = 3 \<and> rb_max_requests b = 360 \<and> length (rb_attempt_runs b) \<le> 3 \<and>
     rb_reserved b = request_limit * length (rb_attempt_runs b) \<and>
     rb_expires b = rb_created b + 24 * 3600 * 1000000 \<and>
     (rb_status b = CoolingDown \<longrightarrow> rb_active_run b = None \<and> length (rb_attempt_runs b) < 3 \<and>
        (\<exists>d. rb_next_attempt b = Some d \<and> rb_not_before b = Some d \<and> d < rb_expires b)) \<and>
     (rb_status b \<in> {BRunning, Cancelling} \<longrightarrow> rb_attempt_runs b \<noteq> [] \<and> rb_active_run b = Some (last (rb_attempt_runs b))) \<and>
     (terminal_batch b \<longrightarrow> rb_finished b \<noteq> None \<and> rb_next_attempt b = None)"

definition row_matches :: "batch_row \<Rightarrow> bool" where
  "row_matches r \<longleftrightarrow> br_id r = rb_id (br_data r) \<and> br_status r = rb_status (br_data r) \<and>
     br_seed_run r = rb_seed_run (br_data r) \<and> br_hold_until r = rb_not_before (br_data r)"

definition batch_inv :: "db \<Rightarrow> bool" where
  "batch_inv db \<longleftrightarrow> distinct (map br_id (t_batches db)) \<and> distinct (map br_seed_run (t_batches db)) \<and>
     (\<forall>r \<in> set (t_batches db). row_matches r \<and> batch_wf (br_data r))"

text \<open>How a batch may develop: what it is stays, attempts are appended, an ended batch is final.\<close>

definition batch_le :: "recovery_batch \<Rightarrow> recovery_batch \<Rightarrow> bool" where
  "batch_le b b' \<longleftrightarrow> rb_id b' = rb_id b \<and> rb_seed_run b' = rb_seed_run b \<and> rb_collector b' = rb_collector b \<and>
     rb_created b' = rb_created b \<and> rb_hosts b' = rb_hosts b \<and> rb_context b' = rb_context b \<and>
     rb_progress b' = rb_progress b \<and> rb_checkpoint b' = rb_checkpoint b \<and>
     (\<exists>new. rb_attempt_runs b' = rb_attempt_runs b @ new) \<and> (terminal_batch b \<longrightarrow> b' = b)"

definition batches_le :: "db \<Rightarrow> db \<Rightarrow> bool" where
  "batches_le db db' \<longleftrightarrow>
     (\<forall>k b. get_batch db k = Some b \<longrightarrow> (\<exists>b'. get_batch db' k = Some b' \<and> batch_le b b'))"

lemma batch_le_refl [simp]: "batch_le b b"
  by (simp add: batch_le_def)

lemma batch_le_trans: "batch_le a b \<Longrightarrow> batch_le b c \<Longrightarrow> batch_le a c"
  by (auto simp: batch_le_def)

lemma batches_le_refl [simp]: "batches_le db db"
  by (simp add: batches_le_def)

lemma batches_le_trans: "batches_le a b \<Longrightarrow> batches_le b c \<Longrightarrow> batches_le a c"
  unfolding batches_le_def using batch_le_trans by meson

lemma batch_inv_cong: "t_batches db' = t_batches db \<Longrightarrow> batch_inv db' = batch_inv db"
  by (simp add: batch_inv_def)

lemma get_batch_cong: "t_batches db' = t_batches db \<Longrightarrow> get_batch db' k = get_batch db k"
  by (simp add: get_batch_def)

lemma get_batch_wf: "batch_inv db \<Longrightarrow> get_batch db k = Some b \<Longrightarrow> batch_wf b \<and> rb_id b = k"
  by (auto simp: get_batch_def batch_inv_def row_matches_def dest!: tbl_get_SomeD)

lemma updated_wf [simp]: "batch_wf (b\<lparr>rb_updated := now\<rparr>) = batch_wf b"
  by (simp add: batch_wf_def terminal_batch_def)

lemma save_batch_inv:
  assumes inv: "batch_inv db" and get: "get_batch db (rb_id b) = Some b0"
    and "rb_seed_run b = rb_seed_run b0" and wf: "batch_wf b"
  shows "batch_inv (save_batch db b now)"
    and "get_batch (save_batch db b now) k = (if k = rb_id b then Some (b\<lparr>rb_updated := now\<rparr>) else get_batch db k)"
proof -
  let ?f = "\<lambda>r. r\<lparr>br_status := rb_status b, br_hold_until := rb_not_before b, br_data := b\<lparr>rb_updated := now\<rparr>, br_updated := now\<rparr>"
  have rows: "t_batches (save_batch db b now) = tbl_upd br_id (rb_id b) ?f (t_batches db)"
    by (simp add: save_batch_def)
  from get obtain r0 where r0: "r0 \<in> set (t_batches db)" "br_id r0 = rb_id b" "br_data r0 = b0"
    by (auto simp: get_batch_def dest: tbl_get_SomeD)
  have seed: "br_seed_run r0 = rb_seed_run b" using inv r0 assms(3) by (auto simp: batch_inv_def row_matches_def)
  have same: "r = r0" if "r \<in> set (t_batches db)" "br_id r = rb_id b" for r
    using inv that r0 by (auto simp: batch_inv_def distinct_map inj_on_def)
  have "row_matches r \<and> batch_wf (br_data r)" if "r \<in> set (t_batches (save_batch db b now))" for r
  proof -
    from that obtain x where x: "x \<in> set (t_batches db)" "r = (if br_id x = rb_id b then ?f x else x)"
      unfolding rows set_tbl_upd by blast
    show ?thesis
    proof (cases "br_id x = rb_id b")
      case True
      with same [OF x(1)] have "x = r0" by simp
      with x(2) True seed wf r0(2) show ?thesis by (simp add: row_matches_def)
    next
      case False
      with x inv show ?thesis by (simp add: batch_inv_def)
    qed
  qed
  moreover have "distinct (map br_id (t_batches (save_batch db b now)))"
    "distinct (map br_seed_run (t_batches (save_batch db b now)))"
    using inv unfolding rows by (simp_all add: batch_inv_def tbl_upd_def comp_def if_distrib cong: if_cong)
  ultimately show "batch_inv (save_batch db b now)" by (simp add: batch_inv_def)
  show "get_batch (save_batch db b now) k = (if k = rb_id b then Some (b\<lparr>rb_updated := now\<rparr>) else get_batch db k)"
    using get by (auto simp: get_batch_def rows tbl_get_upd)
qed

subsection \<open>The parts of a tick\<close>

lemma stop_batch_wf:
  assumes "batch_wf b" and "status \<in> {NeedsAttention, BCancelled, Recovered}"
  shows "batch_wf (stop_batch b reason now status)"
  using assms by (auto simp: batch_wf_def stop_batch_def terminal_batch_def active_batch_def)

lemma stop_batch_le: "active_batch (rb_status b) \<Longrightarrow> batch_le b (stop_batch b reason now status)"
  by (simp add: batch_le_def stop_batch_def terminal_batch_def)

lemma updated_le: "active_batch (rb_status b) \<Longrightarrow> batch_le b b' \<Longrightarrow> batch_le b (b'\<lparr>rb_updated := now\<rparr>)"
  by (simp add: batch_le_def terminal_batch_def)

text \<open>What a batch must satisfy before a new decision on its status is made.\<close>

definition batch_limits :: "recovery_batch \<Rightarrow> bool" where
  "batch_limits b \<longleftrightarrow> rb_max_attempts b = 3 \<and> rb_max_requests b = 360 \<and> length (rb_attempt_runs b) \<le> 3 \<and>
     rb_reserved b = request_limit * length (rb_attempt_runs b) \<and>
     rb_expires b = rb_created b + 24 * 3600 * 1000000"

lemma batch_wf_limits: "batch_wf b \<Longrightarrow> batch_limits b"
  by (simp add: batch_wf_def batch_limits_def)

lemma stop_limits_wf:
  assumes "batch_limits b" and "status \<in> {NeedsAttention, BCancelled, Recovered}"
  shows "batch_wf (stop_batch b reason now status)"
  using assms by (auto simp: batch_wf_def batch_limits_def stop_batch_def terminal_batch_def active_batch_def)

lemma cool_wf:
  assumes "batch_limits b" and "rb_active_run b = None"
  shows "batch_wf (cool b r now)"
proof -
  let ?b1 = "b\<lparr>rb_not_before := Some (cool_due b r now)\<rparr>"
  have "batch_limits ?b1" using assms(1) by (simp add: batch_limits_def)
  note stop_limits_wf [OF this]
  then show ?thesis using assms
    by (auto simp: cool_def Let_def) (auto simp: batch_wf_def batch_limits_def terminal_batch_def active_batch_def)
qed

lemma cool_le: "active_batch (rb_status b) \<Longrightarrow> batch_le b (cool b r now)"
  by (simp add: cool_def Let_def batch_le_def stop_batch_def terminal_batch_def)


lemma judge_attempt_wf:
  assumes "batch_limits b" and "rb_active_run b = None" and "active_batch (rb_status b)"
    and "judge_attempt ph hostname db c b r now = Inr b'"
  shows "batch_wf b'" and "batch_le b b'"
proof -
  have nb: "batch_limits (b\<lparr>rb_not_before := None\<rparr>)" using assms(1) by (simp add: batch_limits_def)
  have "batch_wf b' \<and> batch_le b b'"
    using assms stop_limits_wf [OF assms(1)] stop_limits_wf [OF nb] cool_wf [OF assms(1,2)]
      stop_batch_le [OF assms(3)] cool_le [OF assms(3)]
    unfolding judge_attempt_def
    by (auto split: if_splits sum.splits) (simp_all add: batch_le_def stop_batch_def terminal_batch_def)
  then show "batch_wf b'" and "batch_le b b'" by blast+
qed

lemma judge_attempt_attempts:
  "judge_attempt ph hostname db c b r now = Inr b' \<Longrightarrow> rb_attempt_runs b' = rb_attempt_runs b"
  unfolding judge_attempt_def by (auto simp: stop_batch_def cool_def Let_def split: if_splits sum.splits)

text \<open>The effect of a step on the batch it handles: that batch moves on, the others stay.\<close>

definition batch_moves :: "db \<Rightarrow> db \<Rightarrow> recovery_batch \<Rightarrow> recovery_batch \<Rightarrow> bool" where
  "batch_moves db db' b b' \<longleftrightarrow> batch_inv db' \<and> get_batch db' (rb_id b) = Some b' \<and> batch_le b b' \<and>
     (\<forall>k. k \<noteq> rb_id b \<longrightarrow> get_batch db' k = get_batch db k)"

lemma batch_moves_refl: "batch_inv db \<Longrightarrow> get_batch db (rb_id b) = Some b \<Longrightarrow> batch_moves db db b b"
  by (simp add: batch_moves_def)

lemma batch_moves_trans: "batch_moves a b x y \<Longrightarrow> batch_moves b c y z \<Longrightarrow> batch_moves a c x z"
proof -
  assume m: "batch_moves a b x y" "batch_moves b c y z"
  then have "rb_id y = rb_id x" by (simp add: batch_moves_def batch_le_def)
  with m show ?thesis unfolding batch_moves_def using batch_le_trans by metis
qed

lemma save_batch_moves:
  assumes "batch_inv db" and "get_batch db (rb_id b) = Some b" and "active_batch (rb_status b)"
    and "batch_le b b'" and "batch_wf b'"
  shows "batch_moves db (save_batch db b' now) b (b'\<lparr>rb_updated := now\<rparr>)"
proof -
  have ids: "rb_id b' = rb_id b" "rb_seed_run b' = rb_seed_run b" using assms(4) by (simp_all add: batch_le_def)
  note s = save_batch_inv [OF assms(1) assms(2) [folded ids(1)] ids(2) assms(5)]
  show ?thesis using s updated_le [OF assms(3,4)] by (simp add: batch_moves_def ids)
qed

lemma batch_moves_cong:
  assumes "t_batches db1 = t_batches db" and "batch_moves db1 db' b b'"
  shows "batch_moves db db' b b'"
  using assms(2) get_batch_cong [OF assms(1)] by (simp add: batch_moves_def)

lemma observe_attempt_moves:
  assumes inv: "batch_inv db" and get: "get_batch db (rb_id b) = Some b" and act: "active_batch (rb_status b)"
    and run: "observe_attempt ph hostname db c b now = Inr (db1, b1, skip)"
  shows "\<exists>b'. batch_moves db db1 b b' \<and> rb_attempt_runs b' = rb_attempt_runs b \<and> (\<not> skip \<longrightarrow> b' = b1)"
proof -
  have wf: "batch_wf b" by (rule get_batch_wf [OF inv get, THEN conjunct1])
  show ?thesis
  proof (cases "rb_active_run b")
    case None
    with run batch_moves_refl [OF inv get] show ?thesis by (simp add: observe_attempt_def)
  next
    case (Some rid)
    with run obtain r where r: "get_run db rid = Some r" by (auto simp: observe_attempt_def split: option.splits)
    show ?thesis
    proof (cases "nonterminal_run (run_status r)")
      case True
      show ?thesis
      proof (cases "rb_expires b \<le> now \<or> rb_cancel b")
        case False
        with True run Some r batch_moves_refl [OF inv get] show ?thesis by (auto simp: observe_attempt_def)
      next
        case late: True
        let ?b = "b\<lparr>rb_status := Cancelling, rb_reason := if rb_cancel b then ''cancel_requested'' else ''deadline_reached''\<rparr>"
        from late True run Some r obtain o' db0 where s: "save_operation db o' (col_id c) now = Inr db0"
          "db1 = save_batch db0 ?b now" "skip"
          by (auto simp: observe_attempt_def Let_def split: option.splits sum.splits)
        have rows: "t_batches db0 = t_batches db" by (rule save_operation_frame(9) [OF s(1)])
        have "batch_wf ?b" using wf act Some
          by (auto simp: batch_wf_def terminal_batch_def active_batch_def)
        moreover have "batch_le b ?b" using act by (simp add: batch_le_def terminal_batch_def)
        ultimately have "batch_moves db0 db1 b (?b\<lparr>rb_updated := now\<rparr>)" unfolding s(2)
          using inv get act by (intro save_batch_moves) (simp_all add: batch_inv_cong [OF rows] get_batch_cong [OF rows])
        from batch_moves_cong [OF rows this] s(3) show ?thesis by (intro exI conjI) (assumption, simp_all)
      qed
    next
      case False
      let ?b0 = "b\<lparr>rb_active_run := None\<rparr>"
      from False run Some r obtain b2 where j: "judge_attempt ph hostname db c ?b0 r now = Inr b2"
        "db1 = save_batch db b2 now" "b1 = b2\<lparr>rb_updated := now\<rparr>" "\<not> skip"
        by (auto simp: observe_attempt_def split: sum.splits)
      have "batch_limits ?b0" using batch_wf_limits [OF wf] by (simp add: batch_limits_def)
      note w = judge_attempt_wf [OF this _ _ j(1)]
      have "batch_wf b2" "batch_le ?b0 b2" using w act by simp_all
      moreover from this(2) have "batch_le b b2" using act by (simp add: batch_le_def terminal_batch_def)
      ultimately have "batch_moves db db1 b b1" using save_batch_moves [OF inv get act] j by simp
      moreover have "rb_attempt_runs b1 = rb_attempt_runs b" using judge_attempt_attempts [OF j(1)] j(3) by simp
      ultimately show ?thesis by blast
    qed
  qed
qed


text \<open>A new attempt: one at a time, after the cool-down, before the deadline.\<close>

definition attempt_rule :: "ts \<Rightarrow> recovery_batch \<Rightarrow> recovery_batch \<Rightarrow> bool" where
  "attempt_rule now b b' \<longleftrightarrow>
     rb_attempt_runs b' = rb_attempt_runs b \<or>
     (\<exists>rid d. rb_attempt_runs b' = rb_attempt_runs b @ [rid] \<and> rb_active_run b' = Some rid \<and>
        rb_status b' = BRunning \<and> rb_not_before b' = Some d \<and> d \<le> now \<and> now < rb_expires b')"

lemma attempt_rule_refl [simp]: "attempt_rule now b b"
  by (simp add: attempt_rule_def)

lemma attempt_rule_same: "rb_attempt_runs b1 = rb_attempt_runs b \<Longrightarrow> attempt_rule now b1 b' \<Longrightarrow> attempt_rule now b b'"
  by (simp add: attempt_rule_def)

lemma dispatch_attempt_cases:
  assumes run: "dispatch_attempt ph create_run db c b now = Inr (db', b', n)"
    and wf: "batch_wf b" and cooling: "rb_status b = CoolingDown"
    and keeps: "\<And>db cid bid. t_batches (fst (create_run db cid bid)) = t_batches db"
  shows "t_batches db' = t_batches db" and "batch_wf b'" and "batch_le b b'" and "attempt_rule now b b'"
proof -
  have act: "active_batch (rb_status b)" using cooling by (simp add: active_batch_def)
  note stopped = stop_batch_wf [OF wf] stop_batch_le [OF act]
  from wf cooling obtain d where d: "rb_next_attempt b = Some d" "rb_not_before b = Some d" "length (rb_attempt_runs b) < 3"
    by (auto simp: batch_wf_def)
  have stop_rule: "attempt_rule now b (stop_batch b x now y)" for x y by (simp add: attempt_rule_def stop_batch_def)
  have "t_batches db' = t_batches db \<and> batch_wf b' \<and> batch_le b b' \<and> attempt_rule now b b'"
  proof (cases "\<exists>rid db1. create_run db (col_id c) (rb_id b) = (db1, Inr rid) \<and>
      b' = b\<lparr>rb_active_run := Some rid, rb_attempt_runs := rb_attempt_runs b @ [rid],
             rb_reserved := rb_reserved b + request_limit, rb_status := BRunning,
             rb_next_attempt := None, rb_reason := ''continuation_running''\<rparr> \<and> db' = db1 \<and> d \<le> now \<and> now < rb_expires b")
    case True
    then obtain rid db1 where t: "create_run db (col_id c) (rb_id b) = (db1, Inr rid)"
      "b' = b\<lparr>rb_active_run := Some rid, rb_attempt_runs := rb_attempt_runs b @ [rid],
             rb_reserved := rb_reserved b + request_limit, rb_status := BRunning,
             rb_next_attempt := None, rb_reason := ''continuation_running''\<rparr>" "db' = db1" "d \<le> now" "now < rb_expires b"
      by blast
    have "t_batches db' = t_batches db" using keeps [of db "col_id c" "rb_id b"] t(1,3) by simp
    moreover have "batch_wf b'" using wf d(3) unfolding t(2)
      by (simp add: batch_wf_def terminal_batch_def active_batch_def)
    moreover have "batch_le b b'" using act unfolding t(2) by (simp add: batch_le_def terminal_batch_def)
    moreover have "attempt_rule now b b'" using t(4,5) d(2) unfolding t(2) by (simp add: attempt_rule_def)
    ultimately show ?thesis by blast
  next
    case False
    then have "(db' = db \<and> b' = b) \<or> ((db' = db \<or> db' = fst (create_run db (col_id c) (rb_id b))) \<and>
        (\<exists>reason. b' = stop_batch b reason now NeedsAttention))"
      using run d unfolding dispatch_attempt_def
      by (auto split: if_splits sum.splits option.splits prod.splits)
    then show ?thesis
    proof (elim disjE conjE exE)
      assume "db' = db" "b' = b"
      then show ?thesis using wf by simp
    next
      fix reason assume "db' = db" "b' = stop_batch b reason now NeedsAttention"
      then show ?thesis using stopped stop_rule by simp
    next
      fix reason assume "db' = fst (create_run db (col_id c) (rb_id b))" "b' = stop_batch b reason now NeedsAttention"
      then show ?thesis using stopped stop_rule keeps by simp
    qed
  qed
  then show "t_batches db' = t_batches db" "batch_wf b'" "batch_le b b'" "attempt_rule now b b'" by blast+
qed

lemma tick_batch_moves:
  assumes inv: "batch_inv db" and get: "get_batch db (rb_id b) = Some b" and act: "active_batch (rb_status b)"
    and run: "tick_batch ph hostname create_run now b (db, n) = Inr (db', n')"
    and keeps: "\<And>db cid bid. t_batches (fst (create_run db cid bid)) = t_batches db"
  shows "\<exists>b'. batch_moves db db' b b' \<and> attempt_rule now b b'"
proof (cases "lock_collector db (rb_collector b)")
  case (Some e)
  let ?s = "stop_batch b ''source_unavailable'' now NeedsAttention"
  have "db' = save_batch db ?s now" using run Some by (simp add: tick_batch_def)
  moreover have "batch_wf ?s" using stop_batch_wf [OF get_batch_wf [OF inv get, THEN conjunct1]] by simp
  ultimately have "batch_moves db db' b (?s\<lparr>rb_updated := now\<rparr>)"
    using save_batch_moves [OF inv get act stop_batch_le [OF act]] by simp
  moreover have "attempt_rule now b (?s\<lparr>rb_updated := now\<rparr>)" by (simp add: attempt_rule_def stop_batch_def)
  ultimately show ?thesis by blast
next
  case None
  with run obtain c db1 b1 skip where o: "observe_attempt ph hostname db c b now = Inr (db1, b1, skip)"
    "(if skip \<or> rb_status b1 \<noteq> CoolingDown then Inr (db1, n)
      else (case dispatch_attempt ph create_run db1 c b1 now of
               Inl e \<Rightarrow> Inl e
             | Inr (db2, b2, k) \<Rightarrow> Inr (save_batch db2 b2 now, n + k))) = Inr (db', n')"
    by (auto simp: tick_batch_def split: option.splits sum.splits prod.splits)
  from observe_attempt_moves [OF inv get act o(1)] obtain b0 where m: "batch_moves db db1 b b0"
    "rb_attempt_runs b0 = rb_attempt_runs b" "\<not> skip \<longrightarrow> b0 = b1" by blast
  show ?thesis
  proof (cases "skip \<or> rb_status b1 \<noteq> CoolingDown")
    case True
    with o(2) m show ?thesis by (auto simp: attempt_rule_def)
  next
    case False
    with o(2) obtain db2 b2 k where d: "dispatch_attempt ph create_run db1 c b1 now = Inr (db2, b2, k)"
      "db' = save_batch db2 b2 now" by (auto split: sum.splits prod.splits)
    from m False have m1: "batch_moves db db1 b b1" "rb_attempt_runs b1 = rb_attempt_runs b" by simp_all
    then have i1: "batch_inv db1" and id: "rb_id b1 = rb_id b" and g1: "get_batch db1 (rb_id b1) = Some b1"
      by (simp_all add: batch_moves_def batch_le_def)
    have wf1: "batch_wf b1" by (rule get_batch_wf [OF i1 g1, THEN conjunct1])
    from False have c1: "rb_status b1 = CoolingDown" by simp
    note dc = dispatch_attempt_cases [OF d(1) wf1 c1 keeps]
    have "batch_moves db2 db' b1 (b2\<lparr>rb_updated := now\<rparr>)" unfolding d(2)
      using i1 g1 c1 dc(2,3)
      by (intro save_batch_moves) (simp_all add: batch_inv_cong [OF dc(1)] get_batch_cong [OF dc(1)] active_batch_def)
    from batch_moves_trans [OF m1(1) batch_moves_cong [OF dc(1) this]]
    have "batch_moves db db' b (b2\<lparr>rb_updated := now\<rparr>)" .
    moreover have "attempt_rule now b (b2\<lparr>rb_updated := now\<rparr>)"
      using attempt_rule_same [OF m1(2) dc(4)] by (simp add: attempt_rule_def)
    ultimately show ?thesis by blast
  qed
qed


lemma tick_loop:
  assumes "fold_result (tick_batch ph hostname create_run now) xs (db, n) = Inr (db', n')"
    and "batch_inv db" and "distinct (map rb_id xs)"
    and "\<forall>b \<in> set xs. get_batch db (rb_id b) = Some b \<and> active_batch (rb_status b)"
    and keeps: "\<And>db cid bid. t_batches (fst (create_run db cid bid)) = t_batches db"
  shows "batch_inv db' \<and> (\<forall>k b. get_batch db k = Some b \<longrightarrow>
           (\<exists>b'. get_batch db' k = Some b' \<and> batch_le b b' \<and> attempt_rule now b b')) \<and>
    (\<forall>k. k \<notin> rb_id ` set xs \<longrightarrow> get_batch db' k = get_batch db k)"
  using assms(1-4)
proof (induction xs arbitrary: db n)
  case Nil
  then show ?case by auto
next
  case (Cons x xs)
  from Cons.prems(1) obtain db1 n1 where f: "tick_batch ph hostname create_run now x (db, n) = Inr (db1, n1)"
    "fold_result (tick_batch ph hostname create_run now) xs (db1, n1) = Inr (db', n')"
    by (auto split: sum.splits)
  have x: "get_batch db (rb_id x) = Some x" "active_batch (rb_status x)" using Cons.prems(4) by simp_all
  from tick_batch_moves [OF Cons.prems(2) x f(1) keeps] obtain x' where m: "batch_moves db db1 x x'" "attempt_rule now x x'"
    by blast
  have notin: "rb_id b \<noteq> rb_id x" if "b \<in> set xs" for b using Cons.prems(3) that by (auto simp: image_iff)
  have rest: "\<forall>b \<in> set xs. get_batch db1 (rb_id b) = Some b \<and> active_batch (rb_status b)"
  proof
    fix b assume b: "b \<in> set xs"
    then have "get_batch db1 (rb_id b) = get_batch db (rb_id b)" using m(1) notin by (simp add: batch_moves_def)
    with b Cons.prems(4) show "get_batch db1 (rb_id b) = Some b \<and> active_batch (rb_status b)" by simp
  qed
  have inv1: "batch_inv db1" using m(1) by (simp add: batch_moves_def)
  have dist: "distinct (map rb_id xs)" using Cons.prems(3) by simp
  note ih = Cons.IH [OF f(2) inv1 dist rest]
  have "\<exists>b'. get_batch db' k = Some b' \<and> batch_le b b' \<and> attempt_rule now b b'" if b: "get_batch db k = Some b" for k b
  proof (cases "k = rb_id x")
    case True
    with b x(1) have bx: "b = x" by simp
    have "rb_id x \<notin> rb_id ` set xs" using notin by force
    then have "get_batch db' (rb_id x) = get_batch db1 (rb_id x)" using ih by blast
    with m True bx show ?thesis by (simp add: batch_moves_def)
  next
    case False
    with b m(1) have "get_batch db1 k = Some b" by (simp add: batch_moves_def)
    with ih show ?thesis by blast
  qed
  moreover have "get_batch db' k = get_batch db k" if "k \<notin> rb_id ` set (x # xs)" for k
    using ih m(1) that by (simp add: batch_moves_def)
  ultimately show ?case using ih by blast
qed

lemma active_batches_current:
  assumes "batch_inv db"
  shows "distinct (map rb_id (active_batches db))"
    and "\<forall>b \<in> set (active_batches db). get_batch db (rb_id b) = Some b \<and> active_batch (rb_status b)"
proof -
  let ?rows = "sort_key (\<lambda>r. iso_key (br_created r)) (filter (\<lambda>r. active_batch (br_status r)) (t_batches db))"
  have ok: "\<forall>r \<in> set (t_batches db). row_matches r" and dist: "distinct (map br_id (t_batches db))"
    using assms by (simp_all add: batch_inv_def)
  have "map rb_id (active_batches db) = map br_id ?rows"
    using ok by (simp add: active_batches_def row_matches_def)
  moreover have "distinct (map br_id ?rows)"
    using dist by (simp add: distinct_map inj_on_def)
  ultimately show "distinct (map rb_id (active_batches db))" by simp
  show "\<forall>b \<in> set (active_batches db). get_batch db (rb_id b) = Some b \<and> active_batch (rb_status b)"
  proof
    fix b assume "b \<in> set (active_batches db)"
    then obtain r where r: "r \<in> set (t_batches db)" "active_batch (br_status r)" "b = br_data r"
      by (auto simp: active_batches_def)
    from tbl_get_unique [OF dist r(1)] r ok show "get_batch db (rb_id b) = Some b \<and> active_batch (rb_status b)"
      by (simp add: get_batch_def row_matches_def)
  qed
qed

subsection \<open>Starting and stopping\<close>

lemma finish_command_batches:
  assumes "finish_command ph db scope key body value status audit tt tid action i now = Inr (db', st, v, rep)"
  shows "t_batches db' = t_batches db"
  by (subst finish_command_cases(7) [OF assms]) simp

lemma start_recovery_cases:
  assumes "start_recovery ph hostname verify batch_json db rid key audit bid event_id now = Inr (db', st, v, rep)"
  obtains (replayed) "db' = db" "rep"
    | (started) r c b where "get_run db rid = Some r" "get_collector db (run_collector r) = Some c"
        "seed_valid db c rid r" "seed_verified verify db c r" "guard_source_work hostname db c None now = None"
        "b = cool (new_batch ph hostname db c rid r (the (col_coverage c)) bid now) r now"
        "tbl_get br_id bid (t_batches db) = None" "tbl_get br_seed_run rid (t_batches db) = None"
        "t_batches db' = t_batches db @ [batch_row_of b]"
  using assms unfolding start_recovery_def
proof (cases rule: with_receipt_cases)
  case replayed
  then show ?thesis using that(1) by blast
next
  case executed
  from executed(2) obtain r c where f: "get_run db rid = Some r" "get_collector db (run_collector r) = Some c"
    "seed_valid db c rid r" "seed_verified verify db c r" "guard_source_work hostname db c None now = None"
    "tbl_get br_id bid (t_batches db) = None" "tbl_get br_seed_run rid (t_batches db) = None"
    "finish_command ph (db\<lparr>t_batches := t_batches db @
         [batch_row_of (cool (new_batch ph hostname db c rid r (the (col_coverage c)) bid now) r now)]\<rparr>)
       (start_scope rid) key (JObj [])
       (batch_json (cool (new_batch ph hostname db c rid r (the (col_coverage c)) bid now) r now)) 201 audit
       ''recovery_batch'' bid ''recovery.start'' event_id now = Inr (db', st, v, rep)"
    by (auto simp: Let_def split: if_splits option.splits)
  have "t_batches db' = t_batches db @ [batch_row_of (cool (new_batch ph hostname db c rid r (the (col_coverage c)) bid now) r now)]"
    using finish_command_batches [OF f(8)] by simp
  with f(1-7) that(2) show ?thesis by blast
qed


lemma start_recovery_keeps:
  assumes inv: "batch_inv db"
    and run: "start_recovery ph hostname verify batch_json db rid key audit bid event_id now = Inr (db', st, v, rep)"
  shows "batch_inv db' \<and> batches_le db db'"
  using run
proof (cases rule: start_recovery_cases)
  case replayed
  with inv show ?thesis by simp
next
  case (started r c b)
  let ?n = "new_batch ph hostname db c rid r (the (col_coverage c)) bid now"
  have ids: "rb_id b = bid" "rb_seed_run b = rid" unfolding started(6)
    by (simp_all add: cool_def new_batch_def stop_batch_def Let_def)
  have "batch_limits ?n" "rb_active_run ?n = None" by (simp_all add: batch_limits_def new_batch_def)
  then have wf: "batch_wf b" unfolding started(6) by (rule cool_wf)
  have "row_matches (batch_row_of b)" by (simp add: row_matches_def batch_row_of_def)
  then have "batch_inv db'" using inv wf started(7,8) ids
    by (auto simp: batch_inv_def started(9) batch_row_of_def tbl_get_None_iff)
  moreover have "batches_le db db'"
    by (auto simp: batches_le_def get_batch_def started(9) tbl_get_append)
  ultimately show ?thesis ..
qed

lemma request_stop_keeps:
  assumes inv: "batch_inv db"
    and run: "request_stop ph batch_json db bid key audit event_id now = Inr (db', st, v, rep)"
  shows "batch_inv db' \<and> batches_le db db'"
  using run unfolding request_stop_def
proof (cases rule: with_receipt_cases)
  case replayed
  with inv show ?thesis by simp
next
  case executed
  from executed(2) obtain b where b: "get_batch db bid = Some b" by (auto split: option.splits)
  note wf = get_batch_wf [OF inv b]
  have get: "get_batch db (rb_id b) = Some b" using b wf by simp
  show ?thesis
  proof (cases "active_batch (rb_status b)")
    case False
    with executed(2) b have "finish_command ph db (stop_scope bid) key (JObj []) (batch_json b) 200 audit ''recovery_batch'' bid
                  ''recovery.cancel'' event_id now = Inr (db', st, v, rep)" by simp
    then have rows: "t_batches db' = t_batches db" by (rule finish_command_batches)
    show ?thesis using inv by (simp add: batch_inv_cong [OF rows] batches_le_def get_batch_cong [OF rows])
  next
    case act: True
    have "\<exists>db0 b2 db1. t_batches db0 = t_batches db \<and> db1 = save_batch db0 b2 now \<and> batch_wf b2 \<and> batch_le b b2 \<and>
        t_batches db' = t_batches db1"
    proof (cases "rb_active_run b")
      case None
      let ?b2 = "stop_batch (b\<lparr>rb_cancel := True\<rparr>) ''cancel_requested'' now BCancelled"
      from None act executed(2) b have "t_batches db' = t_batches (save_batch db ?b2 now)"
        by (auto simp: Let_def dest: finish_command_batches)
      moreover have "batch_limits (b\<lparr>rb_cancel := True\<rparr>)"
        using batch_wf_limits [OF wf [THEN conjunct1]] by (simp add: batch_limits_def)
      then have "batch_wf ?b2" by (rule stop_limits_wf) simp
      moreover have "batch_le b ?b2" using act by (simp add: batch_le_def stop_batch_def terminal_batch_def)
      ultimately show ?thesis by blast
    next
      case (Some rid)
      let ?b2 = "b\<lparr>rb_cancel := True, rb_status := Cancelling, rb_reason := ''cancel_requested'', rb_next_attempt := None\<rparr>"
      from Some act executed(2) b obtain db0 where c: "cancel_attempt db (b\<lparr>rb_cancel := True\<rparr>) rid now = Inr db0"
        "t_batches db' = t_batches (save_batch db0 ?b2 now)"
        by (auto simp: Let_def dest: finish_command_batches split: sum.splits)
      have "t_batches db0 = t_batches db"
        using c(1) by (auto simp: cancel_attempt_def dest: save_operation_frame(9) split: option.splits if_splits)
      moreover have "batch_wf ?b2" using wf act Some by (auto simp: batch_wf_def terminal_batch_def active_batch_def)
      moreover have "batch_le b ?b2" using act by (simp add: batch_le_def terminal_batch_def)
      ultimately show ?thesis using c(2) by blast
    qed
    then obtain db0 b2 db1 where e: "t_batches db0 = t_batches db" "db1 = save_batch db0 b2 now" "batch_wf b2"
      "batch_le b b2" "t_batches db' = t_batches db1" by blast
    have "batch_moves db0 db1 b (b2\<lparr>rb_updated := now\<rparr>)" unfolding e(2)
      using inv get act e(3,4) by (intro save_batch_moves) (simp_all add: batch_inv_cong [OF e(1)] get_batch_cong [OF e(1)])
    then have m: "batch_moves db db1 b (b2\<lparr>rb_updated := now\<rparr>)" by (rule batch_moves_cong [OF e(1)])
    then have "batch_inv db1 \<and> batches_le db db1"
      unfolding batch_moves_def batches_le_def using get by (metis batch_le_refl option.inject)
    then show ?thesis by (simp add: batch_inv_cong [OF e(5)] batches_le_def get_batch_cong [OF e(5)])
  qed
qed


subsection \<open>Histories of recovery batches\<close>

text \<open>\<open>RecoveryOther\<close> is any operation of the rest of the program: it leaves the batches alone.\<close>

datatype recovery_event =
    RecoveryStart string string audit_args string string ts
  | RecoveryStop string string audit_args string ts
  | RecoveryTick ts
  | RecoveryOther db

definition recovery_step ::
  "hasher \<Rightarrow> (string \<Rightarrow> string option) \<Rightarrow> verifier \<Rightarrow>
   (recovery_batch \<Rightarrow> json) \<Rightarrow> run_starter \<Rightarrow> db \<Rightarrow> recovery_event \<Rightarrow> db" where
  "recovery_step ph hostname verify batch_json create_run db e =
     (case (case e of
              RecoveryStart rid key audit bid i now \<Rightarrow>
                map_sum id fst (start_recovery ph hostname verify batch_json db rid key audit bid i now)
            | RecoveryStop bid key audit i now \<Rightarrow> map_sum id fst (request_stop ph batch_json db bid key audit i now)
            | RecoveryTick now \<Rightarrow> map_sum id fst (tick ph hostname create_run db now)
            | RecoveryOther d \<Rightarrow> Inr (d\<lparr>t_batches := t_batches db\<rparr>)) of
        Inl _ \<Rightarrow> db | Inr db' \<Rightarrow> db')"

locale batch_keeping_starter =
  fixes create_run :: run_starter
  assumes keeps_batches: "t_batches (fst (create_run db cid bid)) = t_batches db"
begin

lemma tick_effect:
  assumes "batch_inv db" and "tick ph hostname create_run db now = Inr (db', n)"
  shows "batch_inv db' \<and> (\<forall>k b. get_batch db k = Some b \<longrightarrow>
           (\<exists>b'. get_batch db' k = Some b' \<and> batch_le b b' \<and> attempt_rule now b b'))"
  using tick_loop [OF assms(2) [unfolded tick_def] assms(1) active_batches_current [OF assms(1)] keeps_batches] by blast

lemma step_keeps:
  assumes inv: "batch_inv db"
  shows "batch_inv (recovery_step ph hostname verify batch_json create_run db e) \<and>
    batches_le db (recovery_step ph hostname verify batch_json create_run db e)"
proof (cases e)
  case (RecoveryStart rid key audit bid i now)
  then show ?thesis using start_recovery_keeps [OF inv] inv
    by (auto simp: recovery_step_def split: sum.splits)
next
  case (RecoveryStop bid key audit i now)
  then show ?thesis using request_stop_keeps [OF inv] inv
    by (auto simp: recovery_step_def split: sum.splits)
next
  case (RecoveryTick now)
  then show ?thesis using tick_effect [OF inv] inv
    by (fastforce simp: recovery_step_def batches_le_def split: sum.splits)
next
  case (RecoveryOther d)
  have rows: "t_batches (d\<lparr>t_batches := t_batches db\<rparr>) = t_batches db" by simp
  show ?thesis using RecoveryOther inv batch_inv_cong [OF rows] get_batch_cong [OF rows]
    by (simp add: recovery_step_def batches_le_def)
qed

sublocale step_machine "recovery_step ph hostname verify batch_json create_run" batch_inv "\<lambda>_. 0"
  for ph hostname verify batch_json
  by unfold_locales (simp_all add: step_keeps)

lemma run_le:
  assumes "batch_inv db"
  shows "batches_le db (foldl (recovery_step ph hostname verify batch_json create_run) db es)"
  using assms
proof (induction es arbitrary: db)
  case Nil
  then show ?case by simp
next
  case (Cons e es)
  show ?case
    using step_keeps [OF Cons.prems, of ph hostname verify batch_json e] Cons.IH batches_le_trans by fastforce
qed

end

end
