(* ===== verification/Schedules.thy ===== *)
theory Schedules
  imports Policies
begin

text \<open>
  The schedule of a source and its occurrences (\<open>Store.validate_schedule\<close>,
  \<open>next_schedule_time\<close>, \<open>save_schedule\<close>, \<open>ensure_schedule\<close>, \<open>claim_due_schedules\<close>,
  \<open>pending_schedule_occurrences\<close>, \<open>finish_schedule_occurrence\<close>). The cron library is a
  pair of parameters: \<open>cron_valid expression\<close> is \<open>croniter.is_valid\<close> and
  \<open>next_time expression timezone base\<close> the next instant after \<open>base\<close>.
\<close>

type_synonym cron_next = "string \<Rightarrow> string \<Rightarrow> ts \<Rightarrow> ts"

definition default_schedule :: schedule_values where
  "default_schedule = \<lparr>sv_enabled = False, sv_cron = ''0 8 * * *'', sv_timezone = ''Asia/Shanghai'', sv_overlap = ''forbid''\<rparr>"

text \<open>\<open>len(expression.split())\<close>: the maximal runs of characters that are not white space.\<close>

fun word_count :: "bool \<Rightarrow> string \<Rightarrow> nat" where
  "word_count inside [] = 0"
| "word_count inside (c # cs) =
     (if is_space c then word_count False cs
      else if inside then word_count True cs else Suc (word_count True cs))"

definition validate_schedule :: "(string \<Rightarrow> bool) \<Rightarrow> schedule_values \<Rightarrow> py_exc + schedule_values" where
  "validate_schedule cron_valid v =
     (if sv_timezone v \<noteq> ''Asia/Shanghai'' \<or> sv_overlap v \<noteq> ''forbid''
      then Inl (ValueErr ''schedule timezone or overlap policy is invalid'')
      else
        (let expression = strip (sv_cron v)
         in if word_count False expression \<noteq> 5 \<or> \<not> cron_valid expression
            then Inl (ValueErr ''schedule cron expression must use a valid five-field format'')
            else Inr (v\<lparr>sv_cron := expression\<rparr>)))"

definition get_schedule :: "db \<Rightarrow> string \<Rightarrow> schedule option" where
  "get_schedule db cid = tbl_get sch_collector cid (t_schedules db)"

definition next_schedule :: "cron_next \<Rightarrow> schedule option \<Rightarrow> string \<Rightarrow> schedule_values \<Rightarrow> ts \<Rightarrow> schedule" where
  "next_schedule next_time existing cid v now =
     \<lparr>sch_id = (case existing of None \<Rightarrow> stable_id ''schedule'' (collector_suffix cid) 120 | Some s \<Rightarrow> sch_id s),
      sch_collector = cid,
      sch_revision = (case existing of None \<Rightarrow> 1 | Some s \<Rightarrow> sch_revision s + 1),
      sch_values = v,
      sch_last_triggered = (case existing of None \<Rightarrow> None | Some s \<Rightarrow> sch_last_triggered s),
      sch_next_run = (if sv_enabled v then Some (next_time (sv_cron v) (sv_timezone v) now) else None),
      sch_updated = now\<rparr>"

definition save_schedule ::
  "(string \<Rightarrow> bool) \<Rightarrow> cron_next \<Rightarrow> db \<Rightarrow> string \<Rightarrow> schedule_values \<Rightarrow> ts \<Rightarrow> py_exc + (db \<times> collector)" where
  "save_schedule cron_valid next_time db cid values now =
     (case validate_schedule cron_valid values of
        Inl e \<Rightarrow> Inl e
      | Inr v \<Rightarrow>
     (case lock_collector db cid of
        Some e \<Rightarrow> Inl e
      | None \<Rightarrow>
     (case get_collector db cid of
        None \<Rightarrow> Inl (KeyErr cid)
      | Some c \<Rightarrow>
     (case (if sv_enabled v then require_active (Some c) else None) of
        Some e \<Rightarrow> Inl e
      | None \<Rightarrow>
          (let s = next_schedule next_time (get_schedule db cid) cid v now
           in if get_schedule db cid = None \<and> tbl_get sch_id (sch_id s) (t_schedules db) \<noteq> None then Inl UniqueViolation
              else save_collector (db\<lparr>t_schedules := tbl_upsert sch_collector s (\<lambda>_. s) (t_schedules db)\<rparr>)
                (c\<lparr>col_schedule := Some s, col_updated := JustNow\<rparr>) False now)))))"

definition ensure_schedule ::
  "(string \<Rightarrow> bool) \<Rightarrow> cron_next \<Rightarrow> db \<Rightarrow> string \<Rightarrow> ts \<Rightarrow> py_exc + (db \<times> collector)" where
  "ensure_schedule cron_valid next_time db cid now =
     (case get_collector db cid of
        None \<Rightarrow> Inl (KeyErr cid)
      | Some c \<Rightarrow>
          (case get_schedule db cid of
             Some s \<Rightarrow>
               if col_schedule c \<noteq> Some s then save_collector db (c\<lparr>col_schedule := Some s\<rparr>) False now
               else Inr (db, c)
           | None \<Rightarrow> save_schedule cron_valid next_time db cid default_schedule now))"

text \<open>The key of an occurrence: the hash of schedule, revision and due time.\<close>

definition occurrence_key :: "hasher \<Rightarrow> schedule \<Rightarrow> ts \<Rightarrow> string" where
  "occurrence_key ph s at =
     ''occurrence_'' @ take 32 (ph (JArr [JStr (sch_id s), JNum (int (sch_revision s)), JNum at]))"

definition new_occurrence :: "hasher \<Rightarrow> schedule \<Rightarrow> ts \<Rightarrow> ts \<Rightarrow> occurrence_row" where
  "new_occurrence ph s at now =
     \<lparr>oc_key = occurrence_key ph s at, oc_schedule = sch_id s, oc_collector = sch_collector s, oc_scheduled_at = at,
      oc_status = ''claimed'', oc_run = None, oc_reason = None, oc_created = now, oc_updated = now\<rparr>"

definition due_schedules :: "db \<Rightarrow> ts \<Rightarrow> schedule list" where
  "due_schedules db instant_at =
     sort_key (\<lambda>s. case sch_next_run s of None \<Rightarrow> 0 | Some t \<Rightarrow> iso_key t)
       (filter (\<lambda>s. sv_enabled (sch_values s) \<and> (case sch_next_run s of None \<Rightarrow> False | Some t \<Rightarrow> tle t instant_at))
         (t_schedules db))"

text \<open>One turn of the loop of \<open>claim_due_schedules\<close>; the row is read again after the lock.\<close>

definition claim_schedule ::
  "hasher \<Rightarrow> cron_next \<Rightarrow> ts \<Rightarrow> ts \<Rightarrow> schedule \<Rightarrow> db \<times> occurrence_row list \<Rightarrow> py_exc + db \<times> occurrence_row list" where
  "claim_schedule ph next_time instant_at now listed state =
     (case state of (db, claimed) \<Rightarrow>
     (if lock_collector db (sch_collector listed) \<noteq> None then Inr (db, claimed)
      else
     (case (tbl_get sch_id (sch_id listed) (t_schedules db), get_collector db (sch_collector listed)) of
        (Some s, Some c) \<Rightarrow>
          (case sch_next_run s of
             None \<Rightarrow> Inr (db, claimed)
           | Some at \<Rightarrow>
               if \<not> sv_enabled (sch_values s) \<or> tlt instant_at at \<or> col_lifecycle c = Archived then Inr (db, claimed)
               else
                 (let oc = new_occurrence ph s at now;
                      fresh = (tbl_get oc_key (oc_key oc) (t_occurrences db) = None);
                      s' = s\<lparr>sch_last_triggered := Some at,
                             sch_next_run := Some (next_time (sv_cron (sch_values s)) (sv_timezone (sch_values s)) instant_at),
                             sch_updated := now\<rparr>;
                      db1 = db\<lparr>t_occurrences := (if fresh then t_occurrences db @ [oc] else t_occurrences db),
                               t_schedules := tbl_upd sch_id (sch_id s) (\<lambda>_. s') (t_schedules db)\<rparr>
                  in (case save_collector db1 (c\<lparr>col_schedule := Some s'\<rparr>) False now of
                        Inl e \<Rightarrow> Inl e
                      | Inr (db2, _) \<Rightarrow> Inr (db2, if fresh then claimed @ [oc] else claimed))))
      | _ \<Rightarrow> Inl (RuntimeErr ''schedule missing''))))"

definition claim_due_schedules ::
  "hasher \<Rightarrow> cron_next \<Rightarrow> db \<Rightarrow> ts \<Rightarrow> ts \<Rightarrow> py_exc + db \<times> occurrence_row list" where
  "claim_due_schedules ph next_time db instant_at now =
     fold_result (claim_schedule ph next_time instant_at now) (due_schedules db instant_at) (db, [])"

definition pending_schedule_occurrences :: "db \<Rightarrow> nat \<Rightarrow> occurrence_row list" where
  "pending_schedule_occurrences db limit =
     take limit (sort_key (\<lambda>x. iso_key (oc_updated x))
       (sort_key oc_key (filter (\<lambda>x. oc_status x = ''claimed'') (t_occurrences db))))"

definition finish_schedule_occurrence ::
  "db \<Rightarrow> string \<Rightarrow> string \<Rightarrow> string option \<Rightarrow> string option \<Rightarrow> ts \<Rightarrow> py_exc + db" where
  "finish_schedule_occurrence db key status rid reason now =
     (case tbl_get oc_key key (t_occurrences db) of
        None \<Rightarrow> Inl (KeyErr key)
      | Some _ \<Rightarrow>
          Inr (db\<lparr>t_occurrences := tbl_upd oc_key key
                 (\<lambda>o'. o'\<lparr>oc_status := status, oc_run := rid, oc_reason := reason, oc_updated := now\<rparr>) (t_occurrences db)\<rparr>))"


subsection \<open>Histories of schedules\<close>

definition sched_inv :: "db \<Rightarrow> bool" where
  "sched_inv db \<longleftrightarrow>
     distinct (map sch_collector (t_schedules db)) \<and> distinct (map sch_id (t_schedules db)) \<and>
     distinct (map oc_key (t_occurrences db)) \<and>
     (\<forall>s \<in> set (t_schedules db). sv_enabled (sch_values s) = (sch_next_run s \<noteq> None)) \<and>
     (\<forall>cid c. stored_collector db cid = Some c \<longrightarrow> col_id c = cid \<and> col_schedule c = get_schedule db cid)"

lemma sched_invD:
  assumes "sched_inv db"
  shows "distinct (map sch_collector (t_schedules db))" "distinct (map sch_id (t_schedules db))"
    "distinct (map oc_key (t_occurrences db))"
    "\<And>s. s \<in> set (t_schedules db) \<Longrightarrow> sv_enabled (sch_values s) = (sch_next_run s \<noteq> None)"
    "\<And>cid c. stored_collector db cid = Some c \<Longrightarrow> col_id c = cid \<and> col_schedule c = get_schedule db cid"
  using assms unfolding sched_inv_def by blast+

text \<open>A source whose schedule may fire: neither deleted nor archived.\<close>

definition runnable :: "db \<Rightarrow> string \<Rightarrow> bool" where
  "runnable db cid = (case get_collector db cid of None \<Rightarrow> False | Some c \<Rightarrow> col_lifecycle c \<noteq> Archived)"

lemma runnable_stored:
  "runnable db cid \<longleftrightarrow> \<not> is_deleted db cid \<and>
     (case stored_collector db cid of None \<Rightarrow> False | Some c \<Rightarrow> col_lifecycle c \<noteq> Archived)"
  by (auto simp: runnable_def get_collector_def stored_collector_def split: option.splits)

definition pending_ids :: "db \<Rightarrow> ts \<Rightarrow> string set" where
  "pending_ids db instant_at =
     sch_id ` {s \<in> set (t_schedules db). sv_enabled (sch_values s) \<and> runnable db (sch_collector s) \<and>
       (case sch_next_run s of None \<Rightarrow> False | Some t \<Rightarrow> tle t instant_at)}"

text \<open>Replacing one schedule row and the copy in its source keeps the invariant.\<close>

lemma mirror_update:
  assumes inv: "sched_inv db"
    and run: "save_collector db1 (c\<lparr>col_schedule := Some s', col_updated := u\<rparr>) False now = Inr (db2, c')"
    and c: "get_collector db cid = Some c"
    and db1: "t_collectors db1 = t_collectors db" "t_deleted db1 = t_deleted db"
    and row: "get_schedule db1 cid = Some s'" "\<And>k. k \<noteq> cid \<Longrightarrow> get_schedule db1 k = get_schedule db k"
    and rows: "distinct (map sch_collector (t_schedules db1))" "distinct (map sch_id (t_schedules db1))"
      "distinct (map oc_key (t_occurrences db1))"
      "\<And>s. s \<in> set (t_schedules db1) \<Longrightarrow> sv_enabled (sch_values s) = (sch_next_run s \<noteq> None)"
  shows "sched_inv db2" and "t_schedules db2 = t_schedules db1" and "t_occurrences db2 = t_occurrences db1"
    and "t_deleted db2 = t_deleted db" and "\<And>k. runnable db2 k = runnable db k"
proof -
  from get_collector_stored [OF c] obtain old where old: "stored_collector db cid = Some old"
    "c = old\<lparr>col_collection_name := col_collection_name c\<rparr>" "\<not> is_deleted db cid" by metis
  have id: "col_id c = cid" by (subst old(2)) (use sched_invD(5) [OF inv old(1)] in simp)
  have life: "col_lifecycle c = col_lifecycle old" by (subst old(2)) simp
  note s = save_collector_ordinary [OF run]
  from s(3) obtain cs where db2: "db2 = db1\<lparr>t_collectors := cs\<rparr>" by blast
  then show sch: "t_schedules db2 = t_schedules db1" and oc: "t_occurrences db2 = t_occurrences db1"
    and del: "t_deleted db2 = t_deleted db" by (simp_all add: db1(2))
  have same: "stored_collector db1 k = stored_collector db k" for k by (rule stored_collector_cong) (rule db1(1))
  have stored: "stored_collector db2 k =
      (if k = cid then Some (c\<lparr>col_schedule := Some s', col_updated := u\<rparr>) else stored_collector db k)" for k
    using s(2) [of k] id same by simp
  have get: "get_schedule db2 k = get_schedule db1 k" for k by (simp add: get_schedule_def sch)
  have "col_id x = k \<and> col_schedule x = get_schedule db2 k" if "stored_collector db2 k = Some x" for k x
  proof (cases "k = cid")
    case True
    with that stored have "x = c\<lparr>col_schedule := Some s', col_updated := u\<rparr>" by simp
    with True show ?thesis by (simp add: get id row(1))
  next
    case False
    with that stored have "stored_collector db k = Some x" by simp
    from sched_invD(5) [OF inv this] False show ?thesis by (simp add: get row(2))
  qed
  then show "sched_inv db2" unfolding sched_inv_def sch oc using rows by blast
  show "runnable db2 k = runnable db k" for k
    by (auto simp: runnable_stored is_deleted_def del stored old(1) life split: option.splits)
qed

lemma tbl_get_const_upd:
  assumes "key r' = k"
  shows "tbl_get key j (tbl_upd key k (\<lambda>_. r') rows) =
    (if j = k then map_option (\<lambda>_. r') (tbl_get key j rows) else tbl_get key j rows)"
  using assms by (induction rows) (auto simp: tbl_upd_def)

lemma tbl_upd_by_other_key:
  assumes "distinct (map key rows)" "distinct (map kf rows)" "s \<in> set rows"
  shows "tbl_upd key (key s) f rows = tbl_upd kf (kf s) f rows"
  unfolding tbl_upd_def using assms by (auto simp: distinct_map inj_on_def)

lemma tbl_upd_const_keys:
  assumes "distinct (map key rows)" "s \<in> set rows" "kf s' = kf s" "distinct (map kf rows)"
  shows "map kf (tbl_upd key (key s) (\<lambda>_. s') rows) = map kf rows"
  using assms by (auto simp: tbl_upd_def distinct_map inj_on_def)

subsection \<open>Claiming what is due\<close>

lemma claim_schedule_cases:
  assumes run: "claim_schedule ph next_time instant_at now listed (db, claimed) = Inr (db', claimed')"
  obtains (skipped) "db' = db" "claimed' = claimed"
      "\<not> runnable db (sch_collector listed) \<or>
       (\<exists>s. tbl_get sch_id (sch_id listed) (t_schedules db) = Some s \<and>
          (case sch_next_run s of None \<Rightarrow> True | Some t \<Rightarrow> \<not> sv_enabled (sch_values s) \<or> tlt instant_at t))"
    | (fired) s c at oc s' c' where
      "tbl_get sch_id (sch_id listed) (t_schedules db) = Some s" "get_collector db (sch_collector listed) = Some c"
      "sch_next_run s = Some at" "sv_enabled (sch_values s)" "\<not> tlt instant_at at" "runnable db (sch_collector listed)"
      "oc = new_occurrence ph s at now"
      "s' = s\<lparr>sch_last_triggered := Some at,
              sch_next_run := Some (next_time (sv_cron (sch_values s)) (sv_timezone (sch_values s)) instant_at),
              sch_updated := now\<rparr>"
      "save_collector (db\<lparr>t_occurrences := (if tbl_get oc_key (oc_key oc) (t_occurrences db) = None
                                 then t_occurrences db @ [oc] else t_occurrences db),
                          t_schedules := tbl_upd sch_id (sch_id s) (\<lambda>_. s') (t_schedules db)\<rparr>)
         (c\<lparr>col_schedule := Some s'\<rparr>) False now = Inr (db', c')"
      "claimed' = (if tbl_get oc_key (oc_key oc) (t_occurrences db) = None then claimed @ [oc] else claimed)"
proof (cases "lock_collector db (sch_collector listed)")
  case (Some e)
  then have "\<not> runnable db (sch_collector listed)"
    using lock_collector_get [of db "sch_collector listed"]
    by (cases "get_collector db (sch_collector listed)") (auto simp: runnable_def)
  with Some run show ?thesis using skipped by (simp add: claim_schedule_def)
next
  case None
  with run obtain s c where sc: "tbl_get sch_id (sch_id listed) (t_schedules db) = Some s"
    "get_collector db (sch_collector listed) = Some c"
    by (auto simp: claim_schedule_def split: option.splits)
  show ?thesis
  proof (cases "sch_next_run s")
    assume "sch_next_run s = None"
    with sc run None show ?thesis by (intro skipped) (simp_all add: claim_schedule_def)
  next
    fix at assume at: "sch_next_run s = Some at"
    show ?thesis
    proof (cases "\<not> sv_enabled (sch_values s) \<or> tlt instant_at at \<or> col_lifecycle c = Archived")
      case True
      with sc run None at show ?thesis by (intro skipped) (auto simp: claim_schedule_def runnable_def)
    next
      case False
      let ?oc = "new_occurrence ph s at now"
      let ?s = "s\<lparr>sch_last_triggered := Some at,
              sch_next_run := Some (next_time (sv_cron (sch_values s)) (sv_timezone (sch_values s)) instant_at),
              sch_updated := now\<rparr>"
      let ?fresh = "tbl_get oc_key (oc_key ?oc) (t_occurrences db) = None"
      let ?db1 = "db\<lparr>t_occurrences := (if ?fresh then t_occurrences db @ [?oc] else t_occurrences db),
                      t_schedules := tbl_upd sch_id (sch_id s) (\<lambda>_. ?s) (t_schedules db)\<rparr>"
      from False sc run None at have
        "(case save_collector ?db1 (c\<lparr>col_schedule := Some ?s\<rparr>) False now of
            Inl e \<Rightarrow> Inl e
          | Inr (db2, _) \<Rightarrow> Inr (db2, if ?fresh then claimed @ [?oc] else claimed)) = Inr (db', claimed')"
        by (simp add: claim_schedule_def Let_def)
      then obtain c' where c': "save_collector ?db1 (c\<lparr>col_schedule := Some ?s\<rparr>) False now = Inr (db', c')"
        "claimed' = (if ?fresh then claimed @ [?oc] else claimed)"
        by (auto simp del: if_split split: sum.splits prod.splits)
      from False sc(2) have "runnable db (sch_collector listed)" by (simp add: runnable_def)
      with False show ?thesis by (intro fired [OF sc at _ _ _ refl refl c']) simp_all
    qed
  qed
qed

text \<open>The cron library: the next time is a whole minute after the base.\<close>

definition cron_law :: "cron_next \<Rightarrow> bool" where
  "cron_law next_time \<longleftrightarrow> (\<forall>e z t. t < next_time e z t \<and> next_time e z t mod 60000000 = 0)"

lemma cron_law_later:
  assumes "cron_law next_time"
  shows "tlt t (next_time e z t)"
proof -
  have lt: "t < next_time e z t" and m: "next_time e z t mod 60000000 = 0" using assms by (simp_all add: cron_law_def)
  have "(60000000 :: int) dvd next_time e z t" using m by (rule mod_0_imp_dvd)
  moreover have "(1000000 :: int) dvd 60000000" by simp
  ultimately have "(1000000 :: int) dvd next_time e z t" by (rule dvd_trans [rotated])
  then have "iso_key (next_time e z t) = 2 * next_time e z t + 1999999" by (simp add: iso_key_def dvd_eq_mod_eq_0)
  moreover have "iso_key t \<le> 2 * t + 1999999" by (simp add: iso_key_def)
  ultimately show ?thesis using lt by (simp add: tlt_def)
qed

definition schedule_shape :: "db \<Rightarrow> (string \<times> string) list" where
  "schedule_shape db = map (\<lambda>s. (sch_id s, sch_collector s)) (t_schedules db)"

text \<open>The occurrence a schedule row stands for when it is due.\<close>

definition due_occurrence :: "hasher \<Rightarrow> ts \<Rightarrow> ts \<Rightarrow> db \<Rightarrow> string \<Rightarrow> occurrence_row \<Rightarrow> bool" where
  "due_occurrence ph instant_at now db sid oc \<longleftrightarrow>
     (\<exists>s at. tbl_get sch_id sid (t_schedules db) = Some s \<and> sch_next_run s = Some at \<and> tle at instant_at \<and>
        sv_enabled (sch_values s) \<and> oc = new_occurrence ph s at now)"

lemma pending_skip:
  assumes "sched_inv db"
    and "\<not> runnable db cid \<or> (\<exists>s. tbl_get sch_id sid (t_schedules db) = Some s \<and>
          (case sch_next_run s of None \<Rightarrow> True | Some t \<Rightarrow> \<not> sv_enabled (sch_values s) \<or> tlt instant_at t))"
    and "(sid, cid) \<in> set (schedule_shape db)"
  shows "sid \<notin> pending_ids db instant_at"
proof
  assume "sid \<in> pending_ids db instant_at"
  then obtain s t where s: "s \<in> set (t_schedules db)" "sch_id s = sid" "sv_enabled (sch_values s)"
    "runnable db (sch_collector s)" "sch_next_run s = Some t" "tle t instant_at"
    by (auto simp: pending_ids_def split: option.splits)
  from assms(3) obtain r where r: "r \<in> set (t_schedules db)" "sch_id r = sid" "sch_collector r = cid"
    by (auto simp: schedule_shape_def)
  have "tbl_get sch_id sid (t_schedules db) = Some s" "tbl_get sch_id sid (t_schedules db) = Some r"
    using tbl_get_unique [OF sched_invD(2) [OF assms(1)] s(1)] tbl_get_unique [OF sched_invD(2) [OF assms(1)] r(1)]
    by (simp_all add: s(2) r(2))
  with assms(2) s r show False by (auto simp: not_tle [symmetric])
qed

lemma claim_schedule_step:
  assumes inv: "sched_inv db"
    and run: "claim_schedule ph next_time instant_at now listed (db, claimed) = Inr (db', claimed')"
    and mem: "(sch_id listed, sch_collector listed) \<in> set (schedule_shape db)"
    and cron: "cron_law next_time"
  shows "sched_inv db' \<and> schedule_shape db' = schedule_shape db \<and> (\<forall>k. runnable db' k = runnable db k) \<and>
    pending_ids db' instant_at \<subseteq> pending_ids db instant_at - {sch_id listed} \<and>
    (\<forall>j. j \<noteq> sch_id listed \<longrightarrow> tbl_get sch_id j (t_schedules db') = tbl_get sch_id j (t_schedules db)) \<and>
    (\<exists>new. t_occurrences db' = t_occurrences db @ new \<and> claimed' = claimed @ new \<and> length new \<le> 1 \<and>
       (\<forall>oc \<in> set new. due_occurrence ph instant_at now db (sch_id listed) oc)) \<and>
    (sch_id listed \<in> pending_ids db instant_at \<longrightarrow>
       (\<exists>oc. due_occurrence ph instant_at now db (sch_id listed) oc \<and> oc_key oc \<in> oc_key ` set (t_occurrences db')))"
  using run
proof (cases rule: claim_schedule_cases)
  case skipped
  with pending_skip [OF inv skipped(3) mem] inv show ?thesis by simp
next
  case (fired s c at oc s' c')
  let ?sid = "sch_id listed" and ?cid = "sch_collector listed"
  let ?occ = "if tbl_get oc_key (oc_key oc) (t_occurrences db) = None then t_occurrences db @ [oc] else t_occurrences db"
  let ?db1 = "db\<lparr>t_occurrences := ?occ, t_schedules := tbl_upd sch_id (sch_id s) (\<lambda>_. s') (t_schedules db)\<rparr>"
  have s: "s \<in> set (t_schedules db)" "sch_id s = ?sid" using tbl_get_SomeD [OF fired(1)] by auto
  have keys: "sch_id s' = sch_id s" "sch_collector s' = sch_collector s" "sch_values s' = sch_values s"
    by (simp_all add: fired(8))
  from mem obtain r where r: "r \<in> set (t_schedules db)" "sch_id r = ?sid" "sch_collector r = ?cid"
    by (auto simp: schedule_shape_def)
  have "r = s" using tbl_get_unique [OF sched_invD(2) [OF inv] r(1)] r(2) fired(1) by simp
  then have col: "sch_collector s = ?cid" using r(3) by simp
  have later: "tlt instant_at (next_time (sv_cron (sch_values s)) (sv_timezone (sch_values s)) instant_at)"
    by (rule cron_law_later [OF cron])
  have ids: "map sch_id (t_schedules ?db1) = map sch_id (t_schedules db)"
    and cids: "map sch_collector (t_schedules ?db1) = map sch_collector (t_schedules db)"
    using tbl_upd_const_keys [OF sched_invD(2) [OF inv] s(1), where kf = sch_id and s' = s'] sched_invD(2) [OF inv]
      tbl_upd_const_keys [OF sched_invD(2) [OF inv] s(1), where kf = sch_collector and s' = s'] sched_invD(1) [OF inv]
    by (simp_all add: keys)
  have row1: "get_schedule ?db1 k = (if k = ?cid then Some s' else get_schedule db k)" for k
  proof -
    have "tbl_upd sch_id (sch_id s) (\<lambda>_. s') (t_schedules db) = tbl_upd sch_collector ?cid (\<lambda>_. s') (t_schedules db)"
      using tbl_upd_by_other_key [OF sched_invD(2,1) [OF inv] s(1)] col by simp
    moreover have "tbl_get sch_collector ?cid (t_schedules db) = Some s"
      using tbl_get_unique [OF sched_invD(1) [OF inv] s(1)] col by simp
    ultimately show ?thesis using keys(2) col by (simp add: get_schedule_def tbl_get_const_upd)
  qed
  have occs: "distinct (map oc_key ?occ)" using sched_invD(3) [OF inv] by (auto simp: tbl_get_None_iff)
  have rows1: "sv_enabled (sch_values x) = (sch_next_run x \<noteq> None)" if "x \<in> set (t_schedules ?db1)" for x
    using that sched_invD(4) [OF inv] fired(4) by (auto simp: set_tbl_upd fired(8))
  have "\<exists>u. save_collector ?db1 (c\<lparr>col_schedule := Some s', col_updated := u\<rparr>) False now = Inr (db', c')"
    using fired(9) by (intro exI [of _ "col_updated c"]) simp
  then obtain u where u: "save_collector ?db1 (c\<lparr>col_schedule := Some s', col_updated := u\<rparr>) False now = Inr (db', c')" ..
  have d1: "distinct (map sch_collector (t_schedules ?db1))" "distinct (map sch_id (t_schedules ?db1))"
    unfolding ids cids by (rule sched_invD(1,2) [OF inv])+
  have m: "sched_inv db'" "t_schedules db' = t_schedules ?db1" "t_occurrences db' = ?occ" "t_deleted db' = t_deleted db"
    "\<And>k. runnable db' k = runnable db k"
    using mirror_update [OF inv u fired(2) _ _ _ _ d1 _ rows1] row1 occs by simp_all
  have shape: "schedule_shape db' = schedule_shape db"
    using tbl_upd_const_keys [OF sched_invD(2) [OF inv] s(1), where kf = "\<lambda>s. (sch_id s, sch_collector s)" and s' = s']
      sched_invD(2) [OF inv] by (simp add: schedule_shape_def m(2) keys distinct_map inj_on_def)
  have pend: "pending_ids db' instant_at \<subseteq> pending_ids db instant_at - {?sid}"
  proof
    fix k assume "k \<in> pending_ids db' instant_at"
    then obtain x t where x: "x \<in> set (t_schedules db')" "sch_id x = k" "sv_enabled (sch_values x)"
      "runnable db (sch_collector x)" "sch_next_run x = Some t" "tle t instant_at"
      by (auto simp: pending_ids_def m(5) split: option.splits)
    have "x \<noteq> s'" using x(5,6) later by (auto simp: fired(8) not_tle [symmetric])
    then have "x \<in> set (t_schedules db)" "sch_id x \<noteq> ?sid" using x(1) s(2) by (auto simp: m(2) set_tbl_upd)
    with x show "k \<in> pending_ids db instant_at - {?sid}" by (auto simp: pending_ids_def)
  qed
  have other: "tbl_get sch_id j (t_schedules db') = tbl_get sch_id j (t_schedules db)" if "j \<noteq> ?sid" for j
    using that s(2) keys(1) by (simp add: m(2) tbl_get_const_upd)
  have due: "due_occurrence ph instant_at now db ?sid oc"
    using fired(1,3,4,5,7) by (auto simp: due_occurrence_def not_tlt)
  have new: "\<exists>new. t_occurrences db' = t_occurrences db @ new \<and> claimed' = claimed @ new \<and> length new \<le> 1 \<and>
       (\<forall>oc \<in> set new. due_occurrence ph instant_at now db ?sid oc)"
    by (rule exI [of _ "if tbl_get oc_key (oc_key oc) (t_occurrences db) = None then [oc] else []"])
      (simp add: m(3) fired(10) due)
  have "oc_key oc \<in> oc_key ` set (t_occurrences db')"
    unfolding m(3) by (cases "tbl_get oc_key (oc_key oc) (t_occurrences db)") (auto dest!: tbl_get_SomeD intro: rev_image_eqI)
  with m shape pend other new due show ?thesis by blast
qed

lemma pending_iff:
  assumes "sched_inv db"
  shows "sid \<in> pending_ids db instant_at \<longleftrightarrow>
    (\<exists>s at. tbl_get sch_id sid (t_schedules db) = Some s \<and> sv_enabled (sch_values s) \<and>
       runnable db (sch_collector s) \<and> sch_next_run s = Some at \<and> tle at instant_at)" (is "_ \<longleftrightarrow> ?R")
proof
  assume "sid \<in> pending_ids db instant_at"
  then obtain s at where s: "s \<in> set (t_schedules db)" "sch_id s = sid" "sv_enabled (sch_values s)"
    "runnable db (sch_collector s)" "sch_next_run s = Some at" "tle at instant_at"
    by (auto simp: pending_ids_def split: option.splits)
  with tbl_get_unique [OF sched_invD(2) [OF assms] s(1)] show ?R by blast
next
  assume ?R
  then obtain s at where s: "tbl_get sch_id sid (t_schedules db) = Some s" "sv_enabled (sch_values s)"
    "runnable db (sch_collector s)" "sch_next_run s = Some at" "tle at instant_at" by blast
  with tbl_get_SomeD [OF s(1)] show "sid \<in> pending_ids db instant_at"
    unfolding pending_ids_def by (intro rev_image_eqI [of s]) auto
qed

lemma claim_loop:
  assumes "fold_result (claim_schedule ph next_time instant_at now) xs (db, claimed) = Inr (db', claimed')"
    and "sched_inv db" and "cron_law next_time" and "distinct (map sch_id xs)"
    and "\<forall>x \<in> set xs. (sch_id x, sch_collector x) \<in> set (schedule_shape db)"
  shows "sched_inv db' \<and> pending_ids db' instant_at \<subseteq> pending_ids db instant_at - sch_id ` set xs \<and>
    (\<exists>new. t_occurrences db' = t_occurrences db @ new \<and> claimed' = claimed @ new \<and>
       (\<forall>oc \<in> set new. \<exists>sid \<in> sch_id ` set xs. due_occurrence ph instant_at now db sid oc)) \<and>
    (\<forall>sid \<in> sch_id ` set xs \<inter> pending_ids db instant_at.
       \<exists>oc. due_occurrence ph instant_at now db sid oc \<and> oc_key oc \<in> oc_key ` set (t_occurrences db'))"
  using assms
proof (induction xs arbitrary: db claimed)
  case Nil
  then show ?case by simp
next
  case (Cons x xs)
  from Cons.prems(1) obtain db1 cl1 where f: "claim_schedule ph next_time instant_at now x (db, claimed) = Inr (db1, cl1)"
    "fold_result (claim_schedule ph next_time instant_at now) xs (db1, cl1) = Inr (db', claimed')"
    by (auto split: sum.splits)
  have mem: "(sch_id x, sch_collector x) \<in> set (schedule_shape db)" using Cons.prems(5) by simp
  from claim_schedule_step [OF Cons.prems(2) f(1) mem Cons.prems(3)] obtain new1 where s:
    "sched_inv db1" "schedule_shape db1 = schedule_shape db" "\<forall>k. runnable db1 k = runnable db k"
    "pending_ids db1 instant_at \<subseteq> pending_ids db instant_at - {sch_id x}"
    "\<forall>j. j \<noteq> sch_id x \<longrightarrow> tbl_get sch_id j (t_schedules db1) = tbl_get sch_id j (t_schedules db)"
    "t_occurrences db1 = t_occurrences db @ new1" "cl1 = claimed @ new1"
    "\<forall>oc \<in> set new1. due_occurrence ph instant_at now db (sch_id x) oc"
    "sch_id x \<in> pending_ids db instant_at \<longrightarrow>
       (\<exists>oc. due_occurrence ph instant_at now db (sch_id x) oc \<and> oc_key oc \<in> oc_key ` set (t_occurrences db1))"
    by blast
  have notin: "sid \<noteq> sch_id x" if "sid \<in> sch_id ` set xs" for sid
    using Cons.prems(4) that by (metis distinct.simps(2) list.set_map list.simps(9))
  have due: "due_occurrence ph instant_at now db1 sid oc = due_occurrence ph instant_at now db sid oc"
    if "sid \<in> sch_id ` set xs" for sid oc
    using s(5) notin [OF that] by (simp add: due_occurrence_def)
  have pend: "sid \<in> pending_ids db1 instant_at" if "sid \<in> sch_id ` set xs" "sid \<in> pending_ids db instant_at" for sid
    using s(3,5) notin [OF that(1)] that(2) unfolding pending_iff [OF s(1)] pending_iff [OF Cons.prems(2)] by simp
  have "\<forall>x \<in> set xs. (sch_id x, sch_collector x) \<in> set (schedule_shape db1)" using Cons.prems(5) s(2) by simp
  from Cons.IH [OF f(2) s(1) Cons.prems(3) _ this] Cons.prems(4) obtain new2 where i:
    "sched_inv db'" "pending_ids db' instant_at \<subseteq> pending_ids db1 instant_at - sch_id ` set xs"
    "t_occurrences db' = t_occurrences db1 @ new2" "claimed' = cl1 @ new2"
    "\<forall>oc \<in> set new2. \<exists>sid \<in> sch_id ` set xs. due_occurrence ph instant_at now db1 sid oc"
    "\<forall>sid \<in> sch_id ` set xs \<inter> pending_ids db1 instant_at.
       \<exists>oc. due_occurrence ph instant_at now db1 sid oc \<and> oc_key oc \<in> oc_key ` set (t_occurrences db')"
    by auto
  have "t_occurrences db' = t_occurrences db @ (new1 @ new2) \<and> claimed' = claimed @ (new1 @ new2) \<and>
       (\<forall>oc \<in> set (new1 @ new2). \<exists>sid \<in> sch_id ` set (x # xs). due_occurrence ph instant_at now db sid oc)"
    using i(3-5) s(6-8) due by auto
  moreover have "\<exists>oc. due_occurrence ph instant_at now db sid oc \<and> oc_key oc \<in> oc_key ` set (t_occurrences db')"
    if "sid \<in> sch_id ` set (x # xs)" "sid \<in> pending_ids db instant_at" for sid
  proof (cases "sid = sch_id x")
    case True
    with s(9) that(2) show ?thesis unfolding i(3) by auto
  next
    case False
    with that(1) have "sid \<in> sch_id ` set xs" by auto
    with i(6) pend [OF this that(2)] due [OF this] show ?thesis by blast
  qed
  moreover have "pending_ids db' instant_at \<subseteq> pending_ids db instant_at - sch_id ` set (x # xs)"
    using i(2) s(4) by auto
  ultimately show ?case using i(1) by blast
qed

lemma due_schedules_claimed_facts:
  assumes "sched_inv db" and "cron_law next_time"
    and "claim_due_schedules ph next_time db instant_at now = Inr (db', claimed)"
  shows "pending_ids db' instant_at = {} \<and> sched_inv db' \<and>
    t_occurrences db' = t_occurrences db @ claimed \<and> distinct (map oc_key (t_occurrences db @ claimed)) \<and>
    (\<forall>oc \<in> set claimed. \<exists>sid. due_occurrence ph instant_at now db sid oc) \<and>
    (\<forall>sid \<in> pending_ids db instant_at.
       \<exists>oc. due_occurrence ph instant_at now db sid oc \<and> oc_key oc \<in> oc_key ` set (t_occurrences db'))"
proof -
  let ?xs = "due_schedules db instant_at"
  have set: "set ?xs = {s \<in> set (t_schedules db). sv_enabled (sch_values s) \<and>
      (case sch_next_run s of None \<Rightarrow> False | Some t \<Rightarrow> tle t instant_at)}"
    by (auto simp: due_schedules_def)
  have "inj_on sch_id (set (t_schedules db))" "distinct (t_schedules db)"
    using sched_invD(2) [OF assms(1)] by (simp_all add: distinct_map)
  then have dist: "distinct (map sch_id ?xs)"
    unfolding distinct_map set by (simp add: due_schedules_def inj_on_def)
  have mem: "\<forall>x \<in> set ?xs. (sch_id x, sch_collector x) \<in> set (schedule_shape db)"
    by (auto simp: set schedule_shape_def)
  have sub: "pending_ids db instant_at \<subseteq> sch_id ` set ?xs"
    unfolding set pending_ids_def by auto
  from claim_loop [OF assms(3) [unfolded claim_due_schedules_def] assms(1,2) dist mem] obtain new where l:
    "sched_inv db'" "pending_ids db' instant_at \<subseteq> pending_ids db instant_at - sch_id ` set ?xs"
    "t_occurrences db' = t_occurrences db @ new" "claimed = new"
    "\<forall>oc \<in> set new. \<exists>sid \<in> sch_id ` set ?xs. due_occurrence ph instant_at now db sid oc"
    "\<forall>sid \<in> sch_id ` set ?xs \<inter> pending_ids db instant_at.
       \<exists>oc. due_occurrence ph instant_at now db sid oc \<and> oc_key oc \<in> oc_key ` set (t_occurrences db')"
    by auto
  have "distinct (map oc_key (t_occurrences db @ claimed))" using sched_invD(3) [OF l(1)] l(3,4) by simp
  moreover have "pending_ids db' instant_at = {}" using l(2) sub by blast
  moreover have "\<forall>oc \<in> set claimed. \<exists>sid. due_occurrence ph instant_at now db sid oc" using l(4,5) by blast
  moreover have "sch_id ` set ?xs \<inter> pending_ids db instant_at = pending_ids db instant_at" using sub by blast
  ultimately show ?thesis using l(1,3,4,6) by simp
qed

text \<open>
  C24. A sweep of the due schedules leaves nothing due behind and hands out no firing
  twice: afterwards no enabled schedule of a live source is due at the sweep's instant;
  the occurrences it returns are exactly the rows it appended, their keys are new and
  distinct, each belongs to a schedule that was due and carries its due time; and every
  schedule that was due has its occurrence in the table. A firing missed many times over is
  handed out once, since the next time is taken after the sweep's instant.
\<close>

theorem due_schedules_claimed:
  assumes "sched_inv db" and "cron_law next_time"
    and "claim_due_schedules ph next_time db instant_at now = Inr (db', claimed)"
  shows "pending_ids db' instant_at = {} \<and> sched_inv db' \<and>
    t_occurrences db' = t_occurrences db @ claimed \<and> distinct (map oc_key (t_occurrences db @ claimed)) \<and>
    (\<forall>oc \<in> set claimed. \<exists>sid. due_occurrence ph instant_at now db sid oc) \<and>
    (\<forall>sid \<in> pending_ids db instant_at.
       \<exists>oc. due_occurrence ph instant_at now db sid oc \<and> oc_key oc \<in> oc_key ` set (t_occurrences db'))"
  by (rule due_schedules_claimed_facts [OF assms])

definition minute_cron :: cron_next where
  "minute_cron e z t = (t div 60000000 + 1) * 60000000"

lemma minute_cron_law: "cron_law minute_cron"
  unfolding cron_law_def
proof (intro allI conjI)
  fix t :: int and e z :: string
  have "t = t div 60000000 * 60000000 + t mod 60000000" by simp
  moreover have "t mod 60000000 < 60000000" by simp
  ultimately show "t < minute_cron e z t" unfolding minute_cron_def distrib_right by linarith
  show "minute_cron e z t mod 60000000 = 0" by (simp add: minute_cron_def)
qed

definition example_schedule :: schedule where
  "example_schedule = \<lparr>sch_id = ''schedule_a'', sch_collector = ''collector_a'', sch_revision = 1,
     sch_values = default_schedule\<lparr>sv_enabled := True\<rparr>, sch_last_triggered = None, sch_next_run = Some 60000000,
     sch_updated = 0\<rparr>"

definition example_schedule_db :: db where
  "example_schedule_db = example_db
     \<lparr>t_collectors := [\<lparr>colr_id = ''collector_a'',
         colr_data = example_collector\<lparr>col_schedule := Some example_schedule\<rparr>, colr_created = 0, colr_updated = 0\<rparr>],
      t_schedules := [example_schedule]\<rparr>"

lemma example_schedule_inv: "sched_inv example_schedule_db"
  by (auto simp: sched_inv_def example_schedule_db_def example_db_def empty_db_def example_schedule_def
      default_schedule_def stored_collector_def get_schedule_def example_collector_def split: if_splits)

theorem due_schedules_claimed_witness:
  "\<exists>db' oc. claim_due_schedules (\<lambda>_. ''0123456789012345678901234567890123456789'') minute_cron example_schedule_db
       200000000 200000001 = Inr (db', [oc]) \<and>
     t_occurrences db' = [oc] \<and> oc_scheduled_at oc = 60000000 \<and> pending_ids db' 200000000 = {}"
proof -
  let ?ph = "\<lambda>_. ''0123456789012345678901234567890123456789''"
  have inv: "sched_inv example_schedule_db" by (rule example_schedule_inv)
  have "\<exists>db' oc. claim_due_schedules ?ph minute_cron example_schedule_db 200000000 200000001 = Inr (db', [oc]) \<and>
      oc_scheduled_at oc = 60000000"
    by (simp add: claim_due_schedules_def due_schedules_def claim_schedule_def example_schedule_db_def example_db_def
        empty_db_def example_schedule_def default_schedule_def lock_collector_def get_collector_def is_deleted_def
        example_collector_def save_collector_def tle_def tlt_def iso_key_def Let_def new_occurrence_def
        tbl_upsert_def tbl_upd_def)
  then obtain db' oc where r: "claim_due_schedules ?ph minute_cron example_schedule_db 200000000 200000001 = Inr (db', [oc])"
    "oc_scheduled_at oc = 60000000" by blast
  have "t_occurrences example_schedule_db = []" by (simp add: example_schedule_db_def example_db_def empty_db_def)
  with due_schedules_claimed [OF inv minute_cron_law r(1)] r show ?thesis by auto
qed

subsection \<open>Histories of schedules and occurrences\<close>

text \<open>The store with the log of all occurrences handed out by sweeps.\<close>

datatype schedule_event =
    ScheduleSave string schedule_values ts
  | ScheduleEnsure string ts
  | ScheduleSweep ts ts
  | OccurrenceFinish string string "string option" "string option" ts

definition schedule_step ::
  "hasher \<Rightarrow> (string \<Rightarrow> bool) \<Rightarrow> cron_next \<Rightarrow> db \<times> occurrence_row list \<Rightarrow> schedule_event \<Rightarrow> db \<times> occurrence_row list" where
  "schedule_step ph cron_valid next_time st e =
     (case (case e of
              ScheduleSave cid v now \<Rightarrow> map_sum id (\<lambda>p. (fst p, [])) (save_schedule cron_valid next_time (fst st) cid v now)
            | ScheduleEnsure cid now \<Rightarrow> map_sum id (\<lambda>p. (fst p, [])) (ensure_schedule cron_valid next_time (fst st) cid now)
            | ScheduleSweep instant_at now \<Rightarrow> claim_due_schedules ph next_time (fst st) instant_at now
            | OccurrenceFinish key status rid reason now \<Rightarrow>
                map_sum id (\<lambda>d. (d, [])) (finish_schedule_occurrence (fst st) key status rid reason now)) of
        Inl _ \<Rightarrow> st
      | Inr (db', handed) \<Rightarrow> (db', snd st @ handed))"

lemma validate_schedule_values: "validate_schedule cron_valid v = Inr v' \<Longrightarrow> sv_enabled v' = sv_enabled v"
  by (auto simp: validate_schedule_def Let_def split: if_splits)

lemma save_schedule_inv:
  assumes inv: "sched_inv db" and run: "save_schedule cron_valid next_time db cid v now = Inr (db', c')"
  shows "sched_inv db'" and "t_occurrences db' = t_occurrences db"
proof -
  from run obtain v' c where c: "get_collector db cid = Some c"
    and fresh: "\<not> (get_schedule db cid = None \<and>
        tbl_get sch_id (sch_id (next_schedule next_time (get_schedule db cid) cid v' now)) (t_schedules db) \<noteq> None)"
    and save: "save_collector (db\<lparr>t_schedules := tbl_upsert sch_collector (next_schedule next_time (get_schedule db cid) cid v' now)
                  (\<lambda>_. next_schedule next_time (get_schedule db cid) cid v' now) (t_schedules db)\<rparr>)
           (c\<lparr>col_schedule := Some (next_schedule next_time (get_schedule db cid) cid v' now), col_updated := JustNow\<rparr>)
           False now = Inr (db', c')"
    unfolding save_schedule_def Let_def by (auto split: sum.splits option.splits if_splits)
  define s where "s = next_schedule next_time (get_schedule db cid) cid v' now"
  let ?db1 = "db\<lparr>t_schedules := tbl_upsert sch_collector s (\<lambda>_. s) (t_schedules db)\<rparr>"
  have scid: "sch_collector s = cid" by (simp add: s_def next_schedule_def)
  have ok: "sv_enabled (sch_values s) = (sch_next_run s \<noteq> None)" by (simp add: s_def next_schedule_def)
  have rows: "t_schedules ?db1 = (case get_schedule db cid of None \<Rightarrow> t_schedules db @ [s]
      | Some old \<Rightarrow> tbl_upd sch_collector cid (\<lambda>_. s) (t_schedules db))"
    by (simp add: tbl_upsert_def scid get_schedule_def split: option.splits)
  have get: "get_schedule ?db1 k = (if k = cid then Some s else get_schedule db k)" for k
    unfolding get_schedule_def [of ?db1] rows
    by (auto simp: get_schedule_def tbl_get_append tbl_get_const_upd scid split: option.splits)
  have "distinct (map sch_collector (t_schedules ?db1)) \<and> distinct (map sch_id (t_schedules ?db1))"
  proof (cases "get_schedule db cid")
    case None
    moreover have "tbl_get sch_id (sch_id s) (t_schedules db) = None" using fresh None by (simp add: s_def)
    moreover have "t_schedules ?db1 = t_schedules db @ [s]" unfolding rows by (simp add: None)
    ultimately show ?thesis using sched_invD(1,2) [OF inv]
      by (auto simp: get_schedule_def scid tbl_get_None_iff)
  next
    case (Some old)
    then have old: "old \<in> set (t_schedules db)" "sch_collector old = cid"
      by (auto simp: get_schedule_def dest: tbl_get_SomeD)
    have "sch_id s = sch_id old" using Some by (simp add: s_def next_schedule_def)
    then have "map sch_id (tbl_upd sch_collector (sch_collector old) (\<lambda>_. s) (t_schedules db)) = map sch_id (t_schedules db)"
      using tbl_upd_const_keys [OF sched_invD(1) [OF inv] old(1), where kf = sch_id] sched_invD(2) [OF inv] by simp
    moreover have "map sch_collector (tbl_upd sch_collector (sch_collector old) (\<lambda>_. s) (t_schedules db)) =
        map sch_collector (t_schedules db)"
      using tbl_upd_const_keys [OF sched_invD(1) [OF inv] old(1), where kf = sch_collector and s' = s]
        sched_invD(1) [OF inv] by (simp add: scid old(2))
    ultimately show ?thesis using sched_invD(1,2) [OF inv] Some old(2) unfolding rows by simp
  qed
  then have d: "distinct (map sch_collector (t_schedules ?db1))" "distinct (map sch_id (t_schedules ?db1))" by blast+
  have "sv_enabled (sch_values x) = (sch_next_run x \<noteq> None)" if "x \<in> set (t_schedules ?db1)" for x
    using that ok sched_invD(4) [OF inv] unfolding rows by (auto simp: set_tbl_upd split: option.splits if_splits)
  note m = mirror_update [OF inv save [folded s_def] c _ _ _ _ d _ this]
  show "sched_inv db'" by (rule m) (simp_all add: get sched_invD(3) [OF inv])
  show "t_occurrences db' = t_occurrences db"
    using m(3) get sched_invD(3) [OF inv] by simp
qed

lemma ensure_schedule_inv:
  assumes inv: "sched_inv db" and run: "ensure_schedule cron_valid next_time db cid now = Inr (db', c')"
  shows "sched_inv db' \<and> t_occurrences db' = t_occurrences db"
proof -
  from run obtain c where c: "get_collector db cid = Some c"
    by (auto simp: ensure_schedule_def split: option.splits)
  from get_collector_stored [OF c] obtain old where old: "stored_collector db cid = Some old"
    "c = old\<lparr>col_collection_name := col_collection_name c\<rparr>" by metis
  have "col_schedule c = get_schedule db cid" by (subst old(2)) (use sched_invD(5) [OF inv old(1)] in simp)
  with run c have "db' = db \<or> save_schedule cron_valid next_time db cid default_schedule now = Inr (db', c')"
    by (auto simp: ensure_schedule_def split: option.splits if_splits)
  with save_schedule_inv [OF inv] inv show ?thesis by metis
qed

lemma finish_occurrence_inv:
  assumes inv: "sched_inv db" and run: "finish_schedule_occurrence db key status rid reason now = Inr db'"
  shows "sched_inv db' \<and> map oc_key (t_occurrences db') = map oc_key (t_occurrences db)"
proof -
  have db': "db' = db\<lparr>t_occurrences := tbl_upd oc_key key
                 (\<lambda>o'. o'\<lparr>oc_status := status, oc_run := rid, oc_reason := reason, oc_updated := now\<rparr>) (t_occurrences db)\<rparr>"
    using run by (simp add: finish_schedule_occurrence_def split: option.splits)
  have keys: "map oc_key (t_occurrences db') = map oc_key (t_occurrences db)"
    unfolding db' by simp
  have eqs: "t_schedules db' = t_schedules db" "t_collectors db' = t_collectors db" unfolding db' by simp_all
  have "sched_inv db' = sched_inv db" by (simp only: sched_inv_def keys stored_collector_def get_schedule_def eqs)
  then have "sched_inv db'" using inv by blast
  with keys show ?thesis by simp
qed

definition schedule_log_inv :: "string list \<Rightarrow> db \<times> occurrence_row list \<Rightarrow> bool" where
  "schedule_log_inv old st \<longleftrightarrow> sched_inv (fst st) \<and> map oc_key (t_occurrences (fst st)) = old @ map oc_key (snd st)"

lemma schedule_step_inv:
  assumes "schedule_log_inv old st" and "cron_law next_time"
  shows "schedule_log_inv old (schedule_step ph cron_valid next_time st e)"
proof -
  have i: "sched_inv (fst st)" and keys: "map oc_key (t_occurrences (fst st)) = old @ map oc_key (snd st)"
    using assms(1) by (simp_all add: schedule_log_inv_def)
  have step: "schedule_log_inv old (db', snd st @ handed)"
    if "sched_inv db'" "map oc_key (t_occurrences db') = map oc_key (t_occurrences (fst st)) @ map oc_key handed" for db' handed
    using that keys by (simp add: schedule_log_inv_def)
  note sweep = due_schedules_claimed_facts
  show ?thesis
  proof (cases e)
    case (ScheduleSave cid v now)
    then show ?thesis using assms(1) step [of _ "[]"] save_schedule_inv [OF i]
      by (auto simp: schedule_step_def map_sum_Inr_iff split: sum.splits)
  next
    case (ScheduleEnsure cid now)
    then show ?thesis using assms(1) step [of _ "[]"] ensure_schedule_inv [OF i]
      by (auto simp: schedule_step_def map_sum_Inr_iff split: sum.splits)
  next
    case (ScheduleSweep instant_at now)
    then show ?thesis using assms(1) step sweep [OF i assms(2)]
      by (auto simp: schedule_step_def split: sum.splits prod.splits)
  next
    case (OccurrenceFinish key status rid reason now)
    then show ?thesis using assms(1) step [of _ "[]"] finish_occurrence_inv [OF i]
      by (auto simp: schedule_step_def map_sum_Inr_iff split: sum.splits)
  qed
qed

text \<open>
  However schedules are saved, ensured and swept and occurrences finished, every
  source has at most one schedule and its document carries exactly that one, a schedule
  has a next time exactly when it is enabled, and no occurrence is ever handed out twice.
\<close>

lemma schedule_histories:
  assumes "sched_inv db" and "cron_law next_time"
  shows "sched_inv (fst (foldl (schedule_step ph cron_valid next_time) (db, []) evs)) \<and>
    distinct (map oc_key (t_occurrences db @ snd (foldl (schedule_step ph cron_valid next_time) (db, []) evs)))"
proof -
  have "schedule_log_inv (map oc_key (t_occurrences db)) (foldl (schedule_step ph cron_valid next_time) st evs)"
    if "schedule_log_inv (map oc_key (t_occurrences db)) st" for st
    using that by (induction evs arbitrary: st) (simp_all add: schedule_step_inv [OF _ assms(2)])
  from this [of "(db, [])"] have "schedule_log_inv (map oc_key (t_occurrences db))
      (foldl (schedule_step ph cron_valid next_time) (db, []) evs)"
    using assms(1) by (simp add: schedule_log_inv_def)
  then show ?thesis using sched_invD(3) by (fastforce simp: schedule_log_inv_def)
qed

theorem schedule_histories_witness:
  "sched_inv example_schedule_db \<and>
   length (snd (foldl (schedule_step (\<lambda>_. ''0123456789012345678901234567890123456789'') (\<lambda>_. True) minute_cron)
     (example_schedule_db, []) [ScheduleSweep 200000000 200000001, ScheduleSweep 200000000 200000002])) = 1 \<and>
   distinct (map oc_key (t_occurrences example_schedule_db @
     snd (foldl (schedule_step (\<lambda>_. ''0123456789012345678901234567890123456789'') (\<lambda>_. True) minute_cron)
     (example_schedule_db, []) [ScheduleSweep 200000000 200000001, ScheduleSweep 200000000 200000002])))"
proof -
  have "length (snd (foldl (schedule_step (\<lambda>_. ''0123456789012345678901234567890123456789'') (\<lambda>_. True) minute_cron)
     (example_schedule_db, []) [ScheduleSweep 200000000 200000001, ScheduleSweep 200000000 200000002])) = 1"
    by (simp add: schedule_step_def claim_due_schedules_def due_schedules_def claim_schedule_def example_schedule_db_def
        example_db_def empty_db_def example_schedule_def default_schedule_def lock_collector_def get_collector_def
        is_deleted_def example_collector_def save_collector_def tle_def tlt_def iso_key_def Let_def new_occurrence_def
        tbl_upsert_def tbl_upd_def minute_cron_def)
  with schedule_histories [OF example_schedule_inv minute_cron_law, of "\<lambda>_. ''0123456789012345678901234567890123456789''"
      "\<lambda>_. True" "[ScheduleSweep 200000000 200000001, ScheduleSweep 200000000 200000002]"] example_schedule_inv
  show ?thesis by blast
qed

end
