(* ===== verification/Item_Cursor.thy ===== *)
theory Item_Cursor
  imports Texts
begin

text \<open>
  The pagination cursor of items (\<open>encode_item_cursor\<close>, \<open>decode_item_cursor\<close> of
  \<open>store.py\<close>): a JSON array of three texts in URL-safe base64. Of the Python library this
  takes \<open>json.dumps\<close> on texts (ASCII output), \<open>base64.b64decode\<close> with \<open>validate=True\<close>
  (the strict state machine of \<open>binascii\<close>), \<open>bytes.decode\<close> (UTF-8) and \<open>json.loads\<close>, of
  which only arrays of three texts matter: every other value and every syntax error is an
  invalid cursor. A text read from a cursor is the list of its code points.
\<close>

subsection \<open>JSON texts\<close>

definition hex_digit :: "nat \<Rightarrow> char" where
  "hex_digit n = (if n < 10 then char_of (48 + n) else char_of (87 + n))"

definition json_escape :: "char \<Rightarrow> string" where
  "json_escape c =
     (let n = of_char c :: nat
      in if n = 34 \<or> n = 92 then [CHR 0x5C, c]
         else if n = 10 then [CHR 0x5C, CHR ''n''] else if n = 13 then [CHR 0x5C, CHR ''r'']
         else if n = 9 then [CHR 0x5C, CHR ''t''] else if n = 12 then [CHR 0x5C, CHR ''f'']
         else if n = 8 then [CHR 0x5C, CHR ''b'']
         else if 32 \<le> n \<and> n \<le> 126 then [c]
         else CHR 0x5C # ''u00'' @ [hex_digit (n div 16), hex_digit (n mod 16)])"

definition json_text_of :: "string \<Rightarrow> string" where
  "json_text_of s = CHR 0x22 # concat (map json_escape s) @ [CHR 0x22]"

definition hex_value :: "nat \<Rightarrow> nat option" where
  "hex_value c =
     (if 48 \<le> c \<and> c \<le> 57 then Some (c - 48)
      else if 97 \<le> c \<and> c \<le> 102 then Some (c - 87)
      else if 65 \<le> c \<and> c \<le> 70 then Some (c - 55) else None)"

definition hex4 :: "nat list \<Rightarrow> (nat \<times> nat list) option" where
  "hex4 xs =
     (case xs of
        a # b # c # d # rest \<Rightarrow>
          (case (hex_value a, hex_value b, hex_value c, hex_value d) of
             (Some p, Some q, Some r, Some s) \<Rightarrow> Some (((p * 16 + q) * 16 + r) * 16 + s, rest)
           | _ \<Rightarrow> None)
      | _ \<Rightarrow> None)"

definition simple_escape :: "nat \<Rightarrow> nat option" where
  "simple_escape c =
     (if c \<in> {34, 92, 47} then Some c
      else map_of [(98, 8), (102, 12), (110, 10), (114, 13), (116, 9)] c)"

text \<open>One \<open>uXXXX\<close> escape; a high and a low surrogate in a row are one code point.\<close>

definition unicode_escape :: "nat list \<Rightarrow> (nat \<times> nat list) option" where
  "unicode_escape xs =
     (case hex4 xs of
        None \<Rightarrow> None
      | Some (u, rest) \<Rightarrow>
          (if 0xD800 \<le> u \<and> u \<le> 0xDBFF \<and> take 2 rest = [92, 117]
           then (case hex4 (drop 2 rest) of
                   None \<Rightarrow> None
                 | Some (v, rest2) \<Rightarrow>
                     if 0xDC00 \<le> v \<and> v \<le> 0xDFFF
                     then Some (0x10000 + (u - 0xD800) * 1024 + (v - 0xDC00), rest2) else Some (u, rest))
           else Some (u, rest)))"

lemma hex4_length: "hex4 xs = Some (u, rest) \<Longrightarrow> length rest < length xs"
  by (auto simp: hex4_def split: list.splits option.splits)

lemma unicode_escape_length: "unicode_escape xs = Some (u, rest) \<Longrightarrow> length rest < length xs"
proof -
  assume u: "unicode_escape xs = Some (u, rest)"
  then obtain v r where h: "hex4 xs = Some (v, r)" by (auto simp: unicode_escape_def split: option.splits)
  have "rest = r \<or> (\<exists>w. hex4 (drop 2 r) = Some (w, rest))"
    using u h by (auto simp: unicode_escape_def split: if_splits option.splits prod.splits)
  then show ?thesis
  proof
    assume "rest = r"
    with hex4_length [OF h] show ?thesis by simp
  next
    assume "\<exists>w. hex4 (drop 2 r) = Some (w, rest)"
    then obtain w where "hex4 (drop 2 r) = Some (w, rest)" by blast
    from hex4_length [OF this] hex4_length [OF h] show ?thesis by simp
  qed
qed

text \<open>The rest of a text after its opening quote: its code points and what follows.\<close>

function json_body :: "nat list \<Rightarrow> (nat list \<times> nat list) option" where
  "json_body xs =
     (case xs of
        [] \<Rightarrow> None
      | c # rest \<Rightarrow>
          if c = 34 then Some ([], rest)
          else if c = 92 then
            (case rest of
               [] \<Rightarrow> None
             | e # rest1 \<Rightarrow>
                 if e = 117 then
                   (case unicode_escape rest1 of
                      None \<Rightarrow> None | Some (u, rest2) \<Rightarrow> map_option (apfst (Cons u)) (json_body rest2))
                 else
                   (case simple_escape e of
                      None \<Rightarrow> None | Some d \<Rightarrow> map_option (apfst (Cons d)) (json_body rest1)))
          else if c < 32 then None
          else map_option (apfst (Cons c)) (json_body rest))"
  by pat_completeness auto
termination by (relation "measure length") (auto dest: unicode_escape_length)

declare json_body.simps [simp del]

definition skip_space :: "nat list \<Rightarrow> nat list" where
  "skip_space xs = dropWhile (\<lambda>c. c \<in> {32, 9, 10, 13}) xs"

text \<open>A character that must follow, with the space around it.\<close>

definition expect :: "nat \<Rightarrow> nat list \<Rightarrow> nat list option" where
  "expect c xs = (case skip_space xs of d # rest \<Rightarrow> if d = c then Some (skip_space rest) else None | [] \<Rightarrow> None)"

definition json_text_at :: "nat list \<Rightarrow> (nat list \<times> nat list) option" where
  "json_text_at xs = (case xs of c # rest \<Rightarrow> if c = 34 then json_body rest else None | [] \<Rightarrow> None)"

definition three_texts :: "nat list \<Rightarrow> (nat list \<times> nat list \<times> nat list) option" where
  "three_texts xs =
     (case Option.bind (expect 91 xs) json_text_at of
        None \<Rightarrow> None
      | Some (a, r1) \<Rightarrow>
     (case Option.bind (expect 44 r1) json_text_at of
        None \<Rightarrow> None
      | Some (b, r2) \<Rightarrow>
     (case Option.bind (expect 44 r2) json_text_at of
        None \<Rightarrow> None
      | Some (c, r3) \<Rightarrow> if expect 93 r3 = Some [] then Some (a, b, c) else None)))"

subsection \<open>Base64\<close>

definition b64_char :: "nat \<Rightarrow> char" where
  "b64_char n =
     (if n < 26 then char_of (65 + n) else if n < 52 then char_of (71 + n) else if n < 62 then char_of (n - 4)
      else if n = 62 then CHR ''-'' else CHR ''_'')"

text \<open>\<open>altchars\<close> maps the two URL-safe characters to the two ordinary ones, which stay valid.\<close>

definition b64_value :: "char \<Rightarrow> nat option" where
  "b64_value c =
     (let n = of_char c :: nat
      in if 65 \<le> n \<and> n \<le> 90 then Some (n - 65) else if 97 \<le> n \<and> n \<le> 122 then Some (n - 71)
         else if 48 \<le> n \<and> n \<le> 57 then Some (n + 4) else if c \<in> {CHR ''-'', CHR ''+''} then Some 62
         else if c \<in> {CHR ''_'', CHR ''/''} then Some 63 else None)"

fun b64_encode :: "nat list \<Rightarrow> string" where
  "b64_encode [] = []"
| "b64_encode [a] = [b64_char (a div 4), b64_char (a mod 4 * 16), CHR ''='', CHR ''='']"
| "b64_encode [a, b] =
     [b64_char (a div 4), b64_char (a mod 4 * 16 + b div 16), b64_char (b mod 16 * 4), CHR ''='']"
| "b64_encode (a # b # c # xs) =
     b64_char (a div 4) # b64_char (a mod 4 * 16 + b div 16) # b64_char (b mod 16 * 4 + c div 64) #
     b64_char (c mod 64) # b64_encode xs"

text \<open>
  \<open>binascii.a2b_base64\<close> with \<open>strict_mode\<close>: the place in the quadruple, the bits left over,
  whether padding has begun and how much of it there was.
\<close>

fun a2b :: "nat \<Rightarrow> nat \<Rightarrow> bool \<Rightarrow> nat \<Rightarrow> string \<Rightarrow> nat list option" where
  "a2b q left padding pads [] = (if q = 0 then Some [] else None)"
| "a2b q left padding pads (c # cs) =
     (if c = CHR ''='' then
        (if 2 \<le> q \<and> 4 \<le> q + (pads + 1) then (if cs = [] then Some [] else None)
         else a2b q left True (if 2 \<le> q then pads + 1 else pads) cs)
      else
        (case b64_value c of
           None \<Rightarrow> None
         | Some v \<Rightarrow>
             if padding then None
             else if q = 0 then a2b 1 v False 0 cs
             else if q = 1 then map_option (Cons (left * 4 + v div 16)) (a2b 2 (v mod 16) False 0 cs)
             else if q = 2 then map_option (Cons (left * 16 + v div 4)) (a2b 3 (v mod 4) False 0 cs)
             else map_option (Cons (left * 64 + v)) (a2b 0 0 False 0 cs)))"

definition b64_decode :: "string \<Rightarrow> nat list option" where
  "b64_decode s = (case s of c # _ \<Rightarrow> if c = CHR ''='' then None else a2b 0 0 False 0 s | [] \<Rightarrow> Some [])"

subsection \<open>UTF-8\<close>

definition continuation :: "nat \<Rightarrow> bool" where
  "continuation b \<longleftrightarrow> 128 \<le> b \<and> b < 192"

text \<open>The code point at the head and the bytes after it.\<close>

definition utf8_head :: "nat \<Rightarrow> nat list \<Rightarrow> (nat \<times> nat list) option" where
  "utf8_head a xs =
     (if a < 128 then Some (a, xs)
      else if 194 \<le> a \<and> a \<le> 223 then
        (case xs of
           b # ys \<Rightarrow> if continuation b then Some ((a - 192) * 64 + (b - 128), ys) else None
         | _ \<Rightarrow> None)
      else if 224 \<le> a \<and> a \<le> 239 then
        (case xs of
           b # c # ys \<Rightarrow>
             (let u = ((a - 224) * 64 + (b - 128)) * 64 + (c - 128)
              in if continuation b \<and> continuation c \<and> 0x800 \<le> u \<and> \<not> (0xD800 \<le> u \<and> u \<le> 0xDFFF) then Some (u, ys)
                 else None)
         | _ \<Rightarrow> None)
      else if 240 \<le> a \<and> a \<le> 244 then
        (case xs of
           b # c # d # ys \<Rightarrow>
             (let u = (((a - 240) * 64 + (b - 128)) * 64 + (c - 128)) * 64 + (d - 128)
              in if continuation b \<and> continuation c \<and> continuation d \<and> 0x10000 \<le> u \<and> u \<le> 0x10FFFF
                 then Some (u, ys) else None)
         | _ \<Rightarrow> None)
      else None)"

lemma utf8_head_length: "utf8_head a xs = Some (u, ys) \<Longrightarrow> length ys < Suc (length xs)"
  by (auto simp: utf8_head_def Let_def split: if_splits list.splits)

function utf8_decode :: "nat list \<Rightarrow> nat list option" where
  "utf8_decode [] = Some []"
| "utf8_decode (a # xs) =
     (case utf8_head a xs of None \<Rightarrow> None | Some (u, ys) \<Rightarrow> map_option (Cons u) (utf8_decode ys))"
  by pat_completeness auto
termination by (relation "measure length") (auto dest: utf8_head_length)

subsection \<open>The cursor\<close>

definition codes :: "string \<Rightarrow> nat list" where
  "codes s = map of_char s"

definition encode_item_cursor :: "string \<Rightarrow> string \<Rightarrow> string \<Rightarrow> string" where
  "encode_item_cursor observed_at entity_key item_id =
     b64_encode (codes (''['' @ json_text_of observed_at @ '','' @ json_text_of entity_key @ '','' @
       json_text_of item_id @ '']''))"

definition decode_item_cursor :: "string \<Rightarrow> py_exc + nat list \<times> nat list \<times> nat list" where
  "decode_item_cursor cursor =
     (case Option.bind (Option.bind (b64_decode cursor) utf8_decode) three_texts of
        None \<Rightarrow> Inl InvalidCursor
      | Some t \<Rightarrow> Inr t)"

subsection \<open>What is encoded decodes\<close>

lemma b64_digit:
  assumes "n < 64"
  shows "b64_value (b64_char n) = Some n" "b64_char n \<noteq> CHR ''=''"
proof -
  have code: "(of_char (char_of m) :: nat) = m" if "m < 128" for m using that by (simp add: of_char_of)
  consider "n < 26" | "26 \<le> n" "n < 52" | "52 \<le> n" "n < 62" | "n = 62" | "n = 63" using assms by linarith
  then have both: "b64_value (b64_char n) = Some n \<and> (of_char (b64_char n) :: nat) \<noteq> 61"
    by cases (auto simp add: b64_value_def b64_char_def Let_def code)
  then show "b64_value (b64_char n) = Some n" by simp
  show "b64_char n \<noteq> CHR ''=''" using both by auto
qed

lemma a2b_digit:
  "n < 64 \<Longrightarrow> a2b q left False 0 (b64_char n # cs) =
     (if q = 0 then a2b 1 n False 0 cs
      else if q = 1 then map_option (Cons (left * 4 + n div 16)) (a2b 2 (n mod 16) False 0 cs)
      else if q = 2 then map_option (Cons (left * 16 + n div 4)) (a2b 3 (n mod 4) False 0 cs)
      else map_option (Cons (left * 64 + n)) (a2b 0 0 False 0 cs))"
  using b64_digit [of n] by simp

lemma a2b_pad [simp]:
  "a2b 2 left False 0 ''=='' = Some []" "a2b 3 left False 0 ''='' = Some []" "a2b 0 left False 0 [] = Some []"
  by (simp_all add: numeral_2_eq_2)

lemma split_sum: "y < n \<Longrightarrow> (x * n + y) div n = x \<and> (x * n + y) mod n = y" for x y n :: nat
  by simp

lemma six_bits:
  assumes "a < (256::nat)" "b < 256" "c < 256"
  shows "a div 4 < 64" "a mod 4 * 16 < 64" "a mod 4 * 16 + b div 16 < 64" "b mod 16 * 4 < 64" "b mod 16 * 4 + c div 64 < 64"
    "c mod 64 < 64" "a div 4 * 4 + (a mod 4 * 16) div 16 = a" "a div 4 * 4 + (a mod 4 * 16 + b div 16) div 16 = a"
    "(a mod 4 * 16 + b div 16) mod 16 * 16 + (b mod 16 * 4) div 4 = b"
    "(a mod 4 * 16 + b div 16) mod 16 * 16 + (b mod 16 * 4 + c div 64) div 4 = b"
    "(b mod 16 * 4 + c div 64) mod 4 * 64 + c mod 64 = c"
proof -
  have b: "b div 16 < 16" and c: "c div 64 < 4" using assms by auto
  have q: "a mod 4 < 4" "b mod 16 < 16" by simp_all
  show "a div 4 < 64" "c mod 64 < 64" using assms by auto
  show "a mod 4 * 16 < 64" "a mod 4 * 16 + b div 16 < 64" "b mod 16 * 4 < 64" "b mod 16 * 4 + c div 64 < 64"
    using b c q by linarith+
  show "a div 4 * 4 + (a mod 4 * 16) div 16 = a" by simp
  show "a div 4 * 4 + (a mod 4 * 16 + b div 16) div 16 = a" using split_sum [OF b] by simp
  show "(a mod 4 * 16 + b div 16) mod 16 * 16 + (b mod 16 * 4) div 4 = b" using split_sum [OF b] by simp
  show "(a mod 4 * 16 + b div 16) mod 16 * 16 + (b mod 16 * 4 + c div 64) div 4 = b" using split_sum [OF b] split_sum [OF c] by simp
  show "(b mod 16 * 4 + c div 64) mod 4 * 64 + c mod 64 = c" using split_sum [OF c] by simp
qed

lemma a2b_encode: "list_all (\<lambda>b. b < 256) bs \<Longrightarrow> a2b 0 left False 0 (b64_encode bs) = Some bs"
proof (induction bs arbitrary: left rule: b64_encode.induct)
  case (2 a)
  then show ?case by (simp add: a2b_digit six_bits [of a 0 0] del: a2b.simps)
next
  case (3 a b)
  then have "b div 16 < 16" by auto
  with 3 show ?case by (simp add: a2b_digit six_bits [of a b 0] del: a2b.simps)
next
  case (4 a b c xs)
  then have "b div 16 < 16" "c div 64 < 4" by auto
  with 4 show ?case by (simp add: a2b_digit six_bits [of a b c] del: a2b.simps)
qed simp

lemma b64_decode_encode:
  assumes "list_all (\<lambda>b. b < 256) bs"
  shows "b64_decode (b64_encode bs) = Some bs"
proof (cases bs)
  case Nil
  then show ?thesis by (simp add: b64_decode_def)
next
  case (Cons a xs)
  then obtain rest where "b64_encode bs = b64_char (a div 4) # rest" by (cases bs rule: b64_encode.cases) auto
  moreover have "b64_char (a div 4) \<noteq> CHR ''=''" using assms Cons b64_digit(2) [of "a div 4"] six_bits(1) [of a 0 0] by simp
  ultimately show ?thesis using a2b_encode [OF assms, of 0] by (simp add: b64_decode_def)
qed

lemma utf8_ascii: "list_all (\<lambda>b. b < 128) bs \<Longrightarrow> utf8_decode bs = Some bs"
  by (induction bs) (simp_all add: utf8_head_def)

lemma json_body_Cons:
  "json_body (c # rest) =
     (if c = 34 then Some ([], rest)
      else if c = 92 then
        (case rest of
           [] \<Rightarrow> None
         | e # rest1 \<Rightarrow>
             if e = 117 then
               (case unicode_escape rest1 of
                  None \<Rightarrow> None | Some (u, rest2) \<Rightarrow> map_option (apfst (Cons u)) (json_body rest2))
             else
               (case simple_escape e of
                  None \<Rightarrow> None | Some d \<Rightarrow> map_option (apfst (Cons d)) (json_body rest1)))
      else if c < 32 then None
      else map_option (apfst (Cons c)) (json_body rest))"
  by (simp add: json_body.simps [of "c # rest"])

lemma hex_value_digit: "n < 16 \<Longrightarrow> hex_value (of_char (hex_digit n)) = Some n"
  by (auto simp: hex_value_def hex_digit_def of_char_of)

lemma json_escape_body:
  "json_body (codes (json_escape c) @ rest) = map_option (apfst (Cons (of_char c))) (json_body rest)"
proof -
  let ?n = "of_char c :: nat"
  have small: "?n < 256" by simp
  consider "?n = 34 \<or> ?n = 92" | "?n \<in> {8, 9, 10, 12, 13}" | "32 \<le> ?n" "?n \<le> 126" "?n \<noteq> 34" "?n \<noteq> 92"
    | "?n \<notin> {8, 9, 10, 12, 13}" "\<not> (32 \<le> ?n \<and> ?n \<le> 126)" by auto
  then show ?thesis
  proof cases
    case 1
    then have "json_escape c = [CHR 0x5C, c]" by (auto simp: json_escape_def Let_def)
    with 1 show ?thesis by (auto simp: codes_def json_body_Cons simple_escape_def)
  next
    case 2
    then show ?thesis
      by (elim insertE emptyE) (simp_all add: json_escape_def Let_def codes_def json_body_Cons simple_escape_def)
  next
    case 3
    then have "json_escape c = [c]" by (simp add: json_escape_def Let_def)
    with 3 show ?thesis by (simp add: codes_def json_body_Cons)
  next
    case 4
    have hx: "hex_value (of_char (hex_digit (?n div 16))) = Some (?n div 16)" "hex_value (of_char (hex_digit (?n mod 16))) = Some (?n mod 16)"
      "hex_value 48 = Some 0"
      using less_mult_imp_div_less [of ?n 16 16] small by (simp_all add: hex_value_digit) (simp add: hex_value_def)
    have "hex4 (codes [CHR ''0'', CHR ''0'', hex_digit (?n div 16), hex_digit (?n mod 16)] @ rest) = Some (?n, rest)"
      by (simp add: hex4_def codes_def hx)
    moreover have "\<not> 0xD800 \<le> ?n" using small by linarith
    ultimately have u: "unicode_escape (codes [CHR ''0'', CHR ''0'', hex_digit (?n div 16), hex_digit (?n mod 16)] @ rest) = Some (?n, rest)"
      by (simp add: unicode_escape_def)
    have "?n \<noteq> 34" "?n \<noteq> 92" "?n \<noteq> 10" "?n \<noteq> 13" "?n \<noteq> 9" "?n \<noteq> 12" "?n \<noteq> 8" using 4 by auto
    with 4(2) have "json_escape c = CHR 0x5C # ''u00'' @ [hex_digit (?n div 16), hex_digit (?n mod 16)]"
      unfolding json_escape_def Let_def by (simp only: if_False HOL.disj_not1 simp_thms)
    then show ?thesis using u by (simp add: codes_def json_body_Cons)
  qed
qed

lemma codes_simps [simp]: "codes [] = []" "codes (c # s) = of_char c # codes s" "codes (s @ t) = codes s @ codes t"
  by (simp_all add: codes_def)

lemma json_texts_body: "json_body (codes (concat (map json_escape s)) @ 34 # rest) = Some (codes s, rest)"
  by (induction s) (simp_all add: json_escape_body json_body_Cons [of 34])

lemma json_text_round: "json_text_at (codes (json_text_of s) @ rest) = Some (codes s, rest)"
  by (simp add: json_text_at_def json_text_of_def json_texts_body)

lemma json_escape_ascii: "list_all (\<lambda>b. b < 128) (codes (json_escape c))"
proof -
  have "(of_char (hex_digit n) :: nat) < 128" if "n < 16" for n using that by (simp add: hex_digit_def of_char_of)
  moreover have "of_char c div 16 < (16::nat)" "of_char c mod 16 < (16::nat)"
    using less_mult_imp_div_less [of "of_char c" 16 16] by simp_all
  ultimately show ?thesis by (auto simp: json_escape_def Let_def)
qed

lemma json_text_ascii: "list_all (\<lambda>b. b < 128) (codes (json_text_of s))"
  using json_escape_ascii by (induction s) (auto simp: json_text_of_def)

lemma expect_text: "c \<notin> {32, 9, 10, 13} \<Longrightarrow> expect c (c # codes (json_text_of s) @ rest) = Some (codes (json_text_of s) @ rest)"
  by (simp add: expect_def skip_space_def json_text_of_def)

lemma decode_encoded_cursor:
  "decode_item_cursor (encode_item_cursor observed_at entity_key item_id) =
     Inr (codes observed_at, codes entity_key, codes item_id)"
proof -
  let ?p = "''['' @ json_text_of observed_at @ '','' @ json_text_of entity_key @ '','' @ json_text_of item_id @ '']''"
  have ascii: "list_all (\<lambda>b. b < 128) (codes ?p)" using json_text_ascii by simp
  have "list_all (\<lambda>b. b < 256) (codes ?p)" by (rule list.pred_mono_strong [OF ascii]) simp
  then have "Option.bind (b64_decode (encode_item_cursor observed_at entity_key item_id)) utf8_decode = Some (codes ?p)"
    using utf8_ascii [OF ascii] b64_decode_encode unfolding encode_item_cursor_def by simp
  moreover have "three_texts (codes ?p) = Some (codes observed_at, codes entity_key, codes item_id)"
    by (simp add: three_texts_def expect_text json_text_round) (simp add: expect_def skip_space_def)
  ultimately show ?thesis by (simp add: decode_item_cursor_def)
qed

text \<open>
  Every cursor the store hands out is accepted again and gives back exactly the position it
  was made from: decoding an encoded cursor yields the code points of its three texts, whatever
  characters they contain.
\<close>

lemma item_cursor_round_trip:
  "decode_item_cursor (encode_item_cursor observed_at entity_key item_id) =
     Inr (codes observed_at, codes entity_key, codes item_id)"
  by (rule decode_encoded_cursor)

end
