(* ===== verification/Items.thy ===== *)
theory Items
  imports Collectors Item_Cursor "HOL-Library.Product_Lexorder" "HOL-Library.Sublist"
begin

text \<open>
  The items of runs (\<open>store.py\<close>): replacing the items of a run, the view every query starts
  from (\<open>collector_history.item_source\<close>), the current item of an entity, the last accepted
  and the rejected ones of a source, filters and text search, pages behind a cursor or by
  number, and the export. Texts are compared by code point, which is the byte order the
  database compares UTF-8 texts in; ids are primary keys. An item's lineage is reduced to the
  list record it keeps, and its attribution is that of its run.
\<close>

subsection \<open>Writing\<close>

definition new_item_rows :: "string \<Rightarrow> item list \<Rightarrow> ts \<Rightarrow> item_row list" where
  "new_item_rows rid items now = map (\<lambda>i. \<lparr>it_id = im_id i, it_run = rid, it_data = i, it_created = now\<rparr>) items"

definition replace_run_items :: "db \<Rightarrow> string \<Rightarrow> item list \<Rightarrow> ts \<Rightarrow> py_exc + db" where
  "replace_run_items db rid items now =
     (let rows = filter (\<lambda>r. it_run r \<noteq> rid) (t_items db) @ new_item_rows rid items now
      in if distinct (map im_id items) \<and> (\<forall>r \<in> set (t_items db). it_run r \<noteq> rid \<longrightarrow> it_id r \<notin> set (map im_id items))
         then Inr (db\<lparr>t_items := rows\<rparr>) else Inl UniqueViolation)"

subsection \<open>The view of an item\<close>

record item_view =
  iv_row :: item_row
  iv_attribution :: "attribution option"
  iv_deleted :: bool

definition run_attribution :: "db \<Rightarrow> string \<Rightarrow> attribution option" where
  "run_attribution db rid =
     map_option own_data (find (\<lambda>w. own_kind w = ''run'' \<and> own_resource w = rid) (t_ownership db))"

definition view_item :: "db \<Rightarrow> item_row \<Rightarrow> item_view" where
  "view_item db r =
     \<lparr>iv_row = r, iv_attribution = run_attribution db (it_run r),
      iv_deleted = (case tbl_get rr_id (it_run r) (t_runs db) of None \<Rightarrow> False | Some w \<Rightarrow> is_deleted db (rr_collector w))\<rparr>"

definition item_source :: "db \<Rightarrow> item_view list" where
  "item_source db = map (view_item db) (t_items db)"

abbreviation iv_item :: "item_view \<Rightarrow> item" where
  "iv_item v \<equiv> it_data (iv_row v)"

text \<open>The order in which observations of an entity replace each other.\<close>

definition recency :: "item_view \<Rightarrow> nat list \<times> int \<times> nat list" where
  "recency v = (codes (im_observed_at (iv_item v)), iso_key (it_created (iv_row v)), codes (it_id (iv_row v)))"

definition newest_of :: "item_view list \<Rightarrow> item_view \<Rightarrow> bool" where
  "newest_of vs v \<longleftrightarrow> (\<forall>w \<in> set vs. recency w \<le> recency v)"

definition entity_of :: "item_view \<Rightarrow> string \<times> string option \<times> string" where
  "entity_of v = (im_collector (iv_item v), map_option ab_collection (iv_attribution v), im_entity_key (iv_item v))"

definition item_query_source :: "db \<Rightarrow> string \<Rightarrow> py_exc + item_view list" where
  "item_query_source db view =
     (if view = ''observations'' then Inr (item_source db)
      else if view \<noteq> ''entities'' then Inl (ValueErr ''unsupported item view'')
      else Inr (filter (\<lambda>v. newest_of (filter (\<lambda>w. entity_of w = entity_of v) (item_source db)) v) (item_source db)))"

text \<open>What belongs to a source in its present collection; before any reassignment also what has no attribution.\<close>

definition in_collection :: "collector \<Rightarrow> attribution option \<Rightarrow> bool" where
  "in_collection c owner \<longleftrightarrow>
     (case owner of None \<Rightarrow> \<not> col_reassigned c | Some a \<Rightarrow> ab_collection a = col_collection_id c)"

fun chunks :: "nat \<Rightarrow> 'a list \<Rightarrow> 'a list list" where
  "chunks n xs = (if xs = [] \<or> n = 0 then [] else take n xs # chunks n (drop n xs))"

declare chunks.simps [simp del]

definition latest_in :: "item_view list \<Rightarrow> string \<Rightarrow> item_view list" where
  "latest_in vs key = (let ws = filter (\<lambda>v. im_entity_key (iv_item v) = key) vs in filter (newest_of ws) ws)"

definition latest_accepted_items :: "db \<Rightarrow> string \<Rightarrow> string list \<Rightarrow> item list" where
  "latest_accepted_items db cid entity_keys =
     (case get_collector db cid of
        None \<Rightarrow> []
      | Some c \<Rightarrow>
          (let vs = filter (\<lambda>v. im_collector (iv_item v) = cid \<and> in_collection c (iv_attribution v) \<and> im_decision (iv_item v) = ''accepted'')
                     (item_source db)
           in concat (map (\<lambda>batch. map iv_item (concat (map (latest_in vs) batch)))
                (chunks 500 (sort (remdups entity_keys))))))"

definition rejected_entities :: "db \<Rightarrow> string \<Rightarrow> nat \<Rightarrow> nat \<times> item list" where
  "rejected_entities db cid limit =
     (case (get_collector db cid, item_query_source db ''entities'') of
        (Some c, Inr vs) \<Rightarrow>
          (let ws = filter (\<lambda>v. im_collector (iv_item v) = cid \<and> im_decision (iv_item v) = ''rejected'' \<and> in_collection c (iv_attribution v)) vs
           in (length ws, map iv_item (take limit (sort_key (\<lambda>v. codes (it_id (iv_row v))) ws))))
      | _ \<Rightarrow> (0, []))"

definition list_items :: "db \<Rightarrow> item_view list" where
  "list_items db = sort_key (\<lambda>v. - iso_key (it_created (iv_row v))) (item_source db)"

definition get_item :: "db \<Rightarrow> string \<Rightarrow> item_view option" where
  "get_item db i = map_option (view_item db) (tbl_get it_id i (t_items db))"

subsection \<open>Filters and search\<close>

record item_filter =
  flt_collector :: "string option"
  flt_run :: "string option"
  flt_decision :: "string option"
  flt_entity :: "string option"
  flt_host :: "string option"
  flt_q :: "string option"

text \<open>\<open>LIKE ... ESCAPE '!'\<close>.\<close>

function like :: "string \<Rightarrow> string \<Rightarrow> bool" where
  "like [] t = (t = [])"
| "like (p # ps) t =
     (if p = CHR ''!'' then (case (ps, t) of (q # qs, c # cs) \<Rightarrow> c = q \<and> like qs cs | _ \<Rightarrow> False)
      else if p = CHR ''%'' then like ps t \<or> (case t of c # cs \<Rightarrow> like (p # ps) cs | [] \<Rightarrow> False)
      else (case t of c # cs \<Rightarrow> (p = CHR ''_'' \<or> c = p) \<and> like ps cs | [] \<Rightarrow> False))"
  by pat_completeness auto
termination by (relation "measure (\<lambda>(p, t). length p + length t)") auto

definition like_escape :: "char \<Rightarrow> string" where
  "like_escape c = (if c \<in> {CHR ''!'', CHR ''%'', CHR ''_''} then [CHR ''!'', c] else [c])"

definition search_pattern :: "string \<Rightarrow> string" where
  "search_pattern q = ''%'' @ concat (map like_escape (lower (strip q))) @ ''%''"

definition search_texts :: "item \<Rightarrow> string list" where
  "search_texts i = [im_title i, im_content i, im_collector_name i, im_entity_key i]"

definition equal_if_given :: "'a option \<Rightarrow> 'a \<Rightarrow> bool" where
  "equal_if_given wanted x \<longleftrightarrow> (case wanted of None \<Rightarrow> True | Some y \<Rightarrow> x = y)"

definition search_clause :: "string option \<Rightarrow> item \<Rightarrow> bool" where
  "search_clause wanted i \<longleftrightarrow>
     (case wanted of
        None \<Rightarrow> True
      | Some q \<Rightarrow> strip q = [] \<or> list_ex (\<lambda>t. like (search_pattern q) (lower t)) (search_texts i))"

definition item_filter_clauses :: "item_filter \<Rightarrow> item_view \<Rightarrow> bool" where
  "item_filter_clauses f v \<longleftrightarrow>
     equal_if_given (flt_collector f) (im_collector (iv_item v)) \<and> equal_if_given (flt_run f) (it_run (iv_row v)) \<and>
     equal_if_given (flt_decision f) (im_decision (iv_item v)) \<and> equal_if_given (flt_entity f) (im_entity_key (iv_item v)) \<and>
     equal_if_given (flt_host f) (im_source_host (iv_item v)) \<and> search_clause (flt_q f) (iv_item v)"

subsection \<open>Pages and export\<close>

definition item_key :: "item_view \<Rightarrow> nat list \<times> nat list \<times> nat list" where
  "item_key v = (codes (im_observed_at (iv_item v)), codes (im_entity_key (iv_item v)), codes (it_id (iv_row v)))"

definition newest_first :: "item_view list \<Rightarrow> item_view list" where
  "newest_first vs = rev (sort_key item_key vs)"

record page_info =
  pi_page :: nat
  pi_size :: nat
  pi_pages :: nat
  pi_total :: nat

record item_facets =
  ff_hosts :: "string list"
  ff_collectors :: "(string \<times> string) list"

record item_page =
  pg_items :: "item_view list"
  pg_next :: "string option"
  pg_total :: "nat option"
  pg_info :: "page_info option"
  pg_facets :: "item_facets option"

definition facet_rows :: "item_view list \<Rightarrow> (string \<times> string \<times> string) list" where
  "facet_rows vs =
     sort (remdups (map (\<lambda>v. (im_source_host (iv_item v), im_collector (iv_item v), im_collector_name (iv_item v))) vs))"

definition last_name :: "(string \<times> string \<times> string) list \<Rightarrow> string \<Rightarrow> string" where
  "last_name rows cid = snd (snd (last (filter (\<lambda>r. fst (snd r) = cid) rows)))"

definition item_facets_of :: "item_view list \<Rightarrow> item_facets" where
  "item_facets_of vs =
     (let rows = facet_rows vs
      in \<lparr>ff_hosts = sort (remdups (map fst rows)),
          ff_collectors = map (\<lambda>cid. (cid, last_name rows cid)) (rev (remdups (rev (map (fst \<circ> snd) rows))))\<rparr>)"

definition next_item_cursor :: "item_view list \<Rightarrow> nat \<Rightarrow> string option" where
  "next_item_cursor rows limit =
     (if limit < length rows
      then (let l = last (take limit rows)
            in Some (encode_item_cursor (im_observed_at (iv_item l)) (im_entity_key (iv_item l)) (im_id (iv_item l))))
      else None)"

definition list_items_cursor ::
  "db \<Rightarrow> item_filter \<Rightarrow> string \<Rightarrow> nat \<Rightarrow> string option \<Rightarrow> string \<Rightarrow> nat option \<Rightarrow> py_exc + item_page" where
  "list_items_cursor db f sort_by limit cursor view page_number =
     (if sort_by \<noteq> ''observed_at'' then Inl (ValueErr ''only the observed_at sort key is supported'')
      else if limit < 1 then Inl (ValueErr ''limit must be positive'')
      else if page_number \<noteq> None \<and> (page_number = Some 0 \<or> cursor \<noteq> None)
      then Inl (ValueErr ''page_number must be positive and cannot be combined with cursor'')
      else
        (case item_query_source db view of
           Inl e \<Rightarrow> Inl e
         | Inr vs \<Rightarrow>
             (let matching = filter (item_filter_clauses f) vs; total = length matching
              in (case (case cursor of
                          None \<Rightarrow> Inr matching
                        | Some t \<Rightarrow>
                            (case decode_item_cursor t of
                               Inl e \<Rightarrow> Inl e | Inr position \<Rightarrow> Inr (filter (\<lambda>v. item_key v < position) matching))) of
                    Inl e \<Rightarrow> Inl e
                  | Inr selected \<Rightarrow>
                      (let pages = max 1 ((total + limit - 1) div limit);
                           page = (case page_number of None \<Rightarrow> 1 | Some n \<Rightarrow> min n pages);
                           rows = take (limit + 1) (drop ((page - 1) * limit) (newest_first selected))
                       in Inr \<lparr>pg_items = take limit rows, pg_next = next_item_cursor rows limit,
                               pg_total = (if view = ''entities'' \<or> page_number \<noteq> None then Some total else None),
                               pg_info = (if page_number = None then None
                                          else Some \<lparr>pi_page = page, pi_size = limit, pi_pages = pages, pi_total = total\<rparr>),
                               pg_facets = (if view = ''entities'' then Some (item_facets_of vs) else None)\<rparr>)))))"

definition iter_items_export :: "db \<Rightarrow> item_filter \<Rightarrow> string \<Rightarrow> py_exc + item_view list" where
  "iter_items_export db f view =
     (case item_query_source db view of Inl e \<Rightarrow> Inl e | Inr vs \<Rightarrow> Inr (newest_first (filter (item_filter_clauses f) vs)))"

end
