(* ===== verification/Runs.thy ===== *)
theory Runs
  imports Recovery_Safety Schedules Job_Safety Items
begin

text \<open>
  Starting a collection run (\<open>app.create_run_operation\<close>, \<open>verified_run_integrity\<close>) and
  dispatching a claimed schedule occurrence (\<open>app.dispatch_schedule_occurrence\<close>): the
  place where schedules, policies, recovery batches and the job queue meet.
  An ordinary run, a recovery run and a run that retries rejected items are started the
  same way. The two calendar computations of the window start are parameters, like the
  item budget inside the compiled specification of a candidate. The result comes with the
  store, because a caller that catches the exception keeps what was written.
\<close>

definition verified_run_integrity :: "verifier \<Rightarrow> db \<Rightarrow> collector \<Rightarrow> py_exc + integrity_context" where
  "verified_run_integrity verify db c =
     (case col_active_rule c of
        None \<Rightarrow> Inl (IntegrityErr ''RULE_ATTESTATION_INVALID'')
      | Some rid \<Rightarrow>
          (case (tbl_get rv_id rid (t_rules db), latest_rule_attestation db rid) of
             (Some rule, Some a) \<Rightarrow>
               (case get_signing_key db (at_key_id a) of
                  None \<Rightarrow> Inl (IntegrityErr ''RULE_ATTESTATION_INVALID'')
                | Some k \<Rightarrow> 
                    (case verify rule a k of
                       Inl code \<Rightarrow> Inl (IntegrityErr code)
                     | Inr d \<Rightarrow> Inr \<lparr>ic_rule_version = rid, ic_attestation = at_id a, ic_digest = d, ic_key = sk_id k,
                                       ic_trust_revision = sk_revision k\<rparr>))
           | _ \<Rightarrow> Inl (IntegrityErr ''RULE_ATTESTATION_INVALID'')))"

text \<open>
  The calendar: the first day of the window from the watermark, or from today; and the item
  budget of the compiled specification of a source's candidate.
\<close>

record calendar =
  incremental_start :: "checkpoint \<Rightarrow> policy \<Rightarrow> string"
  initial_start :: "policy \<Rightarrow> ts \<Rightarrow> string"
  item_budget :: "collector \<Rightarrow> int"

text \<open>The list records of the rejected items a retry works on.\<close>

definition retry_record :: "item \<Rightarrow> json" where
  "retry_record i =
     (case im_list_record i of
        Some r \<Rightarrow> r
      | None \<Rightarrow> JObj [(''detailUrl'', (case map_of (im_extracted i) ''detailUrl'' of
                          Some (JStr u) \<Rightarrow> if u = [] then JStr (im_source_url i) else JStr u
                        | _ \<Rightarrow> JStr (im_source_url i))),
                     (''listTitle'', JStr (im_list_title i))])"

definition retry_records_of :: "calendar \<Rightarrow> db \<Rightarrow> collector \<Rightarrow> policy \<Rightarrow> json list" where
  "retry_records_of cal db c p =
     map retry_record (snd (rejected_entities db (col_id c) (nat (min (pv_max_items (pol_values p)) (item_budget cal c)))))"

text \<open>The checkpoint a run continues from: of the active policy and, when observed, of the active rule.\<close>

definition usable_checkpoint :: "db \<Rightarrow> string \<Rightarrow> policy \<Rightarrow> string \<Rightarrow> checkpoint option" where
  "usable_checkpoint db cid p digest =
     (case get_checkpoint db cid of
        None \<Rightarrow> None
      | Some ck \<Rightarrow>
          if pv_checkpoint_mode (pol_values p) = Some ''observed'' \<and> ck_rule_digest ck \<noteq> Some digest then None
          else if ck_policy_version ck = pol_id p then Some ck else None)"

definition usable_progress :: "collector \<Rightarrow> policy \<Rightarrow> string \<Rightarrow> coverage_progress option" where
  "usable_progress c p digest =
     (if pv_checkpoint_mode (pol_values p) = Some ''observed'' \<and> valid_progress (col_coverage c) digest (Some (pol_id p))
      then col_coverage c else None)"

definition new_run ::
  "calendar \<Rightarrow> db \<Rightarrow> collector \<Rightarrow> policy \<Rightarrow> integrity_context \<Rightarrow> bool \<Rightarrow> string option \<Rightarrow> nat option \<Rightarrow> string \<Rightarrow> ts \<Rightarrow> run"
where
  "new_run cal db c p ic retry batch limit rid now =
     (let digest = ic_digest ic;
          ck = usable_checkpoint db (col_id c) p digest;
          progress = usable_progress c p digest;
          observed = (pv_checkpoint_mode (pol_values p) = Some ''observed'')
      in \<lparr>run_id = rid, run_collector = col_id c, run_status = Queued, run_operation = None,
          run_rule_version = the (col_active_rule c), run_rule_digest = digest, run_policy_version = pol_id p,
          run_integrity = ''verified'', run_stop_reason = Some ''not_applicable'', run_items = [],
          run_list_pages = 0, run_detail_pages = 0, run_source_requests = None,
          run_coverage_before = (if observed then progress else None), run_coverage_after = None,
          run_checkpoint_before = ck, run_checkpoint_after = None,
          run_recovery_batch = batch, run_retry_after_seconds = None, run_duration_micros = None,
          run_started_iso = None, run_finished_iso = None, run_summary = ''waiting for the worker'',
          run_recovery_action = ''none'',
          run_execution_mode = (if ck = None then ''initial'' else ''incremental''),
          run_window_start = (if progress \<noteq> None \<and> \<not> retry then cp_window_start (the progress)
            else (case ck of Some k \<Rightarrow> incremental_start cal k p | None \<Rightarrow> initial_start cal p now)),
          run_policy_digest = pol_digest p,
          run_coverage_mode = (if observed then Some ''observed'' else None),
          run_source_limit = (if batch = None then None else limit),
          run_purpose = (if retry then Some ''retry_rejected'' else None),
          run_pending_quality = (if observed then Some (fst (rejected_entities db (col_id c) 1)) else None),
          run_accepted = 0, run_rejected = 0, run_details_found = 0, run_outside_window = 0, run_duplicates = 0,
          run_new = 0, run_updated = 0, run_unchanged = 0, run_artifact_mode = ''sampled'',
          run_evidence_ref = None, run_evidence_digest = None, run_attestation = ic_attestation ic,
          run_key = ic_key ic, run_trust_revision = ic_trust_revision ic\<rparr>)"

definition run_request ::
  "hasher \<Rightarrow> collector \<Rightarrow> run \<Rightarrow> integrity_context \<Rightarrow> json list option \<Rightarrow> string option \<Rightarrow> async_request" where
  "run_request ph c r ic records batch =
     \<lparr>ar_kind = ''run'', ar_resource_type = ''run'', ar_resource_id = run_id r,
      ar_payload = \<lparr>pl_collector_id = Some (col_id c), pl_ai_run_id = None, pl_run_id = Some (run_id r),
                    pl_previous_status = None, pl_max_job_attempts = (if batch = None then None else Some 1),
                    pl_recovery_batch = batch, pl_management_revision = 0, pl_integrity = Some ic,
                    pl_policy = Some (run_policy_version r, run_policy_digest r), pl_retry_records = records,
                    pl_extra = []\<rparr>,
      ar_changes = None, ar_run = Some r, ar_ai_run = None, ar_activate = True,
      ar_expected_digest = Some (source_execution_digest ph c)\<rparr>"

text \<open>The checks before anything is written.\<close>

definition run_start_error :: "collector option \<Rightarrow> py_exc option" where
  "run_start_error source =
     (case source of
        None \<Rightarrow> Some (RunStartErr ''COLLECTOR_NOT_FOUND'')
      | Some c \<Rightarrow>
          if col_lifecycle c = Archived then Some (RunStartErr ''COLLECTOR_ARCHIVED'')
          else if col_pending_version c \<noteq> None then Some (RunStartErr ''MIGRATION_ALREADY_ACTIVE'')
          else if col_status c \<noteq> ''published'' \<or> col_active_rule c = None then Some (RunStartErr ''RULE_NOT_PUBLISHED'')
          else None)"

text \<open>\<open>rid\<close> and \<open>oid\<close> are the fresh ids of the run and its operation.\<close>

definition create_run_operation ::
  "hasher \<Rightarrow> (string \<Rightarrow> string option) \<Rightarrow> verifier \<Rightarrow> calendar \<Rightarrow> db \<Rightarrow> string \<Rightarrow> bool \<Rightarrow> string option \<Rightarrow>
   nat option \<Rightarrow> string \<Rightarrow> string \<Rightarrow> ts \<Rightarrow> db \<times> (py_exc + operation)" where
  "create_run_operation ph hostname verify cal db cid retry batch limit rid oid now =
     (case run_start_error (get_collector db cid) of
        Some e \<Rightarrow> (db, Inl e)
      | None \<Rightarrow>
     (let c = the (get_collector db cid)
      in (case verified_run_integrity verify db c of
            Inl (IntegrityErr code) \<Rightarrow> (db, Inl (RunStartErr code))
          | Inl e \<Rightarrow> (db, Inl e)
          | Inr ic \<Rightarrow>
              if has_active_run db cid then (db, Inl (RunStartErr ''RUN_ALREADY_ACTIVE''))
              else
                (case ensure_collection_policy ph db cid now of
                   Inl e \<Rightarrow> (db, Inl e)
                 | Inr (db1, c1) \<Rightarrow>
                     (case col_policy c1 of
                        None \<Rightarrow> (db1, Inl (RuntimeErr ''policy missing''))
                      | Some p \<Rightarrow>
                          (let records = (if retry then Some (retry_records_of cal db1 c1 p) else None)
                           in if records = Some [] then (db1, Inl (RunStartErr ''NO_REJECTED_ITEMS''))
                              else
                                (case create_async_command ph hostname db1 cid
                                        (run_request ph c1 (new_run cal db1 c1 p ic retry batch limit rid now) ic records batch)
                                        oid now of
                                   Inl e \<Rightarrow> (db1, Inl e)
                                 | Inr (db2, o') \<Rightarrow> (db2, Inr o'))))))))"

text \<open>
  The starter \<open>tick\<close> is called with. \<open>fresh\<close> is what a call gets from its environment: the
  new ids of the run and the operation, and the clock.
\<close>

definition recovery_starter ::
  "hasher \<Rightarrow> (string \<Rightarrow> string option) \<Rightarrow> verifier \<Rightarrow> calendar \<Rightarrow> (db \<Rightarrow> string \<times> string \<times> ts) \<Rightarrow> run_starter" where
  "recovery_starter ph hostname verify cal fresh db cid bid =
     (case fresh db of (rid, oid, now) \<Rightarrow>
        (case create_run_operation ph hostname verify cal db cid False (Some bid) (Some request_limit) rid oid now of
           (db', Inl e) \<Rightarrow> (db', Inl e)
         | (db', Inr o') \<Rightarrow> (db', Inr (op_resource_id o'))))"

subsection \<open>Dispatching a claimed occurrence\<close>

definition skip_code :: "py_exc \<Rightarrow> string option" where
  "skip_code e = (case e of RunStartErr code \<Rightarrow> Some code | LifecycleErr code \<Rightarrow> Some code
     | RecoveryErr code \<Rightarrow> Some code | _ \<Rightarrow> None)"

definition start_occurrence ::
  "hasher \<Rightarrow> (string \<Rightarrow> string option) \<Rightarrow> verifier \<Rightarrow> calendar \<Rightarrow> db \<Rightarrow> occurrence_row \<Rightarrow> string \<Rightarrow> string \<Rightarrow> ts \<Rightarrow>
   db \<times> (py_exc + operation)" where
  "start_occurrence ph hostname verify cal db oc rid oid now =
     (case lock_collector db (oc_collector oc) of
        Some e \<Rightarrow> (db, Inl e)
      | None \<Rightarrow>
     (case find (\<lambda>s. sch_id s = oc_schedule oc \<and> sch_collector s = oc_collector oc) (t_schedules db) of
        None \<Rightarrow> (db, Inl (RunStartErr ''SCHEDULE_DISABLED''))
      | Some s \<Rightarrow>
          if \<not> sv_enabled (sch_values s) then (db, Inl (RunStartErr ''SCHEDULE_DISABLED''))
          else if oc_key oc \<noteq> occurrence_key ph s (oc_scheduled_at oc) then (db, Inl (RunStartErr ''SCHEDULE_CHANGED''))
          else create_run_operation ph hostname verify cal db (oc_collector oc) False None None rid oid now))"

definition dispatch_schedule_occurrence ::
  "hasher \<Rightarrow> (string \<Rightarrow> string option) \<Rightarrow> verifier \<Rightarrow> calendar \<Rightarrow> db \<Rightarrow> occurrence_row \<Rightarrow> string \<Rightarrow> string \<Rightarrow> ts \<Rightarrow>
   py_exc + db" where
  "dispatch_schedule_occurrence ph hostname verify cal db oc rid oid now =
     (case tbl_get oc_key (oc_key oc) (t_occurrences db) of
        None \<Rightarrow> Inr db
      | Some row \<Rightarrow>
          if oc_status row \<noteq> ''claimed'' then Inr db
          else
            (case start_occurrence ph hostname verify cal db oc rid oid now of
               (db1, Inl e) \<Rightarrow>
                 (case skip_code e of
                    None \<Rightarrow> Inl e
                  | Some code \<Rightarrow> finish_schedule_occurrence db1 (oc_key oc) ''skipped'' None (Some code) now)
             | (db1, Inr o') \<Rightarrow>
                 finish_schedule_occurrence db1 (oc_key oc) ''dispatched'' (Some (op_resource_id o')) None now))"

subsection \<open>What a run start touches\<close>

lemma create_async_command_frame:
  assumes "create_async_command ph hostname db cid req oid now = Inr (db', o1)"
  shows "t_batches db' = t_batches db" "t_occurrences db' = t_occurrences db" "t_schedules db' = t_schedules db"
    "t_policies db' = t_policies db" "t_deleted db' = t_deleted db"
proof -
  define op where "op = queued_operation oid req now"
  obtain c where c: "lock_collector db cid = None" "get_collector db cid = Some c" "command_guard ph hostname db cid c req now = None"
    using assms by (auto simp: create_async_command_def Let_def split: option.splits)
  obtain db1 where d1: "(if ar_changes req \<noteq> None \<or> ar_activate req
                 then map_sum id fst (save_collector db (changed_collector req oid c) False now) else Inr db) = Inr db1"
    using assms c by (auto simp: create_async_command_def Let_def split: sum.splits)
  obtain db2 where d2: "(case ar_run req of None \<Rightarrow> Inr db1 | Some r \<Rightarrow> save_run db1 (r\<lparr>run_operation := Some oid\<rparr>) now) = Inr db2"
    using assms c d1 by (auto simp: create_async_command_def Let_def split: sum.splits)
  obtain db3 where d3: "save_operation db2 op cid now = Inr db3"
    using assms c d1 d2 by (auto simp: create_async_command_def Let_def op_def [symmetric] split: sum.splits)
  obtain db4 where d4: "(case ar_ai_run req of
                   None \<Rightarrow> Inr db3
                 | Some a \<Rightarrow> save_ai_run db3 (queued_ai_run a oid (op_activity op) now) cid oid now) = Inr db4"
    using assms c d1 d2 d3 by (auto simp: create_async_command_def Let_def op_def [symmetric] split: sum.splits)
  have db': "\<exists>js n. db' = db4\<lparr>t_jobs := js, t_next_job := n\<rparr>"
    using assms c d1 d2 d3 d4 by (auto simp: create_async_command_def Let_def op_def [symmetric])
  have 1: "\<exists>cs. db1 = db\<lparr>t_collectors := cs\<rparr>"
  proof (cases "ar_changes req \<noteq> None \<or> ar_activate req")
    case True
    with d1 show ?thesis by (auto elim!: save_collector_only)
  next
    case False
    with d1 have "db1 = db\<lparr>t_collectors := t_collectors db\<rparr>" by simp
    then show ?thesis ..
  qed
  have 2: "\<exists>ow rs. db2 = db1\<lparr>t_ownership := ow, t_runs := rs\<rparr>"
  proof (cases "ar_run req")
    case None
    with d2 have "db2 = db1\<lparr>t_ownership := t_ownership db1, t_runs := t_runs db1\<rparr>" by simp
    then show ?thesis by blast
  next
    case (Some r)
    with d2 show ?thesis by (auto elim!: save_run_only)
  qed
  have 3: "\<exists>ow ops. db3 = db2\<lparr>t_ownership := ow, t_operations := ops\<rparr>"
    using d3 by (auto elim!: save_operation_only)
  have 4: "\<exists>ow rs. db4 = db3\<lparr>t_ownership := ow, t_ai_runs := rs\<rparr>"
  proof (cases "ar_ai_run req")
    case None
    with d4 have "db4 = db3\<lparr>t_ownership := t_ownership db3, t_ai_runs := t_ai_runs db3\<rparr>" by simp
    then show ?thesis by blast
  next
    case (Some r)
    with d4 show ?thesis by (auto elim!: save_ai_run_only)
  qed
  show "t_batches db' = t_batches db" "t_occurrences db' = t_occurrences db" "t_schedules db' = t_schedules db"
    "t_policies db' = t_policies db" "t_deleted db' = t_deleted db"
    using db' 1 2 3 4 by auto
qed


lemma ensure_policy_frame:
  assumes "ensure_collection_policy ph db cid now = Inr (db', c')"
  shows "t_batches db' = t_batches db" "t_occurrences db' = t_occurrences db" "t_schedules db' = t_schedules db"
    "same_queue db db'" "t_runs db' = t_runs db"
proof -
  have "db' = db \<or> (\<exists>ps cks cs. db' = db\<lparr>t_policies := ps, t_checkpoints := cks, t_collectors := cs\<rparr>)"
    using assms
    by (auto simp: ensure_collection_policy_def create_collection_policy_def Let_def elim!: save_collector_only
        split: option.splits if_splits)
  then show "t_batches db' = t_batches db" "t_occurrences db' = t_occurrences db" "t_schedules db' = t_schedules db"
    "same_queue db db'" "t_runs db' = t_runs db"
    by (auto simp: same_queue_def)
qed

lemma create_run_cases:
  obtains (refused) e where "create_run_operation ph hostname verify cal db cid retry batch limit rid oid now = (db, Inl e)"
    | (rejected) db1 c1 e where "ensure_collection_policy ph db cid now = Inr (db1, c1)"
        "create_run_operation ph hostname verify cal db cid retry batch limit rid oid now = (db1, Inl e)"
    | (started) c ic db1 c1 p records db2 o' where "get_collector db cid = Some c" "run_start_error (Some c) = None"
        "verified_run_integrity verify db c = Inr ic" "\<not> has_active_run db cid"
        "ensure_collection_policy ph db cid now = Inr (db1, c1)" "col_policy c1 = Some p"
        "create_async_command ph hostname db1 cid
           (run_request ph c1 (new_run cal db1 c1 p ic retry batch limit rid now) ic records batch) oid now = Inr (db2, o')"
        "create_run_operation ph hostname verify cal db cid retry batch limit rid oid now = (db2, Inr o')"
proof (cases "run_start_error (get_collector db cid)")
  case (Some e)
  then show ?thesis using refused by (simp add: create_run_operation_def)
next
  case None
  then obtain c where c: "get_collector db cid = Some c" "run_start_error (Some c) = None"
    by (cases "get_collector db cid") (simp_all add: run_start_error_def)
  show ?thesis
  proof (cases "verified_run_integrity verify db c")
    case (Inl e)
    with c show ?thesis using refused by (cases e) (simp_all add: create_run_operation_def)
  next
    case v: (Inr ic)
    show ?thesis
    proof (cases "has_active_run db cid")
      case True
      with c v show ?thesis using refused by (simp add: create_run_operation_def)
    next
      case free: False
      show ?thesis
      proof (cases "ensure_collection_policy ph db cid now")
        case (Inl e)
        with c v free show ?thesis using refused by (simp add: create_run_operation_def)
      next
        case (Inr q)
        obtain db1 c1 where e: "ensure_collection_policy ph db cid now = Inr (db1, c1)" using Inr by (cases q) simp
        show ?thesis
        proof (cases "col_policy c1")
          assume "col_policy c1 = None"
          with c v free e show ?thesis using rejected by (simp add: create_run_operation_def)
        next
          fix p assume p: "col_policy c1 = Some p"
          define records where "records = (if retry then Some (retry_records_of cal db1 c1 p) else None)"
          show ?thesis
          proof (cases "records = Some []")
            case True
            with c v free e p show ?thesis using rejected by (simp add: create_run_operation_def records_def)
          next
          case some: False
          show ?thesis
          proof (cases "create_async_command ph hostname db1 cid
              (run_request ph c1 (new_run cal db1 c1 p ic retry batch limit rid now) ic records batch) oid now")
            fix e' assume "create_async_command ph hostname db1 cid
              (run_request ph c1 (new_run cal db1 c1 p ic retry batch limit rid now) ic records batch) oid now = Inl e'"
            with c v free e p some show ?thesis using rejected by (simp add: create_run_operation_def records_def [symmetric] Let_def)
          next
            fix r assume "create_async_command ph hostname db1 cid
              (run_request ph c1 (new_run cal db1 c1 p ic retry batch limit rid now) ic records batch) oid now = Inr r"
            with c v free e p some show ?thesis
              using started by (cases r) (simp add: create_run_operation_def records_def [symmetric] Let_def)
          qed
          qed
        qed
      qed
    qed
  qed
qed

lemma create_run_frame:
  shows "t_batches (fst (create_run_operation ph hostname verify cal db cid retry batch limit rid oid now)) = t_batches db"
    and "t_occurrences (fst (create_run_operation ph hostname verify cal db cid retry batch limit rid oid now)) = t_occurrences db"
    and "t_schedules (fst (create_run_operation ph hostname verify cal db cid retry batch limit rid oid now)) = t_schedules db"
  by (cases rule: create_run_cases [of ph hostname verify cal db cid retry batch limit rid oid now];
      simp add: ensure_policy_frame create_async_command_frame)+

text \<open>A started run leaves the queue well formed and has its document and its queued job.\<close>

lemma create_run_queue:
  assumes inv: "queue_inv db" and fresh: "get_operation db oid = None"
  shows "queue_inv (fst (create_run_operation ph hostname verify cal db cid retry batch limit rid oid now))"
proof (cases rule: create_run_cases [of ph hostname verify cal db cid retry batch limit rid oid now])
  case (refused e)
  with inv show ?thesis by simp
next
  case (rejected db1 c1 e)
  have "queue_inv db1" by (rule queue_step_inv [OF same_queue_step [OF inv ensure_policy_frame(4) [OF rejected(1)]]])
  with rejected(2) show ?thesis by simp
next
  case (started c ic db1 c1 p records db2 o')
  note q = ensure_policy_frame(4) [OF started(5)]
  have i1: "queue_inv db1" by (rule queue_step_inv [OF same_queue_step [OF inv q]])
  have "get_operation db1 oid = None" using fresh by (simp add: same_queue_get [OF q])
  from queue_step_inv [OF create_async_command_step(1) [OF i1 this started(7)]] started(8) show ?thesis by simp
qed

interpretation app_recovery: batch_keeping_starter "recovery_starter ph hostname verify cal fresh"
  for ph hostname verify cal fresh
proof
  fix db cid bid
  show "t_batches (fst (recovery_starter ph hostname verify cal fresh db cid bid)) = t_batches db"
    using create_run_frame(1)
    by (auto simp: recovery_starter_def split: prod.splits sum.splits) (metis fst_conv)+
qed

subsection \<open>A command is refused by its guards only\<close>

lemma record_new_history_ok:
  assumes "lock_collector db cid = None"
  obtains db' where "record_new_history db kind rid rv cid = Inr db'"
proof -
  from assms obtain c where "get_collector db cid = Some c" by (auto simp: lock_collector_get)
  with assms have "\<exists>db'. record_new_history db kind rid rv cid = Inr db'" by (simp add: record_new_history_def Let_def)
  with that show ?thesis by blast
qed

lemma lock_cong:
  "t_collectors db' = t_collectors db \<Longrightarrow> t_deleted db' = t_deleted db \<Longrightarrow> lock_collector db' cid = lock_collector db cid"
  by (simp add: lock_collector_def is_deleted_def)

lemma save_collector_ok:
  assumes "get_collector db cid = Some c" and "col_id c = cid"
    and "col_id x = cid" "col_lifecycle x = col_lifecycle c" "col_revision x = col_revision c"
  obtains db' where "save_collector db x False now = Inr (db', x)" "lock_collector db' cid = None"
proof -
  from get_collector_stored [OF assms(1)] obtain old where old: "stored_collector db cid = Some old"
    "c = old\<lparr>col_collection_name := col_collection_name c\<rparr>" "\<not> is_deleted db cid" by metis
  have "col_lifecycle c = col_lifecycle old" "col_revision c = col_revision old" by (subst old(2); simp)+
  then have "\<exists>db'. save_collector db x False now = Inr (db', x)"
    using old(1,3) assms(3-5) by (auto simp: save_collector_def stored_collector_def Let_def)
  then obtain db' where s: "save_collector db x False now = Inr (db', x)" by blast
  have "stored_collector db' cid = Some x" using save_collector_ordinary(2) [OF s] assms(3) by simp
  then have "lock_collector db' cid = None"
    using old(3) save_collector_frame(1) [OF s] by (auto simp: lock_collector_def stored_collector_def is_deleted_def)
  with s that show ?thesis by blast
qed

lemma create_async_command_ok:
  assumes get: "get_collector db cid = Some c" and id: "col_id c = cid"
    and guard: "command_guard ph hostname db cid c req now = None"
    and req: "ar_changes req = None" "\<And>r. ar_run req = Some r \<Longrightarrow> run_collector r = cid"
  shows "\<exists>db' o'. create_async_command ph hostname db cid req oid now = Inr (db', o')"
proof -
  define op where "op = queued_operation oid req now"
  have lock: "lock_collector db cid = None" using get by (simp add: lock_collector_get)
  obtain db1 where d1: "(if ar_changes req \<noteq> None \<or> ar_activate req
      then map_sum id fst (save_collector db (changed_collector req oid c) False now) else Inr db) = Inr db1"
    "lock_collector db1 cid = None"
  proof (cases "ar_activate req")
    case True
    have "col_id (changed_collector req oid c) = cid" "col_lifecycle (changed_collector req oid c) = col_lifecycle c"
      "col_revision (changed_collector req oid c) = col_revision c"
      using id by (simp_all add: changed_collector_def req(1))
    from save_collector_ok [OF get id this] obtain db' where
      "save_collector db (changed_collector req oid c) False now = Inr (db', changed_collector req oid c)"
      "lock_collector db' cid = None" .
    with True that show ?thesis by simp
  next
    case False
    with lock req(1) that show ?thesis by simp
  qed
  obtain db2 where d2: "(case ar_run req of None \<Rightarrow> Inr db1 | Some r \<Rightarrow> save_run db1 (r\<lparr>run_operation := Some oid\<rparr>) now) = Inr db2"
    "lock_collector db2 cid = None"
  proof (cases "ar_run req")
    case None
    with d1 that show ?thesis by simp
  next
    case (Some r)
    obtain dbh where "record_new_history db1 ''run'' (run_id r)
        (if run_rule_version r = [] then None else Some (run_rule_version r)) cid = Inr dbh"
      by (rule record_new_history_ok [OF d1(2)])
    then have "\<exists>db2. save_run db1 (r\<lparr>run_operation := Some oid\<rparr>) now = Inr db2"
      using req(2) [OF Some] by (cases "run_rule_version r = []") (simp_all add: save_run_def)
    then obtain db2 where s: "save_run db1 (r\<lparr>run_operation := Some oid\<rparr>) now = Inr db2" by blast
    with d1(2) have "lock_collector db2 cid = None" using lock_cong [OF save_run_frame(1,2) [OF s]] by simp
    with s Some that show ?thesis by simp
  qed
  obtain dbh where h: "record_new_history db2 ''operation'' oid None cid = Inr dbh"
    by (rule record_new_history_ok [OF d2(2)])
  have "op_id op = oid" by (simp add: op_def queued_operation_def)
  with h have "\<exists>db3. save_operation db2 op cid now = Inr db3" by (simp add: save_operation_def)
  then obtain db3 where d3: "save_operation db2 op cid now = Inr db3" by blast
  have l3: "lock_collector db3 cid = None" using d2(2) lock_cong [OF save_operation_frame(1,2) [OF d3]] by simp
  obtain db4 where d4: "(case ar_ai_run req of
                   None \<Rightarrow> Inr db3
                 | Some a \<Rightarrow> save_ai_run db3 (queued_ai_run a oid (op_activity op) now) cid oid now) = Inr db4"
  proof (cases "ar_ai_run req")
    case None
    with that show ?thesis by simp
  next
    case (Some a)
    obtain dbx where "record_new_history db3 ''ai_run'' (air_id (queued_ai_run a oid (op_activity op) now)) None cid = Inr dbx"
      by (rule record_new_history_ok [OF l3])
    with Some that show ?thesis by (auto simp: save_ai_run_def)
  qed
  show ?thesis unfolding create_async_command_def Let_def
    using lock get guard d1(1) d2(1) d3 [unfolded op_def] d4 [unfolded op_def] by simp
qed

text \<open>
  A command without document changes is refused by its guards only: on an existing
  source it is accepted, with its operation and queued job committed together, exactly when
  the guards find nothing against it.
\<close>

lemma command_accepted_iff_unguarded:
  assumes "get_collector db cid = Some c" and "col_id c = cid"
    and "ar_changes req = None" and "\<And>r. ar_run req = Some r \<Longrightarrow> run_collector r = cid"
  shows "(\<exists>db' o' j. create_async_command ph hostname db cid req oid now = Inr (db', o') \<and>
            op_id o' = oid \<and> j \<in> set (t_jobs db') \<and> job_operation j = oid \<and> job_status j = JQueued) \<longleftrightarrow>
         command_guard ph hostname db cid c req now = None"
proof
  assume "\<exists>db' o' j. create_async_command ph hostname db cid req oid now = Inr (db', o') \<and>
            op_id o' = oid \<and> j \<in> set (t_jobs db') \<and> job_operation j = oid \<and> job_status j = JQueued"
  then obtain db' o' where "create_async_command ph hostname db cid req oid now = Inr (db', o')" by blast
  then show "command_guard ph hostname db cid c req now = None"
    by (rule create_async_command_cases) (simp add: assms(1))
next
  assume "command_guard ph hostname db cid c req now = None"
  from create_async_command_ok [OF assms(1,2) this assms(3,4)] obtain db' o' where
    r: "create_async_command ph hostname db cid req oid now = Inr (db', o')" by blast
  from r have "op_id o' = oid \<and> (\<exists>j \<in> set (t_jobs db'). job_operation j = oid \<and> job_status j = JQueued)"
    by (rule create_async_command_cases) (simp add: queued_operation_def)
  with r show "\<exists>db' o' j. create_async_command ph hostname db cid req oid now = Inr (db', o') \<and>
            op_id o' = oid \<and> j \<in> set (t_jobs db') \<and> job_operation j = oid \<and> job_status j = JQueued" by blast
qed

end
