(* ===== verification/Run_Safety.thy ===== *)
theory Run_Safety
  imports Runs
begin

text \<open>
  Properties across components: recovery batches driven by the application's run
  starter, their idempotent commands, the exclusion of other work on a recovering
  source, and the exactly-once dispatch of schedule occurrences.
\<close>

subsection \<open>The recovery commands\<close>

datatype recovery_command =
    StartRecovery string string audit_args string string ts
  | StopRecovery string string audit_args string ts

fun command_scope :: "recovery_command \<Rightarrow> string" where
  "command_scope (StartRecovery rid key audit bid i now) = start_scope rid"
| "command_scope (StopRecovery bid key audit i now) = stop_scope bid"

fun command_key :: "recovery_command \<Rightarrow> string" where
  "command_key (StartRecovery rid key audit bid i now) = key"
| "command_key (StopRecovery bid key audit i now) = key"

fun run_recovery_command ::
  "hasher \<Rightarrow> (string \<Rightarrow> string option) \<Rightarrow> verifier \<Rightarrow> (recovery_batch \<Rightarrow> json) \<Rightarrow> db \<Rightarrow> recovery_command \<Rightarrow> outcome" where
  "run_recovery_command ph hostname verify batch_json db (StartRecovery rid key audit bid i now) =
     start_recovery ph hostname verify batch_json db rid key audit bid i now"
| "run_recovery_command ph hostname verify batch_json db (StopRecovery bid key audit i now) =
     request_stop ph batch_json db bid key audit i now"

lemma start_recovery_records:
  assumes "start_recovery ph hostname verify batch_json db rid key audit bid i now = Inr (db', st, v, rep)"
  shows "receipt ph db' (start_scope rid) key (JObj []) = Inr (Some (st, v)) \<and> keeps_receipts db db'"
  using assms unfolding start_recovery_def
proof (rule with_receipt_records, goal_cases)
  case (1 db1 st1 v1 rep1)
  then obtain rows w where f: "finish_command ph (db\<lparr>t_batches := rows\<rparr>) (start_scope rid) key (JObj []) w 201 audit
      ''recovery_batch'' bid ''recovery.start'' i now = Inr (db1, st1, v1, rep1)"
    by (auto simp: Let_def split: if_splits option.splits)
  have "keeps_receipts db (db\<lparr>t_batches := rows\<rparr>)" by (rule keeps_receipts_same) simp
  with finish_command_cases [OF f] show ?case using keeps_receipts_trans by blast
qed

lemma request_stop_records:
  assumes "request_stop ph batch_json db bid key audit i now = Inr (db', st, v, rep)"
  shows "receipt ph db' (stop_scope bid) key (JObj []) = Inr (Some (st, v)) \<and> keeps_receipts db db'"
  using assms unfolding request_stop_def
proof (rule with_receipt_records, goal_cases)
  case (1 db1 st1 v1 rep1)
  then obtain db0 w where f: "finish_command ph db0 (stop_scope bid) key (JObj []) w 200 audit
      ''recovery_batch'' bid ''recovery.cancel'' i now = Inr (db1, st1, v1, rep1)"
    and r: "t_receipts db0 = t_receipts db"
    by (auto simp: Let_def cancel_attempt_def save_batch_def dest: save_operation_frame(13)
        split: if_splits option.splits sum.splits)
  have "keeps_receipts db db0" by (rule keeps_receipts_same) (rule r)
  with finish_command_cases [OF f] show ?case using keeps_receipts_trans by blast
qed

interpretation recovery_commands: idempotent_command ph command_scope command_key "\<lambda>_. JObj []"
  "run_recovery_command ph hostname verify batch_json" for ph hostname verify batch_json
proof
  fix db c st v
  assume "receipt ph db (command_scope c) (command_key c) (JObj []) = Inr (Some (st, v))"
  then show "run_recovery_command ph hostname verify batch_json db c = Inr (db, st, v, True)"
    by (cases c) (simp_all add: start_recovery_def request_stop_def with_receipt_replays)
next
  fix db c e
  assume "receipt ph db (command_scope c) (command_key c) (JObj []) = Inl e"
  then show "run_recovery_command ph hostname verify batch_json db c = Inl e"
    by (cases c) (simp_all add: start_recovery_def request_stop_def with_receipt_conflicts)
next
  fix db c db' st v rep
  assume "run_recovery_command ph hostname verify batch_json db c = Inr (db', st, v, rep)"
  then show "receipt ph db' (command_scope c) (command_key c) (JObj []) = Inr (Some (st, v)) \<and> keeps_receipts db db'"
    by (cases c) (auto dest: start_recovery_records request_stop_records)
qed

text \<open>
  Recovery commands are idempotent: once a start or stop request succeeded, any later
  request for the same run or batch with the same key returns the same status and
  response as a replay and changes nothing, whatever happened in between.
\<close>

lemma recovery_command_replayed:
  assumes "run_recovery_command ph hostname verify batch_json db c = Inr (db', st, v, rep)"
    and "keeps_receipts db' db2"
    and "command_scope c' = command_scope c" and "command_key c' = command_key c"
  shows "run_recovery_command ph hostname verify batch_json db2 c' = Inr (db2, st, v, True)"
  by (rule recovery_commands.later_request_replays [OF assms refl])

definition example_progress :: coverage_progress where
  "example_progress = progress_record ''d'' ''policy_a'' ''2024-01-01'' ''https://a.test/2'' 1 None [] 0 None None False []"

definition example_batch :: recovery_batch where
  "example_batch =
     \<lparr>rb_id = ''recovery_a'', rb_collector = ''collector_a'', rb_seed_run = ''run_a'', rb_status = CoolingDown,
      rb_reason = ''source_rate_limited'', rb_created = 0, rb_updated = 0, rb_expires = 24 * 3600 * 1000000,
      rb_finished = None, rb_next_attempt = Some 1800000000, rb_max_attempts = 3, rb_attempt_runs = [],
      rb_active_run = None, rb_reserved = 0, rb_max_requests = 360, rb_hosts = [''a.test''], rb_context = ''h'',
      rb_progress = example_progress, rb_checkpoint = None, rb_rule_version = ''rule_a'', rb_rule_digest = ''d'',
      rb_policy_version = ''policy_a'', rb_window_start = ''2024-01-01'', rb_cancel = False,
      rb_not_before = Some 1800000000\<rparr>"

definition example_recovery_db :: db where
  "example_recovery_db = example_db\<lparr>t_batches := [batch_row_of example_batch]\<rparr>"

definition constant_hash :: hasher where
  "constant_hash j = ''h''"

definition no_verifier :: verifier where
  "no_verifier rule a k = Inl ''RULE_ATTESTATION_INVALID''"

definition example_stop :: recovery_command where
  "example_stop = StopRecovery ''recovery_a'' ''key_a'' example_audit ''audit_1'' 5"

lemma recovery_command_replayed_witness:
  "\<exists>db' v. run_recovery_command constant_hash no_hostname no_verifier (\<lambda>_. JNull) example_recovery_db example_stop =
        Inr (db', 200, v, False) \<and>
     run_recovery_command constant_hash no_hostname no_verifier (\<lambda>_. JNull) db'
        (StopRecovery ''recovery_a'' ''key_a'' example_audit ''audit_2'' 9) = Inr (db', 200, v, True)"
proof -
  have "\<exists>db' v. run_recovery_command constant_hash no_hostname no_verifier (\<lambda>_. JNull) example_recovery_db example_stop =
        Inr (db', 200, v, False)"
    by (simp add: example_stop_def request_stop_def with_receipt_def receipt_def find_receipt_def example_recovery_db_def
        example_db_def empty_db_def get_batch_def batch_row_of_def example_batch_def active_batch_def Let_def
        finish_command_def save_batch_def append_audit_event_def)
  then obtain db' v where r: "run_recovery_command constant_hash no_hostname no_verifier (\<lambda>_. JNull) example_recovery_db
      example_stop = Inr (db', 200, v, False)" by blast
  have "run_recovery_command constant_hash no_hostname no_verifier (\<lambda>_. JNull) db'
        (StopRecovery ''recovery_a'' ''key_a'' example_audit ''audit_2'' 9) = Inr (db', 200, v, True)"
    by (rule recovery_command_replayed [OF r keeps_receipts_refl]) (simp_all add: example_stop_def)
  with r show ?thesis by blast
qed

subsection \<open>Recovery batches under the application\<close>

abbreviation recovery_run ::
  "hasher \<Rightarrow> (string \<Rightarrow> string option) \<Rightarrow> verifier \<Rightarrow> (recovery_batch \<Rightarrow> json) \<Rightarrow> calendar \<Rightarrow> (db \<Rightarrow> string \<times> string \<times> ts) \<Rightarrow>
   db \<Rightarrow> recovery_event list \<Rightarrow> db" where
  "recovery_run ph hostname verify batch_json cal fresh db evs \<equiv>
     foldl (recovery_step ph hostname verify batch_json (recovery_starter ph hostname verify cal fresh)) db evs"

text \<open>
  A cool-down as promised: a batch that cools down after the run \<open>r\<close> has its next attempt due
  30 minutes, 2 hours or 6 hours after the end of that run, by the number of attempts made,
  or as much later as the server's Retry-After asks, and before the deadline.
\<close>

definition waits_after :: "run \<Rightarrow> ts \<Rightarrow> recovery_batch \<Rightarrow> bool" where
  "waits_after r now b \<longleftrightarrow>
     (rb_status b = CoolingDown \<longrightarrow> length (rb_attempt_runs b) < 3 \<and>
        (\<exists>d. rb_next_attempt b = Some d \<and> rb_not_before b = Some d \<and> d < rb_expires b \<and>
           d = run_finished r now + max ([1800, 7200, 21600] ! length (rb_attempt_runs b))
             (case run_retry_after_seconds r of None \<Rightarrow> 0 | Some s \<Rightarrow> s) * 1000000))"

lemma cool_down_respected:
  assumes "rb_max_attempts b = 3"
  shows "waits_after r now (cool b r now)"
proof (cases "rb_status (cool b r now) = CoolingDown")
  case True
  then have short: "length (rb_attempt_runs b) < 3" and early: "cool_due b r now < rb_expires b"
    using assms by (auto simp: cool_def Let_def stop_batch_def split: if_splits)
  have idx: "min (length (rb_attempt_runs b)) (length delays - 1) = length (rb_attempt_runs b)"
    using short by (simp add: delays_def)
  have "cool_due b r now = run_finished r now + max ([1800, 7200, 21600] ! length (rb_attempt_runs b))
      (case run_retry_after_seconds r of None \<Rightarrow> 0 | Some s \<Rightarrow> s) * 1000000"
    unfolding cool_due_def Let_def idx by (simp add: delays_def)
  moreover have "cool b r now = b\<lparr>rb_not_before := Some (cool_due b r now), rb_status := CoolingDown,
      rb_reason := ''source_rate_limited'', rb_next_attempt := Some (cool_due b r now)\<rparr>"
    using short early assms by (simp add: cool_def Let_def)
  ultimately show ?thesis using short early by (simp add: waits_after_def)
qed (simp add: waits_after_def)

lemma waits_after_update [simp]: "waits_after r now (b\<lparr>rb_updated := t\<rparr>) = waits_after r now b"
  by (simp add: waits_after_def)

lemma stopped_waits [simp]: "status \<noteq> CoolingDown \<Longrightarrow> waits_after r now (stop_batch b reason t status)"
  by (simp add: waits_after_def stop_batch_def)

lemma observed_waits:
  assumes "rb_active_run b = Some rid" and "get_run db rid = Some r" and "\<not> nonterminal_run (run_status r)"
    and "rb_max_attempts b = 3" and "observe_attempt ph hostname db c b now = Inr (db', b', skip)"
  shows "waits_after r now b'"
proof -
  obtain b1 where j: "judge_attempt ph hostname db c (b\<lparr>rb_active_run := None\<rparr>) r now = Inr b1"
    and b': "b' = b1\<lparr>rb_updated := now\<rparr>"
    using assms by (auto simp: observe_attempt_def split: sum.splits)
  have "waits_after r now (cool (b\<lparr>rb_active_run := None\<rparr>) r now)" by (rule cool_down_respected) (simp add: assms(4))
  with j have "waits_after r now b1" unfolding judge_attempt_def by (auto split: if_splits sum.splits)
  then show ?thesis by (simp add: b')
qed

lemma started_waits:
  assumes "start_recovery ph hostname verify batch_json db rid key audit bid i now = Inr (db', st, v, False)"
  shows "\<exists>r b. get_run db rid = Some r \<and> get_batch db' bid = Some b \<and> rb_attempt_runs b = [] \<and> waits_after r now b"
  using assms
proof (cases rule: start_recovery_cases)
  case (started r c b)
  let ?n = "new_batch ph hostname db c rid r (the (col_coverage c)) bid now"
  have "waits_after r now b" unfolding started(6) by (rule cool_down_respected) (simp add: new_batch_def)
  moreover have "rb_id b = bid" "rb_attempt_runs b = []"
    unfolding started(6) by (simp_all add: cool_def new_batch_def stop_batch_def Let_def)
  ultimately show ?thesis using started(1,7) by (auto simp: get_batch_def started(9) tbl_get_append batch_row_of_def)
qed simp

text \<open>
  C9. Recovery is bounded and keeps to its schedule: from a store without batches, whatever
  starts, stops, ticks and other operations follow, every batch has at most three attempts,
  reserves exactly 120 requests for each and never more than 360, expires one day after it
  was created, holds a due time before that expiry while it cools down, names its latest
  attempt as active while it runs or is being cancelled, and a seed run never has two
  batches. When the dispatcher finds the attempt of such a batch ended and lets the batch
  cool down, and when a new batch is started in such a state, the next attempt is due
  exactly 30 minutes, 2 hours or 6 hours after the end of the run, by the number of
  attempts made, or as much later as its Retry-After asks.
\<close>

theorem recovery_bounded:
  assumes "t_batches db = []" and "end = recovery_run ph hostname verify batch_json cal fresh db evs"
    and "r \<in> set (t_batches end)" and "b = br_data r"
  shows "length (rb_attempt_runs b) \<le> 3 \<and> rb_reserved b = 120 * length (rb_attempt_runs b) \<and> rb_reserved b \<le> 360 \<and>
    rb_expires b = rb_created b + 86400000000 \<and>
    (rb_status b = CoolingDown \<longrightarrow> rb_active_run b = None \<and>
       (\<exists>d. rb_next_attempt b = Some d \<and> rb_not_before b = Some d \<and> d < rb_expires b)) \<and>
    (rb_status b \<in> {BRunning, Cancelling} \<longrightarrow> rb_attempt_runs b \<noteq> [] \<and> rb_active_run b = Some (last (rb_attempt_runs b))) \<and>
    distinct (map br_seed_run (t_batches end)) \<and>
    (rb_active_run b = Some rid \<and> get_run db2 rid = Some rr \<and> \<not> nonterminal_run (run_status rr) \<and>
       observe_attempt ph hostname db2 c b now = Inr (db3, b', skip) \<longrightarrow> waits_after rr now b') \<and>
    (start_recovery ph hostname verify batch_json end seed key audit bid i now = Inr (db4, st, v, False) \<longrightarrow>
       (\<exists>rr b'. get_run end seed = Some rr \<and> get_batch db4 bid = Some b' \<and> rb_attempt_runs b' = [] \<and> waits_after rr now b'))"
proof -
  have "batch_inv db" using assms(1) by (simp add: batch_inv_def)
  then have inv: "batch_inv end" unfolding assms(2) by (rule app_recovery.run_inv)
  then have "batch_wf b" using assms(3,4) by (simp add: batch_inv_def)
  then have lim: "length (rb_attempt_runs b) \<le> 3" "rb_reserved b = 120 * length (rb_attempt_runs b)"
    "rb_expires b = rb_created b + 86400000000" "rb_max_attempts b = 3"
    "rb_status b = CoolingDown \<longrightarrow> rb_active_run b = None \<and>
       (\<exists>d. rb_next_attempt b = Some d \<and> rb_not_before b = Some d \<and> d < rb_expires b)"
    "rb_status b \<in> {BRunning, Cancelling} \<longrightarrow> rb_attempt_runs b \<noteq> [] \<and> rb_active_run b = Some (last (rb_attempt_runs b))"
    unfolding batch_wf_def request_limit_def by auto
  have within: "rb_reserved b \<le> 360" using lim(1,2) by simp
  have seeds: "distinct (map br_seed_run (t_batches end))" using inv by (simp add: batch_inv_def)
  have observed: "rb_active_run b = Some rid \<and> get_run db2 rid = Some rr \<and> \<not> nonterminal_run (run_status rr) \<and>
      observe_attempt ph hostname db2 c b now = Inr (db3, b', skip) \<longrightarrow> waits_after rr now b'"
    using observed_waits lim(4) by blast
  have started: "start_recovery ph hostname verify batch_json end seed key audit bid i now = Inr (db4, st, v, False) \<longrightarrow>
      (\<exists>rr b'. get_run end seed = Some rr \<and> get_batch db4 bid = Some b' \<and> rb_attempt_runs b' = [] \<and> waits_after rr now b')"
    by (rule impI, rule started_waits)
  show ?thesis by (intro conjI lim(1-3,5,6) within seeds observed started)
qed

text \<open>
  The outcome of a batch is final and its attempts are a growing list: in every later
  state an ended batch is the same document, and any batch keeps its source, its seed, its
  hosts and its reference context and only appends attempts.
\<close>

lemma recovery_outcome_final:
  assumes "batch_inv db" and "get_batch db bid = Some b"
  shows "\<exists>b'. get_batch (recovery_run ph hostname verify batch_json cal fresh db evs) bid = Some b' \<and>
    (\<not> active_batch (rb_status b) \<longrightarrow> b' = b) \<and> rb_collector b' = rb_collector b \<and> rb_seed_run b' = rb_seed_run b \<and>
    rb_hosts b' = rb_hosts b \<and> rb_context b' = rb_context b \<and>
    (\<exists>new. rb_attempt_runs b' = rb_attempt_runs b @ new)"
  using app_recovery.run_le [OF assms(1), of ph hostname verify batch_json ph hostname verify cal fresh evs] assms(2)
  unfolding batches_le_def batch_le_def terminal_batch_def by blast

text \<open>
  A tick starts at most one attempt per batch, never before the batch's cool-down has
  passed and never after its deadline; the batch is then running that attempt.
\<close>

lemma recovery_attempt_in_window:
  assumes "batch_inv db" and "get_batch db bid = Some b"
    and "tick ph hostname (recovery_starter ph hostname verify cal fresh) db now = Inr (db', n)"
  shows "\<exists>b'. get_batch db' bid = Some b' \<and>
    (rb_attempt_runs b' = rb_attempt_runs b \<or>
     (\<exists>rid d. rb_attempt_runs b' = rb_attempt_runs b @ [rid] \<and> rb_active_run b' = Some rid \<and> rb_status b' = BRunning \<and>
        rb_not_before b' = Some d \<and> d \<le> now \<and> now < rb_expires b'))"
  using app_recovery.tick_effect [OF assms(1,3)] assms(2) unfolding attempt_rule_def by blast

subsection \<open>A concrete recovery\<close>

definition example_policy :: policy where
  "example_policy = \<lparr>pol_id = ''policy_a'', pol_collector = ''collector_a'', pol_version = 1,
     pol_values = default_policy\<lparr>pv_max_pages := 3, pv_max_items := 50, pv_checkpoint_mode := Some ''observed''\<rparr>,
     pol_created = 0, pol_digest = ''h''\<rparr>"

definition example_source :: collector where
  "example_source = example_collector\<lparr>col_latest_run := Some ''run_a'', col_policy_id := Some ''policy_a'',
     col_policy := Some example_policy, col_coverage := Some example_progress,
     col_schedule := Some (example_schedule\<lparr>sch_values := default_schedule, sch_next_run := None\<rparr>)\<rparr>"

definition example_seed_run :: run where
  "example_seed_run =
     \<lparr>run_id = ''run_a'', run_collector = ''collector_a'', run_status = Failed, run_operation = None,
      run_rule_version = ''rule_a'', run_rule_digest = ''d'', run_policy_version = ''policy_a'',
      run_integrity = ''verified'', run_stop_reason = Some ''source_rate_limited'', run_items = [],
      run_list_pages = 1, run_detail_pages = 0, run_source_requests = None,
      run_coverage_before = Some example_progress, run_coverage_after = Some example_progress,
      run_checkpoint_before = None, run_checkpoint_after = None, run_recovery_batch = None,
      run_retry_after_seconds = None, run_duration_micros = None, run_started_iso = None,
      run_finished_iso = Some 0, run_summary = [], run_recovery_action = [], run_execution_mode = ''initial'',
      run_window_start = ''2024-01-01'', run_policy_digest = ''h'', run_coverage_mode = Some ''observed'',
      run_source_limit = None, run_purpose = None, run_pending_quality = None, run_accepted = 0, run_rejected = 0,
      run_details_found = 0, run_outside_window = 0, run_duplicates = 0, run_new = 0, run_updated = 0, run_unchanged = 0,
      run_artifact_mode = ''sampled'', run_evidence_ref = None, run_evidence_digest = None, run_attestation = ''attestation_a'',
      run_key = ''key_a'', run_trust_revision = 1\<rparr>"

definition example_rule :: rule_version where
  "example_rule = \<lparr>rv_id = ''rule_a'', rv_tenant = ''t'', rv_collector = ''collector_a'', rv_digest = ''d'',
     rv_spec = JObj [(''sourceContext'', JObj [(''allowedHosts'', JArr [JStr ''a.test''])])], rv_created = 0\<rparr>"

definition example_attestation :: attestation where
  "example_attestation = \<lparr>at_id = ''att_a'', at_tenant = ''t'', at_rule_version = ''rule_a'', at_rule_digest = ''d'',
     at_approval = JNull, at_key_id = sk_id example_key, at_algorithm = ''Ed25519'', at_signed_at = 0, at_expires = None,
     at_signature = []\<rparr>"

definition example_seed_db :: db where
  "example_seed_db = example_key_db
     \<lparr>t_collectors := [\<lparr>colr_id = ''collector_a'', colr_data = example_source, colr_created = 0, colr_updated = 0\<rparr>],
      t_runs := [\<lparr>rr_id = ''run_a'', rr_collector = ''collector_a'', rr_data = example_seed_run, rr_created = 0, rr_updated = 0\<rparr>],
      t_rules := [example_rule], t_attestations := [example_attestation]\<rparr>"

definition digest_verifier :: verifier where
  "digest_verifier rule a k = Inr (at_rule_digest a)"

definition example_calendar :: calendar where
  "example_calendar = \<lparr>incremental_start = \<lambda>_ _. ''2024-01-01'', initial_start = \<lambda>_ _. ''2024-01-01'', item_budget = \<lambda>_. 50\<rparr>"

definition example_integrity :: integrity_context where
  "example_integrity = \<lparr>ic_rule_version = ''rule_a'', ic_attestation = ''att_a'', ic_digest = ''d'', ic_key = ''key_a'',
     ic_trust_revision = 2\<rparr>"

definition example_fresh :: "db \<Rightarrow> string \<times> string \<times> ts" where
  "example_fresh db = (''run_b'', ''op_b'', 1800000001)"

lemma example_seed_source [simp]:
  "get_collector example_seed_db ''collector_a'' = Some example_source"
  "lock_collector example_seed_db ''collector_a'' = None"
  by (simp_all add: get_collector_def lock_collector_def is_deleted_def example_seed_db_def example_key_db_def
      empty_db_def example_source_def example_collector_def)

lemma example_seed_tables [simp]:
  "t_batches example_seed_db = []" "t_jobs example_seed_db = []" "t_receipts example_seed_db = []"
  "t_checkpoints example_seed_db = []" "t_rules example_seed_db = [example_rule]" "t_operations example_seed_db = []"
  "t_ai_runs example_seed_db = []" "t_attestations example_seed_db = [example_attestation]" "t_deleted example_seed_db = []"
  "t_collections example_seed_db = []"
  by (simp_all add: example_seed_db_def example_key_db_def empty_db_def)

lemma example_seed_found [simp]: "get_run example_seed_db ''run_a'' = Some (example_seed_run\<lparr>run_started_iso := Some 0\<rparr>)"
  by (simp add: get_run_def example_seed_db_def)

lemma example_seed_ok:
  "seed_valid example_seed_db example_source ''run_a'' (example_seed_run\<lparr>run_started_iso := Some 0\<rparr>)"
  by (simp add: seed_valid_def example_source_def example_collector_def example_seed_run_def example_policy_def
      default_policy_def example_schedule_def default_schedule_def valid_progress_def example_progress_def
      progress_record_def has_active_run_def example_seed_db_def nonterminal_run_def)

lemma example_seed_proof:
  "seed_verified digest_verifier example_seed_db example_source (example_seed_run\<lparr>run_started_iso := Some 0\<rparr>)"
  by (simp add: seed_verified_def example_source_def example_collector_def latest_rule_attestation_def example_rule_def
      example_attestation_def get_signing_key_def example_seed_db_def example_key_db_def example_key_def
      digest_verifier_def example_seed_run_def)

lemma example_hosts [simp]: "t_rules db = [example_rule] \<Longrightarrow> source_hosts no_hostname db example_source = [''a.test'']"
  by (simp add: source_hosts_def example_source_def example_collector_def example_rule_def rv_allowed_hosts_def spec_part_def jget_def obj_of_def texts_of_def text_of_def json_text_def no_hostname_def clean_host_def
      lower_def lower_char_def is_upper_def)

definition started_batch :: recovery_batch where
  "started_batch = example_batch\<lparr>rb_created := 5, rb_updated := 5, rb_expires := 86400000005\<rparr>"

lemma example_start:
  "t_batches (recovery_step constant_hash no_hostname digest_verifier (\<lambda>_. JNull) starter example_seed_db
       (RecoveryStart ''run_a'' ''key_a'' example_audit ''recovery_a'' ''audit_1'' 5)) = [batch_row_of started_batch]"
proof -
  let ?r = "example_seed_run\<lparr>run_started_iso := Some 0\<rparr>"
  have b: "cool (new_batch constant_hash no_hostname example_seed_db example_source ''run_a'' ?r
      (the (col_coverage example_source)) ''recovery_a'' 5) ?r 5 = started_batch"
    by (simp add: cool_def cool_due_def run_finished_def delays_def new_batch_def started_batch_def example_batch_def
        example_seed_run_def source_context_def constant_hash_def get_checkpoint_def)
      (simp add: example_source_def example_collector_def example_progress_def progress_record_def)
  have act: "require_active (Some example_source) = None"
    by (simp add: require_active_def example_source_def example_collector_def)
  have free: "guard_source_work no_hostname example_seed_db example_source None 5 = None"
    "\<not> competing_job no_hostname example_seed_db hs" for hs
    by (simp_all add: guard_source_work_def competing_job_def)
  have cid: "run_collector ?r = ''collector_a''" "run_recovery_batch ?r = None" by (simp_all add: example_seed_run_def)
  have none: "batch_for_run example_seed_db ''run_a'' = None" by (simp add: batch_for_run_def cid)
  have rec: "receipt constant_hash example_seed_db s k bd = Inr None" for s k bd by (simp add: receipt_def find_receipt_def)
  let ?db1 = "example_seed_db\<lparr>t_batches := [batch_row_of started_batch]\<rparr>"
  have "\<exists>db' st v rep. finish_command constant_hash ?db1 (start_scope ''run_a'') ''key_a'' (JObj []) JNull 201
      example_audit ''recovery_batch'' ''recovery_a'' ''recovery.start'' ''audit_1'' 5 = Inr (db', st, v, rep)"
    unfolding finish_command_def Let_def find_receipt_def append_audit_event_def by auto
  then obtain db' st v rep where f: "finish_command constant_hash ?db1 (start_scope ''run_a'') ''key_a'' (JObj []) JNull 201
      example_audit ''recovery_batch'' ''recovery_a'' ''recovery.start'' ''audit_1'' 5 = Inr (db', st, v, rep)" by blast
  have "start_recovery constant_hash no_hostname digest_verifier (\<lambda>_. JNull) example_seed_db ''run_a'' ''key_a''
      example_audit ''recovery_a'' ''audit_1'' 5 = Inr (db', st, v, rep)"
    unfolding start_recovery_def with_receipt_def rec
    by (simp add: none cid act example_seed_ok example_seed_proof free b f)
  moreover have "t_batches db' = [batch_row_of started_batch]" using finish_command_batches [OF f] by simp
  ultimately show ?thesis by (simp add: recovery_step_def)
qed


text \<open>The store after the start, as far as the next tick looks at it, and the attempt it starts.\<close>

definition example_cooling_db :: db where
  "example_cooling_db = example_seed_db\<lparr>t_batches := [batch_row_of started_batch]\<rparr>"

lemma example_cooling_source [simp]:
  "get_collector example_cooling_db ''collector_a'' = Some example_source"
  "lock_collector example_cooling_db ''collector_a'' = None"
  by (simp_all add: get_collector_def lock_collector_def is_deleted_def example_cooling_db_def example_seed_db_def
      example_key_db_def empty_db_def example_source_def example_collector_def)

lemma example_cooling_tables [simp]:
  "t_batches example_cooling_db = [batch_row_of started_batch]" "t_jobs example_cooling_db = []"
  "t_rules example_cooling_db = [example_rule]" "t_operations example_cooling_db = []"
  "t_ai_runs example_cooling_db = []" "t_attestations example_cooling_db = [example_attestation]"
  "t_checkpoints example_cooling_db = []"
  by (simp_all add: example_cooling_db_def)

lemma example_idle: "\<not> has_active_run example_cooling_db ''collector_a''"
  by (simp add: has_active_run_def example_cooling_db_def example_seed_db_def example_seed_run_def nonterminal_run_def)

lemma example_new_run [simp]:
  "run_rule_version (new_run example_calendar db example_source example_policy example_integrity False bt lim ''run_b'' t) = ''rule_a''"
  "run_policy_version (new_run example_calendar db example_source example_policy example_integrity False bt lim ''run_b'' t) = ''policy_a''"
  "run_id (new_run example_calendar db example_source example_policy example_integrity False bt lim ''run_b'' t) = ''run_b''"
  "run_collector (new_run example_calendar db example_source example_policy example_integrity False bt lim ''run_b'' t) = ''collector_a''"
  by (simp_all add: new_run_def Let_def example_source_def example_collector_def example_policy_def)

lemma example_source_facts:
  "col_active_rule example_source = Some ''rule_a''" "col_policy_id example_source = Some ''policy_a''"
  "col_lifecycle example_source = Active" "col_pending_version example_source = None"
  "col_status example_source = ''published''" "col_id example_source = ''collector_a''"
  by (simp_all add: example_source_def example_collector_def)

text \<open>A store in which the example source is idle and may run.\<close>

definition example_ready :: "db \<Rightarrow> string option \<Rightarrow> ts \<Rightarrow> bool" where
  "example_ready db batch t \<longleftrightarrow>
     get_collector db ''collector_a'' = Some example_source \<and> t_rules db = [example_rule] \<and>
     t_attestations db = [example_attestation] \<and> t_signing_keys db = t_signing_keys example_seed_db \<and>
     \<not> has_active_run db ''collector_a'' \<and> t_jobs db = [] \<and> t_operations db = [] \<and> t_ai_runs db = [] \<and>
     guard_source_work no_hostname db example_source batch t = None"

lemma example_guard:
  assumes "example_ready db batch t"
  shows "command_guard constant_hash no_hostname db ''collector_a'' example_source
     (run_request constant_hash example_source (new_run example_calendar db example_source example_policy
        example_integrity False batch lim ''run_b'' t) example_integrity None batch) t = None"
proof -
  have "active_blockers db ''collector_a'' = []" using assms by (simp add: active_blockers_def example_ready_def)
  then show ?thesis using assms example_source_facts
    by (simp add: command_guard_def run_request_def require_active_def example_ready_def)
qed

lemma example_run_started:
  assumes "example_ready db batch t"
  shows "\<exists>db' o'. create_run_operation constant_hash no_hostname digest_verifier example_calendar db
      ''collector_a'' False batch lim ''run_b'' ''op_b'' t = (db', Inr o') \<and> op_resource_id o' = ''run_b''"
proof -
  have proof_ok: "verified_run_integrity digest_verifier db example_source = Inr example_integrity"
    using assms
    by (simp add: verified_run_integrity_def latest_rule_attestation_def get_signing_key_def example_source_def
        example_collector_def example_rule_def example_attestation_def digest_verifier_def example_key_def
        example_ready_def example_seed_db_def example_key_db_def example_integrity_def)
  have get: "get_collector db ''collector_a'' = Some example_source" and idle: "\<not> has_active_run db ''collector_a''"
    using assms by (simp_all add: example_ready_def)
  then have pol: "ensure_collection_policy constant_hash db ''collector_a'' t = Inr (db, example_source)"
    "col_policy example_source = Some example_policy"
    by (simp_all add: ensure_collection_policy_def example_source_def)
  let ?q = "run_request constant_hash example_source (new_run example_calendar db example_source example_policy
     example_integrity False batch lim ''run_b'' t) example_integrity None batch"
  have "\<exists>db' o'. create_async_command constant_hash no_hostname db ''collector_a'' ?q ''op_b'' t = Inr (db', o')"
    by (rule create_async_command_ok [OF get example_source_facts(6) example_guard [OF assms]])
      (auto simp: run_request_def)
  then obtain db' o' where c: "create_async_command constant_hash no_hostname db ''collector_a'' ?q ''op_b'' t = Inr (db', o')"
    by blast
  have "op_resource_id o' = ''run_b''"
    by (rule create_async_command_cases [OF c]) (simp add: queued_operation_def run_request_def)
  then show ?thesis using c get idle proof_ok pol example_source_facts
    by (simp add: create_run_operation_def run_start_error_def)
qed

lemma example_cooling_ready: "example_ready example_cooling_db (Some ''recovery_a'') t"
  using example_idle
  by (simp add: example_ready_def guard_source_work_def batch_row_of_def started_batch_def example_batch_def)
    (simp add: example_cooling_db_def)

lemma example_tick:
  "\<exists>db' n. tick constant_hash no_hostname (recovery_starter constant_hash no_hostname digest_verifier example_calendar example_fresh)
       example_cooling_db 1800000001 = Inr (db', n) \<and>
     (\<exists>r. t_batches db' = [r] \<and> rb_attempt_runs (br_data r) = [''run_b''])"
proof -
  from example_run_started [OF example_cooling_ready] obtain db1 o1 where run:
    "create_run_operation constant_hash no_hostname digest_verifier example_calendar example_cooling_db
      ''collector_a'' False (Some ''recovery_a'') (Some 120) ''run_b'' ''op_b'' 1800000001 = (db1, Inr o1)"
    "op_resource_id o1 = ''run_b''" by blast
  have rows: "t_batches db1 = [batch_row_of started_batch]"
    using create_run_frame(1) [of constant_hash no_hostname digest_verifier example_calendar example_cooling_db
      "''collector_a''" False "Some ''recovery_a''" "Some 120" "''run_b''" "''op_b''" 1800000001] run(1) by simp
  have st: "recovery_starter constant_hash no_hostname digest_verifier example_calendar example_fresh example_cooling_db
      ''collector_a'' ''recovery_a'' = (db1, Inr ''run_b'')"
    using run by (simp add: recovery_starter_def example_fresh_def request_limit_def)
  have b: "rb_active_run started_batch = None" "rb_status started_batch = CoolingDown" "rb_expires started_batch = 86400000005"
    "rb_next_attempt started_batch = Some 1800000000" "rb_max_attempts started_batch = 3" "rb_attempt_runs started_batch = []"
    "rb_max_requests started_batch = 360" "rb_reserved started_batch = 0" "rb_id started_batch = ''recovery_a''"
    "rb_collector started_batch = ''collector_a''" "rb_context started_batch = ''h''" "rb_checkpoint started_batch = None"
    "rb_progress started_batch = example_progress"
    by (simp_all add: started_batch_def example_batch_def)
  have src: "col_id example_source = ''collector_a''" "col_coverage example_source = Some example_progress"
    "source_context constant_hash example_source = ''h''"
    "col_schedule example_source = Some (example_schedule\<lparr>sch_values := default_schedule, sch_next_run := None\<rparr>)"
    by (simp_all add: example_source_def example_collector_def source_context_def constant_hash_def)
  have "dispatch_attempt constant_hash
      (recovery_starter constant_hash no_hostname digest_verifier example_calendar example_fresh)
      example_cooling_db example_source started_batch 1800000001 =
    Inr (db1, started_batch\<lparr>rb_active_run := Some ''run_b'', rb_attempt_runs := [''run_b''], rb_reserved := 120,
        rb_status := BRunning, rb_next_attempt := None, rb_reason := ''continuation_running''\<rparr>, 1)"
    by (simp add: dispatch_attempt_def b src context_changed_def get_checkpoint_def request_limit_def st default_schedule_def)
  moreover have "active_batches example_cooling_db = [started_batch]"
    by (simp add: active_batches_def batch_row_of_def b active_batch_def)
  moreover have "br_id (batch_row_of started_batch) = ''recovery_a''" by (simp add: batch_row_of_def b)
  ultimately show ?thesis
    by (simp add: tick_def tick_batch_def b observe_attempt_def save_batch_def rows tbl_upd_def)
qed

theorem recovery_attempt_in_window_witness:
  "\<exists>db' n b'. tick constant_hash no_hostname (recovery_starter constant_hash no_hostname digest_verifier example_calendar example_fresh)
       example_cooling_db 1800000001 = Inr (db', n) \<and>
     get_batch db' ''recovery_a'' = Some b' \<and> rb_attempt_runs b' = [''run_b''] \<and> rb_status b' = BRunning \<and>
     1800000001 < rb_expires b'"
proof -
  have wf: "batch_wf started_batch"
    by (simp add: batch_wf_def started_batch_def example_batch_def request_limit_def terminal_batch_def active_batch_def)
  have inv: "batch_inv example_cooling_db" using wf by (simp add: batch_inv_def row_matches_def batch_row_of_def)
  have id: "br_id (batch_row_of started_batch) = ''recovery_a''" by (simp add: batch_row_of_def started_batch_def example_batch_def)
  then have get: "get_batch example_cooling_db ''recovery_a'' = Some started_batch"
    by (simp add: get_batch_def batch_row_of_def)
  from example_tick obtain db' n r where t: "tick constant_hash no_hostname
      (recovery_starter constant_hash no_hostname digest_verifier example_calendar example_fresh)
       example_cooling_db 1800000001 = Inr (db', n)" "t_batches db' = [r]" "rb_attempt_runs (br_data r) = [''run_b'']" by blast
  from recovery_attempt_in_window [OF inv get t(1)] obtain b' where b': "get_batch db' ''recovery_a'' = Some b'"
    "rb_attempt_runs b' = rb_attempt_runs started_batch \<or>
     (\<exists>rid d. rb_attempt_runs b' = rb_attempt_runs started_batch @ [rid] \<and> rb_active_run b' = Some rid \<and>
        rb_status b' = BRunning \<and> rb_not_before b' = Some d \<and> d \<le> 1800000001 \<and> 1800000001 < rb_expires b')" by blast
  have "b' = br_data r" using b'(1) t(2) by (auto simp: get_batch_def split: if_splits)
  moreover have "rb_attempt_runs started_batch = []" by (simp add: started_batch_def example_batch_def)
  ultimately have "rb_status b' = BRunning \<and> 1800000001 < rb_expires b'" using b'(2) t(3) by auto
  with t b'(1) \<open>b' = br_data r\<close> show ?thesis by blast
qed

theorem recovery_outcome_final_witness:
  "\<exists>b'. get_batch (recovery_run constant_hash no_hostname digest_verifier (\<lambda>_. JNull) example_calendar example_fresh
       example_cooling_db [RecoveryTick 1800000001, RecoveryTick 1800000002]) ''recovery_a'' = Some b' \<and>
     rb_collector b' = ''collector_a'' \<and> rb_seed_run b' = ''run_a''"
proof -
  have wf: "batch_wf started_batch"
    by (simp add: batch_wf_def started_batch_def example_batch_def request_limit_def terminal_batch_def active_batch_def)
  have inv: "batch_inv example_cooling_db" using wf by (simp add: batch_inv_def row_matches_def batch_row_of_def)
  have "br_id (batch_row_of started_batch) = ''recovery_a''" by (simp add: batch_row_of_def started_batch_def example_batch_def)
  then have get: "get_batch example_cooling_db ''recovery_a'' = Some started_batch"
    by (simp add: get_batch_def batch_row_of_def)
  from recovery_outcome_final [OF inv get, of constant_hash no_hostname digest_verifier "\<lambda>_. JNull" example_calendar
      example_fresh "[RecoveryTick 1800000001, RecoveryTick 1800000002]"]
  show ?thesis by (auto simp: started_batch_def example_batch_def)
qed

theorem recovery_bounded_witness:
  "\<exists>r. t_batches (recovery_run constant_hash no_hostname digest_verifier (\<lambda>_. JNull) example_calendar example_fresh
       example_seed_db [RecoveryStart ''run_a'' ''key_a'' example_audit ''recovery_a'' ''audit_1'' 5]) = [r] \<and>
     rb_reserved (br_data r) \<le> 360 \<and> rb_expires (br_data r) = 86400000005"
proof -
  have rows: "t_batches (recovery_run constant_hash no_hostname digest_verifier (\<lambda>_. JNull) example_calendar example_fresh
       example_seed_db [RecoveryStart ''run_a'' ''key_a'' example_audit ''recovery_a'' ''audit_1'' 5]) =
       [batch_row_of started_batch]" by (simp add: example_start)
  have "batch_row_of started_batch \<in> set (t_batches (recovery_run constant_hash no_hostname digest_verifier (\<lambda>_. JNull)
       example_calendar example_fresh example_seed_db
       [RecoveryStart ''run_a'' ''key_a'' example_audit ''recovery_a'' ''audit_1'' 5]))" unfolding rows by simp
  from recovery_bounded [OF example_seed_tables(1) refl this refl]
  show ?thesis unfolding rows by (simp add: batch_row_of_def started_batch_def example_batch_def)
qed

lemma cool_down_example:
  "rb_next_attempt (cool example_batch example_seed_run 5) = Some (1800 * 1000000)"
  by (simp add: cool_def cool_due_def run_finished_def delays_def example_batch_def example_seed_run_def)

theorem command_accepted_iff_unguarded_witness:
  "\<exists>db' o' j. create_async_command constant_hash no_hostname example_cooling_db ''collector_a''
       (run_request constant_hash example_source (new_run example_calendar example_cooling_db example_source example_policy
          example_integrity False (Some ''recovery_a'') (Some 120) ''run_b'' 1800000001) example_integrity None (Some ''recovery_a'')) ''op_b'' 1800000001 =
       Inr (db', o') \<and> op_id o' = ''op_b'' \<and> j \<in> set (t_jobs db') \<and> job_operation j = ''op_b'' \<and> job_status j = JQueued"
proof -
  show ?thesis
    by (rule iffD2 [OF command_accepted_iff_unguarded [OF example_cooling_source(1) example_source_facts(6)] example_guard [OF example_cooling_ready]])
      (auto simp: run_request_def)
qed

subsection \<open>A recovering source is left alone\<close>

text \<open>
  While a batch is active, or its source is held after a rate limit, no other run and
  no exploration is queued for any source that shares one of its hosts: the command is
  refused with nothing written.
\<close>

lemma recovering_hosts_reserved:
  assumes "b \<in> set (t_batches db)"
    and "active_batch (br_status b) \<or> (\<exists>t. br_hold_until b = Some t \<and> tlt now t)"
    and "get_collector db cid = Some c" and "set (rb_hosts (br_data b)) \<inter> set (source_hosts hostname db c) \<noteq> {}"
    and "ar_kind req \<in> {''run'', ''explore''}" and "pl_recovery_batch (ar_payload req) \<noteq> Some (rb_id (br_data b))"
  shows "\<exists>e. create_async_command ph hostname db cid req oid now = Inl e"
proof -
  have "active_batch (br_status b) \<or> (case br_hold_until b of None \<Rightarrow> False | Some t \<Rightarrow> tlt now t)"
    using assms(2) by (auto split: option.splits)
  then have "guard_source_work hostname db c (pl_recovery_batch (ar_payload req)) now \<noteq> None"
    using assms(1,4,6) unfolding guard_source_work_def by auto
  then have "command_guard ph hostname db cid c req now \<noteq> None"
    using assms(5) by (auto simp: command_guard_def split: option.splits)
  then have "create_async_command ph hostname db cid req oid now \<noteq> Inr (db', o')" for db' o'
    using assms(3) by (auto elim!: create_async_command_cases)
  then show ?thesis by (cases "create_async_command ph hostname db cid req oid now") auto
qed

theorem recovering_hosts_reserved_witness:
  "\<exists>e. create_async_command constant_hash no_hostname example_cooling_db ''collector_a''
       (run_request constant_hash example_source (new_run example_calendar example_cooling_db example_source example_policy
          example_integrity False None None ''run_b'' 6) example_integrity None None) ''op_b'' 6 = Inl e"
  by (rule recovering_hosts_reserved [where b = "batch_row_of started_batch", OF _ _ example_cooling_source(1)])
    (simp_all add: batch_row_of_def started_batch_def example_batch_def active_batch_def run_request_def)

subsection \<open>Dispatching occurrences\<close>

lemma start_occurrence_frame:
  shows "t_occurrences (fst (start_occurrence ph hostname verify cal db oc rid oid now)) = t_occurrences db"
  using create_run_frame(2) by (auto simp: start_occurrence_def split: option.splits)

lemma start_occurrence_queue:
  assumes "queue_inv db" and "get_operation db oid = None"
  shows "queue_inv (fst (start_occurrence ph hostname verify cal db oc rid oid now))"
  using assms create_run_queue by (auto simp: start_occurrence_def split: option.splits)

lemma start_occurrence_job:
  assumes "start_occurrence ph hostname verify cal db oc rid oid now = (db1, Inr o')"
  shows "op_resource_id o' = rid \<and>
    (\<exists>j \<in> set (t_jobs db1). job_operation j = oid \<and> job_status j = JQueued \<and> pl_run_id (job_payload j) = Some rid)"
proof -
  have "create_run_operation ph hostname verify cal db (oc_collector oc) False None None rid oid now = (db1, Inr o')"
    using assms by (auto simp: start_occurrence_def split: option.splits if_splits)
  then show ?thesis
  proof (cases rule: create_run_cases [of ph hostname verify cal db "oc_collector oc" False None None rid oid now])
    case (started c ic db1' c1 p records db2 o2)
    have id: "run_id (new_run cal db1' c1 p ic False None None rid now) = rid" by (simp add: new_run_def Let_def)
    from started(7) \<open>create_run_operation _ _ _ _ _ _ _ _ _ _ _ _ = (db1, Inr o')\<close> started(8) show ?thesis
      by (elim create_async_command_cases) (auto simp: queued_operation_def run_request_def id)
  qed simp_all
qed

lemma finish_occurrence_row:
  assumes "finish_schedule_occurrence db key status rid reason now = Inr db'"
  shows "\<exists>row. tbl_get oc_key key (t_occurrences db') = Some row \<and> oc_status row = status \<and> oc_run row = rid"
    and "t_jobs db' = t_jobs db" and "same_queue db db'"
  using assms by (auto simp: finish_schedule_occurrence_def tbl_get_upd same_queue_def split: option.splits)

text \<open>
  C25. A claimed occurrence is dispatched at most once, together with its run: the
  transaction leaves it skipped or dispatched; when dispatched, the run it names has its
  queued job in the same commit; a later dispatch of the same occurrence does nothing; and
  the queue stays single-flight.
\<close>

theorem occurrence_dispatched_once:
  assumes "queue_inv db" and "get_operation db oid = None"
    and "tbl_get oc_key (oc_key oc) (t_occurrences db) = Some row" and "oc_status row = ''claimed''"
    and "dispatch_schedule_occurrence ph hostname verify cal db oc rid oid now = Inr db'"
  shows "queue_inv db' \<and>
    (\<exists>row'. tbl_get oc_key (oc_key oc) (t_occurrences db') = Some row' \<and> oc_status row' \<in> {''skipped'', ''dispatched''} \<and>
       (oc_status row' = ''dispatched'' \<longrightarrow> oc_run row' = Some rid \<and>
          (\<exists>j \<in> set (t_jobs db'). job_operation j = oid \<and> job_status j = JQueued \<and> pl_run_id (job_payload j) = Some rid))) \<and>
    (\<forall>rid' oid' t. dispatch_schedule_occurrence ph hostname verify cal db' oc rid' oid' t = Inr db')"
proof -
  obtain db1 res where st: "start_occurrence ph hostname verify cal db oc rid oid now = (db1, res)" by fastforce
  have q1: "queue_inv db1" using start_occurrence_queue [OF assms(1,2), of ph hostname verify cal oc rid now] st by simp
  have again: "dispatch_schedule_occurrence ph hostname verify cal db' oc rid' oid' t = Inr db'"
    if "tbl_get oc_key (oc_key oc) (t_occurrences db') = Some row'" "oc_status row' \<noteq> ''claimed''" for row' rid' oid' t
    using that by (simp add: dispatch_schedule_occurrence_def)
  show ?thesis
  proof (cases res)
    case (Inl e)
    with st assms(3-5) obtain code where f: "finish_schedule_occurrence db1 (oc_key oc) ''skipped'' None (Some code) now = Inr db'"
      by (auto simp: dispatch_schedule_occurrence_def split: option.splits)
    note r = finish_occurrence_row [OF f]
    from r(1) obtain row' where row': "tbl_get oc_key (oc_key oc) (t_occurrences db') = Some row'" "oc_status row' = ''skipped''"
      by blast
    have "queue_inv db'" by (rule queue_step_inv [OF same_queue_step [OF q1 r(3)]])
    with row' again [OF row'(1)] show ?thesis by simp
  next
    case (Inr o')
    note j = start_occurrence_job [OF st [unfolded Inr]]
    from st Inr assms(3-5) j have f: "finish_schedule_occurrence db1 (oc_key oc) ''dispatched'' (Some rid) None now = Inr db'"
      by (simp add: dispatch_schedule_occurrence_def)
    note r = finish_occurrence_row [OF f]
    from r(1) obtain row' where row': "tbl_get oc_key (oc_key oc) (t_occurrences db') = Some row'"
      "oc_status row' = ''dispatched''" "oc_run row' = Some rid" by blast
    have "queue_inv db'" by (rule queue_step_inv [OF same_queue_step [OF q1 r(3)]])
    with row' again [OF row'(1)] j r(2) show ?thesis by simp
  qed
qed


text \<open>A claimed occurrence of the example source.\<close>

definition example_occurrence :: occurrence_row where
  "example_occurrence = new_occurrence constant_hash example_schedule 60000000 60000001"

definition example_firing_db :: db where
  "example_firing_db = example_seed_db\<lparr>t_occurrences := [example_occurrence], t_schedules := [example_schedule]\<rparr>"

lemma example_firing_ready: "example_ready example_firing_db None t"
proof -
  have "get_collector example_firing_db ''collector_a'' = Some example_source"
    by (simp add: get_collector_def is_deleted_def example_firing_db_def example_seed_db_def
        example_key_db_def empty_db_def example_source_def example_collector_def)
  moreover have "\<not> has_active_run example_firing_db ''collector_a''"
    using example_idle by (simp add: has_active_run_def example_firing_db_def example_cooling_db_def)
  moreover have "guard_source_work no_hostname example_firing_db example_source None t = None"
    by (simp add: guard_source_work_def example_firing_db_def)
  ultimately show ?thesis by (simp add: example_ready_def) (simp add: example_firing_db_def)
qed

theorem occurrence_dispatched_once_witness:
  "\<exists>db' row'. dispatch_schedule_occurrence constant_hash no_hostname digest_verifier example_calendar example_firing_db
       example_occurrence ''run_b'' ''op_b'' 1800000001 = Inr db' \<and>
     tbl_get oc_key (oc_key example_occurrence) (t_occurrences db') = Some row' \<and>
     oc_status row' \<in> {''skipped'', ''dispatched''} \<and>
     dispatch_schedule_occurrence constant_hash no_hostname digest_verifier example_calendar db' example_occurrence
       ''run_c'' ''op_c'' 1800000002 = Inr db'"
proof -
  have inv: "queue_inv example_firing_db" by (simp add: queue_inv_def example_firing_db_def)
  have fresh: "get_operation example_firing_db ''op_b'' = None" by (simp add: get_operation_def example_firing_db_def)
  have row: "tbl_get oc_key (oc_key example_occurrence) (t_occurrences example_firing_db) = Some example_occurrence"
    by (simp add: example_firing_db_def)
  have claimed: "oc_status example_occurrence = ''claimed''" by (simp add: example_occurrence_def new_occurrence_def)
  from example_run_started [OF example_firing_ready] obtain db1 o1 where run:
    "create_run_operation constant_hash no_hostname digest_verifier example_calendar example_firing_db
      ''collector_a'' False None None ''run_b'' ''op_b'' 1800000001 = (db1, Inr o1)" by blast
  have occ: "t_occurrences db1 = [example_occurrence]"
    using create_run_frame(2) [of constant_hash no_hostname digest_verifier example_calendar example_firing_db
      "''collector_a''" False None None "''run_b''" "''op_b''" 1800000001] run by (simp add: example_firing_db_def)
  have lock: "lock_collector example_firing_db ''collector_a'' = None"
    using example_firing_ready by (simp add: lock_collector_get example_ready_def)
  have oc: "oc_collector example_occurrence = ''collector_a''" "oc_schedule example_occurrence = sch_id example_schedule"
    "oc_key example_occurrence = occurrence_key constant_hash example_schedule (oc_scheduled_at example_occurrence)"
    "sch_collector example_schedule = ''collector_a''" "sv_enabled (sch_values example_schedule)"
    by (simp_all add: example_occurrence_def new_occurrence_def example_schedule_def)
  have "start_occurrence constant_hash no_hostname digest_verifier example_calendar example_firing_db example_occurrence
      ''run_b'' ''op_b'' 1800000001 = (db1, Inr o1)"
  proof -
    have "t_schedules example_firing_db = [example_schedule]" by (simp add: example_firing_db_def)
    with lock run oc show ?thesis by (simp add: start_occurrence_def)
  qed
  then have "\<exists>db'. dispatch_schedule_occurrence constant_hash no_hostname digest_verifier example_calendar example_firing_db
       example_occurrence ''run_b'' ''op_b'' 1800000001 = Inr db'"
    by (simp add: dispatch_schedule_occurrence_def row claimed finish_schedule_occurrence_def occ)
  then obtain db' where d: "dispatch_schedule_occurrence constant_hash no_hostname digest_verifier example_calendar
       example_firing_db example_occurrence ''run_b'' ''op_b'' 1800000001 = Inr db'" by blast
  from occurrence_dispatched_once [OF inv fresh row claimed d] d show ?thesis by blast
qed

end
