(* ===== verification/Accounts.thy ===== *)
theory Accounts
  imports Iso_Time Texts
begin

text \<open>
  Accounts and sign-in: the tables \<open>auth_users\<close>, \<open>auth_sessions\<close> and
  \<open>auth_login_attempts\<close> with the operations of \<open>store.py\<close> on them, the validators and
  the session helper of \<open>auth.py\<close>, and the setup, login, logout and authentication steps
  of \<open>app.py\<close>.

  Password hashing and checking (\<open>pwdlib\<close>) and the hash of a session token are
  parameters; fresh user ids and tokens are arguments. Usernames are compared without
  regard to ASCII case, as SQLite's \<open>NOCASE\<close> does. The unique columns of the tables
  (user id, username, token hash) are checked where the code inserts.
\<close>

subsection \<open>Tables\<close>

record auth_user =
  us_id :: string
  us_username :: string
  us_password :: string
  us_role :: string
  us_display_name :: string
  us_enabled :: bool
  us_created :: ts
  us_updated :: ts

record auth_session =
  se_token_hash :: string
  se_user :: string
  se_expires :: ts
  se_created :: ts
  se_last_seen :: ts

record login_attempt =
  la_scope :: string
  la_at :: ts

record accounts =
  t_users :: "auth_user list"
  t_sessions :: "auth_session list"
  t_attempts :: "login_attempt list"

text \<open>What leaves the store: neither view has a field for the password hash.\<close>

record auth_view =
  vw_id :: string
  vw_username :: string
  vw_display_name :: string
  vw_role :: string
  vw_enabled :: bool

record user_view = auth_view +
  uv_created :: ts
  uv_updated :: ts

definition auth_view_of :: "auth_user \<Rightarrow> auth_view" where
  "auth_view_of u =
     \<lparr>vw_id = us_id u, vw_username = us_username u, vw_display_name = us_display_name u,
      vw_role = us_role u, vw_enabled = us_enabled u\<rparr>"

definition user_view_of :: "auth_user \<Rightarrow> user_view" where
  "user_view_of u = auth_view.extend (auth_view_of u) \<lparr>uv_created = us_created u, uv_updated = us_updated u\<rparr>"

abbreviation administrator :: string where "administrator \<equiv> ''administrator''"

definition roles :: "string list" where
  "roles = [administrator, ''engineer'', ''reviewer'', ''viewer'']"

subsection \<open>Validation of the request fields\<close>

text \<open>A field is a JSON string, or absent or null (\<open>None\<close>).\<close>

definition field_text :: "string option \<Rightarrow> string" where
  "field_text v = (case v of None \<Rightarrow> [] | Some s \<Rightarrow> s)"

definition username_char :: "char \<Rightarrow> bool" where
  "username_char c \<longleftrightarrow> is_upper c \<or> is_lower c \<or> is_digit c \<or> c = CHR ''_'' \<or> c = CHR ''.'' \<or> c = CHR ''-''"

definition username_matches :: "string \<Rightarrow> bool" where
  "username_matches s \<longleftrightarrow> list_all username_char s \<and> 3 \<le> length s \<and> length s \<le> 64"

definition validate_username :: "string option \<Rightarrow> py_exc + string" where
  "validate_username v =
     (let s = strip (field_text v)
      in if username_matches s then Inr s else Inl (ValueErr ''username''))"

definition validate_password :: "string option \<Rightarrow> py_exc + string" where
  "validate_password v =
     (let s = field_text v
      in if 8 \<le> length s \<and> length s \<le> 256 then Inr s else Inl (ValueErr ''password''))"

definition validate_display_name :: "string option \<Rightarrow> string \<Rightarrow> py_exc + string" where
  "validate_display_name v username =
     (let s = strip (field_text v); d = (if s = [] then username else s)
      in if 1 \<le> length d \<and> length d \<le> 64 then Inr d else Inl (ValueErr ''display_name''))"

definition validate_role :: "string option \<Rightarrow> py_exc + string" where
  "validate_role v =
     (let s = strip (field_text v)
      in if s \<in> set roles then Inr s else Inl (ValueErr ''role''))"

text \<open>
  \<open>verify\<close> is the hash library: whether a password matches a hash, \<open>None\<close> when it raises;
  \<open>dummy\<close> is the hash that is checked when there is no account, to cost the same time.
\<close>

definition verify_password ::
  "(string \<Rightarrow> string \<Rightarrow> bool option) \<Rightarrow> string \<Rightarrow> string \<Rightarrow> string option \<Rightarrow> bool" where
  "verify_password verify dummy value encoded =
     (let candidate = (case encoded of None \<Rightarrow> dummy | Some e \<Rightarrow> if e = [] then dummy else e);
          valid = (case verify value candidate of None \<Rightarrow> False | Some b \<Rightarrow> b)
      in valid \<and> (case encoded of None \<Rightarrow> False | Some e \<Rightarrow> e \<noteq> []))"

definition session_expiry :: "int \<Rightarrow> ts \<Rightarrow> ts" where
  "session_expiry hours now = now + hours * 3600000000"

subsection \<open>Users\<close>

definition get_user_row :: "accounts \<Rightarrow> string \<Rightarrow> auth_user option" where
  "get_user_row a uid = tbl_get us_id uid (t_users a)"

definition nocase :: "auth_user \<Rightarrow> string" where
  "nocase u = lower (us_username u)"

definition auth_setup_required :: "accounts \<Rightarrow> bool" where
  "auth_setup_required a \<longleftrightarrow> t_users a = []"

definition insert_user :: "accounts \<Rightarrow> auth_user \<Rightarrow> py_exc + accounts" where
  "insert_user a u =
     (if us_id u \<in> set (map us_id (t_users a)) \<or> nocase u \<in> set (map nocase (t_users a)) then Inl UniqueViolation
      else Inr (a\<lparr>t_users := t_users a @ [u]\<rparr>))"

definition create_first_auth_user ::
  "accounts \<Rightarrow> string \<Rightarrow> string \<Rightarrow> string \<Rightarrow> string \<Rightarrow> ts \<Rightarrow> py_exc + accounts \<times> auth_view" where
  "create_first_auth_user a username display_name password_hash uid now =
     (if t_users a \<noteq> [] then Inl AuthSetupComplete
      else
        (let u = \<lparr>us_id = uid, us_username = username, us_password = password_hash, us_role = administrator,
                  us_display_name = display_name, us_enabled = True, us_created = now, us_updated = now\<rparr>
         in map_sum id (\<lambda>a'. (a', auth_view_of u)) (insert_user a u)))"

definition get_auth_credentials :: "accounts \<Rightarrow> string \<Rightarrow> (auth_view \<times> string) option" where
  "get_auth_credentials a username =
     map_option (\<lambda>u. (auth_view_of u, us_password u)) (tbl_get nocase (lower username) (t_users a))"

definition create_user ::
  "accounts \<Rightarrow> string \<Rightarrow> string \<Rightarrow> string \<Rightarrow> string \<Rightarrow> string \<Rightarrow> ts \<Rightarrow> py_exc + accounts \<times> user_view" where
  "create_user a username password_hash role display_name uid now =
     (if tbl_get nocase (lower username) (t_users a) \<noteq> None then Inl (UsernameTaken username)
      else
        (let u = \<lparr>us_id = uid, us_username = username, us_password = password_hash, us_role = role,
                  us_display_name = display_name, us_enabled = True, us_created = now, us_updated = now\<rparr>
         in map_sum id (\<lambda>a'. (a', user_view_of u)) (insert_user a u)))"

definition get_user :: "accounts \<Rightarrow> string \<Rightarrow> user_view option" where
  "get_user a uid = map_option user_view_of (get_user_row a uid)"

definition list_users :: "accounts \<Rightarrow> user_view list" where
  "list_users a = map user_view_of (sort_key (\<lambda>u. iso_key (us_created u)) (sort_key us_id (t_users a)))"

definition active_administrator :: "auth_user \<Rightarrow> bool" where
  "active_administrator u \<longleftrightarrow> us_role u = administrator \<and> us_enabled u"

definition count_active_administrators :: "accounts \<Rightarrow> nat" where
  "count_active_administrators a = length (filter active_administrator (t_users a))"

text \<open>The columns an update sets; \<open>updated_at\<close> is written only with another column.\<close>

definition changed_user :: "string option \<Rightarrow> string option \<Rightarrow> bool option \<Rightarrow> ts \<Rightarrow> auth_user \<Rightarrow> auth_user" where
  "changed_user role display_name enabled now u =
     (if role = None \<and> display_name = None \<and> enabled = None then u
      else u\<lparr>us_role := (case role of None \<Rightarrow> us_role u | Some r \<Rightarrow> r),
             us_display_name := (case display_name of None \<Rightarrow> us_display_name u | Some d \<Rightarrow> d),
             us_enabled := (case enabled of None \<Rightarrow> us_enabled u | Some e \<Rightarrow> e),
             us_updated := now\<rparr>)"

definition update_user ::
  "accounts \<Rightarrow> string \<Rightarrow> string option \<Rightarrow> string option \<Rightarrow> bool option \<Rightarrow> ts \<Rightarrow> py_exc + accounts \<times> user_view" where
  "update_user a uid role display_name enabled now =
     (case get_user_row a uid of
        None \<Rightarrow> Inl (KeyErr uid)
      | Some u \<Rightarrow>
          if us_role u = administrator \<and> us_enabled u \<and>
             (enabled = Some False \<or> (role \<noteq> None \<and> role \<noteq> Some administrator)) \<and>
             count_active_administrators a \<le> 1
          then Inl (ValueErr ''LAST_ADMINISTRATOR'')
          else
            (let a' = a\<lparr>t_users := tbl_upd us_id uid (changed_user role display_name enabled now) (t_users a)\<rparr>
             in (case get_user a' uid of None \<Rightarrow> Inl (KeyErr uid) | Some v \<Rightarrow> Inr (a', v))))"

definition update_user_password :: "accounts \<Rightarrow> string \<Rightarrow> string \<Rightarrow> ts \<Rightarrow> py_exc + accounts" where
  "update_user_password a uid password_hash now =
     (case get_user_row a uid of
        None \<Rightarrow> Inl (KeyErr uid)
      | Some _ \<Rightarrow>
          Inr (a\<lparr>t_users := tbl_upd us_id uid (\<lambda>u. u\<lparr>us_password := password_hash, us_updated := now\<rparr>) (t_users a),
                 t_sessions := filter (\<lambda>s. se_user s \<noteq> uid) (t_sessions a)\<rparr>))"

subsection \<open>Sessions\<close>

definition create_auth_session ::
  "accounts \<Rightarrow> string \<Rightarrow> string \<Rightarrow> ts \<Rightarrow> string option \<Rightarrow> ts \<Rightarrow> py_exc + accounts" where
  "create_auth_session a token_hash uid expires expected now =
     (case get_user_row a uid of
        None \<Rightarrow> Inl (ValueErr ''AUTH_CREDENTIALS_CHANGED'')
      | Some u \<Rightarrow>
          if \<not> us_enabled u \<or> (expected \<noteq> None \<and> expected \<noteq> Some (us_password u))
          then Inl (ValueErr ''AUTH_CREDENTIALS_CHANGED'')
          else
            (let kept = filter (\<lambda>s. \<not> tle (se_expires s) now) (t_sessions a)
             in if token_hash \<in> set (map se_token_hash kept) then Inl UniqueViolation
                else Inr (a\<lparr>t_sessions := kept @
                       [\<lparr>se_token_hash = token_hash, se_user = uid, se_expires = expires,
                         se_created = now, se_last_seen = now\<rparr>]\<rparr>)))"

definition get_auth_session :: "accounts \<Rightarrow> string \<Rightarrow> ts \<Rightarrow> auth_view option" where
  "get_auth_session a token_hash now =
     (case find (\<lambda>s. se_token_hash s = token_hash \<and> tlt now (se_expires s)) (t_sessions a) of
        None \<Rightarrow> None
      | Some s \<Rightarrow> map_option auth_view_of (get_user_row a (se_user s)))"

definition delete_auth_session :: "accounts \<Rightarrow> string \<Rightarrow> accounts" where
  "delete_auth_session a token_hash = a\<lparr>t_sessions := tbl_del se_token_hash token_hash (t_sessions a)\<rparr>"

subsection \<open>The login window\<close>

text \<open>
  \<open>amount\<close> and \<open>window\<close> (in seconds) are the parsed limit, such as 5 and 60 for
  \<open>5/minute\<close>. The result is the new state and whether the attempt is allowed.
\<close>

definition allow_login :: "nat \<Rightarrow> int \<Rightarrow> accounts \<Rightarrow> string \<Rightarrow> ts \<Rightarrow> accounts \<times> bool" where
  "allow_login amount window a key now =
     (let cutoff = now - window * 1000000;
          kept = filter (\<lambda>l. \<not> tlt (la_at l) cutoff) (t_attempts a);
          n = length (filter (\<lambda>l. la_scope l = key \<and> tle cutoff (la_at l)) kept)
      in if amount \<le> n then (a\<lparr>t_attempts := kept\<rparr>, False)
         else (a\<lparr>t_attempts := kept @ [\<lparr>la_scope = key, la_at = now\<rparr>]\<rparr>, True))"

definition reset_login_limits :: "accounts \<Rightarrow> accounts" where
  "reset_login_limits a = a\<lparr>t_attempts := []\<rparr>"

subsection \<open>Setup, login, logout and authentication\<close>

datatype sign_in =
    SignedIn auth_view string
  | Rejected string int

text \<open>
  \<open>authenticated_response\<close>: opens a session for the user whose credentials were just
  checked. \<open>token_hash\<close> is the hash of a fresh token.
\<close>

definition authenticated_response ::
  "accounts \<Rightarrow> auth_view \<Rightarrow> string \<Rightarrow> string \<Rightarrow> int \<Rightarrow> ts \<Rightarrow> py_exc + accounts \<times> sign_in" where
  "authenticated_response a user expected token_hash hours now =
     (case create_auth_session a token_hash (vw_id user) (session_expiry hours now) (Some expected) now of
        Inl (ValueErr e) \<Rightarrow>
          if e = ''AUTH_CREDENTIALS_CHANGED'' then Inr (a, Rejected ''INVALID_CREDENTIALS'' 401) else Inl (ValueErr e)
      | Inl e \<Rightarrow> Inl e
      | Inr a' \<Rightarrow> Inr (a', SignedIn user token_hash))"

definition setup_auth ::
  "bool \<Rightarrow> (string \<Rightarrow> string) \<Rightarrow> int \<Rightarrow> accounts \<Rightarrow> string option \<Rightarrow> string option \<Rightarrow> string option \<Rightarrow> string \<Rightarrow> string \<Rightarrow> ts \<Rightarrow>
   py_exc + accounts \<times> sign_in" where
  "setup_auth auth_enabled hash_password hours a username password display_name uid token_hash now =
     (if \<not> auth_enabled then Inr (a, Rejected ''FORBIDDEN'' 409)
      else case validate_username username of
        Inl e \<Rightarrow> Inr (a, Rejected ''VALIDATION_FAILED'' 422)
      | Inr name \<Rightarrow>
     (case validate_password password of
        Inl e \<Rightarrow> Inr (a, Rejected ''VALIDATION_FAILED'' 422)
      | Inr pw \<Rightarrow>
     (case validate_display_name display_name name of
        Inl e \<Rightarrow> Inr (a, Rejected ''VALIDATION_FAILED'' 422)
      | Inr shown \<Rightarrow>
     (case create_first_auth_user a name shown (hash_password pw) uid now of
        Inl AuthSetupComplete \<Rightarrow> Inr (a, Rejected ''SETUP_ALREADY_COMPLETED'' 409)
      | Inl e \<Rightarrow> Inl e
      | Inr (a', user) \<Rightarrow> authenticated_response a' user (hash_password pw) token_hash hours now))))"

text \<open>
  \<open>login\<close> after the body is read; \<open>client_host\<close> is the identity of the client. The
  attempt is counted in a transaction of its own, before the credentials are read.
\<close>

definition login ::
  "bool \<Rightarrow> (string \<Rightarrow> string \<Rightarrow> bool option) \<Rightarrow> string \<Rightarrow> nat \<Rightarrow> int \<Rightarrow> int \<Rightarrow> accounts \<Rightarrow> string \<Rightarrow> string \<Rightarrow> string \<Rightarrow> string \<Rightarrow> ts \<Rightarrow>
   accounts \<times> (py_exc + sign_in)" where
  "login auth_enabled verify dummy amount window hours a client_host raw_username password token_hash now =
     (if \<not> auth_enabled then (a, Inr (Rejected ''FORBIDDEN'' 409))
      else let username = strip raw_username;
          (a1, allowed) = allow_login amount window a (client_host @ '':'' @ lower username) now
      in if \<not> allowed then (a1, Inr (Rejected ''RATE_LIMITED'' 429))
         else
           (let credentials = get_auth_credentials a1 username;
                password_valid = verify_password verify dummy password (map_option snd credentials)
            in (case credentials of
                  None \<Rightarrow> (a1, Inr (Rejected ''INVALID_CREDENTIALS'' 401))
                | Some (user, encoded) \<Rightarrow>
                    if \<not> password_valid \<or> \<not> vw_enabled user then (a1, Inr (Rejected ''INVALID_CREDENTIALS'' 401))
                    else (case authenticated_response a1 user encoded token_hash hours now of
                            Inl e \<Rightarrow> (a1, Inl e)
                          | Inr (a2, r) \<Rightarrow> (a2, Inr r)))))"

definition logout :: "accounts \<Rightarrow> string option \<Rightarrow> accounts" where
  "logout a token_hash = (case token_hash of None \<Rightarrow> a | Some h \<Rightarrow> delete_auth_session a h)"

text \<open>
  The user of a request, as the middleware finds it when authentication is enabled: the
  user of the session cookie, whose session is deleted on the spot when the account is
  disabled.
\<close>

definition authenticate :: "accounts \<Rightarrow> string option \<Rightarrow> ts \<Rightarrow> accounts \<times> auth_view option" where
  "authenticate a token_hash now =
     (case token_hash of
        None \<Rightarrow> (a, None)
      | Some h \<Rightarrow>
          (case get_auth_session a h now of
             None \<Rightarrow> (a, None)
           | Some user \<Rightarrow> if vw_enabled user then (a, Some user) else (delete_auth_session a h, None)))"

text \<open>The user of every request when authentication is disabled.\<close>

definition local_administrator :: auth_view where
  "local_administrator =
     \<lparr>vw_id = ''user_local_development'', vw_username = ''local'', vw_display_name = ''Local Administrator'',
      vw_role = administrator, vw_enabled = True\<rparr>"

definition request_user :: "bool \<Rightarrow> accounts \<Rightarrow> string option \<Rightarrow> ts \<Rightarrow> accounts \<times> auth_view option" where
  "request_user auth_enabled a token_hash now =
     (if \<not> auth_enabled then (a, Some local_administrator) else authenticate a token_hash now)"

text \<open>
  \<open>require_roles\<close>: why a request of this user is refused, if it is. The guard is bypassed
  when authentication is disabled.
\<close>

definition require_roles :: "bool \<Rightarrow> string list \<Rightarrow> auth_view option \<Rightarrow> (string \<times> int) option" where
  "require_roles auth_enabled allowed user =
     (if \<not> auth_enabled then None
      else case user of
             None \<Rightarrow> Some (''AUTH_REQUIRED'', 401)
           | Some v \<Rightarrow> if vw_role v \<in> set allowed then None else Some (''FORBIDDEN'', 403))"

end
