(* ===== verification/Account_Safety.thy ===== *)
theory Account_Safety
  imports Accounts
begin

text \<open>
  What the accounts promise: while authentication is enabled there is an enabled
  administrator once there is a user, and an administrator never goes away under any
  setting; usernames are unique without regard to case, sessions belong to users; a
  password change or a disabled account ends every session; and the login window lets no
  more attempts through than its limit.
\<close>

subsection \<open>The invariant and the events\<close>

text \<open>
  The tables are consistent and, when the installation is \<open>governed\<close>, an enabled
  administrator is among its users once there are any.
\<close>

definition accounts_inv :: "bool \<Rightarrow> accounts \<Rightarrow> bool" where
  "accounts_inv governed a \<longleftrightarrow>
     distinct (map us_id (t_users a)) \<and> distinct (map nocase (t_users a)) \<and>
     distinct (map se_token_hash (t_sessions a)) \<and>
     (\<forall>s \<in> set (t_sessions a). se_user s \<in> us_id ` set (t_users a)) \<and>
     (governed \<longrightarrow> t_users a = [] \<or> (\<exists>u \<in> set (t_users a). active_administrator u))"

text \<open>
  The requests that reach the accounts. Creating and changing users carries the session of
  the caller, who has to be an administrator.
\<close>

datatype account_event =
    Setup "string option" "string option" "string option" string string
  | Login string string string string
  | Logout "string option"
  | Request "string option"
  | NewUser "string option" string string string string string
  | ChangeUser "string option" string "string option" "string option" "bool option"
  | ChangePassword "string option" string string
  | ResetLimits

text \<open>A command that raises leaves the tables as they were.\<close>

definition after :: "'s \<Rightarrow> py_exc + 's \<Rightarrow> 's" where
  "after s r = (case r of Inl _ \<Rightarrow> s | Inr s' \<Rightarrow> s')"

record sign_in_policy =
  sp_auth_enabled :: bool
  sp_hash :: "string \<Rightarrow> string"
  sp_verify :: "string \<Rightarrow> string \<Rightarrow> bool option"
  sp_dummy :: string
  sp_amount :: nat
  sp_window :: int
  sp_hours :: int

definition administer ::
  "bool \<Rightarrow> accounts \<Rightarrow> string option \<Rightarrow> ts \<Rightarrow> (accounts \<Rightarrow> py_exc + accounts) \<Rightarrow> accounts" where
  "administer auth_enabled a th now f =
     (case request_user auth_enabled a th now of
        (a1, user) \<Rightarrow> if require_roles auth_enabled [administrator] user = None then after a1 (f a1) else a1)"

fun account_step :: "sign_in_policy \<Rightarrow> accounts \<Rightarrow> account_event \<times> ts \<Rightarrow> accounts" where
  "account_step p a (Setup name pw shown uid th, now) =
     after a (map_sum id fst (setup_auth (sp_auth_enabled p) (sp_hash p) (sp_hours p) a name pw shown uid th now))"
| "account_step p a (Login host name pw th, now) =
     fst (login (sp_auth_enabled p) (sp_verify p) (sp_dummy p) (sp_amount p) (sp_window p) (sp_hours p) a host name pw th now)"
| "account_step p a (Logout th, now) = logout a th"
| "account_step p a (Request th, now) = fst (request_user (sp_auth_enabled p) a th now)"
| "account_step p a (NewUser th name pw role shown uid, now) =
     administer (sp_auth_enabled p) a th now (\<lambda>a1. map_sum id fst (create_user a1 name pw role shown uid now))"
| "account_step p a (ChangeUser th uid role shown enabled, now) =
     administer (sp_auth_enabled p) a th now (\<lambda>a1. map_sum id fst (update_user a1 uid role shown enabled now))"
| "account_step p a (ChangePassword th uid pw, now) =
     administer (sp_auth_enabled p) a th now (\<lambda>a1. update_user_password a1 uid pw now)"
| "account_step p a (ResetLimits, now) = reset_login_limits a"

subsection \<open>Each operation keeps the invariant\<close>

lemma accounts_inv_attempts [simp]: "accounts_inv g (a\<lparr>t_attempts := l\<rparr>) = accounts_inv g a"
  by (simp add: accounts_inv_def)

lemma insert_user_inv:
  assumes "accounts_inv g a" and "insert_user a u = Inr a'" and "g \<Longrightarrow> t_users a \<noteq> [] \<or> active_administrator u"
  shows "accounts_inv g a'"
  using assms by (auto simp: insert_user_def accounts_inv_def split: if_splits)

lemma create_first_inv:
  assumes "accounts_inv g a" and "create_first_auth_user a n d h uid now = Inr (a', v)"
  shows "accounts_inv g a'"
  using assms
  by (auto simp: create_first_auth_user_def Let_def map_sum_Inr_iff active_administrator_def
      elim!: insert_user_inv split: if_splits)

lemma create_user_inv:
  assumes "accounts_inv g a" and "g \<Longrightarrow> t_users a \<noteq> []" and "create_user a n h role d uid now = Inr (a', v)"
  shows "accounts_inv g a'"
  using assms by (auto simp: create_user_def Let_def map_sum_Inr_iff elim!: insert_user_inv split: if_splits)

lemma create_session_inv:
  assumes "accounts_inv g a" and "create_auth_session a th uid exp expected now = Inr a'"
  shows "accounts_inv g a'"
  using assms
  by (auto simp: create_auth_session_def accounts_inv_def get_user_row_def Let_def distinct_map_filter
      dest!: tbl_get_SomeD split: option.splits if_splits)

lemma delete_session_inv: "accounts_inv g a \<Longrightarrow> accounts_inv g (delete_auth_session a th)"
  by (auto simp: accounts_inv_def delete_auth_session_def tbl_del_def distinct_map_filter)

lemma changed_user_keys [simp]:
  "us_id (changed_user role d e now u) = us_id u" "nocase (changed_user role d e now u) = nocase u"
  "us_password (changed_user role d e now u) = us_password u"
  by (simp_all add: changed_user_def nocase_def)

lemma two_in_filter:
  assumes "1 < length (filter P xs)" and "distinct (map f xs)"
  shows "\<exists>x \<in> set xs. P x \<and> f x \<noteq> k"
proof (rule ccontr)
  assume none: "\<not> ?thesis"
  obtain x y zs where split: "filter P xs = x # y # zs"
    using assms(1) by (metis One_nat_def length_0_conv length_Suc_conv less_nat_zero_code neq_Nil_conv less_numeral_extra(4))
  have "x \<in> set (filter P xs)" "y \<in> set (filter P xs)" by (simp_all add: split)
  then have "f x = k" "f y = k" using none by auto
  moreover have "distinct (map f (filter P xs))" using assms(2) by (simp add: distinct_map_filter)
  ultimately show False by (simp add: split)
qed

lemma map_tbl_upd: "(\<And>r. g (f r) = g r) \<Longrightarrow> map g (tbl_upd key k f rows) = map g rows"
  by (simp add: tbl_upd_def)

lemma updated_users_inv:
  assumes inv: "accounts_inv g a" and f: "\<And>u. us_id (f u) = us_id u" "\<And>u. nocase (f u) = nocase u"
    and adm: "g \<Longrightarrow> t_users a = [] \<or> (\<exists>u \<in> set (tbl_upd us_id uid f (t_users a)). active_administrator u)"
  shows "accounts_inv g (a\<lparr>t_users := tbl_upd us_id uid f (t_users a), t_sessions := filter P (t_sessions a)\<rparr>)"
proof -
  have "us_id ` set (tbl_upd us_id uid f (t_users a)) = us_id ` set (t_users a)"
    using map_tbl_upd [of us_id f us_id uid "t_users a", OF f(1)] by (metis set_map)
  moreover have "tbl_upd us_id uid f (t_users a) = [] \<longleftrightarrow> t_users a = []" by (simp add: tbl_upd_def)
  ultimately show ?thesis using inv adm
    unfolding accounts_inv_def by (simp add: map_tbl_upd f distinct_map_filter)
qed

lemma update_user_inv:
  assumes inv: "accounts_inv g a" and upd: "update_user a uid role d e now = Inr (a', v)"
  shows "accounts_inv g a'"
proof -
  let ?f = "changed_user role d e now"
  obtain u where u: "get_user_row a uid = Some u" using upd by (auto simp: update_user_def split: option.splits)
  then have mem: "u \<in> set (t_users a)" "us_id u = uid" by (auto simp: get_user_row_def dest: tbl_get_SomeD)
  have a': "a' = a\<lparr>t_users := tbl_upd us_id uid ?f (t_users a)\<rparr>"
    using upd u by (auto simp: update_user_def Let_def split: if_splits option.splits)
  have "\<exists>w \<in> set (t_users a'). active_administrator w" if g
  proof (cases "active_administrator (?f u)")
    case True
    have "?f u \<in> set (t_users a')" using mem by (auto simp: a' set_tbl_upd)
    with True show ?thesis by blast
  next
    case False
    have "\<exists>w \<in> set (t_users a). active_administrator w \<and> us_id w \<noteq> uid"
    proof (cases "active_administrator u")
      case True
      then have "\<not> count_active_administrators a \<le> 1"
        using upd u False
        by (auto simp: update_user_def changed_user_def active_administrator_def split: if_splits option.splits)
      then show ?thesis using inv \<open>g\<close> by (intro two_in_filter) (simp_all add: count_active_administrators_def accounts_inv_def)
    next
      case False
      from inv mem(1) \<open>g\<close> obtain w where "w \<in> set (t_users a)" "active_administrator w" by (auto simp: accounts_inv_def)
      moreover have "us_id w \<noteq> uid"
      proof
        assume "us_id w = uid"
        then have "w = u" using calculation(1) mem inv by (auto simp: accounts_inv_def distinct_map dest: inj_onD)
        with False calculation(2) show False by simp
      qed
      ultimately show ?thesis by blast
    qed
    then show ?thesis by (auto simp: a' set_tbl_upd)
  qed
  then have "accounts_inv g (a\<lparr>t_users := tbl_upd us_id uid ?f (t_users a), t_sessions := filter (\<lambda>_. True) (t_sessions a)\<rparr>)"
    by (intro updated_users_inv inv) (simp_all add: a')
  then show ?thesis by (simp add: a')
qed

lemma update_password_inv:
  assumes "accounts_inv g a" and "update_user_password a uid h now = Inr a'"
  shows "accounts_inv g a'"
proof -
  have a': "a' = a\<lparr>t_users := tbl_upd us_id uid (\<lambda>u. u\<lparr>us_password := h, us_updated := now\<rparr>) (t_users a),
                 t_sessions := filter (\<lambda>s. se_user s \<noteq> uid) (t_sessions a)\<rparr>"
    using assms(2) by (auto simp: update_user_password_def split: option.splits)
  have adm: "active_administrator (u\<lparr>us_password := h, us_updated := now\<rparr>) = active_administrator u" for u
    by (simp add: active_administrator_def)
  let ?f = "\<lambda>u. u\<lparr>us_password := h, us_updated := now\<rparr>"
  have upd: "\<exists>w \<in> set (tbl_upd us_id uid ?f (t_users a)). active_administrator w"
    if "u \<in> set (t_users a)" "active_administrator u" for u
  proof -
    have "(if us_id u = uid then ?f u else u) \<in> set (tbl_upd us_id uid ?f (t_users a))"
      unfolding set_tbl_upd using that(1) by (rule imageI)
    moreover have "active_administrator (if us_id u = uid then ?f u else u)" using that(2) adm by simp
    ultimately show ?thesis by (rule rev_bexI)
  qed
  have kept: "t_users a = [] \<or> (\<exists>w \<in> set (tbl_upd us_id uid ?f (t_users a)). active_administrator w)" if g
  proof -
    have "t_users a = [] \<or> (\<exists>u \<in> set (t_users a). active_administrator u)" using assms(1) \<open>g\<close> by (simp add: accounts_inv_def)
    then show ?thesis using upd by (elim disjE bexE) (rule disjI1, assumption, rule disjI2)
  qed
  show ?thesis unfolding a' by (intro updated_users_inv assms(1) kept) (simp_all add: nocase_def)
qed

subsection \<open>Whole requests\<close>

lemma authenticate_cases:
  obtains "authenticate a th now = (a, None)"
  | h where "th = Some h" "authenticate a th now = (delete_auth_session a h, None)"
  | h v where "th = Some h" "get_auth_session a h now = Some v" "vw_enabled v" "authenticate a th now = (a, Some v)"
proof (cases th)
  case None
  then show ?thesis using that(1) by (simp add: authenticate_def)
next
  case (Some h)
  show ?thesis
  proof (cases "get_auth_session a h now")
    case None
    then show ?thesis using Some that(1) by (simp add: authenticate_def)
  next
    case (Some v)
    with \<open>th = Some h\<close> show ?thesis using that(2,3) by (cases "vw_enabled v") (simp_all add: authenticate_def)
  qed
qed

lemma authenticated_response_inv:
  assumes "accounts_inv g a" and "authenticated_response a v e th hours now = Inr (a', r)"
  shows "accounts_inv g a'"
  using assms
  by (auto simp: authenticated_response_def elim: create_session_inv split: sum.splits py_exc.splits if_splits)

lemma setup_auth_inv:
  assumes "accounts_inv g a" and "setup_auth en h hours a n pw d uid th now = Inr (a', r)"
  shows "accounts_inv g a'"
  using assms
  by (auto simp: setup_auth_def elim: authenticated_response_inv dest: create_first_inv
      split: if_splits sum.splits py_exc.splits prod.splits)

lemma allow_login_attempts_only: "\<exists>l. fst (allow_login amount window a key now) = a\<lparr>t_attempts := l\<rparr>"
  by (auto simp: allow_login_def Let_def)

lemma login_inv:
  assumes "accounts_inv g a"
  shows "accounts_inv g (fst (login en verify dummy amount window hours a host name pw th now))"
proof -
  obtain a1 ok where al: "allow_login amount window a (host @ '':'' @ lower (strip name)) now = (a1, ok)" by fastforce
  have a1: "accounts_inv g a1"
    using assms allow_login_attempts_only [of amount window a "host @ '':'' @ lower (strip name)" now] al by auto
  with assms show ?thesis
    by (auto simp: login_def Let_def al [simplified] elim: authenticated_response_inv split: option.splits sum.splits)
qed

lemma authenticate_inv: "accounts_inv g a \<Longrightarrow> accounts_inv g (fst (authenticate a th now))"
  by (rule authenticate_cases [of a th now]) (auto simp: delete_session_inv)

lemma authenticate_users: "t_users (fst (authenticate a th now)) = t_users a"
  by (rule authenticate_cases [of a th now]) (auto simp: delete_auth_session_def)

lemma request_user_inv: "accounts_inv g a \<Longrightarrow> accounts_inv g (fst (request_user en a th now))"
  by (simp add: request_user_def authenticate_inv)

lemma request_user_users: "t_users (fst (request_user en a th now)) = t_users a"
  by (simp add: request_user_def authenticate_users)

lemma guarded_request:
  assumes "request_user en a th now = (a1, user)" and "require_roles en allowed user = None" and en
  shows "t_users a1 \<noteq> []"
proof (rule authenticate_cases [of a th now])
  fix h v
  assume "get_auth_session a h now = Some v" and "authenticate a th now = (a, Some v)"
  then show ?thesis
    using assms(1,3) by (auto simp: request_user_def get_auth_session_def get_user_row_def split: option.splits)
qed (use assms in \<open>simp_all add: request_user_def require_roles_def\<close>)

lemma administer_inv:
  assumes "accounts_inv g a" and "g \<Longrightarrow> en \<or> t_users a \<noteq> []"
    and f: "\<And>a1 a'. accounts_inv g a1 \<Longrightarrow> (g \<Longrightarrow> t_users a1 \<noteq> []) \<Longrightarrow> f a1 = Inr a' \<Longrightarrow> accounts_inv g a'"
  shows "accounts_inv g (administer en a th now f)"
proof -
  obtain a1 user where r: "request_user en a th now = (a1, user)" by fastforce
  have a1: "accounts_inv g a1" using request_user_inv [OF assms(1), of en th now] by (simp add: r)
  have "t_users a1 \<noteq> []" if g "require_roles en [administrator] user = None"
    using guarded_request [OF r that(2)] assms(2) [OF that(1)] request_user_users [of en a th now] by (auto simp: r)
  then show ?thesis using a1 f [OF a1] by (auto simp: administer_def r after_def split: sum.splits)
qed

lemma account_step_inv:
  assumes "accounts_inv g a" and "g \<Longrightarrow> sp_auth_enabled p \<or> t_users a \<noteq> []"
  shows "accounts_inv g (account_step p a e)"
  using assms
proof (induction p a e rule: account_step.induct)
  case (1 p a name pw shown uid th now)
  then show ?case by (auto simp: after_def map_sum_Inr_iff elim: setup_auth_inv split: sum.splits)
next
  case (5 p a th name pw role shown uid now)
  then show ?case unfolding account_step.simps by (rule administer_inv) (auto simp: map_sum_Inr_iff dest: create_user_inv)
next
  case (6 p a th uid role shown enabled now)
  then show ?case unfolding account_step.simps by (rule administer_inv) (auto simp: map_sum_Inr_iff dest: update_user_inv)
next
  case (7 p a th uid pw now)
  then show ?case unfolding account_step.simps by (rule administer_inv) (auto dest: update_password_inv)
qed (auto simp: login_inv logout_def delete_session_inv request_user_inv reset_login_limits_def split: option.splits)

subsection \<open>Users are never removed\<close>

lemma inserted_user: "insert_user a u = Inr a' \<Longrightarrow> t_users a' \<noteq> []"
  by (auto simp: insert_user_def split: if_splits)

lemma created_user:
  "create_user a n h role d uid now = Inr (a', v) \<Longrightarrow> t_users a' \<noteq> []"
  "create_first_auth_user a n d h uid now = Inr (a', w) \<Longrightarrow> t_users a' \<noteq> []"
  by (auto simp: create_user_def create_first_auth_user_def Let_def map_sum_Inr_iff dest: inserted_user split: if_splits)

lemma edited_user:
  "update_user a uid role d e now = Inr (a', v) \<Longrightarrow> t_users a' = [] \<longleftrightarrow> t_users a = []"
  "update_user_password a uid h now = Inr a' \<Longrightarrow> t_users a' = [] \<longleftrightarrow> t_users a = []"
  by (auto simp: update_user_def update_user_password_def Let_def tbl_upd_def split: option.splits if_splits)

lemma session_users:
  "create_auth_session a th uid exp expected now = Inr a' \<Longrightarrow> t_users a' = t_users a"
  "authenticated_response a v e th hours now = Inr (a', r) \<Longrightarrow> t_users a' = t_users a"
  by (auto simp: create_auth_session_def authenticated_response_def Let_def split: option.splits sum.splits py_exc.splits if_splits)

lemma login_users: "t_users (fst (login en verify dummy amount window hours a host n pw th now)) = t_users a"
proof -
  obtain a1 ok where al: "allow_login amount window a (host @ '':'' @ lower (strip n)) now = (a1, ok)" by fastforce
  have "t_users a1 = t_users a"
    using allow_login_attempts_only [of amount window a "host @ '':'' @ lower (strip n)" now] al by auto
  then show ?thesis
    by (auto simp: login_def Let_def al [simplified] dest: session_users(2) split: option.splits sum.splits)
qed

lemma setup_users: "setup_auth en h hours a n pw d uid th now = Inr (a', r) \<Longrightarrow> t_users a \<noteq> [] \<Longrightarrow> t_users a' \<noteq> []"
  by (auto simp: setup_auth_def dest!: session_users(2) dest: created_user split: if_splits sum.splits py_exc.splits prod.splits)

lemma administer_users:
  assumes "\<And>a1 a'. f a1 = Inr a' \<Longrightarrow> t_users a1 \<noteq> [] \<Longrightarrow> t_users a' \<noteq> []" and "t_users a \<noteq> []"
  shows "t_users (administer en a th now f) \<noteq> []"
  using assms request_user_users [of en a th now] by (auto simp: administer_def after_def split: prod.splits sum.splits)

lemma users_remain: "t_users a \<noteq> [] \<Longrightarrow> t_users (account_step p a e) \<noteq> []"
proof (induction p a e rule: account_step.induct)
  case (1 p a name pw shown uid th now)
  then show ?case by (auto simp: after_def map_sum_Inr_iff dest: setup_users split: sum.splits)
next
  case (5 p a th name pw role shown uid now)
  then show ?case unfolding account_step.simps
    by (intro administer_users) (auto simp: map_sum_Inr_iff dest: created_user)
next
  case (6 p a th uid role shown enabled now)
  then show ?case unfolding account_step.simps
    by (intro administer_users) (auto simp: map_sum_Inr_iff dest: edited_user)
next
  case (7 p a th uid pw now)
  then show ?case unfolding account_step.simps by (intro administer_users) (auto dest: edited_user)
qed (simp_all add: login_users request_user_users logout_def delete_auth_session_def reset_login_limits_def split: option.splits)

subsection \<open>The promises\<close>

lemma active_count_pos: "0 < count_active_administrators a \<longleftrightarrow> (\<exists>u \<in> set (t_users a). active_administrator u)"
  by (auto simp: count_active_administrators_def filter_empty_conv)

text \<open>
  A history of requests; every request runs under the settings of its deployment, so that a
  restart may switch authentication on or off in between.
\<close>

abbreviation account_run :: "accounts \<Rightarrow> (sign_in_policy \<times> account_event \<times> ts) list \<Rightarrow> accounts" where
  "account_run a evs \<equiv> foldl (\<lambda>a (p, e). account_step p a e) a evs"

interpretation account_tables: step_machine "\<lambda>a (p, e). account_step p a e" "accounts_inv False" "\<lambda>_. 0"
  by unfold_locales (auto simp: account_step_inv split: prod.splits)

interpretation governed_accounts: step_machine "\<lambda>a (p, e). account_step p a e"
    "\<lambda>a. accounts_inv True a \<and> t_users a \<noteq> []" "\<lambda>_. 0"
  by unfold_locales (auto simp: account_step_inv users_remain split: prod.splits)

lemma enabled_run_inv:
  "list_all (\<lambda>(p, e). sp_auth_enabled p) evs \<Longrightarrow> accounts_inv True a \<Longrightarrow> accounts_inv True (account_run a evs)"
  by (induction evs arbitrary: a) (auto simp: account_step_inv)

definition no_accounts :: accounts where
  "no_accounts = \<lparr>t_users = [], t_sessions = [], t_attempts = []\<rparr>"

lemma no_accounts_inv: "accounts_inv g no_accounts"
  by (simp add: accounts_inv_def no_accounts_def)

text \<open>
  C10. Account tables stay consistent and an installation keeps its administrator. From the
  empty store, after any history of setups, sign-ins, requests and account changes, under
  whatever authentication setting each of them ran, no two usernames differ only in case
  and every session belongs to a user. When authentication was enabled throughout, there
  are no users yet or an enabled administrator is among them. And once there is an enabled
  administrator there is one after every further history, also with authentication
  disabled.
\<close>

theorem an_administrator_remains:
  fixes evs
  defines "a \<equiv> account_run no_accounts evs"
  shows "distinct (map (lower \<circ> us_username) (t_users a)) \<and> se_user ` set (t_sessions a) \<subseteq> us_id ` set (t_users a) \<and>
    (list_all (\<lambda>(p, e). sp_auth_enabled p) evs \<longrightarrow> t_users a = [] \<or> 0 < count_active_administrators a) \<and>
    (0 < count_active_administrators a \<longrightarrow> 0 < count_active_administrators (account_run a later))"
proof (intro conjI impI)
  have tables: "accounts_inv False a" unfolding a_def by (rule account_tables.run_inv [OF no_accounts_inv])
  have "nocase = lower \<circ> us_username" by (rule ext) (simp add: nocase_def)
  with tables show "distinct (map (lower \<circ> us_username) (t_users a))" by (simp add: accounts_inv_def)
  from tables show "se_user ` set (t_sessions a) \<subseteq> us_id ` set (t_users a)" by (auto simp: accounts_inv_def)
  show "t_users a = [] \<or> 0 < count_active_administrators a" if "list_all (\<lambda>(p, e). sp_auth_enabled p) evs"
    using enabled_run_inv [OF that no_accounts_inv] by (simp add: a_def accounts_inv_def active_count_pos)
  assume "0 < count_active_administrators a"
  then have "accounts_inv True a \<and> t_users a \<noteq> []" using tables by (auto simp: accounts_inv_def active_count_pos)
  from governed_accounts.run_inv [OF this, of later] show "0 < count_active_administrators (account_run a later)"
    unfolding accounts_inv_def active_count_pos by blast
qed

lemma auth_view_of_sel [simp]:
  "vw_id (auth_view_of u) = us_id u" "vw_enabled (auth_view_of u) = us_enabled u" "vw_role (auth_view_of u) = us_role u"
  by (simp_all add: auth_view_of_def)

lemma get_auth_session_row:
  "get_auth_session a h t = Some v \<Longrightarrow> \<exists>s \<in> set (t_sessions a). \<exists>z. get_user_row a (se_user s) = Some z \<and> v = auth_view_of z"
  by (auto simp: get_auth_session_def dest!: find_SomeD split: option.splits)

lemma no_session_no_view:
  "\<forall>s \<in> set (t_sessions a). se_user s \<noteq> uid \<Longrightarrow> get_auth_session a th t = Some v \<Longrightarrow> vw_id v \<noteq> uid"
  by (auto simp: get_auth_session_def get_user_row_def auth_view_of_def dest!: tbl_get_SomeD find_SomeD split: option.splits)

lemma changed_password:
  assumes "update_user_password a uid new now = Inr a'"
  shows "(\<forall>s \<in> set (t_sessions a'). se_user s \<noteq> uid) \<and> (\<exists>u. get_user_row a' uid = Some u \<and> us_password u = new)"
  using assms by (auto simp: update_user_password_def get_user_row_def tbl_get_upd_same split: option.splits)

lemma disabled_user:
  assumes "update_user a uid role shown (Some False) now = Inr (a', w)"
  shows "\<exists>u. get_user_row a' uid = Some u \<and> \<not> us_enabled u"
  using assms
  by (auto simp: update_user_def get_user_row_def tbl_get_upd_same changed_user_def Let_def split: option.splits if_splits)

text \<open>
  C27. A password change and a disabled account take effect at once: right after either, no
  session of any age authenticates as that user, and a login that had checked the old
  password just before opens no session.
\<close>

theorem revoked_user_is_signed_out:
  assumes "update_user_password a uid new now = Inr a' \<or> update_user a uid role shown (Some False) now = Inr (a', w)"
    and "old \<noteq> new"
  shows "(\<forall>th t v. snd (authenticate a' th t) = Some v \<longrightarrow> vw_id v \<noteq> uid) \<and>
    (\<forall>h exp t. create_auth_session a' h uid exp (Some old) t = Inl (ValueErr ''AUTH_CREDENTIALS_CHANGED''))"
proof
  show "\<forall>h exp t. create_auth_session a' h uid exp (Some old) t = Inl (ValueErr ''AUTH_CREDENTIALS_CHANGED'')"
    using assms(1)
  proof
    assume "update_user_password a uid new now = Inr a'"
    from conjunct2 [OF changed_password [OF this]] show ?thesis
      using assms(2) by (auto simp: create_auth_session_def)
  next
    assume "update_user a uid role shown (Some False) now = Inr (a', w)"
    from disabled_user [OF this] show ?thesis by (auto simp: create_auth_session_def)
  qed
  show "\<forall>th t v. snd (authenticate a' th t) = Some v \<longrightarrow> vw_id v \<noteq> uid"
  proof (intro allI impI)
    fix th t v assume v: "snd (authenticate a' th t) = Some v"
    obtain h where h: "get_auth_session a' h t = Some v" "vw_enabled v"
      by (rule authenticate_cases [of a' th t]) (use v in auto)
    from assms(1) show "vw_id v \<noteq> uid"
    proof
      assume "update_user_password a uid new now = Inr a'"
      then show ?thesis by (rule no_session_no_view [OF conjunct1 [OF changed_password] h(1)])
    next
      assume "update_user a uid role shown (Some False) now = Inr (a', w)"
      then obtain u where u: "get_user_row a' uid = Some u" "\<not> us_enabled u" by (blast dest: disabled_user)
      from get_auth_session_row [OF h(1)] obtain s z where "s \<in> set (t_sessions a')" and
        z: "get_user_row a' (se_user s) = Some z" "v = auth_view_of z" by blast
      have "us_id z = se_user s" using z(1) unfolding get_user_row_def by (rule tbl_get_key)
      show ?thesis
      proof
        assume "vw_id v = uid"
        then have "z = u" using z u(1) \<open>us_id z = se_user s\<close> by simp
        then show False using h(2) z(2) u(2) by simp
      qed
    qed
  qed
qed

definition example_user :: auth_user where
  "example_user = \<lparr>us_id = ''user_a'', us_username = ''Ann'', us_password = ''old'', us_role = ''viewer'',
     us_display_name = ''Ann'', us_enabled = True, us_created = 0, us_updated = 0\<rparr>"

definition example_accounts :: accounts where
  "example_accounts = \<lparr>t_users = [example_user],
     t_sessions = [\<lparr>se_token_hash = ''h'', se_user = ''user_a'', se_expires = 10000000, se_created = 0, se_last_seen = 0\<rparr>],
     t_attempts = []\<rparr>"

theorem revoked_user_is_signed_out_witness:
  "\<exists>a'. snd (authenticate example_accounts (Some ''h'') 5) = Some (auth_view_of example_user) \<and>
     update_user_password example_accounts ''user_a'' ''new'' 5 = Inr a' \<and> snd (authenticate a' (Some ''h'') 6) = None \<and>
     create_auth_session a' ''h2'' ''user_a'' 100 (Some ''old'') 6 = Inl (ValueErr ''AUTH_CREDENTIALS_CHANGED'')"
proof -
  have "\<exists>a'. update_user_password example_accounts ''user_a'' ''new'' 5 = Inr a'"
    by (simp add: update_user_password_def get_user_row_def example_accounts_def example_user_def)
  then obtain a' where a': "update_user_password example_accounts ''user_a'' ''new'' 5 = Inr a'" by blast
  have "snd (authenticate example_accounts (Some ''h'') 5) = Some (auth_view_of example_user)"
    by (simp add: authenticate_def get_auth_session_def get_user_row_def auth_view_of_def example_accounts_def example_user_def
        tlt_def iso_key_def)
  moreover have "snd (authenticate a' (Some ''h'') 6) = None"
    using a' by (auto simp: authenticate_def get_auth_session_def update_user_password_def get_user_row_def
        example_accounts_def example_user_def)
  moreover have "create_auth_session a' ''h2'' ''user_a'' 100 (Some ''old'') 6 = Inl (ValueErr ''AUTH_CREDENTIALS_CHANGED'')"
    using revoked_user_is_signed_out [OF disjI1 [OF a'], of "''old''"] by simp
  ultimately show ?thesis using a' by blast
qed

definition example_sign_in :: "bool \<Rightarrow> sign_in_policy" where
  "example_sign_in auth_enabled = \<lparr>sp_auth_enabled = auth_enabled, sp_hash = id, sp_verify = (\<lambda>pw h. Some (pw = h)),
     sp_dummy = ''d'', sp_amount = 5, sp_window = 60, sp_hours = 12\<rparr>"

definition example_setup :: account_event where
  "example_setup = Setup (Some ''ann'') (Some ''correct horse'') None ''user_a'' ''h''"

definition example_engineer :: account_event where
  "example_engineer = NewUser None ''eve'' ''hash'' ''engineer'' ''Eve'' ''user_e''"

lemma example_set_up: "0 < count_active_administrators (account_run no_accounts [(example_sign_in True, example_setup, 0)])"
  by code_simp

theorem an_administrator_remains_witness:
  "0 < count_active_administrators (account_run (account_run no_accounts [(example_sign_in True, example_setup, 0)])
     [(example_sign_in False, ChangeUser None ''user_a'' None None (Some False), 5)])"
  using an_administrator_remains [of "[(example_sign_in True, example_setup, 0)]"] example_set_up by blast

text \<open>
  With authentication disabled the guard is bypassed: on an empty store a request creates
  an engineer and there is no administrator. When authentication is enabled afterwards, the
  setup of the first administrator is refused, because there is a user.
\<close>

lemma disabled_authentication_locks_out:
  "let a = account_run no_accounts [(example_sign_in False, example_engineer, 0)] in
     length (t_users a) = 1 \<and> count_active_administrators a = 0 \<and>
     setup_auth True id 12 a (Some ''ann'') (Some ''correct horse'') None ''user_a'' ''h'' 5 =
       Inr (a, Rejected ''SETUP_ALREADY_COMPLETED'' 409)"
  by code_simp

subsection \<open>The login window\<close>

text \<open>The calls of a sequence of login attempts that were allowed, in order.\<close>

fun allowed_logins :: "nat \<Rightarrow> int \<Rightarrow> accounts \<Rightarrow> (string \<times> ts) list \<Rightarrow> (string \<times> ts) list" where
  "allowed_logins amount window a [] = []"
| "allowed_logins amount window a ((key, t) # calls) =
     (case allow_login amount window a key t of
        (a', ok) \<Rightarrow> (if ok then [(key, t)] else []) @ allowed_logins amount window a' calls)"

text \<open>The clock of a later call has a text that is not smaller.\<close>

lemma iso_key_shift: "iso_key (t - w * 1000000) = iso_key t - 2 * (w * 1000000)"
proof -
  have "(t - w * 1000000) mod 1000000 = t mod 1000000"
    using mod_mult_self1 [of "t - w * 1000000" w 1000000] by simp
  then show ?thesis by (simp add: iso_key_def algebra_simps)
qed

lemma cutoff_mono: "tle (t - w * 1000000) (u - w * 1000000) \<longleftrightarrow> tle t u"
  by (simp add: tle_def iso_key_shift)

definition in_window :: "int \<Rightarrow> string \<Rightarrow> ts \<Rightarrow> string \<times> ts \<Rightarrow> bool" where
  "in_window window key t c \<longleftrightarrow> fst c = key \<and> tle (t - window * 1000000) (snd c) \<and> tle (snd c) t"

lemma length_filter_mono: "(\<And>x. P x \<Longrightarrow> Q x) \<Longrightarrow> length (filter P xs) \<le> length (filter Q xs)"
  by (induction xs) auto

lemma allowed_logins_subset: "set (allowed_logins amount window a calls) \<subseteq> set calls"
  by (induction amount window a calls rule: allowed_logins.induct) (auto split: prod.splits if_splits)

abbreviation counted :: "accounts \<Rightarrow> (string \<times> ts) list" where
  "counted a \<equiv> map (\<lambda>l. (la_scope l, la_at l)) (t_attempts a)"

lemma allowed_logins_bounded:
  assumes "sorted_wrt (\<lambda>c d. tle (snd c) (snd d)) calls"
    and "\<forall>l \<in> set (t_attempts a). \<forall>c \<in> set calls. tle (la_at l) (snd c)"
    and "(k, u) \<in> set (allowed_logins amount window a calls)"
  shows "length (filter (in_window window k u) (counted a @ allowed_logins amount window a calls)) \<le> amount"
  using assms
proof (induction calls arbitrary: a)
  case Nil
  then show ?case by simp
next
  case (Cons call calls)
  obtain key t where call: "call = (key, t)" by fastforce
  obtain a' ok where al: "allow_login amount window a key t = (a', ok)" by fastforce
  let ?cut = "t - window * 1000000"
  let ?kept = "filter (\<lambda>l. \<not> tlt (la_at l) ?cut) (t_attempts a)"
  let ?rest = "allowed_logins amount window a' calls"
  have a': "t_attempts a' = ?kept @ (if ok then [\<lparr>la_scope = key, la_at = t\<rparr>] else [])"
    and few: "ok \<Longrightarrow> length (filter (\<lambda>l. la_scope l = key \<and> tle ?cut (la_at l)) ?kept) < amount"
    using al by (auto simp: allow_login_def Let_def split: if_splits)
  have later: "\<forall>c \<in> set calls. tle t (snd c)" and sorted: "sorted_wrt (\<lambda>c d. tle (snd c) (snd d)) calls"
    using Cons.prems(1) by (simp_all add: call)
  have att: "\<forall>l \<in> set (t_attempts a'). \<forall>c \<in> set calls. tle (la_at l) (snd c)"
    using Cons.prems(2) later by (auto simp: a')
  have all: "allowed_logins amount window a (call # calls) = (if ok then [call] else []) @ ?rest"
    by (simp add: call al)
  show ?case
  proof (cases "(k, u) \<in> set ?rest")
    case True
    then have "tle t u" using allowed_logins_subset later by fastforce
    then have gone: "\<not> in_window window k u (la_scope l, la_at l)" if "tlt (la_at l) ?cut" for l
      using that \<open>tle t u\<close> tle_trans [of ?cut "u - window * 1000000" "la_at l"] not_tle [of ?cut "la_at l"]
      by (auto simp: in_window_def cutoff_mono)
    have "filter (in_window window k u) (counted a) = filter (in_window window k u) (map (\<lambda>l. (la_scope l, la_at l)) ?kept)"
      using gone by (auto simp: filter_map comp_def intro!: arg_cong [of _ _ "map _"] filter_cong)
    then have "filter (in_window window k u) (counted a @ allowed_logins amount window a (call # calls)) =
        filter (in_window window k u) (counted a' @ ?rest)"
      unfolding all by (simp add: a' call)
    then show ?thesis using Cons.IH [OF sorted att True] by simp
  next
    case False
    then have ok and ku: "k = key" "u = t" using Cons.prems(3) unfolding all by (auto simp: call split: if_splits)
    have "\<not> in_window window k u c" if "c \<in> set ?rest" for c
    proof
      assume "in_window window k u c"
      then have "fst c = k" "tle (snd c) t" by (simp_all add: in_window_def ku)
      moreover have "tle t (snd c)" using later that allowed_logins_subset by blast
      ultimately have "c = (k, u)" by (simp add: ku prod_eq_iff tle_antisym)
      with that False show False by simp
    qed
    then have "filter (in_window window k u) ?rest = []" by (simp add: filter_empty_conv)
    moreover have "length (filter (in_window window k u) (counted a)) \<le>
        length (filter (\<lambda>l. la_scope l = key \<and> tle ?cut (la_at l)) ?kept)"
      by (auto simp: filter_map comp_def in_window_def ku not_tlt intro!: length_filter_mono)
    ultimately show ?thesis using few [OF \<open>ok\<close>] \<open>ok\<close> unfolding all by simp
  qed
qed

text \<open>
  The login limit is a moving window: however attempts for any clients and names are
  made, as long as the clock does not run backwards, no allowed attempt has more than
  \<open>amount\<close> allowed attempts of its client and name, itself included, in the window that
  ends with it.
\<close>

lemma login_window_bounded:
  assumes "sorted_wrt (\<lambda>c d. tle (snd c) (snd d)) calls"
    and "t_attempts a = []"
  shows "list_all (\<lambda>(key, t). length (filter (in_window window key t) (allowed_logins amount window a calls)) \<le> amount)
    (allowed_logins amount window a calls)"
  using allowed_logins_bounded [OF assms(1), of a _ _ amount window] assms(2) by (auto simp: list_all_iff)

theorem login_window_bounded_witness:
  "\<exists>calls. allowed_logins 2 60 example_accounts calls = [(''h:ann'', 1000000), (''h:ann'', 2000000), (''h:ann'', 62000001)] \<and>
     length calls = 4 \<and>
     list_all (\<lambda>(key, t). length (filter (in_window 60 key t) (allowed_logins 2 60 example_accounts calls)) \<le> 2)
       (allowed_logins 2 60 example_accounts calls)"
proof (intro exI conjI)
  let ?calls = "[(''h:ann'', 1000000), (''h:ann'', 2000000), (''h:ann'', 3000000), (''h:ann'', 62000001)]"
  show "allowed_logins 2 60 example_accounts ?calls = [(''h:ann'', 1000000), (''h:ann'', 2000000), (''h:ann'', 62000001)]"
    by (simp add: allow_login_def example_accounts_def Let_def tlt_def tle_def iso_key_def)
  show "length ?calls = 4" by simp
  show "list_all (\<lambda>(key, t). length (filter (in_window 60 key t) (allowed_logins 2 60 example_accounts ?calls)) \<le> 2)
       (allowed_logins 2 60 example_accounts ?calls)"
    by (rule login_window_bounded) (simp_all add: example_accounts_def tle_def iso_key_def)
qed

end
