(* ===== verification/Client_Identity.thy ===== *)
theory Client_Identity
  imports Texts
begin

text \<open>
  Whose login attempts are counted together: \<open>trusted_client_identity\<close> (\<open>security.py\<close>),
  which takes the address of the client from \<open>X-Forwarded-For\<close> only as far as the
  deployment's own proxies wrote it. \<open>ip\<close> stands for \<open>ipaddress.ip_address\<close>: the
  normal text of an address, or \<open>None\<close> when the text is not one.
\<close>

text \<open>\<open>str.split(",")\<close>.\<close>

fun split_comma :: "string \<Rightarrow> string list" where
  "split_comma [] = [[]]"
| "split_comma (c # cs) =
     (if c = CHR '','' then [] # split_comma cs
      else (case split_comma cs of [] \<Rightarrow> [[c]] | w # ws \<Rightarrow> (c # w) # ws))"

definition forwarded_hops :: "string \<Rightarrow> string list" where
  "forwarded_hops header = filter (\<lambda>v. v \<noteq> []) (map strip (split_comma header))"

definition remote_or_unknown :: "string \<Rightarrow> string" where
  "remote_or_unknown remote = (if remote = [] then ''unknown'' else remote)"

definition trusted_client_identity :: "(string \<Rightarrow> string option) \<Rightarrow> string \<Rightarrow> string \<Rightarrow> int \<Rightarrow> string" where
  "trusted_client_identity ip remote header trusted =
     (if trusted \<le> 0 then remote_or_unknown remote
      else
        (let candidates = forwarded_hops header
         in if candidates = [] then remote_or_unknown remote
            else
              (let index = min trusted (int (length candidates)) - 1;
                   candidate = candidates ! nat (int (length candidates) - index - 1)
               in (case ip candidate of None \<Rightarrow> remote_or_unknown remote | Some text \<Rightarrow> text))))"

lemma split_comma_nonempty [simp]: "split_comma s \<noteq> []"
  by (cases s) (auto split: list.splits)

lemma split_comma_append: "split_comma (s @ CHR '','' # t) = split_comma s @ split_comma t"
  by (induction s) (auto simp: Cons_eq_append_conv split: list.splits)

lemma forwarded_hops_append: "forwarded_hops (s @ CHR '','' # t) = forwarded_hops s @ forwarded_hops t"
  by (simp add: forwarded_hops_def split_comma_append)

text \<open>
  A client cannot choose the identity its login attempts are counted under: behind
  \<open>n\<close> trusted proxies, which appended at least \<open>n\<close> entries to the header, whatever the client
  itself put in front of them does not change the result.
\<close>

lemma spoofed_hops_ignored:
  assumes "trusted \<le> int (length (forwarded_hops appended))"
  shows "trusted_client_identity ip remote (spoofed @ CHR '','' # appended) trusted =
    trusted_client_identity ip remote appended trusted"
proof (cases "trusted \<le> 0")
  case True
  then show ?thesis by (simp add: trusted_client_identity_def)
next
  case False
  let ?a = "forwarded_hops appended" and ?s = "forwarded_hops spoofed"
  have ne: "?a \<noteq> []" using False assms by auto
  have "nat (int (length (?s @ ?a)) - (min trusted (int (length (?s @ ?a))) - 1) - 1) =
      length ?s + nat (int (length ?a) - (min trusted (int (length ?a)) - 1) - 1)"
    using False assms by auto
  then have "(?s @ ?a) ! nat (int (length (?s @ ?a)) - (min trusted (int (length (?s @ ?a))) - 1) - 1) =
      ?a ! nat (int (length ?a) - (min trusted (int (length ?a)) - 1) - 1)"
    by (simp only: nth_append_length_plus)
  then show ?thesis using False ne by (simp add: trusted_client_identity_def forwarded_hops_append Let_def)
qed

theorem spoofed_hops_ignored_witness:
  "trusted_client_identity Some ''10.0.0.9'' ''6.6.6.6, 1.2.3.4'' 1 = ''1.2.3.4''"
proof -
  have "trusted_client_identity Some ''10.0.0.9'' (''6.6.6.6'' @ CHR '','' # '' 1.2.3.4'') 1 =
      trusted_client_identity Some ''10.0.0.9'' '' 1.2.3.4'' 1"
    by (rule spoofed_hops_ignored) (code_simp)
  also have "\<dots> = ''1.2.3.4''" by code_simp
  finally show ?thesis by simp
qed

end
