(* ===== verification/Collection_Fields.thy ===== *)
theory Collection_Fields
  imports Database Texts
begin

text \<open>
  The fields of a collection (\<open>collection_fields.py\<close>): validation of a field draft, the
  contract a version freezes, the rule plan a version constrains, and the fields a compiled
  source shows again. A draft is a JSON value; what the store keeps is the list of
  \<open>field_def\<close> records it decodes to. A compiled specification and a rule plan are records of
  the keys these functions read; the mechanics of extraction are opaque texts. Texts that
  are not ASCII are replaced by English ones.
\<close>

subsection \<open>Validation of a draft\<close>

definition field_types :: "string list" where
  "field_types = [''string'', ''number'', ''integer'', ''boolean'', ''date'', ''datetime'', ''url'', ''html'', ''object'', ''array'']"

definition field_names :: "string list" where
  "field_names = [''key'', ''label'', ''type'', ''required'', ''identity'', ''fingerprint'', ''description'']"

definition has_keys :: "(string \<times> json) list \<Rightarrow> string list \<Rightarrow> bool" where
  "has_keys kvs names \<longleftrightarrow> set (map fst kvs) = set names"

definition is_letter :: "char \<Rightarrow> bool" where
  "is_letter c \<longleftrightarrow> is_upper c \<or> is_lower c"

text \<open>\<open>[A-Za-z][A-Za-z0-9_]{0,63}\<close>\<close>

definition field_key_ok :: "string \<Rightarrow> bool" where
  "field_key_ok k =
     (case k of
        [] \<Rightarrow> False
      | c # cs \<Rightarrow> is_letter c \<and> length cs \<le> 63 \<and> list_all (\<lambda>d. is_letter d \<or> is_digit d \<or> d = CHR ''_'') cs)"

definition json_bool :: "json \<Rightarrow> bool option" where
  "json_bool v = (case v of JBool b \<Rightarrow> Some b | _ \<Rightarrow> None)"

definition text_such_that :: "(string \<Rightarrow> bool) \<Rightarrow> json \<Rightarrow> bool" where
  "text_such_that P v = (case json_text v of None \<Rightarrow> False | Some s \<Rightarrow> P s)"

text \<open>The checks of one field, in the order of the loop body; \<open>seen\<close> are the keys before it.\<close>

definition field_error :: "string list \<Rightarrow> json \<Rightarrow> py_exc option" where
  "field_error seen field =
     (case field of
        JObj kvs \<Rightarrow>
          if \<not> has_keys kvs field_names then Some (ValueErr ''FIELD_ATTRIBUTES'')
          else if \<not> text_such_that (\<lambda>k. field_key_ok k \<and> k \<notin> set seen) (jget ''key'' kvs) then Some (ValueErr ''FIELD_KEY'')
          else if \<not> text_such_that (\<lambda>s. strip s \<noteq> [] \<and> length s \<le> 100) (jget ''label'' kvs) then Some (ValueErr ''FIELD_LABEL'')
          else if \<not> text_such_that (\<lambda>s. length s \<le> 2000) (jget ''description'' kvs) then Some (ValueErr ''FIELD_DESCRIPTION'')
          else if \<not> text_such_that (\<lambda>s. s \<in> set field_types) (jget ''type'' kvs) then Some (ValueErr ''FIELD_TYPE'')
          else if \<exists>name \<in> set [''required'', ''identity'', ''fingerprint'']. json_bool (jget name kvs) = None
          then Some (ValueErr ''FIELD_FLAGS'')
          else if json_bool (jget ''identity'' kvs) = Some True \<and> json_bool (jget ''required'' kvs) \<noteq> Some True
          then Some (ValueErr ''FIELD_IDENTITY'')
          else None
      | _ \<Rightarrow> Some (ValueErr ''FIELD_ATTRIBUTES''))"

definition field_key :: "json \<Rightarrow> string" where
  "field_key field = (case field of JObj kvs \<Rightarrow> (case json_text (jget ''key'' kvs) of None \<Rightarrow> [] | Some k \<Rightarrow> k) | _ \<Rightarrow> [])"

fun fields_error :: "string list \<Rightarrow> json list \<Rightarrow> py_exc option" where
  "fields_error seen [] = None"
| "fields_error seen (field # rest) =
     (case field_error seen field of
        Some e \<Rightarrow> Some e
      | None \<Rightarrow> fields_error (field_key field # seen) rest)"

definition validate_field_draft :: "json \<Rightarrow> py_exc option" where
  "validate_field_draft value =
     (case value of
        JObj kvs \<Rightarrow>
          if \<not> has_keys kvs [''fields''] then Some (ValueErr ''DRAFT_SHAPE'')
          else
            (case jget ''fields'' kvs of
               JArr vs \<Rightarrow> if 100 < length vs then Some (ValueErr ''DRAFT_SIZE'') else fields_error [] vs
             | _ \<Rightarrow> Some (ValueErr ''DRAFT_SIZE''))
      | _ \<Rightarrow> Some (ValueErr ''DRAFT_SHAPE''))"

subsection \<open>Fields and their documents\<close>

definition field_doc :: "field_def \<Rightarrow> json" where
  "field_doc f =
     JObj [(''key'', JStr (fd_key f)), (''label'', JStr (fd_label f)), (''type'', JStr (fd_type f)),
       (''required'', JBool (fd_required f)), (''identity'', JBool (fd_identity f)),
       (''fingerprint'', JBool (fd_fingerprint f)), (''description'', JStr (fd_description f))]"

definition draft_doc :: "field_def list \<Rightarrow> json" where
  "draft_doc fs = JObj [(''fields'', JArr (map field_doc fs))]"

definition decode_field :: "json \<Rightarrow> field_def option" where
  "decode_field v =
     (case v of
        JObj kvs \<Rightarrow>
          if \<not> has_keys kvs field_names then None
          else
            (case (json_text (jget ''key'' kvs), json_text (jget ''label'' kvs), json_text (jget ''type'' kvs),
                   json_bool (jget ''required'' kvs), json_bool (jget ''identity'' kvs),
                   json_bool (jget ''fingerprint'' kvs), json_text (jget ''description'' kvs)) of
               (Some k, Some l, Some t, Some r, Some i, Some p, Some d) \<Rightarrow>
                 Some \<lparr>fd_key = k, fd_label = l, fd_type = t, fd_required = r, fd_identity = i, fd_fingerprint = p,
                       fd_description = d\<rparr>
             | _ \<Rightarrow> None)
      | _ \<Rightarrow> None)"

definition decode_draft :: "json \<Rightarrow> field_def list option" where
  "decode_draft v =
     (case v of
        JObj kvs \<Rightarrow>
          if has_keys kvs [''fields''] then
            (case jget ''fields'' kvs of JArr vs \<Rightarrow> those (map decode_field vs) | _ \<Rightarrow> None)
          else None
      | _ \<Rightarrow> None)"

definition wf_field :: "field_def \<Rightarrow> bool" where
  "wf_field f \<longleftrightarrow> field_key_ok (fd_key f) \<and> strip (fd_label f) \<noteq> [] \<and> length (fd_label f) \<le> 100 \<and>
     length (fd_description f) \<le> 2000 \<and> fd_type f \<in> set field_types \<and> (fd_identity f \<longrightarrow> fd_required f)"

definition wf_fields :: "field_def list \<Rightarrow> bool" where
  "wf_fields fs \<longleftrightarrow> length fs \<le> 100 \<and> distinct (map fd_key fs) \<and> list_all wf_field fs"

lemma text_such_that_iff: "text_such_that P v \<longleftrightarrow> (\<exists>s. json_text v = Some s \<and> P s)"
  by (cases "json_text v") (simp_all add: text_such_that_def)

lemma field_error_None_iff:
  "field_error seen v = None \<longleftrightarrow> (\<exists>f. decode_field v = Some f \<and> wf_field f \<and> fd_key f \<notin> set seen)"
proof (cases v)
  case (JObj kvs)
  show ?thesis
  proof (cases "has_keys kvs field_names")
    case True
    have err: "field_error seen v = None \<longleftrightarrow>
        text_such_that (\<lambda>k. field_key_ok k \<and> k \<notin> set seen) (jget ''key'' kvs) \<and>
        text_such_that (\<lambda>s. strip s \<noteq> [] \<and> length s \<le> 100) (jget ''label'' kvs) \<and>
        text_such_that (\<lambda>s. length s \<le> 2000) (jget ''description'' kvs) \<and>
        text_such_that (\<lambda>s. s \<in> set field_types) (jget ''type'' kvs) \<and>
        json_bool (jget ''required'' kvs) \<noteq> None \<and> json_bool (jget ''identity'' kvs) \<noteq> None \<and>
        json_bool (jget ''fingerprint'' kvs) \<noteq> None \<and>
        (json_bool (jget ''identity'' kvs) = Some True \<longrightarrow> json_bool (jget ''required'' kvs) = Some True)"
      using True by (simp add: field_error_def JObj)
    show ?thesis unfolding err
      using True
      by (auto simp: decode_field_def JObj wf_field_def text_such_that_iff split: option.splits)
  next
    case False
    then show ?thesis by (simp add: field_error_def decode_field_def JObj)
  qed
qed (simp_all add: field_error_def decode_field_def)

lemma decode_field_key: "decode_field v = Some f \<Longrightarrow> field_key v = fd_key f"
  by (auto simp: decode_field_def field_key_def split: json.splits option.splits if_splits)

lemma fields_error_None_iff:
  "fields_error seen vs = None \<longleftrightarrow>
     (\<exists>fs. those (map decode_field vs) = Some fs \<and> list_all wf_field fs \<and> distinct (map fd_key fs) \<and>
        set (map fd_key fs) \<inter> set seen = {})"
proof (induction vs arbitrary: seen)
  case Nil
  then show ?case by simp
next
  case (Cons v vs)
  show ?case
  proof (cases "decode_field v")
    case None
    then have "field_error seen v \<noteq> None" by (simp add: field_error_None_iff)
    then show ?thesis by (auto simp: None)
  next
    case (Some f)
    have iff: "field_error seen v = None \<longleftrightarrow> wf_field f \<and> fd_key f \<notin> set seen"
      by (simp add: field_error_None_iff Some)
    show ?thesis
    proof (cases "field_error seen v")
      case None
      then have fe: "fields_error seen (v # vs) = fields_error (fd_key f # seen) vs"
        by (simp add: decode_field_key [OF Some])
      show ?thesis unfolding fe Cons.IH using None iff by (auto simp: Some)
    next
      case (Some e)
      then show ?thesis using iff by (auto simp: \<open>decode_field v = Some f\<close>)
    qed
  qed
qed

lemma those_length: "those xs = Some ys \<Longrightarrow> length ys = length xs"
  by (induction xs arbitrary: ys) (auto split: option.splits)

text \<open>
  C26. The validation of a field draft is exact: it accepts a JSON value exactly when the
  value decodes to at most 100 fields with distinct, well-formed keys, a label, a known type,
  bounded texts, and no optional field used as identity. Every accepted draft is typed.
\<close>

theorem validate_field_draft_exact:
  "validate_field_draft v = None \<longleftrightarrow> (\<exists>fs. decode_draft v = Some fs \<and> wf_fields fs)"
proof (cases v)
  case (JObj kvs)
  show ?thesis
  proof (cases "jget ''fields'' kvs")
    case (JArr vs)
    have "length fs = length vs" if "those (map decode_field vs) = Some fs" for fs
      using those_length [OF that] by simp
    then show ?thesis
      by (auto simp: validate_field_draft_def decode_draft_def wf_fields_def fields_error_None_iff JObj JArr)
  qed (simp_all add: validate_field_draft_def decode_draft_def JObj)
qed (simp_all add: validate_field_draft_def decode_draft_def)

lemma has_keys_fields [simp]: "has_keys [(''fields'', v)] [''fields'']"
  by (simp add: has_keys_def)

lemma decode_field_doc [simp]: "decode_field (field_doc f) = Some f"
  by (simp add: decode_field_def field_doc_def has_keys_def field_names_def jget_def json_text_def json_bool_def insert_commute)

lemma those_Some [simp]: "those (map Some xs) = Some xs"
  by (induction xs) simp_all

lemma decode_draft_doc [simp]: "decode_draft (draft_doc fs) = Some fs"
  by (simp add: decode_draft_def draft_doc_def jget_def comp_def)

lemma validate_draft_doc: "validate_field_draft (draft_doc fs) = None \<longleftrightarrow> wf_fields fs"
  by (simp add: validate_field_draft_exact)

subsection \<open>The contract of a version\<close>

definition json_schema_type :: "string \<Rightarrow> json" where
  "json_schema_type value_type =
     (if value_type = ''json''
      then JArr (map JStr [''object'', ''array'', ''string'', ''number'', ''boolean'', ''null''])
      else if value_type \<in> set [''integer'', ''number'', ''boolean'', ''object'', ''array''] then JStr value_type
      else JStr ''string'')"

definition schema_format :: "string \<Rightarrow> string option" where
  "schema_format t = map_of [(''date'', ''date''), (''datetime'', ''date-time''), (''url'', ''uri'')] t"

definition property_schema :: "field_def \<Rightarrow> json" where
  "property_schema f =
     (let t = json_schema_type (fd_type f)
      in JObj ([(''type'', if fd_required f then t else JArr [t, JStr ''null'']), (''title'', JStr (fd_label f))] @
           (if fd_required f \<and> t = JStr ''string'' then [(''minLength'', JNum 1)] else []) @
           (case schema_format (fd_type f) of None \<Rightarrow> [] | Some x \<Rightarrow> [(''format'', JStr x)]) @
           (if fd_description f = [] then [] else [(''description'', JStr (fd_description f))])))"

definition item_schema :: "field_def list \<Rightarrow> json" where
  "item_schema fs =
     JObj [(''$schema'', JStr ''https://json-schema.org/draft/2020-12/schema''), (''type'', JStr ''object''),
       (''properties'', JObj (map (\<lambda>f. (fd_key f, property_schema f)) fs)),
       (''required'', JArr (map (\<lambda>f. JStr (fd_key f)) (filter fd_required fs))),
       (''additionalProperties'', JBool False)]"

definition contract_doc :: "json \<Rightarrow> string list \<Rightarrow> string list \<Rightarrow> json" where
  "contract_doc schema identity fingerprint =
     JObj [(''normalizedItemSchema'', schema), (''identityFields'', JArr (map JStr identity)),
       (''fingerprintFields'', JArr (map JStr fingerprint))]"

text \<open>The result is the frozen contract; its fields are the given ones.\<close>

definition build_collection_version_contract :: "hasher \<Rightarrow> field_def list \<Rightarrow> py_exc + field_contract" where
  "build_collection_version_contract sha fs =
     (case validate_field_draft (draft_doc fs) of
        Some e \<Rightarrow> Inl e
      | None \<Rightarrow>
          if fs = [] then Inl (ValueErr ''VERSION_EMPTY'')
          else
            (let identity = map fd_key (filter fd_identity fs);
                 fingerprint = map fd_key (filter fd_fingerprint fs);
                 schema = item_schema fs
             in if \<not> (1 \<le> length identity \<and> length identity \<le> 16) then Inl (ValueErr ''VERSION_IDENTITY'')
                else if \<not> (1 \<le> length fingerprint \<and> length fingerprint \<le> 64) then Inl (ValueErr ''VERSION_FINGERPRINT'')
                else Inr \<lparr>fc_schema = schema, fc_identity = identity, fc_fingerprint = fingerprint,
                           fc_digest = sha (contract_doc schema identity fingerprint)\<rparr>))"

subsection \<open>Rule plans and compiled specifications\<close>

text \<open>
  The rule of one field: \<open>fr_body\<close> holds the selectors and transformations. A rule without
  a label (\<open>None\<close>) takes the title of the schema.
\<close>

record field_rule =
  fr_label :: "string option"
  fr_required :: bool
  fr_value_type :: string
  fr_on_error :: string
  fr_datetime_format :: "string option"
  fr_timezone :: "string option"
  fr_body :: string

type_synonym field_rules = "(string \<times> field_rule) list"

record rule_plan =
  rp_mode :: string
  rp_list :: field_rules
  rp_detail :: field_rules
  rp_bindings :: "(string \<times> string) list"
  rp_identity :: "string list"
  rp_fingerprint :: "string list"

record gather_spec =
  gs_version_id :: "string option"
  gs_schema :: json
  gs_identity :: "string list"
  gs_fingerprint :: "string list"
  gs_quality :: json
  gs_list :: field_rules
  gs_detail :: field_rules

text \<open>\<open>text.split(".", 1)[-1]\<close>\<close>

definition after_dot :: "string \<Rightarrow> string" where
  "after_dot s = (case dropWhile (\<lambda>c. c \<noteq> CHR ''.'') s of [] \<Rightarrow> s | _ # rest \<Rightarrow> rest)"

definition rule_value_type :: "string \<Rightarrow> string" where
  "rule_value_type t =
     (case map_of [(''date'', ''string''), (''object'', ''json''), (''array'', ''json'')] t of None \<Rightarrow> t | Some x \<Rightarrow> x)"

definition constrain_rule :: "field_def \<Rightarrow> field_rule \<Rightarrow> field_rule" where
  "constrain_rule f r =
     (let r1 = r\<lparr>fr_label := Some (take 64 (fd_label f)), fr_required := fd_required f,
                 fr_value_type := rule_value_type (fd_type f),
                 fr_on_error := (if fd_required f then ''reject_item'' else ''null'')\<rparr>
      in if fd_type f = ''datetime''
         then r1\<lparr>fr_datetime_format := Some (case fr_datetime_format r1 of None \<Rightarrow> ''RFC3339'' | Some x \<Rightarrow> x),
                 fr_timezone := Some (case fr_timezone r1 of None \<Rightarrow> ''UTC'' | Some x \<Rightarrow> x)\<rparr>
         else r1\<lparr>fr_datetime_format := None, fr_timezone := None\<rparr>)"

text \<open>The date of a listing that no field of the version holds stays as a field of its own.\<close>

definition keep_list_date :: "(string \<Rightarrow> field_def option) \<Rightarrow> rule_plan \<Rightarrow> rule_plan" where
  "keep_list_date fields_of plan =
     (let date_binding = (case map_of (rp_bindings plan) ''listPublishedAt'' of None \<Rightarrow> [] | Some b \<Rightarrow> b)
      in if rp_mode plan = ''list_detail'' \<and> starts_with ''list.'' date_binding
         then
           (let date_key = after_dot date_binding
            in (case map_of (rp_list plan) date_key of
                  Some r \<Rightarrow>
                    if fields_of date_key = None
                    then plan\<lparr>rp_list := dict_set ''listPublishedAt''
                                 (r\<lparr>fr_label := Some ''list date'', fr_required := False, fr_value_type := ''string'',
                                    fr_on_error := ''null''\<rparr>) (rp_list plan),
                              rp_bindings := dict_set ''listPublishedAt'' ''list.listPublishedAt'' (rp_bindings plan)\<rparr>
                    else plan
                | None \<Rightarrow> plan))
         else plan)"

text \<open>One stage: a field of the version takes its meaning, another is dropped unless it is kept.\<close>

definition constrain_stage :: "(string \<Rightarrow> field_def option) \<Rightarrow> (string \<Rightarrow> bool) \<Rightarrow> field_rules \<Rightarrow> field_rules" where
  "constrain_stage fields_of kept rules =
     concat (map (\<lambda>(k, r). case fields_of k of
                              Some f \<Rightarrow> [(k, constrain_rule f r)]
                            | None \<Rightarrow> if kept k then [(k, r)] else []) rules)"

definition constrain_rule_plan :: "rule_plan \<Rightarrow> field_def list \<Rightarrow> field_contract \<Rightarrow> py_exc + rule_plan" where
  "constrain_rule_plan plan0 version_fields contract =
     (let fields_of = map_of (map (\<lambda>f. (fd_key f, f)) version_fields);
          plan = keep_list_date fields_of plan0;
          detailed = (rp_mode plan = ''list_detail'');
          available = map fst (rp_list plan) @ (if detailed then map fst (rp_detail plan) else []);
          missing = filter (\<lambda>f. fd_key f \<notin> set available) version_fields;
          kept = (\<lambda>k. detailed \<and> (k = ''detailUrl'' \<or> (k = ''listPublishedAt'' \<and>
                    map_of (rp_bindings plan) ''listPublishedAt'' = Some ''list.listPublishedAt'')))
      in if missing \<noteq> [] then Inl (ValueErr ''FROZEN_FIELDS_MISSING'')
         else Inr (plan\<lparr>rp_list := constrain_stage fields_of kept (rp_list plan),
                        rp_detail := (if detailed then constrain_stage fields_of (\<lambda>_. False) (rp_detail plan) else rp_detail plan),
                        rp_identity := fc_identity contract, rp_fingerprint := fc_fingerprint contract,
                        rp_bindings := filter (\<lambda>(role, binding). fields_of (after_dot binding) \<noteq> None \<or>
                          (binding \<in> {''list.detailUrl'', ''list.listPublishedAt''} \<and> detailed)) (rp_bindings plan)\<rparr>))"

subsection \<open>The fields of a compiled source\<close>

record source_contract =
  sc_state :: string
  sc_rule_version :: "string option"
  sc_fields :: "field_def list"
  sc_schema :: json
  sc_quality :: json

definition declared_type :: "(string \<times> json) list \<Rightarrow> string" where
  "declared_type definition =
     (case jget ''type'' definition of
        JStr t \<Rightarrow> t
      | JArr vs \<Rightarrow> (case find (\<lambda>t. t \<noteq> ''null'') (texts_of (JArr vs)) of None \<Rightarrow> ''string'' | Some t \<Rightarrow> t)
      | _ \<Rightarrow> ''string'')"

definition projected_type :: "string option \<Rightarrow> field_rule option \<Rightarrow> (string \<times> json) list \<Rightarrow> string" where
  "projected_type version_id r definition =
     (let schema_type = declared_type definition;
          rule_type = (case r of None \<Rightarrow> schema_type | Some r \<Rightarrow> fr_value_type r);
          value_type =
            (if starts_with ''colver_'' (case version_id of None \<Rightarrow> [] | Some v \<Rightarrow> v)
             then
               (let semantic_type = (if schema_type = ''string'' \<and> rule_type = ''html'' then ''html'' else schema_type)
                in (case map_of [(''date'', ''date''), (''date-time'', ''datetime''), (''uri'', ''url'')] (text_of (jget ''format'' definition)) of
                      None \<Rightarrow> semantic_type | Some t \<Rightarrow> t))
             else rule_type)
      in if value_type \<in> set field_types then value_type else schema_type)"

definition first_text :: "string list \<Rightarrow> string" where
  "first_text ts = (case find (\<lambda>t. t \<noteq> []) ts of None \<Rightarrow> [] | Some t \<Rightarrow> t)"

definition projected_field :: "gather_spec \<Rightarrow> string \<Rightarrow> (string \<times> json) list \<Rightarrow> field_def" where
  "projected_field spec key definition =
     (let r = (case map_of (gs_detail spec) key of Some d \<Rightarrow> Some d | None \<Rightarrow> map_of (gs_list spec) key);
          label = (case r of None \<Rightarrow> [] | Some r \<Rightarrow> (case fr_label r of None \<Rightarrow> [] | Some l \<Rightarrow> l))
      in \<lparr>fd_key = key, fd_label = first_text [label, text_of (jget ''title'' definition), key],
          fd_type = projected_type (gs_version_id spec) r definition,
          fd_required = (key \<in> set (texts_of (jget ''required'' (obj_of (gs_schema spec))))),
          fd_identity = (key \<in> set (gs_identity spec)), fd_fingerprint = (key \<in> set (gs_fingerprint spec)),
          fd_description = text_of (jget ''description'' definition)\<rparr>)"

text \<open>
  \<open>active\<close> is the published rule of the source, \<open>candidate\<close> the id and specification of its
  candidate, \<open>version\<close> the specification of the published rule version.
\<close>

definition project_source_contract ::
  "string option \<Rightarrow> string option \<times> gather_spec option \<Rightarrow> gather_spec option \<Rightarrow> source_contract" where
  "project_source_contract active candidate version =
     (let spec = (if active \<noteq> None then version else snd candidate);
          state = (case spec of
                     Some _ \<Rightarrow> (if active \<noteq> None then ''published'' else ''candidate'')
                   | None \<Rightarrow> (if active \<noteq> None then ''unavailable'' else ''empty''));
          rule_version = (if active \<noteq> None then active else fst candidate)
      in (case spec of
            None \<Rightarrow> \<lparr>sc_state = state, sc_rule_version = rule_version, sc_fields = [], sc_schema = JObj [], sc_quality = JObj []\<rparr>
          | Some s \<Rightarrow>
              \<lparr>sc_state = state, sc_rule_version = rule_version,
               sc_fields = map (\<lambda>(k, d). projected_field s k (obj_of d)) (obj_of (jget ''properties'' (obj_of (gs_schema s)))),
               sc_schema = gs_schema s, sc_quality = gs_quality s\<rparr>))"

subsection \<open>From a frozen version to the compiled source and back\<close>

text \<open>\<open>_execution_field\<close> (\<open>harvest.py\<close>) for a rule that has a label key.\<close>

definition execution_field :: "field_rule \<Rightarrow> field_rule" where
  "execution_field r =
     (case fr_label r of
        None \<Rightarrow> r
      | Some l \<Rightarrow> (let label = take 64 (strip l) in r\<lparr>fr_label := (if label = [] then None else Some label)\<rparr>))"

text \<open>
  What \<open>build_gather_spec_from_plan\<close> (\<open>harvest.py\<close>) writes for the keys read here when the
  source has a frozen version: the rules of the constrained plan, and the version's contract.
\<close>

definition frozen_spec :: "rule_plan \<Rightarrow> string \<Rightarrow> field_contract \<Rightarrow> json \<Rightarrow> gather_spec" where
  "frozen_spec plan version_id contract quality =
     \<lparr>gs_version_id = Some version_id, gs_schema = fc_schema contract, gs_identity = fc_identity contract,
      gs_fingerprint = fc_fingerprint contract, gs_quality = quality,
      gs_list = map (apsnd execution_field) (rp_list plan),
      gs_detail = (if rp_mode plan = ''list_detail'' then map (apsnd execution_field) (rp_detail plan) else [])\<rparr>"

lemma map_of_constrain_stage:
  "map_of (constrain_stage fields_of kept rules) k =
     (case fields_of k of
        Some f \<Rightarrow> map_option (constrain_rule f) (map_of rules k)
      | None \<Rightarrow> if kept k then map_of rules k else None)"
  by (induction rules) (auto simp: constrain_stage_def split: option.splits)

lemma map_of_fields:
  "distinct (map fd_key fs) \<Longrightarrow> f \<in> set fs \<Longrightarrow> map_of (map (\<lambda>f. (fd_key f, f)) fs) (fd_key f) = Some f"
  by (rule map_of_is_SomeI) (auto simp: comp_def)

lemma map_of_apsnd: "map_of (map (apsnd g) kvs) k = map_option g (map_of kvs k)"
  by (induction kvs) auto

text \<open>A constrained plan has for every field of the version a rule with the meaning of the field.\<close>

lemma constrained_rule:
  assumes con: "constrain_rule_plan plan0 fs c = Inr plan" and dist: "distinct (map fd_key fs)" and f: "f \<in> set fs"
  obtains r where "(case map_of (gs_detail (frozen_spec plan v c q)) (fd_key f) of
      Some d \<Rightarrow> Some d | None \<Rightarrow> map_of (gs_list (frozen_spec plan v c q)) (fd_key f)) = Some (execution_field (constrain_rule f r))"
proof -
  let ?fo = "map_of (map (\<lambda>f. (fd_key f, f)) fs)"
  let ?p = "keep_list_date ?fo plan0"
  let ?detailed = "rp_mode ?p = ''list_detail''"
  have fo: "?fo (fd_key f) = Some f" using dist f by (rule map_of_fields)
  obtain kept where lst: "rp_list plan = constrain_stage ?fo kept (rp_list ?p)"
    and det: "rp_detail plan = (if ?detailed then constrain_stage ?fo (\<lambda>_. False) (rp_detail ?p) else rp_detail ?p)"
    and mode: "rp_mode plan = rp_mode ?p"
    and all: "filter (\<lambda>f. fd_key f \<notin> set (map fst (rp_list ?p) @ (if ?detailed then map fst (rp_detail ?p) else []))) fs = []"
    using con by (auto simp: constrain_rule_plan_def Let_def split: if_splits)
  have "fd_key f \<in> set (map fst (rp_list ?p) @ (if ?detailed then map fst (rp_detail ?p) else []))"
    using all f unfolding filter_empty_conv by blast
  then have some: "(?detailed \<and> map_of (rp_detail ?p) (fd_key f) \<noteq> None) \<or> map_of (rp_list ?p) (fd_key f) \<noteq> None"
    by (auto simp: map_of_eq_None_iff split: if_splits)
  have gl: "map_of (gs_list (frozen_spec plan v c q)) (fd_key f) =
      map_option (\<lambda>r. execution_field (constrain_rule f r)) (map_of (rp_list ?p) (fd_key f))"
    by (simp add: frozen_spec_def map_of_apsnd lst map_of_constrain_stage fo option.map_comp comp_def)
  have gd: "map_of (gs_detail (frozen_spec plan v c q)) (fd_key f) = (if ?detailed
      then map_option (\<lambda>r. execution_field (constrain_rule f r)) (map_of (rp_detail ?p) (fd_key f)) else None)"
    by (simp add: frozen_spec_def map_of_apsnd det mode map_of_constrain_stage fo option.map_comp comp_def)
  have "\<exists>r. (case map_of (gs_detail (frozen_spec plan v c q)) (fd_key f) of
      Some d \<Rightarrow> Some d | None \<Rightarrow> map_of (gs_list (frozen_spec plan v c q)) (fd_key f)) = Some (execution_field (constrain_rule f r))"
    unfolding gl gd using some by (auto split: option.splits)
  then show ?thesis using that by blast
qed

lemma obj_of_property_schema:
  "obj_of (property_schema f) =
     (let t = json_schema_type (fd_type f)
      in [(''type'', if fd_required f then t else JArr [t, JStr ''null'']), (''title'', JStr (fd_label f))] @
           (if fd_required f \<and> t = JStr ''string'' then [(''minLength'', JNum 1)] else []) @
           (case schema_format (fd_type f) of None \<Rightarrow> [] | Some x \<Rightarrow> [(''format'', JStr x)]) @
           (if fd_description f = [] then [] else [(''description'', JStr (fd_description f))]))"
  by (simp add: property_schema_def obj_of_def Let_def)

lemma jget_append: "jget k (xs @ ys) = (case map_of xs k of Some v \<Rightarrow> v | None \<Rightarrow> jget k ys)"
  by (simp add: jget_def map_add_def split: option.splits)

lemma property_schema_keys:
  "jget ''title'' (obj_of (property_schema f)) = JStr (fd_label f)"
  "text_of (jget ''description'' (obj_of (property_schema f))) = fd_description f"
  "text_of (jget ''format'' (obj_of (property_schema f))) = (case schema_format (fd_type f) of None \<Rightarrow> [] | Some x \<Rightarrow> x)"
  "jget ''type'' (obj_of (property_schema f)) =
     (if fd_required f then json_schema_type (fd_type f) else JArr [json_schema_type (fd_type f), JStr ''null''])"
  by (auto simp: obj_of_property_schema Let_def jget_def text_of_def json_text_def split: option.splits)

lemma rule_types:
  "fr_value_type (execution_field (constrain_rule f r)) = rule_value_type (fd_type f)"
  by (simp add: execution_field_def constrain_rule_def Let_def split: option.splits)

definition plain_type :: "string \<Rightarrow> string" where
  "plain_type t = (if t \<in> set [''integer'', ''number'', ''boolean'', ''object'', ''array''] then t else ''string'')"

lemma json_schema_type_plain: "t \<in> set field_types \<Longrightarrow> json_schema_type t = JStr (plain_type t)"
  by (auto simp: json_schema_type_def plain_type_def field_types_def)

lemma declared_type_plain:
  assumes "fd_type f \<in> set field_types"
  shows "declared_type (obj_of (property_schema f)) = plain_type (fd_type f)"
proof -
  have "plain_type (fd_type f) \<noteq> ''null''" by (simp add: plain_type_def)
  then show ?thesis
    using json_schema_type_plain [OF assms]
    by (simp add: declared_type_def property_schema_keys texts_of_def text_of_def json_text_def)
qed

definition semantic_type :: "string \<Rightarrow> string \<Rightarrow> string \<Rightarrow> string" where
  "semantic_type schema_type rule_type format =
     (let semantic_type = (if schema_type = ''string'' \<and> rule_type = ''html'' then ''html'' else schema_type);
          value_type = (case map_of [(''date'', ''date''), (''date-time'', ''datetime''), (''uri'', ''url'')] format of
                          None \<Rightarrow> semantic_type | Some t \<Rightarrow> t)
      in if value_type \<in> set field_types then value_type else schema_type)"

lemma semantic_types_round_trip:
  "list_all (\<lambda>t. semantic_type (plain_type t) (rule_value_type t) (case schema_format t of None \<Rightarrow> [] | Some x \<Rightarrow> x) = t)
     field_types"
  by (simp add: field_types_def semantic_type_def plain_type_def rule_value_type_def schema_format_def Let_def)

lemma projected_type_of_field:
  assumes "fd_type f \<in> set field_types" and "starts_with ''colver_'' v"
  shows "projected_type (Some v) (Some (execution_field (constrain_rule f r))) (obj_of (property_schema f)) = fd_type f"
proof -
  have "projected_type (Some v) (Some (execution_field (constrain_rule f r))) (obj_of (property_schema f)) =
      semantic_type (plain_type (fd_type f)) (rule_value_type (fd_type f)) (case schema_format (fd_type f) of None \<Rightarrow> [] | Some x \<Rightarrow> x)"
    unfolding projected_type_def declared_type_plain [OF assms(1)] property_schema_keys rule_types semantic_type_def Let_def
    using assms(2) by (simp only: option.case if_True rule_types)
  also have "\<dots> = fd_type f"
    using semantic_types_round_trip assms(1) by (simp only: list_all_iff)
  finally show ?thesis .
qed

text \<open>The label a compiled source shows: stripped and cut to 64 characters, or the title.\<close>

definition shown_label :: "string \<Rightarrow> string" where
  "shown_label l = first_text [take 64 (strip (take 64 l)), l]"

lemma execution_label:
  "(case fr_label (execution_field (constrain_rule f r)) of None \<Rightarrow> [] | Some l \<Rightarrow> l) = take 64 (strip (take 64 (fd_label f)))"
  by (simp add: execution_field_def constrain_rule_def Let_def)

lemma wf_field_label: "wf_field f \<Longrightarrow> fd_label f \<noteq> []"
  by (auto simp: wf_field_def strip_def strip_chars_def)

lemma texts_of_texts [simp]: "texts_of (JArr (map (\<lambda>f. JStr (g f)) xs)) = map g xs"
  by (simp add: texts_of_def text_of_def json_text_def comp_def)

lemma text_of_JStr [simp]: "text_of (JStr s) = s"
  by (simp add: text_of_def json_text_def)

lemma item_schema_keys:
  "jget ''properties'' (obj_of (item_schema fs)) = JObj (map (\<lambda>f. (fd_key f, property_schema f)) fs)"
  "jget ''required'' (obj_of (item_schema fs)) = JArr (map (\<lambda>f. JStr (fd_key f)) (filter fd_required fs))"
  by (simp_all add: item_schema_def obj_of_def jget_def)

lemma key_of_flagged:
  "distinct (map fd_key fs) \<Longrightarrow> f \<in> set fs \<Longrightarrow> fd_key f \<in> fd_key ` {x \<in> set fs. P x} \<longleftrightarrow> P f"
  by (auto simp: distinct_map dest: inj_onD)

lemma projected_field_of_version:
  assumes wf: "wf_fields fs" and c: "build_collection_version_contract sha fs = Inr c"
    and plan: "constrain_rule_plan plan0 fs c = Inr plan" and v: "starts_with ''colver_'' v" and f: "f \<in> set fs"
  shows "projected_field (frozen_spec plan v c q) (fd_key f) (obj_of (property_schema f)) =
    f\<lparr>fd_label := shown_label (fd_label f)\<rparr>"
proof -
  have dist: "distinct (map fd_key fs)" and wff: "wf_field f" using wf f by (auto simp: wf_fields_def list_all_iff)
  obtain r where r: "(case map_of (gs_detail (frozen_spec plan v c q)) (fd_key f) of
      Some d \<Rightarrow> Some d | None \<Rightarrow> map_of (gs_list (frozen_spec plan v c q)) (fd_key f)) = Some (execution_field (constrain_rule f r))"
    using constrained_rule [OF plan dist f] by metis
  have c': "fc_schema c = item_schema fs" "fc_identity c = map fd_key (filter fd_identity fs)"
    "fc_fingerprint c = map fd_key (filter fd_fingerprint fs)"
    using c by (auto simp: build_collection_version_contract_def Let_def split: option.splits if_splits)
  have spec: "gs_schema (frozen_spec plan v c q) = item_schema fs" "gs_version_id (frozen_spec plan v c q) = Some v"
    "gs_identity (frozen_spec plan v c q) = map fd_key (filter fd_identity fs)"
    "gs_fingerprint (frozen_spec plan v c q) = map fd_key (filter fd_fingerprint fs)"
    by (simp_all add: frozen_spec_def c')
  have ty: "projected_type (Some v) (Some (execution_field (constrain_rule f r))) (obj_of (property_schema f)) = fd_type f"
    using wff v by (intro projected_type_of_field) (simp_all add: wf_field_def)
  have lab: "first_text [take 64 (strip (take 64 (fd_label f))), fd_label f, fd_key f] = shown_label (fd_label f)"
    using wf_field_label [OF wff] by (simp add: first_text_def shown_label_def)
  show ?thesis
    unfolding projected_field_def r Let_def spec option.case(2) execution_label ty item_schema_keys property_schema_keys
    using dist f by (simp add: lab key_of_flagged)
qed

text \<open>
  C16. Publishing a version, constraining the model's rule plan by it and compiling loses
  nothing: the fields shown for the compiled source are the fields of the version, in order,
  with key, type, flags and description as drafted; a label shows its first 64 characters,
  without surrounding spaces, or as drafted when only spaces would remain.
\<close>

theorem published_fields_round_trip:
  assumes "build_collection_version_contract sha fs = Inr c" and "constrain_rule_plan plan0 fs c = Inr plan"
    and "starts_with ''colver_'' v"
  shows "sc_fields (project_source_contract (Some rule) candidate (Some (frozen_spec plan v c quality))) =
    map (\<lambda>f. f\<lparr>fd_label := shown_label (fd_label f)\<rparr>) fs"
proof -
  have wf: "wf_fields fs"
    using assms(1) validate_draft_doc [of fs] by (auto simp: build_collection_version_contract_def split: option.splits)
  have "fc_schema c = item_schema fs"
    using assms(1) by (auto simp: build_collection_version_contract_def Let_def split: option.splits if_splits)
  then have "sc_fields (project_source_contract (Some rule) candidate (Some (frozen_spec plan v c quality))) =
      map (\<lambda>f. projected_field (frozen_spec plan v c quality) (fd_key f) (obj_of (property_schema f))) fs"
    by (simp add: project_source_contract_def Let_def frozen_spec_def item_schema_keys obj_of_def [of "JObj _"] comp_def)
  also have "\<dots> = map (\<lambda>f. f\<lparr>fd_label := shown_label (fd_label f)\<rparr>) fs"
    using projected_field_of_version [OF wf assms] by (intro map_cong refl)
  finally show ?thesis .
qed

definition example_fields :: "field_def list" where
  "example_fields =
     [\<lparr>fd_key = ''title'', fd_label = ''Title'', fd_type = ''string'', fd_required = True, fd_identity = True,
       fd_fingerprint = True, fd_description = []\<rparr>,
      \<lparr>fd_key = ''body'', fd_label = ''Body'', fd_type = ''html'', fd_required = False, fd_identity = False,
       fd_fingerprint = False, fd_description = ''text''\<rparr>]"

definition example_rule_of :: "string \<Rightarrow> field_rule" where
  "example_rule_of body = \<lparr>fr_label = None, fr_required = False, fr_value_type = ''string'', fr_on_error = ''null'',
     fr_datetime_format = None, fr_timezone = None, fr_body = body\<rparr>"

definition example_plan :: rule_plan where
  "example_plan = \<lparr>rp_mode = ''list_page'', rp_list = [(''body'', example_rule_of ''css:p''), (''title'', example_rule_of ''css:a''),
     (''noise'', example_rule_of ''css:b'')], rp_detail = [], rp_bindings = [], rp_identity = [], rp_fingerprint = []\<rparr>"

lemma example_fields_wf: "wf_fields example_fields"
  by (simp add: wf_fields_def wf_field_def example_fields_def field_key_ok_def is_letter_def is_upper_def is_lower_def
      strip_def strip_chars_def is_space_def field_types_def is_digit_def less_eq_char_def)

theorem published_fields_round_trip_witness:
  "\<exists>c plan. build_collection_version_contract (\<lambda>_. ''d'') example_fields = Inr c \<and>
     constrain_rule_plan example_plan example_fields c = Inr plan \<and>
     sc_fields (project_source_contract (Some ''rule'') (None, None) (Some (frozen_spec plan ''colver_a'' c JNull))) = example_fields"
proof -
  have "\<exists>c. build_collection_version_contract (\<lambda>_. ''d'') example_fields = Inr c"
    using example_fields_wf validate_draft_doc [of example_fields]
    by (simp add: build_collection_version_contract_def example_fields_def Let_def)
  then obtain c where c: "build_collection_version_contract (\<lambda>_. ''d'') example_fields = Inr c" by blast
  have "\<exists>plan. constrain_rule_plan example_plan example_fields c = Inr plan"
    by (simp add: constrain_rule_plan_def keep_list_date_def example_plan_def example_fields_def Let_def)
  then obtain plan where plan: "constrain_rule_plan example_plan example_fields c = Inr plan" by blast
  have "shown_label ''Title'' = ''Title''" "shown_label ''Body'' = ''Body''" by code_simp+
  then have "map (\<lambda>f. f\<lparr>fd_label := shown_label (fd_label f)\<rparr>) example_fields = example_fields"
    by (simp add: example_fields_def)
  moreover have v: "starts_with ''colver_'' ''colver_a''" by (simp add: starts_with_def)
  ultimately have "sc_fields (project_source_contract (Some ''rule'') (None, None) (Some (frozen_spec plan ''colver_a'' c JNull))) = example_fields"
    by (simp only: published_fields_round_trip [OF c plan v])
  with c plan show ?thesis by blast
qed

end
