(* ===== verification/Collections.thy ===== *)
theory Collections
  imports Receipts Policies Schedules Collection_Fields
begin

text \<open>
  Collections (requirements): their documents and published versions, the reviewed commands
  on them, and the creation of a source in a collection (\<open>Store\<close> in \<open>store.py\<close>). Random parts
  of ids are arguments. The embedded copy of the active version in a collection's document is
  reduced to its summary, which every read replaces by the one of the version's row.
  The JSON values of documents, which only digests and responses use, and the compiled
  specification inside a stored candidate or rule are a parameter (\<open>documents\<close>).
\<close>

subsection \<open>Reading\<close>

record collection_view =
  cw_data :: collection
  cw_sources :: nat
  cw_published :: nat

record documents =
  doc_collector :: "collector \<Rightarrow> json"
  doc_collection :: "collection_view \<Rightarrow> json"
  doc_version :: "collection_version \<Rightarrow> json"
  doc_spec :: "json \<Rightarrow> gather_spec option"

definition default_collection_version :: string where
  "default_collection_version = ''tender_notice_v4''"

text \<open>\<open>ORDER BY created_at, id\<close> of live sources.\<close>

definition live_rows :: "db \<Rightarrow> collector_row list" where
  "live_rows db = filter (\<lambda>r. \<not> is_deleted db (colr_id r)) (t_collectors db)"

definition collection_sources :: "db \<Rightarrow> string \<Rightarrow> collector list" where
  "collection_sources db cid =
     map colr_data (sort_key (\<lambda>r. iso_key (colr_created r)) (sort_key colr_id
       (filter (\<lambda>r. col_collection_id (colr_data r) = cid) (live_rows db))))"

definition published_source :: "collector \<Rightarrow> bool" where
  "published_source c \<longleftrightarrow> col_active_rule c \<noteq> None \<and> col_lifecycle c = Active"

definition version_summary :: "collection_version \<Rightarrow> active_version" where
  "version_summary v =
     \<lparr>av_id = cv_id v, av_number = cv_number v, av_digest = fc_digest (cv_contract v), av_published = cv_published_at v,
      av_field_count = length (cv_fields v)\<rparr>"

definition get_collection_version :: "db \<Rightarrow> string \<Rightarrow> collection_version option" where
  "get_collection_version db vid = tbl_get cv_id vid (t_versions db)"

definition get_collection :: "db \<Rightarrow> string \<Rightarrow> collection_view option" where
  "get_collection db cid =
     (case tbl_get cn_id cid (t_collections db) of
        None \<Rightarrow> None
      | Some value \<Rightarrow>
          (let sources = collection_sources db cid;
               active = (case cn_active_version_id value of
                           None \<Rightarrow> None | Some vid \<Rightarrow> map_option version_summary (get_collection_version db vid))
           in Some \<lparr>cw_data = value\<lparr>cn_active_version := active\<rparr>, cw_sources = length sources,
                    cw_published = length (filter published_source sources)\<rparr>))"

definition list_collection_versions :: "db \<Rightarrow> string \<Rightarrow> collection_version list" where
  "list_collection_versions db cid =
     sort_key (\<lambda>v. - int (cv_number v)) (filter (\<lambda>v. cv_collection v = cid) (t_versions db))"

text \<open>The version a source is compiled for: its pending one first.\<close>

definition collector_compilation_context :: "db \<Rightarrow> collector \<Rightarrow> py_exc + collector \<times> collection_version option" where
  "collector_compilation_context db c =
     (let vid = (case col_pending_version c of None \<Rightarrow> col_collection_version c | Some v \<Rightarrow> v)
      in if vid = default_collection_version then Inr (c, None)
         else
           (case get_collection_version db vid of
              None \<Rightarrow> Inl (ValueErr ''VERSION_NOT_FOUND'')
            | Some v \<Rightarrow>
                if cv_collection v \<noteq> col_collection_id c then Inl (ValueErr ''VERSION_NOT_FOUND'')
                else Inr (c\<lparr>col_collection_version := vid\<rparr>, Some v)))"

text \<open>\<open>list_collections\<close>: newest first; a view without the active version of the row read.\<close>

definition list_collections :: "db \<Rightarrow> collection_view list" where
  "list_collections db =
     (let sources = map colr_data (live_rows db)
      in rev (sort_key (\<lambda>w. iso_key (cn_created (cw_data w))) (sort_key (\<lambda>w. cn_id (cw_data w))
           (map (\<lambda>cn. let mine = filter (\<lambda>c. col_collection_id c = cn_id cn) sources
                      in \<lparr>cw_data = cn, cw_sources = length mine, cw_published = length (filter published_source mine)\<rparr>)
              (t_collections db)))))"

definition list_collectors :: "db \<Rightarrow> collector list" where
  "list_collectors db =
     map (\<lambda>r. let c = colr_data r
              in (case tbl_get cn_id (col_collection_id c) (t_collections db) of
                    None \<Rightarrow> c | Some cn \<Rightarrow> c\<lparr>col_collection_name := cn_name cn\<rparr>))
       (rev (sort_key (\<lambda>r. iso_key (colr_created r)) (sort_key colr_id (live_rows db))))"

subsection \<open>Writing\<close>

definition lock_collection :: "db \<Rightarrow> string \<Rightarrow> py_exc option" where
  "lock_collection db cid =
     (if tbl_get cn_id cid (t_collections db) = None then Some (ValueErr ''COLLECTION_NOT_FOUND'') else None)"

text \<open>\<open>INSERT OR IGNORE\<close>.\<close>

definition insert_collection :: "db \<Rightarrow> string \<Rightarrow> string \<Rightarrow> string \<Rightarrow> string \<Rightarrow> ts \<Rightarrow> db" where
  "insert_collection db cid name intent version now =
     (if tbl_get cn_id cid (t_collections db) \<noteq> None then db
      else db\<lparr>t_collections := t_collections db @
        [\<lparr>cn_id = cid, cn_name = name, cn_intent = intent, cn_version = version, cn_status = ''active'', cn_revision = 1,
          cn_created = now, cn_updated = now, cn_active_version_id = None, cn_latest_number = 0,
          cn_active_version = None, cn_field_draft = None\<rparr>]\<rparr>)"

definition store_collection :: "db \<Rightarrow> collection \<Rightarrow> db" where
  "store_collection db cn = db\<lparr>t_collections := tbl_upd cn_id (cn_id cn) (\<lambda>_. cn) (t_collections db)\<rparr>"

definition create_collection :: "db \<Rightarrow> string \<Rightarrow> string \<Rightarrow> string \<Rightarrow> ts \<Rightarrow> db \<times> collection_view option" where
  "create_collection db hex name intent now =
     (let cid = stable_id ''collection'' hex 40;
          db1 = insert_collection db cid name intent default_collection_version now
      in (db1, get_collection db1 cid))"

text \<open>The keys of a change; \<open>fieldDraft\<close> is the JSON value sent.\<close>

record collection_changes =
  ch_name :: "string option"
  ch_intent :: "string option"
  ch_status :: "string option"
  ch_draft :: "json option"

definition apply_changes :: "collection_changes \<Rightarrow> collection \<Rightarrow> collection" where
  "apply_changes ch cn =
     cn\<lparr>cn_name := (case ch_name ch of None \<Rightarrow> cn_name cn | Some n \<Rightarrow> n),
        cn_intent := (case ch_intent ch of None \<Rightarrow> cn_intent cn | Some i \<Rightarrow> i),
        cn_status := (case ch_status ch of None \<Rightarrow> cn_status cn | Some s \<Rightarrow> s),
        cn_field_draft := (case ch_draft ch of None \<Rightarrow> cn_field_draft cn | Some d \<Rightarrow> decode_draft d)\<rparr>"

definition change_collection ::
  "db \<Rightarrow> string \<Rightarrow> nat \<Rightarrow> collection_changes \<Rightarrow> ts \<Rightarrow> py_exc + db \<times> collection_view" where
  "change_collection db cid revision ch now =
     (case lock_collection db cid of
        Some e \<Rightarrow> Inl e
      | None \<Rightarrow>
     (case get_collection db cid of
        None \<Rightarrow> Inl (ValueErr ''COLLECTION_NOT_FOUND'')
      | Some view \<Rightarrow>
          (let value = cw_data view
           in if cn_revision value \<noteq> revision then Inl (ValueErr ''COLLECTION_CONFLICT'')
              else if cn_status value = ''archived'' \<and> (ch_name ch \<noteq> None \<or> ch_intent ch \<noteq> None \<or> ch_draft ch \<noteq> None)
              then Inl (ValueErr ''COLLECTION_ARCHIVED'')
              else
                (case (case ch_draft ch of None \<Rightarrow> None | Some d \<Rightarrow> validate_field_draft d) of
                   Some e \<Rightarrow> Inl e
                 | None \<Rightarrow>
                     (let value' = (apply_changes ch value)\<lparr>cn_revision := revision + 1, cn_updated := now\<rparr>
                      in Inr (store_collection db value', view\<lparr>cw_data := value'\<rparr>))))))"

definition delete_collection :: "db \<Rightarrow> string \<Rightarrow> nat \<Rightarrow> py_exc + db" where
  "delete_collection db cid revision =
     (case lock_collection db cid of
        Some e \<Rightarrow> Inl e
      | None \<Rightarrow>
     (case get_collection db cid of
        None \<Rightarrow> Inl (ValueErr ''COLLECTION_NOT_FOUND'')
      | Some view \<Rightarrow>
          if cn_revision (cw_data view) \<noteq> revision then Inl (ValueErr ''COLLECTION_CONFLICT'')
          else if cw_sources view \<noteq> 0 then Inl (ValueErr ''COLLECTION_HAS_SOURCES'')
          else if (\<exists>v \<in> set (t_versions db). cv_collection v = cid) \<or> cid \<in> set (t_suggestion_collections db) \<or>
                  (\<exists>o' \<in> set (t_ownership db). own_collection o' = cid)
          then Inl (ValueErr ''COLLECTION_HAS_HISTORY'')
          else Inr (db\<lparr>t_collections := tbl_del cn_id cid (t_collections db)\<rparr>)))"

subsection \<open>Publishing a version\<close>

definition last_collection_version :: "db \<Rightarrow> string \<Rightarrow> nat" where
  "last_collection_version db cid = foldr max (map cv_number (filter (\<lambda>v. cv_collection v = cid) (t_versions db))) 0"

definition next_version ::
  "db \<Rightarrow> string \<Rightarrow> string \<Rightarrow> string \<Rightarrow> field_def list \<Rightarrow> field_contract \<Rightarrow> string option \<Rightarrow> ts \<Rightarrow> collection_version" where
  "next_version db cid hex actor fs contract note now =
     (let number = last_collection_version db cid + 1
      in \<lparr>cv_id = stable_id ''colver'' (cid @ ''_v'' @ nat_text number @ ''_'' @ hex) 48, cv_collection = cid,
          cv_number = number, cv_fields = fs, cv_contract = contract, cv_published_at = now, cv_published_by = actor,
          cv_note = (case note of None \<Rightarrow> [] | Some n \<Rightarrow> n)\<rparr>)"

definition publish_collection_version ::
  "hasher \<Rightarrow> db \<Rightarrow> string \<Rightarrow> nat \<Rightarrow> string \<Rightarrow> string option \<Rightarrow> string \<Rightarrow> ts \<Rightarrow> py_exc + db \<times> collection_version" where
  "publish_collection_version sha db cid revision actor note hex now =
     (case lock_collection db cid of
        Some e \<Rightarrow> Inl e
      | None \<Rightarrow>
     (case get_collection db cid of
        None \<Rightarrow> Inl (ValueErr ''COLLECTION_NOT_FOUND'')
      | Some view \<Rightarrow>
          (let cn = cw_data view
           in if cn_revision cn \<noteq> revision then Inl (ValueErr ''COLLECTION_CONFLICT'')
              else if cn_status cn = ''archived'' then Inl (ValueErr ''COLLECTION_ARCHIVED'')
              else if cn_field_draft cn = None \<or> cn_field_draft cn = Some [] then Inl (ValueErr ''NO_FIELD_DRAFT'')
              else
                (let fs = the (cn_field_draft cn)
                 in (case build_collection_version_contract sha fs of
                       Inl e \<Rightarrow> Inl e
                     | Inr contract \<Rightarrow>
                         (let v = next_version db cid hex actor fs contract note now;
                              cn' = cn\<lparr>cn_active_version_id := Some (cv_id v), cn_latest_number := cv_number v,
                                       cn_active_version := Some (version_summary v), cn_updated := now,
                                       cn_revision := revision + 1\<rparr>
                          in if tbl_get cv_id (cv_id v) (t_versions db) \<noteq> None then Inl UniqueViolation
                             else Inr (store_collection (db\<lparr>t_versions := t_versions db @ [v]\<rparr>) cn', v)))))))"

subsection \<open>The reviewed commands\<close>

text \<open>
  The end of a command that may carry an audit and records both digests: the event when
  there is an audit, and the receipt.
\<close>

definition finish_audited ::
  "hasher \<Rightarrow> db \<Rightarrow> string \<Rightarrow> string \<Rightarrow> json \<Rightarrow> json \<Rightarrow> int \<Rightarrow> audit_args option \<Rightarrow> string \<Rightarrow> string \<Rightarrow> string \<Rightarrow>
   string option \<Rightarrow> string option \<Rightarrow> string \<Rightarrow> ts \<Rightarrow> outcome" where
  "finish_audited ph db scope key body value status audit target_type target_id action before after event_id now =
     (let db1 = (case audit of
                   None \<Rightarrow> db
                 | Some a \<Rightarrow> append_audit_event ph db event_id (aa_tenant a) target_type target_id
                               (a\<lparr>aa_action := action\<rparr>) before after now)
      in if find_receipt db1 scope key \<noteq> None then Inl UniqueViolation
         else Inr (db1\<lparr>t_receipts := t_receipts db1 @
                [\<lparr>rc_scope = scope, rc_key = key, rc_request_hash = ph body, rc_status = status, rc_response = value,
                  rc_created = now\<rparr>]\<rparr>, status, value, False))"

datatype collection_request =
    CreateCollection string string
  | ChangeCollection string nat collection_changes
  | DeleteCollection string nat

definition opt_field :: "string \<Rightarrow> ('a \<Rightarrow> json) \<Rightarrow> 'a option \<Rightarrow> (string \<times> json) list" where
  "opt_field k f v = (case v of None \<Rightarrow> [] | Some x \<Rightarrow> [(k, f x)])"

fun request_scope :: "collection_request \<Rightarrow> string" where
  "request_scope (CreateCollection name intent) = ''POST:/collections/''"
| "request_scope (ChangeCollection cid revision ch) = ''PATCH:/collections/'' @ cid"
| "request_scope (DeleteCollection cid revision) = ''DELETE:/collections/'' @ cid"

fun request_body :: "collection_request \<Rightarrow> json" where
  "request_body (CreateCollection name intent) = JObj [(''intent'', JStr intent), (''name'', JStr name)]"
| "request_body (ChangeCollection cid revision ch) =
     JObj (opt_field ''fieldDraft'' id (ch_draft ch) @ opt_field ''intent'' JStr (ch_intent ch) @
       opt_field ''name'' JStr (ch_name ch) @ [(''revision'', JNum (int revision))] @ opt_field ''status'' JStr (ch_status ch))"
| "request_body (DeleteCollection cid revision) = JObj [(''revision'', JNum (int revision))]"

fun request_action :: "collection_request \<Rightarrow> string" where
  "request_action (CreateCollection name intent) = ''created''"
| "request_action (ChangeCollection cid revision ch) =
     (case ch_status ch of None \<Rightarrow> ''updated'' | Some s \<Rightarrow> if s = ''archived'' then ''archived'' else ''restored'')"
| "request_action (DeleteCollection cid revision) = ''deleted''"

fun request_target :: "collection_request \<Rightarrow> string option" where
  "request_target (CreateCollection name intent) = None"
| "request_target (ChangeCollection cid revision ch) = Some cid"
| "request_target (DeleteCollection cid revision) = Some cid"

text \<open>The change itself: the new store, the id and the response of the request.\<close>

fun run_request :: "documents \<Rightarrow> db \<Rightarrow> collection_request \<Rightarrow> string \<Rightarrow> ts \<Rightarrow> py_exc + db \<times> string \<times> json" where
  "run_request docs db (CreateCollection name intent) hex now =
     (case create_collection db hex name intent now of
        (db1, None) \<Rightarrow> Inl (RuntimeErr ''collection missing'')
      | (db1, Some view) \<Rightarrow> Inr (db1, cn_id (cw_data view), doc_collection docs view))"
| "run_request docs db (ChangeCollection cid revision ch) hex now =
     map_sum id (\<lambda>(db1, view). (db1, cid, doc_collection docs view)) (change_collection db cid revision ch now)"
| "run_request docs db (DeleteCollection cid revision) hex now =
     map_sum id (\<lambda>db1. (db1, cid, JObj [(''id'', JStr cid), (''deleted'', JBool True)])) (delete_collection db cid revision)"

definition collection_command ::
  "hasher \<Rightarrow> documents \<Rightarrow> db \<Rightarrow> collection_request \<Rightarrow> string \<Rightarrow> audit_args option \<Rightarrow> string \<Rightarrow> string \<Rightarrow> ts \<Rightarrow> outcome" where
  "collection_command ph docs db req key audit hex event_id now =
     with_receipt ph db (request_scope req) key (request_body req)
      (case (case request_target req of None \<Rightarrow> None | Some cid \<Rightarrow> lock_collection db cid) of
         Some e \<Rightarrow> Inl e
       | None \<Rightarrow>
           (let before = (case request_target req of None \<Rightarrow> None | Some cid \<Rightarrow> get_collection db cid)
            in (case run_request docs db req hex now of
                  Inl e \<Rightarrow> Inl e
                | Inr (db1, cid, value) \<Rightarrow>
                    finish_audited ph db1 (request_scope req) key (request_body req) value
                      (case req of CreateCollection _ _ \<Rightarrow> 201 | _ \<Rightarrow> 200) audit ''collection'' cid
                      (''collection.'' @ request_action req)
                      (map_option (\<lambda>v. sha256_tag (ph (doc_collection docs v))) before)
                      (case req of DeleteCollection _ _ \<Rightarrow> None | _ \<Rightarrow> Some (sha256_tag (ph value))) event_id now)))"

definition publish_body :: "nat \<Rightarrow> string option \<Rightarrow> json" where
  "publish_body revision note = JObj (opt_field ''note'' JStr note @ [(''revision'', JNum (int revision))])"

definition publish_collection_version_command ::
  "hasher \<Rightarrow> documents \<Rightarrow> hasher \<Rightarrow> db \<Rightarrow> string \<Rightarrow> nat \<Rightarrow> string option \<Rightarrow> string \<Rightarrow> audit_args option \<Rightarrow> string \<Rightarrow> string \<Rightarrow>
   ts \<Rightarrow> outcome" where
  "publish_collection_version_command ph docs sha db cid revision note key audit hex event_id now =
     (let scope = ''POST:/collections/'' @ cid @ ''/publish-version''; body = publish_body revision note
      in with_receipt ph db scope key body
       (let actor = (case audit of None \<Rightarrow> ''system'' | Some a \<Rightarrow> aa_actor a);
            before = get_collection db cid
        in (case publish_collection_version sha db cid revision actor note hex now of
              Inl e \<Rightarrow> Inl e
            | Inr (db1, v) \<Rightarrow>
                finish_audited ph db1 scope key body (doc_version docs v) 201 audit ''collection_version'' (cv_id v)
                  ''collection_version.published'' (map_option (\<lambda>w. sha256_tag (ph (doc_collection docs w))) before)
                  (Some (sha256_tag (ph (doc_version docs v)))) event_id now)))"

subsection \<open>Creating a source\<close>

definition new_collector ::
  "string \<Rightarrow> string \<Rightarrow> string \<Rightarrow> string \<Rightarrow> string \<Rightarrow> string \<Rightarrow> string \<Rightarrow> string \<Rightarrow> collector" where
  "new_collector cid name intent url host collection_id collection_name version =
     \<lparr>col_id = cid, col_name = name, col_intent = intent, col_source_url = url, col_source_host = host,
      col_lifecycle = Active, col_revision = 0, col_status = ''draft'', col_collection_id = collection_id,
      col_collection_name = collection_name, col_collection_version = version, col_active_rule = None,
      col_active_operation = None, col_latest_run = None, col_updated = JustNow, col_candidate = None,
      col_preview_items = [], col_review_decisions = None, col_policy_id = None, col_policy = None,
      col_checkpoint = None, col_schedule = None, col_pending_version = None, col_migration = None,
      col_coverage = None, col_reassigned = False, col_quality_backlog = None\<rparr>"

text \<open>
  \<open>create_collector\<close>; \<open>require_existing\<close> asks for a collection that is there already. \<open>hex\<close>
  is the random part of the id.
\<close>

definition create_collector ::
  "hasher \<Rightarrow> (string \<Rightarrow> bool) \<Rightarrow> cron_next \<Rightarrow> db \<Rightarrow> string \<Rightarrow> string \<Rightarrow> string \<Rightarrow> string \<Rightarrow> string \<Rightarrow> string \<Rightarrow> string \<Rightarrow>
   bool \<Rightarrow> string \<Rightarrow> ts \<Rightarrow> py_exc + db \<times> collector" where
  "create_collector ph cron_valid next_time db name intent url host collection_id collection_name version
     require_existing hex now =
     (let c = new_collector (stable_id ''collector'' (host @ ''_'' @ hex) 40) name intent url host collection_id
                collection_name version
      in if source_exists db url None then Inl (LifecycleErr ''SOURCE_ALREADY_EXISTS'')
         else
           (let db1 = (if require_existing then db
                       else insert_collection db collection_id collection_name intent version now)
            in (case lock_collection db1 collection_id of
                  Some e \<Rightarrow> Inl e
                | None \<Rightarrow>
               (case get_collection db1 collection_id of
                  None \<Rightarrow> Inl (ValueErr ''COLLECTION_NOT_FOUND'')
                | Some view \<Rightarrow>
                    (let requirement = cw_data view;
                         c1 = c\<lparr>col_collection_name := cn_name requirement\<rparr>;
                         c2 = (if require_existing
                               then c1\<lparr>col_intent := cn_intent requirement,
                                       col_collection_version := (case cn_active_version_id requirement of
                                          None \<Rightarrow> cn_version requirement | Some v \<Rightarrow> v)\<rparr>
                               else (case cn_active_version_id requirement of
                                       None \<Rightarrow> c1 | Some v \<Rightarrow> c1\<lparr>col_collection_version := v\<rparr>))
                     in if cn_status requirement = ''archived'' then Inl (ValueErr ''COLLECTION_ARCHIVED'')
                        else
                          (case save_collector db1 c2 False now of
                             Inl e \<Rightarrow> Inl e
                           | Inr (db2, _) \<Rightarrow>
                          (case create_collection_policy ph db2 (col_id c) default_policy now of
                             Inl e \<Rightarrow> Inl e
                           | Inr (db3, _) \<Rightarrow> ensure_schedule cron_valid next_time db3 (col_id c) now)))))))"

end
