(* ===== verification/Lifecycle.thy ===== *)
theory Lifecycle
  imports Collections Jobs
begin

text \<open>
  Source management (\<open>collector_lifecycle.py\<close>, \<open>collection_workflows.py\<close>,
  \<open>collector_history.py\<close>): archive, restore and delete, the change of a definition, the move to
  another collection and the migration to another version. Each has a plan that is shown
  first and a command that locks the source, plans again, compares the digest of the plan
  and writes everything with its receipt.
\<close>

subsection \<open>Who owns the history of a source\<close>

type_synonym owner_map = "((string \<times> string) \<times> attribution) list"

record history_snapshot =
  hs_owners :: owner_map
  hs_unresolved :: "(string \<times> string) list"
  hs_counts :: "(string \<times> nat) list"

text \<open>One run or AI run: its id, the rule it names, and its operation.\<close>

definition own_record ::
  "db \<Rightarrow> collector \<Rightarrow> string \<Rightarrow> string \<times> string option \<times> string option \<Rightarrow>
   owner_map \<times> (string \<times> attribution) list \<times> (string \<times> string) list \<Rightarrow>
   owner_map \<times> (string \<times> attribution) list \<times> (string \<times> string) list" where
  "own_record db c kind item state =
     (let (rid, rule_id, oid) = item;
          (owners, operation_owners, unresolved) = state;
          rules = filter (\<lambda>r. rv_collector r = col_id c) (t_rules db);
          by_rule = rule_attribution db (case rule_id of None \<Rightarrow> None | Some r \<Rightarrow> tbl_get rv_id r rules);
          owner = (case map_of owners (kind, rid) of
                     Some a \<Rightarrow> Some a
                   | None \<Rightarrow>
                       (case by_rule of
                          Some a \<Rightarrow> Some a
                        | None \<Rightarrow> if kind = ''ai_run'' \<and> \<not> col_reassigned c
                                  then attribution_of db (col_collection_id c) (col_collection_version c) else None))
      in (case owner of
            None \<Rightarrow> (owners, operation_owners, unresolved @ [(kind, rid)])
          | Some a \<Rightarrow> (dict_set (kind, rid) a owners,
                       (case oid of None \<Rightarrow> operation_owners | Some o' \<Rightarrow> dict_set o' a operation_owners),
                       unresolved)))"

definition own_operation ::
  "db \<Rightarrow> collector \<Rightarrow> (string \<times> attribution) list \<Rightarrow> string \<Rightarrow> owner_map \<times> (string \<times> string) list \<Rightarrow>
   owner_map \<times> (string \<times> string) list" where
  "own_operation db c operation_owners oid state =
     (let (owners, unresolved) = state;
          owner = (case map_of owners (''operation'', oid) of
                     Some a \<Rightarrow> Some a
                   | None \<Rightarrow>
                       (case map_of operation_owners oid of
                          Some a \<Rightarrow> Some a
                        | None \<Rightarrow> if \<not> col_reassigned c
                                  then attribution_of db (col_collection_id c) (col_collection_version c) else None))
      in (case owner of
            None \<Rightarrow> (owners, unresolved @ [(''operation'', oid)])
          | Some a \<Rightarrow> (dict_set (''operation'', oid) a owners, unresolved)))"

definition history_snapshot :: "db \<Rightarrow> collector \<Rightarrow> history_snapshot" where
  "history_snapshot db c =
     (let cid = col_id c;
          saved = map (\<lambda>o'. ((own_kind o', own_resource o'), own_data o')) (filter (\<lambda>o'. own_collector o' = cid) (t_ownership db));
          rules = filter (\<lambda>r. rv_collector r = cid) (t_rules db);
          unresolved_rules = map (\<lambda>r. (''rule'', rv_id r)) (filter (\<lambda>r. rule_attribution db (Some r) = None) rules);
          runs = filter (\<lambda>r. rr_collector r = cid) (t_runs db);
          ai_runs = filter (\<lambda>r. airr_collector r = cid) (t_ai_runs db);
          operations = filter (\<lambda>r. opr_collector r = cid) (t_operations db);
          s1 = fold (own_record db c ''run'')
                 (map (\<lambda>r. (rr_id r, Some (run_rule_version (rr_data r)), run_operation (rr_data r))) runs)
                 (saved, [], unresolved_rules);
          (owners, operation_owners, unresolved) = fold (own_record db c ''ai_run'')
                 (map (\<lambda>r. (airr_id r, air_published_rule (airr_data r), Some (air_operation (airr_data r)))) ai_runs) s1;
          (owners', unresolved') = fold (own_operation db c operation_owners) (map opr_id operations) (owners, unresolved);
          bad_items = take 20 (filter (\<lambda>i. im_collector (it_data i) = cid \<and>
                        (case tbl_get rr_id (it_run i) (t_runs db) of None \<Rightarrow> True | Some r \<Rightarrow> rr_collector r \<noteq> cid)) (t_items db));
          items = filter (\<lambda>i. case tbl_get rr_id (it_run i) (t_runs db) of None \<Rightarrow> False | Some r \<Rightarrow> rr_collector r = cid) (t_items db)
      in \<lparr>hs_owners = owners',
          hs_unresolved = unresolved' @ map (\<lambda>i. (''item'', it_id i)) bad_items,
          hs_counts = [(''rules'', length rules), (''runs'', length runs), (''ai_runs'', length ai_runs),
            (''operations'', length operations), (''items'', length items),
            (''sinks'', length (filter (\<lambda>s. snk_collector s = cid) (t_sinks db))),
            (''deliveries'', length (filter (\<lambda>d. dl_collector d = cid) (t_deliveries db)))]\<rparr>)"

definition freeze_history :: "db \<Rightarrow> string \<Rightarrow> history_snapshot \<Rightarrow> db" where
  "freeze_history db cid snapshot =
     fold (\<lambda>((kind, rid), a) db. save_attribution db kind rid cid (Some a)) (hs_owners snapshot) db"

subsection \<open>The plan of a lifecycle change\<close>

definition counts_json :: "(string \<times> nat) list \<Rightarrow> json" where
  "counts_json counts = JObj (map (\<lambda>(k, n). (k, JNum (int n))) counts)"

record lifecycle_plan =
  lp_blockers :: "string list"
  lp_has_history :: bool
  lp_counts :: "(string \<times> nat) list"
  lp_schedule_enabled :: bool
  lp_digest :: string
  lp_json :: json

text \<open>The rows of each table that belong to the source, in the order the plan counts them.\<close>

definition table_counts :: "db \<Rightarrow> string \<Rightarrow> (string \<times> nat) list" where
  "table_counts db cid =
     [(''operations'', length (filter (\<lambda>r. opr_collector r = cid) (t_operations db))),
      (''ai_runs'', length (filter (\<lambda>r. airr_collector r = cid) (t_ai_runs db))),
      (''rule_versions'', length (filter (\<lambda>r. rv_collector r = cid) (t_rules db))),
      (''runs'', length (filter (\<lambda>r. rr_collector r = cid) (t_runs db))),
      (''collector_checkpoints'', length (filter (\<lambda>r. ck_collector r = cid) (t_checkpoints db))),
      (''schedule_occurrences'', length (filter (\<lambda>r. oc_collector r = cid) (t_occurrences db))),
      (''collection_migrations'', length (filter (\<lambda>r. mgr_collector r = cid) (t_migrations db))),
      (''sinks'', length (filter (\<lambda>r. snk_collector r = cid) (t_sinks db))),
      (''deliveries'', length (filter (\<lambda>r. dl_collector r = cid) (t_deliveries db))),
      (''source_history_ownership'', length (filter (\<lambda>r. own_collector r = cid) (t_ownership db)))]"

definition current_schedule :: "db \<Rightarrow> collector \<Rightarrow> schedule option" where
  "current_schedule db c = (case get_schedule db (col_id c) of Some s \<Rightarrow> Some s | None \<Rightarrow> col_schedule c)"

definition schedule_on :: "schedule option \<Rightarrow> bool" where
  "schedule_on s = (case s of None \<Rightarrow> False | Some s \<Rightarrow> sv_enabled (sch_values s))"

definition make_lifecycle_plan :: "hasher \<Rightarrow> documents \<Rightarrow> db \<Rightarrow> string \<Rightarrow> py_exc + lifecycle_plan" where
  "make_lifecycle_plan ph docs db cid =
     (case get_collector db cid of
        None \<Rightarrow> Inl (LifecycleErr ''COLLECTOR_NOT_FOUND'')
      | Some c \<Rightarrow>
          (let blockers = active_blockers db cid @
                 (if col_pending_version c \<noteq> None \<or> (\<exists>m \<in> set (t_migrations db). mgr_collector m = cid)
                  then [''MIGRATION_ALREADY_ACTIVE''] else []);
               tables = table_counts db cid;
               items = length (filter (\<lambda>i. im_collector (it_data i) = cid) (t_items db));
               counts = map (\<lambda>(t, n). (if t = ''rule_versions'' then ''rules'' else t, n))
                 (filter (\<lambda>(t, n). t \<in> set [''operations'', ''ai_runs'', ''rule_versions'', ''runs'', ''sinks'', ''deliveries''])
                   tables) @ [(''items'', items)];
               policies = filter (\<lambda>p. pol_collector p = cid) (t_policies db);
               schedule = current_schedule db c;
               history = map (\<lambda>(t, n). ''HAS_'' @ t) (filter (\<lambda>(t, n). n \<noteq> 0) tables) @
                 (if items \<noteq> 0 then [''HAS_ITEMS''] else []) @
                 (if 1 < length policies \<or> (\<exists>p \<in> set policies. pol_values p \<noteq> default_policy)
                  then [''HAS_POLICY_HISTORY''] else []) @
                 (if col_candidate c \<noteq> None \<or> col_active_rule c \<noteq> None \<or> col_latest_run c \<noteq> None
                  then [''HAS_SOURCE_HISTORY''] else []) @
                 (if \<exists>r \<in> set (t_audit db). ae_target_id (aur_data r) = cid \<and>
                      (starts_with ''collection_migration.'' (ae_action (aur_data r)) \<or>
                       starts_with ''collector.reassigned'' (ae_action (aur_data r)))
                  then [''HAS_MIGRATION_HISTORY''] else []) @
                 (if schedule_on schedule \<or> (case schedule of None \<Rightarrow> False | Some s \<Rightarrow> 1 < sch_revision s)
                  then [''HAS_SCHEDULE_HISTORY''] else []);
               digest = sha256_tag (ph (JObj [(''source'', doc_collector docs c), (''blockers'', JArr (map JStr blockers)),
                 (''history'', JArr (map JStr history)), (''counts'', counts_json counts)]))
           in Inr \<lparr>lp_blockers = blockers, lp_has_history = (history \<noteq> []), lp_counts = counts,
                   lp_schedule_enabled = schedule_on schedule, lp_digest = digest,
                   lp_json = JObj [(''collectorId'', JStr cid), (''collectorName'', JStr (col_name c)),
                     (''sourceUrl'', JStr (col_source_url c)), (''collectionName'', JStr (col_collection_name c)),
                     (''lifecycle'', JStr (if col_lifecycle c = Active then ''active'' else ''archived'')),
                     (''blockers'', JArr (map JStr blockers)), (''deleteBlockers'', JArr (map JStr blockers)),
                     (''hasHistory'', JBool (history \<noteq> [])), (''historyCounts'', counts_json counts),
                     (''scheduleEnabled'', JBool (schedule_on schedule)), (''planDigest'', JStr digest)]\<rparr>))"

subsection \<open>Archive, restore and delete\<close>

text \<open>\<open>disable_schedule\<close>: the store, and the source with its schedule read again.\<close>

definition disable_schedule ::
  "(string \<Rightarrow> bool) \<Rightarrow> cron_next \<Rightarrow> db \<Rightarrow> collector \<Rightarrow> ts \<Rightarrow> py_exc + db \<times> collector" where
  "disable_schedule cron_valid next_time db c now =
     (case current_schedule db c of
        None \<Rightarrow> Inr (db, c)
      | Some s \<Rightarrow>
          if sv_enabled (sch_values s)
          then
            (case save_schedule cron_valid next_time db (col_id c) ((sch_values s)\<lparr>sv_enabled := False\<rparr>) now of
               Inl e \<Rightarrow> Inl e
             | Inr (db1, _) \<Rightarrow>
                 (case get_collector db1 (col_id c) of
                    None \<Rightarrow> Inl (RuntimeErr ''collector missing'')
                  | Some fresh \<Rightarrow> Inr (db1, c\<lparr>col_schedule := col_schedule fresh\<rparr>)))
          else Inr (db, c))"

datatype lifecycle_action = ArchiveSource | RestoreSource | DeleteSource

fun action_text :: "lifecycle_action \<Rightarrow> string" where
  "action_text ArchiveSource = ''archive''"
| "action_text RestoreSource = ''restore''"
| "action_text DeleteSource = ''delete''"

definition lifecycle_scope :: "string \<Rightarrow> string" where
  "lifecycle_scope cid = ''POST:/collectors/'' @ cid @ ''/lifecycle''"

definition lifecycle_body :: "lifecycle_action \<Rightarrow> string \<Rightarrow> json" where
  "lifecycle_body action digest = JObj [(''action'', JStr (action_text action)), (''planDigest'', JStr digest)]"

definition change_lifecycle ::
  "(string \<Rightarrow> bool) \<Rightarrow> cron_next \<Rightarrow> documents \<Rightarrow> db \<Rightarrow> collector \<Rightarrow> lifecycle_action \<Rightarrow> ts \<Rightarrow> py_exc + db \<times> json" where
  "change_lifecycle cron_valid next_time docs db c action now =
     (let cid = col_id c;
          db0 = (if action = DeleteSource then freeze_history db cid (history_snapshot db c) else db)
      in (case disable_schedule cron_valid next_time db0 c now of
            Inl e \<Rightarrow> Inl e
          | Inr (db1, c1) \<Rightarrow>
         (case save_collector db1 (c1\<lparr>col_lifecycle := (if action = RestoreSource then Active else Archived),
                                     col_updated := JustNow\<rparr>) True now of
            Inl e \<Rightarrow> Inl e
          | Inr (db2, c2) \<Rightarrow>
              if action = DeleteSource
              then Inr (db2\<lparr>t_deleted := t_deleted db2 @ [(cid, now)]\<rparr>, JObj [(''id'', JStr cid), (''deleted'', JBool True)])
              else Inr (db2, doc_collector docs c2))))"

definition lifecycle_command ::
  "hasher \<Rightarrow> (string \<Rightarrow> bool) \<Rightarrow> cron_next \<Rightarrow> documents \<Rightarrow> db \<Rightarrow> string \<Rightarrow> lifecycle_action \<Rightarrow> string \<Rightarrow> string \<Rightarrow>
   audit_args \<Rightarrow> string \<Rightarrow> ts \<Rightarrow> outcome" where
  "lifecycle_command ph cron_valid next_time docs db cid action digest key audit event_id now =
     with_receipt ph db (lifecycle_scope cid) key (lifecycle_body action digest)
      (case lock_collector db cid of
         Some e \<Rightarrow> Inl e
       | None \<Rightarrow>
      (case make_lifecycle_plan ph docs db cid of
         Inl e \<Rightarrow> Inl e
       | Inr plan \<Rightarrow>
           if lp_blockers plan \<noteq> [] then Inl (LifecycleErr (hd (lp_blockers plan)))
           else if lp_digest plan \<noteq> digest then Inl (LifecycleErr ''COLLECTOR_CONFLICT'')
           else
             (case get_collector db cid of
                None \<Rightarrow> Inl (LifecycleErr ''COLLECTOR_NOT_FOUND'')
              | Some c \<Rightarrow>
                  (case change_lifecycle cron_valid next_time docs db c action now of
                     Inl e \<Rightarrow> Inl e
                   | Inr (db1, value) \<Rightarrow>
                       finish_command ph db1 (lifecycle_scope cid) key (lifecycle_body action digest) value 200 audit
                         ''collector'' cid (''collector.'' @ action_text action) event_id now))))"

subsection \<open>A new definition\<close>

definition invalidate_execution ::
  "(string \<Rightarrow> bool) \<Rightarrow> cron_next \<Rightarrow> db \<Rightarrow> collector \<Rightarrow> ts \<Rightarrow> py_exc + db \<times> collector" where
  "invalidate_execution cron_valid next_time db c now =
     (case disable_schedule cron_valid next_time db c now of
        Inl e \<Rightarrow> Inl e
      | Inr (db1, c1) \<Rightarrow>
          Inr (db1\<lparr>t_checkpoints := tbl_del ck_collector (col_id c) (t_checkpoints db1)\<rparr>,
               c1\<lparr>col_status := ''draft'', col_active_rule := None, col_candidate := None, col_preview_items := [],
                  col_review_decisions := None, col_checkpoint := None, col_active_operation := None\<rparr>))"

record source_definition =
  sd_name :: string
  sd_intent :: string
  sd_url :: string
  sd_host :: string

definition definition_scope :: "string \<Rightarrow> string" where
  "definition_scope cid = ''PATCH:/collectors/'' @ cid"

text \<open>\<open>body\<close> is the request as sent, whose revision is \<open>revision\<close>; \<open>d\<close> its normalized fields.\<close>

definition definition_command ::
  "hasher \<Rightarrow> (string \<Rightarrow> bool) \<Rightarrow> cron_next \<Rightarrow> documents \<Rightarrow> db \<Rightarrow> string \<Rightarrow> json \<Rightarrow> nat \<Rightarrow> source_definition \<Rightarrow> string \<Rightarrow>
   audit_args \<Rightarrow> string \<Rightarrow> ts \<Rightarrow> outcome" where
  "definition_command ph cron_valid next_time docs db cid body revision d key audit event_id now =
     with_receipt ph db (definition_scope cid) key body
      (case lock_collector db cid of
         Some e \<Rightarrow> Inl e
       | None \<Rightarrow>
      (case get_collector db cid of
         None \<Rightarrow> Inl (LifecycleErr ''COLLECTOR_NOT_FOUND'')
       | Some c \<Rightarrow>
      (case require_active (Some c) of
         Some e \<Rightarrow> Inl e
       | None \<Rightarrow>
           if col_revision c \<noteq> revision then Inl (LifecycleErr ''COLLECTOR_CONFLICT'')
           else if active_blockers db cid \<noteq> [] then Inl (LifecycleErr (hd (active_blockers db cid)))
           else if col_pending_version c \<noteq> None then Inl (LifecycleErr ''MIGRATION_ALREADY_ACTIVE'')
           else if source_exists db (sd_url d) (Some cid) then Inl (LifecycleErr ''SOURCE_ALREADY_EXISTS'')
           else
             (case (if col_intent c \<noteq> sd_intent d \<or> col_source_url c \<noteq> sd_url d
                    then invalidate_execution cron_valid next_time db c now else Inr (db, c)) of
                Inl e \<Rightarrow> Inl e
              | Inr (db1, c1) \<Rightarrow>
             (case save_collector db1 (c1\<lparr>col_name := sd_name d, col_intent := sd_intent d, col_source_url := sd_url d,
                                         col_source_host := sd_host d, col_updated := JustNow\<rparr>) True now of
                Inl e \<Rightarrow> Inl e
              | Inr (db2, c2) \<Rightarrow>
                  finish_command ph db2 (definition_scope cid) key body (doc_collector docs c2) 200 audit
                    ''collector'' cid ''collector.definition_updated'' event_id now)))))"

subsection \<open>Differences of two field lists\<close>

record field_change =
  fch_key :: string
  fch_before :: "field_def option"
  fch_after :: "field_def option"

definition fields_by_key :: "field_def list \<Rightarrow> string \<Rightarrow> field_def option" where
  "fields_by_key fs = map_of (rev (map (\<lambda>f. (fd_key f, f)) fs))"

definition field_changes :: "field_def list \<Rightarrow> field_def list \<Rightarrow> field_change list" where
  "field_changes old new =
     (let before = fields_by_key old; after = fields_by_key new
      in map (\<lambda>k. \<lparr>fch_key = k, fch_before = before k, fch_after = after k\<rparr>)
           (filter (\<lambda>k. before k \<noteq> after k) (sort (remdups (map fd_key (old @ new))))))"

definition change_kind :: "field_change \<Rightarrow> string" where
  "change_kind ch = (if fch_before ch = None then ''added'' else if fch_after ch = None then ''removed'' else ''changed'')"

definition breaking_change :: "field_change \<Rightarrow> bool" where
  "breaking_change ch =
     ((case fch_before ch of
         None \<Rightarrow> False
       | Some old \<Rightarrow>
           (case fch_after ch of
              None \<Rightarrow> True
            | Some new \<Rightarrow> fd_type old \<noteq> fd_type new \<or> fd_identity old \<noteq> fd_identity new \<or> fd_fingerprint old \<noteq> fd_fingerprint new)) \<or>
      (case fch_after ch of
         None \<Rightarrow> False
       | Some new \<Rightarrow> fd_required new \<and> (case fch_before ch of None \<Rightarrow> True | Some old \<Rightarrow> \<not> fd_required old)))"

text \<open>The fields a source works with now: of its bound version, or of what it was compiled to.\<close>

definition bound_fields :: "documents \<Rightarrow> db \<Rightarrow> collector \<Rightarrow> field_def list" where
  "bound_fields docs db c =
     (case get_collection_version db (col_collection_version c) of
        Some v \<Rightarrow> cv_fields v
      | None \<Rightarrow>
          (let rule = (case col_active_rule c of None \<Rightarrow> None | Some r \<Rightarrow> tbl_get rv_id r (t_rules db));
               candidate = (case col_candidate c of None \<Rightarrow> None | Some t \<Rightarrow> doc_spec docs (jget ''gatherSpec'' (obj_of t)));
               spec = (case rule of None \<Rightarrow> None | Some r \<Rightarrow> doc_spec docs (rv_spec r))
           in sc_fields (project_source_contract (col_active_rule c) (None, candidate) spec)))"

definition same_items :: "string list \<Rightarrow> field_change list \<Rightarrow> bool" where
  "same_items confirmed changes \<longleftrightarrow> sort confirmed = sort (map fch_key changes)"

end
