(* ===== verification/Reassignment.thy ===== *)
theory Reassignment
  imports Lifecycle
begin

text \<open>
  The two reviewed moves of a source: to another collection (\<open>reassignment_plan\<close>,
  \<open>reassignment_command\<close> in \<open>collector_lifecycle.py\<close>) and to another version of its collection
  (\<open>migration_plan\<close>, \<open>migration_command\<close> in \<open>collection_workflows.py\<close>).
\<close>

subsection \<open>To another collection\<close>

definition default_field :: "string \<Rightarrow> string \<Rightarrow> bool \<Rightarrow> bool \<Rightarrow> bool \<Rightarrow> string \<Rightarrow> field_def" where
  "default_field key label required identity fingerprint description =
     \<lparr>fd_key = key, fd_label = label, fd_type = ''string'', fd_required = required, fd_identity = identity,
      fd_fingerprint = fingerprint, fd_description = description\<rparr>"

text \<open>\<open>DEFAULT_COLLECTION_FIELDS\<close> with English texts.\<close>

definition default_collection_fields :: "field_def list" where
  "default_collection_fields =
     [default_field ''title'' ''notice title'' True True True ''standard title of the notice'',
      default_field ''publishedAt'' ''published at'' True False False ''date of publication'',
      default_field ''buyer'' ''buyer'' False False False ''buying organisation'',
      default_field ''budget'' ''budget'' False False False ''budget or price limit'',
      default_field ''sourceUrl'' ''detail link'' True True False ''address of the detail page'',
      default_field ''region'' ''region'' False False False ''province or city'',
      default_field ''content'' ''notice text'' False False False ''text of the notice'',
      default_field ''category'' ''category'' False False False ''class of the purchase'']"

record reassignment_plan =
  rq_to_name :: string
  rq_to_intent :: string
  rq_to_version :: string
  rq_changes :: "field_change list"
  rq_blockers :: "string list"
  rq_recompile :: bool
  rq_counts :: "(string \<times> nat) list"
  rq_digest :: string

definition unresolved_json :: "(string \<times> string) list \<Rightarrow> json" where
  "unresolved_json us = JArr (map (\<lambda>(t, i). JObj [(''id'', JStr i), (''type'', JStr t)]) us)"

definition make_reassignment_plan ::
  "hasher \<Rightarrow> documents \<Rightarrow> db \<Rightarrow> string \<Rightarrow> string \<Rightarrow> py_exc + reassignment_plan" where
  "make_reassignment_plan ph docs db cid target_id =
     (case get_collector db cid of
        None \<Rightarrow> Inl (LifecycleErr ''COLLECTOR_NOT_FOUND'')
      | Some c \<Rightarrow>
     (case get_collection db target_id of
        None \<Rightarrow> Inl (LifecycleErr ''COLLECTION_NOT_FOUND'')
      | Some view \<Rightarrow>
     (case make_lifecycle_plan ph docs db cid of
        Inl e \<Rightarrow> Inl e
      | Inr lifecycle \<Rightarrow>
          (let target = cw_data view;
               snapshot = history_snapshot db c;
               target_version_id = (case cn_active_version_id target of None \<Rightarrow> cn_version target | Some v \<Rightarrow> v);
               target_version = get_collection_version db target_version_id;
               blockers = lp_blockers lifecycle @
                 (if col_lifecycle c = Archived then [''COLLECTOR_ARCHIVED''] else []) @
                 (if cn_status target = ''archived'' then [''COLLECTION_ARCHIVED''] else []) @
                 (if target_id = col_collection_id c then [''COLLECTION_ALREADY_BOUND''] else []) @
                 (if hs_unresolved snapshot \<noteq> [] then [''HISTORY_OWNERSHIP_UNRESOLVED''] else []) @
                 (if cn_active_version_id target \<noteq> None \<and>
                     (case target_version of None \<Rightarrow> True | Some v \<Rightarrow> cv_collection v \<noteq> target_id)
                  then [''VERSION_NOT_FOUND''] else []);
               new_fields = (case target_version of None \<Rightarrow> default_collection_fields | Some v \<Rightarrow> cv_fields v);
               changes = (if lp_has_history lifecycle then field_changes (bound_fields docs db c) new_fields else [])
           in Inr \<lparr>rq_to_name = cn_name target, rq_to_intent = cn_intent target, rq_to_version = target_version_id,
                   rq_changes = changes, rq_blockers = blockers, rq_recompile = lp_has_history lifecycle,
                   rq_counts = hs_counts snapshot,
                   rq_digest = sha256_tag (ph (JObj [(''source'', doc_collector docs c), (''lifecycle'', lp_json lifecycle),
                     (''target'', doc_collection docs view),
                     (''targetVersion'', case target_version of None \<Rightarrow> JNull | Some v \<Rightarrow> doc_version docs v),
                     (''history'', JObj [(''counts'', counts_json (hs_counts snapshot)),
                       (''unresolved'', unresolved_json (hs_unresolved snapshot))])]))\<rparr>))))"

definition reassignment_scope :: "string \<Rightarrow> string" where
  "reassignment_scope cid = ''POST:/collectors/'' @ cid @ ''/reassignment''"

definition reassignment_body :: "string \<Rightarrow> string \<Rightarrow> string list \<Rightarrow> json" where
  "reassignment_body target digest confirmed =
     JObj [(''confirmedChanges'', JArr (map JStr confirmed)), (''planDigest'', JStr digest), (''targetCollectionId'', JStr target)]"

definition reassign_source ::
  "(string \<Rightarrow> bool) \<Rightarrow> cron_next \<Rightarrow> db \<Rightarrow> collector \<Rightarrow> string \<Rightarrow> reassignment_plan \<Rightarrow> ts \<Rightarrow> py_exc + db \<times> collector" where
  "reassign_source cron_valid next_time db c target plan now =
     (let db0 = freeze_history db (col_id c) (history_snapshot db c)
      in (case invalidate_execution cron_valid next_time db0 c now of
            Inl e \<Rightarrow> Inl e
          | Inr (db1, c1) \<Rightarrow>
              save_collector db1 (c1\<lparr>col_collection_id := target, col_collection_name := rq_to_name plan,
                                     col_collection_version := rq_to_version plan, col_intent := rq_to_intent plan,
                                     col_reassigned := True, col_updated := JustNow\<rparr>) True now))"

definition reassignment_command ::
  "hasher \<Rightarrow> (string \<Rightarrow> bool) \<Rightarrow> cron_next \<Rightarrow> documents \<Rightarrow> db \<Rightarrow> string \<Rightarrow> string \<Rightarrow> string \<Rightarrow> string list \<Rightarrow> string \<Rightarrow>
   audit_args \<Rightarrow> string \<Rightarrow> ts \<Rightarrow> outcome" where
  "reassignment_command ph cron_valid next_time docs db cid target digest confirmed key audit event_id now =
     with_receipt ph db (reassignment_scope cid) key (reassignment_body target digest confirmed)
      (case lock_collector db cid of
         Some e \<Rightarrow> Inl e
       | None \<Rightarrow>
      (case lock_collection db target of
         Some e \<Rightarrow> Inl e
       | None \<Rightarrow>
      (case make_reassignment_plan ph docs db cid target of
         Inl e \<Rightarrow> Inl e
       | Inr plan \<Rightarrow>
           if rq_blockers plan \<noteq> [] then Inl (LifecycleErr (hd (rq_blockers plan)))
           else if rq_digest plan \<noteq> digest then Inl (LifecycleErr ''COLLECTOR_CONFLICT'')
           else if \<not> same_items confirmed (rq_changes plan) then Inl (LifecycleErr ''REASSIGNMENT_REVIEW_REQUIRED'')
           else
             (case get_collector db cid of
                None \<Rightarrow> Inl (LifecycleErr ''COLLECTOR_NOT_FOUND'')
              | Some c \<Rightarrow>
                  (case reassign_source cron_valid next_time db c target plan now of
                     Inl e \<Rightarrow> Inl e
                   | Inr (db1, c1) \<Rightarrow>
                       finish_command ph db1 (reassignment_scope cid) key (reassignment_body target digest confirmed)
                         (doc_collector docs c1) 200 audit ''collector'' cid ''collector.reassigned'' event_id now)))))"

subsection \<open>To another version\<close>

record migration_plan =
  mp_from :: string
  mp_number :: nat
  mp_changes :: "field_change list"
  mp_blockers :: "string list"
  mp_digest :: string

definition active_operation_unfinished :: "db \<Rightarrow> collector \<Rightarrow> bool" where
  "active_operation_unfinished db c \<longleftrightarrow>
     (case col_active_operation c of
        None \<Rightarrow> False
      | Some oid \<Rightarrow> (case get_operation db oid of None \<Rightarrow> False | Some o' \<Rightarrow> \<not> terminal_operation (op_status o')))"

definition migration_digest_json :: "documents \<Rightarrow> collector \<Rightarrow> collection_version \<Rightarrow> nat \<Rightarrow> json" where
  "migration_digest_json docs c target revision =
     JObj [(''source'', JObj [(''id'', JStr (col_id c)), (''collectionId'', JStr (col_collection_id c)),
              (''collectionVersion'', JStr (col_collection_version c)), (''activeRuleVersion'', jopt (col_active_rule c)),
              (''status'', JStr (col_status c)), (''intent'', JStr (col_intent c)), (''sourceUrl'', JStr (col_source_url c)),
              (''candidate'', jor (col_candidate c)), (''pendingCollectionVersion'', jopt (col_pending_version c))]),
       (''target'', doc_version docs target), (''collectionRevision'', JNum (int revision))]"

definition make_migration_plan ::
  "hasher \<Rightarrow> documents \<Rightarrow> db \<Rightarrow> string \<Rightarrow> string \<Rightarrow> py_exc + migration_plan" where
  "make_migration_plan ph docs db cid target_id =
     (case get_collector db cid of
        None \<Rightarrow> Inl (ValueErr ''COLLECTOR_NOT_FOUND'')
      | Some c \<Rightarrow>
     (case get_collection_version db target_id of
        None \<Rightarrow> Inl (ValueErr ''VERSION_NOT_FOUND'')
      | Some target \<Rightarrow>
          if cv_collection target \<noteq> col_collection_id c then Inl (ValueErr ''VERSION_NOT_FOUND'')
          else
            (case get_collection db (col_collection_id c) of
               None \<Rightarrow> Inl (RuntimeErr ''collection missing'')
             | Some view \<Rightarrow>
                 Inr \<lparr>mp_from = col_collection_version c, mp_number = cv_number target,
                      mp_changes = field_changes (bound_fields docs db c) (cv_fields target),
                      mp_blockers =
                        (if col_lifecycle c = Archived then [''COLLECTOR_ARCHIVED''] else []) @
                        (if cn_status (cw_data view) = ''archived'' then [''COLLECTION_ARCHIVED''] else []) @
                        (if col_pending_version c \<noteq> None then [''MIGRATION_ALREADY_ACTIVE''] else []) @
                        (if col_collection_version c = target_id then [''VERSION_ALREADY_BOUND''] else []) @
                        (if has_active_run db cid then [''RUN_ALREADY_ACTIVE''] else []) @
                        (if active_operation_unfinished db c then [''OPERATION_ALREADY_ACTIVE''] else []),
                      mp_digest = sha256_tag (ph (migration_digest_json docs c target (cn_revision (cw_data view))))\<rparr>)))"

text \<open>What a migration keeps of the source, to be put back when it is cancelled.\<close>

definition snapshot_of :: "collector \<Rightarrow> string \<times> json option \<times> string \<times> string option" where
  "snapshot_of c = (col_status c, col_candidate c, col_preview_items c, col_review_decisions c)"

fun restore_snapshot :: "string \<times> json option \<times> string \<times> string option \<Rightarrow> collector \<Rightarrow> collector" where
  "restore_snapshot (status, candidate, preview, decisions) c =
     c\<lparr>col_status := status, col_candidate := candidate, col_preview_items := preview, col_review_decisions := decisions\<rparr>"

definition start_migration :: "db \<Rightarrow> collector \<Rightarrow> string \<Rightarrow> migration_plan \<Rightarrow> ts \<Rightarrow> db \<times> collector" where
  "start_migration db c target plan now =
     (let m = \<lparr>mg_from = col_collection_version c, mg_target = target, mg_number = mp_number plan,
               mg_status = ''awaiting_compile'', mg_started = now\<rparr>;
          row = \<lparr>mgr_collector = col_id c, mgr_data = m, mgr_snapshot = snapshot_of c,
                 mgr_definition = Some (col_intent c, col_source_url c)\<rparr>
      in (db\<lparr>t_migrations := tbl_upsert mgr_collector row (\<lambda>_. row) (t_migrations db)\<rparr>,
          c\<lparr>col_pending_version := Some target, col_migration := Some m, col_status := ''draft'', col_review_decisions := None\<rparr>))"

definition cancel_migration :: "db \<Rightarrow> collector \<Rightarrow> string \<Rightarrow> py_exc + db \<times> collector" where
  "cancel_migration db c target =
     (case tbl_get mgr_collector (col_id c) (t_migrations db) of
        None \<Rightarrow> Inl (ValueErr ''MIGRATION_NOT_ACTIVE'')
      | Some row \<Rightarrow>
          if col_pending_version c \<noteq> Some target then Inl (ValueErr ''MIGRATION_NOT_ACTIVE'')
          else if active_operation_unfinished db c then Inl (ValueErr ''OPERATION_ALREADY_ACTIVE'')
          else
            (let c1 = (if mgr_definition row = Some (col_intent c, col_source_url c)
                       then restore_snapshot (mgr_snapshot row) c
                       else c\<lparr>col_status := ''draft'', col_candidate := None, col_preview_items := [], col_review_decisions := None\<rparr>)
             in Inr (db\<lparr>t_migrations := tbl_del mgr_collector (col_id c) (t_migrations db)\<rparr>,
                     c1\<lparr>col_pending_version := None, col_migration := None, col_active_operation := None\<rparr>)))"

definition migration_scope :: "bool \<Rightarrow> string \<Rightarrow> string" where
  "migration_scope cancel cid = ''POST:/collectors/'' @ cid @ ''/collection-migration'' @ (if cancel then ''/cancel'' else [])"

text \<open>The body of a start carries the plan and the reviewed changes; of a cancel, the target alone.\<close>

definition migration_body :: "bool \<Rightarrow> string \<Rightarrow> string \<Rightarrow> string list \<Rightarrow> json" where
  "migration_body cancel target digest confirmed =
     (if cancel then JObj [(''targetVersionId'', JStr target)]
      else JObj [(''confirmedChanges'', JArr (map JStr confirmed)), (''planDigest'', JStr digest), (''targetVersionId'', JStr target)])"

definition migrate_source ::
  "hasher \<Rightarrow> documents \<Rightarrow> db \<Rightarrow> string \<Rightarrow> collector \<Rightarrow> bool \<Rightarrow> string \<Rightarrow> string \<Rightarrow> string list \<Rightarrow> ts \<Rightarrow> py_exc + db \<times> collector" where
  "migrate_source ph docs db cid c cancel target digest confirmed now =
     (if cancel then cancel_migration db c target
      else
        (case make_migration_plan ph docs db cid target of
           Inl e \<Rightarrow> Inl e
         | Inr plan \<Rightarrow>
             if mp_blockers plan \<noteq> [] then Inl (ValueErr (hd (mp_blockers plan)))
             else if mp_digest plan \<noteq> digest then Inl (ValueErr ''MIGRATION_CONFLICT'')
             else if \<not> same_items confirmed (mp_changes plan) then Inl (ValueErr ''MIGRATION_REVIEW_REQUIRED'')
             else Inr (start_migration db c target plan now)))"

definition migration_command ::
  "hasher \<Rightarrow> documents \<Rightarrow> db \<Rightarrow> string \<Rightarrow> bool \<Rightarrow> string \<Rightarrow> string \<Rightarrow> string list \<Rightarrow> string \<Rightarrow> audit_args \<Rightarrow> string \<Rightarrow> ts \<Rightarrow>
   outcome" where
  "migration_command ph docs db cid cancel target digest confirmed key audit event_id now =
     with_receipt ph db (migration_scope cancel cid) key (migration_body cancel target digest confirmed)
      (case lock_collector db cid of
         Some e \<Rightarrow> Inl e
       | None \<Rightarrow>
      (case get_collector db cid of
         None \<Rightarrow> Inl (LifecycleErr ''COLLECTOR_NOT_FOUND'')
       | Some c \<Rightarrow>
      (case require_active (Some c) of
         Some e \<Rightarrow> Inl e
       | None \<Rightarrow>
      (case migrate_source ph docs db cid c cancel target digest confirmed now of
         Inl e \<Rightarrow> Inl e
       | Inr (db1, c1) \<Rightarrow>
      (case save_collector db1 c1 False now of
         Inl e \<Rightarrow> Inl e
       | Inr (db2, c2) \<Rightarrow>
           finish_command ph db2 (migration_scope cancel cid) key (migration_body cancel target digest confirmed)
             (doc_collector docs c2) 200 audit ''collector'' cid
             (if cancel then ''collection_migration.cancelled'' else ''collection_migration.started'') event_id now)))))"

end
