(* ===== verification/Source_Edits.thy ===== *)
theory Source_Edits
  imports Reassignment
begin

text \<open>
  What the management commands leave alone. An edit of a source keeps the collections,
  versions and receipts and, for every source, the fields that bind it to a collection
  (\<open>same_sources\<close>); a save then replaces one source.
\<close>

definition same_binding :: "collector \<Rightarrow> collector \<Rightarrow> bool" where
  "same_binding c d \<longleftrightarrow> col_id d = col_id c \<and> col_collection_id d = col_collection_id c \<and>
     col_collection_version d = col_collection_version c \<and> col_pending_version d = col_pending_version c"

definition same_catalog :: "db \<Rightarrow> db \<Rightarrow> bool" where
  "same_catalog db db' \<longleftrightarrow> t_collections db' = t_collections db \<and> t_versions db' = t_versions db \<and> t_deleted db' = t_deleted db"

definition same_sources :: "db \<Rightarrow> db \<Rightarrow> bool" where
  "same_sources db db' \<longleftrightarrow> same_catalog db db' \<and>
     (\<forall>k. rel_option same_binding (stored_collector db k) (stored_collector db' k))"

lemma same_binding_refl [simp]: "same_binding c c"
  by (simp add: same_binding_def)

lemma same_binding_trans: "same_binding a b \<Longrightarrow> same_binding b c \<Longrightarrow> same_binding a c"
  by (simp add: same_binding_def)

lemma same_catalog_refl [simp]: "same_catalog db db"
  by (simp add: same_catalog_def)

lemma same_catalog_trans: "same_catalog a b \<Longrightarrow> same_catalog b c \<Longrightarrow> same_catalog a c"
  by (simp add: same_catalog_def)

lemma same_sources_refl [simp]: "same_sources db db"
  by (simp add: same_sources_def option.rel_refl)

lemma same_sources_trans: "same_sources a b \<Longrightarrow> same_sources b c \<Longrightarrow> same_sources a c"
  unfolding same_sources_def
  by (meson same_catalog_trans option.rel_transp [unfolded transp_def, of same_binding] same_binding_trans)

lemma same_sources_tables:
  "same_catalog db db' \<Longrightarrow> t_collectors db' = t_collectors db \<Longrightarrow> same_sources db db'"
  by (simp add: same_sources_def stored_collector_def option.rel_refl)

text \<open>The end of a command writes the audit and the receipt.\<close>

lemma finish_command_only:
  assumes "finish_command ph db scope key body value status audit tt tid action i now = Inr (db', st, v, rep)"
  shows "\<exists>a r. db' = db\<lparr>t_audit := a, t_receipts := r\<rparr>"
  using assms by (auto simp: finish_command_def append_audit_event_def Let_def split: if_splits)

lemma finish_audited_cases:
  assumes "finish_audited ph db scope key body value status audit tt tid action b a i now = Inr (db', st, v, rep)"
  obtains audits where "find_receipt db scope key = None" "st = status" "v = value"
    "db' = db\<lparr>t_audit := audits, t_receipts := t_receipts db @
      [\<lparr>rc_scope = scope, rc_key = key, rc_request_hash = ph body, rc_status = status, rc_response = value, rc_created = now\<rparr>]\<rparr>"
proof -
  define db1 where "db1 = (case audit of
                   None \<Rightarrow> db
                 | Some x \<Rightarrow> append_audit_event ph db i (aa_tenant x) tt tid (x\<lparr>aa_action := action\<rparr>) b a now)"
  have "\<exists>audits. db1 = db\<lparr>t_audit := audits\<rparr>"
  proof (cases audit)
    case None
    then have "db1 = db\<lparr>t_audit := t_audit db\<rparr>" by (simp add: db1_def)
    then show ?thesis ..
  next
    case (Some x)
    then show ?thesis by (simp add: db1_def append_audit_event_def) blast
  qed
  then obtain audits where db1: "db1 = db\<lparr>t_audit := audits\<rparr>" ..
  have "find_receipt db1 scope key = None \<and> st = status \<and> v = value \<and>
    db' = db1\<lparr>t_receipts := t_receipts db1 @
      [\<lparr>rc_scope = scope, rc_key = key, rc_request_hash = ph body, rc_status = status, rc_response = value, rc_created = now\<rparr>]\<rparr>"
    using assms unfolding finish_audited_def db1_def [symmetric] Let_def by (auto split: if_splits)
  then show ?thesis using that [of audits] by (simp add: db1 find_receipt_def)
qed

lemma stored_collector_frame [simp]:
  "stored_collector (db\<lparr>t_audit := a\<rparr>) k = stored_collector db k"
  "stored_collector (db\<lparr>t_receipts := r\<rparr>) k = stored_collector db k"
  "stored_collector (db\<lparr>t_schedules := sc\<rparr>) k = stored_collector db k"
  "stored_collector (db\<lparr>t_checkpoints := ck\<rparr>) k = stored_collector db k"
  "stored_collector (db\<lparr>t_migrations := m\<rparr>) k = stored_collector db k"
  "stored_collector (db\<lparr>t_deleted := d\<rparr>) k = stored_collector db k"
  "stored_collector (db\<lparr>t_collections := cs\<rparr>) k = stored_collector db k"
  "stored_collector (db\<lparr>t_versions := v\<rparr>) k = stored_collector db k"
  "stored_collector (db\<lparr>t_policies := p\<rparr>) k = stored_collector db k"
  by (simp_all add: stored_collector_def)

lemma finish_same_sources:
  assumes "db' = db\<lparr>t_audit := a, t_receipts := r\<rparr>"
  shows "same_sources db db'"
  by (rule same_sources_tables) (simp_all add: assms same_catalog_def)

lemma finish_audited_records:
  assumes "finish_audited ph db scope key body value status audit tt tid action b a i now = Inr (db', st, v, rep)"
  shows "receipt ph db' scope key body = Inr (Some (st, v)) \<and> keeps_receipts db db'"
proof -
  obtain audits where f: "find_receipt db scope key = None" "st = status" "v = value" and
    db': "db' = db\<lparr>t_audit := audits, t_receipts := t_receipts db @
      [\<lparr>rc_scope = scope, rc_key = key, rc_request_hash = ph body, rc_status = status, rc_response = value, rc_created = now\<rparr>]\<rparr>"
    by (rule finish_audited_cases [OF assms])
  have "receipt ph db' scope key body = Inr (Some (st, v))"
    using f by (simp add: db' receipt_def find_receipt_def find_append)
  moreover have "keeps_receipts db db'" by (simp add: db' keeps_receipts_def find_receipt_def find_append)
  ultimately show ?thesis ..
qed

subsection \<open>Edits of a source\<close>

text \<open>An ordinary save of what the store holds, with the binding as it was.\<close>

lemma save_same_binding:
  assumes run: "save_collector db d m now = Inr (db', d')" and old: "stored_collector db (col_id d) = Some c"
    and bind: "same_binding c d"
  shows "same_sources db db'" "same_binding c d'" "stored_collector db' (col_id d) = Some d'"
proof -
  have d': "d' = d \<or> (\<exists>n. d' = d\<lparr>col_revision := n\<rparr>)"
    using run by (auto simp: save_collector_def Let_def split: if_splits)
  show b: "same_binding c d'" using d' bind by (auto simp: same_binding_def)
  note st = save_collector_stored(1) [OF run]
  show "stored_collector db' (col_id d) = Some d'" by (simp add: st)
  have "rel_option same_binding (stored_collector db k) (stored_collector db' k)" for k
    by (simp add: st old b option.rel_refl)
  moreover have "same_catalog db db'"
    by (rule save_collector_only [OF run]) (simp add: same_catalog_def)
  ultimately show "same_sources db db'" by (simp add: same_sources_def)
qed

lemma get_collector_binding:
  assumes "get_collector db cid = Some c"
  obtains old where "stored_collector db cid = Some old" "same_binding old c" "\<not> is_deleted db cid"
proof -
  obtain old where old: "stored_collector db cid = Some old" "\<not> is_deleted db cid"
    and c: "c = old\<lparr>col_collection_name := col_collection_name c\<rparr>"
    using get_collector_stored [OF assms] by metis
  have "same_binding old (old\<lparr>col_collection_name := col_collection_name c\<rparr>)" by (simp add: same_binding_def)
  then show ?thesis using that [OF old(1) _ old(2)] c by metis
qed

lemma freeze_history_only:
  "\<exists>ow. freeze_history db cid snapshot = db\<lparr>t_ownership := ow\<rparr>"
proof -
  have one: "\<exists>ow'. save_attribution (db\<lparr>t_ownership := ow\<rparr>) k r cid v = db\<lparr>t_ownership := ow'\<rparr>" for ow k r v
    by (auto simp: save_attribution_def split: option.splits)
  have "\<exists>ow'. fold (\<lambda>((kind, rid), a) db. save_attribution db kind rid cid (Some a)) os (db\<lparr>t_ownership := ow\<rparr>) =
      db\<lparr>t_ownership := ow'\<rparr>" for os ow
  proof (induction os arbitrary: ow)
    case Nil
    then show ?case by auto
  next
    case (Cons o' os)
    obtain k r a where o': "o' = ((k, r), a)" by (metis prod.exhaust)
    obtain ow1 where "save_attribution (db\<lparr>t_ownership := ow\<rparr>) k r cid (Some a) = db\<lparr>t_ownership := ow1\<rparr>"
      using one by metis
    then show ?case using Cons.IH [of ow1] by (simp add: o')
  qed
  from this [of "hs_owners snapshot" "t_ownership db"] show ?thesis by (simp add: freeze_history_def)
qed

text \<open>A save of the source as it was read, with other fields changed.\<close>

lemma save_read_source:
  assumes c: "get_collector db cid = Some c" and ids: "\<forall>k d. stored_collector db k = Some d \<longrightarrow> col_id d = k"
    and db1: "same_catalog db db1" "t_collectors db1 = t_collectors db"
    and d: "same_binding c d" and run: "save_collector db1 d m now = Inr (db', d')"
  shows "same_sources db db'" "same_binding c d'" "stored_collector db' cid = Some d'" "col_id c = cid"
proof -
  obtain old where old: "stored_collector db cid = Some old" "same_binding old c"
    using get_collector_binding [OF c] by metis
  have id: "col_id old = cid" using ids old(1) by blast
  then show cid: "col_id c = cid" using old(2) by (simp add: same_binding_def)
  have did: "col_id d = cid" using d cid by (simp add: same_binding_def)
  have st: "stored_collector db1 (col_id d) = Some old" using old(1) db1(2) by (simp add: did stored_collector_def)
  note s = save_same_binding [OF run st same_binding_trans [OF old(2) d]]
  show "same_sources db db'" using same_sources_tables [OF db1] s(1) by (rule same_sources_trans)
  show "stored_collector db' cid = Some d'" using s(3) by (simp add: did)
  show "same_binding c d'" using old(2) s(2) by (simp add: same_binding_def)
qed

definition ids_match :: "db \<Rightarrow> bool" where
  "ids_match db \<longleftrightarrow> (\<forall>k d. stored_collector db k = Some d \<longrightarrow> col_id d = k)"

lemma same_sources_stored:
  assumes "same_sources db db'" and "stored_collector db' k = Some d"
  shows "\<exists>c. stored_collector db k = Some c \<and> same_binding c d"
proof -
  have "rel_option same_binding (stored_collector db k) (stored_collector db' k)"
    using assms(1) by (simp add: same_sources_def)
  then have "rel_option same_binding (stored_collector db k) (Some d)" unfolding assms(2) .
  then show ?thesis by (cases "stored_collector db k") simp_all
qed

lemma ids_match_same:
  assumes "same_sources db db'" and "ids_match db"
  shows "ids_match db'"
  unfolding ids_match_def
proof (intro allI impI)
  fix k d assume "stored_collector db' k = Some d"
  from same_sources_stored [OF assms(1) this] obtain c where "stored_collector db k = Some c" "same_binding c d" by blast
  with assms(2) show "col_id d = k" by (simp add: ids_match_def same_binding_def)
qed

lemma save_schedule_cases:
  assumes "save_schedule cron_valid next_time db cid v now = Inr (db', c')"
  obtains s x c where "get_collector db cid = Some c"
    "save_collector (db\<lparr>t_schedules := s\<rparr>) (c\<lparr>col_schedule := x, col_updated := JustNow\<rparr>) False now = Inr (db', c')"
  using assms unfolding save_schedule_def Let_def by (auto split: sum.splits option.splits if_splits)

lemma disable_schedule_cases:
  assumes "disable_schedule cron_valid next_time db c now = Inr (db1, c1)"
  obtains (off) "db1 = db" "c1 = c"
    | (on) v d x where "save_schedule cron_valid next_time db (col_id c) v now = Inr (db1, d)" "c1 = c\<lparr>col_schedule := x\<rparr>"
proof (cases "\<exists>s. current_schedule db c = Some s \<and> sv_enabled (sch_values s)")
  case False
  then have "disable_schedule cron_valid next_time db c now = Inr (db, c)"
    unfolding disable_schedule_def by (cases "current_schedule db c") simp_all
  then show ?thesis using assms by (intro off) simp_all
next
  case True
  then obtain s where s: "current_schedule db c = Some s" "sv_enabled (sch_values s)" by blast
  let ?v = "(sch_values s)\<lparr>sv_enabled := False\<rparr>"
  note run = assms [unfolded disable_schedule_def s(1) option.case if_P [OF s(2)]]
  obtain db0 d where save: "save_schedule cron_valid next_time db (col_id c) ?v now = Inr (db0, d)"
    using run by (cases "save_schedule cron_valid next_time db (col_id c) ?v now") auto
  obtain fresh where fresh: "get_collector db0 (col_id c) = Some fresh"
    using run unfolding save sum.case prod.case by (cases "get_collector db0 (col_id c)") auto
  have "db1 = db0" and c1: "c1 = c\<lparr>col_schedule := col_schedule fresh\<rparr>"
    using run unfolding save fresh sum.case prod.case option.case by simp_all
  then have "save_schedule cron_valid next_time db (col_id c) ?v now = Inr (db1, d)" using save by simp
  then show ?thesis using c1 by (rule on)
qed

lemma disable_schedule_receipts:
  "disable_schedule cron_valid next_time db c now = Inr (db1, c1) \<Longrightarrow> t_receipts db1 = t_receipts db"
proof (elim disable_schedule_cases)
  fix v d x
  assume "save_schedule cron_valid next_time db (col_id c) v now = Inr (db1, d)"
  then show ?thesis by (rule save_schedule_cases) (simp add: save_collector_frame(13))
qed simp

lemma invalidate_execution_cases:
  assumes "invalidate_execution cron_valid next_time db c now = Inr (db1, c1)"
  obtains db0 c0 where "disable_schedule cron_valid next_time db c now = Inr (db0, c0)"
    "db1 = db0\<lparr>t_checkpoints := tbl_del ck_collector (col_id c) (t_checkpoints db0)\<rparr>"
    "c1 = c0\<lparr>col_status := ''draft'', col_active_rule := None, col_candidate := None, col_preview_items := [],
                  col_review_decisions := None, col_checkpoint := None, col_active_operation := None\<rparr>"
  using assms unfolding invalidate_execution_def by (auto split: sum.splits)

lemma invalidate_execution_receipts:
  "invalidate_execution cron_valid next_time db c now = Inr (db1, c1) \<Longrightarrow> t_receipts db1 = t_receipts db"
  by (erule invalidate_execution_cases) (simp add: disable_schedule_receipts)

lemma save_schedule_edit:
  assumes run: "save_schedule cron_valid next_time db cid v now = Inr (db', c')" and ids: "ids_match db"
  shows "same_sources db db'"
proof (rule save_schedule_cases [OF run])
  fix s x c
  assume c: "get_collector db cid = Some c"
    and save: "save_collector (db\<lparr>t_schedules := s\<rparr>) (c\<lparr>col_schedule := x, col_updated := JustNow\<rparr>) False now = Inr (db', c')"
  show ?thesis
    by (rule save_read_source(1) [OF c _ _ _ _ save]) (use ids in \<open>simp_all add: ids_match_def same_catalog_def same_binding_def\<close>)
qed

lemma disable_schedule_edit:
  assumes run: "disable_schedule cron_valid next_time db c now = Inr (db1, c1)" and ids: "ids_match db"
  shows "same_sources db db1" "same_binding c c1"
proof -
  have "same_sources db db1 \<and> same_binding c c1"
    using run
  proof (cases rule: disable_schedule_cases)
    case off
    then show ?thesis by simp
  next
    case (on v d x)
    then show ?thesis using save_schedule_edit [OF on(1) ids] by (simp add: same_binding_def)
  qed
  then show "same_sources db db1" "same_binding c c1" by simp_all
qed

lemma invalidate_execution_edit:
  assumes run: "invalidate_execution cron_valid next_time db c now = Inr (db1, c1)" and ids: "ids_match db"
  shows "same_sources db db1" "same_binding c c1"
proof -
  have "same_sources db db1 \<and> same_binding c c1"
    using run
  proof (cases rule: invalidate_execution_cases)
    case (1 db0 c0)
    have "same_sources db0 db1" by (rule same_sources_tables) (simp_all add: 1(2) same_catalog_def)
    moreover have "same_binding c0 c1" by (simp add: 1(3) same_binding_def)
    ultimately show ?thesis
      using disable_schedule_edit [OF 1(1) ids] same_sources_trans same_binding_trans by metis
  qed
  then show "same_sources db db1" "same_binding c c1" by simp_all
qed

end
