(* ===== verification/Management.thy ===== *)
theory Management
  imports Source_Edits
begin

text \<open>
  The reviewed commands of the management interface as one family: collections, versions,
  lifecycle, definition, reassignment and migration. All of them keep the contract of an
  idempotent command, and none writes a receipt but its own.
\<close>

datatype management_command =
    OnCollection collection_request
  | PublishVersion string nat "string option"
  | ChangeLifecycle string lifecycle_action string
  | Redefine string json nat source_definition
  | Reassign string string string "string list"
  | Migrate string bool string string "string list"

text \<open>A request: the command, its idempotency key, the actor, and the fresh id and time it is run with.\<close>

record management_request =
  mq_command :: management_command
  mq_key :: string
  mq_audit :: audit_args
  mq_hex :: string
  mq_event :: string
  mq_now :: ts

fun command_scope_of :: "management_command \<Rightarrow> string" where
  "command_scope_of (OnCollection req) = request_scope req"
| "command_scope_of (PublishVersion cid revision note) = ''POST:/collections/'' @ cid @ ''/publish-version''"
| "command_scope_of (ChangeLifecycle cid action digest) = lifecycle_scope cid"
| "command_scope_of (Redefine cid body revision d) = definition_scope cid"
| "command_scope_of (Reassign cid target digest confirmed) = reassignment_scope cid"
| "command_scope_of (Migrate cid cancel target digest confirmed) = migration_scope cancel cid"

fun command_body_of :: "management_command \<Rightarrow> json" where
  "command_body_of (OnCollection req) = request_body req"
| "command_body_of (PublishVersion cid revision note) = publish_body revision note"
| "command_body_of (ChangeLifecycle cid action digest) = lifecycle_body action digest"
| "command_body_of (Redefine cid body revision d) = body"
| "command_body_of (Reassign cid target digest confirmed) = reassignment_body target digest confirmed"
| "command_body_of (Migrate cid cancel target digest confirmed) = migration_body cancel target digest confirmed"

text \<open>The surroundings of the commands: the two digests, the cron library, the documents.\<close>

record surroundings =
  sr_hash :: hasher
  sr_sha :: hasher
  sr_cron :: "string \<Rightarrow> bool"
  sr_next :: cron_next
  sr_docs :: documents

fun run_command :: "surroundings \<Rightarrow> db \<Rightarrow> management_command \<Rightarrow> string \<Rightarrow> audit_args \<Rightarrow> string \<Rightarrow> string \<Rightarrow> ts \<Rightarrow> outcome" where
  "run_command s db (OnCollection req) key audit hex i now =
     collection_command (sr_hash s) (sr_docs s) db req key (Some audit) hex i now"
| "run_command s db (PublishVersion cid revision note) key audit hex i now =
     publish_collection_version_command (sr_hash s) (sr_docs s) (sr_sha s) db cid revision note key (Some audit) hex i now"
| "run_command s db (ChangeLifecycle cid action digest) key audit hex i now =
     lifecycle_command (sr_hash s) (sr_cron s) (sr_next s) (sr_docs s) db cid action digest key audit i now"
| "run_command s db (Redefine cid body revision d) key audit hex i now =
     definition_command (sr_hash s) (sr_cron s) (sr_next s) (sr_docs s) db cid body revision d key audit i now"
| "run_command s db (Reassign cid target digest confirmed) key audit hex i now =
     reassignment_command (sr_hash s) (sr_cron s) (sr_next s) (sr_docs s) db cid target digest confirmed key audit i now"
| "run_command s db (Migrate cid cancel target digest confirmed) key audit hex i now =
     migration_command (sr_hash s) (sr_docs s) db cid cancel target digest confirmed key audit i now"

definition run_management :: "surroundings \<Rightarrow> db \<Rightarrow> management_request \<Rightarrow> outcome" where
  "run_management s db q = run_command s db (mq_command q) (mq_key q) (mq_audit q) (mq_hex q) (mq_event q) (mq_now q)"

subsection \<open>The work of each command before its receipt\<close>

lemma store_collection_frame [simp]:
  "t_receipts (store_collection db cn) = t_receipts db" "t_collectors (store_collection db cn) = t_collectors db"
  "t_versions (store_collection db cn) = t_versions db" "t_deleted (store_collection db cn) = t_deleted db"
  by (simp_all add: store_collection_def)

lemma run_request_receipts: "run_request docs db req hex now = Inr (db1, cid, v) \<Longrightarrow> t_receipts db1 = t_receipts db"
  by (cases req)
    (auto simp: create_collection_def insert_collection_def change_collection_def delete_collection_def Let_def map_sum_Inr_iff
      split: option.splits if_splits)

lemma publish_receipts: "publish_collection_version sha db cid revision actor note hex now = Inr (db1, v) \<Longrightarrow> t_receipts db1 = t_receipts db"
  by (auto simp: publish_collection_version_def Let_def split: option.splits sum.splits if_splits)

lemma change_lifecycle_cases:
  assumes run: "change_lifecycle cron_valid next_time docs db c action now = Inr (db', v)"
  obtains ow db1 c1 db2 c2 where
    "disable_schedule cron_valid next_time (db\<lparr>t_ownership := ow\<rparr>) c now = Inr (db1, c1)"
    "save_collector db1 (c1\<lparr>col_lifecycle := (if action = RestoreSource then Active else Archived), col_updated := JustNow\<rparr>)
        True now = Inr (db2, c2)"
    "db' = (if action = DeleteSource then db2\<lparr>t_deleted := t_deleted db2 @ [(col_id c, now)]\<rparr> else db2)"
proof -
  define db0 where "db0 = (if action = DeleteSource then freeze_history db (col_id c) (history_snapshot db c) else db)"
  have "\<exists>ow. db0 = db\<lparr>t_ownership := ow\<rparr>"
  proof (cases "action = DeleteSource")
    case True
    then show ?thesis using freeze_history_only by (simp add: db0_def)
  next
    case False
    then have "db0 = db\<lparr>t_ownership := t_ownership db\<rparr>" by (simp add: db0_def)
    then show ?thesis ..
  qed
  then obtain ow where db0: "db0 = db\<lparr>t_ownership := ow\<rparr>" ..
  note run' = run [unfolded change_lifecycle_def Let_def, folded db0_def]
  obtain db1 c1 where dis: "disable_schedule cron_valid next_time db0 c now = Inr (db1, c1)"
    using run' by (cases "disable_schedule cron_valid next_time db0 c now") auto
  obtain db2 c2 where save: "save_collector db1 (c1\<lparr>col_lifecycle := (if action = RestoreSource then Active else Archived), col_updated := JustNow\<rparr>)
        True now = Inr (db2, c2)"
    using run' unfolding dis sum.case prod.case
    by (cases "save_collector db1 (c1\<lparr>col_lifecycle := (if action = RestoreSource then Active else Archived), col_updated := JustNow\<rparr>) True now") auto
  have "db' = (if action = DeleteSource then db2\<lparr>t_deleted := t_deleted db2 @ [(col_id c, now)]\<rparr> else db2)"
    using run' unfolding dis save sum.case prod.case by (auto split: if_splits)
  then show ?thesis using that [of ow db1 c1 db2 c2] dis save unfolding db0 by simp
qed

lemma change_lifecycle_receipts:
  assumes "change_lifecycle cron_valid next_time docs db c action now = Inr (db', v)"
  shows "t_receipts db' = t_receipts db"
proof (rule change_lifecycle_cases [OF assms])
  fix ow db1 c1 db2 c2
  assume dis: "disable_schedule cron_valid next_time (db\<lparr>t_ownership := ow\<rparr>) c now = Inr (db1, c1)"
    and save: "save_collector db1 (c1\<lparr>col_lifecycle := (if action = RestoreSource then Active else Archived), col_updated := JustNow\<rparr>)
        True now = Inr (db2, c2)"
    and db': "db' = (if action = DeleteSource then db2\<lparr>t_deleted := t_deleted db2 @ [(col_id c, now)]\<rparr> else db2)"
  have "t_receipts db2 = t_receipts db"
    using disable_schedule_receipts [OF dis] save_collector_frame(13) [OF save] by simp
  then show ?thesis by (simp add: db')
qed

text \<open>Whatever the action, the source keeps its binding; a deletion adds the tombstone.\<close>

lemma change_lifecycle_edit:
  assumes run: "change_lifecycle cron_valid next_time docs db c action now = Inr (db', v)"
    and c: "get_collector db cid = Some c" and ids: "ids_match db"
  shows "\<exists>db2. same_sources db db2 \<and> (db' = db2 \<or> db' = db2\<lparr>t_deleted := t_deleted db2 @ [(cid, now)]\<rparr>)"
proof (rule change_lifecycle_cases [OF run])
  fix ow db1 c1 db2 c2
  assume dis: "disable_schedule cron_valid next_time (db\<lparr>t_ownership := ow\<rparr>) c now = Inr (db1, c1)"
    and save: "save_collector db1 (c1\<lparr>col_lifecycle := (if action = RestoreSource then Active else Archived), col_updated := JustNow\<rparr>)
        True now = Inr (db2, c2)"
    and db': "db' = (if action = DeleteSource then db2\<lparr>t_deleted := t_deleted db2 @ [(col_id c, now)]\<rparr> else db2)"
  obtain old where old: "stored_collector db cid = Some old" "same_binding old c" using get_collector_binding [OF c] by metis
  then have cid: "col_id c = cid" using ids by (auto simp: ids_match_def same_binding_def)
  have s0: "same_sources db (db\<lparr>t_ownership := ow\<rparr>)" by (rule same_sources_tables) (simp_all add: same_catalog_def)
  note d = disable_schedule_edit [OF dis ids_match_same [OF s0 ids]]
  have s1: "same_sources db db1" by (rule same_sources_trans [OF s0 d(1)])
  have "rel_option same_binding (stored_collector db cid) (stored_collector db1 cid)"
    using s1 by (simp add: same_sources_def)
  then obtain st where st: "stored_collector db1 cid = Some st" and o': "same_binding old st"
    by (cases "stored_collector db1 cid") (simp_all add: old(1))
  have st_c: "same_binding st c1" using o' old(2) d(2) by (simp add: same_binding_def)
  have "same_sources db1 db2"
    by (rule save_same_binding(1) [OF save, of st]) (use st st_c d(2) in \<open>simp_all add: same_binding_def cid\<close>)
  then have "same_sources db db2" by (rule same_sources_trans [OF s1])
  then show ?thesis by (auto simp: db' cid)
qed

subsection \<open>The shape of a successful command\<close>

lemma collection_command_cases:
  assumes "collection_command ph docs db req key audit hex i now = Inr (db', st, v, rep)"
  obtains (replayed) "receipt ph db (request_scope req) key (request_body req) = Inr (Some (st, v))" "db' = db"
    | (executed) db1 cid w status tid action before after where "run_request docs db req hex now = Inr (db1, cid, w)"
        "finish_audited ph db1 (request_scope req) key (request_body req) w status audit ''collection'' tid action before after i now =
           Inr (db', st, v, rep)"
  using assms unfolding collection_command_def
proof (cases rule: with_receipt_cases)
  case replayed
  then show ?thesis using that(1) by blast
next
  case executed
  then show ?thesis using that(2) by (auto simp: Let_def split: option.splits sum.splits)
qed

lemma publish_command_cases:
  assumes "publish_collection_version_command ph docs sha db cid revision note key audit hex i now = Inr (db', st, v, rep)"
  obtains (replayed) "receipt ph db (''POST:/collections/'' @ cid @ ''/publish-version'') key (publish_body revision note) = Inr (Some (st, v))" "db' = db"
    | (executed) db1 cv actor w status tid action before after where
        "publish_collection_version sha db cid revision actor note hex now = Inr (db1, cv)"
        "finish_audited ph db1 (''POST:/collections/'' @ cid @ ''/publish-version'') key (publish_body revision note) w status audit
           ''collection_version'' tid action before after i now = Inr (db', st, v, rep)"
  using assms unfolding publish_collection_version_command_def Let_def
proof (cases rule: with_receipt_cases)
  case replayed
  then show ?thesis using that(1) by simp
next
  case executed
  then show ?thesis using that(2) by (auto split: sum.splits)
qed

lemma lifecycle_command_cases:
  assumes "lifecycle_command ph cron next docs db cid action digest key audit i now = Inr (db', st, v, rep)"
  obtains (replayed) "receipt ph db (lifecycle_scope cid) key (lifecycle_body action digest) = Inr (Some (st, v))" "db' = db"
    | (executed) plan c db1 w where "make_lifecycle_plan ph docs db cid = Inr plan" "lp_blockers plan = []" "lp_digest plan = digest"
        "get_collector db cid = Some c" "change_lifecycle cron next docs db c action now = Inr (db1, w)"
        "finish_command ph db1 (lifecycle_scope cid) key (lifecycle_body action digest) w 200 audit ''collector'' cid
           (''collector.'' @ action_text action) i now = Inr (db', st, v, rep)"
  using assms unfolding lifecycle_command_def
proof (cases rule: with_receipt_cases)
  case replayed
  then show ?thesis using that(1) by blast
next
  case executed
  then show ?thesis using that(2) by (auto split: option.splits sum.splits if_splits)
qed

lemma definition_command_cases:
  assumes "definition_command ph cron next docs db cid body revision d key audit i now = Inr (db', st, v, rep)"
  obtains (replayed) "receipt ph db (definition_scope cid) key body = Inr (Some (st, v))" "db' = db"
    | (executed) c db1 c1 db2 c2 where "get_collector db cid = Some c" "require_active (Some c) = None" "col_revision c = revision"
        "active_blockers db cid = []" "col_pending_version c = None" "\<not> source_exists db (sd_url d) (Some cid)"
        "(if col_intent c \<noteq> sd_intent d \<or> col_source_url c \<noteq> sd_url d then invalidate_execution cron next db c now else Inr (db, c)) = Inr (db1, c1)"
        "save_collector db1 (c1\<lparr>col_name := sd_name d, col_intent := sd_intent d, col_source_url := sd_url d,
                                         col_source_host := sd_host d, col_updated := JustNow\<rparr>) True now = Inr (db2, c2)"
        "finish_command ph db2 (definition_scope cid) key body (doc_collector docs c2) 200 audit ''collector'' cid
           ''collector.definition_updated'' i now = Inr (db', st, v, rep)"
  using assms unfolding definition_command_def
proof (cases rule: with_receipt_cases)
  case replayed
  then show ?thesis using that(1) by blast
next
  case executed
  obtain c where c: "get_collector db cid = Some c" using executed(2) by (auto split: option.splits)
  have lock: "lock_collector db cid = None" using lock_collector_get c by simp
  have guards: "require_active (Some c) = None" "col_revision c = revision" "active_blockers db cid = []"
    "col_pending_version c = None" "\<not> source_exists db (sd_url d) (Some cid)"
    using executed(2) by (auto simp: lock c split: option.splits if_splits)
  let ?inv = "if col_intent c \<noteq> sd_intent d \<or> col_source_url c \<noteq> sd_url d then invalidate_execution cron next db c now else Inr (db, c)"
  have run: "(case ?inv of
                Inl e \<Rightarrow> Inl e
              | Inr (db1, c1) \<Rightarrow>
             (case save_collector db1 (c1\<lparr>col_name := sd_name d, col_intent := sd_intent d, col_source_url := sd_url d,
                                         col_source_host := sd_host d, col_updated := JustNow\<rparr>) True now of
                Inl e \<Rightarrow> Inl e
              | Inr (db2, c2) \<Rightarrow>
                  finish_command ph db2 (definition_scope cid) key body (doc_collector docs c2) 200 audit
                    ''collector'' cid ''collector.definition_updated'' i now)) = Inr (db', st, v, rep)"
    using executed(2) by (simp only: lock c guards option.case if_False simp_thms not_True_eq_False)
  obtain db1 c1 where i: "?inv = Inr (db1, c1)" using run by (cases ?inv) auto
  obtain db2 c2 where sv: "save_collector db1 (c1\<lparr>col_name := sd_name d, col_intent := sd_intent d, col_source_url := sd_url d,
                                         col_source_host := sd_host d, col_updated := JustNow\<rparr>) True now = Inr (db2, c2)"
    using run unfolding i sum.case prod.case
    by (cases "save_collector db1 (c1\<lparr>col_name := sd_name d, col_intent := sd_intent d, col_source_url := sd_url d,
                                         col_source_host := sd_host d, col_updated := JustNow\<rparr>) True now") auto
  show ?thesis by (rule that(2) [OF c guards i sv]) (use run in \<open>simp only: i sv sum.case prod.case\<close>)
qed

lemma reassign_source_cases:
  assumes run: "reassign_source cron next db c target plan now = Inr (db2, c2)"
  obtains ow db1 c1 where "invalidate_execution cron next (db\<lparr>t_ownership := ow\<rparr>) c now = Inr (db1, c1)"
    "save_collector db1 (c1\<lparr>col_collection_id := target, col_collection_name := rq_to_name plan,
                                     col_collection_version := rq_to_version plan, col_intent := rq_to_intent plan,
                                     col_reassigned := True, col_updated := JustNow\<rparr>) True now = Inr (db2, c2)"
proof -
  obtain ow where ow: "freeze_history db (col_id c) (history_snapshot db c) = db\<lparr>t_ownership := ow\<rparr>"
    using freeze_history_only by metis
  note run' = run [unfolded reassign_source_def Let_def ow]
  obtain db1 c1 where i: "invalidate_execution cron next (db\<lparr>t_ownership := ow\<rparr>) c now = Inr (db1, c1)"
    using run' by (cases "invalidate_execution cron next (db\<lparr>t_ownership := ow\<rparr>) c now") auto
  show ?thesis by (rule that [OF i]) (use run' in \<open>simp only: i sum.case prod.case\<close>)
qed

lemma reassignment_command_cases:
  assumes "reassignment_command ph cron next docs db cid target digest confirmed key audit i now = Inr (db', st, v, rep)"
  obtains (replayed) "receipt ph db (reassignment_scope cid) key (reassignment_body target digest confirmed) = Inr (Some (st, v))" "db' = db"
    | (executed) plan c db1 c1 where "make_reassignment_plan ph docs db cid target = Inr plan" "rq_blockers plan = []"
        "rq_digest plan = digest" "same_items confirmed (rq_changes plan)" "get_collector db cid = Some c"
        "reassign_source cron next db c target plan now = Inr (db1, c1)"
        "finish_command ph db1 (reassignment_scope cid) key (reassignment_body target digest confirmed) (doc_collector docs c1) 200
           audit ''collector'' cid ''collector.reassigned'' i now = Inr (db', st, v, rep)"
  using assms unfolding reassignment_command_def
proof (cases rule: with_receipt_cases)
  case replayed
  then show ?thesis using that(1) by blast
next
  case executed
  then show ?thesis using that(2) by (auto split: option.splits sum.splits if_splits)
qed

lemma migration_command_cases:
  assumes "migration_command ph docs db cid cancel target digest confirmed key audit i now = Inr (db', st, v, rep)"
  obtains (replayed) "receipt ph db (migration_scope cancel cid) key (migration_body cancel target digest confirmed) = Inr (Some (st, v))" "db' = db"
    | (executed) c db1 c1 db2 c2 action where "get_collector db cid = Some c" "require_active (Some c) = None"
        "migrate_source ph docs db cid c cancel target digest confirmed now = Inr (db1, c1)"
        "save_collector db1 c1 False now = Inr (db2, c2)"
        "finish_command ph db2 (migration_scope cancel cid) key (migration_body cancel target digest confirmed) (doc_collector docs c2) 200
           audit ''collector'' cid action i now = Inr (db', st, v, rep)"
  using assms unfolding migration_command_def
proof (cases rule: with_receipt_cases)
  case replayed
  then show ?thesis using that(1) by blast
next
  case executed
  then show ?thesis using that(2) by (auto split: option.splits sum.splits)
qed

text \<open>Starting and cancelling a migration touch the migrations and three fields of the source.\<close>

lemma migrate_source_cases:
  assumes run: "migrate_source ph docs db cid c cancel target digest confirmed now = Inr (db1, c1)"
  obtains (start) plan rows where "\<not> cancel" "make_migration_plan ph docs db cid target = Inr plan" "mp_blockers plan = []"
      "mp_digest plan = digest" "same_items confirmed (mp_changes plan)" "db1 = db\<lparr>t_migrations := rows\<rparr>"
      "col_pending_version c1 = Some target" "col_id c1 = col_id c" "col_collection_id c1 = col_collection_id c"
      "col_collection_version c1 = col_collection_version c"
    | (cancel) rows where "cancel" "db1 = db\<lparr>t_migrations := rows\<rparr>"
      "col_pending_version c1 = None" "col_id c1 = col_id c" "col_collection_id c1 = col_collection_id c"
      "col_collection_version c1 = col_collection_version c"
proof (cases cancel)
  case True
  obtain row where row: "tbl_get mgr_collector (col_id c) (t_migrations db) = Some row"
    using run True by (auto simp: migrate_source_def cancel_migration_def split: option.splits)
  have c1: "c1 = (if mgr_definition row = Some (col_intent c, col_source_url c)
                       then restore_snapshot (mgr_snapshot row) c
                       else c\<lparr>col_status := ''draft'', col_candidate := None, col_preview_items := [], col_review_decisions := None\<rparr>)
        \<lparr>col_pending_version := None, col_migration := None, col_active_operation := None\<rparr>"
    and db1: "db1 = db\<lparr>t_migrations := tbl_del mgr_collector (col_id c) (t_migrations db)\<rparr>"
    using run True by (simp_all add: migrate_source_def cancel_migration_def row Let_def split: if_split_asm)
  obtain a b p d where snap: "mgr_snapshot row = (a, b, p, d)" by (metis prod.exhaust)
  show ?thesis by (rule that(2) [OF True db1]) (simp_all add: c1 snap)
next
  case False
  obtain plan where plan: "make_migration_plan ph docs db cid target = Inr plan"
    using run False by (cases "make_migration_plan ph docs db cid target") (simp_all add: migrate_source_def)
  have g: "mp_blockers plan = []" "mp_digest plan = digest" "same_items confirmed (mp_changes plan)"
    and s: "start_migration db c target plan now = (db1, c1)"
    using run False by (simp_all add: migrate_source_def plan split: if_split_asm)
  show ?thesis by (rule that(1) [OF False plan g]) (use s in \<open>auto simp: start_migration_def Let_def\<close>)
qed

subsection \<open>Every management command is idempotent\<close>

lemma finish_records:
  assumes "finish_command ph db1 scope key body value status audit tt tid action i now = Inr (db', st, v, rep)"
    and "t_receipts db1 = t_receipts db"
  shows "receipt ph db' scope key body = Inr (Some (st, v)) \<and> keeps_receipts db db'"
  using finish_command_cases [OF assms(1)] keeps_receipts_same [OF assms(2)] keeps_receipts_trans by blast

lemma audited_records:
  assumes "finish_audited ph db1 scope key body value status audit tt tid action b a i now = Inr (db', st, v, rep)"
    and "t_receipts db1 = t_receipts db"
  shows "receipt ph db' scope key body = Inr (Some (st, v)) \<and> keeps_receipts db db'"
  using finish_audited_records [OF assms(1)] keeps_receipts_same [OF assms(2)] keeps_receipts_trans by blast

lemma reassign_source_receipts:
  assumes "reassign_source cron next db c target plan now = Inr (db2, c2)"
  shows "t_receipts db2 = t_receipts db"
  by (rule reassign_source_cases [OF assms]) (simp add: invalidate_execution_receipts save_collector_frame(13))

lemma replayed_records:
  "receipt ph db scope key body = Inr (Some (st, v)) \<Longrightarrow> db' = db \<Longrightarrow>
   receipt ph db' scope key body = Inr (Some (st, v)) \<and> keeps_receipts db db'"
  by simp

lemma run_command_records:
  assumes "run_command s db c key audit hex i now = Inr (db', st, v, rep)"
  shows "receipt (sr_hash s) db' (command_scope_of c) key (command_body_of c) = Inr (Some (st, v)) \<and> keeps_receipts db db'"
proof (cases c)
  case (OnCollection req)
  have run: "collection_command (sr_hash s) (sr_docs s) db req key (Some audit) hex i now = Inr (db', st, v, rep)"
    using assms by (simp add: OnCollection)
  from run show ?thesis
  proof (cases rule: collection_command_cases)
    case replayed
    then show ?thesis by (simp add: OnCollection)
  next
    case (executed db1 cid w status tid action before after)
    show ?thesis using audited_records [OF executed(2) run_request_receipts [OF executed(1)]] by (simp add: OnCollection)
  qed
next
  case (PublishVersion cid revision remark)
  have run: "publish_collection_version_command (sr_hash s) (sr_docs s) (sr_sha s) db cid revision remark key (Some audit) hex i now =
      Inr (db', st, v, rep)"
    using assms by (simp add: PublishVersion)
  from run show ?thesis
  proof (cases rule: publish_command_cases)
    case replayed
    then show ?thesis by (simp add: PublishVersion)
  next
    case (executed db1 cv actor w status tid action before after)
    show ?thesis using audited_records [OF executed(2) publish_receipts [OF executed(1)]] by (simp add: PublishVersion)
  qed
next
  case (ChangeLifecycle cid action digest)
  have run: "lifecycle_command (sr_hash s) (sr_cron s) (sr_next s) (sr_docs s) db cid action digest key audit i now = Inr (db', st, v, rep)"
    using assms by (simp add: ChangeLifecycle)
  from run show ?thesis
  proof (cases rule: lifecycle_command_cases)
    case replayed
    then show ?thesis by (simp add: ChangeLifecycle)
  next
    case (executed plan c0 db1 w)
    show ?thesis using finish_records [OF executed(6) change_lifecycle_receipts [OF executed(5)]] by (simp add: ChangeLifecycle)
  qed
next
  case (Redefine cid body revision d)
  have run: "definition_command (sr_hash s) (sr_cron s) (sr_next s) (sr_docs s) db cid body revision d key audit i now = Inr (db', st, v, rep)"
    using assms by (simp add: Redefine)
  from run show ?thesis
  proof (cases rule: definition_command_cases)
    case replayed
    then show ?thesis by (simp add: Redefine)
  next
    case (executed c0 db1 c1 db2 c2)
    have "t_receipts db1 = t_receipts db"
      using executed(7) invalidate_execution_receipts by (auto split: if_splits)
    then have "t_receipts db2 = t_receipts db" using save_collector_frame(13) [OF executed(8)] by simp
    from finish_records [OF executed(9) this] show ?thesis by (simp add: Redefine)
  qed
next
  case (Reassign cid target digest confirmed)
  have run: "reassignment_command (sr_hash s) (sr_cron s) (sr_next s) (sr_docs s) db cid target digest confirmed key audit i now =
      Inr (db', st, v, rep)"
    using assms by (simp add: Reassign)
  from run show ?thesis
  proof (cases rule: reassignment_command_cases)
    case replayed
    then show ?thesis by (simp add: Reassign)
  next
    case (executed plan c0 db1 c1)
    show ?thesis using finish_records [OF executed(7) reassign_source_receipts [OF executed(6)]] by (simp add: Reassign)
  qed
next
  case (Migrate cid cancel target digest confirmed)
  have run: "migration_command (sr_hash s) (sr_docs s) db cid cancel target digest confirmed key audit i now = Inr (db', st, v, rep)"
    using assms by (simp add: Migrate)
  from run show ?thesis
  proof (cases rule: migration_command_cases)
    case replayed
    then show ?thesis by (simp add: Migrate)
  next
    case (executed c0 db1 c1 db2 c2 action)
    from executed(3) have "t_receipts db1 = t_receipts db" by (rule migrate_source_cases) simp_all
    then have "t_receipts db2 = t_receipts db" using save_collector_frame(13) [OF executed(4)] by simp
    from finish_records [OF executed(5) this] show ?thesis by (simp add: Migrate)
  qed
qed

lemma run_command_replays:
  "receipt (sr_hash s) db (command_scope_of c) key (command_body_of c) = Inr (Some (st, v)) \<Longrightarrow>
   run_command s db c key audit hex i now = Inr (db, st, v, True)"
  by (cases c) (simp_all add: collection_command_def publish_collection_version_command_def lifecycle_command_def
      definition_command_def reassignment_command_def migration_command_def with_receipt_replays Let_def)

lemma run_command_conflicts:
  "receipt (sr_hash s) db (command_scope_of c) key (command_body_of c) = Inl e \<Longrightarrow>
   run_command s db c key audit hex i now = Inl e"
  by (cases c) (simp_all add: collection_command_def publish_collection_version_command_def lifecycle_command_def
      definition_command_def reassignment_command_def migration_command_def with_receipt_conflicts Let_def)

interpretation management: idempotent_command "sr_hash s" "\<lambda>q. command_scope_of (mq_command q)" mq_key
  "\<lambda>q. command_body_of (mq_command q)" "run_management s" for s
  by unfold_locales
    (auto simp: run_management_def intro: run_command_replays run_command_conflicts dest: run_command_records)

text \<open>
  C15. Every reviewed management command takes effect once: after it succeeded, a request with
  the same key, target and body gets the same status and response as a replay and changes
  nothing, whatever happened in between and whoever sends it; and a request with that key and
  target but another body is refused as a conflict.
\<close>

theorem management_command_once:
  assumes "run_management s db q = Inr (db', st, v, rep)" and "keeps_receipts db' db2"
    and "mq_key q' = mq_key q" and "command_scope_of (mq_command q') = command_scope_of (mq_command q)"
  shows "(command_body_of (mq_command q') = command_body_of (mq_command q) \<longrightarrow> run_management s db2 q' = Inr (db2, st, v, True)) \<and>
    (sr_hash s (command_body_of (mq_command q')) \<noteq> sr_hash s (command_body_of (mq_command q)) \<longrightarrow>
       run_management s db2 q' = Inl (IdempotencyConflict (mq_key q)))"
  using management.later_request_replays [OF assms(1,2) assms(4,3)] management.conflicting_retry [OF assms(1,2) assms(4,3)]
  by blast

end
