(* ===== verification/Catalog_Safety.thy ===== *)
theory Catalog_Safety
  imports Management
begin

text \<open>
  The catalog over any history: every live source belongs to a collection that is there, is
  bound to (or migrating to) a version of that collection, published versions are numbered
  without gaps, never change and carry the contract of their fields, a collection names its
  newest version, and stored drafts are well formed.
\<close>

subsection \<open>The invariant\<close>

definition versions_of :: "db \<Rightarrow> string \<Rightarrow> collection_version list" where
  "versions_of db cid = filter (\<lambda>v. cv_collection v = cid) (t_versions db)"

definition bound_to :: "db \<Rightarrow> string \<Rightarrow> string \<Rightarrow> bool" where
  "bound_to db cid vid \<longleftrightarrow> vid = default_collection_version \<or> (\<exists>v \<in> set (t_versions db). cv_id v = vid \<and> cv_collection v = cid)"

definition source_ok :: "db \<Rightarrow> collector \<Rightarrow> bool" where
  "source_ok db c \<longleftrightarrow> col_collection_id c \<in> cn_id ` set (t_collections db) \<and>
     bound_to db (col_collection_id c) (col_collection_version c) \<and>
     (\<forall>vid. col_pending_version c = Some vid \<longrightarrow> bound_to db (col_collection_id c) vid)"

definition newest_id :: "collection_version list \<Rightarrow> string option" where
  "newest_id vs = (if vs = [] then None else Some (cv_id (last vs)))"

definition collection_ok :: "db \<Rightarrow> collection \<Rightarrow> bool" where
  "collection_ok db cn \<longleftrightarrow> cn_version cn = default_collection_version \<and>
     cn_latest_number cn = length (versions_of db (cn_id cn)) \<and>
     cn_active_version_id cn = newest_id (versions_of db (cn_id cn)) \<and>
     (\<forall>fs. cn_field_draft cn = Some fs \<longrightarrow> wf_fields fs)"

definition version_ok :: "hasher \<Rightarrow> db \<Rightarrow> collection_version \<Rightarrow> bool" where
  "version_ok sha db v \<longleftrightarrow> cv_collection v \<in> cn_id ` set (t_collections db) \<and>
     build_collection_version_contract sha (cv_fields v) = Inr (cv_contract v)"

definition gapless :: "collection_version list \<Rightarrow> bool" where
  "gapless vs \<longleftrightarrow> map cv_number vs = [1..<length vs + 1]"

definition catalog_inv :: "hasher \<Rightarrow> db \<Rightarrow> bool" where
  "catalog_inv sha db \<longleftrightarrow>
     distinct (map cn_id (t_collections db)) \<and> distinct (map cv_id (t_versions db)) \<and> ids_match db \<and>
     (\<forall>k c. stored_collector db k = Some c \<and> \<not> is_deleted db k \<longrightarrow> source_ok db c) \<and>
     (\<forall>cn \<in> set (t_collections db). collection_ok db cn) \<and> (\<forall>v \<in> set (t_versions db). version_ok sha db v) \<and>
     (\<forall>cid. gapless (versions_of db cid))"

subsection \<open>Edits of sources\<close>

lemma catalog_cong:
  assumes "t_versions db' = t_versions db" and "cn_id ` set (t_collections db') = cn_id ` set (t_collections db)"
  shows "versions_of db' cid = versions_of db cid" "bound_to db' cid vid = bound_to db cid vid"
    "source_ok db' c = source_ok db c" "version_ok sha db' v = version_ok sha db v" "collection_ok db' cn = collection_ok db cn"
  by (simp_all add: versions_of_def bound_to_def source_ok_def version_ok_def collection_ok_def assms)

lemma source_ok_binding: "same_binding c d \<Longrightarrow> source_ok db d = source_ok db c"
  by (simp add: source_ok_def same_binding_def)

lemma catalog_inv_sources:
  assumes cat: "t_collections db' = t_collections db" "t_versions db' = t_versions db" and inv: "catalog_inv sha db"
    and ids: "ids_match db'"
    and ok: "\<And>k c. stored_collector db' k = Some c \<Longrightarrow> \<not> is_deleted db' k \<Longrightarrow> source_ok db c"
  shows "catalog_inv sha db'"
proof -
  have img: "cn_id ` set (t_collections db') = cn_id ` set (t_collections db)" using cat(1) by simp
  note c = catalog_cong [OF cat(2) img]
  have "\<forall>k c. stored_collector db' k = Some c \<and> \<not> is_deleted db' k \<longrightarrow> source_ok db c" using ok by blast
  then show ?thesis using inv ids unfolding catalog_inv_def c cat by simp
qed

lemma same_sources_inv:
  assumes same: "same_sources db db'" and inv: "catalog_inv sha db"
  shows "catalog_inv sha db'"
proof (rule catalog_inv_sources [OF _ _ inv])
  have cat: "t_collections db' = t_collections db" "t_versions db' = t_versions db" "t_deleted db' = t_deleted db"
    using same by (simp_all add: same_sources_def same_catalog_def)
  then show "t_collections db' = t_collections db" "t_versions db' = t_versions db" by simp_all
  show "ids_match db'" using same inv by (auto simp: catalog_inv_def intro: ids_match_same)
  fix k d assume d: "stored_collector db' k = Some d" "\<not> is_deleted db' k"
  from same_sources_stored [OF same d(1)] obtain c where c: "stored_collector db k = Some c" "same_binding c d" by blast
  have "\<not> is_deleted db k" using d(2) cat(3) by (simp add: is_deleted_def)
  with c(1) inv have "source_ok db c" by (simp add: catalog_inv_def)
  with source_ok_binding [OF c(2)] show "source_ok db d" by simp
qed

lemma tombstone_inv:
  assumes inv: "catalog_inv sha db"
  shows "catalog_inv sha (db\<lparr>t_deleted := t_deleted db @ ts\<rparr>)"
proof (rule catalog_inv_sources [OF _ _ inv])
  show "ids_match (db\<lparr>t_deleted := t_deleted db @ ts\<rparr>)" using inv by (simp add: catalog_inv_def ids_match_def)
  fix k c assume "stored_collector (db\<lparr>t_deleted := t_deleted db @ ts\<rparr>) k = Some c" "\<not> is_deleted (db\<lparr>t_deleted := t_deleted db @ ts\<rparr>) k"
  then have "stored_collector db k = Some c" "\<not> is_deleted db k" by (simp_all add: is_deleted_def image_Un)
  then show "source_ok db c" using inv unfolding catalog_inv_def by blast
qed simp_all

lemma save_source_inv:
  assumes run: "save_collector db d m now = Inr (db', d')" and inv: "catalog_inv sha db" and ok: "source_ok db d"
  shows "catalog_inv sha db'"
proof (rule catalog_inv_sources [OF _ _ inv])
  note st = save_collector_stored [OF run]
  obtain cs where db': "db' = db\<lparr>t_collectors := cs\<rparr>" by (rule save_collector_only [OF run])
  show "t_collections db' = t_collections db" "t_versions db' = t_versions db" by (simp_all add: db')
  show "ids_match db'" using inv st by (auto simp: catalog_inv_def ids_match_def)
  have d': "d' = d \<or> (\<exists>n. d' = d\<lparr>col_revision := n\<rparr>)"
    using run by (auto simp: save_collector_def Let_def split: if_splits)
  then have "same_binding d d'" by (auto simp: same_binding_def)
  then have "source_ok db d'" using ok source_ok_binding by blast
  then show "source_ok db c" if "stored_collector db' k = Some c" "\<not> is_deleted db' k" for k c
    using that st(1) inv by (auto simp: catalog_inv_def db' is_deleted_def split: if_splits)
qed

lemma read_source_ok:
  assumes "get_collector db cid = Some c" and "catalog_inv sha db"
  shows "source_ok db c" "col_id c = cid"
proof -
  obtain old where old: "stored_collector db cid = Some old" "same_binding old c" "\<not> is_deleted db cid"
    by (rule get_collector_binding [OF assms(1)])
  then have "source_ok db old" "col_id old = cid" using assms(2) by (simp_all add: catalog_inv_def ids_match_def)
  then show "source_ok db c" "col_id c = cid" using source_ok_binding [OF old(2)] old(2) by (simp_all add: same_binding_def)
qed

subsection \<open>Each management command\<close>

lemma reassign_source_inv:
  assumes plan: "make_reassignment_plan ph docs db cid target = Inr plan" "rq_blockers plan = []"
    and c: "get_collector db cid = Some c" and run: "reassign_source cron_valid next_time db c target plan now = Inr (db2, c2)"
    and inv: "catalog_inv sha db" and pend: "col_pending_version c = None"
  shows "catalog_inv sha db2"
proof (rule reassign_source_cases [OF run])
  fix ow db1 c1
  assume i: "invalidate_execution cron_valid next_time (db\<lparr>t_ownership := ow\<rparr>) c now = Inr (db1, c1)"
    and save: "save_collector db1 (c1\<lparr>col_collection_id := target, col_collection_name := rq_to_name plan,
                                     col_collection_version := rq_to_version plan, col_intent := rq_to_intent plan,
                                     col_reassigned := True, col_updated := JustNow\<rparr>) True now = Inr (db2, c2)"
  have ids: "ids_match db" using inv by (simp add: catalog_inv_def)
  have s0: "same_sources db (db\<lparr>t_ownership := ow\<rparr>)" by (rule same_sources_tables) (simp_all add: same_catalog_def)
  note e = invalidate_execution_edit [OF i ids_match_same [OF s0 ids]]
  have s1: "same_sources db db1" by (rule same_sources_trans [OF s0 e(1)])
  then have cat: "t_collections db1 = t_collections db" "t_versions db1 = t_versions db"
    by (simp_all add: same_sources_def same_catalog_def)
  obtain view where view: "get_collection db target = Some view"
    using plan(1) by (auto simp: make_reassignment_plan_def c split: option.splits)
  have there: "target \<in> cn_id ` set (t_collections db)" and ok: "collection_ok db (cw_data view)" and vid: "cn_id (cw_data view) = target"
    using view inv by (auto simp: get_collection_def catalog_inv_def collection_ok_def Let_def dest!: tbl_get_SomeD split: option.splits)
  have ver: "rq_to_version plan = (case cn_active_version_id (cw_data view) of None \<Rightarrow> cn_version (cw_data view) | Some v \<Rightarrow> v)"
    using plan(1) by (auto simp: make_reassignment_plan_def c view Let_def split: sum.splits)
  have "bound_to db target (rq_to_version plan)"
  proof (cases "versions_of db target = []")
    case True
    then show ?thesis using ok vid by (simp add: ver collection_ok_def newest_id_def bound_to_def)
  next
    case False
    then have "last (versions_of db target) \<in> set (versions_of db target)" by simp
    then show ?thesis using ok vid False by (auto simp: ver collection_ok_def newest_id_def bound_to_def versions_of_def)
  qed
  then have "source_ok db1 (c1\<lparr>col_collection_id := target, col_collection_name := rq_to_name plan,
                                     col_collection_version := rq_to_version plan, col_intent := rq_to_intent plan,
                                     col_reassigned := True, col_updated := JustNow\<rparr>)"
    using there pend e(2) by (simp add: source_ok_def bound_to_def cat same_binding_def)
  with save same_sources_inv [OF s1 inv] show ?thesis by (rule save_source_inv)
qed

lemma migrate_source_inv:
  assumes run: "migrate_source ph docs db cid c cancel target digest confirmed now = Inr (db1, c1)"
    and c: "get_collector db cid = Some c" and inv: "catalog_inv sha db"
  shows "catalog_inv sha db1 \<and> source_ok db1 c1"
  using run
proof (cases rule: migrate_source_cases)
  case (start plan rows)
  have same: "same_sources db db1" by (rule same_sources_tables) (simp_all add: start(6) same_catalog_def)
  have "bound_to db (col_collection_id c) target"
    using start(2) by (auto simp: make_migration_plan_def c get_collection_version_def bound_to_def
        dest!: tbl_get_SomeD split: option.splits if_splits)
  then have "source_ok db1 c1"
    using read_source_ok(1) [OF c inv] start by (simp add: source_ok_def bound_to_def)
  with same_sources_inv [OF same inv] show ?thesis by simp
next
  case (cancel rows)
  have same: "same_sources db db1" by (rule same_sources_tables) (simp_all add: cancel(2) same_catalog_def)
  have "source_ok db1 c1"
    using read_source_ok(1) [OF c inv] cancel by (simp add: source_ok_def bound_to_def)
  with same_sources_inv [OF same inv] show ?thesis by simp
qed

text \<open>Changes of the collections themselves.\<close>

lemma collections_inv:
  assumes inv: "catalog_inv sha db" and dist: "distinct (map cn_id cs)"
    and src: "\<And>k c. stored_collector db k = Some c \<Longrightarrow> \<not> is_deleted db k \<Longrightarrow> col_collection_id c \<in> cn_id ` set cs"
    and ver: "\<And>v. v \<in> set (t_versions db) \<Longrightarrow> cv_collection v \<in> cn_id ` set cs"
    and ok: "\<And>cn. cn \<in> set cs \<Longrightarrow> collection_ok db cn"
  shows "catalog_inv sha (db\<lparr>t_collections := cs\<rparr>)"
proof -
  let ?db' = "db\<lparr>t_collections := cs\<rparr>"
  have v: "versions_of ?db' cid = versions_of db cid" "bound_to ?db' cid vid = bound_to db cid vid" for cid vid
    by (simp_all add: versions_of_def bound_to_def)
  have d: "is_deleted ?db' k = is_deleted db k" for k by (simp add: is_deleted_def)
  have "source_ok ?db' c" if "stored_collector db k = Some c" "\<not> is_deleted db k" for k c
    using inv that src [OF that] unfolding catalog_inv_def by (auto simp: source_ok_def v)
  then have "\<forall>k c. stored_collector db k = Some c \<and> \<not> is_deleted db k \<longrightarrow> source_ok ?db' c" by blast
  moreover have "collection_ok ?db' cn" if "cn \<in> set cs" for cn using ok [OF that] by (simp add: collection_ok_def v)
  moreover have "version_ok sha ?db' w" if "w \<in> set (t_versions db)" for w
    using inv that ver [OF that] by (simp add: catalog_inv_def version_ok_def)
  ultimately show ?thesis
    using inv dist by (simp add: catalog_inv_def ids_match_def d v)
qed

lemma version_free: "catalog_inv sha db \<Longrightarrow> cid \<notin> cn_id ` set (t_collections db) \<Longrightarrow> versions_of db cid = []"
  by (auto simp: catalog_inv_def version_ok_def versions_of_def filter_empty_conv)

lemma insert_collection_inv:
  assumes inv: "catalog_inv sha db" and ver: "version = default_collection_version"
  shows "catalog_inv sha (insert_collection db cid name intent version now)"
proof (cases "tbl_get cn_id cid (t_collections db) = None")
  case False
  then show ?thesis using inv by (simp add: insert_collection_def)
next
  case True
  then have new: "cid \<notin> cn_id ` set (t_collections db)" by (auto simp: tbl_get_None_iff)
  show ?thesis unfolding insert_collection_def using True
    apply simp
    apply (rule collections_inv [OF inv])
    subgoal using inv new by (auto simp: catalog_inv_def)
    subgoal using inv by (auto simp: catalog_inv_def source_ok_def)
    subgoal using inv by (auto simp: catalog_inv_def version_ok_def)
    subgoal using inv version_free [OF inv new] by (auto simp: catalog_inv_def collection_ok_def newest_id_def ver)
    done
qed

lemma store_collection_inv:
  assumes inv: "catalog_inv sha db" and ok: "collection_ok db cn"
  shows "catalog_inv sha (store_collection db cn)"
proof -
  let ?cs = "tbl_upd cn_id (cn_id cn) (\<lambda>_. cn) (t_collections db)"
  have keys: "map cn_id ?cs = map cn_id (t_collections db)" by (simp add: tbl_upd_def)
  have img: "cn_id ` set ?cs = cn_id ` set (t_collections db)" using arg_cong [OF keys, of set] by simp
  from keys have "distinct (map cn_id ?cs)" using inv by (simp add: catalog_inv_def)
  then show ?thesis unfolding store_collection_def
  proof (rule collections_inv [OF inv])
    show "col_collection_id c \<in> cn_id ` set ?cs" if "stored_collector db k = Some c" "\<not> is_deleted db k" for k c
      using inv that unfolding img catalog_inv_def source_ok_def by blast
    show "cv_collection v \<in> cn_id ` set ?cs" if "v \<in> set (t_versions db)" for v
      using inv that unfolding img catalog_inv_def version_ok_def by blast
    show "collection_ok db x" if "x \<in> set ?cs" for x
      using inv that ok by (auto simp: set_tbl_upd catalog_inv_def)
  qed
qed

lemma get_collection_ok:
  assumes "get_collection db cid = Some view" and "catalog_inv sha db"
  shows "collection_ok db (cw_data view)" "cn_id (cw_data view) = cid" "cid \<in> cn_id ` set (t_collections db)"
  using assms by (auto simp: get_collection_def catalog_inv_def collection_ok_def Let_def dest!: tbl_get_SomeD split: option.splits)

lemma change_collection_inv:
  assumes run: "change_collection db cid revision ch now = Inr (db', view')" and inv: "catalog_inv sha db"
  shows "catalog_inv sha db'"
proof -
  obtain view where view: "get_collection db cid = Some view" using run by (auto simp: change_collection_def split: option.splits)
  let ?cn = "(apply_changes ch (cw_data view))\<lparr>cn_revision := revision + 1, cn_updated := now\<rparr>"
  have db': "db' = store_collection db ?cn"
    and draft: "(case ch_draft ch of None \<Rightarrow> None | Some d \<Rightarrow> validate_field_draft d) = None"
    using run by (auto simp: change_collection_def view Let_def split: option.splits if_splits)
  have "wf_fields fs" if "cn_field_draft ?cn = Some fs" for fs
    using that draft get_collection_ok(1) [OF view inv]
    by (auto simp: apply_changes_def collection_ok_def validate_field_draft_exact split: option.splits)
  then have "collection_ok db ?cn"
    using get_collection_ok(1) [OF view inv] by (simp add: collection_ok_def apply_changes_def)
  with inv show ?thesis unfolding db' by (rule store_collection_inv)
qed

lemma delete_collection_inv:
  assumes run: "delete_collection db cid revision = Inr db'" and inv: "catalog_inv sha db"
  shows "catalog_inv sha db'"
proof -
  obtain view where view: "get_collection db cid = Some view" and none: "cw_sources view = 0"
    and ver: "\<forall>v \<in> set (t_versions db). cv_collection v \<noteq> cid"
    and db': "db' = db\<lparr>t_collections := tbl_del cn_id cid (t_collections db)\<rparr>"
    using run by (auto simp: delete_collection_def split: option.splits if_splits)
  have rows: "filter (\<lambda>r. col_collection_id (colr_data r) = cid) (live_rows db) = []"
    using view none by (auto simp: get_collection_def collection_sources_def Let_def split: option.splits)
  have img: "cn_id ` set (tbl_del cn_id cid (t_collections db)) = cn_id ` set (t_collections db) - {cid}"
    by (auto simp: tbl_del_def)
  show ?thesis unfolding db'
  proof (rule collections_inv [OF inv])
    show "distinct (map cn_id (tbl_del cn_id cid (t_collections db)))"
      using inv by (simp add: catalog_inv_def distinct_del)
    show "col_collection_id c \<in> cn_id ` set (tbl_del cn_id cid (t_collections db))"
      if c: "stored_collector db k = Some c" "\<not> is_deleted db k" for k c
    proof -
      obtain r where "r \<in> set (live_rows db)" "colr_data r = c"
        using c by (auto simp: stored_collector_def live_rows_def dest!: tbl_get_SomeD)
      then have "col_collection_id c \<noteq> cid" using rows by (auto simp: filter_empty_conv)
      then show ?thesis using inv c unfolding img catalog_inv_def source_ok_def by blast
    qed
    show "cv_collection v \<in> cn_id ` set (tbl_del cn_id cid (t_collections db))" if "v \<in> set (t_versions db)" for v
      using inv ver that unfolding img catalog_inv_def version_ok_def by blast
    show "collection_ok db cn" if "cn \<in> set (tbl_del cn_id cid (t_collections db))" for cn
      using inv that by (auto simp: tbl_del_def catalog_inv_def)
  qed
qed

text \<open>Publishing appends the next version and makes the collection name it.\<close>

lemma publish_cases:
  assumes "publish_collection_version sha db cid revision actor remark hex now = Inr (db', v)"
  obtains view fs contract where "get_collection db cid = Some view" "cn_revision (cw_data view) = revision"
    "cn_status (cw_data view) \<noteq> ''archived''" "cn_field_draft (cw_data view) = Some fs"
    "build_collection_version_contract sha fs = Inr contract" "v = next_version db cid hex actor fs contract remark now"
    "tbl_get cv_id (cv_id v) (t_versions db) = None"
    "db' = store_collection (db\<lparr>t_versions := t_versions db @ [v]\<rparr>)
       ((cw_data view)\<lparr>cn_active_version_id := Some (cv_id v), cn_latest_number := cv_number v,
          cn_active_version := Some (version_summary v), cn_updated := now, cn_revision := revision + 1\<rparr>)"
proof -
  obtain view where view: "get_collection db cid = Some view" using assms by (auto simp: publish_collection_version_def split: option.splits)
  have g: "cn_revision (cw_data view) = revision" "cn_status (cw_data view) \<noteq> ''archived''"
    "\<not> (cn_field_draft (cw_data view) = None \<or> cn_field_draft (cw_data view) = Some [])"
    using assms by (auto simp: publish_collection_version_def view Let_def split: option.splits if_splits)
  then obtain fs where fs: "cn_field_draft (cw_data view) = Some fs" by (cases "cn_field_draft (cw_data view)") auto
  obtain contract where con: "build_collection_version_contract sha fs = Inr contract"
    using assms g by (cases "build_collection_version_contract sha fs")
      (auto simp: publish_collection_version_def view fs Let_def split: option.splits)
  have "tbl_get cv_id (cv_id (next_version db cid hex actor fs contract remark now)) (t_versions db) = None \<and>
    v = next_version db cid hex actor fs contract remark now \<and>
    db' = store_collection (db\<lparr>t_versions := t_versions db @ [v]\<rparr>)
       ((cw_data view)\<lparr>cn_active_version_id := Some (cv_id v), cn_latest_number := cv_number v,
          cn_active_version := Some (version_summary v), cn_updated := now, cn_revision := revision + 1\<rparr>)"
    using assms g by (auto simp: publish_collection_version_def view fs con Let_def split: option.splits if_splits)
  then show ?thesis using that [OF view g(1,2) fs con] by simp
qed

lemma last_collection_version:
  "gapless (versions_of db cid) \<Longrightarrow> last_collection_version db cid = length (versions_of db cid)"
  unfolding last_collection_version_def versions_of_def [symmetric] gapless_def by (simp only: foldr_max_upt)

lemma publish_version_inv:
  assumes run: "publish_collection_version sha db cid revision actor remark hex now = Inr (db', v)" and inv: "catalog_inv sha db"
  shows "catalog_inv sha db'" and "t_versions db' = t_versions db @ [v]"
proof -
  obtain view fs contract where view: "get_collection db cid = Some view" and fs: "cn_field_draft (cw_data view) = Some fs"
    and con: "build_collection_version_contract sha fs = Inr contract" and v: "v = next_version db cid hex actor fs contract remark now"
    and fresh: "tbl_get cv_id (cv_id v) (t_versions db) = None"
    and db': "db' = store_collection (db\<lparr>t_versions := t_versions db @ [v]\<rparr>)
       ((cw_data view)\<lparr>cn_active_version_id := Some (cv_id v), cn_latest_number := cv_number v,
          cn_active_version := Some (version_summary v), cn_updated := now, cn_revision := revision + 1\<rparr>)"
    by (rule publish_cases [OF run]) metis
  show "t_versions db' = t_versions db @ [v]" by (simp add: db')
  let ?cn = "(cw_data view)\<lparr>cn_active_version_id := Some (cv_id v), cn_latest_number := cv_number v,
          cn_active_version := Some (version_summary v), cn_updated := now, cn_revision := revision + 1\<rparr>"
  let ?cs = "tbl_upd cn_id cid (\<lambda>_. ?cn) (t_collections db)"
  note cn = get_collection_ok [OF view inv]
  have gap: "gapless (versions_of db k)" for k using inv by (simp add: catalog_inv_def)
  have num: "cv_number v = length (versions_of db cid) + 1" and vc: "cv_collection v = cid" and vf: "cv_fields v = fs" "cv_contract v = contract"
    by (simp_all add: v next_version_def Let_def last_collection_version [OF gap])
  have vs: "versions_of db' k = (if k = cid then versions_of db cid @ [v] else versions_of db k)" for k
    using vc by (simp add: versions_of_def db')
  have keys: "map cn_id ?cs = map cn_id (t_collections db)" using cn(2) by (simp add: tbl_upd_def)
  have img: "cn_id ` set (t_collections db') = cn_id ` set (t_collections db)"
    using arg_cong [OF keys, of set] cn(2) by (simp add: db' store_collection_def)
  have bound: "bound_to db k vid \<Longrightarrow> bound_to db' k vid" for k vid by (auto simp: bound_to_def db')
  have "source_ok db' c" if "stored_collector db k = Some c" "\<not> is_deleted db k" for k c
    using inv that bound img unfolding catalog_inv_def source_ok_def by metis
  then have "\<forall>k c. stored_collector db k = Some c \<and> \<not> is_deleted db k \<longrightarrow> source_ok db' c" by blast
  moreover have "collection_ok db' x" if "x \<in> set (t_collections db')" for x
  proof (cases "cn_id x = cid")
    case True
    then have "x = ?cn" using that cn(2) by (auto simp: db' store_collection_def set_tbl_upd)
    then show ?thesis using cn(1,2) num by (simp add: collection_ok_def vs newest_id_def)
  next
    case False
    then have "x \<in> set (t_collections db)" using that cn(2) by (auto simp: db' store_collection_def set_tbl_upd)
    then have "collection_ok db x" using inv by (simp add: catalog_inv_def)
    then show ?thesis using False by (simp add: collection_ok_def vs)
  qed
  moreover have "version_ok sha db' w" if "w \<in> set (t_versions db')" for w
  proof (cases "w = v")
    case True
    then show ?thesis using cn(3) con by (simp add: version_ok_def vc vf img)
  next
    case False
    then have "version_ok sha db w" using that inv by (simp add: db' catalog_inv_def)
    then show ?thesis by (simp add: version_ok_def img)
  qed
  moreover have "gapless (versions_of db' k)" for k
    using gap [of k] num by (auto simp: vs gapless_def)
  moreover have "distinct (map cv_id (t_versions db'))"
    using inv fresh by (auto simp: catalog_inv_def db' tbl_get_None_iff)
  moreover have "distinct (map cn_id (t_collections db'))"
    using inv keys cn(2) by (simp add: catalog_inv_def db' store_collection_def)
  moreover have "stored_collector db' k = stored_collector db k" "is_deleted db' k = is_deleted db k" for k
    by (simp_all add: db' stored_collector_def is_deleted_def)
  moreover from this have "ids_match db'" using inv by (simp add: catalog_inv_def ids_match_def)
  ultimately show "catalog_inv sha db'" unfolding catalog_inv_def by simp
qed

subsection \<open>New sources\<close>

lemma save_collector_rule:
  assumes "save_collector db d m now = Inr (db', d')"
  shows "t_versions db' = t_versions db" "t_collections db' = t_collections db"
  using assms by (auto simp: save_collector_def Let_def split: if_splits)

lemma create_collection_policy_edit:
  assumes run: "create_collection_policy ph db cid v now = Inr (db', c')" and inv: "catalog_inv sha db"
  shows "catalog_inv sha db'" "t_versions db' = t_versions db"
proof -
  let ?p = "next_policy ph db cid v now"
  let ?db1 = "db\<lparr>t_policies := t_policies db @ [?p], t_checkpoints := tbl_del ck_collector cid (t_checkpoints db)\<rparr>"
  obtain c where c: "get_collector db cid = Some c"
    and save: "save_collector ?db1 (c\<lparr>col_policy_id := Some (pol_id ?p), col_policy := Some ?p, col_checkpoint := None,
                   col_updated := JustNow, col_coverage := None\<rparr>) False now = Inr (db', c')"
    using run by (auto simp: create_collection_policy_def Let_def split: option.splits if_splits)
  have "same_sources db db'"
    by (rule save_read_source(1) [OF c _ _ _ _ save])
      (use inv in \<open>simp_all add: catalog_inv_def ids_match_def same_catalog_def same_binding_def\<close>)
  then show "catalog_inv sha db'" "t_versions db' = t_versions db"
    using same_sources_inv inv by (simp_all add: same_sources_def same_catalog_def)
qed

lemma ensure_schedule_edit:
  assumes run: "ensure_schedule cron_valid next_time db cid now = Inr (db', c')" and ids: "ids_match db"
  shows "same_sources db db'"
proof -
  obtain c where c: "get_collector db cid = Some c" using run by (auto simp: ensure_schedule_def split: option.splits)
  show ?thesis
  proof (cases "get_schedule db cid")
    case None
    then have "save_schedule cron_valid next_time db cid default_schedule now = Inr (db', c')"
      using run by (simp add: ensure_schedule_def c)
    then show ?thesis using ids by (rule save_schedule_edit)
  next
    case (Some s)
    show ?thesis
    proof (cases "col_schedule c \<noteq> Some s")
      case True
      then have save: "save_collector db (c\<lparr>col_schedule := Some s\<rparr>) False now = Inr (db', c')"
        using run Some by (simp add: ensure_schedule_def c)
      show ?thesis
        by (rule save_read_source(1) [OF c _ _ _ _ save]) (use ids in \<open>simp_all add: ids_match_def same_binding_def\<close>)
    next
      case False
      then have "db' = db" using run Some by (simp add: ensure_schedule_def c)
      then show ?thesis by simp
    qed
  qed
qed

lemma col_id_new: "col_id (new_collector cid name intent url host collection_id collection_name version) = cid"
  by (simp add: new_collector_def)

lemma create_collector_inv:
  assumes run: "create_collector ph cron_valid next_time db name intent url host collection_id collection_name
      default_collection_version require_existing hex now = Inr (db', c')"
    and inv: "catalog_inv sha db"
  shows "catalog_inv sha db'" "t_versions db' = t_versions db"
proof -
  let ?cid = "stable_id ''collector'' (host @ ''_'' @ hex) 40"
  define db1 where "db1 = (if require_existing then db
      else insert_collection db collection_id collection_name intent default_collection_version now)"
  have i1: "catalog_inv sha db1" using inv insert_collection_inv by (simp add: db1_def)
  have v1: "t_versions db1 = t_versions db" by (simp add: db1_def insert_collection_def)
  note run' = run [unfolded create_collector_def Let_def, folded db1_def]
  obtain view where view: "get_collection db1 collection_id = Some view"
    using run' by (auto split: if_splits option.splits)
  note cn = get_collection_ok [OF view i1]
  define c1 where "c1 = (new_collector ?cid name intent url host collection_id collection_name default_collection_version)
      \<lparr>col_collection_name := cn_name (cw_data view)\<rparr>"
  define c2 where "c2 = (if require_existing
      then c1\<lparr>col_intent := cn_intent (cw_data view), col_collection_version := (case cn_active_version_id (cw_data view) of
                                          None \<Rightarrow> cn_version (cw_data view) | Some v \<Rightarrow> v)\<rparr>
      else (case cn_active_version_id (cw_data view) of None \<Rightarrow> c1 | Some v \<Rightarrow> c1\<lparr>col_collection_version := v\<rparr>))"
  have run2: "(case save_collector db1 c2 False now of
                 Inl e \<Rightarrow> Inl e
               | Inr (db2, _) \<Rightarrow>
              (case create_collection_policy ph db2 ?cid default_policy now of
                 Inl e \<Rightarrow> Inl e
               | Inr (db3, _) \<Rightarrow> ensure_schedule cron_valid next_time db3 ?cid now)) = Inr (db', c')"
    using run' unfolding view option.case c1_def [symmetric] c2_def [symmetric] col_id_new
    by (auto split: if_splits option.splits)
  obtain db2 d2 where save: "save_collector db1 c2 False now = Inr (db2, d2)"
    using run2 by (cases "save_collector db1 c2 False now") auto
  obtain db3 d3 where pol: "create_collection_policy ph db2 ?cid default_policy now = Inr (db3, d3)"
    using run2 unfolding save sum.case prod.case
    by (cases "create_collection_policy ph db2 ?cid default_policy now") auto
  have sch: "ensure_schedule cron_valid next_time db3 ?cid now = Inr (db', c')"
    using run2 unfolding save pol sum.case prod.case .
  have "cn_version (cw_data view) = default_collection_version" using cn(1) by (simp add: collection_ok_def)
  then have c2: "col_collection_id c2 = collection_id" "col_pending_version c2 = None"
      "col_collection_version c2 = (case cn_active_version_id (cw_data view) of
         None \<Rightarrow> default_collection_version | Some v \<Rightarrow> v)"
    by (simp_all add: c2_def c1_def new_collector_def split: option.splits)
  have "bound_to db1 collection_id (col_collection_version c2)"
  proof (cases "versions_of db1 collection_id = []")
    case True
    then show ?thesis using cn by (simp add: c2 collection_ok_def newest_id_def bound_to_def)
  next
    case False
    then have "last (versions_of db1 collection_id) \<in> set (versions_of db1 collection_id)" by simp
    then show ?thesis using cn False by (auto simp: c2 collection_ok_def newest_id_def bound_to_def versions_of_def)
  qed
  then have "source_ok db1 c2" using cn(3) by (simp add: source_ok_def c2)
  then have i2: "catalog_inv sha db2" using save_source_inv [OF save i1] by simp
  note i3 = create_collection_policy_edit [OF pol i2]
  have "same_sources db3 db'" using ensure_schedule_edit [OF sch] i3(1) by (simp add: catalog_inv_def)
  then show "catalog_inv sha db'" using i3(1) by (rule same_sources_inv)
  show "t_versions db' = t_versions db"
    using \<open>same_sources db3 db'\<close> i3(2) save_collector_rule(1) [OF save] v1 by (simp add: same_sources_def same_catalog_def)
qed

subsection \<open>Histories\<close>

text \<open>
  The events: a management request, the creation of a source (in an existing collection or a
  new one of the default version), and any work of another part that leaves the catalog and the
  bindings of the sources alone.
\<close>

record new_source =
  ns_name :: string
  ns_intent :: string
  ns_url :: string
  ns_host :: string
  ns_collection :: string
  ns_collection_name :: string
  ns_existing :: bool
  ns_hex :: string
  ns_now :: ts

datatype catalog_event =
    Management management_request
  | NewSource new_source
  | Elsewhere db

definition committed :: "'s \<Rightarrow> py_exc + 's \<times> 'a \<Rightarrow> 's" where
  "committed s r = (case r of Inl _ \<Rightarrow> s | Inr (s', _) \<Rightarrow> s')"

fun catalog_step :: "surroundings \<Rightarrow> db \<Rightarrow> catalog_event \<Rightarrow> db" where
  "catalog_step s db (Management q) = committed db (run_management s db q)"
| "catalog_step s db (NewSource n) =
     committed db (create_collector (sr_hash s) (sr_cron s) (sr_next s) db (ns_name n) (ns_intent n) (ns_url n) (ns_host n)
       (ns_collection n) (ns_collection_name n) default_collection_version (ns_existing n) (ns_hex n) (ns_now n))"
| "catalog_step s db (Elsewhere db') = (if same_sources db db' then db' else db)"

definition version_history :: "db \<Rightarrow> db \<Rightarrow> bool" where
  "version_history db db' \<longleftrightarrow> (\<exists>new. t_versions db' = t_versions db @ new)"

lemma version_history_same: "t_versions db' = t_versions db \<Longrightarrow> version_history db db'"
  by (simp add: version_history_def)

lemma version_history_trans: "version_history a b \<Longrightarrow> version_history b c \<Longrightarrow> version_history a c"
  by (auto simp: version_history_def)

lemma same_sources_history: "same_sources db db' \<Longrightarrow> version_history db db'"
  by (simp add: same_sources_def same_catalog_def version_history_same)

lemma run_request_inv:
  assumes "run_request docs db req hex now = Inr (db1, cid, w)" and inv: "catalog_inv sha db"
  shows "catalog_inv sha db1 \<and> t_versions db1 = t_versions db"
proof (cases req)
  case (CreateCollection name intent)
  then have "db1 = insert_collection db (stable_id ''collection'' hex 40) name intent default_collection_version now"
    using assms(1) by (auto simp: create_collection_def Let_def split: option.splits)
  then show ?thesis using insert_collection_inv [OF inv refl] by (simp add: insert_collection_def)
next
  case (ChangeCollection k revision ch)
  then obtain view where run: "change_collection db k revision ch now = Inr (db1, view)"
    using assms(1) by (auto simp: map_sum_Inr_iff)
  have "t_versions db1 = t_versions db"
    using run by (auto simp: change_collection_def Let_def split: option.splits if_splits)
  with change_collection_inv [OF run inv] show ?thesis by simp
next
  case (DeleteCollection k revision)
  then have run: "delete_collection db k revision = Inr db1" using assms(1) by (auto simp: map_sum_Inr_iff)
  have "t_versions db1 = t_versions db" using run by (auto simp: delete_collection_def split: option.splits if_splits)
  with delete_collection_inv [OF run inv] show ?thesis by simp
qed

lemma finish_audited_only:
  assumes "finish_audited ph db scope key body value status audit tt tid action b a i now = Inr (db', st, v, rep)"
  shows "same_sources db db'"
  by (rule finish_audited_cases [OF assms]) (rule finish_same_sources)

lemma finish_command_sources:
  assumes "finish_command ph db scope key body value status audit tt tid action i now = Inr (db', st, v, rep)"
  shows "same_sources db db'"
  using finish_command_only [OF assms] finish_same_sources by blast

lemma reassign_pending:
  assumes plan: "make_reassignment_plan ph docs db cid target = Inr plan" "rq_blockers plan = []"
    and c: "get_collector db cid = Some c"
  shows "col_pending_version c = None"
proof -
  obtain view where view: "get_collection db target = Some view"
    using plan(1) by (auto simp: make_reassignment_plan_def c split: option.splits)
  obtain lifecycle where l: "make_lifecycle_plan ph docs db cid = Inr lifecycle"
    using plan(1) by (cases "make_lifecycle_plan ph docs db cid") (simp_all add: make_reassignment_plan_def c view)
  from arg_cong [OF l [unfolded make_lifecycle_plan_def c Let_def option.case], of "\<lambda>x. case x of Inl _ \<Rightarrow> [] | Inr p \<Rightarrow> lp_blockers p"]
  have lb: "active_blockers db cid @ (if col_pending_version c \<noteq> None \<or> (\<exists>m \<in> set (t_migrations db). mgr_collector m = cid)
                  then [''MIGRATION_ALREADY_ACTIVE''] else []) = lp_blockers lifecycle"
    by (simp only: sum.case lifecycle_plan.select_convs)
  from arg_cong [OF plan(1) [unfolded make_reassignment_plan_def c view l Let_def option.case sum.case],
      of "\<lambda>x. case x of Inl _ \<Rightarrow> [] | Inr p \<Rightarrow> rq_blockers p"]
  have "lp_blockers lifecycle = []"
    unfolding sum.case reassignment_plan.select_convs plan(2) by (simp only: append_is_Nil_conv)
  with lb show ?thesis by (simp split: if_splits)
qed

lemma keeps_catalog:
  assumes "same_sources db1 db'" and "catalog_inv sha db1" and "version_history db db1"
  shows "catalog_inv sha db' \<and> version_history db db'"
  using same_sources_inv [OF assms(1,2)] version_history_trans [OF assms(3) same_sources_history [OF assms(1)]] by simp

lemma reassign_source_history:
  assumes run: "reassign_source cron_valid next_time db c target plan now = Inr (db1, c1)" and ids: "ids_match db"
  shows "version_history db db1"
proof (rule reassign_source_cases [OF run])
  fix ow db0 c0
  assume i: "invalidate_execution cron_valid next_time (db\<lparr>t_ownership := ow\<rparr>) c now = Inr (db0, c0)"
    and save: "save_collector db0 (c0\<lparr>col_collection_id := target, col_collection_name := rq_to_name plan,
                                     col_collection_version := rq_to_version plan, col_intent := rq_to_intent plan,
                                     col_reassigned := True, col_updated := JustNow\<rparr>) True now = Inr (db1, c1)"
  have "same_sources db (db\<lparr>t_ownership := ow\<rparr>)" by (rule same_sources_tables) (simp_all add: same_catalog_def)
  then have "ids_match (db\<lparr>t_ownership := ow\<rparr>)" using ids by (rule ids_match_same)
  from invalidate_execution_edit(1) [OF i this] have "t_versions db0 = t_versions db"
    by (simp add: same_sources_def same_catalog_def)
  then show ?thesis using save_collector_rule(1) [OF save] by (simp add: version_history_def)
qed

lemma run_management_inv:
  assumes run: "run_management s db q = Inr (db', st, v, rep)" and inv: "catalog_inv (sr_sha s) db"
  shows "catalog_inv (sr_sha s) db' \<and> version_history db db'"
proof -
  have ids: "ids_match db" using inv by (simp add: catalog_inv_def)
  have self: "catalog_inv (sr_sha s) db \<and> version_history db db" using inv by (simp add: version_history_same)
  show ?thesis
  proof (cases "mq_command q")
    case (OnCollection req)
    then have "collection_command (sr_hash s) (sr_docs s) db req (mq_key q) (Some (mq_audit q)) (mq_hex q) (mq_event q) (mq_now q) =
        Inr (db', st, v, rep)"
      using run by (simp add: run_management_def)
    then show ?thesis
    proof (cases rule: collection_command_cases)
      case replayed
      with self show ?thesis by simp
    next
      case (executed db1 cid w status tid action before after)
      from run_request_inv [OF executed(1) inv] have "catalog_inv (sr_sha s) db1" "version_history db db1"
        by (simp_all add: version_history_same)
      with finish_audited_only [OF executed(2)] show ?thesis by (rule keeps_catalog)
    qed
  next
    case (PublishVersion cid revision remark)
    then have "publish_collection_version_command (sr_hash s) (sr_docs s) (sr_sha s) db cid revision remark (mq_key q)
        (Some (mq_audit q)) (mq_hex q) (mq_event q) (mq_now q) = Inr (db', st, v, rep)"
      using run by (simp add: run_management_def)
    then show ?thesis
    proof (cases rule: publish_command_cases)
      case replayed
      with self show ?thesis by simp
    next
      case (executed db1 cv actor w status tid action before after)
      from publish_version_inv [OF executed(1) inv] have "catalog_inv (sr_sha s) db1" "version_history db db1"
        by (simp_all add: version_history_def)
      with finish_audited_only [OF executed(2)] show ?thesis by (rule keeps_catalog)
    qed
  next
    case (ChangeLifecycle cid action digest)
    then have "lifecycle_command (sr_hash s) (sr_cron s) (sr_next s) (sr_docs s) db cid action digest (mq_key q) (mq_audit q)
        (mq_event q) (mq_now q) = Inr (db', st, v, rep)"
      using run by (simp add: run_management_def)
    then show ?thesis
    proof (cases rule: lifecycle_command_cases)
      case replayed
      with self show ?thesis by simp
    next
      case (executed plan c db1 w)
      from change_lifecycle_edit [OF executed(5,4) ids] obtain db2 where db2: "same_sources db db2"
        and db1: "db1 = db2 \<or> db1 = db2\<lparr>t_deleted := t_deleted db2 @ [(cid, mq_now q)]\<rparr>" by blast
      from same_sources_inv [OF db2 inv] have "catalog_inv (sr_sha s) db1" using db1 tombstone_inv by auto
      moreover have "version_history db db1" using same_sources_history [OF db2] db1 by (auto simp: version_history_def)
      ultimately show ?thesis by (rule keeps_catalog [OF finish_command_sources [OF executed(6)]])
    qed
  next
    case (Redefine cid body revision d)
    then have "definition_command (sr_hash s) (sr_cron s) (sr_next s) (sr_docs s) db cid body revision d (mq_key q) (mq_audit q)
        (mq_event q) (mq_now q) = Inr (db', st, v, rep)"
      using run by (simp add: run_management_def)
    then show ?thesis
    proof (cases rule: definition_command_cases)
      case replayed
      with self show ?thesis by simp
    next
      case (executed c db1 c1 db2 c2)
      have same: "same_sources db db1 \<and> same_binding c c1"
      proof (cases "col_intent c \<noteq> sd_intent d \<or> col_source_url c \<noteq> sd_url d")
        case True
        then have "invalidate_execution (sr_cron s) (sr_next s) db c (mq_now q) = Inr (db1, c1)" using executed(7) by simp
        from invalidate_execution_edit [OF this ids] show ?thesis by simp
      next
        case False
        then show ?thesis using executed(7) by simp
      qed
      let ?d = "c1\<lparr>col_name := sd_name d, col_intent := sd_intent d, col_source_url := sd_url d,
                                         col_source_host := sd_host d, col_updated := JustNow\<rparr>"
      have cat: "t_versions db1 = t_versions db" "cn_id ` set (t_collections db1) = cn_id ` set (t_collections db)"
        using same by (simp_all add: same_sources_def same_catalog_def)
      have "same_binding c ?d" using conjunct2 [OF same] by (simp add: same_binding_def)
      then have "source_ok db1 ?d"
        using source_ok_binding read_source_ok(1) [OF executed(1) inv] unfolding catalog_cong(3) [OF cat] by blast
      with executed(8) same_sources_inv [OF conjunct1 [OF same] inv] have "catalog_inv (sr_sha s) db2" by (rule save_source_inv)
      moreover have "version_history db db2"
        using same_sources_history [OF conjunct1 [OF same]] save_collector_rule(1) [OF executed(8)] by (simp add: version_history_def)
      ultimately show ?thesis by (rule keeps_catalog [OF finish_command_sources [OF executed(9)]])
    qed
  next
    case (Reassign cid target digest confirmed)
    then have "reassignment_command (sr_hash s) (sr_cron s) (sr_next s) (sr_docs s) db cid target digest confirmed (mq_key q)
        (mq_audit q) (mq_event q) (mq_now q) = Inr (db', st, v, rep)"
      using run by (simp add: run_management_def)
    then show ?thesis
    proof (cases rule: reassignment_command_cases)
      case replayed
      with self show ?thesis by simp
    next
      case (executed plan c db1 c1)
      have "catalog_inv (sr_sha s) db1"
        by (rule reassign_source_inv [OF executed(1) executed(2) executed(5) executed(6) inv])
          (rule reassign_pending [OF executed(1) executed(2) executed(5)])
      moreover have "version_history db db1" by (rule reassign_source_history [OF executed(6) ids])
      ultimately show ?thesis by (rule keeps_catalog [OF finish_command_sources [OF executed(7)]])
    qed
  next
    case (Migrate cid cancel target digest confirmed)
    then have mc: "migration_command (sr_hash s) (sr_docs s) db cid cancel target digest confirmed (mq_key q) (mq_audit q)
        (mq_event q) (mq_now q) = Inr (db', st, v, rep)"
      using run by (simp add: run_management_def)
    from mc show ?thesis
    proof (cases rule: migration_command_cases)
      case replayed
      with self show ?thesis by simp
    next
      case (executed c db1 c1 db2 c2 action)
      note mig = migrate_source_inv [OF executed(3,1) inv]
      have "catalog_inv (sr_sha s) db2" by (rule save_source_inv [OF executed(4) conjunct1 [OF mig] conjunct2 [OF mig]])
      moreover have "t_versions db1 = t_versions db" using executed(3) by (rule migrate_source_cases) simp_all
      then have "version_history db db2" using save_collector_rule(1) [OF executed(4)] by (simp add: version_history_def)
      ultimately show ?thesis by (rule keeps_catalog [OF finish_command_sources [OF executed(5)]])
    qed
  qed
qed

lemma catalog_step_inv:
  assumes "catalog_inv (sr_sha s) db"
  shows "catalog_inv (sr_sha s) (catalog_step s db e) \<and> version_history db (catalog_step s db e)"
proof (cases e)
  case (Management q)
  then show ?thesis using run_management_inv [of s db q] assms
    by (cases "run_management s db q") (auto simp: committed_def version_history_same)
next
  case (NewSource n)
  then show ?thesis
    using create_collector_inv [OF _ assms, of "sr_hash s" "sr_cron s" "sr_next s" "ns_name n" "ns_intent n" "ns_url n" "ns_host n"
        "ns_collection n" "ns_collection_name n" "ns_existing n" "ns_hex n" "ns_now n"] assms
    by (auto simp: committed_def version_history_same split: sum.splits)
next
  case (Elsewhere db')
  then show ?thesis using same_sources_inv [of db db'] same_sources_history [of db db'] assms by (simp add: version_history_same)
qed


lemma catalog_step_rank:
  "catalog_inv (sr_sha s) db \<Longrightarrow> int (length (t_versions db)) \<le> int (length (t_versions (catalog_step s db e)))"
  using conjunct2 [OF catalog_step_inv [of s db e]] by (auto simp: version_history_def)

interpretation catalog: step_machine "catalog_step s" "catalog_inv (sr_sha s)" "\<lambda>db. int (length (t_versions db))" for s
  by unfold_locales (rule conjunct1 [OF catalog_step_inv] catalog_step_rank; assumption)+

lemma catalog_run_history: "catalog_inv (sr_sha s) db \<Longrightarrow> version_history db (foldl (catalog_step s) db evs)"
proof (induction evs arbitrary: db)
  case Nil
  then show ?case by (simp add: version_history_same)
next
  case (Cons e evs)
  then show ?case using catalog_step_inv [of s db e] version_history_trans by fastforce
qed

lemma empty_catalog: "catalog_inv sha empty_db"
  by (simp add: catalog_inv_def empty_db_def ids_match_def stored_collector_def versions_of_def gapless_def)

text \<open>
  C7. From an empty store and over any history of management requests, creations of sources and
  work elsewhere: every live source belongs to a collection that is there, and the version it
  works with, and the one it is migrating to, are the default version or a published version of
  that same collection.
\<close>

theorem live_source_bound:
  assumes "stored_collector (foldl (catalog_step s) empty_db evs) k = Some c" and "\<not> is_deleted (foldl (catalog_step s) empty_db evs) k"
    and "vid = col_collection_version c \<or> col_pending_version c = Some vid"
  shows "(\<exists>cn \<in> set (t_collections (foldl (catalog_step s) empty_db evs)). cn_id cn = col_collection_id c) \<and>
    (vid = default_collection_version \<or>
     (\<exists>v \<in> set (t_versions (foldl (catalog_step s) empty_db evs)). cv_id v = vid \<and> cv_collection v = col_collection_id c))"
proof -
  have "source_ok (foldl (catalog_step s) empty_db evs) c"
    using catalog.run_inv [OF empty_catalog, of s evs] assms(1,2) by (auto simp: catalog_inv_def)
  then show ?thesis using assms(3) by (auto simp: source_ok_def bound_to_def)
qed

text \<open>
  C8. From an empty store and over any history, published versions are never changed or
  withdrawn; every one of them carries the contract of its own fields; the versions of a
  collection are numbered 1, 2, 3 and so on in the order they were published; and a collection's
  latest number and active version are those of its newest version.
\<close>

theorem published_versions_history:
  assumes "versions_of (foldl (catalog_step s) empty_db evs) (cn_id cn) = vs"
    and "cn \<in> set (t_collections (foldl (catalog_step s) empty_db evs))"
  shows "map cv_number vs = [1..<length vs + 1] \<and> cn_latest_number cn = length vs \<and>
    cn_active_version_id cn = (if vs = [] then None else Some (cv_id (last vs))) \<and>
    list_all (\<lambda>v. build_collection_version_contract (sr_sha s) (cv_fields v) = Inr (cv_contract v)) vs \<and>
    (\<exists>new. t_versions (foldl (catalog_step s) empty_db (evs @ later)) = t_versions (foldl (catalog_step s) empty_db evs) @ new)"
proof -
  let ?db = "foldl (catalog_step s) empty_db evs"
  have inv: "catalog_inv (sr_sha s) ?db" by (rule catalog.run_inv [OF empty_catalog])
  then have "collection_ok ?db cn" "gapless vs" using assms by (auto simp: catalog_inv_def)
  moreover have "list_all (\<lambda>v. build_collection_version_contract (sr_sha s) (cv_fields v) = Inr (cv_contract v)) vs"
    using inv assms(1) by (auto simp: list_all_iff catalog_inv_def version_ok_def versions_of_def)
  moreover have "version_history ?db (foldl (catalog_step s) ?db later)" by (rule catalog_run_history [OF inv])
  ultimately show ?thesis using assms(1) by (simp add: collection_ok_def newest_id_def gapless_def version_history_def)
qed

subsection \<open>A history\<close>

definition example_surroundings :: surroundings where
  "example_surroundings = \<lparr>sr_hash = (\<lambda>_. ''digest''), sr_sha = (\<lambda>_. ''sha''), sr_cron = (\<lambda>_. True), sr_next = (\<lambda>_ _ t. t + 60),
     sr_docs = \<lparr>doc_collector = (\<lambda>_. JNull), doc_collection = (\<lambda>_. JNull), doc_version = (\<lambda>_. JNull), doc_spec = (\<lambda>_. None)\<rparr>\<rparr>"

definition example_request :: "string \<Rightarrow> management_command \<Rightarrow> management_request" where
  "example_request key cmd = \<lparr>mq_command = cmd, mq_key = key,
     mq_audit = \<lparr>aa_tenant = ''t1'', aa_actor = ''ann'', aa_action = [], aa_request = key, aa_details = JNull\<rparr>,
     mq_hex = key, mq_event = ''audit_'' @ key, mq_now = 5\<rparr>"

definition example_source :: new_source where
  "example_source = \<lparr>ns_name = ''Notices'', ns_intent = ''tenders'', ns_url = ''https://a.b/c'', ns_host = ''a.b'',
     ns_collection = ''collection_1'', ns_collection_name = ''Tenders'', ns_existing = False, ns_hex = ''1'', ns_now = 3\<rparr>"

definition example_draft :: management_request where
  "example_draft = example_request ''k1'' (OnCollection (ChangeCollection ''collection_1'' 1
     \<lparr>ch_name = None, ch_intent = None, ch_status = None, ch_draft = Some (draft_doc example_fields)\<rparr>))"

definition example_publish :: management_request where
  "example_publish = example_request ''k2'' (PublishVersion ''collection_1'' 2 None)"

definition example_store1 :: db where
  "example_store1 = (case create_collector (\<lambda>_. ''digest'') (\<lambda>_. True) (\<lambda>_ _ t. t + 60) empty_db ''Notices'' ''tenders''
     ''https://a.b/c'' ''a.b'' ''collection_1'' ''Tenders'' default_collection_version False ''1'' 3 of
     Inl _ \<Rightarrow> empty_db | Inr (db, _) \<Rightarrow> db)"

definition example_store2 :: db where
  "example_store2 = committed example_store1 (run_management example_surroundings example_store1 example_draft)"

definition example_store3 :: db where
  "example_store3 = committed example_store2 (run_management example_surroundings example_store2 example_publish)"

definition example_events :: "catalog_event list" where
  "example_events = [NewSource example_source, Management example_draft, Management example_publish]"

lemma example_run: "foldl (catalog_step example_surroundings) empty_db example_events = example_store3"
  by (simp add: example_events_def example_store3_def example_store2_def example_store1_def committed_def
      example_source_def example_surroundings_def)

lemma example_evaluated:
  "(stored_collector example_store3 ''collector_a_b_1'' \<noteq> None \<and> \<not> is_deleted example_store3 ''collector_a_b_1'') \<and>
   length (t_versions example_store3) = 1 \<and> length (t_collections example_store3) = 1 \<and>
   versions_of example_store3 (cn_id (hd (t_collections example_store3))) = t_versions example_store3"
  by code_simp

theorem live_source_bound_witness:
  "\<exists>c. stored_collector example_store3 ''collector_a_b_1'' = Some c \<and> \<not> is_deleted example_store3 ''collector_a_b_1'' \<and>
     (\<exists>cn \<in> set (t_collections example_store3). cn_id cn = col_collection_id c)"
proof -
  have c: "stored_collector example_store3 ''collector_a_b_1'' \<noteq> None \<and> \<not> is_deleted example_store3 ''collector_a_b_1''"
    using example_evaluated by simp
  then obtain c where "stored_collector example_store3 ''collector_a_b_1'' = Some c" by blast
  with c show ?thesis
    using live_source_bound [of example_surroundings example_events, unfolded example_run, OF _ _ disjI1 [OF refl]] by blast
qed

theorem published_versions_history_witness:
  "\<exists>v cn. t_versions example_store3 = [v] \<and> t_collections example_store3 = [cn] \<and> cv_number v = 1 \<and> cn_latest_number cn = 1 \<and>
     cn_active_version_id cn = Some (cv_id v)"
proof -
  have "length (t_versions example_store3) = 1 \<and> length (t_collections example_store3) = 1 \<and>
      versions_of example_store3 (cn_id (hd (t_collections example_store3))) = t_versions example_store3"
    using example_evaluated by simp
  then obtain v cn where "t_versions example_store3 = [v]" "t_collections example_store3 = [cn]" "versions_of example_store3 (cn_id cn) = [v]"
    by (auto simp: length_Suc_conv)
  then show ?thesis
    using published_versions_history [of example_surroundings example_events cn "[v]" "[]", unfolded example_run] by simp
qed

theorem management_command_once_witness:
  "\<exists>v rep. run_management example_surroundings example_store2 example_publish = Inr (example_store3, 201, v, rep) \<and>
     run_management example_surroundings example_store3 example_publish = Inr (example_store3, 201, v, True)"
proof -
  have "(case run_management example_surroundings example_store2 example_publish of Inl _ \<Rightarrow> False | Inr (_, st, _) \<Rightarrow> st = 201)"
    by code_simp
  then obtain v rep where r: "run_management example_surroundings example_store2 example_publish = Inr (example_store3, 201, v, rep)"
    by (auto simp: example_store3_def committed_def split: sum.splits)
  show ?thesis using r management_command_once [OF r keeps_receipts_refl refl refl] by blast
qed

end
