(* ===== verification/Item_Pages.thy ===== *)
theory Item_Pages
  imports Items
begin

text \<open>
  The pages of items: following the cursors from the first page to the end gives exactly the
  export, whatever the filter, view and page size; the text search finds exactly the items
  that contain the wanted text; the entity view holds each entity once, at its newest item.
\<close>

subsection \<open>Well-formed item tables\<close>

definition items_wf :: "db \<Rightarrow> bool" where
  "items_wf db \<longleftrightarrow> distinct (map it_id (t_items db)) \<and> list_all (\<lambda>r. im_id (it_data r) = it_id r) (t_items db)"

lemma replace_run_items_wf:
  assumes "replace_run_items db rid items now = Inr db'" and "items_wf db"
  shows "items_wf db'"
proof -
  let ?kept = "filter (\<lambda>r. it_run r \<noteq> rid) (t_items db)"
  have db': "t_items db' = ?kept @ new_item_rows rid items now"
    and new: "distinct (map im_id items)" "\<forall>r \<in> set ?kept. it_id r \<notin> set (map im_id items)"
    using assms(1) by (auto simp: replace_run_items_def Let_def split: if_splits)
  have "map it_id (new_item_rows rid items now) = map im_id items" by (simp add: new_item_rows_def)
  moreover have "distinct (map it_id ?kept)" using assms(2) by (simp add: items_wf_def distinct_map_filter)
  moreover have "list_all (\<lambda>r. im_id (it_data r) = it_id r) (new_item_rows rid items now)"
    by (simp add: new_item_rows_def list_all_iff)
  ultimately show ?thesis using assms(2) new unfolding items_wf_def db' by (auto simp: list_all_iff)
qed

lemma item_source_ids: "map (\<lambda>v. it_id (iv_row v)) (item_source db) = map it_id (t_items db)"
  by (simp add: item_source_def view_item_def)

lemma query_source_part:
  assumes "item_query_source db view = Inr vs"
  obtains P where "vs = filter P (item_source db)"
proof -
  have "vs = filter (\<lambda>_. True) (item_source db) \<or>
      vs = filter (\<lambda>v. newest_of (filter (\<lambda>w. entity_of w = entity_of v) (item_source db)) v) (item_source db)"
    using assms by (auto simp: item_query_source_def split: if_splits)
  with that show thesis by blast
qed

lemma source_keys:
  assumes "items_wf db"
  shows "distinct (map item_key (filter P (item_source db)))"
proof -
  have inj: "inj codes" by (rule injI) (simp add: codes_def inj_map_eq_map inj_def)
  have "distinct (map (\<lambda>v. it_id (iv_row v)) (item_source db))" using assms by (simp add: item_source_ids items_wf_def)
  then have "distinct (map (codes \<circ> (\<lambda>v. it_id (iv_row v))) (item_source db))"
    using inj by (metis distinct_map inj_on_subset map_map subset_UNIV)
  then have "distinct (map (snd \<circ> snd \<circ> item_key) (item_source db))" by (simp add: comp_def item_key_def)
  then have "distinct (map item_key (item_source db))" by (metis distinct_map map_map)
  then show ?thesis by (rule distinct_map_filter)
qed

subsection \<open>Newest first\<close>

abbreviation descending :: "item_view list \<Rightarrow> bool" where
  "descending \<equiv> sorted_wrt (\<lambda>v w. item_key w < item_key v)"

lemma newest_first_descending:
  assumes "distinct (map item_key vs)"
  shows "descending (newest_first vs)"
proof -
  let ?s = "sort_key item_key vs"
  have "sorted (map item_key ?s)" by simp
  moreover have "distinct (map item_key ?s)" using assms by (simp add: distinct_map)
  ultimately have "sorted_wrt (<) (map item_key ?s)" by (simp add: strict_sorted_iff)
  then have "sorted_wrt (\<lambda>v w. item_key v < item_key w) ?s" by (simp add: sorted_wrt_map)
  then show ?thesis by (simp add: newest_first_def sorted_wrt_rev)
qed

lemma newest_first_filter: "newest_first (filter P vs) = filter P (newest_first vs)"
  by (simp only: newest_first_def rev_filter [symmetric] filter_sort)

lemma newest_first_set [simp]: "set (newest_first vs) = set vs"
  by (simp add: newest_first_def)

lemma after_position:
  assumes "descending (p @ l # rest)"
  shows "filter (\<lambda>v. item_key v < item_key l) (p @ l # rest) = rest"
proof -
  have "filter (\<lambda>v. item_key v < item_key l) p = []"
    using assms by (auto simp: filter_empty_conv sorted_wrt_append not_less less_imp_le)
  moreover have "filter (\<lambda>v. item_key v < item_key l) rest = rest"
    using assms by (intro filter_True) (auto simp: sorted_wrt_append)
  ultimately show ?thesis by simp
qed

subsection \<open>Walking through the pages\<close>

text \<open>One page from a position; the client follows \<open>nextCursor\<close> until there is none.\<close>

fun walk_items :: "nat \<Rightarrow> db \<Rightarrow> item_filter \<Rightarrow> string \<Rightarrow> nat \<Rightarrow> string option \<Rightarrow> item_view list option" where
  "walk_items 0 db f view limit cursor = None"
| "walk_items (Suc n) db f view limit cursor =
     (case list_items_cursor db f ''observed_at'' limit cursor view None of
        Inl e \<Rightarrow> None
      | Inr pg \<Rightarrow>
          (case pg_next pg of
             None \<Rightarrow> Some (pg_items pg)
           | Some c \<Rightarrow> map_option ((@) (pg_items pg)) (walk_items n db f view limit (Some c))))"

text \<open>What a cursor leaves over of the export.\<close>

definition remaining :: "item_view list \<Rightarrow> string option \<Rightarrow> item_view list" where
  "remaining all cursor =
     (case cursor of
        None \<Rightarrow> all
      | Some c \<Rightarrow> (case decode_item_cursor c of Inl _ \<Rightarrow> [] | Inr position \<Rightarrow> filter (\<lambda>v. item_key v < position) all))"

lemma page_of_remaining:
  assumes "iter_items_export db f view = Inr all" and "1 \<le> limit"
    and "\<And>c. cursor = Some c \<Longrightarrow> \<exists>position. decode_item_cursor c = Inr position"
  shows "\<exists>pg. list_items_cursor db f ''observed_at'' limit cursor view None = Inr pg \<and>
    pg_items pg = take limit (remaining all cursor) \<and>
    pg_next pg = next_item_cursor (take (limit + 1) (remaining all cursor)) limit"
proof -
  obtain vs where vs: "item_query_source db view = Inr vs" and all: "all = newest_first (filter (item_filter_clauses f) vs)"
    using assms(1) by (auto simp: iter_items_export_def split: sum.splits)
  show ?thesis
  proof (cases cursor)
    case None
    then show ?thesis using assms(2) by (simp add: list_items_cursor_def vs Let_def remaining_def all)
  next
    case (Some c)
    with assms(3) obtain position where "decode_item_cursor c = Inr position" by blast
    with Some show ?thesis using assms(2)
      by (simp add: list_items_cursor_def vs Let_def remaining_def all newest_first_filter)
  qed
qed

lemma next_cursor_remaining:
  assumes desc: "descending all" and ids: "\<And>v. v \<in> set all \<Longrightarrow> im_id (iv_item v) = it_id (iv_row v)"
    and all: "all = p @ rest" and next_c: "next_item_cursor (take (limit + 1) rest) limit = Some c" and "1 \<le> limit"
  shows "remaining all (Some c) = drop limit rest" "\<exists>position. decode_item_cursor c = Inr position" "limit < length rest"
proof -
  have long: "limit < length rest" using next_c by (auto simp: next_item_cursor_def split: if_splits)
  then show "limit < length rest" .
  define l where "l = last (take limit rest)"
  have "take limit rest \<noteq> []" using long \<open>1 \<le> limit\<close> by auto
  then have split: "rest = butlast (take limit rest) @ l # drop limit rest"
    unfolding l_def by (metis append.assoc append_Cons append_Nil append_butlast_last_id append_take_drop_id)
  have "c = encode_item_cursor (im_observed_at (iv_item l)) (im_entity_key (iv_item l)) (im_id (iv_item l))"
    using next_c by (auto simp: next_item_cursor_def Let_def l_def min_absorb1 split: if_splits)
  moreover have "l \<in> set all" unfolding all by (subst split) simp
  ultimately have dec: "decode_item_cursor c = Inr (item_key l)" by (simp add: decode_encoded_cursor item_key_def ids)
  then show "\<exists>position. decode_item_cursor c = Inr position" by blast
  have whole: "all = (p @ butlast (take limit rest)) @ l # drop limit rest" unfolding all by (subst split) simp
  have "filter (\<lambda>v. item_key v < item_key l) all = drop limit rest"
    using after_position [of "p @ butlast (take limit rest)" l "drop limit rest"] desc unfolding whole [symmetric] by blast
  then show "remaining all (Some c) = drop limit rest" by (simp add: remaining_def dec)
qed

lemma walk_from:
  assumes desc: "descending all" and ids: "\<And>v. v \<in> set all \<Longrightarrow> im_id (iv_item v) = it_id (iv_row v)"
    and export: "iter_items_export db f view = Inr all" and "1 \<le> limit"
  shows "all = p @ remaining all cursor \<Longrightarrow> (\<And>c. cursor = Some c \<Longrightarrow> \<exists>position. decode_item_cursor c = Inr position) \<Longrightarrow>
    walk_items (Suc (length (remaining all cursor) div limit)) db f view limit cursor = Some (remaining all cursor)"
proof (induction "length (remaining all cursor)" arbitrary: p cursor rule: less_induct)
  case less
  let ?rest = "remaining all cursor"
  obtain pg where pg: "list_items_cursor db f ''observed_at'' limit cursor view None = Inr pg"
    "pg_items pg = take limit ?rest" "pg_next pg = next_item_cursor (take (limit + 1) ?rest) limit"
    using page_of_remaining [OF export \<open>1 \<le> limit\<close> less.prems(2)] by blast
  show ?case
  proof (cases "pg_next pg")
    case None
    then have "length ?rest \<le> limit" using pg(3) by (auto simp: next_item_cursor_def Let_def split: if_splits)
    with None pg show ?thesis by simp
  next
    case (Some c)
    note nxt = next_cursor_remaining [OF desc ids less.prems(1) Some [unfolded pg(3)] \<open>1 \<le> limit\<close>]
    have "all = (p @ take limit ?rest) @ remaining all (Some c)" using less.prems(1) nxt(1) by simp
    moreover have "length (remaining all (Some c)) < length ?rest" using nxt(1,3) \<open>1 \<le> limit\<close> by simp
    ultimately have "walk_items (Suc (length (remaining all (Some c)) div limit)) db f view limit (Some c) =
        Some (remaining all (Some c))"
      using less.hyps [of "Some c" "p @ take limit ?rest"] nxt(2) by simp
    moreover have "length ?rest div limit = Suc (length (remaining all (Some c)) div limit)"
      using nxt(1,3) \<open>1 \<le> limit\<close> by (simp add: le_div_geq)
    ultimately have "walk_items (length ?rest div limit) db f view limit (Some c) = Some (drop limit ?rest)"
      using nxt(1) by (simp del: walk_items.simps)
    then show ?thesis unfolding walk_items.simps(2) [of "length ?rest div limit"] pg(1) sum.case Some option.case pg(2) by simp
  qed
qed

text \<open>
  C12. A walk through the pages ends and misses nothing: whatever view, filter and page size, a
  client that follows the cursors from the first page needs at most one request more than the
  number of full pages, and the pages it gets, put together, are exactly the export: every
  matching item once, newest first.
\<close>

theorem item_walk_complete:
  assumes "items_wf db" and "1 \<le> limit" and "iter_items_export db f view = Inr all"
  shows "walk_items (Suc (length all div limit)) db f view limit None = Some all"
proof -
  obtain vs where vs: "item_query_source db view = Inr vs" and all: "all = newest_first (filter (item_filter_clauses f) vs)"
    using assms(3) by (auto simp: iter_items_export_def split: sum.splits)
  obtain P where P: "vs = filter P (item_source db)" using query_source_part [OF vs] .
  have "descending all"
    unfolding all P filter_filter by (rule newest_first_descending [OF source_keys [OF assms(1)]])
  moreover have "im_id (iv_item v) = it_id (iv_row v)" if "v \<in> set all" for v
    using that assms(1) by (auto simp: all P item_source_def view_item_def items_wf_def list_all_iff)
  ultimately show ?thesis
    using walk_from [OF _ _ assms(3,2), of "[]" None] by (simp add: remaining_def)
qed

subsection \<open>Search\<close>

lemma like_escaped: "like (concat (map like_escape u) @ ps) t \<longleftrightarrow> (\<exists>t'. t = u @ t' \<and> like ps t')"
proof (induction u arbitrary: t)
  case Nil
  then show ?case by simp
next
  case (Cons c u)
  have "like (like_escape c @ concat (map like_escape u) @ ps) t \<longleftrightarrow>
      (\<exists>cs. t = c # cs \<and> like (concat (map like_escape u) @ ps) cs)"
    by (cases t) (auto simp: like_escape_def)
  then show ?case by (auto simp: Cons.IH)
qed

lemma like_percent: "like (CHR ''%'' # ps) t \<longleftrightarrow> (\<exists>a b. t = a @ b \<and> like ps b)"
proof (induction t)
  case Nil
  then show ?case by simp
next
  case (Cons c t)
  have "like (CHR ''%'' # ps) (c # t) \<longleftrightarrow> like ps (c # t) \<or> like (CHR ''%'' # ps) t" by simp
  also have "\<dots> \<longleftrightarrow> (\<exists>a b. c # t = a @ b \<and> like ps b)"
    unfolding Cons.IH by (metis append_Cons append_Nil append_eq_Cons_conv)
  finally show ?case .
qed

text \<open>
  The search is a plain substring search: a query of visible characters matches an item
  exactly when its title, content, source name or entity key contains the query as it was
  typed, without regard to case; a blank query matches everything. Wildcards and the escape
  character in the query have no special meaning.
\<close>

lemma search_finds_substrings:
  "search_clause (Some q) i \<longleftrightarrow> strip q = [] \<or> (\<exists>t \<in> set (search_texts i). sublist (lower (strip q)) (lower t))"
proof -
  have "like (search_pattern q) t \<longleftrightarrow> sublist (lower (strip q)) t" for t
    using like_escaped [of "lower (strip q)" "''%''"] like_percent [of "[]"]
    by (auto simp: search_pattern_def like_percent sublist_def simp del: like.simps(2))
  then show ?thesis by (simp add: search_clause_def list_ex_iff)
qed

subsection \<open>The entity view\<close>

lemma newest_of_unique: "newest_of vs v \<Longrightarrow> newest_of vs w \<Longrightarrow> v \<in> set vs \<Longrightarrow> w \<in> set vs \<Longrightarrow> recency v = recency w"
  by (simp add: newest_of_def order_antisym)

lemma newest_exists: "vs \<noteq> [] \<Longrightarrow> \<exists>v \<in> set vs. newest_of vs v"
proof -
  assume "vs \<noteq> []"
  then have "Max (recency ` set vs) \<in> recency ` set vs" by (intro Max_in) auto
  then obtain v where "v \<in> set vs" "recency v = Max (recency ` set vs)" by auto
  then show ?thesis by (auto simp: newest_of_def intro!: bexI [of _ v])
qed

subsection \<open>An example\<close>

definition example_item :: "string \<Rightarrow> string \<Rightarrow> string \<Rightarrow> string \<Rightarrow> item" where
  "example_item i entity observed decision =
     \<lparr>im_id = i, im_collector = ''collector_a'', im_collector_name = ''A'', im_source_host = ''a.test'', im_entity_key = entity,
      im_observed_at = observed, im_decision = decision, im_change_type = None, im_revision = None, im_title = ''Notice'',
      im_content = ''text'', im_list_title = ''Notice'', im_source_url = ''https://a.test/1'', im_extracted = [], im_other = [],
      im_changes = [], im_history = [], im_list_record = None\<rparr>"

definition example_items :: db where
  "example_items = empty_db\<lparr>t_items :=
     new_item_rows ''run_1'' [example_item ''item_1'' ''e1'' ''2024-01-01 10:00'' ''accepted'', example_item ''item_2'' ''e2'' ''2024-01-01 10:00'' ''accepted''] 1 @
     new_item_rows ''run_2'' [example_item ''item_3'' ''e1'' ''2024-01-02 10:00'' ''accepted'', example_item ''item_4'' ''e3'' ''2024-01-02 10:00'' ''rejected''] 2\<rparr>"

definition no_filter :: item_filter where
  "no_filter = \<lparr>flt_collector = None, flt_run = None, flt_decision = None, flt_entity = None, flt_host = None, flt_q = None\<rparr>"

theorem item_walk_complete_witness:
  "\<exists>all. iter_items_export example_items no_filter ''entities'' = Inr all \<and>
     map (\<lambda>v. it_id (iv_row v)) all = [''item_4'', ''item_3'', ''item_2''] \<and>
     walk_items 2 example_items no_filter ''entities'' 2 None = Some all"
proof -
  have "(case iter_items_export example_items no_filter ''entities'' of
      Inl _ \<Rightarrow> False | Inr all \<Rightarrow> map (\<lambda>v. it_id (iv_row v)) all = [''item_4'', ''item_3'', ''item_2''])" by code_simp
  then obtain all where all: "iter_items_export example_items no_filter ''entities'' = Inr all"
    "map (\<lambda>v. it_id (iv_row v)) all = [''item_4'', ''item_3'', ''item_2'']" by (auto split: sum.splits)
  have "items_wf example_items" by code_simp
  then have w: "walk_items (Suc (length all div 2)) example_items no_filter ''entities'' 2 None = Some all"
    by (rule item_walk_complete [OF _ _ all(1)]) simp
  have two: "Suc (length all div 2) = 2" using arg_cong [OF all(2), of length] by simp
  from w have "walk_items 2 example_items no_filter ''entities'' 2 None = Some all" unfolding two .
  then show ?thesis by (intro exI [of _ all] conjI all)
qed

end
