(* ===== verification/Execution.thy ===== *)
theory Execution
  imports Runs Webhook
begin

text \<open>
  Carrying out a claimed job (\<open>worker.py\<close>): the checks before a run, the classification of
  what it observed against the last accepted items, the transaction that publishes its
  outcome, the one that publishes an exploration, the deliveries a run enqueues, and the
  pause of a schedule after failed runs. The crawl itself and the exploration are arguments
  (their result); \<open>canon\<close> is RFC 8785 and \<open>th\<close> SHA-256 of a text. A summary is reduced to
  its numbers, a recovery hint to its reason.
\<close>

text \<open>The truth value of a JSON value.\<close>

definition truthy :: "json \<Rightarrow> bool" where
  "truthy v \<longleftrightarrow> v \<notin> {JNull, JBool False, JNum 0, JStr [], JArr [], JObj []}"

subsection \<open>Classification of observed items\<close>

definition revision_fields :: "string list" where
  "revision_fields = [''title'', ''publishedAt'', ''content'', ''buyer'', ''budget'', ''region'']"

definition item_field :: "item \<Rightarrow> string \<Rightarrow> json" where
  "item_field i f =
     (if f = ''title'' then JStr (im_title i) else if f = ''content'' then JStr (im_content i) else jget f (im_other i))"

definition revision_values :: "string list \<Rightarrow> item \<Rightarrow> (string \<times> json) list" where
  "revision_values fingerprint i =
     (if im_extracted i \<noteq> []
      then (if fingerprint \<noteq> [] then map (\<lambda>f. (f, jget f (im_extracted i))) fingerprint else im_extracted i)
      else map (\<lambda>f. (f, item_field i f)) revision_fields)"

definition change_value :: "(json \<Rightarrow> string) \<Rightarrow> json \<Rightarrow> string" where
  "change_value canon v = (case v of JStr s \<Rightarrow> s | _ \<Rightarrow> canon v)"

definition value_changes :: "(json \<Rightarrow> string) \<Rightarrow> (string \<times> json) list \<Rightarrow> (string \<times> json) list \<Rightarrow> value_change list" where
  "value_changes canon before now' =
     map (\<lambda>f. \<lparr>fx_field = f, fx_before = change_value canon (jget f before), fx_after = change_value canon (jget f now')\<rparr>)
       (filter (\<lambda>f. canon (jget f before) \<noteq> canon (jget f now')) (sort (remdups (map fst before @ map fst now'))))"

definition last_n :: "nat \<Rightarrow> 'a list \<Rightarrow> 'a list" where
  "last_n n xs = drop (length xs - n) xs"

text \<open>\<open>int(x or default)\<close> of a revision that may be absent, null or zero.\<close>

definition revision_or :: "nat \<Rightarrow> nat option \<Rightarrow> nat" where
  "revision_or dflt r = (case r of None \<Rightarrow> dflt | Some n \<Rightarrow> if n = 0 then dflt else n)"

definition latest_by_entity :: "item list \<Rightarrow> string \<Rightarrow> string \<Rightarrow> item option" where
  "latest_by_entity previous cid entity =
     find (\<lambda>p. im_collector p = cid \<and> im_decision p = ''accepted'' \<and> im_entity_key p = entity) previous"

definition classify_item :: "(json \<Rightarrow> string) \<Rightarrow> string list \<Rightarrow> (string \<Rightarrow> item option) \<Rightarrow> item \<Rightarrow> item" where
  "classify_item canon fingerprint latest i =
     (if im_decision i \<noteq> ''accepted'' then i\<lparr>im_change_type := None\<rparr>
      else
        (case latest (im_entity_key i) of
           None \<Rightarrow> i\<lparr>im_change_type := Some ''new'', im_revision := Some 1\<rparr>
         | Some p \<Rightarrow>
             (let changes = value_changes canon (revision_values fingerprint p) (revision_values fingerprint i);
                  i1 = i\<lparr>im_changes := changes, im_history := last_n 50 (im_history p @ im_history i)\<rparr>
              in if changes \<noteq> []
                 then i1\<lparr>im_change_type := Some ''updated'', im_revision := Some (revision_or 0 (im_revision p) + 1)\<rparr>
                 else i1\<lparr>im_change_type := Some ''unchanged'', im_revision := Some (revision_or 1 (im_revision p))\<rparr>)))"

definition count_type :: "string \<Rightarrow> item list \<Rightarrow> nat" where
  "count_type t items = length (filter (\<lambda>i. im_change_type i = Some t) items)"

text \<open>The classified items and the metrics of the three types.\<close>

definition classify_items ::
  "(json \<Rightarrow> string) \<Rightarrow> item list \<Rightarrow> item list \<Rightarrow> string \<Rightarrow> string list \<Rightarrow> item list \<times> nat \<times> nat \<times> nat" where
  "classify_items canon items previous cid fingerprint =
     (let out = map (classify_item canon fingerprint (latest_by_entity previous cid)) items
      in (out, count_type ''new'' out, count_type ''updated'' out, count_type ''unchanged'' out))"

definition normal_stop_reasons :: "string list" where
  "normal_stop_reasons =
     [''not_applicable'', ''next_link_exhausted'', ''time_window_reached'', ''checkpoint_reached'', ''max_pages'']"

definition final_run_status :: "nat \<Rightarrow> nat \<Rightarrow> string \<Rightarrow> status" where
  "final_run_status accepted rejected stop =
     (if stop \<notin> set normal_stop_reasons then (if 0 < accepted then PartiallySucceeded else Failed)
      else if 0 < rejected then (if 0 < accepted then PartiallySucceeded else Failed)
      else Succeeded)"

subsection \<open>Before a run\<close>

record worker_env =
  we_ph :: hasher
  we_canon :: "json \<Rightarrow> string"
  we_th :: "string \<Rightarrow> string"
  we_verify :: verifier
  we_preview :: "item list \<Rightarrow> string"

text \<open>The checks every run and exploration starts with.\<close>

definition job_source :: "db \<Rightarrow> claimed_job \<Rightarrow> py_exc + collector" where
  "job_source db job =
     (case pl_collector_id (cj_payload job) of
        None \<Rightarrow> Inl (KeyErr ''collectorId'')
      | Some cid \<Rightarrow>
          (case get_collector db cid of
             None \<Rightarrow> Inl (RuntimeErr ''collector not found'')
           | Some c \<Rightarrow>
               unless (require_active (Some c))
                 (if pl_management_revision (cj_payload job) \<noteq> col_revision c then Inl (LifecycleErr ''COLLECTOR_CONFLICT'')
                  else Inr c)))"

text \<open>The fixed context of the run is resolved and verified again.\<close>

definition verified_context :: "verifier \<Rightarrow> db \<Rightarrow> integrity_context option \<Rightarrow> py_exc + rule_version" where
  "verified_context verify db ctx =
     (case ctx of
        None \<Rightarrow> Inl (IntegrityErr ''RULE_ATTESTATION_INVALID'')
      | Some ic \<Rightarrow>
          (case (tbl_get rv_id (ic_rule_version ic) (t_rules db), tbl_get at_id (ic_attestation ic) (t_attestations db),
                 get_signing_key db (ic_key ic)) of
             (Some rule, Some a, Some k) \<Rightarrow>
               (case verify rule a k of
                  Inl code \<Rightarrow> Inl (IntegrityErr code)
                | Inr d \<Rightarrow>
                    if at_id a \<noteq> ic_attestation ic \<or> d \<noteq> ic_digest ic \<or> sk_id k \<noteq> ic_key ic \<or> sk_revision k \<noteq> ic_trust_revision ic
                    then Inl (IntegrityErr ''RULE_ATTESTATION_INVALID'') else Inr rule)
           | _ \<Rightarrow> Inl (IntegrityErr ''RULE_ATTESTATION_INVALID'')))"

definition fixed_policy :: "db \<Rightarrow> (string \<times> string) option \<Rightarrow> py_exc + policy" where
  "fixed_policy db ctx =
     (case ctx of
        None \<Rightarrow> Inl (IntegrityErr ''RULE_ATTESTATION_INVALID'')
      | Some (pid, digest) \<Rightarrow>
          (case tbl_get pol_id pid (t_policies db) of
             None \<Rightarrow> Inl (IntegrityErr ''RULE_ATTESTATION_INVALID'')
           | Some p \<Rightarrow> if pol_digest p \<noteq> digest then Inl (IntegrityErr ''RULE_ATTESTATION_INVALID'') else Inr p))"

definition job_run :: "db \<Rightarrow> claimed_job \<Rightarrow> py_exc + run" where
  "job_run db job =
     (case pl_run_id (cj_payload job) of
        None \<Rightarrow> Inl (KeyErr ''runId'')
      | Some rid \<Rightarrow> (case get_run db rid of None \<Rightarrow> Inl (RuntimeErr ''run not found'') | Some r \<Rightarrow> Inr r))"

record running =
  rn_source :: collector
  rn_run :: run
  rn_rule :: rule_version
  rn_policy :: policy

definition begin_run :: "worker_env \<Rightarrow> db \<Rightarrow> claimed_job \<Rightarrow> ts \<Rightarrow> py_exc + db \<times> running" where
  "begin_run env db job now =
     and_then (job_source db job) (\<lambda>c.
     and_then (job_run db job) (\<lambda>r.
     and_then (verified_context (we_verify env) db (pl_integrity (cj_payload job))) (\<lambda>rule.
     and_then (fixed_policy db (pl_policy (cj_payload job))) (\<lambda>p.
     unless (validate_attempt (we_ph env) db r now)
     (let r1 = r\<lparr>run_status := Running, run_summary := ''running'',
                 run_evidence_ref := Some (''attempt_'' @ nat_text (cj_attempts job)), run_evidence_digest := None\<rparr>
      in unless (owned_check db job False now)
           (and_then (save_run db r1 now) (\<lambda>db1.
              Inr (db1, \<lparr>rn_source = c, rn_run = r1, rn_rule = rule, rn_policy = p\<rparr>))))))))"

subsection \<open>The outcome of a run\<close>

record run_result =
  rs_items :: "item list"
  rs_metrics :: metrics
  rs_stop :: string
  rs_duration :: int
  rs_watermark :: "string option"
  rs_evidence_digest :: "string option"
  rs_artifact_mode :: string
  rs_coverage :: "coverage_progress option"
  rs_complete :: bool
  rs_requests :: int
  rs_retry_after :: "int option"

definition metric :: "string \<Rightarrow> run_result \<Rightarrow> int" where
  "metric k res = (case rs_metrics res k of None \<Rightarrow> 0 | Some n \<Rightarrow> n)"

definition accepted_count :: "item list \<Rightarrow> nat" where
  "accepted_count items = length (filter (\<lambda>i. im_decision i = ''accepted'') items)"

definition observed_policy :: "policy \<Rightarrow> bool" where
  "observed_policy p \<longleftrightarrow> pv_checkpoint_mode (pol_values p) = Some ''observed''"

definition retry_run :: "run \<Rightarrow> bool" where
  "retry_run r \<longleftrightarrow> run_purpose r = Some ''retry_rejected''"

text \<open>The classification reads the store before the final transaction.\<close>

definition classified :: "worker_env \<Rightarrow> db \<Rightarrow> running \<Rightarrow> run_result \<Rightarrow> run_result" where
  "classified env db rn res =
     (let cid = col_id (rn_source rn);
          previous = latest_accepted_items db cid (map im_entity_key (rs_items res))
      in (case classify_items (we_canon env) (rs_items res) previous cid (rv_fingerprint_fields (rn_rule rn)) of
            (items, new_items, updated, unchanged) \<Rightarrow>
              res\<lparr>rs_items := items,
                  rs_metrics := (rs_metrics res)(''newItems'' \<mapsto> int new_items, ''updatedItems'' \<mapsto> int updated,
                                                 ''unchangedItems'' \<mapsto> int unchanged)\<rparr>))"

definition outcome_status :: "running \<Rightarrow> run_result \<Rightarrow> status" where
  "outcome_status rn res =
     (let accepted = accepted_count (rs_items res); rejected = length (rs_items res) - accepted
      in if observed_policy (rn_policy rn) \<and> 0 < rejected \<and>
            (rs_complete res \<or> rs_coverage res \<noteq> None \<or> retry_run (rn_run rn))
         then PartiallySucceeded else final_run_status accepted rejected (rs_stop res))"

text \<open>The greatest of the texts that are there and not empty.\<close>

definition max_text :: "string option list \<Rightarrow> string" where
  "max_text ts = (case filter (\<lambda>t. t \<noteq> []) (map the (filter (\<lambda>t. t \<noteq> None) ts)) of [] \<Rightarrow> [] | x # xs \<Rightarrow> fold max xs x)"

definition checkpoint_after :: "running \<Rightarrow> run_result \<Rightarrow> ts \<Rightarrow> checkpoint option" where
  "checkpoint_after rn res now =
     (let observed = observed_policy (rn_policy rn); retry = retry_run (rn_run rn)
      in if (observed \<and> \<not> retry \<and> rs_complete res) \<or>
            (\<not> observed \<and> outcome_status rn res = Succeeded \<and> rs_stop res \<noteq> ''max_pages'' \<and>
             rs_watermark res \<noteq> None \<and> rs_watermark res \<noteq> Some [])
         then Some \<lparr>ck_collector = col_id (rn_source rn), ck_policy_version = pol_id (rn_policy rn),
                ck_kind = (if observed then Some ''coverage'' else None),
                ck_rule_digest = (if observed then Some (run_rule_digest (rn_run rn)) else None),
                ck_run = run_id (rn_run rn),
                ck_watermark = max_text [map_option ck_watermark (run_checkpoint_before (rn_run rn)), rs_watermark res,
                                         if observed then Some (run_window_start (rn_run rn)) else None],
                ck_advanced = now\<rparr>
         else None)"

definition recovery_hint :: "run_result \<Rightarrow> nat \<Rightarrow> string" where
  "recovery_hint res rejected =
     (if rs_stop res \<in> {''source_rate_limited'', ''source_structure_mismatch'', ''detail_fetch_incomplete''} then rs_stop res
      else if rs_stop res \<notin> set normal_stop_reasons then ''stopped'' else if 0 < rejected then ''rejected'' else ''none'')"

definition finished_run :: "running \<Rightarrow> run_result \<Rightarrow> ts \<Rightarrow> run" where
  "finished_run rn res now =
     (let accepted = accepted_count (rs_items res); rejected = length (rs_items res) - accepted
      in (rn_run rn)
         \<lparr>run_status := outcome_status rn res, run_accepted := accepted, run_rejected := rejected,
          run_list_pages := metric ''listPagesFetched'' res, run_details_found := metric ''detailUrlsDiscovered'' res,
          run_detail_pages := metric ''detailPagesFetched'' res, run_outside_window := metric ''recordsOutsideWindow'' res,
          run_duplicates := metric ''duplicateDetailUrls'' res, run_new := nat (metric ''newItems'' res),
          run_updated := nat (metric ''updatedItems'' res), run_unchanged := nat (metric ''unchangedItems'' res),
          run_stop_reason := Some (rs_stop res), run_checkpoint_after := checkpoint_after rn res now,
          run_duration_micros := Some (rs_duration res), run_evidence_digest := rs_evidence_digest res,
          run_artifact_mode := rs_artifact_mode res, run_finished_iso := Some now,
          run_source_requests := Some (rs_requests res), run_retry_after_seconds := rs_retry_after res,
          run_items := map im_id (rs_items res),
          run_coverage_after := (if observed_policy (rn_policy rn) \<and> \<not> retry_run (rn_run rn) then rs_coverage res
                                 else run_coverage_after (rn_run rn)),
          run_summary := ''accepted '' @ nat_text accepted @ '', rejected '' @ nat_text rejected,
          run_recovery_action := recovery_hint res rejected\<rparr>)"

subsection \<open>Deliveries of a run\<close>

definition list_sinks_for_collector :: "db \<Rightarrow> string \<Rightarrow> sink_row list" where
  "list_sinks_for_collector db cid =
     rev (sort_key (\<lambda>s. (iso_key (snk_created s), codes (snk_id s))) (filter (\<lambda>s. snk_collector s = cid) (t_sinks db)))"

definition deliverable :: "item \<Rightarrow> bool" where
  "deliverable i \<longleftrightarrow> im_decision i = ''accepted'' \<and> im_change_type i \<in> {Some ''new'', Some ''updated''}"

definition enqueue_one ::
  "(string \<Rightarrow> string) \<Rightarrow> string \<Rightarrow> ts \<Rightarrow> item \<times> sink_row \<Rightarrow> db \<times> nat \<Rightarrow> py_exc + db \<times> nat" where
  "enqueue_one th cid now pair state =
     (case (pair, state) of ((i, s), (db, n)) \<Rightarrow>
        (case enqueue_delivery th db cid (snk_id s) (im_id i) None now of
           Inr (db', _) \<Rightarrow> Inr (db', n + 1)
         | Inl (KeyErr _) \<Rightarrow> Inr (db, n)
         | Inl e \<Rightarrow> Inl e))"

definition enqueue_run_deliveries ::
  "(string \<Rightarrow> string) \<Rightarrow> db \<Rightarrow> string \<Rightarrow> item list \<Rightarrow> ts \<Rightarrow> py_exc + db \<times> nat" where
  "enqueue_run_deliveries th db cid items now =
     (let sinks = filter snk_enabled (list_sinks_for_collector db cid)
      in if sinks = [] then Inr (db, 0)
         else fold_result (enqueue_one th cid now) (concat (map (\<lambda>i. map (Pair i) sinks) (filter deliverable items))) (db, 0))"

subsection \<open>The final transaction of a run\<close>

text \<open>Under an observing policy: the rule and policy are still those of the run, and the source takes the progress.\<close>

definition settle_coverage :: "db \<Rightarrow> running \<Rightarrow> run_result \<Rightarrow> run \<Rightarrow> collector \<Rightarrow> py_exc + run \<times> collector" where
  "settle_coverage db rn res r current =
     (if \<not> observed_policy (rn_policy rn) then Inr (r, current)
      else if col_active_rule current \<noteq> Some (run_rule_version r) \<or> map_option pol_id (col_policy current) \<noteq> Some (pol_id (rn_policy rn))
      then Inl (IntegrityErr ''RULE_ATTESTATION_INVALID'')
      else
        (let backlog = fst (rejected_entities db (col_id (rn_source rn)) 1)
         in Inr (r\<lparr>run_pending_quality := Some backlog,
                   run_coverage_after := (if retry_run (rn_run rn) then col_coverage current else run_coverage_after r)\<rparr>,
                 current\<lparr>col_quality_backlog := Some backlog,
                         col_coverage := (if retry_run (rn_run rn) then col_coverage current else rs_coverage res)\<rparr>)))"

definition finish_run :: "worker_env \<Rightarrow> db \<Rightarrow> claimed_job \<Rightarrow> running \<Rightarrow> run_result \<Rightarrow> ts \<Rightarrow> py_exc + db \<times> nat" where
  "finish_run env db job rn res now =
     (let cid = col_id (rn_source rn); r1 = finished_run rn res now
      in unless (owned_check db job False now)
        (unless (lock_collector db cid)
        (and_then (save_run db r1 now) (\<lambda>db1.
         and_then (replace_run_items db1 (run_id r1) (rs_items res) now) (\<lambda>db2.
         (case get_collector db2 cid of
            None \<Rightarrow> Inl (RuntimeErr ''collector not found'')
          | Some current \<Rightarrow>
              and_then (settle_coverage db2 rn res r1
                (current\<lparr>col_latest_run := Some (run_id r1), col_preview_items := we_preview env (rs_items res),
                         col_active_operation := None, col_updated := JustNow\<rparr>)) (\<lambda>(r2, current1).
              and_then (if observed_policy (rn_policy rn) then save_run db2 r2 now else Inr db2) (\<lambda>db3.
              and_then (save_collector db3 current1 False now) (\<lambda>(db4, _).
              and_then (case run_checkpoint_after r2 of None \<Rightarrow> Inr db4 | Some ck \<Rightarrow> save_checkpoint db4 ck now) (\<lambda>db5.
              (case get_operation db5 (cj_operation job) of
                 None \<Rightarrow> Inl (RuntimeErr ''operation not found'')
               | Some o0 \<Rightarrow>
                   and_then (save_operation db5 (o0\<lparr>op_status := Succeeded, op_phase := ''completed'', op_progress := 100,
                       op_metrics := rs_metrics res, op_error := None\<rparr>) cid now) (\<lambda>db6.
                   and_then (enqueue_run_deliveries (we_th env) db6 cid (rs_items res) now) (\<lambda>(db7, n).
                   Inr (finish_job db7 (cj_id job), n))))))))))))))"

text \<open>A run whose crawl returned \<open>res\<close>; the store is read at \<open>db0\<close> and written at \<open>db\<close>.\<close>

definition complete_run :: "worker_env \<Rightarrow> db \<Rightarrow> db \<Rightarrow> claimed_job \<Rightarrow> running \<Rightarrow> run_result \<Rightarrow> ts \<Rightarrow> py_exc + db \<times> nat" where
  "complete_run env db0 db job rn res now = finish_run env db job rn (classified env db0 rn res) now"

subsection \<open>The outcome of an exploration\<close>

record exploration_result =
  xr_candidate :: json
  xr_preview :: "item list"
  xr_metrics :: metrics

definition complete_ai_run :: "db \<Rightarrow> string \<Rightarrow> ai_changes \<Rightarrow> ts \<Rightarrow> py_exc + db \<times> ai_run" where
  "complete_ai_run db aid changes now =
     (case get_ai_run db aid of
        None \<Rightarrow> Inl (RuntimeErr ''AI run not found'')
      | Some a \<Rightarrow>
          (let started = (case air_started a of None \<Rightarrow> air_created a | Some t \<Rightarrow> t)
           in update_ai_run db aid (changes\<lparr>uc_finished := Some now, uc_duration := Some (elapsed_ms started now)\<rparr>) now))"

definition explored_changes :: "exploration_result \<Rightarrow> ai_changes" where
  "explored_changes res =
     \<lparr>uc_status = Some Succeeded, uc_phase = Some ''completed'', uc_progress = Some 100, uc_error = Some None,
      uc_finished = None, uc_duration = None, uc_result = Some CandidateReady, uc_review = Some ReadyReview,
      uc_validation = Some \<lparr>vs_accepted = int (accepted_count (xr_preview res)),
        vs_rejected = int (length (filter (\<lambda>i. im_decision i = ''rejected'') (xr_preview res))),
        vs_warnings = (case xr_metrics res ''warningCount'' of None \<Rightarrow> 0 | Some n \<Rightarrow> n)\<rparr>,
      uc_candidate = Some (json_text (jget ''digest'' (obj_of (xr_candidate res))))\<rparr>"

text \<open>\<open>c\<close> is the source as the job read it at its start.\<close>

definition finish_exploration ::
  "worker_env \<Rightarrow> db \<Rightarrow> claimed_job \<Rightarrow> collector \<Rightarrow> string \<Rightarrow> exploration_result \<Rightarrow> ts \<Rightarrow> py_exc + db" where
  "finish_exploration env db job c attempt_id res now =
     (case pl_ai_run_id (cj_payload job) of
        None \<Rightarrow> Inl (RuntimeErr ''exploration job is missing its AI run'')
      | Some aid \<Rightarrow>
          unless (owned_check db job False now)
          (unless (lock_collector db (col_id c))
          (case get_collector db (col_id c) of
             None \<Rightarrow> Inl (RuntimeErr ''collector not found'')
           | Some current \<Rightarrow>
               (let current1 = current\<lparr>col_status := ''ready_review'', col_active_operation := None,
                        col_candidate := Some (xr_candidate res), col_preview_items := we_preview env (xr_preview res),
                        col_review_decisions := None, col_updated := JustNow,
                        col_migration := (case col_migration c of
                           None \<Rightarrow> col_migration current | Some m \<Rightarrow> Some (m\<lparr>mg_status := ''ready_review''\<rparr>))\<rparr>
                in and_then (save_collector db current1 False now) (\<lambda>(db1, _).
                   and_then (update_ai_activity db1 (cj_operation job) aid Succeeded ''completed'' 100 (xr_metrics res) None now)
                     (\<lambda>(db2, _).
                   and_then (finish_ai_attempt db2 attempt_id Succeeded None now) (\<lambda>(db3, _).
                   and_then (complete_ai_run db3 aid (explored_changes res) now) (\<lambda>(db4, _).
                   Inr (finish_job db4 (cj_id job))))))))))"

subsection \<open>Pausing a schedule\<close>

definition recent_run_statuses :: "db \<Rightarrow> string \<Rightarrow> nat \<Rightarrow> py_exc + status list" where
  "recent_run_statuses db cid limit =
     (if limit < 1 then Inl (ValueErr ''limit must be positive'')
      else
        (case get_collector db cid of
           None \<Rightarrow> Inr []
         | Some c \<Rightarrow>
             Inr (map (run_status \<circ> rr_data) (take limit (rev (sort_key
               (\<lambda>r. (iso_key (rr_created r), iso_key (rr_updated r), codes (rr_id r)))
               (filter (\<lambda>r. rr_collector r = cid \<and> in_collection c (run_attribution db (rr_id r))) (t_runs db))))))))"

definition failure_pause_threshold :: nat where
  "failure_pause_threshold = 3"

text \<open>\<open>tenant\<close> is the configured tenant, \<open>i\<close> the id of the audit event.\<close>

definition maybe_pause_schedule ::
  "hasher \<Rightarrow> (string \<Rightarrow> bool) \<Rightarrow> cron_next \<Rightarrow> string \<Rightarrow> db \<Rightarrow> string \<Rightarrow> string \<Rightarrow> ts \<Rightarrow> py_exc + db \<times> bool" where
  "maybe_pause_schedule ph cron_valid next_time tenant db cid i now =
     unless (lock_collector db cid)
     (and_then (recent_run_statuses db cid failure_pause_threshold) (\<lambda>statuses.
       if length statuses < failure_pause_threshold \<or> (\<exists>s \<in> set statuses. s \<noteq> Failed) then Inr (db, False)
       else
         (case Option.bind (get_collector db cid) col_schedule of
            None \<Rightarrow> Inr (db, False)
          | Some s \<Rightarrow>
              if \<not> sv_enabled (sch_values s) then Inr (db, False)
              else and_then (save_schedule cron_valid next_time db cid ((sch_values s)\<lparr>sv_enabled := False\<rparr>) now) (\<lambda>(db1, _).
                Inr (append_audit_event ph db1 i tenant ''collector'' cid
                  \<lparr>aa_tenant = tenant, aa_actor = ''system'', aa_action = ''schedule.auto_paused'',
                   aa_request = ''failure_pause_'' @ cid,
                   aa_details = JObj [(''consecutiveFailures'', JNum (int failure_pause_threshold))]\<rparr> None None now, True)))))"

definition process_due_deliveries ::
  "(string \<Rightarrow> string) \<Rightarrow> (string \<Rightarrow> post_result) \<Rightarrow> db \<Rightarrow> int \<Rightarrow> (string \<Rightarrow> string) \<Rightarrow> ts \<Rightarrow> ts \<Rightarrow> py_exc + db \<times> nat" where
  "process_due_deliveries th post db lease_seconds tok now later =
     and_then (claim_due_deliveries db 1 lease_seconds tok now) (\<lambda>(db1, claimed).
       Inr (fst (process_batch th post db1 claimed later), length claimed))"

end
