(* ===== verification/Execution_Safety.thy ===== *)
theory Execution_Safety
  imports Execution Delivery_Safety
begin

text \<open>
  The steps of the final transaction of a run and the tables each of them touches.
\<close>

subsection \<open>The steps of the final transaction\<close>

lemma finish_run_steps:
  assumes "finish_run env db job rn res now = Inr (db', n)"
  obtains db1 db2 current r2 current1 db3 db4 x db5 o0 db6 db7 where
    "owned_check db job False now = None" "lock_collector db (col_id (rn_source rn)) = None"
    "save_run db (finished_run rn res now) now = Inr db1"
    "replace_run_items db1 (run_id (finished_run rn res now)) (rs_items res) now = Inr db2"
    "get_collector db2 (col_id (rn_source rn)) = Some current"
    "settle_coverage db2 rn res (finished_run rn res now)
       (current\<lparr>col_latest_run := Some (run_id (finished_run rn res now)), col_preview_items := we_preview env (rs_items res),
                col_active_operation := None, col_updated := JustNow\<rparr>) = Inr (r2, current1)"
    "(if observed_policy (rn_policy rn) then save_run db2 r2 now else Inr db2) = Inr db3"
    "save_collector db3 current1 False now = Inr (db4, x)"
    "(case run_checkpoint_after r2 of None \<Rightarrow> Inr db4 | Some ck \<Rightarrow> save_checkpoint db4 ck now) = Inr db5"
    "get_operation db5 (cj_operation job) = Some o0"
    "save_operation db5 (o0\<lparr>op_status := Succeeded, op_phase := ''completed'', op_progress := 100,
       op_metrics := rs_metrics res, op_error := None\<rparr>) (col_id (rn_source rn)) now = Inr db6"
    "enqueue_run_deliveries (we_th env) db6 (col_id (rn_source rn)) (rs_items res) now = Inr (db7, n)"
    "db' = finish_job db7 (cj_id job)"
proof -
  let ?cid = "col_id (rn_source rn)" and ?r1 = "finished_run rn res now"
  from assms obtain db1 where 1: "owned_check db job False now = None" "lock_collector db ?cid = None"
      "save_run db ?r1 now = Inr db1"
    unfolding finish_run_def Let_def unless_Inr and_then_Inr by blast
  from assms 1 obtain db2 where 2: "replace_run_items db1 (run_id ?r1) (rs_items res) now = Inr db2"
    unfolding finish_run_def Let_def by (simp add: and_then_Inr) blast
  obtain current where 3: "get_collector db2 ?cid = Some current"
    using assms 1 2 unfolding finish_run_def Let_def by (cases "get_collector db2 ?cid") simp_all
  define current0 where "current0 = current\<lparr>col_latest_run := Some (run_id ?r1), col_preview_items := we_preview env (rs_items res),
                col_active_operation := None, col_updated := JustNow\<rparr>"
  obtain r2 current1 where 4: "settle_coverage db2 rn res ?r1 current0 = Inr (r2, current1)"
    using assms 1 2 3 unfolding finish_run_def Let_def current0_def
    by (cases "settle_coverage db2 rn res ?r1 current0") (auto simp: current0_def)
  obtain db3 where 5: "(if observed_policy (rn_policy rn) then save_run db2 r2 now else Inr db2) = Inr db3"
    using assms 1 2 3 4 unfolding finish_run_def Let_def current0_def
    by (cases "if observed_policy (rn_policy rn) then save_run db2 r2 now else Inr db2") auto
  obtain db4 x where 6: "save_collector db3 current1 False now = Inr (db4, x)"
    using assms 1 2 3 4 5 unfolding finish_run_def Let_def current0_def
    by (cases "save_collector db3 current1 False now") auto
  obtain db5 where 7: "(case run_checkpoint_after r2 of None \<Rightarrow> Inr db4 | Some ck \<Rightarrow> save_checkpoint db4 ck now) = Inr db5"
    using assms 1 2 3 4 5 6 unfolding finish_run_def Let_def current0_def
    by (cases "case run_checkpoint_after r2 of None \<Rightarrow> Inr db4 | Some ck \<Rightarrow> save_checkpoint db4 ck now") auto
  obtain o0 where 8: "get_operation db5 (cj_operation job) = Some o0"
    using assms 1 2 3 4 5 6 7 unfolding finish_run_def Let_def current0_def
    by (cases "get_operation db5 (cj_operation job)") auto
  have 9: "and_then (save_operation db5 (o0\<lparr>op_status := Succeeded, op_phase := ''completed'', op_progress := 100,
       op_metrics := rs_metrics res, op_error := None\<rparr>) ?cid now) (\<lambda>db6.
       and_then (enqueue_run_deliveries (we_th env) db6 ?cid (rs_items res) now) (\<lambda>(db7, n).
       Inr (finish_job db7 (cj_id job), n))) = Inr (db', n)"
    using assms 1 2 3 4 5 6 7 8 unfolding finish_run_def Let_def current0_def by simp
  let ?s6 = "save_operation db5 (o0\<lparr>op_status := Succeeded, op_phase := ''completed'', op_progress := 100,
       op_metrics := rs_metrics res, op_error := None\<rparr>) ?cid now"
  obtain db6 where 10: "?s6 = Inr db6" using 9 by (cases ?s6) simp_all
  obtain db7 n' where 11: "enqueue_run_deliveries (we_th env) db6 ?cid (rs_items res) now = Inr (db7, n')"
    using 9 10 by (cases "enqueue_run_deliveries (we_th env) db6 ?cid (rs_items res) now") auto
  have "db' = finish_job db7 (cj_id job)" "n' = n" using 9 10 11 by simp_all
  then show thesis using that [OF 1 2 3 4 [unfolded current0_def] 5 6 7 8 10] 11 by simp
qed

lemma finished_run_id [simp]: "run_id (finished_run rn res now) = run_id (rn_run rn)"
  by (simp add: finished_run_def Let_def)

lemma settle_coverage_run:
  assumes "settle_coverage db rn res r c = Inr (r2, c2)"
  shows "run_id r2 = run_id r" "run_status r2 = run_status r" "run_items r2 = run_items r"
    "run_checkpoint_after r2 = run_checkpoint_after r" "run_collector r2 = run_collector r" "col_id c2 = col_id c"
  using assms by (auto simp: settle_coverage_def Let_def split: if_splits)

lemma replace_items_only: "replace_run_items db rid items now = Inr db' \<Longrightarrow>
    db' = db\<lparr>t_items := filter (\<lambda>r. it_run r \<noteq> rid) (t_items db) @ new_item_rows rid items now\<rparr>"
  by (auto simp: replace_run_items_def Let_def split: if_splits)

lemma save_checkpoint_only:
  assumes "save_checkpoint db ck now = Inr db'"
  obtains cks cs where "db' = db\<lparr>t_checkpoints := cks, t_collectors := cs\<rparr>"
  using assms by (auto simp: save_checkpoint_def Let_def elim!: save_collector_only split: option.splits)

lemma enqueue_delivery_cases:
  assumes "enqueue_delivery th db cid sid item v now = Inr (db', row)"
  obtains (known) "db' = db" | (fresh) row' where "db' = db\<lparr>t_deliveries := t_deliveries db @ [row']\<rparr>"
proof -
  let ?v = "(case v of Some v \<Rightarrow> Inr v | None \<Rightarrow> (case tbl_get snk_id sid (t_sinks db) of
    None \<Rightarrow> Inl (KeyErr sid) | Some s \<Rightarrow> Inr (sink_version_of s))) :: py_exc + string"
  obtain w where w: "?v = Inr w"
  proof (cases ?v)
    case (Inl e)
    then show thesis using assms unfolding enqueue_delivery_def Inl sum.case by simp
  qed
  let ?row = "new_delivery th cid sid item w now"
  let ?c = "tbl_get dl_id (dl_id ?row) (t_deliveries db) \<noteq> None \<or> find_delivery db item w \<noteq> None"
  define db1 where "db1 = (if ?c then db else db\<lparr>t_deliveries := t_deliveries db @ [?row]\<rparr>)"
  have "(case find_delivery db1 item w of None \<Rightarrow> Inl (RuntimeErr ''enqueued delivery is unavailable'')
      | Some r \<Rightarrow> Inr (db1, r)) = (Inr (db', row) :: py_exc + db \<times> delivery_row)"
    using assms unfolding enqueue_delivery_def w sum.case Let_def db1_def .
  then have eq: "db' = db1" by (cases "find_delivery db1 item w") simp_all
  show thesis
  proof (cases ?c)
    case True
    show thesis by (rule known) (simp only: eq db1_def True if_True)
  next
    case False
    show thesis by (rule fresh [of ?row]) (simp only: eq db1_def False if_False)
  qed
qed

lemma enqueue_one_cases:
  assumes "enqueue_one th cid now (i, s) (db, n) = Inr (db', n')"
  obtains (queued) row where "enqueue_delivery th db cid (snk_id s) (im_id i) None now = Inr (db', row)" "n' = n + 1"
    | (gone) e where "db' = db" "n' = n" "enqueue_delivery th db cid (snk_id s) (im_id i) None now = Inl (KeyErr e)"
proof (cases "enqueue_delivery th db cid (snk_id s) (im_id i) None now")
  case (Inl e)
  with assms gone show thesis by (cases e) (simp_all add: enqueue_one_def)
next
  case (Inr r)
  with assms queued show thesis by (cases r) (simp add: enqueue_one_def)
qed

definition only_deliveries :: "db \<Rightarrow> db \<Rightarrow> bool" where
  "only_deliveries db db' \<longleftrightarrow> (\<exists>ds. db' = db\<lparr>t_deliveries := ds\<rparr>)"

lemma only_deliveries_refl: "only_deliveries db db"
proof -
  have "db = db\<lparr>t_deliveries := t_deliveries db\<rparr>" by simp
  then show ?thesis unfolding only_deliveries_def by (rule exI)
qed

lemma only_deliveries_upd: "only_deliveries db d \<Longrightarrow> only_deliveries db (d\<lparr>t_deliveries := ds\<rparr>)"
  unfolding only_deliveries_def by (elim exE, intro exI [of _ ds]) simp

lemma enqueue_one_only:
  assumes "enqueue_one th cid now p st = Inr st'" and "only_deliveries db (fst st)"
  shows "only_deliveries db (fst st')"
proof -
  obtain i s d n d' n' where p: "p = (i, s)" "st = (d, n)" "st' = (d', n')" by (cases p; cases st; cases st')
  have base: "only_deliveries db d" using assms(2) by (simp add: p)
  have "only_deliveries db d'"
  proof (rule enqueue_one_cases [OF assms(1) [unfolded p]])
    fix row assume "enqueue_delivery th d cid (snk_id s) (im_id i) None now = Inr (d', row)"
    then show ?thesis by (rule enqueue_delivery_cases) (simp_all add: base only_deliveries_upd)
  next
    assume "d' = d"
    then show ?thesis using base by simp
  qed
  then show ?thesis by (simp add: p)
qed

lemma enqueue_run_only:
  assumes "enqueue_run_deliveries th db cid items now = Inr (db', n)"
  shows "only_deliveries db db'"
proof (cases "filter snk_enabled (list_sinks_for_collector db cid) = []")
  case True
  then show ?thesis using assms by (simp add: enqueue_run_deliveries_def Let_def only_deliveries_refl)
next
  case False
  let ?pairs = "concat (map (\<lambda>i. map (Pair i) (filter snk_enabled (list_sinks_for_collector db cid))) (filter deliverable items))"
  have "fold_result (enqueue_one th cid now) ?pairs (db, 0) = Inr (db', n)"
    using assms False by (simp add: enqueue_run_deliveries_def Let_def)
  then have "only_deliveries db (fst (db', n))"
    by (rule fold_result_invariant) (auto simp: only_deliveries_refl elim: enqueue_one_only)
  then show ?thesis by simp
qed

end
