(* ===== verification/Outcome_Safety.thy ===== *)
theory Outcome_Safety
  imports Execution_Safety Item_Pages Run_Safety
begin

text \<open>
  What a finished run leaves behind: how its items are classified against the stored ones, that
  observing the same content again changes nothing, that the run, its items, its operation, its
  checkpoint and its deliveries are published together, that a watermark never moves back, and
  when a schedule is paused.
\<close>

subsection \<open>Classification\<close>

definition same_values :: "(json \<Rightarrow> string) \<Rightarrow> string list \<Rightarrow> item \<Rightarrow> item \<Rightarrow> bool" where
  "same_values canon fp i j \<longleftrightarrow>
     (\<forall>f \<in> set (map fst (revision_values fp i @ revision_values fp j)).
        canon (jget f (revision_values fp i)) = canon (jget f (revision_values fp j)))"

lemma value_changes_none: "value_changes canon (revision_values fp i) (revision_values fp j) = [] \<longleftrightarrow> same_values canon fp i j"
  by (auto simp: value_changes_def same_values_def filter_empty_conv)

lemma classify_item_cases:
  assumes "im_decision i = ''accepted''"
  shows "im_change_type (classify_item canon fp latest i) =
      (case latest (im_entity_key i) of None \<Rightarrow> Some ''new''
       | Some p \<Rightarrow> if same_values canon fp p i then Some ''unchanged'' else Some ''updated'')"
    and "im_revision (classify_item canon fp latest i) =
      (case latest (im_entity_key i) of None \<Rightarrow> Some 1
       | Some p \<Rightarrow> Some (if same_values canon fp p i then revision_or 1 (im_revision p) else revision_or 0 (im_revision p) + 1))"
  using assms value_changes_none by (auto simp: classify_item_def Let_def split: option.splits)

lemma classify_item_keeps [simp]:
  "im_id (classify_item canon fp latest i) = im_id i" "im_decision (classify_item canon fp latest i) = im_decision i"
  "im_entity_key (classify_item canon fp latest i) = im_entity_key i"
  "im_collector (classify_item canon fp latest i) = im_collector i"
  "revision_values fp' (classify_item canon fp latest i) = revision_values fp' i"
  by (auto simp: classify_item_def Let_def revision_values_def item_field_def split: option.splits)

lemma latest_by_entity_unique:
  assumes "p \<in> set items" "im_collector p = cid" "im_decision p = ''accepted''"
    and "\<And>q. q \<in> set items \<Longrightarrow> im_decision q = ''accepted'' \<Longrightarrow> im_entity_key q = im_entity_key p \<Longrightarrow> q = p"
  shows "latest_by_entity items cid (im_entity_key p) = Some p"
proof (cases "latest_by_entity items cid (im_entity_key p)")
  case None
  with assms(1-3) show ?thesis by (auto simp: latest_by_entity_def find_None_iff)
next
  case (Some q)
  then have "q \<in> set items" "im_decision q = ''accepted''" "im_entity_key q = im_entity_key p"
    by (auto simp: latest_by_entity_def dest: find_SomeD)
  with Some assms(4) show ?thesis by simp
qed

text \<open>The same observation under new ids: source, decision, entity and compared values agree.\<close>

definition reobserved :: "string list \<Rightarrow> item \<Rightarrow> item \<Rightarrow> bool" where
  "reobserved fp i j \<longleftrightarrow> im_collector j = im_collector i \<and> im_decision j = im_decision i \<and>
     im_entity_key j = im_entity_key i \<and> revision_values fp j = revision_values fp i"

definition one_per_entity :: "item list \<Rightarrow> bool" where
  "one_per_entity items \<longleftrightarrow> distinct (map im_entity_key (filter (\<lambda>i. im_decision i = ''accepted'') items))"

lemma one_per_entityD:
  assumes "one_per_entity items" "p \<in> set items" "q \<in> set items" "im_decision p = ''accepted''" "im_decision q = ''accepted''"
    "im_entity_key p = im_entity_key q"
  shows "p = q"
  using assms by (auto simp: one_per_entity_def distinct_map dest!: inj_onD)

lemma reobserved_unchanged:
  assumes "one_per_entity items" "\<forall>i \<in> set items. im_collector i = cid" "i \<in> set items" "reobserved fp i j"
    "im_decision i = ''accepted''"
  shows "im_change_type (classify_item canon fp (latest_by_entity (map (classify_item canon fp latest) items) cid) j) = Some ''unchanged''"
proof -
  let ?p = "classify_item canon fp latest i"
  have "latest_by_entity (map (classify_item canon fp latest) items) cid (im_entity_key ?p) = Some ?p"
  proof (rule latest_by_entity_unique)
    fix q assume q: "q \<in> set (map (classify_item canon fp latest) items)" "im_decision q = ''accepted''"
      "im_entity_key q = im_entity_key ?p"
    then obtain x where x: "x \<in> set items" "q = classify_item canon fp latest x" by auto
    with q assms(3,5) have "x = i" by (intro one_per_entityD [OF assms(1)]) simp_all
    with x show "q = ?p" by simp
  qed (use assms(2,3,5) in auto)
  moreover have "same_values canon fp ?p j" using assms(4) by (simp add: same_values_def reobserved_def)
  ultimately show ?thesis using assms(4,5) classify_item_cases(1) [of j] by (simp add: reobserved_def)
qed

text \<open>
  C28. Observing the same content again changes nothing: when the items a run published carry
  one accepted item per entity, a later observation with the same compared values classifies
  every accepted item as unchanged, whatever stood in the store before, so no version is
  counted as new or updated and nothing is to be delivered.
\<close>

theorem same_content_is_unchanged:
  assumes "one_per_entity items" and "\<forall>i \<in> set items. im_collector i = cid" and "list_all2 (reobserved fp) items again"
  shows "\<exists>out. classify_items canon again (fst (classify_items canon items previous cid fp)) cid fp =
      (out, 0, 0, length (filter (\<lambda>i. im_decision i = ''accepted'') again)) \<and> filter deliverable out = []"
proof -
  let ?first = "map (classify_item canon fp (latest_by_entity previous cid)) items"
  let ?f = "classify_item canon fp (latest_by_entity ?first cid)"
  have acc: "im_change_type (?f j) = Some ''unchanged''" if "j \<in> set again" "im_decision j = ''accepted''" for j
  proof -
    from that(1) assms(3) obtain i where "i \<in> set items" "reobserved fp i j"
      by (metis in_set_conv_nth list_all2_conv_all_nth)
    with that(2) show ?thesis by (intro reobserved_unchanged [OF assms(1,2)]) (auto simp: reobserved_def)
  qed
  have rej: "im_change_type (?f j) = None" if "im_decision j \<noteq> ''accepted''" for j using that by (simp add: classify_item_def)
  have type: "im_change_type (?f j) = (if im_decision j = ''accepted'' then Some ''unchanged'' else None)" if "j \<in> set again" for j
    using acc [OF that] rej [of j] by simp
  have count: "count_type t (map ?f again) = (if t = ''unchanged'' then length (filter (\<lambda>i. im_decision i = ''accepted'') again) else 0)" for t
    using type by (auto simp: count_type_def filter_map comp_def intro!: arg_cong [where f = length] filter_cong split: if_splits)
  have "filter deliverable (map ?f again) = []"
    using type by (auto simp: filter_empty_conv deliverable_def)
  then show ?thesis by (simp add: classify_items_def Let_def count)
qed

subsection \<open>Classification against the store\<close>

text \<open>The stored accepted observations an item is compared with.\<close>

definition stored_versions :: "db \<Rightarrow> collector \<Rightarrow> string \<Rightarrow> string \<Rightarrow> item_view list" where
  "stored_versions db c cid key = filter (\<lambda>v. im_entity_key (iv_item v) = key \<and> im_collector (iv_item v) = cid \<and>
     in_collection c (iv_attribution v) \<and> im_decision (iv_item v) = ''accepted'') (item_source db)"

lemma concat_chunks: "0 < n \<Longrightarrow> concat (chunks n xs) = xs"
proof (induction n xs rule: chunks.induct)
  case (1 n xs)
  then show ?case by (subst chunks.simps) auto
qed

lemma latest_accepted_flat:
  assumes "get_collector db cid = Some c"
  shows "latest_accepted_items db cid keys =
    map iv_item (concat (map (\<lambda>key. filter (newest_of (stored_versions db c cid key)) (stored_versions db c cid key))
      (sort (remdups keys))))"
proof -
  have "latest_in (filter (\<lambda>v. im_collector (iv_item v) = cid \<and> in_collection c (iv_attribution v) \<and>
      im_decision (iv_item v) = ''accepted'') (item_source db)) = 
      (\<lambda>key. filter (newest_of (stored_versions db c cid key)) (stored_versions db c cid key))"
    by (rule ext) (simp add: latest_in_def stored_versions_def conj_commute conj_left_commute Let_def)
  moreover have "concat (map (\<lambda>b. map g (concat (map f b))) bs) = map g (concat (map f (concat bs)))" for f :: "string \<Rightarrow> item_view list" and g :: "item_view \<Rightarrow> item" and bs
    by (induction bs) simp_all
  ultimately show ?thesis using assms by (simp add: latest_accepted_items_def Let_def concat_chunks)
qed

lemma codes_inject: "codes s = codes t \<longleftrightarrow> s = t"
proof (induction s arbitrary: t)
  case Nil
  show ?case by (auto simp: codes_def)
next
  case (Cons c s)
  then show ?case by (cases t) (auto simp: codes_def)
qed

lemma stored_versions_distinct:
  assumes "items_wf db" "v \<in> set (stored_versions db c cid key)" "w \<in> set (stored_versions db c cid key)"
    "newest_of (stored_versions db c cid key) v" "newest_of (stored_versions db c cid key) w"
  shows "v = w"
proof -
  have "recency v = recency w" using newest_of_unique [OF assms(4,5,2,3)] .
  then have id: "it_id (iv_row v) = it_id (iv_row w)" by (simp add: recency_def codes_inject)
  have "distinct (map (\<lambda>v. it_id (iv_row v)) (item_source db))"
    using assms(1) by (simp add: item_source_ids items_wf_def)
  moreover have "v \<in> set (item_source db)" "w \<in> set (item_source db)" using assms(2,3) by (auto simp: stored_versions_def)
  ultimately show ?thesis using id by (auto simp: distinct_map dest: inj_onD)
qed

lemma latest_none:
  assumes "get_collector db cid = Some c" "stored_versions db c cid key = []"
  shows "latest_by_entity (latest_accepted_items db cid keys) cid key = None"
proof -
  have "im_entity_key p \<noteq> key" if "p \<in> set (latest_accepted_items db cid keys)" for p
  proof
    assume "im_entity_key p = key"
    with that obtain v where "v \<in> set (stored_versions db c cid key)"
      unfolding latest_accepted_flat [OF assms(1)] by (auto simp: stored_versions_def)
    with assms(2) show False by simp
  qed
  then show ?thesis by (auto simp: latest_by_entity_def find_None_iff)
qed

lemma latest_some:
  assumes "items_wf db" "get_collector db cid = Some c" "key \<in> set keys"
    "v \<in> set (stored_versions db c cid key)" "newest_of (stored_versions db c cid key) v"
  shows "latest_by_entity (latest_accepted_items db cid keys) cid key = Some (iv_item v)"
proof -
  have key: "im_entity_key (iv_item v) = key" using assms(4) by (simp add: stored_versions_def)
  have "latest_by_entity (latest_accepted_items db cid keys) cid (im_entity_key (iv_item v)) = Some (iv_item v)"
  proof (rule latest_by_entity_unique)
    show "iv_item v \<in> set (latest_accepted_items db cid keys)"
      unfolding latest_accepted_flat [OF assms(2)] using assms(3-5) by auto
    show "im_collector (iv_item v) = cid" "im_decision (iv_item v) = ''accepted''"
      using assms(4) by (simp_all add: stored_versions_def)
    fix q assume q: "q \<in> set (latest_accepted_items db cid keys)" "im_entity_key q = im_entity_key (iv_item v)"
    then obtain k w where w: "q = iv_item w" "w \<in> set (stored_versions db c cid k)" "newest_of (stored_versions db c cid k) w"
      unfolding latest_accepted_flat [OF assms(2)] by auto
    then have "k = key" using q(2) key by (simp add: stored_versions_def)
    with w stored_versions_distinct [OF assms(1) _ assms(4) _ assms(5)] show "q = iv_item v" by simp
  qed
  then show ?thesis by (simp add: key)
qed

lemma classified_nth:
  assumes "k < length (rs_items res)"
  shows "rs_items (classified env db rn res) ! k = classify_item (we_canon env) (rv_fingerprint_fields (rn_rule rn))
    (latest_by_entity (latest_accepted_items db (col_id (rn_source rn)) (map im_entity_key (rs_items res))) (col_id (rn_source rn)))
    (rs_items res ! k)"
  using assms by (simp add: classified_def classify_items_def Let_def)

text \<open>
  C13. What a run reports about an accepted item is what the store says: new exactly when the
  source has no accepted observation of the entity in its present collection, unchanged when
  the newest such observation has the same compared values, and otherwise updated with the
  next revision number.
\<close>

theorem change_type_exact:
  assumes "items_wf db" and "get_collector db (col_id (rn_source rn)) = Some c" and "k < length (rs_items res)"
    and "im_decision (rs_items res ! k) = ''accepted''"
  shows "let i = rs_items res ! k; j = rs_items (classified env db rn res) ! k;
      stored = stored_versions db c (col_id (rn_source rn)) (im_entity_key i);
      same = same_values (we_canon env) (rv_fingerprint_fields (rn_rule rn))
    in (stored = [] \<longrightarrow> im_change_type j = Some ''new'' \<and> im_revision j = Some 1) \<and>
       (stored \<noteq> [] \<longrightarrow> (\<exists>v \<in> set stored. newest_of stored v \<and>
          (same (iv_item v) i \<longrightarrow> im_change_type j = Some ''unchanged'' \<and>
             im_revision j = Some (revision_or 1 (im_revision (iv_item v)))) \<and>
          (\<not> same (iv_item v) i \<longrightarrow> im_change_type j = Some ''updated'' \<and>
             im_revision j = Some (revision_or 0 (im_revision (iv_item v)) + 1))))"
proof -
  let ?i = "rs_items res ! k" and ?cid = "col_id (rn_source rn)" and ?keys = "map im_entity_key (rs_items res)"
  let ?stored = "stored_versions db c ?cid (im_entity_key ?i)"
  have key: "im_entity_key ?i \<in> set ?keys" using assms(3) by simp
  note cases = classify_item_cases [OF assms(4)]
  show ?thesis
  proof (cases "?stored = []")
    case True
    then show ?thesis
      using latest_none [OF assms(2) True] by (simp add: Let_def classified_nth [OF assms(3)] cases)
  next
    case False
    then obtain v where v: "v \<in> set ?stored" "newest_of ?stored v" using newest_exists by blast
    have "latest_by_entity (latest_accepted_items db ?cid ?keys) ?cid (im_entity_key ?i) = Some (iv_item v)"
      by (rule latest_some [OF assms(1,2) key v])
    then show ?thesis using False v
      by (auto simp: Let_def classified_nth [OF assms(3)] cases intro!: bexI [of _ v])
  qed
qed

subsection \<open>What the final transaction leaves\<close>

lemma settle_coverage_collector:
  assumes "settle_coverage db rn res r c = Inr (r2, c2)"
  shows "col_latest_run c2 = col_latest_run c" "col_active_operation c2 = col_active_operation c"
  using assms by (auto simp: settle_coverage_def Let_def split: if_splits)

lemma save_run_stored:
  assumes "save_run db r now = Inr db'"
  shows "map_option rr_data (tbl_get rr_id (run_id r) (t_runs db')) = Some r"
  using assms by (auto simp: save_run_def tbl_get_upsert split: sum.splits option.splits)

lemma replaced_items:
  assumes "replace_run_items db rid items now = Inr db'"
  shows "map it_data (filter (\<lambda>r. it_run r = rid) (t_items db')) = items"
  using replace_items_only [OF assms] by (simp add: new_item_rows_def comp_def filter_map)

lemma save_checkpoint_stored:
  assumes "save_checkpoint db ck now = Inr db'" and "stored_collector db (ck_collector ck) = Some c"
    and "col_id c = ck_collector ck"
  shows "\<exists>name. stored_collector db' (ck_collector ck) = Some (c\<lparr>col_collection_name := name, col_checkpoint := Some ck\<rparr>)"
    and "tbl_get ck_collector (ck_collector ck) (t_checkpoints db') = Some ck"
proof -
  let ?db1 = "db\<lparr>t_checkpoints := tbl_upsert ck_collector ck (\<lambda>_. ck) (t_checkpoints db)\<rparr>"
  have same: "stored_collector ?db1 (ck_collector ck) = Some c" using assms(2) by (simp add: stored_collector_def)
  obtain c0 where c0: "get_collector ?db1 (ck_collector ck) = Some c0"
    using assms(1) by (cases "get_collector ?db1 (ck_collector ck)") (simp_all add: save_checkpoint_def Let_def)
  then obtain name where name: "c0 = c\<lparr>col_collection_name := name\<rparr>"
    using same by (elim get_collector_stored) auto
  obtain x where run: "save_collector ?db1 (c0\<lparr>col_checkpoint := Some ck\<rparr>) False now = Inr (db', x)"
    using assms(1) c0 by (cases "save_collector ?db1 (c0\<lparr>col_checkpoint := Some ck\<rparr>) False now")
      (auto simp: save_checkpoint_def Let_def)
  have id: "col_id (c0\<lparr>col_checkpoint := Some ck\<rparr>) = ck_collector ck" by (simp add: name assms(3))
  show "\<exists>name. stored_collector db' (ck_collector ck) = Some (c\<lparr>col_collection_name := name, col_checkpoint := Some ck\<rparr>)"
    using save_collector_ordinary(2) [OF run, of "ck_collector ck"] id by (intro exI [of _ name]) (simp add: name)
  have ck: "t_checkpoints db' = tbl_upsert ck_collector ck (\<lambda>_. ck) (t_checkpoints db)"
    using save_collector_ordinary(3) [OF run] by auto
  show "tbl_get ck_collector (ck_collector ck) (t_checkpoints db') = Some ck"
    unfolding ck by (cases "tbl_get ck_collector (ck_collector ck) (t_checkpoints db)")
      (simp_all add: tbl_upsert_def tbl_get_append tbl_get_const_upd)
qed

lemma save_operation_stored:
  assumes "save_operation db o' cid now = Inr db'"
  shows "get_operation db' (op_id o') = Some o'"
  using assms by (auto simp: save_operation_def get_operation_def tbl_get_upsert split: sum.splits option.splits)

lemma owned_job:
  assumes "owned_check db job b now = None"
  obtains j where "tbl_get job_id (cj_id job) (t_jobs db) = Some j"
  using assms by (cases "tbl_get job_id (cj_id job) (t_jobs db)") (simp_all add: owned_check_def)

lemma finish_run_tables:
  assumes "save_collector db3 c False now = Inr (db4, x)"
    and "(case k of None \<Rightarrow> Inr db4 | Some ck \<Rightarrow> save_checkpoint db4 ck now) = Inr db5"
    and "save_operation db5 o' cid now = Inr db6" and "only_deliveries db6 db7"
  shows "t_runs db7 = t_runs db3" "t_items db7 = t_items db3"
    and "get_operation db7 (op_id o') = Some o'" "t_collectors db7 = t_collectors db5" "t_jobs db7 = t_jobs db3"
proof -
  obtain cs where 4: "db4 = db3\<lparr>t_collectors := cs\<rparr>" using save_collector_ordinary(3) [OF assms(1)] by blast
  have 5: "t_runs db5 = t_runs db4" "t_items db5 = t_items db4" "t_jobs db5 = t_jobs db4"
    using assms(2) by (auto split: option.splits elim!: save_checkpoint_only)
  obtain ow ops where 6: "db6 = db5\<lparr>t_ownership := ow, t_operations := ops\<rparr>"
    using assms(3) by (rule save_operation_only)
  obtain ds where 7: "db7 = db6\<lparr>t_deliveries := ds\<rparr>" using assms(4) by (auto simp: only_deliveries_def)
  show "t_runs db7 = t_runs db3" "t_items db7 = t_items db3" "t_jobs db7 = t_jobs db3" "t_collectors db7 = t_collectors db5"
    using 5 by (simp_all add: 4 6 7)
  show "get_operation db7 (op_id o') = Some o'"
    using save_operation_stored [OF assms(3)] by (simp add: 7 get_operation_def)
qed

text \<open>
  C5. The outcome of a run becomes visible as a whole: when its final transaction commits, the
  stored run carries the computed status and the ids of its items, exactly these items are
  stored for it, its operation has succeeded with the run's metrics, its job is completed, the
  source names the run as its latest and no operation as active, and a checkpoint the run
  computed is the source's checkpoint.
\<close>

theorem run_outcome_published:
  assumes "finish_run env db job rn res now = Inr (db', n)"
    and "queue_inv db" and "\<forall>r \<in> set (t_collectors db). col_id (colr_data r) = colr_id r"
  shows "(\<exists>r. map_option rr_data (tbl_get rr_id (run_id (rn_run rn)) (t_runs db')) = Some r \<and>
        run_status r = outcome_status rn res \<and> run_items r = map im_id (rs_items res)) \<and>
    map it_data (filter (\<lambda>r. it_run r = run_id (rn_run rn)) (t_items db')) = rs_items res \<and>
    (\<exists>o'. get_operation db' (cj_operation job) = Some o' \<and> op_status o' = Succeeded \<and> op_metrics o' = rs_metrics res) \<and>
    (\<exists>j. tbl_get job_id (cj_id job) (t_jobs db') = Some j \<and> job_status j = JCompleted) \<and>
    (\<exists>c. stored_collector db' (col_id (rn_source rn)) = Some c \<and> col_latest_run c = Some (run_id (rn_run rn)) \<and>
        col_active_operation c = None \<and>
        (\<forall>ck. checkpoint_after rn res now = Some ck \<longrightarrow> col_checkpoint c = Some ck))"
  using assms(1)
proof (rule finish_run_steps, goal_cases)
  case (1 db1 db2 current r2 current1 db3 db4 x db5 o0 db6 db7)
  let ?rid = "run_id (rn_run rn)" and ?cid = "col_id (rn_source rn)"
  define o1 where "o1 = o0\<lparr>op_status := Succeeded, op_phase := ''completed'', op_progress := 100,
       op_metrics := rs_metrics res, op_error := None\<rparr>"
  note tables = finish_run_tables [OF 1(8,9) 1(11) [folded o1_def] enqueue_run_only [OF 1(12)]]
  note r2 = settle_coverage_run [OF 1(6)]
  obtain ow rs where d1: "db1 = db\<lparr>t_ownership := ow, t_runs := rs\<rparr>" using 1(3) by (rule save_run_only)
  obtain its where d2: "db2 = db1\<lparr>t_items := its\<rparr>" using replace_items_only [OF 1(4)] by simp
  have kept: "t_operations db2 = t_operations db" "t_jobs db2 = t_jobs db" "t_collectors db2 = t_collectors db"
    "t_runs db2 = t_runs db1" by (simp_all add: d1 d2)
  have d3: "t_items db3 = t_items db2" "t_jobs db3 = t_jobs db2" "t_collectors db3 = t_collectors db2" "t_operations db3 = t_operations db2"
    using 1(7) by (auto split: if_splits elim!: save_run_only)
  have run: "\<exists>r. map_option rr_data (tbl_get rr_id ?rid (t_runs db3)) = Some r \<and>
        run_status r = outcome_status rn res \<and> run_items r = map im_id (rs_items res)"
  proof (cases "observed_policy (rn_policy rn)")
    case True
    then have "save_run db2 r2 now = Inr db3" using 1(7) by simp
    from save_run_stored [OF this] show ?thesis using r2 by (auto simp: finished_run_def Let_def)
  next
    case False
    then have "t_runs db3 = t_runs db1" using 1(7) kept(4) by simp
    then show ?thesis using save_run_stored [OF 1(3)] by (auto simp: finished_run_def Let_def)
  qed
  have items: "map it_data (filter (\<lambda>r. it_run r = ?rid) (t_items db3)) = rs_items res"
    using replaced_items [OF 1(4)] d3(1) by simp
  obtain cs where d4: "db4 = db3\<lparr>t_collectors := cs\<rparr>" using save_collector_ordinary(3) [OF 1(8)] by blast
  have "t_operations db5 = t_operations db4" using 1(9) by (auto split: option.splits elim!: save_checkpoint_only)
  also have "\<dots> = t_operations db2" using d3(4) d4 by simp
  also have "\<dots> = t_operations db" by (rule kept(1))
  finally have "get_operation db (cj_operation job) = Some o0" using 1(10) by (simp add: get_operation_def)
  then have "op_id o1 = cj_operation job" using queue_op_id [OF assms(2)] by (simp add: o1_def)
  then have op: "\<exists>o'. get_operation db7 (cj_operation job) = Some o' \<and> op_status o' = Succeeded \<and> op_metrics o' = rs_metrics res"
    using tables(3) by (auto simp: o1_def)
  have job: "\<exists>j. tbl_get job_id (cj_id job) (t_jobs db7) = Some j"
    using 1(1) by (rule owned_job) (simp add: tables(5) d3(2) kept(2))
  have "col_id current = ?cid"
    using assms(3) by (intro get_collector_id [OF 1(5)]) (simp add: kept(3))
  then have cid: "col_id current1 = ?cid" using r2(6) by simp
  have c4: "stored_collector db4 ?cid = Some current1" using save_collector_ordinary(2) [OF 1(8), of ?cid] cid by simp
  have fields: "col_latest_run current1 = Some ?rid" "col_active_operation current1 = None"
    using settle_coverage_collector [OF 1(6)] by simp_all
  have ckpt: "run_checkpoint_after r2 = checkpoint_after rn res now" using r2(4) by (simp add: finished_run_def Let_def)
  have col: "\<exists>c. stored_collector db5 ?cid = Some c \<and> col_latest_run c = Some ?rid \<and> col_active_operation c = None \<and>
        (\<forall>ck. checkpoint_after rn res now = Some ck \<longrightarrow> col_checkpoint c = Some ck)"
  proof (cases "checkpoint_after rn res now")
    case None
    with 1(9) ckpt c4 fields show ?thesis by simp
  next
    case (Some ck)
    then have id: "ck_collector ck = ?cid" by (auto simp: checkpoint_after_def Let_def split: if_splits)
    have save: "save_checkpoint db4 ck now = Inr db5" using 1(9) ckpt Some by simp
    from save_checkpoint_stored(1) [OF save, unfolded id, OF c4 cid] fields Some show ?thesis by auto
  qed
  have stored: "stored_collector db' ?cid = stored_collector db5 ?cid"
    using tables(4) by (simp add: 1(13) finish_job_def stored_collector_def)
  show ?case
  proof (intro conjI)
    show "\<exists>r. map_option rr_data (tbl_get rr_id ?rid (t_runs db')) = Some r \<and>
        run_status r = outcome_status rn res \<and> run_items r = map im_id (rs_items res)"
      using run by (simp add: 1(13) finish_job_def tables(1))
    show "map it_data (filter (\<lambda>r. it_run r = ?rid) (t_items db')) = rs_items res"
      using items by (simp add: 1(13) finish_job_def tables(2))
    show "\<exists>o'. get_operation db' (cj_operation job) = Some o' \<and> op_status o' = Succeeded \<and> op_metrics o' = rs_metrics res"
      using op by (simp add: 1(13) finish_job_def get_operation_def)
    show "\<exists>j. tbl_get job_id (cj_id job) (t_jobs db') = Some j \<and> job_status j = JCompleted"
      using job by (auto simp: 1(13) finish_job_def tbl_get_upd)
    show "\<exists>c. stored_collector db' ?cid = Some c \<and> col_latest_run c = Some ?rid \<and> col_active_operation c = None \<and>
        (\<forall>ck. checkpoint_after rn res now = Some ck \<longrightarrow> col_checkpoint c = Some ck)"
      using col by (simp only: stored)
  qed
qed

subsection \<open>The queue sees an ordinary success\<close>

text \<open>
  C4. The final transaction of a run refines the abstract success of a claim: whenever it
  commits, the abstract step is enabled and leaves the same operations and jobs, so everything
  proved about the queue (exclusive claims, cancellation, finality of outcomes) holds for runs
  with their items, checkpoints and deliveries.
\<close>

theorem finish_run_refines_success:
  assumes "finish_run env db job rn res now = Inr (db', n)" and "pl_ai_run_id (cj_payload job) = None" and "queue_inv db"
  shows "\<exists>db1. settle_success db job (rs_metrics res) now = Inr db1 \<and>
    t_operations db1 = t_operations db' \<and> t_jobs db1 = t_jobs db' \<and> t_next_job db1 = t_next_job db'"
  using assms(1)
proof (rule finish_run_steps, goal_cases)
  case (1 db1 db2 current r2 current1 db3 db4 x db5 o0 db6 db7)
  have q3: "same_queue db2 db3" using 1(7) by (auto simp: same_queue_def split: if_splits elim!: save_run_only)
  have q1: "same_queue db db1" using 1(3) by (rule save_run_only) (simp add: same_queue_def)
  have q2: "same_queue db1 db2" using replace_items_only [OF 1(4)] by (simp add: same_queue_def)
  have q4: "same_queue db3 db4" using 1(8) by (rule save_collector_only) (simp add: same_queue_def)
  have q5: "same_queue db4 db5" using 1(9) by (auto simp: same_queue_def split: option.splits elim!: save_checkpoint_only)
  have q: "same_queue db db5" using q1 q2 q3 q4 q5 by (meson same_queue_trans)
  have q7: "same_queue db6 db7" using enqueue_run_only [OF 1(12)] by (auto simp: same_queue_def only_deliveries_def)
  have get: "get_operation db (cj_operation job) = Some o0" using 1(10) by (simp add: same_queue_get [OF q])
  then obtain row where row: "tbl_get opr_id (cj_operation job) (t_operations db) = Some row"
    by (auto simp: get_operation_def)
  have id: "op_id o0 = cj_operation job" by (rule queue_op_id [OF assms(3) get])
  define o1 where "o1 = o0\<lparr>op_status := Succeeded, op_phase := ''completed'', op_progress := 100,
       op_metrics := rs_metrics res, op_error := None\<rparr>"
  have id1: "op_id o1 = cj_operation job" by (simp add: o1_def id)
  have ops: "t_operations db5 = t_operations db" "t_jobs db5 = t_jobs db" "t_next_job db5 = t_next_job db"
    using q by (simp_all add: same_queue_def)
  have save5: "save_operation db5 o1 cid now = Inr (db5\<lparr>t_operations := tbl_upd opr_id (cj_operation job)
      (\<lambda>r. r\<lparr>opr_data := o1, opr_updated := now\<rparr>) (t_operations db)\<rparr>)" for cid
    using save_operation_known [of o1 db5 row] row by (simp add: id1 ops)
  have save0: "save_operation db o1 cid now = Inr (db\<lparr>t_operations := tbl_upd opr_id (cj_operation job)
      (\<lambda>r. r\<lparr>opr_data := o1, opr_updated := now\<rparr>) (t_operations db)\<rparr>)" for cid
    using save_operation_known [of o1 db row] row by (simp add: id1)
  have t6: "t_operations db6 = tbl_upd opr_id (cj_operation job) (\<lambda>r. r\<lparr>opr_data := o1, opr_updated := now\<rparr>) (t_operations db)"
    "t_jobs db6 = t_jobs db" "t_next_job db6 = t_next_job db"
    using 1(11) save5 by (auto simp: o1_def ops)
  have "settle_success db job (rs_metrics res) now = Inr (finish_job (db\<lparr>t_operations := tbl_upd opr_id (cj_operation job)
      (\<lambda>r. r\<lparr>opr_data := o1, opr_updated := now\<rparr>) (t_operations db)\<rparr>) (cj_id job))"
    using 1(1) assms(2) get row save0 by (simp add: settle_success_def update_operation_def operation_collector_id_def o1_def)
  then show ?thesis using t6 q7 by (auto simp: 1(13) finish_job_def same_queue_def)
qed

subsection \<open>Deliveries of a run\<close>

definition has_delivery :: "db \<Rightarrow> item \<times> sink_row \<Rightarrow> bool" where
  "has_delivery db pair \<longleftrightarrow> (\<exists>d \<in> set (t_deliveries db).
     dl_item d = im_id (fst pair) \<and> dl_sink_version d = sink_version_of (snd pair))"

definition pair_delivery :: "(string \<Rightarrow> string) \<Rightarrow> string \<Rightarrow> ts \<Rightarrow> item \<times> sink_row \<Rightarrow> delivery_row" where
  "pair_delivery th cid now pair =
     new_delivery th cid (snk_id (snd pair)) (im_id (fst pair)) (sink_version_of (snd pair)) now"

lemma enqueue_one_known_sink:
  assumes "enqueue_one th cid now p (d, n) = Inr st" and "distinct (map snk_id (t_sinks d))" and "snd p \<in> set (t_sinks d)"
  shows "snd st = n + 1" "has_delivery (fst st) p"
    and "\<exists>new. fst st = d\<lparr>t_deliveries := t_deliveries d @ new\<rparr> \<and> set new \<subseteq> {pair_delivery th cid now p}"
proof -
  obtain i s where p: "p = (i, s)" by (cases p)
  have sink: "tbl_get snk_id (snk_id s) (t_sinks d) = Some s" using assms(2,3) tbl_get_unique by (simp add: p)
  let ?v = "sink_version_of s" and ?row = "pair_delivery th cid now p"
  let ?c = "tbl_get dl_id (dl_id ?row) (t_deliveries d) \<noteq> None \<or> find_delivery d (im_id i) ?v \<noteq> None"
  define d1 where "d1 = (if ?c then d else d\<lparr>t_deliveries := t_deliveries d @ [?row]\<rparr>)"
  have run: "enqueue_delivery th d cid (snk_id s) (im_id i) None now =
      (case find_delivery d1 (im_id i) ?v of None \<Rightarrow> Inl (RuntimeErr ''enqueued delivery is unavailable'')
        | Some r \<Rightarrow> Inr (d1, r))"
    unfolding enqueue_delivery_def sink option.case sum.case Let_def d1_def pair_delivery_def p fst_conv snd_conv ..
  obtain r where r: "find_delivery d1 (im_id i) ?v = Some r"
    using assms(1) by (cases "find_delivery d1 (im_id i) ?v") (simp_all add: p enqueue_one_def run)
  have st: "st = (d1, n + 1)" using assms(1) r by (simp add: p enqueue_one_def run)
  show "snd st = n + 1" by (simp add: st)
  show "has_delivery (fst st) p"
    using find_SomeD [OF r [unfolded find_delivery_def]] by (auto simp: st has_delivery_def p)
  have eq: "d1 = d\<lparr>t_deliveries := t_deliveries d @ (if ?c then [] else [?row])\<rparr>" by (simp add: d1_def)
  show "\<exists>new. fst st = d\<lparr>t_deliveries := t_deliveries d @ new\<rparr> \<and> set new \<subseteq> {pair_delivery th cid now p}"
    by (intro exI [of _ "if ?c then [] else [?row]"]) (simp add: st d1_def)
qed

lemma enqueue_all:
  assumes "fold_result (enqueue_one th cid now) pairs (d, n) = Inr (d', n')"
    and "distinct (map snk_id (t_sinks d))" and "snd ` set pairs \<subseteq> set (t_sinks d)"
  shows "n' = n + length pairs \<and> (\<forall>p \<in> set pairs. has_delivery d' p) \<and>
    (\<exists>new. d' = d\<lparr>t_deliveries := t_deliveries d @ new\<rparr> \<and> set new \<subseteq> pair_delivery th cid now ` set pairs)"
  using assms
proof (induction pairs arbitrary: d n)
  case Nil
  have same: "d' = d" "n' = n" using Nil(1) by simp_all
  have eq: "d = d\<lparr>t_deliveries := t_deliveries d @ []\<rparr>" by simp
  show ?case
  proof (intro conjI exI [of _ "[]"])
    show "d' = d\<lparr>t_deliveries := t_deliveries d @ []\<rparr>" unfolding same(1) by (rule eq)
  qed (simp_all add: same(2))
next
  case (Cons p pairs)
  obtain d1 n1 where one: "enqueue_one th cid now p (d, n) = Inr (d1, n1)"
    using Cons.prems(1) by (cases "enqueue_one th cid now p (d, n)") auto
  note step = enqueue_one_known_sink [OF one Cons.prems(2)]
  have p: "snd p \<in> set (t_sinks d)" using Cons.prems(3) by simp
  obtain new1 where d1: "d1 = d\<lparr>t_deliveries := t_deliveries d @ new1\<rparr>" "set new1 \<subseteq> {pair_delivery th cid now p}"
    using step(3) [OF p] by (elim exE conjE) simp
  have rest: "fold_result (enqueue_one th cid now) pairs (d1, n1) = Inr (d', n')" using Cons.prems(1) one by simp
  have sinks: "t_sinks d1 = t_sinks d" by (simp add: d1)
  have "distinct (map snk_id (t_sinks d1))" "snd ` set pairs \<subseteq> set (t_sinks d1)" using Cons.prems(2,3) sinks by simp_all
  note ih = Cons.IH [OF rest this]
  from ih [THEN conjunct2, THEN conjunct2] obtain new2 where
    d': "d' = d1\<lparr>t_deliveries := t_deliveries d1 @ new2\<rparr>" "set new2 \<subseteq> pair_delivery th cid now ` set pairs"
    by (elim exE conjE)
  have head: "has_delivery d' p" using step(2) [OF p] unfolding has_delivery_def d'(1) by auto
  have n: "n' = n + length (p # pairs)" using ih [THEN conjunct1] step(1) [OF p] by simp
  have eq: "d' = d\<lparr>t_deliveries := t_deliveries d @ new1 @ new2\<rparr>" unfolding d' d1 by simp
  have sub: "set (new1 @ new2) \<subseteq> pair_delivery th cid now ` set (p # pairs)" using d1(2) d'(2) by auto
  from ih [THEN conjunct2, THEN conjunct1] head have "\<forall>q \<in> set (p # pairs). has_delivery d' q" by simp
  with n eq sub show ?case by (intro conjI exI [of _ "new1 @ new2"])
qed

text \<open>What a run owes: every item it reports as new or updated, for every enabled sink of its source.\<close>

definition owed :: "db \<Rightarrow> string \<Rightarrow> item list \<Rightarrow> (item \<times> sink_row) set" where
  "owed db cid items = {i \<in> set items. deliverable i} \<times> {s \<in> set (t_sinks db). snk_collector s = cid \<and> snk_enabled s}"

lemma enqueue_run_owed:
  assumes "enqueue_run_deliveries th db cid items now = Inr (db', n)" and "distinct (map snk_id (t_sinks db))"
  shows "(\<forall>p \<in> owed db cid items. has_delivery db' p) \<and>
    (\<exists>new. t_deliveries db' = t_deliveries db @ new \<and> set new \<subseteq> pair_delivery th cid now ` owed db cid items)"
proof -
  define sinks where "sinks = filter snk_enabled (list_sinks_for_collector db cid)"
  define pairs where "pairs = concat (map (\<lambda>i. map (Pair i) sinks) (filter deliverable items))"
  have "set sinks = {s \<in> set (t_sinks db). snk_collector s = cid \<and> snk_enabled s}"
    by (auto simp: list_sinks_for_collector_def sinks_def)
  then have pairs: "set pairs = owed db cid items" by (auto simp: owed_def pairs_def)
  have run: "(if sinks = [] then Inr (db, 0) else fold_result (enqueue_one th cid now) pairs (db, 0)) = Inr (db', n)"
    using assms(1) unfolding enqueue_run_deliveries_def Let_def sinks_def pairs_def .
  show ?thesis
  proof (cases "sinks = []")
    case True
    then have "pairs = []" by (simp add: pairs_def)
    then have "owed db cid items = {}" using pairs by simp
    moreover have "db' = db" using run True by simp
    ultimately show ?thesis by simp
  next
    case False
    then have loop: "fold_result (enqueue_one th cid now) pairs (db, 0) = Inr (db', n)" using run by simp
    have sub: "snd ` set pairs \<subseteq> set (t_sinks db)" unfolding pairs by (auto simp: owed_def)
    note all = enqueue_all [OF loop assms(2) sub, unfolded pairs]
    then obtain new where "db' = db\<lparr>t_deliveries := t_deliveries db @ new\<rparr>"
      "set new \<subseteq> pair_delivery th cid now ` owed db cid items" by blast
    with all show ?thesis by (intro conjI exI [of _ new]) simp_all
  qed
qed

text \<open>
  C29. The transaction that publishes a run also writes its outbox, exactly: afterwards every
  accepted item reported as new or updated has a delivery for the current version of every
  enabled sink of its source, the earlier deliveries are untouched, and each delivery it added
  is a pending one for such an item and sink.
\<close>

theorem run_deliveries_exact:
  assumes "finish_run env db job rn res now = Inr (db', n)" and "distinct (map snk_id (t_sinks db))"
  shows "(\<forall>p \<in> owed db (col_id (rn_source rn)) (rs_items res). has_delivery db' p) \<and>
    (\<exists>new. t_deliveries db' = t_deliveries db @ new \<and>
       set new \<subseteq> pair_delivery (we_th env) (col_id (rn_source rn)) now ` owed db (col_id (rn_source rn)) (rs_items res))"
  using assms(1)
proof (rule finish_run_steps, goal_cases)
  case (1 db1 db2 current r2 current1 db3 db4 x db5 o0 db6 db7)
  obtain ow rs where d1: "db1 = db\<lparr>t_ownership := ow, t_runs := rs\<rparr>" using 1(3) by (rule save_run_only)
  obtain its where d2: "db2 = db1\<lparr>t_items := its\<rparr>" using replace_items_only [OF 1(4)] by simp
  have d3: "t_sinks db3 = t_sinks db2" "t_deliveries db3 = t_deliveries db2"
    using 1(7) by (auto split: if_splits elim!: save_run_only)
  obtain cs where d4: "db4 = db3\<lparr>t_collectors := cs\<rparr>" using save_collector_ordinary(3) [OF 1(8)] by blast
  have d5: "t_sinks db5 = t_sinks db4" "t_deliveries db5 = t_deliveries db4"
    using 1(9) by (auto split: option.splits elim!: save_checkpoint_only)
  obtain ow' ops where d6: "db6 = db5\<lparr>t_ownership := ow', t_operations := ops\<rparr>" using 1(11) by (rule save_operation_only)
  have same: "t_sinks db6 = t_sinks db" "t_deliveries db6 = t_deliveries db" by (simp_all add: d6 d5 d4 d3 d2 d1)
  then have "owed db6 cid items = owed db cid items" for cid items by (simp add: owed_def)
  with enqueue_run_owed [OF 1(12)] assms(2) same show ?case
    by (simp add: 1(13) finish_job_def has_delivery_def)
qed

subsection \<open>Watermarks\<close>

lemma max_text_ge:
  assumes "Some t \<in> set ts"
  shows "t \<le> max_text ts"
proof (cases "t = []")
  case False
  let ?xs = "filter (\<lambda>t. t \<noteq> []) (map the (filter (\<lambda>t. t \<noteq> None) ts))"
  have t: "t \<in> set ?xs" using image_eqI [of t the "Some t"] assms False by auto
  show ?thesis
  proof (cases ?xs)
    case Nil
    show ?thesis using t unfolding Nil by simp
  next
    case (Cons x xs)
    then have "max_text ts = Max (set ?xs)" unfolding max_text_def by (simp only: list.case Max.set_eq_fold)
    moreover have "t \<le> Max (set ?xs)" by (rule Max_ge [OF finite_set t])
    ultimately show ?thesis by simp
  qed
qed simp

text \<open>
  A watermark never moves back: the checkpoint a run publishes is not older than the one
  the run started from, and not older than the watermark its crawl reached.
\<close>

lemma watermark_never_back:
  assumes "checkpoint_after rn res now = Some ck"
  shows "ck_collector ck = col_id (rn_source rn) \<and>
    (\<forall>ck0. run_checkpoint_before (rn_run rn) = Some ck0 \<longrightarrow> ck_watermark ck0 \<le> ck_watermark ck) \<and>
    (\<forall>w. rs_watermark res = Some w \<longrightarrow> w \<le> ck_watermark ck)"
proof -
  obtain w where ck: "ck_collector ck = col_id (rn_source rn)" "ck_watermark ck =
      max_text [map_option ck_watermark (run_checkpoint_before (rn_run rn)), rs_watermark res, w]"
    using assms by (auto simp: checkpoint_after_def Let_def split: if_splits)
  have "t \<le> ck_watermark ck" if "Some t \<in> {map_option ck_watermark (run_checkpoint_before (rn_run rn)), rs_watermark res}" for t
    unfolding ck(2) by (rule max_text_ge) (use that in auto)
  then show ?thesis using ck(1) by auto
qed

subsection \<open>Two items of one id\<close>

lemma replace_run_items_clash:
  assumes "\<not> distinct (map im_id items)"
  shows "replace_run_items db rid items now = Inl UniqueViolation"
  using assms by (simp add: replace_run_items_def Let_def)

text \<open>
  A run whose result holds two items with the same id cannot be published: whatever else
  it found, its final transaction raises the unique violation of the item table and leaves no
  trace, once the job, the source and the run record are in order.
\<close>

lemma duplicate_item_ids_block_run:
  assumes "j < k" and "k < length (rs_items res)" and "im_id (rs_items res ! j) = im_id (rs_items res ! k)"
  shows "(\<exists>e. finish_run env db job rn res now = Inl e) \<and>
    (owned_check db job False now = None \<longrightarrow> get_collector db (col_id (rn_source rn)) \<noteq> None \<longrightarrow>
     tbl_get rr_id (run_id (rn_run rn)) (t_runs db) \<noteq> None \<longrightarrow> finish_run env db job rn res now = Inl UniqueViolation)"
proof -
  have "\<not> distinct (map im_id (rs_items res))"
  proof
    assume "distinct (map im_id (rs_items res))"
    then have "map im_id (rs_items res) ! j \<noteq> map im_id (rs_items res) ! k"
      using assms(1,2) by (simp only: nth_eq_iff_index_eq length_map)
    then show False using assms by simp
  qed
  note clash = replace_run_items_clash [OF this]
  have "finish_run env db job rn res now \<noteq> Inr y" for y
  proof
    assume "finish_run env db job rn res now = Inr y"
    then have "finish_run env db job rn res now = Inr (fst y, snd y)" by simp
    then show False by (rule finish_run_steps) (simp add: clash)
  qed
  then have none: "\<exists>e. finish_run env db job rn res now = Inl e" by (cases "finish_run env db job rn res now") auto
  have "finish_run env db job rn res now = Inl UniqueViolation"
    if "owned_check db job False now = None" "get_collector db (col_id (rn_source rn)) \<noteq> None"
      "tbl_get rr_id (run_id (rn_run rn)) (t_runs db) = Some row" for row
  proof -
    have row: "tbl_get rr_id (run_id (finished_run rn res now)) (t_runs db) = Some row" using that(3) by simp
    show ?thesis
      using that(1) that(2) [folded lock_collector_get]
      by (simp add: finish_run_def Let_def save_run_known [OF row] clash)
  qed
  with none show ?thesis by blast
qed

subsection \<open>Pausing after failures\<close>

lemma save_schedule_stored:
  assumes "save_schedule cv nt db cid v now = Inr (db', c)"
  shows "\<exists>s. get_schedule db' cid = Some s \<and> sv_enabled (sch_values s) = sv_enabled v \<and>
    (\<not> sv_enabled v \<longrightarrow> sch_next_run s = None)" and "t_audit db' = t_audit db"
proof -
  obtain v' where v: "validate_schedule cv v = Inr v'"
    using assms by (cases "validate_schedule cv v") (simp_all add: save_schedule_def)
  have en: "sv_enabled v' = sv_enabled v" using v by (auto simp: validate_schedule_def Let_def split: if_splits)
  obtain c0 where c0: "get_collector db cid = Some c0"
    using assms v by (cases "get_collector db cid") (simp_all add: save_schedule_def split: option.splits)
  define s where "s = next_schedule nt (get_schedule db cid) cid v' now"
  have run: "save_collector (db\<lparr>t_schedules := tbl_upsert sch_collector s (\<lambda>_. s) (t_schedules db)\<rparr>)
      (c0\<lparr>col_schedule := Some s, col_updated := JustNow\<rparr>) False now = Inr (db', c)"
    using assms v c0 by (simp add: save_schedule_def s_def Let_def split: option.splits if_splits)
  then obtain cs where db': "db' = db\<lparr>t_schedules := tbl_upsert sch_collector s (\<lambda>_. s) (t_schedules db)\<rparr>\<lparr>t_collectors := cs\<rparr>"
    by (rule save_collector_only)
  have key: "sch_collector s = cid" by (simp add: s_def next_schedule_def)
  have "get_schedule db' cid = Some s"
    using tbl_get_const_upd [of sch_collector s cid cid "t_schedules db"] key
    by (cases "tbl_get sch_collector cid (t_schedules db)") (simp_all add: get_schedule_def db' tbl_upsert_def tbl_get_append)
  then show "\<exists>s. get_schedule db' cid = Some s \<and> sv_enabled (sch_values s) = sv_enabled v \<and>
    (\<not> sv_enabled v \<longrightarrow> sch_next_run s = None)"
    by (intro exI [of _ s]) (simp add: s_def next_schedule_def en)
  show "t_audit db' = t_audit db" by (simp add: db')
qed

lemma three_failed: "\<not> (length ss < 3 \<or> (\<exists>s \<in> set ss. s \<noteq> Failed)) \<Longrightarrow> length ss \<le> 3 \<Longrightarrow> ss = [Failed, Failed, Failed]"
proof (goal_cases)
  case 1
  then have "length ss = 3" "\<forall>s \<in> set ss. s = Failed" by auto
  then show ?thesis by (auto simp: numeral_3_eq_3 length_Suc_conv)
qed

lemma recent_run_statuses_length: "recent_run_statuses db cid n = Inr ss \<Longrightarrow> length ss \<le> n"
  by (auto simp: recent_run_statuses_def split: if_splits option.splits)

text \<open>
  A schedule is paused by failures exactly when it should be: when the three newest runs of
  the source in its collection all failed and its schedule is enabled; then the stored
  schedule is disabled and has no next run, and one audit event is appended. In every other
  case nothing is changed.
\<close>

lemma paused_after_three_failures:
  assumes "maybe_pause_schedule ph cv nt tenant db cid i now = Inr (db', paused)"
  shows "(paused \<longleftrightarrow> recent_run_statuses db cid 3 = Inr [Failed, Failed, Failed] \<and>
      (\<exists>c s. get_collector db cid = Some c \<and> col_schedule c = Some s \<and> sv_enabled (sch_values s))) \<and>
    (\<not> paused \<longrightarrow> db' = db) \<and>
    (paused \<longrightarrow> (\<exists>s. get_schedule db' cid = Some s \<and> \<not> sv_enabled (sch_values s) \<and> sch_next_run s = None) \<and>
       length (t_audit db') = Suc (length (t_audit db)))"
proof -
  have lock: "lock_collector db cid = None" using assms by (simp add: maybe_pause_schedule_def unless_Inr)
  obtain ss where ss: "recent_run_statuses db cid 3 = Inr ss"
    using assms lock by (cases "recent_run_statuses db cid 3") (simp_all add: maybe_pause_schedule_def failure_pause_threshold_def)
  let ?short = "length ss < 3 \<or> (\<exists>s \<in> set ss. s \<noteq> Failed)"
  obtain c where c: "get_collector db cid = Some c" using lock by (auto simp: lock_collector_get)
  show ?thesis
  proof (cases ?short)
    case True
    then have "db' = db" "\<not> paused"
      using assms lock ss by (simp_all add: maybe_pause_schedule_def failure_pause_threshold_def)
    moreover have "ss \<noteq> [Failed, Failed, Failed]" using True by auto
    ultimately show ?thesis using ss by simp
  next
    case False
    note three = three_failed [OF False recent_run_statuses_length [OF ss]]
    show ?thesis
    proof (cases "\<exists>s. col_schedule c = Some s \<and> sv_enabled (sch_values s)")
      case False
      then have "db' = db" "\<not> paused"
        using assms lock ss three c
        by (auto simp: maybe_pause_schedule_def failure_pause_threshold_def split: option.splits)
      then show ?thesis using False c by simp
    next
      case True
      then obtain s where s: "col_schedule c = Some s" "sv_enabled (sch_values s)" by blast
      let ?off = "(sch_values s)\<lparr>sv_enabled := False\<rparr>"
      obtain db1 c1 where save: "save_schedule cv nt db cid ?off now = Inr (db1, c1)"
        using assms lock ss three c s
        by (cases "save_schedule cv nt db cid ?off now") (auto simp: maybe_pause_schedule_def failure_pause_threshold_def)
      have out: "paused" "\<exists>row. db' = db1\<lparr>t_audit := t_audit db1 @ [row]\<rparr>"
        using assms lock ss three c s save
        by (auto simp: maybe_pause_schedule_def failure_pause_threshold_def append_audit_event_def)
      from out(2) have "get_schedule db' cid = get_schedule db1 cid" "length (t_audit db') = Suc (length (t_audit db1))"
        by (auto simp: get_schedule_def)
      with save_schedule_stored [OF save] out(1) ss three c s show ?thesis by simp
    qed
  qed
qed

subsection \<open>A concrete run\<close>

definition example_env :: worker_env where
  "example_env = \<lparr>we_ph = constant_hash, we_canon = (\<lambda>v. case v of JStr s \<Rightarrow> s | _ \<Rightarrow> ''-''), we_th = id,
     we_verify = digest_verifier, we_preview = (\<lambda>_. [])\<rparr>"

definition example_running :: running where
  "example_running = \<lparr>rn_source = example_collector, rn_run = example_seed_run\<lparr>run_status := Running\<rparr>,
     rn_rule = example_rule, rn_policy = example_policy\<lparr>pol_values := default_policy\<rparr>\<rparr>"

definition example_result :: run_result where
  "example_result = \<lparr>rs_items = [example_item ''item_1'' ''e1'' ''2024-01-01 10:00'' ''accepted'',
       example_item ''item_2'' ''e2'' ''2024-01-01 10:00'' ''accepted''],
     rs_metrics = (\<lambda>_. None), rs_stop = ''next_link_exhausted'', rs_duration = 1, rs_watermark = Some ''2024-01-01'',
     rs_evidence_digest = None, rs_artifact_mode = ''sampled'', rs_coverage = None, rs_complete = False,
     rs_requests = 3, rs_retry_after = None\<rparr>"

definition example_claim :: claimed_job where
  "example_claim = \<lparr>cj_id = 1, cj_operation = ''op_a'', cj_kind = ''run'', cj_payload = example_payload, cj_attempts = 1,
     cj_lease_seconds = 60\<rparr>"

definition example_run_db :: db where
  "example_run_db = (queue_with example_operation example_job)
     \<lparr>t_runs := [\<lparr>rr_id = ''run_a'', rr_collector = ''collector_a'', rr_data = example_seed_run\<lparr>run_status := Running\<rparr>,
                  rr_created = 1, rr_updated = 1\<rparr>],
      t_sinks := [example_sink],
      t_items := new_item_rows ''run_0'' [example_item ''item_0'' ''e1'' ''2024-01-01 09:00'' ''accepted'']  1\<rparr>"

lemma example_classified:
  "rs_items (classified example_env example_run_db example_running example_result) =
     [(example_item ''item_1'' ''e1'' ''2024-01-01 10:00'' ''accepted'')\<lparr>im_change_type := Some ''unchanged'', im_revision := Some 1\<rparr>,
      (example_item ''item_2'' ''e2'' ''2024-01-01 10:00'' ''accepted'')\<lparr>im_change_type := Some ''new'', im_revision := Some 1\<rparr>]"
  by code_simp

lemma example_complete:
  "case complete_run example_env example_run_db example_run_db example_claim example_running example_result 5 of
     Inl _ \<Rightarrow> False | Inr (db', n) \<Rightarrow> n = 1"
  by code_simp

definition example_outcome :: run_result where
  "example_outcome = classified example_env example_run_db example_running example_result"

lemma example_finish:
  obtains db' where "finish_run example_env example_run_db example_claim example_running example_outcome 5 = Inr (db', 1)"
  using example_complete by (auto simp: complete_run_def example_outcome_def split: sum.splits)

lemma example_run_db_inv: "queue_inv example_run_db"
proof -
  have "same_queue (queue_with example_operation example_job) example_run_db"
    by (simp add: same_queue_def example_run_db_def)
  from queue_step_inv [OF same_queue_step [OF example_inv this]] show ?thesis .
qed

theorem finish_run_refines_success_witness:
  "\<exists>db' db1. finish_run example_env example_run_db example_claim example_running example_outcome 5 = Inr (db', 1) \<and>
     settle_success example_run_db example_claim (rs_metrics example_outcome) 5 = Inr db1 \<and> t_operations db1 = t_operations db'"
proof -
  obtain db' where run: "finish_run example_env example_run_db example_claim example_running example_outcome 5 = Inr (db', 1)"
    by (rule example_finish)
  have "pl_ai_run_id (cj_payload example_claim) = None" by (simp add: example_claim_def example_payload_def)
  from finish_run_refines_success [OF run this example_run_db_inv] run show ?thesis by blast
qed

theorem run_outcome_published_witness:
  "\<exists>db'. finish_run example_env example_run_db example_claim example_running example_outcome 5 = Inr (db', 1) \<and>
     map it_data (filter (\<lambda>r. it_run r = ''run_a'') (t_items db')) = rs_items example_outcome"
proof -
  obtain db' where run: "finish_run example_env example_run_db example_claim example_running example_outcome 5 = Inr (db', 1)"
    by (rule example_finish)
  have rid: "run_id (rn_run example_running) = ''run_a''" by (simp add: example_running_def example_seed_run_def)
  have "\<forall>r \<in> set (t_collectors example_run_db). col_id (colr_data r) = colr_id r"
    by (simp add: example_run_db_def queue_with_def example_db_def example_collector_def)
  from run_outcome_published [OF run example_run_db_inv this] run show ?thesis unfolding rid by blast
qed

theorem run_deliveries_exact_witness:
  "\<exists>db'. finish_run example_env example_run_db example_claim example_running example_outcome 5 = Inr (db', 1) \<and>
     has_delivery db' (rs_items example_outcome ! 1, example_sink)"
proof -
  obtain db' where run: "finish_run example_env example_run_db example_claim example_running example_outcome 5 = Inr (db', 1)"
    by (rule example_finish)
  have sinks: "t_sinks example_run_db = [example_sink]" by (simp add: example_run_db_def)
  have cid: "col_id (rn_source example_running) = snk_collector example_sink" "snk_enabled example_sink"
    by (simp_all add: example_running_def example_collector_def example_sink_def)
  have new: "deliverable (rs_items example_outcome ! 1)" "rs_items example_outcome ! 1 \<in> set (rs_items example_outcome)"
    by (simp_all add: example_outcome_def example_classified deliverable_def example_item_def)
  have "(rs_items example_outcome ! 1, example_sink) \<in> owed example_run_db (col_id (rn_source example_running)) (rs_items example_outcome)"
    using new cid by (simp add: owed_def sinks)
  with run_deliveries_exact [OF run] run sinks show ?thesis by auto
qed

theorem change_type_exact_witness:
  "im_change_type (rs_items (classified example_env example_run_db example_running example_result) ! 0) = Some ''unchanged'' \<and>
   im_change_type (rs_items (classified example_env example_run_db example_running example_result) ! 1) = Some ''new''"
proof -
  have wf: "items_wf example_run_db" by code_simp
  have get: "get_collector example_run_db (col_id (rn_source example_running)) = Some example_collector"
    by (simp add: example_run_db_def queue_with_def example_db_def empty_db_def get_collector_def example_running_def
        example_collector_def is_deleted_def)
  have len: "1 < length (rs_items example_result)" "im_decision (rs_items example_result ! 1) = ''accepted''"
    by (simp_all add: example_result_def example_item_def)
  have "stored_versions example_run_db example_collector (col_id (rn_source example_running))
      (im_entity_key (rs_items example_result ! 1)) = []" by code_simp
  with change_type_exact [OF wf get len, where env = example_env]
  have "im_change_type (rs_items (classified example_env example_run_db example_running example_result) ! 1) = Some ''new''"
    by (simp add: Let_def)
  then show ?thesis by (simp add: example_classified)
qed

theorem same_content_is_unchanged_witness:
  "\<exists>out. classify_items (we_canon example_env) (rs_items example_result)
      (fst (classify_items (we_canon example_env) (rs_items example_result) [] ''collector_a'' [])) ''collector_a'' [] = (out, 0, 0, 2)"
proof -
  let ?items = "rs_items example_result"
  have one: "one_per_entity ?items" by (simp add: one_per_entity_def example_result_def example_item_def)
  have cid: "\<forall>i \<in> set ?items. im_collector i = ''collector_a''" by (simp add: example_result_def example_item_def)
  have again: "list_all2 (reobserved []) ?items ?items" by (rule list_all2_refl) (simp add: reobserved_def)
  have two: "length (filter (\<lambda>i. im_decision i = ''accepted'') ?items) = 2" by (simp add: example_result_def example_item_def)
  from same_content_is_unchanged [OF one cid again, where canon = "we_canon example_env" and previous = "[]"]
  show ?thesis unfolding two by blast
qed

theorem watermark_never_back_witness:
  "\<exists>ck. checkpoint_after example_running example_outcome 5 = Some ck \<and> ''2024-01-01'' \<le> ck_watermark ck"
proof -
  have "checkpoint_after example_running example_outcome 5 \<noteq> None" by code_simp
  then obtain ck where ck: "checkpoint_after example_running example_outcome 5 = Some ck" by blast
  have "rs_watermark example_outcome = Some ''2024-01-01''"
    by (simp add: example_outcome_def classified_def classify_items_def Let_def example_result_def)
  with watermark_never_back [OF ck] ck show ?thesis by blast
qed

theorem duplicate_item_ids_block_run_witness:
  "\<exists>e. finish_run example_env example_run_db example_claim example_running
     (example_result\<lparr>rs_items := [example_item ''item_1'' ''e1'' ''2024-01-01 10:00'' ''accepted'',
       example_item ''item_1'' ''e1'' ''2024-01-01 10:00'' ''accepted'']\<rparr>) 5 = Inl e"
  by (rule conjunct1 [OF duplicate_item_ids_block_run [of 0 1]]) (simp_all add: example_item_def)

definition example_failing_db :: db where
  "example_failing_db = example_run_db\<lparr>
     t_collectors := [\<lparr>colr_id = ''collector_a'', colr_data = example_collector\<lparr>col_schedule := Some example_schedule\<rparr>,
                       colr_created = 0, colr_updated = 0\<rparr>],
     t_runs := map (\<lambda>(i, t). \<lparr>rr_id = i, rr_collector = ''collector_a'', rr_data = example_seed_run\<lparr>run_id := i\<rparr>,
                  rr_created = t, rr_updated = t\<rparr>) [(''run_1'', 1), (''run_2'', 2), (''run_3'', 3)]\<rparr>"

theorem paused_after_three_failures_witness:
  "\<exists>db' s. maybe_pause_schedule constant_hash (\<lambda>_. True) (\<lambda>_ _ t. t + 1) ''t'' example_failing_db ''collector_a'' ''ev_1'' 9 =
     Inr (db', True) \<and> get_schedule db' ''collector_a'' = Some s \<and> \<not> sv_enabled (sch_values s)"
proof -
  have "case maybe_pause_schedule constant_hash (\<lambda>_. True) (\<lambda>_ _ t. t + 1) ''t'' example_failing_db ''collector_a'' ''ev_1'' 9 of
      Inl _ \<Rightarrow> False | Inr (db', b) \<Rightarrow> b" by code_simp
  then obtain db' where run: "maybe_pause_schedule constant_hash (\<lambda>_. True) (\<lambda>_ _ t. t + 1) ''t'' example_failing_db
      ''collector_a'' ''ev_1'' 9 = Inr (db', True)" by (auto split: sum.splits)
  from paused_after_three_failures [OF run] run show ?thesis by blast
qed

end
