(* ===== verification/Crawl.thy ===== *)
theory Crawl
  imports Execution
begin

text \<open>
  The crawl of a source (\<open>runtime.CrawleeRuntime._run\<close>): traversal of the list pages within
  page, item, host and window limits, the coverage position an observing run keeps, the detail
  pages, the result. The web is the argument \<open>web\<close>: what a list page holds, its final URL and
  records, the publisher checks, hosts and dates of texts, details and the item made of one.
  Dates are day numbers; \<open>wb_date_text\<close> is their ISO text.
\<close>

subsection \<open>Arguments\<close>

record list_record =
  lr_url :: string
  lr_published :: "string option"
  lr_fields :: "(string \<times> json) list"

record web =
  wb_fetch :: "string \<Rightarrow> py_exc + string option"
  wb_final :: "string \<Rightarrow> string"
  wb_check :: "string \<Rightarrow> string \<Rightarrow> py_exc option"
  wb_issue :: "string \<Rightarrow> string \<Rightarrow> string option"
  wb_empty_ok :: "string \<Rightarrow> string \<Rightarrow> bool"
  wb_discover :: "string \<Rightarrow> string \<Rightarrow> py_exc + list_record list \<times> string option"
  wb_host :: "string \<Rightarrow> string"
  wb_date :: "string option \<Rightarrow> int option"
  wb_date_text :: "int \<Rightarrow> string"
  wb_page_url :: "int \<Rightarrow> string"
  wb_truncated :: "string \<Rightarrow> string \<Rightarrow> int \<Rightarrow> string \<Rightarrow> bool"
  wb_details :: "string list \<Rightarrow> py_exc + (string \<Rightarrow> string option)"
  wb_again :: "string \<Rightarrow> py_exc + string option"
  wb_item :: "string \<Rightarrow> string \<Rightarrow> nat \<Rightarrow> list_record option \<Rightarrow> py_exc + item \<times> string option"

text \<open>The parts of a specification the crawl reads.\<close>

record crawl_plan =
  cw_single :: bool
  cw_entry :: string
  cw_hosts :: "string list"
  cw_paging :: string
  cw_stop_when_empty :: bool
  cw_paging_pages :: nat
  cw_budget_pages :: nat
  cw_budget_items :: nat
  cw_dated :: bool

record crawl_settings =
  cg_observed :: bool
  cg_window :: bool
  cg_window_start :: int
  cg_page_limit :: nat
  cg_item_limit :: nat
  cg_required_older :: int
  cg_prior :: "coverage_progress option"
  cg_run :: run
  cg_policy :: policy
  cg_plan :: crawl_plan

definition page_limit :: "crawl_plan \<Rightarrow> policy_values \<Rightarrow> nat" where
  "page_limit p v = min (min (cw_paging_pages p) (cw_budget_pages p)) (min (nat (pv_max_pages v)) 1000)"

definition item_limit :: "crawl_plan \<Rightarrow> policy_values \<Rightarrow> nat" where
  "item_limit p v = min (cw_budget_items p) (min (nat (pv_max_items v)) 100000)"

text \<open>The settings of a run over lists; an observing run needs dates and pages it can follow.\<close>

definition settings_of :: "web \<Rightarrow> crawl_plan \<Rightarrow> policy \<Rightarrow> run \<Rightarrow> py_exc + crawl_settings" where
  "settings_of w p pol r =
     (let v = pol_values pol;
          start = wb_date w (Some (run_window_start r));
          window = start \<noteq> None \<and> cw_dated p;
          observed = observed_policy pol \<and> \<not> retry_run r;
          prior = run_coverage_before r
      in if observed \<and> (\<not> window \<or> cw_paging p \<notin> {''next_link'', ''page''})
         then Inl (NetworkErr ''coverage_list_date_or_pagination_missing'')
         else Inr \<lparr>cg_observed = observed, cg_window = window, cg_window_start = (case start of None \<Rightarrow> 0 | Some d \<Rightarrow> d),
                cg_page_limit = page_limit p v, cg_item_limit = item_limit p v,
                cg_required_older = pv_consecutive_older_pages v,
                cg_prior = (if observed \<and> valid_progress prior (run_rule_digest r) (Some (pol_id pol)) then prior else None),
                cg_run = r, cg_policy = pol, cg_plan = p\<rparr>)"

subsection \<open>One page of records\<close>

record page_scan =
  sc_details :: "(string \<times> list_record) list"
  sc_processed :: "string list"
  sc_anchor :: "string option"
  sc_older :: bool
  sc_watermark :: "string option"
  sc_outside :: nat
  sc_duplicates :: nat
  sc_full :: bool

definition add_new :: "string \<Rightarrow> string list \<Rightarrow> string list" where
  "add_new u us = (if u \<in> set us then us else us @ [u])"

definition new_watermark :: "web \<Rightarrow> int option \<Rightarrow> string option \<Rightarrow> py_exc + string option" where
  "new_watermark w published mark =
     (case (published, mark) of
        (None, _) \<Rightarrow> Inr mark
      | (Some d, None) \<Rightarrow> Inr (Some (wb_date_text w d))
      | (Some d, Some t) \<Rightarrow>
          (case wb_date w (Some t) of
             None \<Rightarrow> Inl (TypeErr ''date'')
           | Some d0 \<Rightarrow> Inr (if d0 < d then Some (wb_date_text w d) else mark)))"

definition filled :: "crawl_settings \<Rightarrow> page_scan \<Rightarrow> page_scan" where
  "filled g s = s\<lparr>sc_full := cg_item_limit g \<le> length (sc_details s)\<rparr>"

definition visit_record :: "web \<Rightarrow> crawl_settings \<Rightarrow> list_record \<Rightarrow> page_scan \<Rightarrow> py_exc + page_scan" where
  "visit_record w g r s =
     (let url = lr_url r; published = wb_date w (lr_published r); s1 = s\<lparr>sc_anchor := Some url\<rparr>
      in if cg_window g \<and> (case published of None \<Rightarrow> False | Some d \<Rightarrow> d < cg_window_start g)
         then Inr (s1\<lparr>sc_outside := sc_outside s + 1, sc_processed := add_new url (sc_processed s)\<rparr>)
         else and_then (new_watermark w published (sc_watermark s)) (\<lambda>mark.
           let s2 = s1\<lparr>sc_older := False, sc_watermark := mark\<rparr>
           in if cg_observed g \<and> url \<in> set (sc_processed s)
              then Inr (s2\<lparr>sc_duplicates := sc_duplicates s + 1\<rparr>)
              else if wb_host w url \<in> set (cw_hosts (cg_plan g))
              then
                (let s3 = (if url \<in> fst ` set (sc_details s) then s2\<lparr>sc_duplicates := sc_duplicates s + 1\<rparr>
                           else s2\<lparr>sc_details := sc_details s @ [(url, r)]\<rparr>)
                 in Inr (filled g (s3\<lparr>sc_processed := add_new url (sc_processed s)\<rparr>)))
              else if cg_observed g then Inl (NetworkErr ''coverage_detail_host_outside_scope'')
              else Inr (filled g s2)))"

fun visit_records :: "web \<Rightarrow> crawl_settings \<Rightarrow> list_record list \<Rightarrow> page_scan \<Rightarrow> py_exc + page_scan" where
  "visit_records w g [] s = Inr s"
| "visit_records w g (r # rs) s =
     and_then (visit_record w g r s) (\<lambda>s'. if sc_full s' then Inr s' else visit_records w g rs s')"

subsection \<open>The traversal\<close>

record crawl_state =
  cs_next :: "string option"
  cs_details :: "(string \<times> list_record) list"
  cs_seen :: "string list"
  cs_signatures :: "string list list"
  cs_older :: int
  cs_watermark :: "string option"
  cs_resume :: "coverage_progress option"
  cs_oldest :: "int option"
  cs_seeking :: "string option"
  cs_page :: int
  cs_progress :: "coverage_progress option"
  cs_stop :: string
  cs_fetched :: nat
  cs_outside :: nat
  cs_duplicates :: nat
  cs_warnings :: nat

definition crawl_start :: "crawl_settings \<Rightarrow> crawl_state" where
  "crawl_start g =
     (let prior = cg_prior g
      in \<lparr>cs_next = Some (case prior of None \<Rightarrow> cw_entry (cg_plan g) | Some p \<Rightarrow> cp_resume_url p),
          cs_details = [], cs_seen = [], cs_signatures = [],
          cs_older = (case prior of None \<Rightarrow> 0 | Some p \<Rightarrow> cp_older_pages_before p),
          cs_watermark = Option.bind prior cp_watermark, cs_resume = prior, cs_oldest = None,
          cs_seeking = Option.bind prior cp_anchor_url,
          cs_page = (case prior of None \<Rightarrow> 0 | Some p \<Rightarrow> cp_page_index p),
          cs_progress = None, cs_stop = ''max_pages'', cs_fetched = 0, cs_outside = 0, cs_duplicates = 0, cs_warnings = 0\<rparr>)"

text \<open>How the loop over pages goes on: to the next page, out of the loop, or out of the crawl with a reason.\<close>

datatype page_flow = Onward | Leave | Refused string

definition stop_at :: "string \<Rightarrow> crawl_state \<Rightarrow> crawl_state \<times> page_flow" where
  "stop_at reason s = (s\<lparr>cs_stop := reason\<rparr>, Leave)"

definition next_page :: "web \<Rightarrow> crawl_settings \<Rightarrow> int \<Rightarrow> list_record list \<Rightarrow> string option \<Rightarrow> string option" where
  "next_page w g page records found =
     (if cw_paging (cg_plan g) = ''page''
      then (if records = [] \<and> cw_stop_when_empty (cg_plan g) then None else Some (wb_page_url w (page + 1)))
      else found)"

text \<open>Resuming: the old anchor, or enough of the old tail, must show up before the traversal counts.\<close>

definition seek_anchor :: "list_record list \<Rightarrow> crawl_state \<Rightarrow> crawl_state" where
  "seek_anchor records s =
     (case (cs_seeking s, cs_resume s) of
        (Some a, Some resume) \<Rightarrow>
          (let current = remdups (map lr_url records);
               tail = cp_page_complete resume \<and> 2 \<le> length (filter (\<lambda>u. u \<in> set (cp_overlap_urls resume)) current)
           in if a = [] then s
              else if a \<in> set current \<or> tail then s\<lparr>cs_seeking := None\<rparr>
              else s\<lparr>cs_older := 0, cs_warnings := cs_warnings s + 1\<rparr>)
      | _ \<Rightarrow> s)"

definition seeking :: "crawl_state \<Rightarrow> bool" where
  "seeking s \<longleftrightarrow> (case cs_seeking s of None \<Rightarrow> False | Some a \<Rightarrow> a \<noteq> [])"

definition order_issue :: "web \<Rightarrow> list_record list \<Rightarrow> crawl_state \<Rightarrow> string option" where
  "order_issue w records s =
     (let dates = dates_descend records (wb_date w \<circ> lr_published);
          issue = (if map lr_url records \<in> set (cs_signatures s) then Some ''coverage_order_unverified'' else dates)
      in if issue = None \<and> (case (cs_oldest s, wb_date w (lr_published (hd records))) of (Some d, Some d1) \<Rightarrow> d < d1 | _ \<Rightarrow> False)
         then Some ''coverage_order_unverified'' else issue)"

definition last_three :: "list_record list \<Rightarrow> string list" where
  "last_three records = map lr_url (last_n 3 records)"

text \<open>After the records of a page: its coverage position, and whether the traversal ends here.\<close>

definition close_page ::
  "web \<Rightarrow> crawl_settings \<Rightarrow> string \<Rightarrow> string \<Rightarrow> list_record list \<Rightarrow> page_scan \<Rightarrow> crawl_state \<Rightarrow> crawl_state \<times> page_flow" where
  "close_page w g page_url html records sc s =
     (let r = cg_run g;
          stop = (if sc_full sc then ''max_items'' else cs_stop s);
          oldest = (if cg_observed g \<and> records \<noteq> [] then wb_date w (lr_published (last records)) else None);
          progress = (if cg_observed g
            then Some (progress_record (run_rule_digest r) (pol_id (cg_policy g)) (run_window_start r) page_url (cs_page s)
                   (sc_anchor sc) (sc_processed sc) (cs_older s) (sc_watermark sc) (map_option (wb_date_text w) (cs_oldest s))
                   (stop \<noteq> ''max_items'') (last_three records))
            else cs_progress s);
          older = (if sc_older sc then cs_older s + 1 else 0);
          s1 = s\<lparr>cs_details := sc_details sc, cs_watermark := sc_watermark sc, cs_outside := cs_outside s + sc_outside sc,
                 cs_duplicates := cs_duplicates s + sc_duplicates sc, cs_progress := progress, cs_stop := stop,
                 cs_resume := (if seeking s then cs_resume s else None), cs_oldest := oldest, cs_page := cs_page s + 1\<rparr>
      in if stop = ''max_items'' then (s1, Leave)
         else if cg_required_older g \<le> older
         then stop_at (if run_execution_mode r = ''incremental'' then ''checkpoint_reached'' else ''time_window_reached'')
                (s1\<lparr>cs_older := older\<rparr>)
         else if cs_next s = None \<or> cs_next s = Some []
         then stop_at (if cg_observed g \<and> (case oldest of None \<Rightarrow> False | Some d \<Rightarrow> wb_truncated w page_url html d (run_window_start r))
                       then ''source_window_truncated'' else ''next_link_exhausted'') (s1\<lparr>cs_older := older\<rparr>)
         else (s1\<lparr>cs_older := older\<rparr>, Onward))"

text \<open>The records of a page that was fetched and passed the publisher checks.\<close>

definition scan_page ::
  "web \<Rightarrow> crawl_settings \<Rightarrow> string \<Rightarrow> string \<Rightarrow> list_record list \<Rightarrow> crawl_state \<Rightarrow> py_exc + crawl_state \<times> page_flow" where
  "scan_page w g page_url html records s0 =
     (let processed = (case cs_resume s0 of None \<Rightarrow> [] | Some p \<Rightarrow> cp_processed_urls p);
          s = seek_anchor records s0;
          issue = (if cg_observed g \<and> records \<noteq> [] then order_issue w records s else None);
          s1 = (if cg_observed g \<and> records \<noteq> [] then s\<lparr>cs_signatures := cs_signatures s @ [map lr_url records]\<rparr> else s)
      in (case issue of
            Some reason \<Rightarrow> Inr (stop_at reason s1)
          | None \<Rightarrow>
              and_then (visit_records w g records
                \<lparr>sc_details = cs_details s1, sc_processed = processed, sc_anchor = Option.bind (cs_resume s1) cp_anchor_url,
                 sc_older = (records \<noteq> [] \<and> cg_window g), sc_watermark = cs_watermark s1, sc_outside = 0, sc_duplicates = 0,
                 sc_full = False\<rparr>)
                (\<lambda>sc. Inr (close_page w g page_url html records sc s1))))"

definition visit_page :: "web \<Rightarrow> crawl_settings \<Rightarrow> nat \<Rightarrow> crawl_state \<Rightarrow> py_exc + crawl_state \<times> page_flow" where
  "visit_page w g index s =
     (case cs_next s of
        None \<Rightarrow> Inr (stop_at ''next_link_exhausted'' s)
      | Some url \<Rightarrow>
          if url = [] then Inr (stop_at ''next_link_exhausted'' s)
          else if url \<in> set (cs_seen s)
          then Inr (stop_at (if cg_observed g then ''coverage_order_unverified'' else ''next_link_exhausted'') s)
          else if wb_host w url \<notin> set (cw_hosts (cg_plan g)) then Inr (stop_at ''cross_host_blocked'' s)
          else
            and_then (wb_fetch w url) (\<lambda>fetched.
              let s1 = s\<lparr>cs_seen := cs_seen s @ [url]\<rparr>
              in (case fetched of
                    None \<Rightarrow> Inr (stop_at ''empty_page'' s1)
                  | Some html \<Rightarrow>
                      (let s2 = s1\<lparr>cs_fetched := cs_fetched s + 1\<rparr>; final = wb_final w url
                       in unless (wb_check w final html)
                            (and_then (case wb_issue w final html of
                                         Some _ \<Rightarrow> Inr ([], None) | None \<Rightarrow> wb_discover w final html) (\<lambda>(records, found).
                              let mismatch = records = [] \<and> cg_observed g \<and> (index = 0 \<or> \<not> wb_empty_ok w final html);
                                  issue = (case wb_issue w final html of
                                             Some i \<Rightarrow> Some i
                                           | None \<Rightarrow> if mismatch then Some ''source_structure_mismatch'' else None)
                              in (case issue of
                                    Some i \<Rightarrow> Inr (s2\<lparr>cs_warnings := cs_warnings s + 1\<rparr>, Refused i)
                                  | None \<Rightarrow>
                                      if records = [] \<and> index = 0 then Inl (NetworkErr ''source_structure_mismatch'')
                                      else scan_page w g final html records
                                             (s2\<lparr>cs_next := next_page w g (cs_page s) records found,
                                                 cs_stop := (if cw_paging (cg_plan g) = ''page'' \<and> records = [] \<and>
                                                                cw_stop_when_empty (cg_plan g)
                                                             then ''next_link_exhausted'' else cs_stop s)\<rparr>))))))))"

fun crawl_pages :: "web \<Rightarrow> crawl_settings \<Rightarrow> nat \<Rightarrow> nat \<Rightarrow> crawl_state \<Rightarrow> py_exc + crawl_state \<times> page_flow" where
  "crawl_pages w g index 0 s = Inr (s, Onward)"
| "crawl_pages w g index (Suc left) s =
     and_then (visit_page w g index s) (\<lambda>(s', flow).
       case flow of Onward \<Rightarrow> crawl_pages w g (Suc index) left s' | _ \<Rightarrow> Inr (s', flow))"

subsection \<open>What the traversal found\<close>

definition complete_stops :: "string list" where
  "complete_stops = [''next_link_exhausted'', ''time_window_reached'', ''checkpoint_reached'']"

record list_result =
  ls_details :: "(string \<times> list_record) list"
  ls_stop :: string
  ls_complete :: bool
  ls_progress :: "coverage_progress option"

definition close_list :: "crawl_settings \<Rightarrow> crawl_state \<Rightarrow> list_result" where
  "close_list g s =
     (let stop = (if cg_observed g \<and> seeking s then ''coverage_order_unverified'' else cs_stop s);
          complete = cg_observed g \<and> stop \<in> set complete_stops
      in \<lparr>ls_details = take (cg_item_limit g) (cs_details s), ls_stop = stop, ls_complete = complete,
          ls_progress = (if cg_observed g \<and> (complete \<or> stop \<notin> {''max_items'', ''max_pages''}) then None else cs_progress s)\<rparr>)"

text \<open>The dict of the records of a retry: a later record of a URL replaces the value, not the place.\<close>

definition dict_of_records :: "list_record list \<Rightarrow> (string \<times> list_record) list" where
  "dict_of_records records =
     map (\<lambda>u. (u, last (filter (\<lambda>r. lr_url r = u) records))) (rev (remdups (rev (map lr_url records))))"

definition crawl_list ::
  "web \<Rightarrow> crawl_settings \<Rightarrow> list_record list option \<Rightarrow> py_exc + crawl_state \<times> page_flow" where
  "crawl_list w g retry =
     (case retry of
        Some records \<Rightarrow>
          Inr ((crawl_start g)\<lparr>cs_next := None, cs_details := dict_of_records (take (cg_item_limit g) records),
                 cs_stop := (if cg_page_limit g = 0 then ''max_pages'' else ''not_applicable'')\<rparr>, Leave)
      | None \<Rightarrow> crawl_pages w g 0 (cg_page_limit g) (crawl_start g))"

subsection \<open>Details and result\<close>

text \<open>The reason code of \<open>harvest.TITLE_MISMATCH_REASON\<close>: its UTF-8 bytes.\<close>

definition title_mismatch :: string where
  "title_mismatch = map char_of [229, 136, 151, 232, 161, 168, 230, 160, 135, 233, 162, 152,
     228, 184, 142, 232, 175, 166, 230, 131, 133, 230, 160, 135,
     233, 162, 152, 228, 184, 141, 228, 184, 128, 232, 135, 180 :: nat]"

text \<open>The item of a detail page; a page whose title does not fit the list is fetched once more.\<close>

definition detail_item :: "web \<Rightarrow> nat \<Rightarrow> string \<Rightarrow> string \<Rightarrow> list_record option \<Rightarrow> py_exc + item" where
  "detail_item w index url html r =
     and_then (wb_item w url html index r) (\<lambda>(i, reason).
       if reason \<noteq> Some title_mismatch then Inr i
       else and_then (wb_again w url) (\<lambda>again.
         case again of
           None \<Rightarrow> Inr i
         | Some html' \<Rightarrow>
             and_then (wb_item w url html' index r) (\<lambda>(i', reason').
               Inr (if reason' \<noteq> Some title_mismatch then i' else i))))"

fun detail_items :: "web \<Rightarrow> nat \<Rightarrow> (string \<times> string \<times> list_record option) list \<Rightarrow> py_exc + item list" where
  "detail_items w index [] = Inr []"
| "detail_items w index ((url, html, r) # rest) =
     and_then (detail_item w index url html r) (\<lambda>i. and_then (detail_items w (Suc index) rest) (\<lambda>is. Inr (i # is)))"

definition zero_metrics :: metrics where
  "zero_metrics = map_of (map (\<lambda>k. (k, 0)) [''listPagesFetched'', ''detailUrlsDiscovered'', ''detailPagesFetched'',
     ''recordsOutsideWindow'', ''duplicateDetailUrls'', ''newItems'', ''updatedItems'', ''unchangedItems'', ''warningCount''])"

definition crawl_metrics :: "crawl_state \<Rightarrow> nat \<Rightarrow> nat \<Rightarrow> metrics" where
  "crawl_metrics s found fetched =
     zero_metrics(''listPagesFetched'' \<mapsto> int (cs_fetched s), ''detailUrlsDiscovered'' \<mapsto> int found,
       ''detailPagesFetched'' \<mapsto> int fetched, ''recordsOutsideWindow'' \<mapsto> int (cs_outside s),
       ''duplicateDetailUrls'' \<mapsto> int (cs_duplicates s), ''warningCount'' \<mapsto> int (cs_warnings s + (found - fetched)))"

definition bare_result :: "item list \<Rightarrow> metrics \<Rightarrow> string \<Rightarrow> run_result" where
  "bare_result items m stop =
     \<lparr>rs_items = items, rs_metrics = m, rs_stop = stop, rs_duration = 0, rs_watermark = None, rs_evidence_digest = None,
      rs_artifact_mode = ''sampled'', rs_coverage = None, rs_complete = False, rs_requests = 0, rs_retry_after = None\<rparr>"

text \<open>A run over lists; a refused page ends it with the earlier position and nothing else.\<close>

definition list_run :: "web \<Rightarrow> crawl_settings \<Rightarrow> list_record list option \<Rightarrow> py_exc + run_result" where
  "list_run w g retry =
     and_then (crawl_list w g retry) (\<lambda>(s, flow).
       case flow of
         Refused i \<Rightarrow> Inr ((bare_result [] (crawl_metrics s 0 0) i)\<lparr>rs_coverage := cg_prior g\<rparr>)
       | _ \<Rightarrow>
           (let ls = close_list g s; urls = map fst (ls_details ls)
            in and_then (wb_details w urls) (\<lambda>pages.
                 let got = filter (\<lambda>(u, r). pages u \<noteq> None) (ls_details ls);
                     missing = length urls - length got
                 in and_then (detail_items w 1 (map (\<lambda>(u, r). (u, the (pages u), Some r)) got)) (\<lambda>items.
                      Inr ((bare_result items (crawl_metrics s (length urls) (length got))
                              (if 0 < missing then ''detail_fetch_incomplete'' else ls_stop ls))
                        \<lparr>rs_watermark := cs_watermark s,
                         rs_coverage := (if 0 < missing then None else ls_progress ls),
                         rs_complete := (missing = 0 \<and> ls_complete ls)\<rparr>)))))"

definition single_run :: "web \<Rightarrow> crawl_plan \<Rightarrow> py_exc + run_result" where
  "single_run w p =
     and_then (wb_fetch w (cw_entry p)) (\<lambda>fetched.
       case fetched of
         None \<Rightarrow> Inl (NetworkErr ''detail_fetch_incomplete'')
       | Some html \<Rightarrow>
           and_then (detail_item w 1 (cw_entry p) html None) (\<lambda>i.
             Inr (bare_result [i] (zero_metrics(''detailPagesFetched'' \<mapsto> 1)) ''not_applicable'')))"

definition crawl :: "web \<Rightarrow> crawl_plan \<Rightarrow> policy \<Rightarrow> run \<Rightarrow> list_record list option \<Rightarrow> py_exc + run_result" where
  "crawl w p pol r retry =
     (if cw_single p then single_run w p else and_then (settings_of w p pol r) (\<lambda>g. list_run w g retry))"

text \<open>
  \<open>CrawleeRuntime.run\<close>: the requests of a specification must be plain anonymous ones, and being
  rate limited is a result; \<open>counted\<close> are the metrics at that moment, \<open>seconds\<close>, \<open>requests\<close>,
  \<open>retry_after\<close>, \<open>digest\<close> and \<open>mode\<close> what the network and the evidence report.
\<close>

definition stage_error :: "json \<Rightarrow> py_exc option" where
  "stage_error stage =
     (let request = obj_of (jget ''request'' (obj_of stage));
          verb = jget ''method'' request; body = jget ''bodyTemplate'' request
      in if (verb \<noteq> JNull \<and> verb \<noteq> JStr ''GET'') \<or> truthy body then Some (NetworkErr ''anonymous_get_only'')
         else if \<exists>k \<in> fst ` set (obj_of (jget ''headers'' request)). lower k \<notin> {''accept'', ''accept-language''}
         then Some (NetworkErr ''anonymous_get_only'')
         else if truthy (jget ''query'' request) then Some (NetworkErr ''request_query_unsupported'') else None)"

definition requests_error :: "json \<Rightarrow> py_exc option" where
  "requests_error spec =
     (let collect = obj_of (jget ''collect'' (obj_of spec))
      in if truthy (jget ''accessProfileRef'' (obj_of (jget ''sourceContext'' (obj_of spec))))
         then Some (NetworkErr ''anonymous_get_only'')
         else (case stage_error (jget ''list'' collect) of
                 Some e \<Rightarrow> Some e | None \<Rightarrow> stage_error (jget ''detail'' collect)))"

record crawl_report =
  rp_counted :: metrics
  rp_duration :: int
  rp_requests :: int
  rp_retry_after :: "int option"
  rp_digest :: "string option"
  rp_mode :: string

definition run_crawl ::
  "web \<Rightarrow> crawl_plan \<Rightarrow> policy \<Rightarrow> run \<Rightarrow> rule_version \<Rightarrow> list_record list option \<Rightarrow> crawl_report \<Rightarrow> py_exc + run_result" where
  "run_crawl w p pol r rule retry rep =
     unless (requests_error (rv_spec rule))
       (let sealed = (\<lambda>res. Inr (res\<lparr>rs_duration := rp_duration rep, rs_requests := rp_requests rep,
              rs_retry_after := rp_retry_after rep, rs_evidence_digest := rp_digest rep, rs_artifact_mode := rp_mode rep\<rparr>))
        in (case crawl w p pol r retry of
              Inr res \<Rightarrow> sealed res
            | Inl e \<Rightarrow>
                if e = NetworkErr ''source_rate_limited''
                then sealed ((bare_result [] ((rp_counted rep)(''warningCount'' \<mapsto>
                       (case rp_counted rep ''warningCount'' of None \<Rightarrow> 0 | Some n \<Rightarrow> n) + 1)) ''source_rate_limited'')
                       \<lparr>rs_coverage := run_coverage_before r\<rparr>)
                else Inl e))"

end
