(* ===== verification/Crawl_Safety.thy ===== *)
theory Crawl_Safety
  imports Crawl Run_Safety Item_Pages
begin

text \<open>
  What a crawl guarantees: it stays within its pages, items and hosts, visits no page twice,
  and a traversal that reports itself complete has missed nothing of a listing in descending
  order.
\<close>

subsection \<open>Records of one page\<close>

definition record_day :: "web \<Rightarrow> list_record \<Rightarrow> int option" where
  "record_day w r = wb_date w (lr_published r)"

definition older_record :: "web \<Rightarrow> crawl_settings \<Rightarrow> list_record \<Rightarrow> bool" where
  "older_record w g r \<longleftrightarrow> cg_window g \<and> (\<exists>d. record_day w r = Some d \<and> d < cg_window_start g)"

lemma visit_record_cases:
  assumes "visit_record w g r s = Inr s'"
  obtains (older) "older_record w g r" "sc_details s' = sc_details s" "sc_processed s' = add_new (lr_url r) (sc_processed s)"
      "sc_older s' = sc_older s" "sc_full s' = sc_full s"
    | (known) "\<not> older_record w g r" "cg_observed g" "lr_url r \<in> set (sc_processed s)" "sc_details s' = sc_details s"
      "sc_processed s' = sc_processed s" "\<not> sc_older s'" "sc_full s' = sc_full s"
    | (again) "\<not> older_record w g r" "wb_host w (lr_url r) \<in> set (cw_hosts (cg_plan g))" "lr_url r \<in> fst ` set (sc_details s)"
      "sc_details s' = sc_details s" "sc_processed s' = add_new (lr_url r) (sc_processed s)" "\<not> sc_older s'"
      "sc_full s' = (cg_item_limit g \<le> length (sc_details s'))"
    | (taken) "\<not> older_record w g r" "wb_host w (lr_url r) \<in> set (cw_hosts (cg_plan g))" "lr_url r \<notin> fst ` set (sc_details s)"
      "sc_details s' = sc_details s @ [(lr_url r, r)]" "sc_processed s' = add_new (lr_url r) (sc_processed s)" "\<not> sc_older s'"
      "sc_full s' = (cg_item_limit g \<le> length (sc_details s'))"
    | (foreign) "\<not> older_record w g r" "\<not> cg_observed g" "sc_details s' = sc_details s" "sc_processed s' = sc_processed s"
      "\<not> sc_older s'" "sc_full s' = (cg_item_limit g \<le> length (sc_details s'))"
proof -
  let ?old = "cg_window g \<and> (case wb_date w (lr_published r) of None \<Rightarrow> False | Some d \<Rightarrow> d < cg_window_start g)"
  have old: "?old \<longleftrightarrow> older_record w g r" by (auto simp: older_record_def record_day_def split: option.splits)
  show thesis
  proof (cases "older_record w g r")
    case True
    then have o: "?old" using old by simp
    have "s' = s\<lparr>sc_anchor := Some (lr_url r), sc_outside := sc_outside s + 1, sc_processed := add_new (lr_url r) (sc_processed s)\<rparr>"
      using assms unfolding visit_record_def Let_def if_P [OF o] by simp
    then show thesis by (intro older True) simp_all
  next
    case False
    then have nold: "\<not> ?old" using old by simp
    obtain mark where mark: "new_watermark w (wb_date w (lr_published r)) (sc_watermark s) = Inr mark"
      using assms nold by (cases "new_watermark w (wb_date w (lr_published r)) (sc_watermark s)")
        (simp_all add: visit_record_def Let_def)
    let ?s2 = "s\<lparr>sc_anchor := Some (lr_url r), sc_older := False, sc_watermark := mark\<rparr>"
    have run: "(if cg_observed g \<and> lr_url r \<in> set (sc_processed s)
        then Inr (?s2\<lparr>sc_duplicates := sc_duplicates s + 1\<rparr>)
        else if wb_host w (lr_url r) \<in> set (cw_hosts (cg_plan g))
        then Inr (filled g ((if lr_url r \<in> fst ` set (sc_details s) then ?s2\<lparr>sc_duplicates := sc_duplicates s + 1\<rparr>
               else ?s2\<lparr>sc_details := sc_details s @ [(lr_url r, r)]\<rparr>)\<lparr>sc_processed := add_new (lr_url r) (sc_processed s)\<rparr>))
        else if cg_observed g then Inl (NetworkErr ''coverage_detail_host_outside_scope'')
        else Inr (filled g ?s2)) = Inr s'"
      using assms unfolding visit_record_def Let_def if_not_P [OF nold] mark and_then_simps by simp
    show thesis
    proof (cases "cg_observed g \<and> lr_url r \<in> set (sc_processed s)")
      case True
      with run show thesis by (intro known False) auto
    next
      case unknown: False
      show thesis
      proof (cases "wb_host w (lr_url r) \<in> set (cw_hosts (cg_plan g))")
        case True
        show thesis
        proof (cases "lr_url r \<in> fst ` set (sc_details s)")
          case present: True
          with run unknown True show thesis by (intro again False) (auto simp: filled_def)
        next
          case fresh: False
          with run unknown True show thesis by (intro taken False) (auto simp: filled_def)
        qed
      next
        case out: False
        with run unknown show thesis by (intro foreign False) (auto simp: filled_def split: if_splits)
      qed
    qed
  qed
qed

text \<open>Everything collected so far: distinct URLs of allowed hosts, and no more than the limit while not full.\<close>

definition details_ok :: "web \<Rightarrow> crawl_settings \<Rightarrow> (string \<times> list_record) list \<Rightarrow> bool" where
  "details_ok w g ds \<longleftrightarrow> distinct (map fst ds) \<and> (\<forall>u \<in> fst ` set ds. wb_host w u \<in> set (cw_hosts (cg_plan g)))"

lemma visit_record_ok:
  assumes "visit_record w g r s = Inr s'" and "details_ok w g (sc_details s)"
  shows "details_ok w g (sc_details s')"
  using assms(1) by (rule visit_record_cases) (use assms(2) in \<open>auto simp: details_ok_def\<close>)

lemma visit_record_room:
  assumes "visit_record w g r s = Inr s'" and "length (sc_details s) \<le> cg_item_limit g" and "\<not> sc_full s'"
  shows "length (sc_details s') \<le> cg_item_limit g"
  using assms(1) by (rule visit_record_cases) (use assms(2,3) in auto)

lemma visit_records_ok:
  assumes "visit_records w g rs s = Inr s'" and "details_ok w g (sc_details s)"
  shows "details_ok w g (sc_details s')"
  using assms
proof (induction rs arbitrary: s)
  case (Cons r rs)
  obtain s1 where s1: "visit_record w g r s = Inr s1"
    using Cons.prems(1) by (cases "visit_record w g r s") simp_all
  have "details_ok w g (sc_details s1)" by (rule visit_record_ok [OF s1 Cons.prems(2)])
  with Cons s1 show ?case by (auto split: if_splits)
qed simp

text \<open>A page that was gone through to its end: every record is older or collected.\<close>

lemma visit_records_cover:
  assumes "visit_records w g rs s = Inr s'" and "\<not> sc_full s'" and "cg_observed g"
    and "sorted_wrt (\<lambda>r q. the (record_day w q) \<le> the (record_day w r)) (done' @ rs)"
    and "\<forall>r \<in> set rs. record_day w r \<noteq> None"
    and "\<forall>r \<in> set done'. older_record w g r \<or> lr_url r \<in> fst ` set (sc_details s)"
    and "\<forall>u \<in> set (sc_processed s). u \<in> fst ` set (sc_details s) \<or> (\<exists>r \<in> set done'. lr_url r = u \<and> older_record w g r)"
    and "length (sc_details s) \<le> cg_item_limit g"
  shows "(\<forall>r \<in> set (done' @ rs). older_record w g r \<or> lr_url r \<in> fst ` set (sc_details s')) \<and>
    fst ` set (sc_details s) \<subseteq> fst ` set (sc_details s') \<and> length (sc_details s') \<le> cg_item_limit g \<and>
    (sc_older s' \<longrightarrow> sc_older s \<and> (\<forall>r \<in> set rs. older_record w g r))"
  using assms
proof (induction rs arbitrary: s done')
  case (Cons r rs)
  obtain s1 where s1: "visit_record w g r s = Inr s1"
    using Cons.prems(1) by (cases "visit_record w g r s") simp_all
  have nf: "\<not> sc_full s1" using Cons.prems(1,2) s1 by (auto split: if_splits)
  then have rest: "visit_records w g rs s1 = Inr s'" using Cons.prems(1) s1 by simp
  have room: "length (sc_details s1) \<le> cg_item_limit g" by (rule visit_record_room [OF s1 Cons.prems(8) nf])
  have grow: "fst ` set (sc_details s) \<subseteq> fst ` set (sc_details s1)" using s1 by (rule visit_record_cases) auto
  have order: "the (record_day w r) \<le> the (record_day w q)" if "q \<in> set done'" for q
    using Cons.prems(4) that by (auto simp: sorted_wrt_append)
  have here: "older_record w g r \<or> lr_url r \<in> fst ` set (sc_details s1)"
    using s1
  proof (rule visit_record_cases)
    assume k: "\<not> older_record w g r" "lr_url r \<in> set (sc_processed s)" "sc_details s1 = sc_details s"
    show ?thesis
    proof (rule ccontr)
      assume not: "\<not> ?thesis"
      with k Cons.prems(7) obtain q where q: "q \<in> set done'" "older_record w g q" by auto
      obtain d where d: "record_day w r = Some d" using Cons.prems(5) by auto
      from q(2) obtain d0 where d0: "record_day w q = Some d0" "d0 < cg_window_start g" "cg_window g"
        by (auto simp: older_record_def)
      with order [OF q(1)] d have "older_record w g r" by (auto simp: older_record_def)
      with not show False by simp
    qed
  qed (use Cons.prems(3) in auto)
  have processed: "\<forall>u \<in> set (sc_processed s1). u \<in> fst ` set (sc_details s1) \<or>
      (\<exists>q \<in> set (done' @ [r]). lr_url q = u \<and> older_record w g q)"
    using s1
    by (rule visit_record_cases) (use Cons.prems(7) here in \<open>auto simp: add_new_def split: if_splits\<close>)
  have old: "sc_older s1 \<longrightarrow> sc_older s \<and> older_record w g r" using s1 by (rule visit_record_cases) auto
  have sorted: "sorted_wrt (\<lambda>r q. the (record_day w q) \<le> the (record_day w r)) ((done' @ [r]) @ rs)"
    using Cons.prems(4) by simp
  have covered: "\<forall>q \<in> set (done' @ [r]). older_record w g q \<or> lr_url q \<in> fst ` set (sc_details s1)"
    using Cons.prems(6) grow here by auto
  have dated: "\<forall>q \<in> set rs. record_day w q \<noteq> None" using Cons.prems(5) by simp
  note ih = Cons.IH [OF rest Cons.prems(2,3) sorted dated covered processed room]
  have "fst ` set (sc_details s) \<subseteq> fst ` set (sc_details s')" using grow ih by (meson subset_trans)
  with ih old show ?case by simp
qed simp

subsection \<open>One page\<close>

definition entered :: "web \<Rightarrow> crawl_settings \<Rightarrow> string \<Rightarrow> list_record list \<Rightarrow> string option \<Rightarrow> crawl_state \<Rightarrow> crawl_state" where
  "entered w g url records found s =
     s\<lparr>cs_seen := cs_seen s @ [url], cs_fetched := cs_fetched s + 1,
       cs_next := next_page w g (cs_page s) records found,
       cs_stop := (if cw_paging (cg_plan g) = ''page'' \<and> records = [] \<and> cw_stop_when_empty (cg_plan g)
                   then ''next_link_exhausted'' else cs_stop s)\<rparr>"

lemma visit_page_cases:
  assumes "visit_page w g index s = Inr (s', flow)"
  obtains (stopped) reason where "s' = s\<lparr>cs_stop := reason\<rparr>" "flow = Leave"
      "cs_next s \<in> {None, Some []} \<and> reason = ''next_link_exhausted'' \<or> \<not> cg_observed g \<or>
       reason \<in> {''coverage_order_unverified'', ''cross_host_blocked''}"
    | (empty) url where "cs_next s = Some url" "url \<notin> set (cs_seen s)" "wb_host w url \<in> set (cw_hosts (cg_plan g))"
      "s' = s\<lparr>cs_seen := cs_seen s @ [url], cs_stop := ''empty_page''\<rparr>" "flow = Leave"
    | (refused) url i where "cs_next s = Some url" "url \<notin> set (cs_seen s)" "wb_host w url \<in> set (cw_hosts (cg_plan g))"
      "cs_seen s' = cs_seen s @ [url]" "cs_details s' = cs_details s" "flow = Refused i"
    | (scanned) url html records found where "cs_next s = Some url" "url \<noteq> []" "url \<notin> set (cs_seen s)"
      "wb_host w url \<in> set (cw_hosts (cg_plan g))" "wb_fetch w url = Inr (Some html)"
      "wb_discover w (wb_final w url) html = Inr (records, found)"
      "scan_page w g (wb_final w url) html records (entered w g url records found s) = Inr (s', flow)"
proof (cases "cs_next s \<in> {None, Some []}")
  case True
  then have "visit_page w g index s = Inr (stop_at ''next_link_exhausted'' s)"
    by (auto simp: visit_page_def)
  with assms True show thesis by (intro stopped) (auto simp: stop_at_def)
next
  case False
  then obtain url where url: "cs_next s = Some url" "url \<noteq> []" by (cases "cs_next s") auto
  show thesis
  proof (cases "url \<in> set (cs_seen s) \<or> wb_host w url \<notin> set (cw_hosts (cg_plan g))")
    case True
    with assms url have "s' = s\<lparr>cs_stop := if url \<notin> set (cs_seen s) then ''cross_host_blocked''
        else if cg_observed g then ''coverage_order_unverified'' else ''next_link_exhausted''\<rparr> \<and> flow = Leave"
      by (auto simp: visit_page_def stop_at_def)
    then show thesis by (intro stopped) (auto split: if_splits)
  next
    case open': False
    then have new: "url \<notin> set (cs_seen s)" "wb_host w url \<in> set (cw_hosts (cg_plan g))" by simp_all
    obtain fetched where f: "wb_fetch w url = Inr fetched"
      using assms url new by (cases "wb_fetch w url") (simp_all add: visit_page_def)
    show thesis
    proof (cases fetched)
      case None
      with assms url new f show thesis by (intro empty) (auto simp: visit_page_def stop_at_def)
    next
      case (Some html)
      let ?final = "wb_final w url"
      have ok: "wb_check w ?final html = None"
        using assms url new f Some by (cases "wb_check w ?final html") (simp_all add: visit_page_def unless_def)
      show thesis
      proof (cases "wb_issue w ?final html")
        case issue: (Some i)
        with assms url new f Some ok show thesis by (intro refused) (auto simp: visit_page_def)
      next
        case clean: None
        obtain records found where d: "wb_discover w ?final html = Inr (records, found)"
          using assms url new f Some ok clean by (cases "wb_discover w ?final html") (auto simp: visit_page_def)
        show thesis
        proof (cases "records = [] \<and> cg_observed g \<and> (index = 0 \<or> \<not> wb_empty_ok w ?final html)")
          case True
          with assms url new f Some ok clean d show thesis by (intro refused) (auto simp: visit_page_def)
        next
          case fine: False
          have "visit_page w g index s = (if records = [] \<and> index = 0 then Inl (NetworkErr ''source_structure_mismatch'')
              else scan_page w g ?final html records (entered w g url records found s))"
            unfolding visit_page_def Let_def entered_def using url new fine
            by (cases "records = []") (auto simp: f Some ok clean d)
          with assms have "scan_page w g ?final html records (entered w g url records found s) = Inr (s', flow)"
            by (simp split: if_splits)
          with f Some show thesis by (intro scanned [OF url new _ d]) simp_all
        qed
      qed
    qed
  qed
qed

lemma seek_anchor_keeps [simp]:
  "cs_seen (seek_anchor rs s) = cs_seen s" "cs_details (seek_anchor rs s) = cs_details s" "cs_next (seek_anchor rs s) = cs_next s"
  "cs_page (seek_anchor rs s) = cs_page s" "cs_resume (seek_anchor rs s) = cs_resume s" "cs_stop (seek_anchor rs s) = cs_stop s"
  "cs_oldest (seek_anchor rs s) = cs_oldest s" "cs_signatures (seek_anchor rs s) = cs_signatures s"
  by (simp_all add: seek_anchor_def Let_def split: option.splits)

lemma close_page_keeps [simp]:
  "cs_seen (fst (close_page w g u h rs sc s)) = cs_seen s" "cs_details (fst (close_page w g u h rs sc s)) = sc_details sc"
  by (simp_all add: close_page_def Let_def stop_at_def)

lemma scan_page_cases:
  assumes "scan_page w g u html rs s0 = Inr (s', flow)"
  obtains (disordered) reason where "cs_seen s' = cs_seen s0" "cs_details s' = cs_details s0" "flow = Leave"
      "cs_stop s' = reason" "reason \<in> {''coverage_date_unknown'', ''coverage_order_unverified''}"
    | (through) sc s1 start where "visit_records w g rs start = Inr sc" "sc_details start = cs_details s0"
      "sc_processed start = (case cs_resume s0 of None \<Rightarrow> [] | Some p \<Rightarrow> cp_processed_urls p)"
      "sc_older start = (rs \<noteq> [] \<and> cg_window g)" "\<not> sc_full start"
      "close_page w g u html rs sc s1 = (s', flow)"
      "s1 = (seek_anchor rs s0)\<lparr>cs_signatures := cs_signatures s1\<rparr>"
      "cg_observed g \<and> rs \<noteq> [] \<longrightarrow> dates_descend rs (wb_date w \<circ> lr_published) = None"
proof -
  define s where "s = seek_anchor rs s0"
  define issue where "issue = (if cg_observed g \<and> rs \<noteq> [] then order_issue w rs s else None)"
  define s1 where "s1 = (if cg_observed g \<and> rs \<noteq> [] then s\<lparr>cs_signatures := cs_signatures s @ [map lr_url rs]\<rparr> else s)"
  define start where "start = \<lparr>sc_details = cs_details s1, sc_processed = (case cs_resume s0 of None \<Rightarrow> [] | Some p \<Rightarrow> cp_processed_urls p),
      sc_anchor = Option.bind (cs_resume s1) cp_anchor_url, sc_older = (rs \<noteq> [] \<and> cg_window g), sc_watermark = cs_watermark s1,
      sc_outside = 0, sc_duplicates = 0, sc_full = False\<rparr>"
  have run: "(case issue of Some reason \<Rightarrow> Inr (stop_at reason s1)
      | None \<Rightarrow> and_then (visit_records w g rs start) (\<lambda>sc. Inr (close_page w g u html rs sc s1))) = Inr (s', flow)"
    using assms unfolding scan_page_def Let_def s_def [symmetric] issue_def [symmetric] s1_def [symmetric] start_def [symmetric] .
  have kept: "cs_seen s1 = cs_seen s0" "cs_details s1 = cs_details s0" by (simp_all add: s1_def s_def)
  show thesis
  proof (cases issue)
    case (Some reason)
    have "reason \<in> {''coverage_date_unknown'', ''coverage_order_unverified''}"
      using Some by (auto simp: issue_def order_issue_def dates_descend_def Let_def split: if_splits)
    with run Some kept show thesis by (intro disordered [of reason]) (auto simp: stop_at_def)
  next
    case None
    obtain sc where sc: "visit_records w g rs start = Inr sc" using run None by (cases "visit_records w g rs start") simp_all
    have "s1 = (seek_anchor rs s0)\<lparr>cs_signatures := cs_signatures s1\<rparr>" by (simp add: s1_def s_def)
    moreover have "cg_observed g \<and> rs \<noteq> [] \<longrightarrow> dates_descend rs (wb_date w \<circ> lr_published) = None"
      using None by (auto simp: issue_def order_issue_def Let_def split: if_splits)
    ultimately show thesis using run None sc kept
      by (intro through [OF sc]) (simp_all add: start_def)
  qed
qed

subsection \<open>Limits of a traversal\<close>

text \<open>Pages seen so far are distinct and of allowed hosts, and what was collected is well formed.\<close>

definition traversal_ok :: "web \<Rightarrow> crawl_settings \<Rightarrow> nat \<Rightarrow> crawl_state \<Rightarrow> bool" where
  "traversal_ok w g n s \<longleftrightarrow> distinct (cs_seen s) \<and> (\<forall>u \<in> set (cs_seen s). wb_host w u \<in> set (cw_hosts (cg_plan g))) \<and>
     length (cs_seen s) \<le> n \<and> details_ok w g (cs_details s)"

lemma visit_page_ok:
  assumes "visit_page w g index s = Inr (s', flow)" and "traversal_ok w g n s"
  shows "traversal_ok w g (Suc n) s'"
  using assms(1)
proof (rule visit_page_cases)
  fix url html records found
  assume new: "url \<notin> set (cs_seen s)" "wb_host w url \<in> set (cw_hosts (cg_plan g))"
    and scan: "scan_page w g (wb_final w url) html records (entered w g url records found s) = Inr (s', flow)"
  have "cs_seen s' = cs_seen s @ [url] \<and> details_ok w g (cs_details s')"
    using scan
  proof (rule scan_page_cases)
    fix sc s1 start
    assume c: "visit_records w g records start = Inr sc" "sc_details start = cs_details (entered w g url records found s)"
      "close_page w g (wb_final w url) html records sc s1 = (s', flow)"
      "s1 = (seek_anchor records (entered w g url records found s))\<lparr>cs_signatures := cs_signatures s1\<rparr>"
    have "cs_seen s1 = cs_seen s @ [url]" by (subst c(4)) (simp add: entered_def)
    moreover have "details_ok w g (sc_details sc)"
      by (rule visit_records_ok [OF c(1)]) (use assms(2) c(2) in \<open>simp add: entered_def traversal_ok_def\<close>)
    ultimately show ?thesis
      using c(3) close_page_keeps [of w g "wb_final w url" html records sc s1] by simp
  qed (use assms(2) in \<open>simp add: entered_def traversal_ok_def\<close>)
  with assms(2) new show ?thesis by (auto simp: traversal_ok_def)
qed (use assms(2) in \<open>auto simp: traversal_ok_def\<close>)

lemma crawl_pages_ok:
  assumes "crawl_pages w g index k s = Inr (s', flow)" and "traversal_ok w g n s"
  shows "traversal_ok w g (n + k) s'"
  using assms
proof (induction k arbitrary: index n s)
  case 0
  then show ?case by simp
next
  case (Suc k)
  obtain s1 f1 where p: "visit_page w g index s = Inr (s1, f1)"
    using Suc.prems(1) by (cases "visit_page w g index s") auto
  note ok = visit_page_ok [OF p Suc.prems(2)]
  show ?case
  proof (cases f1)
    case Onward
    then have "crawl_pages w g (Suc index) k s1 = Inr (s', flow)" using Suc.prems(1) p by simp
    from Suc.IH [OF this ok] show ?thesis by simp
  qed (use Suc.prems(1) p ok in \<open>auto simp: traversal_ok_def\<close>)
qed

text \<open>
  C31. A traversal stays within its limits: it visits at most the page limit of list pages (never
  more than the policy allows), no page twice and only pages of allowed hosts, and it hands on
  at most the item limit of details, each once and only of allowed hosts.
\<close>

theorem crawl_within_limits:
  assumes "settings_of w p pol r = Inr g" and "crawl_list w g None = Inr (s, flow)"
  shows "length (cs_seen s) \<le> min 1000 (nat (pv_max_pages (pol_values pol))) \<and> distinct (cs_seen s) \<and>
    (\<forall>u \<in> set (cs_seen s). wb_host w u \<in> set (cw_hosts p)) \<and>
    length (ls_details (close_list g s)) \<le> min 100000 (nat (pv_max_items (pol_values pol))) \<and>
    distinct (map fst (ls_details (close_list g s))) \<and>
    (\<forall>u \<in> fst ` set (ls_details (close_list g s)). wb_host w u \<in> set (cw_hosts p))"
proof -
  have g: "cg_page_limit g = page_limit p (pol_values pol)" "cg_item_limit g = item_limit p (pol_values pol)" "cg_plan g = p"
    using assms(1) by (auto simp: settings_of_def Let_def split: if_splits)
  have "traversal_ok w g 0 (crawl_start g)" by (simp add: traversal_ok_def crawl_start_def Let_def details_ok_def)
  from crawl_pages_ok [OF _ this] assms(2) have "traversal_ok w g (0 + cg_page_limit g) s" by (simp add: crawl_list_def)
  then show ?thesis
    by (auto simp: traversal_ok_def details_ok_def g close_list_def Let_def page_limit_def item_limit_def take_map [symmetric]
        intro: distinct_take dest!: in_set_takeD)
qed

subsection \<open>Completeness\<close>

text \<open>The listing the site shows: its page URLs in order, and the records of each.\<close>

definition page_content :: "web \<Rightarrow> string \<Rightarrow> list_record list \<times> string option" where
  "page_content w u =
     (case wb_fetch w u of
        Inr (Some html) \<Rightarrow> (case wb_discover w (wb_final w u) html of Inr c \<Rightarrow> c | Inl _ \<Rightarrow> ([], None))
      | _ \<Rightarrow> ([], None))"

fun listing :: "web \<Rightarrow> crawl_settings \<Rightarrow> nat \<Rightarrow> string option" where
  "listing w g 0 = (if cw_entry (cg_plan g) = [] then None else Some (cw_entry (cg_plan g)))"
| "listing w g (Suc k) =
     (case listing w g k of
        None \<Rightarrow> None
      | Some u \<Rightarrow>
          (case next_page w g (int k) (fst (page_content w u)) (snd (page_content w u)) of
             None \<Rightarrow> None | Some v \<Rightarrow> if v = [] then None else Some v))"

definition listed :: "web \<Rightarrow> crawl_settings \<Rightarrow> nat \<Rightarrow> list_record list" where
  "listed w g k = (case listing w g k of None \<Rightarrow> [] | Some u \<Rightarrow> fst (page_content w u))"

lemma listing_ends: "listing w g n = None \<Longrightarrow> n \<le> k \<Longrightarrow> listing w g k = None"
proof (induction k)
  case (Suc k)
  then show ?case by (cases "n \<le> k") (auto simp: le_Suc_eq)
qed auto

definition all_older :: "web \<Rightarrow> crawl_settings \<Rightarrow> list_record list \<Rightarrow> bool" where
  "all_older w g rs \<longleftrightarrow> rs \<noteq> [] \<and> (\<forall>r \<in> set rs. older_record w g r)"

text \<open>What a fresh observing traversal has established after \<open>n\<close> pages.\<close>

definition covered :: "web \<Rightarrow> crawl_settings \<Rightarrow> nat \<Rightarrow> crawl_state \<Rightarrow> bool" where
  "covered w g n s \<longleftrightarrow>
     (\<forall>k < n. \<forall>r \<in> set (listed w g k). older_record w g r \<or> lr_url r \<in> fst ` set (cs_details s)) \<and>
     length (cs_details s) \<le> cg_item_limit g \<and> cs_resume s = None \<and> cs_seeking s = None \<and> cs_page s = int n \<and>
     (0 < cs_older s \<longrightarrow> 0 < n \<and> all_older w g (listed w g (n - 1)))"

definition next_of :: "crawl_state \<Rightarrow> string option" where
  "next_of s = (case cs_next s of None \<Rightarrow> None | Some u \<Rightarrow> if u = [] then None else Some u)"

definition on_track :: "web \<Rightarrow> crawl_settings \<Rightarrow> nat \<Rightarrow> crawl_state \<Rightarrow> bool" where
  "on_track w g n s \<longleftrightarrow> covered w g n s \<and> next_of s = listing w g n \<and> cs_stop s \<notin> set complete_stops"

text \<open>The traversal ended completely: at the end of the listing, or below the window.\<close>

definition concluded :: "web \<Rightarrow> crawl_settings \<Rightarrow> crawl_state \<Rightarrow> bool" where
  "concluded w g s \<longleftrightarrow> (\<exists>n. covered w g n s \<and> (listing w g n = None \<or> (0 < n \<and> all_older w g (listed w g (n - 1)))))"

lemma covered_cong:
  "cs_details s' = cs_details s \<Longrightarrow> cs_resume s' = cs_resume s \<Longrightarrow> cs_seeking s' = cs_seeking s \<Longrightarrow>
   cs_page s' = cs_page s \<Longrightarrow> cs_older s' = cs_older s \<Longrightarrow> covered w g n s' = covered w g n s"
  by (simp add: covered_def)

lemma page_sorted:
  assumes "rs \<noteq> [] \<longrightarrow> dates_descend rs (wb_date w \<circ> lr_published) = None"
  shows "sorted_wrt (\<lambda>r q. the (record_day w q) \<le> the (record_day w r)) rs" "\<forall>r \<in> set rs. record_day w r \<noteq> None"
proof (atomize(full), cases "rs = []")
  case True
  then show "sorted_wrt (\<lambda>r q. the (record_day w q) \<le> the (record_day w r)) rs \<and> (\<forall>r \<in> set rs. record_day w r \<noteq> None)" by simp
next
  case False
  then have "dates_descend rs (wb_date w \<circ> lr_published) = None" using assms by simp
  then have none: "None \<notin> set (map (wb_date w \<circ> lr_published) rs)"
    and sorted: "sorted_wrt (\<lambda>r q. the ((wb_date w \<circ> lr_published) q) \<le> the ((wb_date w \<circ> lr_published) r)) rs"
    unfolding dates_descend_exact by (auto split: if_splits)
  have "record_day w r \<noteq> None" if "r \<in> set rs" for r
  proof
    assume "record_day w r = None"
    with that have "None \<in> set (map (wb_date w \<circ> lr_published) rs)" by (force simp: record_day_def)
    with none show False by simp
  qed
  with sorted show "sorted_wrt (\<lambda>r q. the (record_day w q) \<le> the (record_day w r)) rs \<and> (\<forall>r \<in> set rs. record_day w r \<noteq> None)"
    by (simp add: record_day_def)
qed

text \<open>The end of a page that was gone through.\<close>

lemma close_page_track:
  assumes close: "close_page w g u html rs sc s1 = (s', flow)" and full: "\<not> sc_full sc"
    and cov: "\<forall>k < Suc n. \<forall>r \<in> set (listed w g k). older_record w g r \<or> lr_url r \<in> fst ` set (sc_details sc)"
    and room: "length (sc_details sc) \<le> cg_item_limit g"
    and s1: "cs_resume s1 = None" "cs_seeking s1 = None" "cs_page s1 = int n"
    and older: "sc_older sc \<longrightarrow> all_older w g (listed w g n)"
    and nxt: "next_of s1 = listing w g (Suc n)" and stop: "cs_stop s1 \<in> set complete_stops \<longrightarrow> next_of s1 = None"
    and req: "1 \<le> cg_required_older g"
  shows "(flow = Onward \<longrightarrow> on_track w g (Suc n) s') \<and> (flow = Leave \<longrightarrow> cs_stop s' \<in> set complete_stops \<longrightarrow> concluded w g s')"
proof -
  let ?older = "if sc_older sc then cs_older s1 + 1 else 0"
  have notfull: "(if sc_full sc then ''max_items'' else cs_stop s1) = cs_stop s1" using full by simp
  have next': "cs_next s1 = None \<or> cs_next s1 = Some [] \<longleftrightarrow> next_of s1 = None" by (auto simp: next_of_def split: option.splits)
  show ?thesis
  proof (cases "cs_stop s1 = ''max_items''")
    case True
    then show ?thesis
      using close by (auto simp: close_page_def Let_def full complete_stops_def)
  next
    case False
    have s': "cs_details s' = sc_details sc" "cs_resume s' = None" "cs_seeking s' = None" "cs_page s' = int (Suc n)"
      "cs_older s' = ?older" "cs_next s' = cs_next s1"
      using close False s1 by (auto simp: close_page_def Let_def full stop_at_def seeking_def split: if_splits)
    have cov': "covered w g (Suc n) s'" using cov room older s' by (auto simp: covered_def)
    show ?thesis
    proof (cases "cg_required_older g \<le> ?older")
      case True
      then have "sc_older sc" using req by (auto split: if_splits)
      then have "concluded w g s'" using cov' older by (auto simp: concluded_def)
      then show ?thesis using close False True by (auto simp: close_page_def Let_def full stop_at_def split: if_splits)
    next
      case below: False
      show ?thesis
      proof (cases "next_of s1 = None")
        case True
        then have "concluded w g s'" using cov' nxt by (auto simp: concluded_def)
        then show ?thesis using close False below True next' by (auto simp: close_page_def Let_def full stop_at_def)
      next
        case more: False
        then have "flow = Onward" "cs_stop s' = cs_stop s1"
          using close False below next' by (auto simp: close_page_def Let_def full)
        moreover have "next_of s' = next_of s1" using s'(6) by (simp add: next_of_def)
        ultimately show ?thesis using cov' more nxt stop by (auto simp: on_track_def)
      qed
    qed
  qed
qed

lemma visit_page_track:
  assumes visit: "visit_page w g index s = Inr (s', flow)" and track: "on_track w g n s"
    and obs: "cg_observed g" "cg_window g" and req: "1 \<le> cg_required_older g"
  shows "(flow = Onward \<longrightarrow> on_track w g (Suc n) s') \<and> (flow = Leave \<longrightarrow> cs_stop s' \<in> set complete_stops \<longrightarrow> concluded w g s')"
  using visit
proof (rule visit_page_cases)
  fix reason
  assume s': "s' = s\<lparr>cs_stop := reason\<rparr>" "flow = Leave"
    and why: "cs_next s \<in> {None, Some []} \<and> reason = ''next_link_exhausted'' \<or> \<not> cg_observed g \<or>
       reason \<in> {''coverage_order_unverified'', ''cross_host_blocked''}"
  have "concluded w g s'" if "reason \<in> set complete_stops"
  proof -
    have "cs_next s \<in> {None, Some []}" using why obs(1) that by (auto simp: complete_stops_def)
    then have "listing w g n = None" using track by (auto simp: on_track_def next_of_def)
    moreover have "covered w g n s'" using track covered_cong [of s' s w g n] by (simp add: s' on_track_def)
    ultimately show ?thesis by (auto simp: concluded_def)
  qed
  then show ?thesis by (simp add: s')
next
  fix url html records found
  assume url: "cs_next s = Some url" "url \<noteq> []" and fetch: "wb_fetch w url = Inr (Some html)"
    "wb_discover w (wb_final w url) html = Inr (records, found)"
    and scan: "scan_page w g (wb_final w url) html records (entered w g url records found s) = Inr (s', flow)"
  have here: "listing w g n = Some url" using track url by (simp add: on_track_def next_of_def)
  have content: "page_content w url = (records, found)" by (simp add: page_content_def fetch)
  have listed: "listed w g n = records" by (simp add: listed_def here content)
  note cov = track [unfolded on_track_def covered_def]
  note before' = cov [THEN conjunct1, THEN conjunct1]
  show ?thesis
    using scan
  proof (rule scan_page_cases)
    fix sc s1 start
    assume c: "visit_records w g records start = Inr sc" "sc_details start = cs_details (entered w g url records found s)"
      "sc_processed start = (case cs_resume (entered w g url records found s) of None \<Rightarrow> [] | Some p \<Rightarrow> cp_processed_urls p)"
      "sc_older start = (records \<noteq> [] \<and> cg_window g)"
      "close_page w g (wb_final w url) html records sc s1 = (s', flow)"
      and s1: "s1 = (seek_anchor records (entered w g url records found s))\<lparr>cs_signatures := cs_signatures s1\<rparr>"
      and dates: "cg_observed g \<and> records \<noteq> [] \<longrightarrow> dates_descend records (wb_date w \<circ> lr_published) = None"
    have noseek: "seek_anchor records (entered w g url records found s) = entered w g url records found s"
      using cov by (simp add: seek_anchor_def entered_def)
    obtain sg where s1': "s1 = (entered w g url records found s)\<lparr>cs_signatures := sg\<rparr>" using s1 noseek by metis
    show ?thesis
    proof (cases "sc_full sc")
      case True
      then show ?thesis using c(5) by (auto simp: close_page_def Let_def complete_stops_def)
    next
      case False
      have dates': "records \<noteq> [] \<longrightarrow> dates_descend records (wb_date w \<circ> lr_published) = None" using dates obs by simp
      have start: "sc_details start = cs_details s" "sc_processed start = []" using c(2,3) cov by (simp_all add: entered_def)
      have "(\<forall>r \<in> set ([] @ records). older_record w g r \<or> lr_url r \<in> fst ` set (sc_details sc)) \<and>
          fst ` set (sc_details start) \<subseteq> fst ` set (sc_details sc) \<and> length (sc_details sc) \<le> cg_item_limit g \<and>
          (sc_older sc \<longrightarrow> sc_older start \<and> (\<forall>r \<in> set records. older_record w g r))"
        by (rule visit_records_cover [OF c(1) False obs(1)]) (use page_sorted [OF dates'] start cov in simp_all)
      note cover = this [unfolded append_Nil start(1) c(4)]
      show ?thesis
      proof (rule close_page_track [OF c(5) False])
        show "\<forall>k < Suc n. \<forall>r \<in> set (listed w g k). older_record w g r \<or> lr_url r \<in> fst ` set (sc_details sc)"
        proof (intro allI impI ballI)
          fix k r assume k: "k < Suc n" and r: "r \<in> set (listed w g k)"
          show "older_record w g r \<or> lr_url r \<in> fst ` set (sc_details sc)"
          proof (cases "k = n")
            case True
            then have "r \<in> set records" using r listed by simp
            then show ?thesis using cover [THEN conjunct1] by blast
          next
            case False
            then have "k < n" using k by simp
            then have "older_record w g r \<or> lr_url r \<in> fst ` set (cs_details s)" using before' r by blast
            then show ?thesis using cover [THEN conjunct2, THEN conjunct1] by blast
          qed
        qed
        show "length (sc_details sc) \<le> cg_item_limit g" using cover by blast
        show "cs_resume s1 = None" "cs_seeking s1 = None" "cs_page s1 = int n"
          using cov by (simp_all add: s1' entered_def)
        show "sc_older sc \<longrightarrow> all_older w g (listed w g n)" using cover listed by (auto simp: all_older_def)
        show nxt: "next_of s1 = listing w g (Suc n)"
          using cov by (simp add: next_of_def s1' entered_def here content)
        show "cs_stop s1 \<in> set complete_stops \<longrightarrow> next_of s1 = None"
          using track by (auto simp: next_of_def s1' entered_def on_track_def next_page_def)
        show "1 \<le> cg_required_older g" by (rule req)
      qed
    qed
  qed (auto simp: complete_stops_def)
qed (auto simp: complete_stops_def)

lemma crawl_pages_track:
  assumes "crawl_pages w g index k s = Inr (s', flow)" and "on_track w g n s"
    and "cg_observed g" "cg_window g" "1 \<le> cg_required_older g" and "\<forall>i. flow \<noteq> Refused i"
    and "cs_stop s' \<in> set complete_stops"
  shows "concluded w g s'"
  using assms
proof (induction k arbitrary: index n s)
  case 0
  then show ?case by (simp add: on_track_def)
next
  case (Suc k)
  obtain s1 f1 where p: "visit_page w g index s = Inr (s1, f1)"
    using Suc.prems(1) by (cases "visit_page w g index s") auto
  note step = visit_page_track [OF p Suc.prems(2-5)]
  show ?case
  proof (cases f1)
    case Onward
    then have rest: "crawl_pages w g (Suc index) k s1 = Inr (s', flow)" using Suc.prems(1) p by simp
    show ?thesis by (rule Suc.IH [OF rest _ Suc.prems(3-7)]) (use step Onward in simp_all)
  next
    case Leave
    then show ?thesis using Suc.prems(1,7) p step by simp
  next
    case (Refused j)
    then show ?thesis using Suc.prems(1,6) p by auto
  qed
qed

text \<open>The items a result holds for a URL.\<close>

definition made_from :: "web \<Rightarrow> string \<Rightarrow> item \<Rightarrow> bool" where
  "made_from w u i \<longleftrightarrow> (\<exists>html n r reason. wb_item w u html n (Some r) = Inr (i, reason))"

lemma detail_item_made:
  assumes "detail_item w n u html (Some r) = Inr i"
  shows "made_from w u i"
proof -
  obtain i0 reason where i0: "wb_item w u html n (Some r) = Inr (i0, reason)"
    using assms by (cases "wb_item w u html n (Some r)") (auto simp: detail_item_def)
  show ?thesis
  proof (cases "reason = Some title_mismatch")
    case False
    then have "i = i0" using assms i0 by (simp add: detail_item_def)
    with i0 show ?thesis unfolding made_from_def by blast
  next
    case True
    obtain again where again: "wb_again w u = Inr again"
      using assms i0 True by (cases "wb_again w u") (simp_all add: detail_item_def)
    show ?thesis
    proof (cases again)
      case None
      then have "i = i0" using assms i0 True again by (simp add: detail_item_def)
      with i0 show ?thesis unfolding made_from_def by blast
    next
      case (Some html')
      obtain i1 reason1 where i1: "wb_item w u html' n (Some r) = Inr (i1, reason1)"
        using assms i0 True again Some by (cases "wb_item w u html' n (Some r)") (auto simp: detail_item_def)
      have "i = (if reason1 \<noteq> Some title_mismatch then i1 else i0)" using assms i0 True again Some i1 by (simp add: detail_item_def)
      with i0 i1 show ?thesis unfolding made_from_def by (cases "reason1 = Some title_mismatch") auto
    qed
  qed
qed

lemma detail_items_made:
  assumes "detail_items w n pages = Inr items" and "(u, html, Some r) \<in> set pages"
  shows "\<exists>i \<in> set items. made_from w u i"
  using assms
proof (induction pages arbitrary: n items)
  case (Cons p pages)
  obtain u' html' r' where p: "p = (u', html', r')" by (cases p)
  obtain i where i: "detail_item w n u' html' r' = Inr i"
    using Cons.prems(1) p by (cases "detail_item w n u' html' r'") simp_all
  obtain rest where rest: "detail_items w (Suc n) pages = Inr rest"
    using Cons.prems(1) p i by (cases "detail_items w (Suc n) pages") simp_all
  have items: "items = i # rest" using Cons.prems(1) p i rest by simp
  show ?case
  proof (cases "(u, html, Some r) \<in> set pages")
    case True
    then show ?thesis using Cons.IH [OF rest] items by auto
  next
    case False
    then have "u' = u" "r' = Some r" "html' = html" using Cons.prems(2) p by simp_all
    then show ?thesis using detail_item_made i items by auto
  qed
qed simp

lemma complete_list_run:
  assumes "list_run w g None = Inr res" and "rs_complete res" and "cg_prior g = None" and "1 \<le> cg_required_older g"
    and "cg_window g"
  obtains s where "concluded w g s" "\<forall>u \<in> fst ` set (take (cg_item_limit g) (cs_details s)). \<exists>i \<in> set (rs_items res). made_from w u i"
proof -
  obtain s flow where run: "crawl_pages w g 0 (cg_page_limit g) (crawl_start g) = Inr (s, flow)"
    using assms(1) by (cases "crawl_pages w g 0 (cg_page_limit g) (crawl_start g)") (auto simp: list_run_def crawl_list_def)
  have nref: "\<forall>i. flow \<noteq> Refused i"
    using assms(1,2) run by (auto simp: list_run_def crawl_list_def bare_result_def)
  define ls where "ls = close_list g s"
  define urls where "urls = map fst (ls_details ls)"
  obtain pages where pages: "wb_details w urls = Inr pages"
    using assms(1) run nref by (cases "wb_details w urls")
      (auto simp: list_run_def crawl_list_def ls_def urls_def Let_def split: page_flow.splits)
  define got where "got = filter (\<lambda>(u, r). pages u \<noteq> None) (ls_details ls)"
  obtain items where items: "detail_items w 1 (map (\<lambda>(u, r). (u, the (pages u), Some r)) got) = Inr items"
    using assms(1) run nref pages by (cases "detail_items w 1 (map (\<lambda>(u, r). (u, the (pages u), Some r)) got)")
      (auto simp: list_run_def crawl_list_def ls_def urls_def got_def Let_def split: page_flow.splits)
  have res: "rs_items res = items" "rs_complete res \<longleftrightarrow> length urls - length got = 0 \<and> ls_complete ls"
    using assms(1) run nref pages items
    by (auto simp: list_run_def crawl_list_def ls_def urls_def got_def Let_def bare_result_def split: page_flow.splits)
  have complete: "ls_complete ls" "length (ls_details ls) \<le> length got" using res(2) assms(2) by (simp_all add: urls_def)
  have "got = ls_details ls"
    using complete(2) length_filter_less [of _ "ls_details ls" "\<lambda>(u, r). pages u \<noteq> None"]
    by (metis (mono_tags, lifting) filter_True got_def linorder_not_less)
  then have made: "\<forall>u \<in> fst ` set (ls_details ls). \<exists>i \<in> set (rs_items res). made_from w u i"
    using detail_items_made [OF items] res(1) by force
  have obs: "cg_observed g" "cs_stop s \<in> set complete_stops"
    using complete(1) by (auto simp: ls_def close_list_def Let_def complete_stops_def split: if_splits)
  have start: "on_track w g 0 (crawl_start g)"
    using assms(3) by (auto simp: on_track_def covered_def crawl_start_def Let_def next_of_def complete_stops_def)
  have "concluded w g s" by (rule crawl_pages_track [OF run start obs(1) assms(5,4) nref obs(2)])
  with made show thesis by (intro that) (simp_all add: ls_def close_list_def Let_def)
qed

text \<open>
  C3. A complete traversal misses nothing: when a fresh observing run reports its coverage
  complete, and the listing of the site descends in time from page to page, then every record
  of the whole listing that is dated inside the window, also on pages the run did not open,
  has an item in the result. Only then the checkpoint advances.
\<close>

theorem complete_crawl_misses_nothing:
  assumes "settings_of w p pol r = Inr g" and "list_run w g None = Inr res" and "rs_complete res"
    and "cg_prior g = None" and "1 \<le> pv_consecutive_older_pages (pol_values pol)"
    and "\<forall>j k x y a b. j < k \<longrightarrow> x \<in> set (listed w g j) \<longrightarrow> y \<in> set (listed w g k) \<longrightarrow>
           record_day w x = Some a \<longrightarrow> record_day w y = Some b \<longrightarrow> b \<le> a"
    and "x \<in> set (listed w g k)" and "record_day w x = Some d" and "cg_window_start g \<le> d"
  shows "\<exists>i \<in> set (rs_items res). made_from w (lr_url x) i"
proof -
  have req: "1 \<le> cg_required_older g"
    using assms(1,5) by (auto simp: settings_of_def Let_def split: if_splits)
  have obs: "cg_observed g"
    using assms(2,3) by (auto simp: list_run_def close_list_def Let_def bare_result_def and_then_def
        split: page_flow.splits sum.splits prod.splits if_splits)
  then have win: "cg_window g" using assms(1) by (auto simp: settings_of_def Let_def split: if_splits)
  obtain s where s: "concluded w g s"
    "\<forall>u \<in> fst ` set (take (cg_item_limit g) (cs_details s)). \<exists>i \<in> set (rs_items res). made_from w u i"
    by (rule complete_list_run [OF assms(2-4) req win])
  obtain n where n: "covered w g n s" "listing w g n = None \<or> (0 < n \<and> all_older w g (listed w g (n - 1)))"
    using s(1) by (auto simp: concluded_def)
  have young: "\<not> older_record w g x" using assms(8,9) by (auto simp: older_record_def)
  have "k < n"
  proof (rule ccontr)
    assume not: "\<not> k < n"
    have "listing w g k \<noteq> None" using assms(7) by (cases "listing w g k") (simp_all add: listed_def)
    then have "listing w g n \<noteq> None" using listing_ends [of w g n k] not by (cases "listing w g n") simp_all
    then have old: "0 < n" "all_older w g (listed w g (n - 1))" using n(2) by auto
    then obtain y where y: "y \<in> set (listed w g (n - 1))" "older_record w g y"
      unfolding all_older_def by (metis list.set_intros(1) neq_Nil_conv)
    then obtain a where a: "record_day w y = Some a" "a < cg_window_start g" by (auto simp: older_record_def)
    have "n - 1 < k" using not old(1) by simp
    with assms(6-8) y(1) a(1) have "d \<le> a" by blast
    with a(2) assms(9) show False by simp
  qed
  then have found: "lr_url x \<in> fst ` set (cs_details s)" using n(1) assms(7) young unfolding covered_def by blast
  have all: "take (cg_item_limit g) (cs_details s) = cs_details s" using n(1) by (simp add: covered_def)
  from s(2) [unfolded all] found show ?thesis by blast
qed

subsection \<open>A concrete crawl\<close>

definition example_record :: "string \<Rightarrow> string \<Rightarrow> list_record" where
  "example_record u d = \<lparr>lr_url = u, lr_published = Some d, lr_fields = []\<rparr>"

definition example_pages :: "string \<Rightarrow> list_record list \<times> string option" where
  "example_pages u =
     (if u = ''p1'' then ([example_record ''a'' ''10''], Some ''p2'')
      else if u = ''p2'' then ([example_record ''b'' ''3''], Some ''p3'')
      else if u = ''p3'' then ([example_record ''c'' ''1''], None) else ([], None))"

definition example_days :: "string option \<Rightarrow> int option" where
  "example_days t = map_of [(Some ''10'', 10), (Some ''2024-01-01'', 5), (Some ''3'', 3), (Some ''1'', 1)] t"

definition example_web :: web where
  "example_web = \<lparr>wb_fetch = (\<lambda>u. Inr (Some u)), wb_final = (\<lambda>u. u), wb_check = (\<lambda>_ _. None), wb_issue = (\<lambda>_ _. None),
     wb_empty_ok = (\<lambda>_ _. False), wb_discover = (\<lambda>u _. Inr (example_pages u)), wb_host = (\<lambda>_. ''a.test''),
     wb_date = example_days, wb_date_text = (\<lambda>d. if d = 10 then ''10'' else ''1''), wb_page_url = (\<lambda>_. []), wb_truncated = (\<lambda>_ _ _ _. False),
     wb_details = (\<lambda>_. Inr (\<lambda>u. Some u)), wb_again = (\<lambda>_. Inr None),
     wb_item = (\<lambda>u html n r. Inr (example_item u u ''2024-01-10 10:00'' ''accepted'', None))\<rparr>"

definition example_plan :: crawl_plan where
  "example_plan = \<lparr>cw_single = False, cw_entry = ''p1'', cw_hosts = [''a.test''], cw_paging = ''next_link'', cw_stop_when_empty = True,
     cw_paging_pages = 3, cw_budget_pages = 3, cw_budget_items = 50, cw_dated = True\<rparr>"

definition observing_policy :: policy where
  "observing_policy = example_policy\<lparr>pol_values := (pol_values example_policy)\<lparr>pv_consecutive_older_pages := 1\<rparr>\<rparr>"

definition fresh_run :: run where
  "fresh_run = example_seed_run\<lparr>run_coverage_before := None\<rparr>"

definition example_settings :: crawl_settings where
  "example_settings = \<lparr>cg_observed = True, cg_window = True, cg_window_start = 5, cg_page_limit = 3, cg_item_limit = 50,
     cg_required_older = 1, cg_prior = None, cg_run = fresh_run, cg_policy = observing_policy, cg_plan = example_plan\<rparr>"

lemma example_settings_of: "settings_of example_web example_plan observing_policy fresh_run = Inr example_settings"
  by (simp add: settings_of_def example_settings_def observed_policy_def retry_run_def observing_policy_def fresh_run_def
      example_seed_run_def example_policy_def default_policy_def example_web_def example_days_def example_plan_def Let_def
      page_limit_def item_limit_def)

lemma example_listed:
  "listed example_web example_settings k =
     (if k = 0 then [example_record ''a'' ''10''] else if k = 1 then [example_record ''b'' ''3'']
      else if k = 2 then [example_record ''c'' ''1''] else [])"
proof -
  have l: "listing example_web example_settings 0 = Some ''p1''" "listing example_web example_settings 1 = Some ''p2''"
    "listing example_web example_settings 2 = Some ''p3''" "listing example_web example_settings 3 = None" by code_simp+
  have c: "page_content example_web u = example_pages u" for u
    by (simp add: page_content_def example_web_def)
  have "listing example_web example_settings k = None" if "3 \<le> k" by (rule listing_ends [OF l(4) that])
  moreover have "k = 0 \<or> k = 1 \<or> k = 2 \<or> 3 \<le> k" by linarith
  ultimately show ?thesis using l by (auto simp: listed_def c example_pages_def)
qed

theorem crawl_within_limits_witness:
  "\<exists>s flow. crawl_list example_web example_settings None = Inr (s, flow) \<and> length (cs_seen s) \<le> 3"
proof -
  have "case crawl_list example_web example_settings None of Inl _ \<Rightarrow> False | Inr _ \<Rightarrow> True" by code_simp
  then obtain s flow where run: "crawl_list example_web example_settings None = Inr (s, flow)"
    by (cases "crawl_list example_web example_settings None") auto
  have "nat (pv_max_pages (pol_values observing_policy)) = 3" by (simp add: observing_policy_def example_policy_def default_policy_def)
  with crawl_within_limits [OF example_settings_of run] run show ?thesis by auto
qed

theorem complete_crawl_misses_nothing_witness:
  "\<exists>res. list_run example_web example_settings None = Inr res \<and> rs_complete res \<and>
     (\<exists>i \<in> set (rs_items res). made_from example_web ''a'' i)"
proof -
  have "case list_run example_web example_settings None of Inl _ \<Rightarrow> False | Inr res \<Rightarrow> rs_complete res" by code_simp
  then obtain res where run: "list_run example_web example_settings None = Inr res" "rs_complete res"
    by (cases "list_run example_web example_settings None") auto
  have prior: "cg_prior example_settings = None" by (simp add: example_settings_def)
  have req: "1 \<le> pv_consecutive_older_pages (pol_values observing_policy)" by (simp add: observing_policy_def)
  have day: "record_day example_web (example_record u t) = example_days (Some t)" for u t
    by (simp add: record_day_def example_web_def example_record_def)
  have desc: "\<forall>j k x y a b. j < k \<longrightarrow> x \<in> set (listed example_web example_settings j) \<longrightarrow>
      y \<in> set (listed example_web example_settings k) \<longrightarrow> record_day example_web x = Some a \<longrightarrow>
      record_day example_web y = Some b \<longrightarrow> b \<le> a"
    unfolding example_listed by (auto simp: day example_days_def split: if_splits)
  have x: "example_record ''a'' ''10'' \<in> set (listed example_web example_settings 0)" by (simp add: example_listed)
  have d: "record_day example_web (example_record ''a'' ''10'') = Some 10" by (simp add: day example_days_def)
  have "cg_window_start example_settings \<le> 10" by (simp add: example_settings_def)
  from complete_crawl_misses_nothing [OF example_settings_of run prior req desc x d this] run show ?thesis
    by (auto simp: example_record_def)
qed

end
