(* ===== verification/Integrity.thy ===== *)
theory Integrity
  imports Execution
begin

text \<open>
  Rule integrity (\<open>integrity.py\<close>): the digest of a compiled specification, its attestation and
  the verification every run starts with. The cryptography is the argument \<open>crypto\<close>: RFC 8785
  text (\<open>None\<close> when a value has none), SHA-256 in hexadecimal, signing with the configured key,
  verification of a signature under a public key (decoding included) and the two JSON schemas.
  Instants stand for their ISO texts in the signed documents.
\<close>

record crypto =
  cy_canon :: "json \<Rightarrow> string option"
  cy_sha :: "string \<Rightarrow> string"
  cy_sign :: "string \<Rightarrow> string"
  cy_verify :: "string \<Rightarrow> string \<Rightarrow> string \<Rightarrow> bool"
  cy_spec_ok :: "json \<Rightarrow> bool"
  cy_attestation_ok :: "json \<Rightarrow> bool"
  cy_key :: string
  cy_pem :: string

abbreviation invalid_attestation :: py_exc where
  "invalid_attestation \<equiv> IntegrityErr ''RULE_ATTESTATION_INVALID''"

definition canonical_bytes :: "crypto \<Rightarrow> json \<Rightarrow> py_exc + string" where
  "canonical_bytes cy v = (case cy_canon cy v of None \<Rightarrow> Inl (IntegrityErr ''CANONICALIZATION_FAILED'') | Some t \<Rightarrow> Inr t)"

definition digest_value :: "crypto \<Rightarrow> json \<Rightarrow> py_exc + string" where
  "digest_value cy v = and_then (canonical_bytes cy v) (\<lambda>t. Inr (sha256_tag (cy_sha cy t)))"

definition without_key :: "string \<Rightarrow> (string \<times> json) list \<Rightarrow> (string \<times> json) list" where
  "without_key k kvs = filter (\<lambda>(k', _). k' \<noteq> k) kvs"

definition calculate_rule_digest :: "crypto \<Rightarrow> json \<Rightarrow> py_exc + string" where
  "calculate_rule_digest cy spec = digest_value cy (JObj (without_key ''integrity'' (obj_of spec)))"

definition spec_digest :: "json \<Rightarrow> json" where
  "spec_digest spec = jget ''ruleDigest'' (obj_of (jget ''integrity'' (obj_of spec)))"

definition spec_version_id :: "json \<Rightarrow> json" where
  "spec_version_id spec = jget ''ruleVersionId'' (obj_of spec)"

text \<open>The specification with its id and digest written into it.\<close>

definition finalize_rule_spec :: "crypto \<Rightarrow> json \<Rightarrow> string \<Rightarrow> py_exc + json \<times> string" where
  "finalize_rule_spec cy spec rid =
     (let named = dict_set ''ruleVersionId'' (JStr rid) (obj_of spec)
      in and_then (calculate_rule_digest cy (JObj named)) (\<lambda>d.
           case jget ''integrity'' named of
             JObj kvs \<Rightarrow> Inr (JObj (dict_set ''integrity'' (JObj (dict_set ''ruleDigest'' (JStr d) kvs)) named), d)
           | _ \<Rightarrow> Inl (KeyErr ''integrity'')))"

subsection \<open>Attestations\<close>

text \<open>The document of an attestation without its signature.\<close>

definition attestation_body :: "attestation \<Rightarrow> (string \<times> json) list" where
  "attestation_body a =
     [(''schemaVersion'', JStr ''extrio.rule-attestation.v1''), (''attestationId'', JStr (at_id a)), (''tenantId'', JStr (at_tenant a)),
      (''ruleVersionId'', JStr (at_rule_version a)), (''ruleDigest'', JStr (at_rule_digest a)), (''approval'', at_approval a),
      (''purpose'', JStr ''extrio-rule-publish-v1''), (''keyId'', JStr (at_key_id a)), (''algorithm'', JStr (at_algorithm a)),
      (''signedAt'', JNum (at_signed_at a))] @
     (case at_expires a of None \<Rightarrow> [] | Some t \<Rightarrow> [(''expiresAt'', JNum t)])"

definition attestation_json :: "attestation \<Rightarrow> json" where
  "attestation_json a = JObj (attestation_body a @ [(''signature'', JStr (at_signature a))])"

definition attestation_domain :: string where
  "attestation_domain = ''extrio.rule-attestation.v1'' @ [CHR 0x0A]"

definition attestation_signing_bytes :: "crypto \<Rightarrow> attestation \<Rightarrow> py_exc + string" where
  "attestation_signing_bytes cy a =
     and_then (canonical_bytes cy (JObj (attestation_body a))) (\<lambda>t. Inr (attestation_domain @ t))"

definition verify_attestation_signature :: "crypto \<Rightarrow> attestation \<Rightarrow> string \<Rightarrow> py_exc option" where
  "verify_attestation_signature cy a pem =
     (case attestation_signing_bytes cy a of
        Inl e \<Rightarrow> Some e
      | Inr payload \<Rightarrow> if cy_verify cy pem (at_signature a) payload then None else Some invalid_attestation)"

definition approval_json :: "string \<Rightarrow> string \<Rightarrow> ts \<Rightarrow> string \<Rightarrow> string \<Rightarrow> json" where
  "approval_json decision_id reviewer at policy_digest evidence_digest =
     JObj [(''decisionId'', JStr decision_id), (''decision'', JStr ''approved''), (''submitterSubjectId'', JStr reviewer),
       (''reviewerSubjectIds'', JArr [JStr reviewer]), (''approvedAt'', JNum at), (''reviewPolicyDigest'', JStr policy_digest),
       (''evidenceDigest'', JStr evidence_digest)]"

definition review_policy :: json where
  "review_policy = JObj [(''policy'', JStr ''manual_rule_review_v1''), (''requiredRoles'', JArr [JStr ''RuleReviewer'']),
     (''minimumReviewers'', JNum 1)]"

text \<open>\<open>did\<close> and \<open>aid\<close> are the fresh ids of the decision and the attestation. The spec comes back finalized.\<close>

definition build_rule_attestation ::
  "crypto \<Rightarrow> json \<Rightarrow> string \<Rightarrow> json \<Rightarrow> string \<Rightarrow> string \<Rightarrow> string \<Rightarrow> string \<Rightarrow> ts \<Rightarrow> py_exc + json \<times> attestation" where
  "build_rule_attestation cy spec rid decisions tenant reviewer did aid now =
     and_then (finalize_rule_spec cy spec rid) (\<lambda>(spec', d).
     and_then (digest_value cy review_policy) (\<lambda>policy.
     and_then (digest_value cy (JObj [(''reviewDecisions'', decisions), (''ruleDigest'', JStr d)])) (\<lambda>evidence.
     let a = \<lparr>at_id = aid, at_tenant = tenant, at_rule_version = rid, at_rule_digest = d,
              at_approval = approval_json did reviewer now policy evidence, at_key_id = cy_key cy, at_algorithm = ''Ed25519'',
              at_signed_at = now, at_expires = None, at_signature = []\<rparr>
     in and_then (attestation_signing_bytes cy a) (\<lambda>payload.
          let signed = a\<lparr>at_signature := cy_sign cy payload\<rparr>
          in if cy_attestation_ok cy (attestation_json signed) then Inr (spec', signed)
             else Inl (ValueErr ''attestation schema'')))))"

text \<open>The checks of a specification against its attestation and key, in the order of the code.\<close>

definition verify_rule_attestation ::
  "crypto \<Rightarrow> json \<Rightarrow> attestation \<Rightarrow> signing_key \<Rightarrow> string \<Rightarrow> string \<Rightarrow> ts \<Rightarrow> py_exc + string" where
  "verify_rule_attestation cy spec a k rid tenant now =
     (if \<not> cy_spec_ok cy spec \<or> \<not> cy_attestation_ok cy (attestation_json a) then Inl invalid_attestation
      else and_then (calculate_rule_digest cy spec) (\<lambda>d.
        if spec_digest spec \<noteq> JStr d then Inl invalid_attestation
        else if at_rule_digest a \<noteq> d then Inl invalid_attestation
        else if spec_version_id spec \<noteq> JStr rid \<or> at_rule_version a \<noteq> rid then Inl invalid_attestation
        else if at_tenant a \<noteq> tenant \<or> sk_tenant k \<noteq> tenant then Inl invalid_attestation
        else if sk_id k \<noteq> at_key_id a \<or> sk_algorithm k \<noteq> ''Ed25519'' then Inl invalid_attestation
        else if sk_status k \<noteq> KTrusted then Inl invalid_attestation
        else if (case at_expires a of None \<Rightarrow> False | Some t \<Rightarrow> t \<le> now) then Inl invalid_attestation
        else unless (verify_attestation_signature cy a (sk_public_pem k)) (Inr d)))"

definition immutable_rule_version :: "crypto \<Rightarrow> string \<Rightarrow> json \<Rightarrow> string \<Rightarrow> string \<Rightarrow> ts \<Rightarrow> py_exc + rule_version" where
  "immutable_rule_version cy cid spec rid tenant now =
     and_then (finalize_rule_spec cy spec rid) (\<lambda>(spec', d).
       Inr \<lparr>rv_id = rid, rv_tenant = tenant, rv_collector = cid, rv_digest = d, rv_spec = spec', rv_created = now\<rparr>)"

text \<open>The verification as the run and recovery modules take it.\<close>

definition rule_verifier :: "crypto \<Rightarrow> string \<Rightarrow> ts \<Rightarrow> verifier" where
  "rule_verifier cy tenant now rule a k =
     (case verify_rule_attestation cy (rv_spec rule) a k (rv_id rule) tenant now of
        Inr d \<Rightarrow> Inr d
      | Inl (IntegrityErr code) \<Rightarrow> Inl code
      | Inl _ \<Rightarrow> Inl ''RULE_ATTESTATION_INVALID'')"

subsection \<open>What is published verifies\<close>

lemma map_of_without: "k \<noteq> k' \<Longrightarrow> map_of (without_key k' kvs) k = map_of kvs k"
  by (induction kvs) (auto simp: without_key_def)

lemma without_dict_set: "without_key k (dict_set k v kvs) = without_key k kvs"
  by (induction k v kvs rule: dict_set.induct) (auto simp: without_key_def)

lemma finalize_rule_spec_digest:
  assumes "finalize_rule_spec cy spec rid = Inr (spec', d)"
  shows "calculate_rule_digest cy spec' = Inr d" "spec_digest spec' = JStr d" "spec_version_id spec' = JStr rid"
proof -
  let ?named = "dict_set ''ruleVersionId'' (JStr rid) (obj_of spec)"
  obtain d' where d': "calculate_rule_digest cy (JObj ?named) = Inr d'"
    using assms by (cases "calculate_rule_digest cy (JObj ?named)") (simp_all add: finalize_rule_spec_def Let_def)
  obtain kvs where kvs: "jget ''integrity'' ?named = JObj kvs"
    using assms d' by (cases "jget ''integrity'' ?named") (simp_all add: finalize_rule_spec_def Let_def)
  have d: "calculate_rule_digest cy (JObj ?named) = Inr d"
    and spec': "spec' = JObj (dict_set ''integrity'' (JObj (dict_set ''ruleDigest'' (JStr d) kvs)) ?named)"
    using assms d' kvs by (auto simp: finalize_rule_spec_def Let_def)
  show "calculate_rule_digest cy spec' = Inr d"
    using d by (simp add: calculate_rule_digest_def spec' obj_of_def without_dict_set)
  show "spec_digest spec' = JStr d" "spec_version_id spec' = JStr rid"
    by (simp_all add: spec_digest_def spec_version_id_def spec' obj_of_def jget_def)
qed

lemma without_key_idem: "without_key k (without_key k kvs) = without_key k kvs"
  by (simp add: without_key_def)

lemma attestation_body_signature [simp]: "attestation_body (a\<lparr>at_signature := s\<rparr>) = attestation_body a"
  by (simp add: attestation_body_def)

lemma build_rule_attestation_cases:
  assumes "build_rule_attestation cy spec rid decisions tenant reviewer did aid now = Inr (spec', a)"
  obtains d payload where "finalize_rule_spec cy spec rid = Inr (spec', d)" "at_rule_digest a = d" "at_rule_version a = rid"
    "at_tenant a = tenant" "at_key_id a = cy_key cy" "at_expires a = None" "at_id a = aid" "at_signed_at a = now"
    "attestation_signing_bytes cy a = Inr payload" "at_signature a = cy_sign cy payload" "cy_attestation_ok cy (attestation_json a)"
proof -
  obtain spec1 d where f: "finalize_rule_spec cy spec rid = Inr (spec1, d)"
    using assms by (cases "finalize_rule_spec cy spec rid") (auto simp: build_rule_attestation_def)
  obtain policy where p: "digest_value cy review_policy = Inr policy"
    using assms f by (cases "digest_value cy review_policy") (simp_all add: build_rule_attestation_def)
  obtain ev where e: "digest_value cy (JObj [(''reviewDecisions'', decisions), (''ruleDigest'', JStr d)]) = Inr ev"
    using assms f p by (cases "digest_value cy (JObj [(''reviewDecisions'', decisions), (''ruleDigest'', JStr d)])")
      (simp_all add: build_rule_attestation_def)
  define a0 where "a0 = \<lparr>at_id = aid, at_tenant = tenant, at_rule_version = rid, at_rule_digest = d,
              at_approval = approval_json did reviewer now policy ev, at_key_id = cy_key cy, at_algorithm = ''Ed25519'',
              at_signed_at = now, at_expires = None, at_signature = []\<rparr>"
  have run: "and_then (attestation_signing_bytes cy a0) (\<lambda>payload.
      let signed = a0\<lparr>at_signature := cy_sign cy payload\<rparr>
      in if cy_attestation_ok cy (attestation_json signed) then Inr (spec1, signed) else Inl (ValueErr ''attestation schema'')) = Inr (spec', a)"
    using assms f p e by (simp add: build_rule_attestation_def a0_def)
  then obtain payload where pay: "attestation_signing_bytes cy a0 = Inr payload"
    by (cases "attestation_signing_bytes cy a0") simp_all
  have a: "a = a0\<lparr>at_signature := cy_sign cy payload\<rparr>" "spec' = spec1" "cy_attestation_ok cy (attestation_json a)"
    using run pay by (auto simp: Let_def split: if_splits)
  have "attestation_signing_bytes cy a = Inr payload" using pay by (simp add: a(1) attestation_signing_bytes_def)
  with f a show thesis by (intro that) (simp_all add: a0_def)
qed

lemma built_attestation_verifies:
  assumes "build_rule_attestation cy spec rid decisions tenant reviewer did aid now = Inr (spec', a)"
    and "cy_spec_ok cy spec'" and "\<And>m. cy_verify cy (sk_public_pem k) (cy_sign cy m) m"
    and "sk_id k = cy_key cy" "sk_tenant k = tenant" "sk_algorithm k = ''Ed25519''" "sk_status k = KTrusted"
  shows "verify_rule_attestation cy spec' a k rid tenant later = Inr (at_rule_digest a)"
  using assms(1)
proof (rule build_rule_attestation_cases)
  fix d payload
  assume a: "finalize_rule_spec cy spec rid = Inr (spec', d)" "at_rule_digest a = d" "at_rule_version a = rid"
    "at_tenant a = tenant" "at_key_id a = cy_key cy" "at_expires a = None"
    "attestation_signing_bytes cy a = Inr payload" "at_signature a = cy_sign cy payload" "cy_attestation_ok cy (attestation_json a)"
  show ?thesis
    using a(2-) finalize_rule_spec_digest [OF a(1)] assms(2-)
    by (simp add: verify_rule_attestation_def verify_attestation_signature_def)
qed

subsection \<open>Tampering shows\<close>

lemma verify_rule_attestation_digest:
  assumes "verify_rule_attestation cy spec a k rid tenant now = Inr d"
  shows "calculate_rule_digest cy spec = Inr d" "at_rule_digest a = d"
    "\<exists>payload. attestation_signing_bytes cy a = Inr payload \<and> cy_verify cy (sk_public_pem k) (at_signature a) payload"
    "sk_status k = KTrusted" "spec_version_id spec = JStr rid" "at_tenant a = tenant" "sk_tenant k = tenant"
proof -
  obtain d0 where d0: "calculate_rule_digest cy spec = Inr d0"
    using assms by (cases "calculate_rule_digest cy spec") (simp_all add: verify_rule_attestation_def split: if_splits)
  then show "calculate_rule_digest cy spec = Inr d" "at_rule_digest a = d" "sk_status k = KTrusted" "spec_version_id spec = JStr rid"
    "at_tenant a = tenant" "sk_tenant k = tenant"
    using assms by (auto simp: verify_rule_attestation_def unless_Inr split: if_splits)
  have "verify_attestation_signature cy a (sk_public_pem k) = None"
    using assms d0 by (auto simp: verify_rule_attestation_def unless_Inr split: if_splits)
  then show "\<exists>payload. attestation_signing_bytes cy a = Inr payload \<and> cy_verify cy (sk_public_pem k) (at_signature a) payload"
    by (auto simp: verify_attestation_signature_def split: sum.splits if_splits)
qed

lemma same_digest_same_text:
  assumes "calculate_rule_digest cy s1 = Inr d" "calculate_rule_digest cy s2 = Inr d"
  obtains (same) t where "cy_canon cy (JObj (without_key ''integrity'' (obj_of s1))) = Some t"
      "cy_canon cy (JObj (without_key ''integrity'' (obj_of s2))) = Some t"
    | (collision) x y where "x \<noteq> y" "cy_sha cy x = cy_sha cy y"
proof -
  obtain t1 where t1: "cy_canon cy (JObj (without_key ''integrity'' (obj_of s1))) = Some t1" "d = sha256_tag (cy_sha cy t1)"
    using assms(1) by (auto simp: calculate_rule_digest_def digest_value_def canonical_bytes_def and_then_Inr split: option.splits)
  obtain t2 where t2: "cy_canon cy (JObj (without_key ''integrity'' (obj_of s2))) = Some t2" "d = sha256_tag (cy_sha cy t2)"
    using assms(2) by (auto simp: calculate_rule_digest_def digest_value_def canonical_bytes_def and_then_Inr split: option.splits)
  have "cy_sha cy t1 = cy_sha cy t2" using t1(2) t2(2) by (simp add: sha256_tag_def)
  with t1 t2 show thesis by (cases "t1 = t2") (auto intro: same collision)
qed

text \<open>
  C30. A verified rule cannot be exchanged: an accepted attestation was signed, under a trusted
  key of its tenant, over its own canonical text, and whatever two specifications it is
  accepted for (at whatever times) have the same canonical text outside their integrity part,
  or SHA-256 has a collision.
\<close>

theorem attested_rule_fixed:
  assumes "verify_rule_attestation cy spec a k rid tenant now = Inr d"
    and "verify_rule_attestation cy spec' a k' rid' tenant' now' = Inr d'"
  shows "d = at_rule_digest a \<and> d' = d \<and> sk_status k = KTrusted \<and> sk_tenant k = at_tenant a \<and>
    (\<exists>payload. attestation_signing_bytes cy a = Inr payload \<and> cy_verify cy (sk_public_pem k) (at_signature a) payload) \<and>
    ((\<exists>t. cy_canon cy (JObj (without_key ''integrity'' (obj_of spec))) = Some t \<and>
          cy_canon cy (JObj (without_key ''integrity'' (obj_of spec'))) = Some t) \<or>
     (\<exists>x y. x \<noteq> y \<and> cy_sha cy x = cy_sha cy y))"
proof -
  note v = verify_rule_attestation_digest [OF assms(1)] and v' = verify_rule_attestation_digest [OF assms(2)]
  have d: "d' = d" using v(2) v'(2) by simp
  have "(\<exists>t. cy_canon cy (JObj (without_key ''integrity'' (obj_of spec))) = Some t \<and>
          cy_canon cy (JObj (without_key ''integrity'' (obj_of spec'))) = Some t) \<or>
     (\<exists>x y. x \<noteq> y \<and> cy_sha cy x = cy_sha cy y)"
    by (rule same_digest_same_text [OF v(1) v'(1) [unfolded d]]) blast+
  with v d show ?thesis by simp
qed

subsection \<open>An example\<close>

definition example_crypto :: crypto where
  "example_crypto = \<lparr>cy_canon = (\<lambda>v. Some (case v of JObj ((k, _) # _) \<Rightarrow> k | _ \<Rightarrow> [])), cy_sha = (\<lambda>t. t), cy_sign = (\<lambda>m. ''s'' @ m),
     cy_verify = (\<lambda>_ s m. s = ''s'' @ m), cy_spec_ok = (\<lambda>_. True), cy_attestation_ok = (\<lambda>_. True), cy_key = ''key_a'', cy_pem = ''pem''\<rparr>"

definition example_spec :: json where
  "example_spec = JObj [(''mode'', JStr ''list''), (''integrity'', JObj [])]"

definition example_built :: "py_exc + json \<times> attestation" where
  "example_built = build_rule_attestation example_crypto example_spec ''rule_a_v1'' (JObj []) ''t'' ''user_a'' ''approval_1'' ''att_1'' 5"

definition example_trust :: signing_key where
  "example_trust = \<lparr>sk_id = ''key_a'', sk_tenant = ''t'', sk_status = KTrusted, sk_revision = 1, sk_algorithm = ''Ed25519'',
     sk_public_pem = ''pem'', sk_retired_at = None, sk_compromise_at = None\<rparr>"

lemma example_verified:
  obtains spec a d where "example_built = Inr (spec, a)"
    "verify_rule_attestation example_crypto spec a example_trust ''rule_a_v1'' ''t'' 9 = Inr d"
proof -
  have "\<not> isl example_built" by code_simp
  then have "\<exists>r. example_built = Inr r" unfolding isl_def by (metis sum.exhaust)
  then obtain r where "example_built = Inr r" ..
  then obtain spec a where b: "example_built = Inr (spec, a)" by (cases r) simp
  have "verify_rule_attestation example_crypto spec a example_trust ''rule_a_v1'' ''t'' 9 = Inr (at_rule_digest a)"
    by (rule built_attestation_verifies [OF b [unfolded example_built_def]]) (simp_all add: example_crypto_def example_trust_def)
  with b show thesis by (rule that)
qed

theorem attested_rule_fixed_witness:
  "\<exists>spec a d. verify_rule_attestation example_crypto spec a example_trust ''rule_a_v1'' ''t'' 9 = Inr d \<and> d = at_rule_digest a"
proof -
  obtain spec a d where v: "verify_rule_attestation example_crypto spec a example_trust ''rule_a_v1'' ''t'' 9 = Inr d"
    by (rule example_verified)
  from attested_rule_fixed [OF v v] v show ?thesis by blast
qed

end
