(* ===== verification/Publishing.thy ===== *)
theory Publishing
  imports Integrity Collections
begin

text \<open>
  Publishing a reviewed candidate (\<open>app._publish_rule\<close>, \<open>persist_published_rule\<close>,
  \<open>Store.publish_rule_bundle\<close>): the review decisions, the next version id, the registered key, the
  attestation, and the transaction that stores rule, attestation, audit event and source
  together. The text of review decisions in a document is the argument \<open>shown\<close>.
\<close>

subsection \<open>Version ids\<close>

text \<open>\<open>int(re.search(r"_v(\d+)$", id))\<close>.\<close>

definition rule_number :: "string \<Rightarrow> nat option" where
  "rule_number rid =
     (let rev_digits = takeWhile is_digit (rev rid); rest = dropWhile is_digit (rev rid)
      in if rev_digits \<noteq> [] \<and> take 2 rest = ''v_'' then Some (digits_value (rev rev_digits)) else None)"

definition list_rule_versions :: "db \<Rightarrow> string \<Rightarrow> rule_version list" where
  "list_rule_versions db cid =
     sort_key (\<lambda>r. iso_key (rv_created r)) (sort_key rv_id (filter (\<lambda>r. rv_collector r = cid) (t_rules db)))"

definition current_rule_number :: "db \<Rightarrow> string \<Rightarrow> nat" where
  "current_rule_number db cid = foldr max (concat (map (\<lambda>r. case rule_number (rv_id r) of None \<Rightarrow> [] | Some n \<Rightarrow> [n]) (list_rule_versions db cid))) 0"

definition next_rule_version_id :: "string \<Rightarrow> nat \<Rightarrow> string" where
  "next_rule_version_id cid n =
     (let suffix = ''_v'' @ nat_text n
      in ''rule_'' @ take (128 - length ''rule_'' - length suffix) (remove_prefix ''collector_'' cid) @ suffix)"

subsection \<open>The transaction\<close>

text \<open>Equality of dicts: the order of keys does not matter.\<close>

lemma json_member_size: "(k, v) \<in> set kvs \<Longrightarrow> size v < size (JObj kvs)"
  by (induction kvs) auto

lemma json_element_size: "v \<in> set vs \<Longrightarrow> size v < size (JArr vs)"
  by (induction vs) auto

function (sequential) same_json :: "json \<Rightarrow> json \<Rightarrow> bool" where
  "same_json (JObj a) (JObj b) =
     (fst ` set a = fst ` set b \<and>
      (\<forall>p \<in> set a. case map_of b (fst p) of None \<Rightarrow> False | Some v \<Rightarrow> same_json (snd p) v))"
| "same_json (JArr a) (JArr b) = (length a = length b \<and> (\<forall>(v, v') \<in> set (zip a b). same_json v v'))"
| "same_json v v' = (v = v')"
  by pat_completeness auto
termination
proof (relation "measure (\<lambda>(a, b). size a)", goal_cases)
  case (2 a b p x)
  then show ?case using json_member_size [of "fst p" "snd p" a] by simp
next
  case (3 a b x v v')
  then show ?case using json_element_size [of v a] by (auto dest: set_zip_leftD)
qed simp

definition contract_matches :: "json \<Rightarrow> field_contract \<Rightarrow> bool" where
  "contract_matches spec c \<longleftrightarrow>
     (let k = obj_of (jget ''contract'' (obj_of spec))
      in same_json (jget ''normalizedItemSchema'' k) (fc_schema c) \<and>
         jget ''identityFields'' k = JArr (map JStr (fc_identity c)) \<and>
         jget ''fingerprintFields'' k = JArr (map JStr (fc_fingerprint c)) \<and>
         jget ''outputContractDigest'' k = JStr (fc_digest c))"

definition reviewed_binding :: "collector \<Rightarrow> string option" where
  "reviewed_binding c =
     (case col_pending_version c of
        Some v \<Rightarrow> if v \<noteq> [] then Some v else if col_collection_version c = [] then None else Some (col_collection_version c)
      | None \<Rightarrow> if col_collection_version c = [] then None else Some (col_collection_version c))"

definition binding_ok :: "db \<Rightarrow> collector \<Rightarrow> json \<Rightarrow> bool" where
  "binding_ok db c spec \<longleftrightarrow>
     (case reviewed_binding c of
        None \<Rightarrow> True
      | Some v \<Rightarrow>
          v = default_collection_version \<or>
          (case get_collection_version db v of
             None \<Rightarrow> False
           | Some frozen \<Rightarrow>
               cv_collection frozen = col_collection_id c \<and>
               jget ''collectionVersionId'' (obj_of (jget ''collectionVersionRef'' (obj_of spec))) = JStr v \<and>
               contract_matches spec (cv_contract frozen)))"

definition migrating :: "collector \<Rightarrow> bool" where
  "migrating c \<longleftrightarrow> (case col_pending_version c of None \<Rightarrow> False | Some v \<Rightarrow> v \<noteq> [])"

text \<open>The source with the changes of the publication; a migration is completed with it.\<close>

definition published_source :: "collector \<Rightarrow> string \<Rightarrow> string \<Rightarrow> json \<Rightarrow> collector" where
  "published_source c rid decisions candidate =
     (let c1 = c\<lparr>col_status := ''published'', col_active_rule := Some rid, col_review_decisions := Some decisions,
               col_candidate := Some candidate, col_updated := JustNow\<rparr>
      in if migrating c
         then c1\<lparr>col_collection_version := (case reviewed_binding c of None \<Rightarrow> [] | Some v \<Rightarrow> v), col_pending_version := None,
                 col_migration := None, col_checkpoint := None\<rparr>
         else c1)"

definition publish_rule_bundle ::
  "hasher \<Rightarrow> db \<Rightarrow> string \<Rightarrow> rule_version \<Rightarrow> attestation \<Rightarrow> string \<Rightarrow> json \<Rightarrow> audit_args \<Rightarrow> string option \<Rightarrow> string \<Rightarrow> ts \<Rightarrow>
   py_exc + db \<times> collector" where
  "publish_rule_bundle ph db cid rule a decisions candidate audit expected event_id now =
     unless (lock_collector db cid)
     (case get_collector db cid of
        None \<Rightarrow> Inl (KeyErr cid)
      | Some c \<Rightarrow>
          unless (require_active (Some c))
          (if expected \<noteq> None \<and> expected \<noteq> Some (source_execution_digest ph c) then Inl (LifecycleErr ''COLLECTOR_CONFLICT'')
           else if \<not> binding_ok db c (rv_spec rule) then Inl invalid_attestation
           else if tbl_get rv_id (rv_id rule) (t_rules db) \<noteq> None then Inl (LifecycleErr ''COLLECTOR_CONFLICT'')
           else if tbl_get at_id (at_id a) (t_attestations db) \<noteq> None then Inl UniqueViolation
           else
             (let db1 = db\<lparr>t_rules := t_rules db @ [rule\<lparr>rv_collector := cid\<rparr>], t_attestations := t_attestations db @ [a]\<rparr>;
                  digest = Option.bind (col_candidate c) (\<lambda>t. json_text (jget ''digest'' (obj_of t)));
                  db2 = append_audit_event ph db1 event_id (rv_tenant rule) ''RuleVersion'' (rv_id rule) audit digest (Some (rv_digest rule)) now;
                  db3 = (if migrating c
                         then db2\<lparr>t_checkpoints := tbl_del ck_collector cid (t_checkpoints db2),
                                  t_migrations := filter (\<lambda>m. mgr_collector m \<noteq> cid) (t_migrations db2)\<rparr>
                         else db2)
              in and_then (save_collector db3 (published_source c (rv_id rule) decisions candidate) False now) (\<lambda>(db4, c').
                 and_then (publish_latest_ai_run db4 cid (rv_id rule) now) (\<lambda>db5.
                 Inr (db5, published_source c (rv_id rule) decisions candidate))))))"

subsection \<open>The application\<close>

text \<open>\<open>LocalEd25519Signer.validate_registered_identity\<close>; \<open>file\<close> tells whether the key file is there.\<close>

definition validate_registered_identity :: "crypto \<Rightarrow> bool \<Rightarrow> db \<Rightarrow> py_exc option" where
  "validate_registered_identity cy file db =
     (case get_signing_key db (cy_key cy) of
        None \<Rightarrow> None
      | Some trust \<Rightarrow>
          if \<not> file \<or> cy_pem cy \<noteq> sk_public_pem trust \<or> sk_status trust \<noteq> KTrusted then Some invalid_attestation else None)"

definition trust_record :: "crypto \<Rightarrow> string \<Rightarrow> nat \<Rightarrow> signing_key" where
  "trust_record cy tenant revision =
     \<lparr>sk_id = cy_key cy, sk_tenant = tenant, sk_status = KTrusted, sk_revision = revision, sk_algorithm = ''Ed25519'',
      sk_public_pem = cy_pem cy, sk_retired_at = None, sk_compromise_at = None\<rparr>"

record publish_ids =
  pi_decision :: string
  pi_attestation :: string
  pi_event :: string

definition published_candidate :: "crypto \<Rightarrow> json \<Rightarrow> json \<Rightarrow> py_exc + json" where
  "published_candidate cy candidate spec =
     and_then (digest_value cy spec) (\<lambda>d.
       Inr (JObj (dict_set ''digest'' (JStr d) (dict_set ''gatherSpec'' spec (obj_of candidate)))))"

text \<open>
  The registration of the key commits on its own before the bundle: the result comes with the
  store. Building the attestation finalizes the specification of the rule in place.
\<close>

definition persist_published_rule ::
  "hasher \<Rightarrow> (signing_key \<Rightarrow> json) \<Rightarrow> (json \<Rightarrow> string) \<Rightarrow> crypto \<Rightarrow> bool \<Rightarrow> string \<Rightarrow> db \<Rightarrow> collector \<Rightarrow> string \<Rightarrow> json \<Rightarrow>
   string \<Rightarrow> string \<Rightarrow> string \<Rightarrow> publish_ids \<Rightarrow> ts \<Rightarrow> db \<times> (py_exc + collector)" where
  "persist_published_rule ph kj shown cy file tenant db c rid decisions request actor action ids now =
     (let candidate = (case col_candidate c of None \<Rightarrow> JNull | Some t \<Rightarrow> t)
      in case and_then (unless (validate_registered_identity cy file db)
               (immutable_rule_version cy (col_id c) (jget ''gatherSpec'' (obj_of candidate)) rid tenant now)) (\<lambda>rule.
             and_then (ensure_signing_key ph kj db (trust_record cy tenant 1) None [] now) (\<lambda>(db1, k). Inr (rule, db1, k))) of
        Inl e \<Rightarrow> (db, Inl e)
      | Inr (rule, db1, k) \<Rightarrow>
          if sk_status k \<noteq> KTrusted then (db1, Inl invalid_attestation)
          else
            (case and_then (build_rule_attestation cy (rv_spec rule) rid decisions tenant actor (pi_decision ids) (pi_attestation ids) now)
                    (\<lambda>(spec, a). and_then (published_candidate cy candidate spec) (\<lambda>candidate'.
                       publish_rule_bundle ph db1 (col_id c) (rule\<lparr>rv_spec := spec, rv_digest := at_rule_digest a\<rparr>) a
                         (shown decisions) candidate'
                         \<lparr>aa_tenant = tenant, aa_actor = actor, aa_action = action, aa_request = request,
                          aa_details = JObj [(''attestationId'', JStr (at_id a)), (''keyId'', JStr (at_key_id a))]\<rparr>
                         (Some (source_execution_digest ph c)) (pi_event ids) now)) of
               Inl e \<Rightarrow> (db1, Inl e)
             | Inr (db2, c') \<Rightarrow> (db2, Inr c')))"

definition allowed_review_decisions :: "json list" where
  "allowed_review_decisions = [JStr ''approved'', JStr ''risk_accepted'', JStr ''excluded'']"

definition candidate_fields :: "collector \<Rightarrow> json list" where
  "candidate_fields c =
     (case col_candidate c of
        None \<Rightarrow> []
      | Some t \<Rightarrow> (case jget ''fields'' (obj_of t) of JArr fs \<Rightarrow> fs | _ \<Rightarrow> []))"

definition decision_valid :: "(string \<times> json) list \<Rightarrow> json \<Rightarrow> bool" where
  "decision_valid decisions field \<longleftrightarrow>
     (let f = obj_of field; d = jget (text_of (jget ''key'' f)) decisions
      in d \<in> set allowed_review_decisions \<and> (truthy (jget ''required'' f) \<longrightarrow> d = JStr ''approved'') \<and>
         (truthy (jget ''warning'' f) \<longrightarrow> d \<in> {JStr ''risk_accepted'', JStr ''excluded''}))"

definition publish_rule ::
  "hasher \<Rightarrow> (signing_key \<Rightarrow> json) \<Rightarrow> (json \<Rightarrow> string) \<Rightarrow> crypto \<Rightarrow> bool \<Rightarrow> string \<Rightarrow> db \<Rightarrow> string \<Rightarrow> json \<Rightarrow> string \<Rightarrow> string \<Rightarrow>
   publish_ids \<Rightarrow> ts \<Rightarrow> db \<times> (py_exc + collector)" where
  "publish_rule ph kj shown cy file tenant db cid decisions request actor ids now =
     (case get_collector db cid of
        None \<Rightarrow> (db, Inl (LifecycleErr ''COLLECTOR_NOT_FOUND''))
      | Some c \<Rightarrow>
          (case require_active (Some c) of
             Some e \<Rightarrow> (db, Inl e)
           | None \<Rightarrow>
               if col_status c \<noteq> ''ready_review'' \<or> candidate_fields c = [] \<or>
                  \<not> list_all (decision_valid (obj_of decisions)) (candidate_fields c)
               then (db, Inl (ValueErr ''REVIEW_DECISION_INVALID''))
               else persist_published_rule ph kj shown cy file tenant db c
                      (next_rule_version_id cid (current_rule_number db cid + 1)) decisions request actor ''rule.published'' ids now))"

end
