(* ===== verification/Publishing_Safety.thy ===== *)
theory Publishing_Safety
  imports Publishing Run_Safety
begin

text \<open>
  What publishing guarantees: only a completely reviewed candidate is published, under an id no
  rule of the source had, and what was published passes the integrity check of a run.
\<close>

subsection \<open>What the transaction leaves\<close>

lemma publish_rows_only:
  assumes "publish_rows cid rule now rs b db = Inr db'"
  shows "t_rules db' = t_rules db" "t_attestations db' = t_attestations db" "t_signing_keys db' = t_signing_keys db"
    "t_collectors db' = t_collectors db"
  using assms
proof (atomize (full), induction rs arbitrary: b db)
  case (Cons r rs)
  show ?case
  proof (cases "air_review_status (airr_data r) = ReadyReview")
    case False
    then show ?thesis using Cons by simp
  next
    case True
    let ?a = "if \<not> b then publish_review rule (airr_data r) else supersede (airr_data r)"
    obtain d where d: "save_ai_run db ?a cid (airr_operation r) now = Inr d"
      using Cons.prems True by (cases "save_ai_run db ?a cid (airr_operation r) now") simp_all
    obtain ow ars where d1: "d = db\<lparr>t_ownership := ow, t_ai_runs := ars\<rparr>" using d by (rule save_ai_run_only)
    have "publish_rows cid rule now rs True d = Inr db'" using Cons.prems True d by simp
    from Cons.IH [OF this] show ?thesis by (simp add: d1)
  qed
qed simp

lemma publish_rule_bundle_cases:
  assumes "publish_rule_bundle ph db cid rule a decisions candidate audit expected event now = Inr (db', c')"
  obtains c where "get_collector db cid = Some c" "c' = published_source c (rv_id rule) decisions candidate"
    "expected = None \<or> expected = Some (source_execution_digest ph c)" "binding_ok db c (rv_spec rule)"
    "tbl_get rv_id (rv_id rule) (t_rules db) = None" "t_rules db' = t_rules db @ [rule\<lparr>rv_collector := cid\<rparr>]"
    "t_attestations db' = t_attestations db @ [a]" "t_signing_keys db' = t_signing_keys db"
    "stored_collector db' (col_id c) = Some c'"
proof -
  have lock: "lock_collector db cid = None" using assms by (simp add: publish_rule_bundle_def unless_Inr)
  then obtain c where c: "get_collector db cid = Some c" by (auto simp: lock_collector_get)
  define db3 where "db3 = (let db1 = db\<lparr>t_rules := t_rules db @ [rule\<lparr>rv_collector := cid\<rparr>], t_attestations := t_attestations db @ [a]\<rparr>;
                  digest = Option.bind (col_candidate c) (\<lambda>t. json_text (jget ''digest'' (obj_of t)));
                  db2 = append_audit_event ph db1 event (rv_tenant rule) ''RuleVersion'' (rv_id rule) audit digest (Some (rv_digest rule)) now
              in if migrating c
                 then db2\<lparr>t_checkpoints := tbl_del ck_collector cid (t_checkpoints db2),
                          t_migrations := filter (\<lambda>m. mgr_collector m \<noteq> cid) (t_migrations db2)\<rparr>
                 else db2)"
  let ?c' = "published_source c (rv_id rule) decisions candidate"
  have checks: "expected = None \<or> expected = Some (source_execution_digest ph c)" "binding_ok db c (rv_spec rule)"
    "tbl_get rv_id (rv_id rule) (t_rules db) = None"
    and run: "and_then (save_collector db3 ?c' False now) (\<lambda>(db4, c1).
       and_then (publish_latest_ai_run db4 cid (rv_id rule) now) (\<lambda>db5. Inr (db5, ?c'))) = Inr (db', c')"
    using assms lock c
    by (auto simp: publish_rule_bundle_def unless_Inr db3_def Let_def split: if_splits)
  obtain db4 c1 where save: "save_collector db3 ?c' False now = Inr (db4, c1)"
    using run by (cases "save_collector db3 ?c' False now") auto
  obtain db5 where pub: "publish_latest_ai_run db4 cid (rv_id rule) now = Inr db5"
    using run save by (cases "publish_latest_ai_run db4 cid (rv_id rule) now") simp_all
  have out: "db' = db5" "c' = ?c'" using run save pub by simp_all
  note rows = publish_rows_only [OF pub [unfolded publish_latest_ai_run_def]]
  obtain cs where d4: "db4 = db3\<lparr>t_collectors := cs\<rparr>" using save_collector_ordinary(3) [OF save] by blast
  have d3: "t_rules db3 = t_rules db @ [rule\<lparr>rv_collector := cid\<rparr>]" "t_attestations db3 = t_attestations db @ [a]"
    "t_signing_keys db3 = t_signing_keys db"
    by (simp_all add: db3_def Let_def append_audit_event_def)
  have id: "col_id ?c' = col_id c" by (simp add: published_source_def Let_def)
  have "stored_collector db4 (col_id c) = Some ?c'" using save_collector_ordinary(2) [OF save, of "col_id c"] by (simp add: id)
  then have "stored_collector db' (col_id c) = Some c'" using rows(4) by (simp add: out stored_collector_def)
  with c checks rows d3 show thesis by (intro that [of c]) (simp_all add: out d4)
qed

lemma persist_cases:
  assumes "persist_published_rule ph kj shown cy file tenant db c rid decisions request actor action ids now = (db', Inr c')"
  obtains rule db1 k spec a candidate audit where
    "validate_registered_identity cy file db = None"
    "immutable_rule_version cy (col_id c) (jget ''gatherSpec'' (obj_of (case col_candidate c of None \<Rightarrow> JNull | Some t \<Rightarrow> t))) rid tenant now = Inr rule"
    "ensure_signing_key ph kj db (trust_record cy tenant 1) None [] now = Inr (db1, k)" "sk_status k = KTrusted"
    "build_rule_attestation cy (rv_spec rule) rid decisions tenant actor (pi_decision ids) (pi_attestation ids) now = Inr (spec, a)"
    "publish_rule_bundle ph db1 (col_id c) (rule\<lparr>rv_spec := spec, rv_digest := at_rule_digest a\<rparr>) a (shown decisions) candidate audit
       (Some (source_execution_digest ph c)) (pi_event ids) now = Inr (db', c')"
proof -
  let ?cand = "case col_candidate c of None \<Rightarrow> JNull | Some t \<Rightarrow> t"
  let ?imm = "immutable_rule_version cy (col_id c) (jget ''gatherSpec'' (obj_of ?cand)) rid tenant now"
  let ?ens = "ensure_signing_key ph kj db (trust_record cy tenant 1) None [] now"
  have id: "validate_registered_identity cy file db = None"
    using assms by (cases "validate_registered_identity cy file db") (simp_all add: persist_published_rule_def Let_def unless_def)
  obtain rule where rule: "?imm = Inr rule"
    using assms id by (cases ?imm) (simp_all add: persist_published_rule_def Let_def)
  obtain db1 k where ens: "?ens = Inr (db1, k)"
    using assms id rule by (cases ?ens) (auto simp: persist_published_rule_def Let_def)
  have k: "sk_status k = KTrusted"
    using assms id rule ens by (simp add: persist_published_rule_def Let_def split: if_splits)
  let ?b = "build_rule_attestation cy (rv_spec rule) rid decisions tenant actor (pi_decision ids) (pi_attestation ids) now"
  obtain spec a where b: "?b = Inr (spec, a)"
    using assms id rule ens k by (cases ?b) (auto simp: persist_published_rule_def Let_def)
  obtain candidate where cand: "published_candidate cy ?cand spec = Inr candidate"
    using assms id rule ens k b by (cases "published_candidate cy ?cand spec") (auto simp: persist_published_rule_def Let_def)
  let ?audit = "\<lparr>aa_tenant = tenant, aa_actor = actor, aa_action = action, aa_request = request,
                          aa_details = JObj [(''attestationId'', JStr (at_id a)), (''keyId'', JStr (at_key_id a))]\<rparr>"
  let ?p = "publish_rule_bundle ph db1 (col_id c) (rule\<lparr>rv_spec := spec, rv_digest := at_rule_digest a\<rparr>) a (shown decisions) candidate ?audit
       (Some (source_execution_digest ph c)) (pi_event ids) now"
  have "?p = Inr (db', c')"
    using assms id rule ens k b cand by (cases ?p) (auto simp: persist_published_rule_def Let_def)
  with id rule ens k b show thesis by (rule that)
qed

lemma ensure_signing_key_stored:
  assumes "ensure_signing_key ph kj db k0 None e now = Inr (db', k)"
  shows "get_signing_key db' (sk_id k0) = Some k" "sk_tenant k = sk_tenant k0" "sk_public_pem k = sk_public_pem k0"
    "t_attestations db' = t_attestations db" "t_rules db' = t_rules db" "t_collectors db' = t_collectors db"
    "k = k0 \<or> get_signing_key db (sk_id k0) = Some k"
  using assms
  by (auto simp: ensure_signing_key_def get_signing_key_def tbl_get_append Let_def split: option.splits if_splits)

lemma latest_attestation_single:
  assumes "\<forall>x \<in> set as. at_rule_version x \<noteq> rid" and "at_rule_version a = rid" and "t_attestations db = as @ [a]"
  shows "latest_rule_attestation db rid = Some a"
proof -
  have "filter (\<lambda>a. at_rule_version a = rid) (t_attestations db) = [a]" using assms by (auto simp: filter_empty_conv)
  then show ?thesis by (simp add: latest_rule_attestation_def)
qed

text \<open>
  C6. What is published can be run: after a publication committed, the source names the new
  rule and is published, and the integrity check every run starts with (rule, newest
  attestation, trusted key, signature, digests) accepts the stored bundle at any later time,
  provided the signer's signatures verify under its own key and the stored specification
  satisfies its schema.
\<close>

theorem published_rule_runs:
  assumes "persist_published_rule ph kj shown cy file tenant db c rid decisions request actor action ids now = (db', Inr c')"
    and "\<forall>a \<in> set (t_attestations db). tbl_get rv_id (at_rule_version a) (t_rules db) \<noteq> None"
    and "\<forall>k. get_signing_key db (cy_key cy) = Some k \<longrightarrow> sk_id k = cy_key cy \<and> sk_algorithm k = ''Ed25519''"
    and "\<forall>m. cy_verify cy (cy_pem cy) (cy_sign cy m) m"
    and "\<forall>rule. tbl_get rv_id rid (t_rules db') = Some rule \<longrightarrow> cy_spec_ok cy (rv_spec rule)"
  shows "col_status c' = ''published'' \<and> col_active_rule c' = Some rid \<and> stored_collector db' (col_id c') = Some c' \<and>
    tbl_get rv_id rid (t_rules db) = None \<and>
    (\<exists>ic. verified_run_integrity (rule_verifier cy tenant later) db' c' = Inr ic \<and> ic_rule_version ic = rid)"
  using assms(1)
proof (rule persist_cases, goal_cases)
  case (1 rule db1 k spec a candidate audit)
  let ?rule = "rule\<lparr>rv_spec := spec, rv_digest := at_rule_digest a\<rparr>"
  note key = ensure_signing_key_stored [OF 1(3)]
  have rid: "rv_id rule = rid" using 1(2) by (auto simp: immutable_rule_version_def and_then_Inr)
  show ?case
    using 1(6)
  proof (rule publish_rule_bundle_cases, goal_cases)
    case (1 c0)
    have fresh: "tbl_get rv_id rid (t_rules db) = None" using 1(5) key(5) rid by simp
    have stored: "tbl_get rv_id rid (t_rules db') = Some (?rule\<lparr>rv_collector := col_id c\<rparr>)"
      using fresh key(5) by (simp add: 1(6) tbl_get_append rid)
    have ok: "cy_spec_ok cy spec" using assms(5) stored by auto
    obtain "at_rule_version a = rid" "at_key_id a = cy_key cy"
      using \<open>build_rule_attestation cy (rv_spec rule) rid decisions tenant actor (pi_decision ids) (pi_attestation ids) now = Inr (spec, a)\<close>
      by (rule build_rule_attestation_cases)
    note a = this
    have tr: "sk_id (trust_record cy tenant 1) = cy_key cy" "sk_algorithm (trust_record cy tenant 1) = ''Ed25519''"
      "sk_tenant (trust_record cy tenant 1) = tenant" "sk_public_pem (trust_record cy tenant 1) = cy_pem cy"
      by (simp_all add: trust_record_def)
    have k: "sk_id k = cy_key cy" "sk_algorithm k = ''Ed25519''" "sk_tenant k = tenant" "sk_public_pem k = cy_pem cy"
      using key(7) [unfolded tr(1)] key(2,3) tr assms(3) by metis+
    have "verify_rule_attestation cy spec a k rid tenant later = Inr (at_rule_digest a)"
      by (rule built_attestation_verifies
          [OF \<open>build_rule_attestation cy (rv_spec rule) rid decisions tenant actor (pi_decision ids) (pi_attestation ids) now = Inr (spec, a)\<close> ok])
        (use k assms(4) \<open>sk_status k = KTrusted\<close> in simp_all)
    then have verify: "rule_verifier cy tenant later (?rule\<lparr>rv_collector := col_id c\<rparr>) a k = Inr (at_rule_digest a)"
      by (simp add: rule_verifier_def rid)
    have "\<forall>x \<in> set (t_attestations db1). at_rule_version x \<noteq> rid" using assms(2) fresh by (auto simp: key(4))
    then have latest: "latest_rule_attestation db' rid = Some a" by (rule latest_attestation_single [OF _ a(1) 1(7)])
    have getkey: "get_signing_key db' (cy_key cy) = Some k"
      using key(1) 1(8) by (simp add: get_signing_key_def trust_record_def)
    have c': "col_status c' = ''published''" "col_active_rule c' = Some rid" "col_id c' = col_id c0"
      by (simp_all add: 1(2) published_source_def Let_def rid)
    have "verified_run_integrity (rule_verifier cy tenant later) db' c' =
        Inr \<lparr>ic_rule_version = rid, ic_attestation = at_id a, ic_digest = at_rule_digest a, ic_key = sk_id k, ic_trust_revision = sk_revision k\<rparr>"
      using verify by (simp add: verified_run_integrity_def c' stored latest a(2) getkey)
    with c' fresh 1(9) show ?case by simp
  qed
qed

subsection \<open>Numbers of versions\<close>

lemma next_rule_version_number: "rule_number (next_rule_version_id cid n) = Some n"
proof -
  obtain p where id: "next_rule_version_id cid n = p @ ''_v'' @ nat_text n" by (simp add: next_rule_version_id_def Let_def)
  have d: "list_all is_digit (rev (nat_text n))" using nat_text_digits by simp
  have v: "\<not> is_digit (CHR ''v'')" by (simp add: is_digit_def)
  have t: "rev (next_rule_version_id cid n) = rev (nat_text n) @ ''v_'' @ rev p" by (simp add: id)
  have "takeWhile is_digit (rev (next_rule_version_id cid n)) = rev (nat_text n)"
    "dropWhile is_digit (rev (next_rule_version_id cid n)) = ''v_'' @ rev p"
    unfolding t using d v by (auto simp: list_all_iff takeWhile_append dropWhile_append)
  then show ?thesis by (simp add: rule_number_def digits_value_nat_text)
qed

lemma foldr_max_upper: "m \<in> set xs \<Longrightarrow> m \<le> foldr max xs (0 :: nat)"
  by (induction xs) auto

lemma current_rule_number_upper:
  "r \<in> set (list_rule_versions db cid) \<Longrightarrow> rule_number (rv_id r) = Some m \<Longrightarrow> m \<le> current_rule_number db cid"
  unfolding current_rule_number_def by (rule foldr_max_upper) (auto intro!: bexI [of _ r])

text \<open>
  C14. Only a fully reviewed candidate is published by \<open>publish_rule\<close> (the seeding of the demo
  source stores its own rule apart from it): the source waited for its review with at
  least one field, every field was approved, accepted with its risk or excluded, required ones
  approved and ones with a warning accepted or excluded; and the new rule version is numbered
  one above every earlier version of the source, whose id is stored nowhere before.
\<close>

theorem only_reviewed_is_published:
  assumes "publish_rule ph kj shown cy file tenant db cid (JObj decisions) request actor ids now = (db', Inr c')"
    and "\<And>r. r \<in> set (t_collectors db) \<Longrightarrow> col_id (colr_data r) = colr_id r"
  shows "\<exists>c rid. get_collector db cid = Some c \<and> col_lifecycle c \<noteq> Archived \<and> col_status c = ''ready_review'' \<and>
    candidate_fields c \<noteq> [] \<and>
    (\<forall>field \<in> set (candidate_fields c).
       jget (text_of (jget ''key'' (obj_of field))) decisions \<in>
         {JStr ''approved'', JStr ''risk_accepted'', JStr ''excluded''} \<inter>
         (if truthy (jget ''required'' (obj_of field)) then {JStr ''approved''} else UNIV) \<inter>
         (if truthy (jget ''warning'' (obj_of field)) then {JStr ''risk_accepted'', JStr ''excluded''} else UNIV)) \<and>
    stored_collector db' cid = Some c' \<and> col_active_rule c' = Some rid \<and> col_status c' = ''published'' \<and>
    tbl_get rv_id rid (t_rules db) = None \<and> rule_number rid = Some (Suc (current_rule_number db cid)) \<and>
    (\<forall>r \<in> set (list_rule_versions db cid). \<forall>m. rule_number (rv_id r) = Some m \<longrightarrow> m < Suc (current_rule_number db cid))"
proof -
  let ?rid = "next_rule_version_id cid (current_rule_number db cid + 1)"
  obtain c where c: "get_collector db cid = Some c"
    using assms(1) by (cases "get_collector db cid") (simp_all add: publish_rule_def)
  have live: "require_active (Some c) = None"
    using assms(1) c by (cases "require_active (Some c)") (simp_all add: publish_rule_def)
  have review: "col_status c = ''ready_review''" "candidate_fields c \<noteq> []" "list_all (decision_valid decisions) (candidate_fields c)"
    and run: "persist_published_rule ph kj shown cy file tenant db c ?rid (JObj decisions) request actor ''rule.published'' ids now = (db', Inr c')"
    using assms(1) c live by (simp_all add: publish_rule_def obj_of_def split: if_splits)
  have id: "col_id c = cid" by (rule get_collector_id [OF c assms(2)])
  from run show ?thesis
  proof (rule persist_cases, goal_cases)
    case (1 rule db1 k spec a candidate audit)
    note key = ensure_signing_key_stored [OF 1(3)]
    have rid: "rv_id rule = ?rid" using 1(2) by (auto simp: immutable_rule_version_def and_then_Inr)
    from 1(6) show ?case
    proof (rule publish_rule_bundle_cases, goal_cases)
      case (1 c0)
      have "col_id c0 = cid" by (rule get_collector_id [OF 1(1) [unfolded id]]) (use assms(2) in \<open>simp add: key(6)\<close>)
      then have "stored_collector db' cid = Some c'" "tbl_get rv_id ?rid (t_rules db) = None" using 1 key(5) rid by simp_all
      moreover have "col_active_rule c' = Some ?rid" "col_status c' = ''published''" using 1(2) by (simp_all add: published_source_def Let_def rid)
      moreover have "rule_number ?rid = Some (Suc (current_rule_number db cid))" by (simp add: next_rule_version_number)
      ultimately show ?case
        using c live review current_rule_number_upper [of _ db cid]
        by (intro exI [of _ c] exI [of _ ?rid])
          (auto simp: list_all_iff decision_valid_def allowed_review_decisions_def Let_def require_active_def less_Suc_eq_le split: if_splits)
    qed
  qed
qed

subsection \<open>An example\<close>

definition example_review :: collector where
  "example_review = example_collector\<lparr>col_status := ''ready_review'', col_collection_version := ''tender_notice_v4'', col_active_rule := None,
     col_candidate := Some (JObj [(''gatherSpec'', example_spec),
       (''fields'', JArr [JObj [(''key'', JStr ''title''), (''required'', JBool True), (''warning'', JNull)],
                          JObj [(''key'', JStr ''budget''), (''required'', JBool False), (''warning'', JStr ''rare'')]])])\<rparr>"

definition example_review_db :: db where
  "example_review_db = empty_db\<lparr>t_collectors :=
     [\<lparr>colr_id = ''collector_a'', colr_data = example_review, colr_created = 0, colr_updated = 0\<rparr>]\<rparr>"

definition example_ids :: publish_ids where
  "example_ids = \<lparr>pi_decision = ''approval_1'', pi_attestation = ''att_1'', pi_event = ''audit_1''\<rparr>"

definition example_decisions :: "(string \<times> json) list" where
  "example_decisions = [(''title'', JStr ''approved''), (''budget'', JStr ''excluded'')]"

lemma inr_of_code: "\<not> isl (snd x) \<Longrightarrow> \<exists>db c. x = (db, Inr c)"
  by (cases x, cases "snd x") simp_all

theorem only_reviewed_is_published_witness:
  "\<exists>db' c'. publish_rule (\<lambda>_. ''h'') (\<lambda>_. JNull) (\<lambda>_. []) example_crypto True ''t'' example_review_db ''collector_a''
     (JObj example_decisions) ''req_1'' ''user_a'' example_ids 5 = (db', Inr c') \<and> col_status c' = ''published''"
proof -
  have "\<not> isl (snd (publish_rule (\<lambda>_. ''h'') (\<lambda>_. JNull) (\<lambda>_. []) example_crypto True ''t'' example_review_db ''collector_a''
     (JObj example_decisions) ''req_1'' ''user_a'' example_ids 5))"
    by code_simp
  from inr_of_code [OF this] obtain db' c' where run: "publish_rule (\<lambda>_. ''h'') (\<lambda>_. JNull) (\<lambda>_. []) example_crypto True ''t''
     example_review_db ''collector_a'' (JObj example_decisions) ''req_1'' ''user_a'' example_ids 5 = (db', Inr c')"
    by blast
  have "col_id (colr_data r) = colr_id r" if "r \<in> set (t_collectors example_review_db)" for r
    using that by (simp add: example_review_db_def example_review_def example_collector_def)
  from only_reviewed_is_published [OF run this] have "col_status c' = ''published''" by blast
  with run show ?thesis by blast
qed

theorem published_rule_runs_witness:
  "\<exists>db' c'. persist_published_rule (\<lambda>_. ''h'') (\<lambda>_. JNull) (\<lambda>_. []) example_crypto True ''t'' example_review_db example_review ''rule_a_v1''
     (JObj example_decisions) ''req_1'' ''user_a'' ''rule.published'' example_ids 5 = (db', Inr c') \<and>
     (\<exists>ic. verified_run_integrity (rule_verifier example_crypto ''t'' 9) db' c' = Inr ic \<and> ic_rule_version ic = ''rule_a_v1'')"
proof -
  have "\<not> isl (snd (persist_published_rule (\<lambda>_. ''h'') (\<lambda>_. JNull) (\<lambda>_. []) example_crypto True ''t'' example_review_db example_review
     ''rule_a_v1'' (JObj example_decisions) ''req_1'' ''user_a'' ''rule.published'' example_ids 5))"
    by code_simp
  from inr_of_code [OF this] obtain db' c' where run: "persist_published_rule (\<lambda>_. ''h'') (\<lambda>_. JNull) (\<lambda>_. []) example_crypto True ''t''
     example_review_db example_review ''rule_a_v1'' (JObj example_decisions) ''req_1'' ''user_a'' ''rule.published'' example_ids 5 = (db', Inr c')"
    by blast
  have empty: "t_attestations example_review_db = []" "get_signing_key example_review_db k = None" for k
    by (simp_all add: example_review_db_def empty_db_def get_signing_key_def)
  have "\<exists>ic. verified_run_integrity (rule_verifier example_crypto ''t'' 9) db' c' = Inr ic \<and> ic_rule_version ic = ''rule_a_v1''"
    using published_rule_runs [OF run, of 9] by (simp add: empty example_crypto_def)
  with run show ?thesis by blast
qed

end
