(* ===== verification/Urls.thy ===== *)
theory Urls
  imports Texts
begin

text \<open>
  URLs as Python's \<open>urllib.parse.urlsplit\<close> takes them apart, and \<open>security.normalize_source_url\<close>.
  What \<open>ipaddress\<close> says of a text is the argument \<open>ip_library\<close>: the facts of an address literal
  and whether a bracketed host is an IPv6 (or future) literal. Texts are ASCII.
\<close>

record ip_facts =
  ad_text :: string
  ad_global :: bool
  ad_loopback :: bool
  ad_private :: bool
  ad_link_local :: bool
  ad_reserved :: bool

record ip_library =
  ip_parse :: "string \<Rightarrow> ip_facts option"
  ip_bracket :: "string \<Rightarrow> bool"

record url_parts =
  up_scheme :: string
  up_netloc :: string
  up_path :: string
  up_query :: string
  up_fragment :: string

subsection \<open>Cutting texts\<close>

definition before :: "char \<Rightarrow> string \<Rightarrow> string" where
  "before c s = takeWhile (\<lambda>d. d \<noteq> c) s"

definition after :: "char \<Rightarrow> string \<Rightarrow> string" where
  "after c s = drop 1 (dropWhile (\<lambda>d. d \<noteq> c) s)"

text \<open>The two sides of \<open>rpartition\<close>: without the character everything is on the right.\<close>

definition after_last :: "char \<Rightarrow> string \<Rightarrow> string" where
  "after_last c s = rev (before c (rev s))"

definition before_last :: "char \<Rightarrow> string \<Rightarrow> string" where
  "before_last c s = rev (after c (rev s))"

definition rstrip_char :: "char \<Rightarrow> string \<Rightarrow> string" where
  "rstrip_char c s = rev (dropWhile (\<lambda>d. d = c) (rev s))"

subsection \<open>Splitting\<close>

definition unsafe_char :: "char \<Rightarrow> bool" where
  "unsafe_char c \<longleftrightarrow> (of_char c :: nat) \<in> {9, 10, 13}"

definition leading_junk :: "char \<Rightarrow> bool" where
  "leading_junk c \<longleftrightarrow> (of_char c :: nat) \<le> 32"

definition is_letter :: "char \<Rightarrow> bool" where
  "is_letter c \<longleftrightarrow> is_upper c \<or> is_lower c"

definition scheme_char :: "char \<Rightarrow> bool" where
  "scheme_char c \<longleftrightarrow> is_letter c \<or> is_digit c \<or> c \<in> set ''+-.''"

text \<open>The text cleaned, its scheme and what follows.\<close>

definition clean_url :: "string \<Rightarrow> string" where
  "clean_url s = filter (\<lambda>c. \<not> unsafe_char c) (dropWhile leading_junk s)"

definition split_scheme :: "string \<Rightarrow> string \<times> string" where
  "split_scheme s =
     (let pre = before (CHR '':'') s
      in if CHR '':'' \<in> set s \<and> pre \<noteq> [] \<and> is_letter (hd pre) \<and> list_all scheme_char pre
         then (lower pre, after (CHR '':'') s) else ([], s))"

definition netloc_end :: "char \<Rightarrow> bool" where
  "netloc_end c \<longleftrightarrow> c \<in> set ''/?#''"

definition bracket_error :: "ip_library \<Rightarrow> string \<Rightarrow> bool" where
  "bracket_error ips netloc \<longleftrightarrow>
     (CHR ''['' \<in> set netloc) \<noteq> (CHR '']'' \<in> set netloc) \<or>
     (CHR ''['' \<in> set netloc \<and> \<not> ip_bracket ips (before (CHR '']'') (after (CHR ''['') netloc)))"

definition split_url :: "ip_library \<Rightarrow> string \<Rightarrow> url_parts option" where
  "split_url ips s =
     (let (scheme, rest) = split_scheme (clean_url s);
          located = starts_with ''//'' rest;
          netloc = (if located then takeWhile (\<lambda>c. \<not> netloc_end c) (drop 2 rest) else []);
          tail = (if located then dropWhile (\<lambda>c. \<not> netloc_end c) (drop 2 rest) else rest);
          front = before (CHR ''#'') tail
      in if bracket_error ips netloc then None
         else Some \<lparr>up_scheme = scheme, up_netloc = netloc, up_path = before (CHR ''?'') front,
                    up_query = after (CHR ''?'') front, up_fragment = after (CHR ''#'') tail\<rparr>)"

subsection \<open>Parts of the network location\<close>

definition url_userinfo :: "url_parts \<Rightarrow> string" where
  "url_userinfo u = before_last (CHR ''@'') (up_netloc u)"

definition has_credentials :: "url_parts \<Rightarrow> bool" where
  "has_credentials u \<longleftrightarrow> before (CHR '':'') (url_userinfo u) \<noteq> [] \<or> after (CHR '':'') (url_userinfo u) \<noteq> []"

text \<open>Host and port texts of the host information.\<close>

definition host_and_port :: "url_parts \<Rightarrow> string \<times> string" where
  "host_and_port u =
     (let info = after_last (CHR ''@'') (up_netloc u)
      in if CHR ''['' \<in> set info
         then (let b = after (CHR ''['') info in (before (CHR '']'') b, after (CHR '':'') (after (CHR '']'') b)))
         else (before (CHR '':'') info, after (CHR '':'') info))"

text \<open>The host name; the zone of a scoped address keeps its case.\<close>

definition url_hostname :: "url_parts \<Rightarrow> string" where
  "url_hostname u =
     (let h = fst (host_and_port u)
      in lower (before (CHR ''%'') h) @ dropWhile (\<lambda>c. c \<noteq> CHR ''%'') h)"

text \<open>\<open>None\<close> is the \<open>ValueError\<close> of a port that is no number up to 65535.\<close>

definition url_port :: "url_parts \<Rightarrow> nat option option" where
  "url_port u =
     (let p = snd (host_and_port u)
      in if p = [] then Some None
         else if list_all is_digit p \<and> digits_value p \<le> 65535 then Some (Some (digits_value p)) else None)"

text \<open>\<open>urlunsplit\<close> of parts with a network location.\<close>

definition join_url :: "url_parts \<Rightarrow> string" where
  "join_url u =
     (let path = (if up_path u \<noteq> [] \<and> hd (up_path u) \<noteq> CHR ''/'' then CHR ''/'' # up_path u else up_path u)
      in (if up_scheme u = [] then [] else up_scheme u @ '':'') @ ''//'' @ up_netloc u @ path @
         (if up_query u = [] then [] else ''?'' @ up_query u) @
         (if up_fragment u = [] then [] else ''#'' @ up_fragment u))"

subsection \<open>The address of a source\<close>

definition bare_host :: "string \<Rightarrow> string" where
  "bare_host h = rstrip_char (CHR ''.'') (lower h)"

abbreviation invalid_source :: py_exc where
  "invalid_source \<equiv> ValueErr ''INVALID_URL''"

definition normalize_source_url :: "ip_library \<Rightarrow> string \<Rightarrow> bool \<Rightarrow> bool \<Rightarrow> bool \<Rightarrow> py_exc + string \<times> string" where
  "normalize_source_url ips raw allow_localhost allow_public profile =
     (case split_url ips (strip raw) of
        None \<Rightarrow> Inl invalid_source
      | Some u \<Rightarrow>
          (case url_port u of
             None \<Rightarrow> Inl invalid_source
           | Some port \<Rightarrow>
               (let host = bare_host (url_hostname u); address = ip_parse ips host;
                    loopback = (host = ''localhost'' \<or> (case address of None \<Rightarrow> False | Some a \<Rightarrow> ad_loopback a));
                    inner = (case address of None \<Rightarrow> False | Some a \<Rightarrow> ad_private a \<or> ad_link_local a \<or> ad_reserved a)
                in if host = [] \<or> has_credentials u \<or> up_fragment u \<noteq> [] then Inl invalid_source
                   else if up_scheme u \<notin> {''http'', ''https''} then Inl invalid_source
                   else if up_scheme u = ''http'' \<and> profile then Inl (ValueErr ''HTTPS_REQUIRED'')
                   else if up_scheme u = ''http'' \<and> \<not> (allow_public \<or> (allow_localhost \<and> loopback)) then Inl (ValueErr ''HTTPS_REQUIRED'')
                   else if loopback \<and> \<not> allow_localhost then Inl invalid_source
                   else if inner \<and> \<not> (allow_localhost \<and> loopback) then Inl invalid_source
                   else Inr (join_url \<lparr>up_scheme = up_scheme u,
                               up_netloc = (case port of None \<Rightarrow> host | Some n \<Rightarrow> host @ '':'' @ nat_text n),
                               up_path = (if up_path u = [] then ''/'' else up_path u), up_query = up_query u, up_fragment = []\<rparr>,
                             host))))"

end
