(* ===== verification/Source_Network.thy ===== *)
theory Source_Network
  imports Urls
begin

text \<open>
  Anonymous egress to sources (\<open>source_network.py\<close>, \<open>SourceHttpClient.crawl\<close>): the check of a
  target, the pinned request, budgets, redirects, rate limiting, robots. The rest of the world is
  the argument \<open>internet\<close>: name resolution, the answers of servers, \<open>urljoin\<close>, the robots parser,
  HTTP dates and where a deadline strikes. It is asked with the number of earlier questions
  (\<open>nw_tick\<close>), so it may change its mind at any time. One operation runs at a time; \<open>nw_sent\<close>
  records the requests put on the wire.
\<close>

record wire_request =
  wr_url :: string
  wr_address :: string
  wr_port :: nat
  wr_https :: bool
  wr_host :: string
  wr_tls_name :: string

record source_response =
  sr_url :: string
  sr_status :: nat
  sr_headers :: "(string \<times> string) list"
  sr_body :: string

text \<open>Ways a step fails: a \<open>SourceNetworkError\<close>, the deadline, errors of the HTTP library, any other exception.\<close>

datatype net_failure =
    Rejected string
  | Late
  | HttpTimedOut
  | HttpBroken
  | ConnectFailed "(bool \<times> string option) list"
  | Crashed

datatype stream_end = Complete bool | Cut net_failure

text \<open>An answer: status, headers, whether the stream was consumed before, the chunks after decoding.\<close>

datatype wire_answer =
    Answer nat "(string \<times> string) list" bool "string option list" stream_end
  | NoAnswer net_failure

record internet =
  in_ips :: ip_library
  in_dns :: "nat \<Rightarrow> string \<Rightarrow> nat \<Rightarrow> string list option"
  in_answer :: "nat \<Rightarrow> wire_request \<Rightarrow> wire_answer"
  in_late :: "nat \<Rightarrow> bool"
  in_join :: "string \<Rightarrow> string \<Rightarrow> string"
  in_can_fetch :: "string option \<Rightarrow> string \<Rightarrow> bool"
  in_http_date :: "string \<Rightarrow> int option"

record net_config =
  nc_hosts :: "string list"
  nc_localhost :: bool
  nc_http :: bool
  nc_redirects :: nat
  nc_page_bytes :: int
  nc_total_bytes :: int
  nc_requests :: "nat option"
  nc_upgrade :: bool

record net_state =
  nw_sent :: "wire_request list"
  nw_requests :: nat
  nw_bytes :: int
  nw_robots :: "(string \<times> string option) list"
  nw_final :: "(string \<times> string) list"
  nw_limited :: "source_response option"
  nw_retry_after :: "int option"
  nw_tls :: "(string \<times> nat) list"
  nw_evidence :: "(string \<times> nat \<times> string \<times> string) list"
  nw_tick :: nat

type_synonym 'a net = "net_state \<times> (net_failure + 'a)"

definition net_config_of :: "string list \<Rightarrow> bool \<Rightarrow> bool \<Rightarrow> int \<Rightarrow> int \<Rightarrow> int \<Rightarrow> nat option \<Rightarrow> bool \<Rightarrow> net_config" where
  "net_config_of hosts localhost http redirects page whole requests upgrade =
     \<lparr>nc_hosts = map bare_host hosts, nc_localhost = localhost, nc_http = http, nc_redirects = nat (max 0 (min redirects 5)),
      nc_page_bytes = page, nc_total_bytes = whole, nc_requests = requests, nc_upgrade = upgrade\<rparr>"

definition new_network :: net_state where
  "new_network = \<lparr>nw_sent = [], nw_requests = 0, nw_bytes = 0, nw_robots = [], nw_final = [], nw_limited = None,
     nw_retry_after = None, nw_tls = [], nw_evidence = [], nw_tick = 0\<rparr>"

definition net_then :: "'a net \<Rightarrow> (net_state \<Rightarrow> 'a \<Rightarrow> 'b net) \<Rightarrow> 'b net" where
  "net_then r f = (case r of (s, Inl e) \<Rightarrow> (s, Inl e) | (s, Inr x) \<Rightarrow> f s x)"

definition net_tick :: "net_state \<Rightarrow> net_state" where
  "net_tick s = s\<lparr>nw_tick := Suc (nw_tick s)\<rparr>"

text \<open>Waiting for something: the deadline may strike.\<close>

definition await :: "internet \<Rightarrow> net_state \<Rightarrow> unit net" where
  "await net s = (net_tick s, if in_late net (nw_tick s) then Inl Late else Inr ())"

subsection \<open>Targets\<close>

definition literal_or_resolved :: "internet \<Rightarrow> string \<Rightarrow> nat \<Rightarrow> net_state \<Rightarrow> string list net" where
  "literal_or_resolved net host port s =
     (case ip_parse (in_ips net) host of
        Some a \<Rightarrow> (s, Inr [ad_text a])
      | None \<Rightarrow>
          net_then (await net s) (\<lambda>s1 _.
            case in_dns net (nw_tick s1) host port of
              None \<Rightarrow> (s1, Inl (Rejected ''dns_resolution_failed''))
            | Some addresses \<Rightarrow> (s1, Inr (rev (remdups (rev addresses))))))"

fun address_error :: "internet \<Rightarrow> net_config \<Rightarrow> string list \<Rightarrow> net_failure option" where
  "address_error net cfg [] = None"
| "address_error net cfg (a # as) =
     (case ip_parse (in_ips net) a of
        None \<Rightarrow> Some Crashed
      | Some f \<Rightarrow>
          if \<not> ad_global f \<and> \<not> (nc_localhost cfg \<and> ad_loopback f) then Some (Rejected ''network_address_blocked'')
          else address_error net cfg as)"

definition is_loopback :: "internet \<Rightarrow> string \<Rightarrow> bool" where
  "is_loopback net a = (case ip_parse (in_ips net) a of None \<Rightarrow> False | Some f \<Rightarrow> ad_loopback f)"

definition default_port :: "url_parts \<Rightarrow> nat option \<Rightarrow> nat" where
  "default_port u port = (case port of Some (Suc n) \<Rightarrow> Suc n | _ \<Rightarrow> if up_scheme u = ''https'' then 443 else 80)"

definition net_target :: "internet \<Rightarrow> net_config \<Rightarrow> string \<Rightarrow> net_state \<Rightarrow> wire_request net" where
  "net_target net cfg url s =
     (case split_url (in_ips net) url of
        None \<Rightarrow> (s, Inl (Rejected ''invalid_url''))
      | Some u \<Rightarrow>
          (case url_port u of
             None \<Rightarrow> (s, Inl (Rejected ''invalid_url''))
           | Some port \<Rightarrow>
               (let host = bare_host (url_hostname u); p = default_port u port
                in if up_scheme u \<notin> {''https'', ''http''} \<or> host = [] \<or> has_credentials u then (s, Inl (Rejected ''invalid_url''))
                   else if host \<notin> set (nc_hosts cfg) then (s, Inl (Rejected ''host_not_allowed''))
                   else net_then (literal_or_resolved net host p s) (\<lambda>s1 addresses.
                          if addresses = [] then (s1, Inl (Rejected ''dns_resolution_failed''))
                          else
                            (case address_error net cfg addresses of
                               Some e \<Rightarrow> (s1, Inl e)
                             | None \<Rightarrow>
                                 if up_scheme u = ''http'' \<and> \<not> nc_http cfg \<and>
                                    \<not> (nc_localhost cfg \<and> list_all (is_loopback net) addresses)
                                 then (s1, Inl (Rejected ''https_required''))
                                 else (s1, Inr \<lparr>wr_url = url, wr_address = hd addresses, wr_port = p, wr_https = (up_scheme u = ''https''),
                                                wr_host = up_netloc u, wr_tls_name = host\<rparr>))))))"

subsection \<open>One request\<close>

fun read_chunks :: "net_config \<Rightarrow> bool \<Rightarrow> string option list \<Rightarrow> string \<Rightarrow> net_state \<Rightarrow> string net" where
  "read_chunks cfg decoded [] body s = (s, Inr body)"
| "read_chunks cfg decoded (None # rest) body s = (s, Inl (Rejected ''invalid_content_encoding''))"
| "read_chunks cfg decoded (Some raw # rest) body s =
     (let limit = max 1 (min (nc_page_bytes cfg - int (length body)) (nc_total_bytes cfg - nw_bytes s) + 1);
          chunk = (if decoded then take (nat limit) raw else raw);
          body' = body @ chunk; s' = s\<lparr>nw_bytes := nw_bytes s + int (length chunk)\<rparr>
      in if nc_page_bytes cfg < int (length body') then (s', Inl (Rejected ''page_bytes_exceeded''))
         else if nc_total_bytes cfg < nw_bytes s' then (s', Inl (Rejected ''total_bytes_exceeded''))
         else read_chunks cfg decoded rest body' s')"

definition header :: "string \<Rightarrow> (string \<times> string) list \<Rightarrow> string option" where
  "header k hs = map_of hs k"

definition begin_request :: "net_config \<Rightarrow> wire_request \<Rightarrow> net_state \<Rightarrow> unit net" where
  "begin_request cfg req s =
     (if nw_limited s \<noteq> None then (s, Inl (Rejected ''source_rate_limited''))
      else if (case nc_requests cfg of None \<Rightarrow> False | Some m \<Rightarrow> m \<le> nw_requests s)
      then (s, Inl (Rejected ''source_request_budget_exceeded''))
      else (net_tick (s\<lparr>nw_requests := Suc (nw_requests s), nw_sent := nw_sent s @ [req]\<rparr>), Inr ()))"

definition content_encoding :: "(string \<times> string) list \<Rightarrow> string" where
  "content_encoding hs = lower (case header ''content-encoding'' hs of None \<Rightarrow> ''identity'' | Some e \<Rightarrow> e)"

definition decodes :: "(string \<times> string) list \<Rightarrow> bool \<Rightarrow> bool" where
  "decodes hs consumed \<longleftrightarrow> content_encoding hs \<in> {''gzip'', ''deflate''} \<and> \<not> consumed"

definition receive :: "net_config \<Rightarrow> wire_request \<Rightarrow> wire_answer \<Rightarrow> net_state \<Rightarrow> source_response net" where
  "receive cfg req answer s =
     (case answer of
        NoAnswer e \<Rightarrow> (s, Inl e)
      | Answer status hs consumed chunks stop \<Rightarrow>
          if content_encoding hs \<notin> {[], ''identity'', ''gzip'', ''deflate''} then (s, Inl (Rejected ''encoded_response_unsupported''))
          else net_then (read_chunks cfg (decodes hs consumed) chunks [] s) (\<lambda>s1 body.
                 case stop of
                   Cut e \<Rightarrow> (s1, Inl e)
                 | Complete whole \<Rightarrow>
                     if decodes hs consumed \<and> \<not> whole then (s1, Inl (Rejected ''invalid_content_encoding''))
                     else (s1, Inr \<lparr>sr_url = wr_url req, sr_status = status, sr_headers = hs, sr_body = body\<rparr>)))"

definition request_once :: "internet \<Rightarrow> net_config \<Rightarrow> wire_request \<Rightarrow> net_state \<Rightarrow> source_response net" where
  "request_once net cfg req s =
     net_then (begin_request cfg req s) (\<lambda>s1 _. receive cfg req (in_answer net (nw_tick s1) req) s1)"

definition bad_ecpoint :: "(bool \<times> string option) list \<Rightarrow> bool" where
  "bad_ecpoint causes \<longleftrightarrow> (True, Some ''BAD_ECPOINT'') \<in> set causes"

text \<open>A TLS handshake that fails on the default groups is tried once more, and remembered for the peer.\<close>

definition request :: "internet \<Rightarrow> net_config \<Rightarrow> wire_request \<Rightarrow> net_state \<Rightarrow> source_response net" where
  "request net cfg req s =
     (let peer = (wr_tls_name req, wr_port req)
      in if wr_https req \<and> peer \<in> set (nw_tls s) then request_once net cfg req s
         else
           (case request_once net cfg req s of
              (s1, Inl (ConnectFailed causes)) \<Rightarrow>
                if \<not> wr_https req \<or> \<not> bad_ecpoint causes then (s1, Inl (ConnectFailed causes))
                else net_then (request_once net cfg req s1) (\<lambda>s2 r. (s2\<lparr>nw_tls := nw_tls s2 @ [peer]\<rparr>, Inr r))
            | r \<Rightarrow> r))"

subsection \<open>Following redirects\<close>

text \<open>\<open>retry_after_seconds\<close>: at most ten years; a date as seconds from now is \<open>in_http_date\<close>.\<close>

definition ten_years :: int where
  "ten_years = 315360000"

definition retry_after_seconds :: "internet \<Rightarrow> string option \<Rightarrow> int option" where
  "retry_after_seconds net v =
     (case v of
        None \<Rightarrow> None
      | Some t \<Rightarrow>
          if t = [] then None
          else
            (let d = strip t
             in if d \<noteq> [] \<and> list_all is_digit d
                then Some (if length d \<le> 10 then min (int (digits_value d)) ten_years else ten_years)
                else map_option (\<lambda>n. min ten_years (max 0 n)) (in_http_date net d)))"

definition note_retry_after :: "internet \<Rightarrow> source_response \<Rightarrow> net_state \<Rightarrow> net_state" where
  "note_retry_after net r s =
     (case retry_after_seconds net (header ''retry-after'' (sr_headers r)) of
        None \<Rightarrow> s
      | Some hint \<Rightarrow> s\<lparr>nw_retry_after := Some (max (case nw_retry_after s of None \<Rightarrow> 0 | Some n \<Rightarrow> n) hint)\<rparr>)"

fun split_on :: "char \<Rightarrow> string \<Rightarrow> string list" where
  "split_on c [] = [[]]"
| "split_on c (d # ds) = (if d = c then [] # split_on c ds else (case split_on c ds of [] \<Rightarrow> [[d]] | w # ws \<Rightarrow> (d # w) # ws))"

text \<open>The path of a notice of the central procurement site, \<open>/cggg/x/y/202401/t20240131_12.htm\<close>.\<close>

definition notice_file :: "string \<Rightarrow> bool" where
  "notice_file f \<longleftrightarrow>
     (let stem = take (length f - 4) f; day = take 8 (drop 1 stem); number = drop 10 stem
      in 4 \<le> length f \<and> drop (length f - 4) f = ''.htm'' \<and> take 1 stem = ''t'' \<and> length day = 8 \<and> list_all is_digit day \<and>
         take 1 (drop 9 stem) = ''_'' \<and> number \<noteq> [] \<and> list_all is_digit number)"

definition notice_path :: "string \<Rightarrow> bool" where
  "notice_path p \<longleftrightarrow>
     (case split_on (CHR ''/'') p of
        [root, c, a, b, m, f] \<Rightarrow>
          root = [] \<and> c = ''cggg'' \<and> a \<noteq> [] \<and> list_all is_lower a \<and> b \<noteq> [] \<and> list_all is_lower b \<and>
          length m = 6 \<and> list_all is_digit m \<and> notice_file f
      | _ \<Rightarrow> False)"

definition ccgp_notice :: "ip_library \<Rightarrow> string \<Rightarrow> bool" where
  "ccgp_notice ips url =
     (case split_url ips url of
        None \<Rightarrow> False
      | Some u \<Rightarrow>
          up_scheme u \<in> {''http'', ''https''} \<and> url_hostname u = ''www.ccgp.gov.cn'' \<and> \<not> has_credentials u \<and>
          url_port u \<in> {Some None, Some (Some (if up_scheme u = ''https'' then 443 else 80))} \<and> notice_path (up_path u))"

definition https_original :: "ip_library \<Rightarrow> string \<Rightarrow> string" where
  "https_original ips url =
     (case split_url ips url of
        None \<Rightarrow> url
      | Some u \<Rightarrow> join_url \<lparr>up_scheme = ''https'', up_netloc = ''www.ccgp.gov.cn'', up_path = up_path u, up_query = up_query u, up_fragment = []\<rparr>)"

definition url_scheme :: "internet \<Rightarrow> string \<Rightarrow> string" where
  "url_scheme net url = (case split_url (in_ips net) url of None \<Rightarrow> [] | Some u \<Rightarrow> up_scheme u)"

definition fudan_redirect :: "internet \<Rightarrow> string \<Rightarrow> bool" where
  "fudan_redirect net url =
     (case split_url (in_ips net) url of
        None \<Rightarrow> False
      | Some u \<Rightarrow> url_hostname u = ''czzx.fudan.edu.cn'' \<and> starts_with ''/_redirect'' (up_path u))"

text \<open>The next URL of a redirect: never from https to another scheme, except by an upgrade to https.\<close>

definition redirect_url :: "internet \<Rightarrow> net_config \<Rightarrow> string \<Rightarrow> source_response \<Rightarrow> net_state \<Rightarrow> string net" where
  "redirect_url net cfg url r s =
     (case header ''location'' (sr_headers r) of
        None \<Rightarrow> (s, Inl (Rejected ''redirect_missing_location''))
      | Some location \<Rightarrow>
          (let next = in_join net url location
           in if location = [] then (s, Inl (Rejected ''redirect_missing_location''))
              else if split_url (in_ips net) next = None then (s, Inl Crashed)
              else if url_scheme net url = ''https'' \<and> url_scheme net next \<noteq> ''https''
              then if nc_upgrade cfg \<and> fudan_redirect net url \<and> ccgp_notice (in_ips net) next
                   then (let up = https_original (in_ips net) next
                         in (s\<lparr>nw_evidence := nw_evidence s @ [(url, sr_status r, next, up)]\<rparr>, Inr up))
                   else (s, Inl (Rejected ''redirect_https_downgrade''))
              else (s, Inr next)))"

definition redirect_status :: "nat \<Rightarrow> bool" where
  "redirect_status n \<longleftrightarrow> n \<in> {301, 302, 303, 307, 308}"

text \<open>One hop up to its answer; \<open>check\<close> is the robots check of the caller.\<close>

definition hop :: "internet \<Rightarrow> net_config \<Rightarrow> (string \<Rightarrow> net_state \<Rightarrow> unit net) \<Rightarrow> string \<Rightarrow> net_state \<Rightarrow> source_response net" where
  "hop net cfg check url s =
     (if nw_limited s \<noteq> None then (s, Inl (Rejected ''source_rate_limited''))
      else net_then (check url s) (\<lambda>s1 _.
           net_then (net_target net cfg url s1) (\<lambda>s2 req.
           net_then (await net s2) (\<lambda>s3 _.
           net_then (request net cfg req s3) (\<lambda>s4 r.
             (let s5 = note_retry_after net r s4
              in if sr_status r = 429 then (s5\<lparr>nw_limited := Some r\<rparr>, Inl (Rejected ''source_rate_limited''))
                 else (s5, Inr r)))))))"

fun fetch_hops ::
  "internet \<Rightarrow> net_config \<Rightarrow> (string \<Rightarrow> net_state \<Rightarrow> unit net) \<Rightarrow> bool \<Rightarrow> nat \<Rightarrow> string \<Rightarrow> net_state \<Rightarrow> source_response net" where
  "fetch_hops net cfg check follow 0 url s = (s, Inl (Rejected ''redirect_limit_exceeded''))"
| "fetch_hops net cfg check follow (Suc left) url s =
     net_then (hop net cfg check url s) (\<lambda>s1 r.
       if \<not> redirect_status (sr_status r) then (s1, Inr r)
       else net_then (redirect_url net cfg url r s1) (\<lambda>s2 next.
            net_then (net_target net cfg next s2) (\<lambda>s3 _.
              if \<not> follow
              then if nc_redirects cfg = 0 then (s3, Inl (Rejected ''redirect_limit_exceeded''))
                   else (s3, Inr (r\<lparr>sr_headers := (''location'', next) # sr_headers r\<rparr>))
              else fetch_hops net cfg check follow left next s3)))"

definition no_check :: "string \<Rightarrow> net_state \<Rightarrow> unit net" where
  "no_check url s = (s, Inr ())"

subsection \<open>Robots\<close>

definition require_success :: "source_response \<Rightarrow> net_failure option" where
  "require_success r =
     (if sr_status r \<in> {401, 403} then Some (Rejected ''authentication_or_access_required'')
      else if \<not> (200 \<le> sr_status r \<and> sr_status r < 300) then Some (Rejected (''http_status_'' @ nat_text (sr_status r)))
      else None)"

definition url_origin :: "internet \<Rightarrow> string \<Rightarrow> string option" where
  "url_origin net url =
     map_option (\<lambda>u. join_url \<lparr>up_scheme = up_scheme u, up_netloc = up_netloc u, up_path = [], up_query = [], up_fragment = []\<rparr>)
       (split_url (in_ips net) url)"

text \<open>The robots file of an answer: absent, forbidding, or its text.\<close>

definition robots_of :: "source_response \<Rightarrow> net_failure + string option" where
  "robots_of r =
     (if sr_status r \<in> {404, 410} then Inr None
      else if sr_status r \<in> {401, 403} then Inl (Rejected ''robots_disallowed'')
      else (case require_success r of Some e \<Rightarrow> Inl e | None \<Rightarrow> Inr (Some (sr_body r))))"

definition check_robots ::
  "internet \<Rightarrow> (string \<Rightarrow> net_state \<Rightarrow> source_response net) \<Rightarrow> string \<Rightarrow> net_state \<Rightarrow> unit net" where
  "check_robots net getter url s =
     (case url_origin net url of
        None \<Rightarrow> (s, Inl Crashed)
      | Some origin \<Rightarrow>
          net_then
            (if map_of (nw_robots s) origin \<noteq> None then (s, Inr ())
             else net_then (getter (origin @ ''/robots.txt'') s) (\<lambda>s1 r.
                    (case robots_of r of
                       Inl e \<Rightarrow> (s1, Inl e)
                     | Inr rules \<Rightarrow> (s1\<lparr>nw_robots := nw_robots s1 @ [(origin, rules)]\<rparr>, Inr ()))))
            (\<lambda>s2 _. case map_of (nw_robots s2) origin of
                      None \<Rightarrow> (s2, Inl Crashed)
                    | Some rules \<Rightarrow> if in_can_fetch net rules url then (s2, Inr ()) else (s2, Inl (Rejected ''robots_disallowed''))))"

definition fetch_plain :: "internet \<Rightarrow> net_config \<Rightarrow> bool \<Rightarrow> string \<Rightarrow> net_state \<Rightarrow> source_response net" where
  "fetch_plain net cfg follow url s = fetch_hops net cfg no_check follow (Suc (nc_redirects cfg)) url s"

definition robots_within :: "internet \<Rightarrow> net_config \<Rightarrow> string \<Rightarrow> net_state \<Rightarrow> unit net" where
  "robots_within net cfg url s = check_robots net (fetch_plain net cfg True) url s"

definition fetch_checked :: "internet \<Rightarrow> net_config \<Rightarrow> bool \<Rightarrow> string \<Rightarrow> net_state \<Rightarrow> source_response net" where
  "fetch_checked net cfg follow url s = fetch_hops net cfg (robots_within net cfg) follow (Suc (nc_redirects cfg)) url s"

subsection \<open>The public operations\<close>

definition source_error :: "net_failure \<Rightarrow> net_failure" where
  "source_error e =
     (case e of
        Late \<Rightarrow> Rejected ''duration_exceeded''
      | HttpTimedOut \<Rightarrow> Rejected ''source_request_timed_out''
      | HttpBroken \<Rightarrow> Rejected ''source_connection_failed''
      | ConnectFailed _ \<Rightarrow> Rejected ''source_connection_failed''
      | _ \<Rightarrow> e)"

definition fetch :: "internet \<Rightarrow> net_config \<Rightarrow> bool \<Rightarrow> bool \<Rightarrow> string \<Rightarrow> net_state \<Rightarrow> source_response net" where
  "fetch net cfg follow respect url s =
     (case await net s of
        (s0, Inl _) \<Rightarrow> (s0, Inl (Rejected ''duration_exceeded''))
      | (s0, Inr _) \<Rightarrow>
          (case (if respect then fetch_checked net cfg follow url s0 else fetch_plain net cfg follow url s0) of
             (s1, Inl e) \<Rightarrow> (s1, Inl (source_error e))
           | (s1, Inr r) \<Rightarrow> (s1\<lparr>nw_final := (url, sr_url r) # nw_final s1\<rparr>, Inr r)))"

definition robots_before :: "internet \<Rightarrow> net_config \<Rightarrow> string \<Rightarrow> net_state \<Rightarrow> unit net" where
  "robots_before net cfg url s = check_robots net (fetch net cfg True False) url s"

text \<open>\<open>SourceHttpClient.crawl\<close>: the page of a source; and which failures may be tried again.\<close>

definition crawl_page :: "internet \<Rightarrow> net_config \<Rightarrow> string \<Rightarrow> net_state \<Rightarrow> source_response net" where
  "crawl_page net cfg url s =
     net_then (robots_before net cfg url s) (\<lambda>s1 _.
     net_then (fetch net cfg True True url s1) (\<lambda>s2 r.
       (case require_success r of Some e \<Rightarrow> (s2, Inl e) | None \<Rightarrow> (s2, Inr r))))"

definition may_retry :: "net_failure \<Rightarrow> bool" where
  "may_retry e \<longleftrightarrow> e \<in> set (map Rejected [''source_connection_failed'', ''source_request_timed_out'', ''http_status_408'',
     ''http_status_429'', ''http_status_500'', ''http_status_502'', ''http_status_503'', ''http_status_504''])"

end
