(* ===== verification/Url_Safety.thy ===== *)
theory Url_Safety
  imports Urls
begin

text \<open>
  The address of a source, once accepted, means the same to everyone who parses it again; and
  the defect for IPv6 literals, whose brackets are lost.
\<close>

lemma set_before: "set (before c s) \<subseteq> set s"
  by (auto simp: before_def dest: set_takeWhileD)

lemma before_no: "c \<notin> set (before c s)"
  by (auto simp: before_def dest: set_takeWhileD)

lemma set_after: "set (after c s) \<subseteq> set s"
  by (auto simp: after_def dest!: in_set_dropD set_dropWhileD)

lemma set_after_last: "set (after_last c s) \<subseteq> set s"
  using set_before [of c "rev s"] by (simp add: after_last_def)

lemma after_last_no: "c \<notin> set (after_last c s)"
  using before_no [of c "rev s"] by (simp add: after_last_def)

lemma before_none: "c \<notin> set s \<Longrightarrow> before c s = s"
  by (auto simp: before_def takeWhile_eq_all_conv)

lemma after_none: "c \<notin> set s \<Longrightarrow> after c s = []"
proof -
  assume "c \<notin> set s"
  then have d: "dropWhile (\<lambda>d. d \<noteq> c) s = []" by auto
  show ?thesis unfolding after_def d by simp
qed

lemma after_last_none: "c \<notin> set s \<Longrightarrow> after_last c s = s"
  by (simp add: after_last_def before_none)

lemma before_last_none: "c \<notin> set s \<Longrightarrow> before_last c s = []"
  by (simp add: before_last_def after_none)

lemma before_cons: "c \<notin> set s \<Longrightarrow> before c (s @ c # t) = s"
  by (auto simp: before_def takeWhile_append)

lemma after_cons: "c \<notin> set s \<Longrightarrow> after c (s @ c # t) = t"
  by (auto simp: after_def dropWhile_append)

lemma lower_char_letter: "is_upper c \<Longrightarrow> is_lower (lower_char c)"
  by (simp add: is_upper_def is_lower_def lower_char_def less_eq_char_def)

lemma lower_char_other: "\<not> is_letter d \<Longrightarrow> lower_char c = d \<longleftrightarrow> c = d"
  using lower_char_letter [of c] by (auto simp: is_letter_def lower_char_def split: if_splits)

lemma lower_char_idem: "lower_char (lower_char c) = lower_char c"
proof (cases "is_upper c")
  case True
  then have "is_lower (lower_char c)" by (rule lower_char_letter)
  then have "\<not> is_upper (lower_char c)" by (auto simp: is_upper_def is_lower_def less_eq_char_def)
  then show ?thesis by (simp add: lower_char_def)
qed (simp add: lower_char_def)

lemma lower_idem: "lower (lower s) = lower s"
  by (simp add: lower_def lower_char_idem)

lemma in_lower: "\<not> is_letter d \<Longrightarrow> d \<in> set (lower s) \<longleftrightarrow> d \<in> set s"
proof -
  assume "\<not> is_letter d"
  then have "d = lower_char c \<longleftrightarrow> c = d" for c using lower_char_other [of d c] by auto
  then show ?thesis by (simp add: lower_def image_iff)
qed

lemma set_rstrip_char: "set (rstrip_char c s) \<subseteq> set s"
  by (auto simp: rstrip_char_def dest: set_dropWhileD)

lemma lower_fixed: "lower s = s \<longleftrightarrow> (\<forall>c \<in> set s. lower_char c = c)"
  using map_eq_conv [of lower_char s id] by (simp add: lower_def)

lemma lower_rstrip: "lower s = s \<Longrightarrow> lower (rstrip_char c s) = rstrip_char c s"
  using set_rstrip_char [of c s] by (auto simp: lower_fixed)

lemma punctuation [simp]:
  "\<not> is_letter (CHR '':'')" "\<not> is_letter (CHR ''/'')" "\<not> is_letter (CHR ''?'')" "\<not> is_letter (CHR ''#'')"
  "\<not> is_letter (CHR ''['')" "\<not> is_letter (CHR '']'')" "\<not> is_letter (CHR ''@'')" "\<not> is_letter (CHR ''%'')"
  by (simp_all add: is_letter_def is_upper_def is_lower_def less_eq_char_def)

lemma unsafe_letter: "unsafe_char c \<Longrightarrow> \<not> is_letter c"
  by (auto simp: unsafe_char_def is_letter_def is_upper_def is_lower_def less_eq_char_def)

subsection \<open>Parsing a joined address\<close>

definition plain_char :: "char \<Rightarrow> bool" where
  "plain_char c \<longleftrightarrow> \<not> unsafe_char c \<and> \<not> netloc_end c \<and> c \<notin> {CHR ''['', CHR '']'', CHR ''@''}"

lemma clean_url_id:
  assumes "s \<noteq> []" "\<not> leading_junk (hd s)" "\<forall>c \<in> set s. \<not> unsafe_char c"
  shows "clean_url s = s"
  using assms by (cases s) (auto simp: clean_url_def filter_id_conv)

lemma split_scheme_web:
  assumes "scheme = ''http'' \<or> scheme = ''https''"
  shows "split_scheme (scheme @ CHR '':'' # rest) = (scheme, rest)"
proof -
  have no: "CHR '':'' \<notin> set scheme" using assms by auto
  have ok: "scheme \<noteq> []" "is_letter (hd scheme)" "list_all scheme_char scheme" "lower scheme = scheme"
    using assms by (auto simp: is_letter_def is_lower_def is_upper_def less_eq_char_def scheme_char_def lower_def lower_char_def)
  show ?thesis by (simp add: split_scheme_def before_cons [OF no] after_cons [OF no] ok Let_def)
qed

lemma split_join_url:
  assumes web: "up_scheme u = ''http'' \<or> up_scheme u = ''https''"
    and netloc: "\<forall>c \<in> set (up_netloc u). plain_char c"
    and path: "up_path u \<noteq> []" "hd (up_path u) = CHR ''/''" "\<forall>c \<in> set (up_path u). \<not> unsafe_char c \<and> c \<noteq> CHR ''?'' \<and> c \<noteq> CHR ''#''"
    and query: "\<forall>c \<in> set (up_query u). \<not> unsafe_char c \<and> c \<noteq> CHR ''#''" and frag: "up_fragment u = []"
  shows "split_url ips (join_url u) = Some u"
proof -
  define q where "q = (if up_query u = [] then [] else ''?'' @ up_query u)"
  obtain p where p: "up_path u = CHR ''/'' # p" using path(1,2) by (cases "up_path u") simp_all
  have join: "join_url u = up_scheme u @ CHR '':'' # ''//'' @ up_netloc u @ up_path u @ q"
    using web frag p by (auto simp: join_url_def q_def)
  have safe: "\<forall>c \<in> set (join_url u). \<not> unsafe_char c"
  proof
    fix c
    assume "c \<in> set (join_url u)"
    then have "c \<in> set (up_scheme u) \<or> c \<in> set '':/?'' \<or> c \<in> set (up_netloc u) \<or> c \<in> set (up_path u) \<or> c \<in> set (up_query u)"
      unfolding join q_def by (auto split: if_splits)
    moreover have "\<not> unsafe_char d" if "d \<in> set (up_scheme u) \<or> d \<in> set '':/?''" for d
      using web that by (auto simp: unsafe_char_def)
    ultimately show "\<not> unsafe_char c" using netloc path(3) query unfolding plain_char_def by blast
  qed
  have start: "join_url u \<noteq> []" "\<not> leading_junk (hd (join_url u))"
    using web by (auto simp: join leading_junk_def)
  have clean: "clean_url (join_url u) = up_scheme u @ CHR '':'' # ''//'' @ up_netloc u @ up_path u @ q"
    unfolding clean_url_id [OF start safe] by (rule join)
  have sch: "split_scheme (clean_url (join_url u)) = (up_scheme u, ''//'' @ up_netloc u @ up_path u @ q)"
    unfolding clean by (rule split_scheme_web [OF web])
  have cut: "takeWhile (\<lambda>c. \<not> netloc_end c) (up_netloc u @ up_path u @ q) = up_netloc u"
    "dropWhile (\<lambda>c. \<not> netloc_end c) (up_netloc u @ up_path u @ q) = up_path u @ q"
    using netloc by (simp_all add: p takeWhile_append dropWhile_append plain_char_def netloc_end_def)
  have front: "before (CHR ''#'') (up_path u @ q) = up_path u @ q" "after (CHR ''#'') (up_path u @ q) = []"
  proof -
    have "CHR ''#'' \<notin> set (up_path u)" "CHR ''#'' \<notin> set (up_query u)" using path(3) query by blast+
    then have "CHR ''#'' \<notin> set (up_path u @ q)" by (simp add: q_def)
    then show "before (CHR ''#'') (up_path u @ q) = up_path u @ q" "after (CHR ''#'') (up_path u @ q) = []"
      by (rule before_none, rule after_none)
  qed
  have pq: "before (CHR ''?'') (up_path u @ q) = up_path u" "after (CHR ''?'') (up_path u @ q) = up_query u"
  proof -
    have no: "CHR ''?'' \<notin> set (up_path u)" using path(3) by blast
    then show "before (CHR ''?'') (up_path u @ q) = up_path u" "after (CHR ''?'') (up_path u @ q) = up_query u"
      by (simp_all add: q_def before_none after_none before_cons after_cons)
  qed
  have br: "\<not> bracket_error ips (up_netloc u)" using netloc by (auto simp: bracket_error_def plain_char_def)
  have two: "starts_with ''//'' (''//'' @ r)" "drop 2 (''//'' @ r) = r" for r by (simp_all add: starts_with_def)
  have "split_url ips (join_url u) = Some \<lparr>up_scheme = up_scheme u, up_netloc = up_netloc u, up_path = up_path u,
      up_query = up_query u, up_fragment = []\<rparr>"
    unfolding split_url_def sch Let_def prod.case two if_P [OF two(1)] cut front pq using br by (simp only: if_False)
  also have "\<dots> = Some u" by (subst frag [symmetric]) simp
  finally show ?thesis .
qed

text \<open>What the parts of a text consist of.\<close>

lemma split_url_parts:
  assumes "split_url ips s = Some u"
  shows "\<forall>c \<in> set (up_netloc u). c \<in> set s \<and> \<not> unsafe_char c \<and> \<not> netloc_end c"
    "\<forall>c \<in> set (up_path u). \<not> unsafe_char c \<and> c \<noteq> CHR ''?'' \<and> c \<noteq> CHR ''#''"
    "\<forall>c \<in> set (up_query u). \<not> unsafe_char c \<and> c \<noteq> CHR ''#''"
    "\<not> bracket_error ips (up_netloc u)"
    "up_netloc u \<noteq> [] \<Longrightarrow> up_path u \<noteq> [] \<Longrightarrow> hd (up_path u) = CHR ''/''"
proof -
  obtain scheme rest where sp: "split_scheme (clean_url s) = (scheme, rest)" by fastforce
  define n where "n = (if starts_with ''//'' rest then takeWhile (\<lambda>c. \<not> netloc_end c) (drop 2 rest) else [])"
  define t where "t = (if starts_with ''//'' rest then dropWhile (\<lambda>c. \<not> netloc_end c) (drop 2 rest) else rest)"
  have u: "u = \<lparr>up_scheme = scheme, up_netloc = n, up_path = before (CHR ''?'') (before (CHR ''#'') t),
      up_query = after (CHR ''?'') (before (CHR ''#'') t), up_fragment = after (CHR ''#'') t\<rparr>"
    and br: "\<not> bracket_error ips n"
    using assms unfolding split_url_def sp Let_def prod.case n_def [symmetric] t_def [symmetric] by (auto split: if_splits)
  have rest: "set rest \<subseteq> set (clean_url s)"
    using sp set_after by (auto simp: split_scheme_def Let_def split: if_splits)
  have clean: "\<forall>c \<in> set (clean_url s). c \<in> set s \<and> \<not> unsafe_char c" by (auto simp: clean_url_def dest: set_dropWhileD)
  have "set n \<subseteq> set rest" by (auto simp: n_def dest!: set_takeWhileD in_set_dropD)
  moreover have "\<forall>c \<in> set n. \<not> netloc_end c" by (auto simp: n_def dest!: set_takeWhileD)
  ultimately show "\<forall>c \<in> set (up_netloc u). c \<in> set s \<and> \<not> unsafe_char c \<and> \<not> netloc_end c" using rest clean by (auto simp: u)
  have t: "set t \<subseteq> set rest" by (auto simp: t_def dest!: set_dropWhileD in_set_dropD)
  have front: "set (before (CHR ''#'') t) \<subseteq> set t" "CHR ''#'' \<notin> set (before (CHR ''#'') t)"
    by (rule set_before, rule before_no)
  have good: "\<forall>c \<in> set (before (CHR ''#'') t). \<not> unsafe_char c \<and> c \<noteq> CHR ''#''"
    using t rest clean front by blast
  show "\<forall>c \<in> set (up_path u). \<not> unsafe_char c \<and> c \<noteq> CHR ''?'' \<and> c \<noteq> CHR ''#''"
    using good set_before [of "CHR ''?''" "before (CHR ''#'') t"] before_no [of "CHR ''?''" "before (CHR ''#'') t"] by (auto simp: u)
  show "\<forall>c \<in> set (up_query u). \<not> unsafe_char c \<and> c \<noteq> CHR ''#''"
    using good set_after [of "CHR ''?''" "before (CHR ''#'') t"] by (auto simp: u)
  show "\<not> bracket_error ips (up_netloc u)" using br by (simp add: u)
  assume ne: "up_netloc u \<noteq> []" "up_path u \<noteq> []"
  then have tt: "t = dropWhile (\<lambda>c. \<not> netloc_end c) (drop 2 rest)" by (auto simp: u n_def t_def split: if_splits)
  have "t \<noteq> []" using ne(2) by (auto simp: u before_def)
  then have "netloc_end (hd t)" unfolding tt by (metis hd_dropWhile)
  with ne(2) \<open>t \<noteq> []\<close> show "hd (up_path u) = CHR ''/''"
    by (cases t) (auto simp: u before_def netloc_end_def split: if_splits)
qed

lemma hostname_chars:
  assumes "CHR ''['' \<notin> set (up_netloc u)"
  shows "\<forall>c \<in> set (url_hostname u). c \<in> set (lower (up_netloc u)) \<or> c \<in> set (up_netloc u)"
    and "CHR '':'' \<notin> set (url_hostname u)" "CHR ''@'' \<notin> set (url_hostname u)"
proof -
  let ?info = "after_last (CHR ''@'') (up_netloc u)"
  let ?h = "before (CHR '':'') ?info"
  have "CHR ''['' \<notin> set ?info" using assms set_after_last by blast
  then have h: "url_hostname u = lower (before (CHR ''%'') ?h) @ dropWhile (\<lambda>c. c \<noteq> CHR ''%'') ?h"
    by (simp add: url_hostname_def host_and_port_def Let_def)
  have sub: "set ?h \<subseteq> set ?info" "set (before (CHR ''%'') ?h) \<subseteq> set ?h" "set ?info \<subseteq> set (up_netloc u)"
    by (rule set_before set_after_last)+
  have drop: "set (dropWhile (\<lambda>c. c \<noteq> CHR ''%'') ?h) \<subseteq> set ?h" by (auto dest: set_dropWhileD)
  have low: "set (lower (before (CHR ''%'') ?h)) \<subseteq> set (lower (up_netloc u))" using sub by (auto simp: lower_def)
  show "\<forall>c \<in> set (url_hostname u). c \<in> set (lower (up_netloc u)) \<or> c \<in> set (up_netloc u)"
    using low drop sub unfolding h set_append by blast
  have "CHR '':'' \<notin> set ?h" "CHR ''@'' \<notin> set ?h"
    using before_no [of "CHR '':''" ?info] sub(1) after_last_no [of "CHR ''@''" "up_netloc u"] by blast+
  then show "CHR '':'' \<notin> set (url_hostname u)" "CHR ''@'' \<notin> set (url_hostname u)"
    using drop sub(2) unfolding h set_append by (auto simp: in_lower)
qed

lemma bare_host_chars: "set (bare_host h) \<subseteq> set (lower h)"
  unfolding bare_host_def by (rule set_rstrip_char)

lemma plain_hostname:
  assumes "CHR ''['' \<notin> set (up_netloc u)" "CHR '']'' \<notin> set (up_netloc u)"
    and "\<forall>c \<in> set (up_netloc u). \<not> unsafe_char c \<and> \<not> netloc_end c"
  shows "\<forall>c \<in> set (bare_host (url_hostname u)). plain_char c \<and> c \<noteq> CHR '':''"
proof
  fix c
  assume "c \<in> set (bare_host (url_hostname u))"
  then have c: "c \<in> set (lower (url_hostname u))" using bare_host_chars by blast
  show "plain_char c \<and> c \<noteq> CHR '':''"
  proof (cases "is_letter c")
    case True
    then show ?thesis
      by (auto simp: plain_char_def netloc_end_def dest: unsafe_letter)
  next
    case False
    then have h: "c \<in> set (url_hostname u)" using c by (simp add: in_lower)
    then have n: "c \<in> set (up_netloc u)" using hostname_chars(1) [OF assms(1)] in_lower [OF False, of "up_netloc u"] by blast
    have "c \<noteq> CHR '':''" "c \<noteq> CHR ''@''" using h hostname_chars(2,3) [OF assms(1)] by blast+
    moreover have "c \<noteq> CHR ''[''" "c \<noteq> CHR '']''" using n assms(1,2) by blast+
    ultimately show ?thesis using n assms(3) unfolding plain_char_def by blast
  qed
qed

lemma plain_host_parts:
  assumes "\<forall>c \<in> set h. plain_char c \<and> c \<noteq> CHR '':''" "lower h = h" "up_netloc u = h @ (case port of None \<Rightarrow> [] | Some n \<Rightarrow> '':'' @ nat_text n)"
    and "\<And>n. port = Some n \<Longrightarrow> n \<le> 65535"
  shows "url_hostname u = h" "url_port u = Some port" "\<not> has_credentials u"
proof -
  have no: "CHR '':'' \<notin> set h" "CHR ''@'' \<notin> set h" "CHR ''['' \<notin> set h" using assms(1) by (auto simp: plain_char_def)
  have digits: "d \<notin> set (nat_text n)" if "\<not> is_digit d" for d n using nat_text_digits [of n] that by (auto simp: list_all_iff)
  have at: "CHR ''@'' \<notin> set (up_netloc u)" "CHR ''['' \<notin> set (up_netloc u)"
    using no digits [of "CHR ''@''"] digits [of "CHR ''[''"] by (auto simp: assms(3) is_digit_def split: option.splits)
  have "host_and_port u = (before (CHR '':'') (up_netloc u), after (CHR '':'') (up_netloc u))"
    by (simp add: host_and_port_def Let_def after_last_none [OF at(1)] at(2))
  also have "\<dots> = (h, case port of None \<Rightarrow> [] | Some n \<Rightarrow> nat_text n)"
    using no(1) by (cases port) (simp_all add: assms(3) before_none after_none before_cons after_cons)
  finally have hp: "host_and_port u = (h, case port of None \<Rightarrow> [] | Some n \<Rightarrow> nat_text n)" .
  have "before (CHR ''%'') h @ dropWhile (\<lambda>c. c \<noteq> CHR ''%'') h = h" by (simp add: before_def)
  moreover have "lower (before (CHR ''%'') h) = before (CHR ''%'') h"
    using assms(2) set_before [of "CHR ''%''" h] by (auto simp: lower_fixed)
  ultimately show "url_hostname u = h" by (simp add: url_hostname_def hp)
  show "url_port u = Some port" using assms(4) nat_text_digits
    by (cases port) (simp_all add: url_port_def hp digits_value_nat_text)
  have "url_userinfo u = []" unfolding url_userinfo_def by (rule before_last_none [OF at(1)])
  then show "\<not> has_credentials u" by (simp add: has_credentials_def before_def after_def)
qed

lemma url_port_bound: "url_port u = Some (Some n) \<Longrightarrow> n \<le> 65535"
  by (auto simp: url_port_def Let_def split: if_splits)

lemma normalize_source_url_cases:
  assumes "normalize_source_url ips raw l p profile = Inr (url, h)"
  obtains u port where "split_url ips (strip raw) = Some u" "url_port u = Some port" "h = bare_host (url_hostname u)" "h \<noteq> []"
    "\<not> has_credentials u" "up_fragment u = []" "up_scheme u = ''http'' \<or> up_scheme u = ''https''" "up_scheme u = ''http'' \<Longrightarrow> \<not> profile \<and> (p \<or> l)"
    "h = ''localhost'' \<Longrightarrow> l"
    "\<And>a. ip_parse ips h = Some a \<Longrightarrow> (ad_loopback a \<longrightarrow> l) \<and> (ad_private a \<or> ad_link_local a \<or> ad_reserved a \<longrightarrow> l \<and> (ad_loopback a \<or> h = ''localhost''))"
    "url = join_url \<lparr>up_scheme = up_scheme u, up_netloc = (case port of None \<Rightarrow> h | Some n \<Rightarrow> h @ '':'' @ nat_text n),
                               up_path = (if up_path u = [] then ''/'' else up_path u), up_query = up_query u, up_fragment = []\<rparr>"
proof -
  obtain u where u: "split_url ips (strip raw) = Some u"
    using assms by (cases "split_url ips (strip raw)") (simp_all add: normalize_source_url_def)
  obtain port where port: "url_port u = Some port"
    using assms u by (cases "url_port u") (simp_all add: normalize_source_url_def)
  show thesis
    using assms u port by (intro that [OF u port])
      (auto simp: normalize_source_url_def Let_def split: if_splits option.splits)
qed

text \<open>
  C35. An accepted source address means the same when it is parsed again: it is an http or https
  URL without credentials or fragment whose host is the one recorded for the source and whose
  port and query are those of the input; http only without an access profile and where the
  deployment allows it, local names and addresses only where it allows localhost, and no
  private, link-local or reserved address otherwise. Addresses in brackets are excluded.
\<close>

theorem normalized_source_url_parses:
  assumes "normalize_source_url ips raw l p profile = Inr (url, h)" and "CHR ''['' \<notin> set raw"
  shows "\<exists>u0 u. split_url ips (strip raw) = Some u0 \<and> split_url ips url = Some u \<and> url_hostname u = h \<and> h \<noteq> [] \<and>
    url_port u = url_port u0 \<and> up_query u = up_query u0 \<and> up_fragment u = [] \<and> \<not> has_credentials u \<and>
    (up_scheme u = ''https'' \<or> up_scheme u = ''http'' \<and> \<not> profile \<and> (p \<or> l)) \<and> (h = ''localhost'' \<longrightarrow> l) \<and>
    (\<forall>a. ip_parse ips h = Some a \<longrightarrow> ad_loopback a \<or> ad_private a \<or> ad_link_local a \<or> ad_reserved a \<longrightarrow>
       l \<and> (ad_loopback a \<or> h = ''localhost''))"
  using assms(1)
proof (rule normalize_source_url_cases, goal_cases)
  case (1 u0 port)
  let ?u = "\<lparr>up_scheme = up_scheme u0, up_netloc = (case port of None \<Rightarrow> h | Some n \<Rightarrow> h @ '':'' @ nat_text n),
     up_path = (if up_path u0 = [] then ''/'' else up_path u0), up_query = up_query u0, up_fragment = []\<rparr>"
  note parts = split_url_parts [OF 1(1)]
  have "set (strip raw) \<subseteq> set raw" unfolding strip_def by (rule set_strip_chars)
  then have open_br: "CHR ''['' \<notin> set (up_netloc u0)" using parts(1) assms(2) by blast
  then have "CHR '']'' \<notin> set (up_netloc u0)" using parts(4) by (simp add: bracket_error_def)
  with open_br have host: "\<forall>c \<in> set h. plain_char c \<and> c \<noteq> CHR '':''"
    unfolding 1(3) by (rule plain_hostname) (use parts(1) in blast)
  have low: "lower h = h" unfolding 1(3) bare_host_def by (rule lower_rstrip) (rule lower_idem)
  have netloc: "up_netloc ?u = h @ (case port of None \<Rightarrow> [] | Some n \<Rightarrow> '':'' @ nat_text n)" by (cases port) simp_all
  have bound: "n \<le> 65535" if "port = Some n" for n using url_port_bound 1(2) that by blast
  note again = plain_host_parts [OF host low netloc bound, simplified]
  have digits: "plain_char c" if "c \<in> set (nat_text n)" for c n
  proof -
    have "is_digit c" using that nat_text_digits [of n] by (auto simp: list_all_iff)
    then show ?thesis by (auto simp: plain_char_def is_digit_def unsafe_char_def netloc_end_def less_eq_char_def)
  qed
  have "plain_char (CHR '':'')" by (simp add: plain_char_def unsafe_char_def netloc_end_def)
  then have plain: "\<forall>c \<in> set (up_netloc ?u). plain_char c" using host digits by (cases port) auto
  have "up_netloc u0 \<noteq> []"
  proof
    assume "up_netloc u0 = []"
    then have "url_hostname u0 = []"
      by (simp add: url_hostname_def host_and_port_def after_last_def before_def Let_def lower_def)
    then show False using 1(3,4) by (simp add: bare_host_def lower_def rstrip_char_def)
  qed
  then have path: "up_path ?u \<noteq> []" "hd (up_path ?u) = CHR ''/''" using parts(5) by auto
  have safe: "\<forall>c \<in> set (up_path ?u). \<not> unsafe_char c \<and> c \<noteq> CHR ''?'' \<and> c \<noteq> CHR ''#''"
    using parts(2) by (auto simp: unsafe_char_def)
  have "split_url ips url = Some ?u"
    unfolding 1(11) by (rule split_join_url) (use 1(7) plain path safe parts(3) in simp_all)
  then show ?case using 1 again by (intro exI [of _ u0] exI [of _ ?u]) auto
qed

definition example_ips :: ip_library where
  "example_ips = \<lparr>ip_parse = (\<lambda>_. None), ip_bracket = (\<lambda>_. True)\<rparr>"

theorem normalized_source_url_parses_witness:
  "\<exists>url h u. normalize_source_url example_ips '' HTTPS://Ab.test.?p=1'' False False True = Inr (url, h) \<and>
     url = ''https://ab.test/?p=1'' \<and> split_url example_ips url = Some u \<and> url_hostname u = h"
proof -
  have run: "normalize_source_url example_ips '' HTTPS://Ab.test.?p=1'' False False True =
      Inr (''https://ab.test/?p=1'', ''ab.test'')"
    by code_simp
  have plain: "CHR ''['' \<notin> set '' HTTPS://Ab.test.?p=1''" by simp
  from normalized_source_url_parses [OF run plain]
  obtain u where "split_url example_ips ''https://ab.test/?p=1'' = Some u \<and> url_hostname u = ''ab.test''"
    by (elim exE conjE) (rule that, rule conjI)
  with run show ?thesis by (intro exI conjI) (rule run, rule refl, erule conjunct1, erule conjunct2)
qed

text \<open>
  Brackets are lost: an accepted IPv6 address is recorded as a URL whose host and port cannot
  be read any more.
\<close>

lemma ipv6_source_unreadable:
  "normalize_source_url example_ips ''https://[2606:4700::11]/list'' False False False =
     Inr (''https://2606:4700::11/list'', ''2606:4700::11'')"
  "map_option url_hostname (split_url example_ips ''https://2606:4700::11/list'') = Some ''2606''"
  "map_option url_port (split_url example_ips ''https://2606:4700::11/list'') = Some None"
  by code_simp+

end
