(* ===== verification/Egress_Safety.thy ===== *)
theory Egress_Safety
  imports Source_Network Url_Safety
begin

text \<open>
  What egress guarantees against a hostile network: the relation \<open>net_step\<close> between the states
  before and after any operation, proved once per building block, then over every history.
\<close>

subsection \<open>Confined requests\<close>

definition safe_address :: "internet \<Rightarrow> net_config \<Rightarrow> string \<Rightarrow> bool" where
  "safe_address net cfg a \<longleftrightarrow>
     (case ip_parse (in_ips net) a of None \<Rightarrow> False | Some f \<Rightarrow> ad_global f \<or> (nc_localhost cfg \<and> ad_loopback f))"

definition confined :: "internet \<Rightarrow> net_config \<Rightarrow> wire_request \<Rightarrow> bool" where
  "confined net cfg r \<longleftrightarrow>
     wr_tls_name r \<in> set (nc_hosts cfg) \<and> safe_address net cfg (wr_address r) \<and>
     (wr_https r \<or> nc_http cfg \<or> (nc_localhost cfg \<and> is_loopback net (wr_address r)))"

lemma address_error_None: "address_error net cfg as = None \<Longrightarrow> \<forall>a \<in> set as. safe_address net cfg a"
  by (induction as) (auto simp: safe_address_def split: option.splits if_splits)

definition within_requests :: "net_config \<Rightarrow> net_state \<Rightarrow> bool" where
  "within_requests cfg s \<longleftrightarrow> (\<forall>m. nc_requests cfg = Some m \<longrightarrow> nw_requests s \<le> m)"

definition net_step :: "internet \<Rightarrow> net_config \<Rightarrow> net_state \<Rightarrow> net_state \<Rightarrow> bool" where
  "net_step net cfg s s' \<longleftrightarrow>
     (\<exists>new. nw_sent s' = nw_sent s @ new \<and> (\<forall>r \<in> set new. confined net cfg r) \<and>
        nw_requests s' = nw_requests s + length new \<and> (nw_limited s \<noteq> None \<longrightarrow> new = [])) \<and>
     (within_requests cfg s \<longrightarrow> within_requests cfg s') \<and>
     (nw_limited s \<noteq> None \<longrightarrow> nw_limited s' = nw_limited s) \<and>
     (\<exists>more. nw_robots s' = nw_robots s @ more) \<and> nw_bytes s \<le> nw_bytes s'"

lemma net_step_refl [simp]: "net_step net cfg s s"
  by (simp add: net_step_def)

lemma net_step_same:
  "nw_sent s' = nw_sent s \<Longrightarrow> nw_requests s' = nw_requests s \<Longrightarrow> nw_limited s' = nw_limited s \<Longrightarrow> nw_robots s' = nw_robots s \<Longrightarrow>
   nw_bytes s' = nw_bytes s \<Longrightarrow> net_step net cfg s s'"
  by (simp add: net_step_def within_requests_def)

lemma net_step_trans:
  assumes "net_step net cfg s t" "net_step net cfg t u"
  shows "net_step net cfg s u"
proof -
  obtain a where a: "nw_sent t = nw_sent s @ a" "\<forall>r \<in> set a. confined net cfg r" "nw_requests t = nw_requests s + length a"
      "nw_limited s \<noteq> None \<longrightarrow> a = []"
    and ra: "\<exists>more. nw_robots t = nw_robots s @ more"
    using assms(1) unfolding net_step_def by blast
  obtain b where b: "nw_sent u = nw_sent t @ b" "\<forall>r \<in> set b. confined net cfg r" "nw_requests u = nw_requests t + length b"
      "nw_limited t \<noteq> None \<longrightarrow> b = []"
    and rb: "\<exists>more. nw_robots u = nw_robots t @ more"
    using assms(2) unfolding net_step_def by blast
  have keep: "nw_limited s \<noteq> None \<longrightarrow> nw_limited t = nw_limited s \<and> nw_limited u = nw_limited s"
    using assms unfolding net_step_def by metis
  have "\<exists>new. nw_sent u = nw_sent s @ new \<and> (\<forall>r \<in> set new. confined net cfg r) \<and>
        nw_requests u = nw_requests s + length new \<and> (nw_limited s \<noteq> None \<longrightarrow> new = [])"
    using a b keep by (intro exI [of _ "a @ b"]) auto
  moreover have "\<exists>more. nw_robots u = nw_robots s @ more" using ra rb by (metis append.assoc)
  moreover have "within_requests cfg s \<longrightarrow> within_requests cfg u" "nw_bytes s \<le> nw_bytes u"
    using assms unfolding net_step_def by (blast, linarith)
  ultimately show ?thesis using keep unfolding net_step_def by blast
qed

lemma net_step_then:
  assumes "net_step net cfg s (fst r)" and "\<And>t x. r = (t, Inr x) \<Longrightarrow> net_step net cfg t (fst (f t x))"
  shows "net_step net cfg s (fst (net_then r f))"
proof (cases r)
  case (Pair t v)
  then show ?thesis using assms net_step_trans by (cases v) (auto simp: net_then_def)
qed

lemma net_tick_step: "net_step net cfg s (net_tick s)"
  by (rule net_step_same) (simp_all add: net_tick_def)

lemma await_step: "net_step net cfg s (fst (await net s))"
  using net_tick_step by (simp add: await_def)

subsection \<open>Building blocks\<close>

lemma target_step: "net_step net cfg s (fst (net_target net cfg url s))"
proof -
  have res: "net_step net cfg s (fst (literal_or_resolved net h p s))" for h p
    by (auto simp: literal_or_resolved_def await_step split: option.splits intro!: net_step_then)
  show ?thesis
    by (auto simp: net_target_def Let_def res split: option.splits intro!: net_step_then)
qed

lemma target_confined:
  assumes "net_target net cfg url s = (s', Inr req)"
  shows "confined net cfg req" "wr_url req = url" "wr_https req \<longleftrightarrow> url_scheme net url = ''https''"
proof -
  obtain u port where u: "split_url (in_ips net) url = Some u" "url_port u = Some port"
    using assms by (auto simp: net_target_def split: option.splits)
  let ?host = "bare_host (url_hostname u)" and ?p = "default_port u port"
  obtain s1 as where as: "literal_or_resolved net ?host ?p s = (s1, Inr as)"
    using assms u by (cases "literal_or_resolved net ?host ?p s", cases "snd (literal_or_resolved net ?host ?p s)")
      (auto simp: net_target_def Let_def net_then_def split: if_splits)
  have ok: "?host \<in> set (nc_hosts cfg)" "up_scheme u \<in> {''https'', ''http''}" "as \<noteq> []" "address_error net cfg as = None"
    "\<not> (up_scheme u = ''http'' \<and> \<not> nc_http cfg \<and> \<not> (nc_localhost cfg \<and> list_all (is_loopback net) as))"
    and req: "req = \<lparr>wr_url = url, wr_address = hd as, wr_port = ?p, wr_https = (up_scheme u = ''https''),
                     wr_host = up_netloc u, wr_tls_name = ?host\<rparr>"
    using assms u as by (auto simp: net_target_def Let_def net_then_def split: if_splits option.splits)
  have "safe_address net cfg (hd as)" using address_error_None [OF ok(4)] ok(3) by simp
  moreover have "is_loopback net (hd as)" if "list_all (is_loopback net) as" using that ok(3) by (cases as) simp_all
  ultimately show "confined net cfg req" using ok unfolding confined_def req by auto
  show "wr_url req = url" "wr_https req \<longleftrightarrow> url_scheme net url = ''https''" by (simp_all add: req url_scheme_def u)
qed

lemma read_chunks_step: "net_step net cfg s (fst (read_chunks cfg decoded chunks body s))"
proof (induction cfg decoded chunks body s rule: read_chunks.induct)
  case (3 cfg decoded raw rest body s)
  let ?limit = "max 1 (min (nc_page_bytes cfg - int (length body)) (nc_total_bytes cfg - nw_bytes s) + 1)"
  let ?chunk = "if decoded then take (nat ?limit) raw else raw"
  let ?s = "s\<lparr>nw_bytes := nw_bytes s + int (length ?chunk)\<rparr>"
  have grow: "net_step net cfg s ?s" by (simp add: net_step_def within_requests_def)
  show ?case
    using 3 [OF refl refl refl refl] net_step_trans [OF grow] grow by (simp add: Let_def del: max.bounded_iff)
qed simp_all

lemma receive_step: "net_step net cfg s (fst (receive cfg req answer s))"
  by (auto simp: receive_def Let_def split: wire_answer.splits stream_end.splits if_splits intro!: net_step_then read_chunks_step)

lemma begin_step: "confined net cfg req \<Longrightarrow> net_step net cfg s (fst (begin_request cfg req s))"
  by (auto simp: begin_request_def net_step_def within_requests_def net_tick_def split: option.splits)

lemma request_once_step: "confined net cfg req \<Longrightarrow> net_step net cfg s (fst (request_once net cfg req s))"
  unfolding request_once_def by (intro net_step_then begin_step receive_step)

lemma request_step:
  assumes "confined net cfg req"
  shows "net_step net cfg s (fst (request net cfg req s))"
proof -
  note once = request_once_step [OF assms]
  let ?r = "request_once net cfg req s"
  have again: "net_step net cfg t (fst (net_then (request_once net cfg req t) (\<lambda>s2 r. (s2\<lparr>nw_tls := nw_tls s2 @ [peer]\<rparr>, Inr r))))" for t peer
    by (intro net_step_then once) (simp add: net_step_same)
  obtain t v where r: "?r = (t, v)" by fastforce
  have step: "net_step net cfg s t" using once [of s] by (simp add: r)
  show ?thesis
    using once step again [of t] net_step_trans [OF step again]
    by (auto simp: request_def Let_def r split: sum.splits net_failure.splits)
qed

subsection \<open>Hops, robots and the public operations\<close>

definition check_steps :: "internet \<Rightarrow> net_config \<Rightarrow> (string \<Rightarrow> net_state \<Rightarrow> 'a net) \<Rightarrow> bool" where
  "check_steps net cfg check \<longleftrightarrow> (\<forall>url s. net_step net cfg s (fst (check url s)))"

lemma note_step: "net_step net cfg s (note_retry_after net r s)"
  by (auto simp: note_retry_after_def net_step_same split: option.splits)

lemma limited_step: "nw_limited s = None \<Longrightarrow> net_step net cfg s (s\<lparr>nw_limited := Some r\<rparr>)"
  by (simp add: net_step_def within_requests_def)

text \<open>Every request may only meet a network that has not been limited before it.\<close>

lemma request_limited: "nw_limited (fst (request net cfg req s)) = nw_limited s"
proof -
  have chunks: "nw_limited (fst (read_chunks cfg decoded cs body t)) = nw_limited t" for decoded cs body t
    by (induction cfg decoded cs body t rule: read_chunks.induct) (simp_all add: Let_def)
  have rec: "nw_limited (fst (receive cfg req answer t)) = nw_limited t" for answer t
    by (auto simp: receive_def net_then_def split: wire_answer.splits stream_end.splits sum.splits prod.splits)
      (metis chunks fst_conv)+
  have once: "nw_limited (fst (request_once net cfg req t)) = nw_limited t" for t
    by (auto simp: request_once_def begin_request_def net_then_def rec net_tick_def)
  show ?thesis
  proof (cases "request_once net cfg req s")
    case (Pair t v)
    have "nw_limited t = nw_limited s" using once [of s] by (simp add: Pair)
    moreover have "nw_limited (fst (net_then (request_once net cfg req t) (\<lambda>s2 r. (s2\<lparr>nw_tls := nw_tls s2 @ [peer]\<rparr>, Inr r)))) = nw_limited t" for peer
      using once [of t] by (cases "request_once net cfg req t", cases "snd (request_once net cfg req t)") (auto simp: net_then_def)
    ultimately show ?thesis
      by (auto simp: request_def Let_def Pair split: sum.splits net_failure.splits)
  qed
qed

lemma begin_limited: "nw_limited s \<noteq> None \<Longrightarrow> request_once net cfg req s = (s, Inl (Rejected ''source_rate_limited''))"
  by (simp add: request_once_def begin_request_def net_then_def)

lemma request_Inr_unlimited: "request net cfg req s = (t, Inr r) \<Longrightarrow> nw_limited s = None \<and> nw_limited t = None"
  using request_limited [of net cfg req s] begin_limited [of s net cfg req]
  by (cases "nw_limited s") (auto simp: request_def Let_def split: if_splits)

lemma hop_step:
  assumes "check_steps net cfg check"
  shows "net_step net cfg s (fst (hop net cfg check url s))"
proof -
  have after: "net_step net cfg t (fst (let s5 = note_retry_after net r t
      in if sr_status r = 429 then (s5\<lparr>nw_limited := Some r\<rparr>, Inl (Rejected ''source_rate_limited'')) else (s5, Inr r)))"
    if "nw_limited t = None" for t r
  proof -
    have "nw_limited (note_retry_after net r t) = None" using that by (simp add: note_retry_after_def split: option.splits)
    from net_step_trans [OF note_step limited_step [OF this]] show ?thesis by (simp add: Let_def note_step)
  qed
  show ?thesis
    using assms unfolding hop_def check_steps_def
    by (auto intro!: net_step_then target_step await_step request_step after dest: target_confined request_Inr_unlimited)
qed

lemma redirect_step: "net_step net cfg s (fst (redirect_url net cfg url r s))"
  by (auto simp: redirect_url_def Let_def net_step_same split: option.splits)

lemma fetch_hops_step: "check_steps net cfg check \<Longrightarrow> net_step net cfg s (fst (fetch_hops net cfg check follow n url s))"
proof (induction n arbitrary: url s)
  case (Suc n)
  then show ?case
    by (auto intro!: net_step_then hop_step redirect_step target_step simp: Let_def)
qed simp

lemma plain_steps: "check_steps net cfg (fetch_plain net cfg follow)"
  unfolding check_steps_def fetch_plain_def
  by (intro allI fetch_hops_step) (simp add: check_steps_def no_check_def)

lemma check_robots_steps:
  assumes "check_steps net cfg getter"
  shows "check_steps net cfg (check_robots net getter)"
proof -
  have app: "net_step net cfg t (t\<lparr>nw_robots := nw_robots t @ more\<rparr>)" for t more
    by (simp add: net_step_def within_requests_def)
  show ?thesis
    using assms unfolding check_steps_def check_robots_def
    by (auto intro!: net_step_then split: option.splits sum.splits simp: app)
qed

lemma within_steps: "check_steps net cfg (robots_within net cfg)"
  unfolding robots_within_def [abs_def] by (rule check_robots_steps [OF plain_steps])

lemma checked_steps: "check_steps net cfg (fetch_checked net cfg follow)"
  unfolding check_steps_def fetch_checked_def by (intro allI fetch_hops_step within_steps)

lemma fetch_steps: "check_steps net cfg (fetch net cfg follow respect)"
proof -
  have fin: "net_step net cfg t (t\<lparr>nw_final := x\<rparr>)" for t x by (simp add: net_step_same)
  have run: "net_step net cfg t (fst (if respect then fetch_checked net cfg follow url t else fetch_plain net cfg follow url t))" for url t
    using plain_steps checked_steps by (simp add: check_steps_def)
  have "net_step net cfg s (fst (fetch net cfg follow respect url s))" for url s
  proof -
    let ?r = "if respect then fetch_checked net cfg follow url (net_tick s) else fetch_plain net cfg follow url (net_tick s)"
    have "net_step net cfg s (fst ?r)" using net_step_trans [OF net_tick_step run] .
    then have "net_step net cfg s (fst (case ?r of (s1, Inl e) \<Rightarrow> (s1, Inl (source_error e))
        | (s1, Inr r) \<Rightarrow> (s1\<lparr>nw_final := (url, sr_url r) # nw_final s1\<rparr>, Inr r)))"
      using net_step_trans [OF _ fin] by (auto split: prod.splits sum.splits)
    then show ?thesis by (auto simp: fetch_def await_def net_tick_step)
  qed
  then show ?thesis by (simp add: check_steps_def)
qed

lemma robots_before_steps: "check_steps net cfg (robots_before net cfg)"
  unfolding robots_before_def [abs_def] by (rule check_robots_steps [OF fetch_steps])

lemma crawl_page_steps: "check_steps net cfg (crawl_page net cfg)"
  using fetch_steps robots_before_steps unfolding crawl_page_def check_steps_def
  by (auto intro!: net_step_then split: option.splits)

subsection \<open>Histories\<close>

datatype egress_event = EFetch bool bool string | ERobots string | ECrawl string

fun egress_step :: "internet \<Rightarrow> net_config \<Rightarrow> net_state \<Rightarrow> egress_event \<Rightarrow> net_state" where
  "egress_step net cfg s (EFetch follow respect url) = fst (fetch net cfg follow respect url s)"
| "egress_step net cfg s (ERobots url) = fst (robots_before net cfg url s)"
| "egress_step net cfg s (ECrawl url) = fst (crawl_page net cfg url s)"

lemma egress_step_step: "net_step net cfg s (egress_step net cfg s e)"
  using fetch_steps robots_before_steps crawl_page_steps by (cases e) (simp_all add: check_steps_def)

interpretation egress: step_machine "egress_step net cfg" "net_step net cfg s0" "\<lambda>s. int (nw_requests s)"
  for net cfg s0
proof
  show "net_step net cfg s0 s \<Longrightarrow> net_step net cfg s0 (egress_step net cfg s e)" for s e
    using net_step_trans egress_step_step by blast
  show "net_step net cfg s0 s \<Longrightarrow> int (nw_requests s) \<le> int (nw_requests (egress_step net cfg s e))" for s e
    using egress_step_step [of net cfg s e] unfolding net_step_def by auto
qed

text \<open>
  C32. Egress is confined against any network: whatever names resolve to and servers answer, over
  any history of fetches, robots checks and page crawls each request on the wire goes to an
  allowed host name, at an address that was checked for this very request and is global (or
  loopback where localhost is allowed), over https unless plain http is allowed, and there are
  never more requests than the budget of the run.
\<close>

theorem egress_confined:
  "(\<forall>r \<in> set (nw_sent (foldl (egress_step net cfg) new_network evs)). wr_tls_name r \<in> set (nc_hosts cfg) \<and>
      (\<exists>f. ip_parse (in_ips net) (wr_address r) = Some f \<and>
         (ad_global f \<or> nc_localhost cfg \<and> ad_loopback f) \<and>
         (wr_https r \<or> nc_http cfg \<or> nc_localhost cfg \<and> ad_loopback f))) \<and>
    (\<forall>m. nc_requests cfg = Some m \<longrightarrow> length (nw_sent (foldl (egress_step net cfg) new_network evs)) \<le> m)"
proof -
  define s where "s = foldl (egress_step net cfg) new_network evs"
  have "net_step net cfg new_network s" unfolding s_def by (rule egress.run_inv [OF net_step_refl])
  then obtain new where new: "nw_sent s = new" "\<forall>r \<in> set new. confined net cfg r" "nw_requests s = length new"
    and req: "within_requests cfg new_network \<longrightarrow> within_requests cfg s"
    unfolding net_step_def by (auto simp: new_network_def)
  have "\<exists>f. ip_parse (in_ips net) (wr_address r) = Some f \<and> (ad_global f \<or> nc_localhost cfg \<and> ad_loopback f) \<and>
      (wr_https r \<or> nc_http cfg \<or> nc_localhost cfg \<and> ad_loopback f)" if "confined net cfg r" for r
    using that by (auto simp: confined_def safe_address_def is_loopback_def split: option.splits)
  moreover have "within_requests cfg s" using req by (simp add: within_requests_def new_network_def)
  ultimately show ?thesis using new unfolding s_def [symmetric] by (auto simp: confined_def within_requests_def)
qed

lemma limited_sends_nothing:
  assumes "nw_limited s \<noteq> None" shows "nw_sent (foldl (egress_step net cfg) s evs) = nw_sent s"
proof -
  have "net_step net cfg s (foldl (egress_step net cfg) s evs)" by (rule egress.run_inv [OF net_step_refl])
  then show ?thesis using assms unfolding net_step_def by auto
qed

text \<open>
  C34. An answer 429 ends all traffic: when the answer to a request of any fetch (of a page or of
  robots.txt, at any hop) was received and has status 429, the fetch ends there with
  \<open>source_rate_limited\<close> and no later operation of any history puts another request on the wire.
  This needs the answer to be received: one that is refused for its encoding or its size is
  forgotten (\<open>refused_rate_limit_forgotten\<close>).
\<close>

theorem rate_limit_stops_traffic:
  assumes "nw_limited s = None" and "check url s = (s1, Inr ())" and "net_target net cfg url s1 = (s2, Inr req)"
    and "await net s2 = (s3, Inr ())" and "request net cfg req s3 = (s4, Inr r)" and "sr_status r = 429"
  shows "\<exists>s'. fetch_hops net cfg check follow (Suc left) url s = (s', Inl (Rejected ''source_rate_limited'')) \<and>
    nw_limited s' = Some r \<and> nw_sent s' = nw_sent s4 \<and> nw_sent (foldl (egress_step net cfg) s' evs) = nw_sent s'"
proof -
  define s' where "s' = (note_retry_after net r s4)\<lparr>nw_limited := Some r\<rparr>"
  have "hop net cfg check url s = (s', Inl (Rejected ''source_rate_limited''))"
    using assms by (simp add: hop_def net_then_def s'_def Let_def)
  then have "fetch_hops net cfg check follow (Suc left) url s = (s', Inl (Rejected ''source_rate_limited''))"
    by (simp add: net_then_def)
  moreover have "nw_sent s' = nw_sent s4" by (simp add: s'_def note_retry_after_def split: option.split)
  moreover have "nw_limited s' = Some r" by (simp add: s'_def)
  ultimately show ?thesis using limited_sends_nothing [of s'] by auto
qed

subsection \<open>What a crawled page is\<close>

definition permitted :: "internet \<Rightarrow> net_state \<Rightarrow> string \<Rightarrow> bool" where
  "permitted net s url \<longleftrightarrow>
     (\<exists>origin rules. url_origin net url = Some origin \<and> map_of (nw_robots s) origin = Some rules \<and> in_can_fetch net rules url)"

lemma permitted_step:
  assumes "permitted net s url" "net_step net cfg s s'"
  shows "permitted net s' url"
proof -
  obtain origin rules where o: "url_origin net url = Some origin" "map_of (nw_robots s) origin = Some rules" "in_can_fetch net rules url"
    using assms(1) unfolding permitted_def by blast
  obtain more where "nw_robots s' = nw_robots s @ more" using assms(2) unfolding net_step_def by blast
  then have "map_of (nw_robots s') origin = Some rules" using o(2) by (simp add: map_add_Some_iff)
  with o show ?thesis unfolding permitted_def by blast
qed

lemma check_robots_permits:
  assumes "check_robots net getter url s = (s', Inr u)"
  shows "permitted net s' url"
proof -
  obtain origin where o: "url_origin net url = Some origin"
    using assms by (cases "url_origin net url") (simp_all add: check_robots_def)
  from assms show ?thesis
    by (auto simp: check_robots_def o net_then_def permitted_def split: prod.splits sum.splits option.splits if_splits)
qed

lemma read_chunks_bounds:
  assumes "read_chunks cfg decoded cs body s = (s', Inr text)"
    and "int (length body) \<le> max 0 (nc_page_bytes cfg)" "body \<noteq> [] \<longrightarrow> nw_bytes s \<le> nc_total_bytes cfg"
  shows "int (length text) \<le> max 0 (nc_page_bytes cfg) \<and> (text \<noteq> [] \<longrightarrow> nw_bytes s' \<le> nc_total_bytes cfg)"
  using assms
proof (induction cfg decoded cs body s rule: read_chunks.induct)
  case (3 cfg decoded raw rest body s)
  define chunk where "chunk = (if decoded
    then take (nat (max 1 (min (nc_page_bytes cfg - int (length body)) (nc_total_bytes cfg - nw_bytes s) + 1))) raw else raw)"
  let ?s = "s\<lparr>nw_bytes := nw_bytes s + int (length chunk)\<rparr>"
  have run: "int (length (body @ chunk)) \<le> nc_page_bytes cfg" "nw_bytes ?s \<le> nc_total_bytes cfg"
    "read_chunks cfg decoded rest (body @ chunk) ?s = (s', Inr text)"
    using 3(2) unfolding read_chunks.simps Let_def chunk_def [symmetric] by (simp_all split: if_splits)
  show ?case
    by (rule 3(1) [OF refl chunk_def refl refl _ _ run(3)]) (use run(1,2) in simp_all)
qed auto

lemma receive_result:
  assumes "receive cfg req answer s = (s', Inr r)"
  shows "sr_url r = wr_url req" "int (length (sr_body r)) \<le> max 0 (nc_page_bytes cfg)"
    "sr_body r \<noteq> [] \<longrightarrow> nw_bytes s' \<le> nc_total_bytes cfg"
proof -
  obtain st hs con cs e where a: "answer = Answer st hs con cs e"
    using assms by (cases answer) (simp_all add: receive_def)
  let ?c = "read_chunks cfg (decodes hs con) cs [] s"
  obtain t body where c: "?c = (t, Inr body)"
    using assms by (cases ?c, cases "snd ?c") (simp_all add: receive_def a net_then_def split: if_splits)
  have "s' = t" "sr_url r = wr_url req" "sr_body r = body"
    using assms by (auto simp: receive_def a c net_then_def split: if_splits stream_end.splits)
  with read_chunks_bounds [OF c] show "sr_url r = wr_url req" "int (length (sr_body r)) \<le> max 0 (nc_page_bytes cfg)"
    "sr_body r \<noteq> [] \<longrightarrow> nw_bytes s' \<le> nc_total_bytes cfg" by simp_all
qed

lemma request_once_result:
  assumes "request_once net cfg req s = (s', Inr r)"
  shows "sr_url r = wr_url req \<and> int (length (sr_body r)) \<le> max 0 (nc_page_bytes cfg) \<and>
    (sr_body r \<noteq> [] \<longrightarrow> nw_bytes s' \<le> nc_total_bytes cfg)"
proof -
  obtain t where "receive cfg req (in_answer net (nw_tick t) req) t = (s', Inr r)"
    using assms by (cases "begin_request cfg req s", cases "snd (begin_request cfg req s)") (auto simp: request_once_def net_then_def)
  then show ?thesis using receive_result by blast
qed

lemma request_result:
  assumes "request net cfg req s = (s', Inr r)"
  shows "sr_url r = wr_url req \<and> int (length (sr_body r)) \<le> max 0 (nc_page_bytes cfg) \<and>
    (sr_body r \<noteq> [] \<longrightarrow> nw_bytes s' \<le> nc_total_bytes cfg)"
proof -
  obtain t v where o: "request_once net cfg req s = (t, v)" by fastforce
  show ?thesis
  proof (cases v)
    case (Inr x)
    then show ?thesis using assms request_once_result [OF o [unfolded Inr]] by (auto simp: request_def Let_def o split: if_splits)
  next
    case (Inl e)
    then obtain causes where "e = ConnectFailed causes"
      using assms by (cases e) (auto simp: request_def Let_def o split: if_splits)
    then obtain t2 where "request_once net cfg req t = (t2, Inr r)" "nw_bytes s' = nw_bytes t2"
      using assms Inl by (cases "request_once net cfg req t", cases "snd (request_once net cfg req t)")
        (auto simp: request_def Let_def o net_then_def split: if_splits)
    then show ?thesis using request_once_result by metis
  qed
qed

lemma hop_result:
  assumes "hop net cfg check url s = (s', Inr r)"
  obtains t where "check url s = (t, Inr ())" "net_step net cfg t s'" "sr_url r = url"
    "int (length (sr_body r)) \<le> max 0 (nc_page_bytes cfg)" "sr_body r \<noteq> [] \<longrightarrow> nw_bytes s' \<le> nc_total_bytes cfg"
proof -
  obtain t v where c: "check url s = (t, v)" by fastforce
  have v: "v = Inr ()" using assms c by (cases v) (auto simp: hop_def net_then_def split: if_splits)
  obtain t2 req where tg: "net_target net cfg url t = (t2, Inr req)"
    using assms c v by (cases "net_target net cfg url t", cases "snd (net_target net cfg url t)")
      (auto simp: hop_def net_then_def split: if_splits)
  obtain t3 where aw: "await net t2 = (t3, Inr ())"
    using assms c v tg by (cases "await net t2", cases "snd (await net t2)") (auto simp: hop_def net_then_def split: if_splits)
  obtain t4 where rq: "request net cfg req t3 = (t4, Inr r)" and s': "s' = note_retry_after net r t4"
    using assms c v tg aw by (cases "request net cfg req t3", cases "snd (request net cfg req t3)")
      (auto simp: hop_def net_then_def Let_def split: if_splits)
  have tgc: "confined net cfg req" "wr_url req = url" using target_confined [OF tg] by simp_all
  have "net_step net cfg t t2" using target_step [of net cfg t url] by (simp add: tg)
  moreover have "net_step net cfg t2 t3" using await_step [of net cfg t2] by (simp add: aw)
  moreover have "net_step net cfg t3 t4" using request_step [OF tgc(1), of t3] by (simp add: rq)
  ultimately have "net_step net cfg t s'" unfolding s' using net_step_trans note_step by blast
  moreover have "nw_bytes s' = nw_bytes t4" by (simp add: s' note_retry_after_def split: option.splits)
  ultimately show thesis using that [of t] c v request_result [OF rq] tgc(2) by simp
qed

lemma notice_path_root: "notice_path p \<Longrightarrow> p \<noteq> []"
  by (auto simp: notice_path_def)

lemma https_original_scheme:
  assumes "ccgp_notice (in_ips net) next"
  shows "url_scheme net (https_original (in_ips net) next) = ''https''"
proof -
  obtain u where u: "split_url (in_ips net) next = Some u" "url_hostname u = ''www.ccgp.gov.cn''" "up_path u \<noteq> []"
    using assms by (auto simp: ccgp_notice_def dest: notice_path_root split: option.splits)
  have ne: "up_netloc u \<noteq> []"
  proof
    assume "up_netloc u = []"
    then have "url_hostname u = []"
      by (simp add: url_hostname_def host_and_port_def after_last_def before_def Let_def lower_def)
    with u(2) show False by simp
  qed
  note parts = split_url_parts [OF u(1)]
  let ?v = "\<lparr>up_scheme = ''https'', up_netloc = ''www.ccgp.gov.cn'', up_path = up_path u, up_query = up_query u, up_fragment = []\<rparr>"
  have plain: "\<forall>c \<in> set ''www.ccgp.gov.cn''. plain_char c" by (simp add: plain_char_def unsafe_char_def netloc_end_def)
  have "split_url (in_ips net) (join_url ?v) = Some ?v"
    by (rule split_join_url) (use plain u(3) parts(5) [OF ne u(3)] parts(2,3) in simp_all)
  then show ?thesis by (simp add: url_scheme_def https_original_def u(1))
qed

lemma redirect_scheme:
  assumes "redirect_url net cfg url r s = (s', Inr next)" "url_scheme net url = ''https''"
  shows "url_scheme net next = ''https''"
  using assms https_original_scheme by (auto simp: redirect_url_def Let_def split: option.splits if_splits)

lemma fetch_hops_result:
  assumes "check_steps net cfg check" "fetch_hops net cfg check True n url s = (s', Inr r)"
  shows "\<exists>u t t'. check u t = (t', Inr ()) \<and> net_step net cfg t' s' \<and> sr_url r = u \<and>
    (url_scheme net url = ''https'' \<longrightarrow> url_scheme net u = ''https'') \<and>
    int (length (sr_body r)) \<le> max 0 (nc_page_bytes cfg) \<and> (sr_body r \<noteq> [] \<longrightarrow> nw_bytes s' \<le> nc_total_bytes cfg)"
  using assms(2)
proof (induction n arbitrary: url s)
  case (Suc n)
  obtain s1 r1 where h: "hop net cfg check url s = (s1, Inr r1)"
    using Suc.prems by (cases "hop net cfg check url s", cases "snd (hop net cfg check url s)") (auto simp: net_then_def)
  show ?case
  proof (cases "redirect_status (sr_status r1)")
    case False
    then have "s' = s1" "r = r1" using Suc.prems h by (simp_all add: net_then_def)
    with h show ?thesis by (elim hop_result) blast
  next
    case True
    obtain s2 nxt where rd: "redirect_url net cfg url r1 s1 = (s2, Inr nxt)"
      using Suc.prems h True by (cases "redirect_url net cfg url r1 s1", cases "snd (redirect_url net cfg url r1 s1)")
        (auto simp: net_then_def)
    obtain s3 where "fetch_hops net cfg check True n nxt s3 = (s', Inr r)"
      using Suc.prems h True rd by (cases "net_target net cfg nxt s2", cases "snd (net_target net cfg nxt s2)")
        (auto simp: net_then_def)
    from Suc.IH [OF this] show ?thesis using redirect_scheme [OF rd] by blast
  qed
qed simp

text \<open>
  C33. What a crawled page is: a 2xx answer within the byte limits, to a URL that, like the one asked
  for, the robots rules of its origin permit; over https if it was asked for over https, whatever
  redirects lie between, of which there were at most five.
\<close>

theorem crawled_page_permitted:
  assumes "crawl_page net cfg url s = (s', Inr r)"
  shows "permitted net s' url \<and> permitted net s' (sr_url r) \<and> 200 \<le> sr_status r \<and> sr_status r < 300 \<and>
    (url_scheme net url = ''https'' \<longrightarrow> url_scheme net (sr_url r) = ''https'') \<and>
    int (length (sr_body r)) \<le> max 0 (nc_page_bytes cfg) \<and> (sr_body r \<noteq> [] \<longrightarrow> nw_bytes s' \<le> nc_total_bytes cfg)"
proof -
  obtain s1 where rb: "robots_before net cfg url s = (s1, Inr ())"
    using assms by (cases "robots_before net cfg url s", cases "snd (robots_before net cfg url s)") (auto simp: crawl_page_def net_then_def)
  obtain s2 r2 where f: "fetch net cfg True True url s1 = (s2, Inr r2)"
    using assms rb by (cases "fetch net cfg True True url s1", cases "snd (fetch net cfg True True url s1)")
      (auto simp: crawl_page_def net_then_def)
  have out: "s' = s2" "r = r2" "require_success r = None"
    using assms rb f by (auto simp: crawl_page_def net_then_def split: option.splits)
  obtain s3 where fc: "fetch_checked net cfg True url (net_tick s1) = (s3, Inr r)" and s': "s' = s3\<lparr>nw_final := (url, sr_url r) # nw_final s3\<rparr>"
    using f by (auto simp: fetch_def await_def out split: prod.splits sum.splits if_splits)
  have fin: "net_step net cfg s3 s'" unfolding s' by (rule net_step_same) simp_all
  from fetch_hops_result [OF within_steps fc [unfolded fetch_checked_def]]
  obtain u t t' where u: "robots_within net cfg u t = (t', Inr ())" "net_step net cfg t' s3" "sr_url r = u"
      "url_scheme net url = ''https'' \<longrightarrow> url_scheme net u = ''https''"
    and b: "int (length (sr_body r)) \<le> max 0 (nc_page_bytes cfg)" "sr_body r \<noteq> [] \<longrightarrow> nw_bytes s3 \<le> nc_total_bytes cfg"
    by blast
  have "permitted net s' u"
    using permitted_step [OF permitted_step [OF check_robots_permits [OF u(1) [unfolded robots_within_def]] u(2)] fin] .
  moreover have "permitted net s' url"
  proof -
    have "net_step net cfg s1 s3" using checked_steps net_step_trans [OF net_tick_step] fc unfolding check_steps_def by (metis fst_conv)
    with fin show ?thesis using permitted_step check_robots_permits [OF rb [unfolded robots_before_def]] by blast
  qed
  moreover have "200 \<le> sr_status r \<and> sr_status r < 300" using out(3) by (auto simp: require_success_def split: if_splits)
  ultimately show ?thesis using u b by (simp add: s')
qed

subsection \<open>An example\<close>

definition example_answer :: "nat \<Rightarrow> wire_request \<Rightarrow> wire_answer" where
  "example_answer n r =
     (if wr_url r = ''https://a.t/robots.txt'' then Answer 404 [] False [] (Complete True)
      else if wr_url r = ''https://a.t/b'' then Answer 429 [(''retry-after'', ''7'')] False [] (Complete True)
      else if wr_url r = ''https://a.t/c'' then Answer 302 [(''location'', ''https://a.t/d'')] False [] (Complete True)
      else Answer 200 [] False [Some ''ok''] (Complete True))"

definition example_internet :: internet where
  "example_internet = \<lparr>in_ips = \<lparr>ip_parse = (\<lambda>a. if a = ''8.8.8.8'' then Some \<lparr>ad_text = a, ad_global = True, ad_loopback = False,
       ad_private = False, ad_link_local = False, ad_reserved = False\<rparr> else None), ip_bracket = (\<lambda>_. False)\<rparr>,
     in_dns = (\<lambda>_ _ _. Some [''8.8.8.8'']), in_answer = example_answer, in_late = (\<lambda>_. False), in_join = (\<lambda>_ l. l),
     in_can_fetch = (\<lambda>_ _. True), in_http_date = (\<lambda>_. None)\<rparr>"

definition example_egress :: net_config where
  "example_egress = net_config_of [''A.t.''] False False 5 100 1000 (Some 9) False"

theorem egress_confined_witness:
  "\<exists>r. r \<in> set (nw_sent (foldl (egress_step example_internet example_egress) new_network [ECrawl ''https://a.t/c''])) \<and>
     wr_tls_name r \<in> set (nc_hosts example_egress)"
proof -
  have "nw_sent (foldl (egress_step example_internet example_egress) new_network [ECrawl ''https://a.t/c'']) \<noteq> []" by code_simp
  then obtain r where r: "r \<in> set (nw_sent (foldl (egress_step example_internet example_egress) new_network [ECrawl ''https://a.t/c'']))"
    by (metis hd_in_set)
  with egress_confined [of example_internet example_egress "[ECrawl ''https://a.t/c'']"] show ?thesis by blast
qed

lemma received: "\<not> isl (snd x) \<Longrightarrow> x = (fst x, Inr (projr (snd x)))"
  by (cases x, cases "snd x") simp_all

theorem rate_limit_stops_traffic_witness:
  "\<exists>s' r. fetch_hops example_internet example_egress no_check True 3 ''https://a.t/b'' new_network =
       (s', Inl (Rejected ''source_rate_limited'')) \<and> sr_status r = 429 \<and> nw_limited s' = Some r \<and>
     nw_sent (foldl (egress_step example_internet example_egress) s' [ECrawl ''https://a.t/c'']) = nw_sent s'"
proof -
  define t where "t = net_target example_internet example_egress ''https://a.t/b'' new_network"
  define q where "q = request example_internet example_egress (projr (snd t)) (net_tick (fst t))"
  have "\<not> isl (snd t)" "\<not> isl (snd q)" and status: "sr_status (projr (snd q)) = 429"
    unfolding q_def t_def by code_simp+
  note t = trans [OF t_def [symmetric] received [OF \<open>\<not> isl (snd t)\<close>]]
    and q = trans [OF q_def [symmetric] received [OF \<open>\<not> isl (snd q)\<close>]]
  have w: "await example_internet (fst t) = (net_tick (fst t), Inr ())" by (simp add: await_def example_internet_def)
  have n: "nw_limited new_network = None" by (simp add: new_network_def)
  have c: "no_check ''https://a.t/b'' new_network = (new_network, Inr ())" by (simp add: no_check_def)
  have three: "Suc 2 = (3 :: nat)" by simp
  from rate_limit_stops_traffic [where s = new_network and check = no_check and url = "''https://a.t/b''",
      OF n c t w q status, of True 2 "[ECrawl ''https://a.t/c'']", unfolded three] status
  show ?thesis by (elim exE conjE) (intro exI conjI, assumption+)
qed

text \<open>A server whose 429 carries an encoding the client refuses: the next crawl sends requests again.\<close>

definition example_refused :: internet where
  "example_refused = example_internet\<lparr>in_answer := (\<lambda>n r.
     if wr_url r = ''https://a.t/b'' then Answer 429 [(''content-encoding'', ''br'')] False [] (Complete True) else example_answer n r)\<rparr>"

lemma refused_rate_limit_forgotten:
  "nw_limited (fst (crawl_page example_refused example_egress ''https://a.t/b'' new_network)) = None \<and>
   length (nw_sent (fst (crawl_page example_refused example_egress ''https://a.t/b'' new_network))) <
   length (nw_sent (fst (crawl_page example_refused example_egress ''https://a.t/c''
     (fst (crawl_page example_refused example_egress ''https://a.t/b'' new_network)))))"
  by code_simp

theorem crawled_page_permitted_witness:
  "\<exists>s' r. crawl_page example_internet example_egress ''https://a.t/c'' new_network = (s', Inr r) \<and> permitted example_internet s' (sr_url r)"
proof -
  have "\<not> isl (snd (crawl_page example_internet example_egress ''https://a.t/c'' new_network))" by code_simp
  then obtain s' r where run: "crawl_page example_internet example_egress ''https://a.t/c'' new_network = (s', Inr r)"
    by (cases "crawl_page example_internet example_egress ''https://a.t/c'' new_network",
        cases "snd (crawl_page example_internet example_egress ''https://a.t/c'' new_network)") simp_all
  with crawled_page_permitted [OF run] show ?thesis by blast
qed

end
