(* ===== verification/Harvest.thy ===== *)
theory Harvest
  imports Crawl Urls
begin

text \<open>
  Extraction of records and items (\<open>harvest.py\<close>) above the parsers: what a selector matches in a
  page (BeautifulSoup, JSONPath), regular expressions, number and JSON parsing, Unicode title
  comparison, JSON schema validation, \<open>json.dumps\<close> and SHA-256 are the argument \<open>extractor\<close>; fields
  and rules are the JSON of the specification. Texts beyond ASCII are their UTF-8 bytes.
\<close>

record extractor =
  ex_json_ok :: "string \<Rightarrow> bool"
  ex_matches :: "string \<Rightarrow> string \<Rightarrow> string \<Rightarrow> json list option"
  ex_rows :: "string \<Rightarrow> string \<Rightarrow> nat"
  ex_row_matches :: "string \<Rightarrow> string \<Rightarrow> nat \<Rightarrow> string \<Rightarrow> string \<Rightarrow> json list option"
  ex_next :: "string \<Rightarrow> json \<Rightarrow> string \<Rightarrow> bool \<Rightarrow> string option"
  ex_regex :: "json \<Rightarrow> json \<Rightarrow> string \<Rightarrow> string option"
  ex_join :: "string \<Rightarrow> string \<Rightarrow> string"
  ex_plain :: "string \<Rightarrow> string"
  ex_text :: "json \<Rightarrow> string"
  ex_number :: "string \<Rightarrow> string \<Rightarrow> json option"
  ex_parse :: "string \<Rightarrow> json option"
  ex_same_title :: "string \<Rightarrow> string \<Rightarrow> bool"
  ex_cut_title :: "string \<Rightarrow> string \<Rightarrow> string \<Rightarrow> string \<Rightarrow> string \<Rightarrow> (string \<times> json) list \<Rightarrow> bool"
  ex_resolved_title :: "string \<Rightarrow> json \<Rightarrow> (string \<times> json) list \<Rightarrow> bool"
  ex_schema_ok :: "json \<Rightarrow> (string \<times> json) list \<Rightarrow> bool"
  ex_stable :: "json \<Rightarrow> string"
  ex_sha :: "string \<Rightarrow> string"

definition str_of :: "extractor \<Rightarrow> json \<Rightarrow> string" where
  "str_of ex v = (case v of JStr s \<Rightarrow> s | _ \<Rightarrow> ex_text ex v)"

definition missing :: "json \<Rightarrow> bool" where
  "missing v \<longleftrightarrow> v = JNull \<or> v = JStr []"

subsection \<open>Transforms\<close>

fun split_by :: "(char \<Rightarrow> bool) \<Rightarrow> string \<Rightarrow> string list" where
  "split_by p [] = [[]]"
| "split_by p (d # ds) = (if p d then [] # split_by p ds else (case split_by p ds of [] \<Rightarrow> [[d]] | w # ws \<Rightarrow> (d # w) # ws))"

definition words :: "string \<Rightarrow> string list" where
  "words s = filter (\<lambda>w. w \<noteq> []) (split_by is_space s)"

fun join_words :: "string list \<Rightarrow> string" where
  "join_words [] = []"
| "join_words [w] = w"
| "join_words (w # ws) = w @ '' '' @ join_words ws"

definition upper :: "string \<Rightarrow> string" where
  "upper s = map (\<lambda>c. if is_lower c then char_of ((of_char c :: nat) - 32) else c) s"

text \<open>\<open>/[A-Za-z0-9_-]+(?:/[A-Za-z0-9_-]+)*/\<close>.\<close>

definition path_prefix :: "string \<Rightarrow> bool" where
  "path_prefix s \<longleftrightarrow>
     (let parts = split_by (\<lambda>c. c = CHR ''/'') s
      in 3 \<le> length parts \<and> hd parts = [] \<and> last parts = [] \<and>
         list_all (\<lambda>w. w \<noteq> [] \<and> list_all (\<lambda>c. is_letter c \<or> is_digit c \<or> c \<in> set ''_-'') w) (butlast (tl parts)))"

definition url_path :: "extractor \<Rightarrow> string \<Rightarrow> (string \<times> json) list \<Rightarrow> json \<Rightarrow> json" where
  "url_path ex url kvs v =
     (case (case map_of kvs ''prefix'' of None \<Rightarrow> JStr [] | Some p \<Rightarrow> p) of
        JStr p \<Rightarrow>
          if path_prefix p \<and> str_of ex v \<noteq> [] \<and> list_all is_digit (str_of ex v) then JStr (ex_join ex url (p @ str_of ex v)) else JNull
      | _ \<Rightarrow> JNull)"

definition apply_transform :: "extractor \<Rightarrow> string \<Rightarrow> json \<Rightarrow> json \<Rightarrow> json" where
  "apply_transform ex url t v =
     (case t of
        JObj kvs \<Rightarrow>
          (case (jget ''type'' kvs = JStr ''regex_extract'', v) of
             (True, JStr s) \<Rightarrow> (case ex_regex ex (jget ''pattern'' kvs) (jget ''group'' kvs) s of None \<Rightarrow> JNull | Some m \<Rightarrow> JStr m)
           | _ \<Rightarrow> if jget ''type'' kvs = JStr ''url_path'' then url_path ex url kvs v else v)
      | JStr name \<Rightarrow>
          (case v of
             JStr s \<Rightarrow>
               JStr (if name = ''trim'' then strip s
                     else if name = ''collapse_whitespace'' then join_words (words s)
                     else if name = ''lowercase'' then lower s
                     else if name = ''uppercase'' then upper s
                     else if name = ''absolute_url'' then (if s = [] then s else ex_join ex url s)
                     else if name = ''strip_html'' then ex_plain ex s
                     else s)
           | _ \<Rightarrow> v)
      | _ \<Rightarrow> v)"

definition array_of :: "json \<Rightarrow> json list" where
  "array_of v = (case v of JArr vs \<Rightarrow> vs | _ \<Rightarrow> [])"

definition apply_transforms :: "extractor \<Rightarrow> string \<Rightarrow> json \<Rightarrow> json \<Rightarrow> json" where
  "apply_transforms ex url transforms v = fold (apply_transform ex url) (array_of transforms) v"

subsection \<open>Fields\<close>

definition yes_words :: "string list" where
  "yes_words = [''true'', ''1'', ''yes'', map char_of [230, 152, 175 :: nat]]"

definition no_words :: "string list" where
  "no_words = [''false'', ''0'', ''no'', map char_of [229, 144, 166 :: nat]]"

text \<open>\<open>None\<close> is a \<open>ValueError\<close>.\<close>

definition coerce_value :: "extractor \<Rightarrow> string \<Rightarrow> string \<Rightarrow> json option" where
  "coerce_value ex s type =
     (if s = [] then Some (JStr [])
      else if type \<in> {''integer'', ''number''} then ex_number ex type (filter (\<lambda>c. c \<noteq> CHR '','') s)
      else if type = ''boolean''
      then (if lower s \<in> set yes_words then Some (JBool True) else if lower s \<in> set no_words then Some (JBool False) else None)
      else if type = ''json'' then ex_parse ex s
      else Some (JStr s))"

type_synonym fields = "(string \<times> json) list"

definition field_selector :: "json \<Rightarrow> string" where
  "field_selector f = text_of (jget ''selector'' (obj_of f))"

text \<open>The first match; several matches of a field that must be unique count as none.\<close>

definition picked :: "json \<Rightarrow> json list \<Rightarrow> json" where
  "picked f ms = (if (jget ''multipleMatchPolicy'' (obj_of f) = JStr ''error'' \<and> 1 < length ms) \<or> ms = [] then JStr [] else hd ms)"

definition field_value :: "extractor \<Rightarrow> string \<Rightarrow> json \<Rightarrow> json list \<Rightarrow> json" where
  "field_value ex url f ms =
     (let v = apply_transforms ex url (jget ''transforms'' (obj_of f)) (picked f ms);
          type = (case json_text (jget ''valueType'' (obj_of f)) of None \<Rightarrow> ''string'' | Some t \<Rightarrow> t)
      in if v = JNull then JNull
         else if json_text v = None \<and> type = ''json'' then v
         else (case coerce_value ex (str_of ex v) type of Some x \<Rightarrow> x | None \<Rightarrow> JStr []))"

fun field_values :: "extractor \<Rightarrow> string \<Rightarrow> string \<Rightarrow> fields \<Rightarrow> py_exc + fields" where
  "field_values ex html url [] = Inr []"
| "field_values ex html url ((k, f) # rest) =
     (case ex_matches ex html (field_selector f) url of
        None \<Rightarrow> Inl (ValueErr ''selector'')
      | Some ms \<Rightarrow> and_then (field_values ex html url rest) (\<lambda>vs. Inr ((k, field_value ex url f ms) # vs)))"

definition json_selector :: "string \<Rightarrow> bool" where
  "json_selector s = starts_with ''jsonpath:'' s"

definition contract_field_values :: "extractor \<Rightarrow> string \<Rightarrow> string \<Rightarrow> fields \<Rightarrow> py_exc + fields" where
  "contract_field_values ex html url specs =
     (if list_ex (\<lambda>(k, f). json_selector (field_selector f)) specs \<and> \<not> ex_json_ok ex html then Inl (ValueErr ''json'')
      else field_values ex html url specs)"

subsection \<open>Records of a list page\<close>

definition row_record :: "extractor \<Rightarrow> string \<Rightarrow> string \<Rightarrow> string \<Rightarrow> fields \<Rightarrow> nat \<Rightarrow> fields" where
  "row_record ex html items url specs n =
     map (\<lambda>(k, f). (k, apply_transforms ex url (jget ''transforms'' (obj_of f))
       (picked f (case ex_row_matches ex html items n (field_selector f) url of None \<Rightarrow> [] | Some ms \<Rightarrow> ms)))) specs"

definition discover_records :: "extractor \<Rightarrow> string \<Rightarrow> string \<Rightarrow> fields \<Rightarrow> bool \<Rightarrow> py_exc + fields list \<times> string option" where
  "discover_records ex html url list_spec retain =
     (let items = text_of (jget ''itemsSelector'' list_spec); specs = obj_of (jget ''fields'' list_spec);
          pagination = jget ''pagination'' list_spec
      in if json_selector items \<and> \<not> ex_json_ok ex html then Inl (ValueErr ''json'')
         else Inr (filter (\<lambda>r. truthy (jget ''detailUrl'' r)) (map (row_record ex html items url specs) [0..<ex_rows ex html items]),
                   if jget ''type'' (obj_of pagination) = JStr ''next_link'' then ex_next ex html pagination url retain else None))"

definition list_record_of :: "extractor \<Rightarrow> string \<Rightarrow> fields \<Rightarrow> list_record" where
  "list_record_of ex published r =
     \<lparr>lr_url = str_of ex (jget ''detailUrl'' r),
      lr_published = (case jget published r of JNull \<Rightarrow> None | v \<Rightarrow> Some (str_of ex v)), lr_fields = r\<rparr>"

subsection \<open>Items\<close>

text \<open>The Chinese texts of items and reasons, as UTF-8 bytes.\<close>

definition not_applicable :: string where
  "not_applicable = map char_of [228, 184, 141, 233, 128, 130, 231, 148, 168 :: nat]"

definition not_marked :: string where
  "not_marked = map char_of [230, 156, 170, 230, 160, 135, 230, 179, 168 :: nat]"

definition field_missing :: string where
  "field_missing = map char_of [229, 173, 151, 230, 174, 181, 231, 188, 186, 229, 164, 177 :: nat]"

definition no_title :: string where
  "no_title = map char_of [230, 156, 170, 230, 143, 144, 229, 143, 150, 230, 160, 135, 233, 162, 152 :: nat]"

definition contract_violated :: string where
  "contract_violated = map char_of [230, 143, 144, 229, 143, 150, 231, 187, 147, 230, 158, 156, 228, 184, 141, 231, 172, 166, 229, 144,
     136, 229, 183, 178, 229, 143, 145, 229, 184, 131, 229, 173, 151, 230, 174, 181, 229, 144, 136, 229,
     144, 140 :: nat]"

definition resolution_missing :: string where
  "resolution_missing = map char_of [229, 174, 152, 230, 150, 185, 229, 142, 159, 230, 150, 135, 232, 167, 163, 230, 158, 144, 232, 175,
     129, 230, 141, 174, 231, 188, 186, 229, 164, 177 :: nat]"

definition resolution_failed :: string where
  "resolution_failed = map char_of [229, 174, 152, 230, 150, 185, 229, 142, 159, 230, 150, 135, 232, 167, 163, 230, 158, 144, 229, 190,
     133, 229, 174, 161, 230, 160, 184, 239, 188, 154 :: nat]"

definition required_head :: string where
  "required_head = map char_of [229, 191, 133, 229, 161, 171, 229, 173, 151, 230, 174, 181, 32 :: nat]"

definition required_tail :: string where
  "required_tail = map char_of [32, 230, 156, 170, 233, 128, 154, 232, 191, 135, 233, 157, 158, 231, 169, 186, 232, 180, 168, 233,
     135, 143, 233, 151, 168 :: nat]"


text \<open>\<open>_merge_stage_fields\<close>: explicit bindings win, otherwise the detail stage.\<close>

definition merged_keys :: "fields \<Rightarrow> fields \<Rightarrow> string list" where
  "merged_keys a b = map fst a @ filter (\<lambda>k. k \<notin> fst ` set a) (map fst b)"

definition merge_stage_fields :: "fields \<Rightarrow> fields \<Rightarrow> fields \<Rightarrow> fields" where
  "merge_stage_fields list_fields detail_fields bindings =
     map (\<lambda>k. (k,
       if jget k bindings = JStr (''list.'' @ k) then jget k list_fields
       else if jget k bindings = JStr (''detail.'' @ k) then jget k detail_fields
       else (case map_of detail_fields k of Some v \<Rightarrow> v | None \<Rightarrow> jget k list_fields)))
     (merged_keys list_fields detail_fields)"

record item_rule =
  ir_detail :: bool
  ir_list_specs :: fields
  ir_specs :: fields
  ir_bindings :: fields
  ir_identity :: "string list"
  ir_schema :: json
  ir_resolution :: json

text \<open>The parts of a specification that make an item; the frozen schema only of published versions.\<close>

definition item_rule_of :: "json \<Rightarrow> item_rule" where
  "item_rule_of spec =
     (let collect = obj_of (jget ''collect'' (obj_of spec)); detail = (map_of collect ''detail'' \<noteq> None);
          contract = obj_of (jget ''contract'' (obj_of spec));
          version = text_of (jget ''collectionVersionId'' (obj_of (jget ''collectionVersionRef'' (obj_of spec))));
          list_specs = obj_of (jget ''fields'' (obj_of (jget ''list'' collect)))
      in \<lparr>ir_detail = detail, ir_list_specs = (if detail then list_specs else []),
          ir_specs = (if detail then obj_of (jget ''fields'' (obj_of (jget ''detail'' collect))) else list_specs),
          ir_bindings = obj_of (jget ''fieldBindings'' contract), ir_identity = texts_of (jget ''identityFields'' contract),
          ir_schema = (if starts_with ''colver_'' version then jget ''normalizedItemSchema'' contract else JNull),
          ir_resolution = jget ''resolution'' (obj_of (jget ''detail'' collect))\<rparr>)"

definition record_fields :: "list_record option \<Rightarrow> fields" where
  "record_fields r = (case r of None \<Rightarrow> [] | Some l \<Rightarrow> lr_fields l)"

text \<open>The data of an item: merged, and for a frozen version exactly its properties.\<close>

definition frozen_data :: "json \<Rightarrow> fields \<Rightarrow> fields" where
  "frozen_data schema data =
     map (\<lambda>k. (k, if k \<notin> set (texts_of (jget ''required'' (obj_of schema))) \<and> missing (jget k data) then JNull else jget k data))
       (map fst (obj_of (jget ''properties'' (obj_of schema))))"

definition extracted_data :: "item_rule \<Rightarrow> fields \<Rightarrow> fields \<Rightarrow> fields" where
  "extracted_data r record vals =
     (let data = (if ir_detail r then merge_stage_fields record vals (ir_bindings r) else vals)
      in if truthy (ir_schema r) then frozen_data (ir_schema r) data else data)"

definition after_dot :: "string \<Rightarrow> string" where
  "after_dot s = drop 1 (dropWhile (\<lambda>c. c \<noteq> CHR ''.'') s)"

definition bound_value :: "item_rule \<Rightarrow> fields \<Rightarrow> fields \<Rightarrow> string \<Rightarrow> json" where
  "bound_value r record vals role =
     (case jget role (ir_bindings r) of
        JStr b \<Rightarrow>
          if CHR ''.'' \<notin> set b then JNull
          else if takeWhile (\<lambda>c. c \<noteq> CHR ''.'') b = ''list'' then jget (after_dot b) record else jget (after_dot b) vals
      | _ \<Rightarrow> JNull)"

definition detail_bound_value :: "item_rule \<Rightarrow> fields \<Rightarrow> string \<Rightarrow> json" where
  "detail_bound_value r vals role =
     (case jget role (ir_bindings r) of
        JStr b \<Rightarrow> if starts_with ''detail.'' b then jget (after_dot b) vals else JNull
      | _ \<Rightarrow> JNull)"

text \<open>Python's \<open>or\<close>: the first true value, else the last.\<close>

fun or_else :: "json list \<Rightarrow> json" where
  "or_else [] = JNull"
| "or_else [v] = v"
| "or_else (v # vs) = (if truthy v then v else or_else vs)"

definition absent_required :: "fields \<Rightarrow> fields \<Rightarrow> string option" where
  "absent_required specs vals =
     map_option fst (find (\<lambda>(k, f). truthy (jget ''required'' (obj_of f)) \<and> missing (jget k vals)) specs)"

text \<open>An empty name is no missing field.\<close>

definition named :: "string option \<Rightarrow> string option" where
  "named k = (if k = Some [] then None else k)"

definition required_missing :: "item_rule \<Rightarrow> fields \<Rightarrow> fields \<Rightarrow> string option" where
  "required_missing r record vals =
     (case named (absent_required (ir_list_specs r) record) of
        Some k \<Rightarrow> Some k
      | None \<Rightarrow> named (absent_required (ir_specs r) vals))"

definition detail_title :: "item_rule \<Rightarrow> fields \<Rightarrow> json" where
  "detail_title r vals =
     or_else [detail_bound_value r vals ''title'', jget ''title'' vals, jget ''heading'' vals, jget ''projectName'' vals, jget ''name'' vals]"

definition list_title :: "item_rule \<Rightarrow> fields \<Rightarrow> fields \<Rightarrow> json" where
  "list_title r record vals =
     or_else [bound_value r record vals ''listTitle'', jget ''listTitle'' record,
       if starts_with ''list.'' (text_of (jget ''title'' (ir_bindings r))) then jget ''title'' record else JNull]"

definition titles_differ :: "extractor \<Rightarrow> item_rule \<Rightarrow> string \<Rightarrow> string \<Rightarrow> fields \<Rightarrow> fields \<Rightarrow> bool" where
  "titles_differ ex r url html record vals \<longleftrightarrow>
     (let d = detail_title r vals; l = list_title r record vals;
          published = bound_value r record vals ''publishedAt'';
          differ = (truthy d \<and> truthy l \<and> \<not> ex_same_title ex (str_of ex d) (str_of ex l) \<and>
            \<not> ex_cut_title ex url html (str_of ex d) (str_of ex l) (if truthy published then str_of ex published else []) record)
      in if differ \<and> truthy (ir_resolution r)
         then \<not> ex_resolved_title ex url (case ex_parse ex html of None \<Rightarrow> JNull | Some v \<Rightarrow> v) record else differ)"

definition compatible_profiles :: "json \<Rightarrow> json list" where
  "compatible_profiles p =
     p # (if p \<in> {JStr ''official_notice_v2'', JStr ''official_notice_v3''} then [JStr ''official_notice_v1''] else []) @
     (if p = JStr ''official_notice_v3'' then [JStr ''official_notice_v2''] else [])"

definition contract_error :: "extractor \<Rightarrow> item_rule \<Rightarrow> json \<Rightarrow> fields \<Rightarrow> string option" where
  "contract_error ex r resolution data =
     (let schema = (if truthy (ir_schema r) \<and> \<not> ex_schema_ok ex (ir_schema r) data then Some contract_violated else None)
      in if \<not> truthy (ir_resolution r) then schema
         else if \<not> truthy resolution \<or> jget ''profile'' (obj_of resolution) \<notin> set (compatible_profiles (ir_resolution r))
         then Some resolution_missing
         else if truthy (jget ''error'' (obj_of resolution))
         then Some (resolution_failed @ text_of (jget ''error'' (obj_of resolution)))
         else schema)"

text \<open>The identity of what was observed: its identity fields, or the page.\<close>

definition identity_payload :: "item_rule \<Rightarrow> fields \<Rightarrow> fields" where
  "identity_payload r data =
     map (\<lambda>k. (k, jget k data)) (filter (\<lambda>k. \<not> missing (jget k data)) (remdups (ir_identity r)))"

definition entity_key :: "extractor \<Rightarrow> item_rule \<Rightarrow> string \<Rightarrow> fields \<Rightarrow> string" where
  "entity_key ex r url data =
     (let payload = identity_payload r data
      in take 20 (ex_sha ex (ex_stable ex (JObj (if payload = [] then [(''sourceUrl'', JStr url)] else payload)))))"

definition pad4 :: "nat \<Rightarrow> string" where
  "pad4 n = replicate (4 - length (nat_text n)) (CHR ''0'') @ nat_text n"

definition rejection_reason :: "string option \<Rightarrow> bool \<Rightarrow> string option \<Rightarrow> json \<Rightarrow> string option" where
  "rejection_reason absent differ contract resolution =
     (if truthy resolution \<and> contract \<noteq> None then contract
      else (case absent of
              Some k \<Rightarrow> Some (required_head @ k @ required_tail)
            | None \<Rightarrow> if differ then Some title_mismatch else contract))"

definition item_id :: "string \<Rightarrow> string \<Rightarrow> string" where
  "item_id rid key = ''item_'' @ remove_prefix ''run_'' rid @ ''_'' @ take 10 key"

definition is_object :: "json \<Rightarrow> bool" where
  "is_object v \<longleftrightarrow> (case v of JObj _ \<Rightarrow> True | _ \<Rightarrow> False)"

text \<open>
  \<open>resolution\<close> of a page that carries one, as far as reading it may raise: the text is no JSON,
  the page or its resolution is no object, or the error to be reported is no string.
\<close>

definition page_resolution :: "extractor \<Rightarrow> item_rule \<Rightarrow> string \<Rightarrow> py_exc + json" where
  "page_resolution ex r html =
     (if \<not> truthy (ir_resolution r) then Inr JNull
      else (case ex_parse ex html of
              None \<Rightarrow> Inl (ValueErr ''json'')
            | Some (JObj page) \<Rightarrow>
                (let v = jget ''resolution'' page; failed = jget ''error'' (obj_of v)
                 in if truthy v \<and> \<not> is_object v then Inl (AttributeErr ''get'')
                    else if truthy failed \<and> (case failed of JStr _ \<Rightarrow> False | _ \<Rightarrow> True) \<and>
                            jget ''profile'' (obj_of v) \<in> set (compatible_profiles (ir_resolution r))
                    then Inl (TypeErr ''error'') else Inr v)
            | Some _ \<Rightarrow> Inl (AttributeErr ''get'')))"

definition made_item ::
  "extractor \<Rightarrow> item_rule \<Rightarrow> collector \<Rightarrow> run \<Rightarrow> string \<Rightarrow> string \<Rightarrow> nat \<Rightarrow> list_record option \<Rightarrow> string \<Rightarrow> fields \<Rightarrow> json \<Rightarrow>
   item \<times> string option" where
  "made_item ex ru c r url html index source observed vals resolution =
     (let record = record_fields source;
          data = extracted_data ru record vals;
          contract = contract_error ex ru resolution data;
          absent = required_missing ru record vals;
          differ = titles_differ ex ru url html record vals;
          accepted = (absent = None \<and> \<not> differ \<and> contract = None);
          key = entity_key ex ru url data;
          observation = ''obs_'' @ remove_prefix ''run_'' (run_id r) @ ''_'' @ pad4 index;
          title = or_else [detail_title ru vals, bound_value ru record vals ''title'', list_title ru record vals,
                           (case find (\<lambda>v. json_text v \<noteq> None \<and> v \<noteq> JStr []) (map snd vals) of None \<Rightarrow> JNull | Some v \<Rightarrow> v),
                           JStr no_title]
      in (\<lparr>im_id = item_id (run_id r) key, im_collector = col_id c, im_collector_name = col_name c, im_source_host = col_source_host c,
           im_entity_key = key, im_observed_at = observed, im_decision = (if accepted then ''accepted'' else ''rejected''),
           im_change_type = (if accepted then Some ''new'' else None), im_revision = (if accepted then Some 1 else None),
           im_title = str_of ex title,
           im_content = str_of ex (or_else [bound_value ru record vals ''content'', jget ''content'' vals, jget ''body'' vals,
             jget ''description'' vals, jget ''contentHtml'' vals, JStr []]),
           im_list_title = str_of ex (or_else [list_title ru record vals, title]), im_source_url = url, im_extracted = data,
           im_other =
             [(''buyer'', or_else [jget ''buyer'' vals, jget ''agencyName'' vals, JStr not_applicable]),
              (''region'', or_else [jget ''region'' vals, JStr not_marked]),
              (''publishedAt'', or_else [bound_value ru record vals ''publishedAt'', jget ''publishedAt'' vals,
                 bound_value ru record vals ''listPublishedAt'', JStr field_missing]),
              (''budget'', JStr (str_of ex (or_else [jget ''budget'' vals, jget ''amount'' vals, JStr not_applicable])))],
           im_changes = [], im_history = (if accepted then [observation] else []),
           im_list_record = (if record \<noteq> [] \<and> run_coverage_mode r = Some ''observed'' then Some (JObj record) else None)\<rparr>,
          rejection_reason absent differ contract resolution))"

definition make_item ::
  "extractor \<Rightarrow> json \<Rightarrow> collector \<Rightarrow> run \<Rightarrow> string \<Rightarrow> string \<Rightarrow> string \<Rightarrow> nat \<Rightarrow> list_record option \<Rightarrow> py_exc + item \<times> string option" where
  "make_item ex spec c r observed url html index source =
     (let ru = item_rule_of spec
      in and_then (contract_field_values ex html url (ir_specs ru)) (\<lambda>vals.
         and_then (page_resolution ex ru html) (\<lambda>resolution.
           Inr (made_item ex ru c r url html index source observed vals resolution))))"

text \<open>A web whose pages are read by the rules of a specification.\<close>

definition harvest_web :: "extractor \<Rightarrow> json \<Rightarrow> collector \<Rightarrow> run \<Rightarrow> string \<Rightarrow> string \<Rightarrow> bool \<Rightarrow> web \<Rightarrow> web" where
  "harvest_web ex spec c r observed published retain w =
     w\<lparr>wb_discover := (\<lambda>url html. map_sum id (\<lambda>(rs, next). (map (list_record_of ex published) rs, next))
          (discover_records ex html url (obj_of (jget ''list'' (obj_of (jget ''collect'' (obj_of spec))))) retain)),
       wb_item := (\<lambda>url html index source. make_item ex spec c r observed url html index source)\<rparr>"

end
