(* ===== verification/Harvest_Safety.thy ===== *)
theory Harvest_Safety
  imports Harvest Outcome_Safety
begin

text \<open>
  What items made of pages satisfy, and what happens to a run that meets one entity on two pages.
\<close>

lemma named_absent_None:
  assumes "named (absent_required specs vals) = None" "(k, f) \<in> set specs" "truthy (jget ''required'' (obj_of f))"
    and "[] \<notin> fst ` set specs"
  shows "\<not> missing (jget k vals)"
proof
  assume m: "missing (jget k vals)"
  let ?p = "\<lambda>(k, f). truthy (jget ''required'' (obj_of f)) \<and> missing (jget k vals)"
  obtain k' f' where found: "find ?p specs = Some (k', f')"
    using m assms(2,3) by (cases "find ?p specs") (auto simp: find_None_iff)
  then have "(k', f') \<in> set specs" using find_SomeD [OF found] by simp
  then have "k' \<noteq> []" using assms(4) by force
  with found assms(1) show False by (simp add: absent_required_def named_def)
qed

lemma make_item_cases:
  assumes "make_item ex spec c r observed url html index source = Inr (i, reason)"
  obtains vals resolution where "contract_field_values ex html url (ir_specs (item_rule_of spec)) = Inr vals"
    "page_resolution ex (item_rule_of spec) html = Inr resolution"
    "(i, reason) = made_item ex (item_rule_of spec) c r url html index source observed vals resolution"
proof -
  let ?ru = "item_rule_of spec"
  obtain vals where v: "contract_field_values ex html url (ir_specs ?ru) = Inr vals"
    using assms by (cases "contract_field_values ex html url (ir_specs ?ru)") (simp_all add: make_item_def Let_def)
  obtain resolution where "page_resolution ex ?ru html = Inr resolution"
    using assms v by (cases "page_resolution ex ?ru html") (simp_all add: make_item_def Let_def)
  with v assms show thesis by (intro that [of vals resolution]) (simp_all add: make_item_def Let_def)
qed

lemma made_item_fields:
  assumes "(i, reason) = made_item ex ru c r url html index source observed vals resolution"
  shows "im_extracted i = extracted_data ru (record_fields source) vals"
    "im_entity_key i = entity_key ex ru url (im_extracted i)" "im_id i = item_id (run_id r) (im_entity_key i)"
    "im_decision i = (if required_missing ru (record_fields source) vals = None \<and>
       \<not> titles_differ ex ru url html (record_fields source) vals \<and> contract_error ex ru resolution (im_extracted i) = None
       then ''accepted'' else ''rejected'')"
    "reason = rejection_reason (required_missing ru (record_fields source) vals)
       (titles_differ ex ru url html (record_fields source) vals) (contract_error ex ru resolution (im_extracted i)) resolution"
    "im_change_type i = (if im_decision i = ''accepted'' then Some ''new'' else None)"
  using assms by (simp_all add: made_item_def Let_def)

lemma extracted_data_keys:
  "truthy (ir_schema ru) \<Longrightarrow> map fst (extracted_data ru row vals) = map fst (obj_of (jget ''properties'' (obj_of (ir_schema ru))))"
  by (simp add: extracted_data_def frozen_data_def comp_def Let_def)

text \<open>
  C36. What an accepted item guarantees: every required field of its page, and of its list row, has
  a value; the title of the page agrees with the list; and under a published field version the
  data has exactly the declared properties and satisfies the frozen schema. An item is rejected
  exactly when a reason is recorded. Field names are not empty, as the schema of specifications
  demands (\<open>gather-spec.schema.json\<close>).
\<close>

theorem accepted_item_complete:
  assumes "make_item ex spec c r observed url html index source = Inr (i, reason)"
    and "[] \<notin> fst ` set (ir_specs (item_rule_of spec)) \<union> fst ` set (ir_list_specs (item_rule_of spec))"
  shows "(im_decision i = ''accepted'' \<longleftrightarrow> reason = None) \<and>
    (im_decision i = ''accepted'' \<longrightarrow>
      (\<exists>vals. contract_field_values ex html url (ir_specs (item_rule_of spec)) = Inr vals \<and>
         (\<forall>(k, f) \<in> set (ir_specs (item_rule_of spec)). truthy (jget ''required'' (obj_of f)) \<longrightarrow> \<not> missing (jget k vals)) \<and>
         (\<forall>(k, f) \<in> set (ir_list_specs (item_rule_of spec)). truthy (jget ''required'' (obj_of f)) \<longrightarrow>
            \<not> missing (jget k (record_fields source))) \<and>
         \<not> titles_differ ex (item_rule_of spec) url html (record_fields source) vals) \<and>
      (truthy (ir_schema (item_rule_of spec)) \<longrightarrow>
         ex_schema_ok ex (ir_schema (item_rule_of spec)) (im_extracted i) \<and>
         map fst (im_extracted i) = map fst (obj_of (jget ''properties'' (obj_of (ir_schema (item_rule_of spec)))))))"
  using assms(1)
proof (rule make_item_cases)
  fix vals resolution
  let ?ru = "item_rule_of spec" and ?row = "record_fields source"
  assume vs: "contract_field_values ex html url (ir_specs ?ru) = Inr vals"
    and made: "(i, reason) = made_item ex ?ru c r url html index source observed vals resolution"
  note f = made_item_fields [OF made]
  let ?absent = "required_missing ?ru ?row vals" and ?differ = "titles_differ ex ?ru url html ?row vals"
    and ?contract = "contract_error ex ?ru resolution (im_extracted i)"
  have iff: "im_decision i = ''accepted'' \<longleftrightarrow> ?absent = None \<and> \<not> ?differ \<and> ?contract = None" using f(4) by simp
  have reason: "reason = None \<longleftrightarrow> ?absent = None \<and> \<not> ?differ \<and> ?contract = None"
    using f(5) by (auto simp: rejection_reason_def split: option.splits if_splits)
  have schema: "ex_schema_ok ex (ir_schema ?ru) (im_extracted i)" if "?contract = None" "truthy (ir_schema ?ru)"
    using that by (auto simp: contract_error_def Let_def split: if_splits)
  have both: "named (absent_required (ir_list_specs ?ru) ?row) = None" "named (absent_required (ir_specs ?ru) vals) = None"
    if "?absent = None" using that by (auto simp: required_missing_def split: option.splits)
  show ?thesis
    using iff reason vs schema both named_absent_None assms(2) extracted_data_keys [of ?ru ?row vals]
    by (auto simp: f(1))
qed

text \<open>
  C37. One entity on two pages: two observations with the same identity values have the same entity
  key in every run and at every URL, so the store recognises the entity again; and when one run
  meets it twice, both items get one id and the run cannot be published, whatever else it found.
\<close>

theorem one_entity_two_pages_blocks_run:
  assumes "make_item ex spec c r o1 url1 html1 n1 source1 = Inr (i1, reason1)"
    and "make_item ex spec c r' o2 url2 html2 n2 source2 = Inr (i2, reason2)"
    and "identity_payload (item_rule_of spec) (im_extracted i1) \<noteq> []"
    and "identity_payload (item_rule_of spec) (im_extracted i1) = identity_payload (item_rule_of spec) (im_extracted i2)"
  shows "im_entity_key i1 = im_entity_key i2 \<and>
    (run_id r = run_id r' \<longrightarrow> j < k \<longrightarrow> k < length (rs_items res) \<longrightarrow> rs_items res ! j = i1 \<longrightarrow> rs_items res ! k = i2 \<longrightarrow>
       im_id i1 = im_id i2 \<and> (\<exists>e. finish_run env db job rn res now = Inl e))"
proof -
  obtain v1 u1 where m1: "(i1, reason1) = made_item ex (item_rule_of spec) c r url1 html1 n1 source1 o1 v1 u1"
    using assms(1) by (rule make_item_cases)
  obtain v2 u2 where m2: "(i2, reason2) = made_item ex (item_rule_of spec) c r' url2 html2 n2 source2 o2 v2 u2"
    using assms(2) by (rule make_item_cases)
  note f1 = made_item_fields [OF m1] and f2 = made_item_fields [OF m2]
  have key: "im_entity_key i1 = im_entity_key i2"
    using assms(3,4) by (simp add: f1(2) f2(2) entity_key_def Let_def)
  moreover have "im_id i1 = im_id i2" if "run_id r = run_id r'" using key that by (simp add: f1(3) f2(3))
  ultimately show ?thesis using conjunct1 [OF duplicate_item_ids_block_run [of j k res]] by blast
qed

subsection \<open>An example\<close>

definition example_extractor :: extractor where
  "example_extractor = \<lparr>ex_json_ok = (\<lambda>_. True), ex_matches = (\<lambda>html s url. Some [JStr html]), ex_rows = (\<lambda>_ _. 0),
     ex_row_matches = (\<lambda>_ _ _ _ _. None), ex_next = (\<lambda>_ _ _ _. None), ex_regex = (\<lambda>_ _ _. None), ex_join = (\<lambda>_ s. s),
     ex_plain = (\<lambda>s. s), ex_text = (\<lambda>_. []), ex_number = (\<lambda>_ _. None), ex_parse = (\<lambda>_. None), ex_same_title = (=),
     ex_cut_title = (\<lambda>_ _ _ _ _ _. False), ex_resolved_title = (\<lambda>_ _ _. True), ex_schema_ok = (\<lambda>_ _. True),
     ex_stable = (\<lambda>v. text_of (jget ''title'' (obj_of v))), ex_sha = (\<lambda>t. t)\<rparr>"

definition example_page_spec :: json where
  "example_page_spec = JObj [(''collect'', JObj [(''list'', JObj [(''fields'',
       JObj [(''title'', JObj [(''selector'', JStr ''h1''), (''required'', JBool True), (''transforms'', JArr [JStr ''trim''])])])])]),
     (''contract'', JObj [(''identityFields'', JArr [JStr ''title''])])]"

definition example_made :: "string \<Rightarrow> string \<Rightarrow> py_exc + item \<times> string option" where
  "example_made html url = make_item example_extractor example_page_spec example_collector example_seed_run ''2024-01-10 10:00'' url html 1 None"

lemma example_made_titled:
  "\<exists>i. example_made '' works '' ''u'' = Inr (i, None) \<and> im_decision i = ''accepted'' \<and>
     identity_payload (item_rule_of example_page_spec) (im_extracted i) = [(''title'', JStr ''works'')]"
  "\<exists>i. example_made ''works'' ''v'' = Inr (i, None) \<and>
     identity_payload (item_rule_of example_page_spec) (im_extracted i) = [(''title'', JStr ''works'')]"
proof -
  have "case example_made '' works '' ''u'' of Inl _ \<Rightarrow> False | Inr (i, r) \<Rightarrow> r = None \<and> im_decision i = ''accepted'' \<and>
     identity_payload (item_rule_of example_page_spec) (im_extracted i) = [(''title'', JStr ''works'')]" by code_simp
  then show "\<exists>i. example_made '' works '' ''u'' = Inr (i, None) \<and> im_decision i = ''accepted'' \<and>
     identity_payload (item_rule_of example_page_spec) (im_extracted i) = [(''title'', JStr ''works'')]"
    by (auto split: sum.splits)
  have "case example_made ''works'' ''v'' of Inl _ \<Rightarrow> False | Inr (i, r) \<Rightarrow> r = None \<and>
     identity_payload (item_rule_of example_page_spec) (im_extracted i) = [(''title'', JStr ''works'')]" by code_simp
  then show "\<exists>i. example_made ''works'' ''v'' = Inr (i, None) \<and>
     identity_payload (item_rule_of example_page_spec) (im_extracted i) = [(''title'', JStr ''works'')]"
    by (auto split: sum.splits)
qed

theorem accepted_item_complete_witness:
  "\<exists>i. example_made '' works '' ''u'' = Inr (i, None) \<and> im_decision i = ''accepted''"
proof -
  obtain i where i: "example_made '' works '' ''u'' = Inr (i, None)" using example_made_titled(1) by blast
  have "[] \<notin> fst ` set (ir_specs (item_rule_of example_page_spec)) \<union> fst ` set (ir_list_specs (item_rule_of example_page_spec))"
    by (simp add: example_page_spec_def item_rule_of_def obj_of_def jget_def)
  from accepted_item_complete [OF i [unfolded example_made_def] this] i show ?thesis by blast
qed

theorem one_entity_two_pages_blocks_run_witness:
  "\<exists>i j e. example_made '' works '' ''u'' = Inr (i, None) \<and> example_made ''works'' ''v'' = Inr (j, None) \<and> im_id i = im_id j \<and>
     finish_run example_env example_run_db example_claim example_running (example_result\<lparr>rs_items := [i, j]\<rparr>) 5 = Inl e"
proof -
  obtain i where i: "example_made '' works '' ''u'' = Inr (i, None)"
      "identity_payload (item_rule_of example_page_spec) (im_extracted i) = [(''title'', JStr ''works'')]"
    using example_made_titled(1) by blast
  obtain j where j: "example_made ''works'' ''v'' = Inr (j, None)"
      "identity_payload (item_rule_of example_page_spec) (im_extracted j) = [(''title'', JStr ''works'')]"
    using example_made_titled(2) by blast
  have ne: "identity_payload (item_rule_of example_page_spec) (im_extracted i) \<noteq> []"
    "identity_payload (item_rule_of example_page_spec) (im_extracted i) = identity_payload (item_rule_of example_page_spec) (im_extracted j)"
    using i(2) j(2) by simp_all
  from one_entity_two_pages_blocks_run [OF i(1) [unfolded example_made_def] j(1) [unfolded example_made_def] ne,
      of 0 1 "example_result\<lparr>rs_items := [i, j]\<rparr>" example_env example_run_db example_claim example_running 5]
  show ?thesis using i(1) j(1) by auto
qed

end
