(* ===== verification/Rule_Plans.thy ===== *)
theory Rule_Plans
  imports Harvest
begin

text \<open>
  From the answer of a model to a constrained rule plan (\<open>model_gateway.py\<close>): the answer is an
  untrusted JSON object; every selector, field, pagination, key, identity and binding is
  normalized or refused. \<open>shown\<close> is \<open>str\<close> of a JSON value that is no string. A
  \<open>ModelCompileError\<close> is \<open>RuntimeErr\<close> with its code, a failing \<open>int(...)\<close> a \<open>ValueErr\<close> for a
  string and a \<open>TypeErr\<close> otherwise.
\<close>

abbreviation compile_failed :: py_exc where
  "compile_failed \<equiv> RuntimeErr ''MODEL_COMPILE_FAILED''"

type_synonym shower = "json \<Rightarrow> string"

definition py_str :: "shower \<Rightarrow> json \<Rightarrow> string" where
  "py_str shown v = (case v of JStr s \<Rightarrow> s | _ \<Rightarrow> shown v)"

text \<open>\<open>str(v or default)\<close>.\<close>

definition str_or :: "shower \<Rightarrow> json \<Rightarrow> string \<Rightarrow> string" where
  "str_or shown v d = (if truthy v then py_str shown v else d)"

text \<open>\<open>int(v)\<close> of a JSON value; \<open>None\<close> when it raises.\<close>

definition signed_digits :: "string \<Rightarrow> int option" where
  "signed_digits s =
     (let t = strip s; body = (if t \<noteq> [] \<and> hd t \<in> {CHR ''-'', CHR ''+''} then tl t else t);
          groups = split_by (\<lambda>c. c = CHR ''_'') body; n = int (digits_value (concat groups))
      in if list_all (\<lambda>g. g \<noteq> [] \<and> list_all is_digit g) groups
         then Some (if hd t = CHR ''-'' then - n else n) else None)"

definition py_int :: "json \<Rightarrow> int option" where
  "py_int v = (case v of JNum n \<Rightarrow> Some n | JBool b \<Rightarrow> Some (if b then 1 else 0) | JStr s \<Rightarrow> signed_digits s | _ \<Rightarrow> None)"

definition get_or :: "string \<Rightarrow> json \<Rightarrow> fields \<Rightarrow> json" where
  "get_or k d kvs = (case map_of kvs k of None \<Rightarrow> d | Some v \<Rightarrow> v)"

definition is_array :: "json \<Rightarrow> bool" where
  "is_array v \<longleftrightarrow> (case v of JArr _ \<Rightarrow> True | _ \<Rightarrow> False)"

subsection \<open>Selectors and fields\<close>

function replace_text :: "string \<Rightarrow> string \<Rightarrow> string \<Rightarrow> string" where
  "replace_text old new s =
     (if s = [] then []
      else if old \<noteq> [] \<and> starts_with old s then new @ replace_text old new (drop (length old) s)
      else hd s # replace_text old new (tl s))"
  by pat_completeness auto
termination
proof (relation "measure (\<lambda>(old, new, s). length s)", goal_cases)
  case (2 old new s)
  then show ?case by (cases old; cases s) simp_all
next
  case (3 old new s)
  then show ?case by (cases s) simp_all
qed simp

declare replace_text.simps [simp del]

definition prefixed :: "string \<Rightarrow> bool" where
  "prefixed s \<longleftrightarrow> starts_with ''css:'' s \<or> starts_with ''jsonpath:'' s"

definition normal_selector :: "shower \<Rightarrow> json \<Rightarrow> string \<Rightarrow> string" where
  "normal_selector shown v response =
     (let s = replace_text '':containsOwn('' '':contains('' (strip (str_or shown v []))
      in if prefixed s then s else if response = ''json'' \<or> starts_with ''$'' s then ''jsonpath:'' @ s else ''css:'' @ s)"

definition value_types :: "string list" where
  "value_types = [''string'', ''integer'', ''number'', ''boolean'', ''datetime'', ''url'', ''html'', ''json'']"

definition type_aliases :: "(string \<times> string) list" where
  "type_aliases = [(''date'', ''datetime''), (''dateTime'', ''datetime''), (''float'', ''number''), (''int'', ''integer'')]"

definition aliased :: "(string \<times> string) list \<Rightarrow> string \<Rightarrow> string" where
  "aliased table k = (case map_of table k of None \<Rightarrow> k | Some v \<Rightarrow> v)"

definition normal_type :: "shower \<Rightarrow> string \<Rightarrow> fields \<Rightarrow> string" where
  "normal_type shown key raw =
     (let t = aliased type_aliases (str_or shown (jget ''valueType'' raw) (if key = ''detailUrl'' then ''url'' else ''string''))
      in if t \<in> set value_types then t else ''string'')"

definition transform_aliases :: "(string \<times> string) list" where
  "transform_aliases = [(''resolveUrl'', ''absolute_url''), (''resolve_url'', ''absolute_url''), (''stripHtml'', ''strip_html'')]"

definition allowed_transforms :: "string list" where
  "allowed_transforms = [''trim'', ''collapse_whitespace'', ''lowercase'', ''uppercase'', ''absolute_url'', ''strip_html'']"

definition regex_entry :: "shower \<Rightarrow> fields \<Rightarrow> json option" where
  "regex_entry shown t =
     (let pattern = take 512 (strip (str_or shown (jget ''pattern'' t) []));
          group = (case py_int (get_or ''group'' (JNum 0) t) of None \<Rightarrow> 0 | Some n \<Rightarrow> min (max n 0) 8)
      in if pattern = [] then None
         else Some (JObj ([(''type'', JStr ''regex_extract''), (''pattern'', JStr pattern)] @
                          (if group \<noteq> 0 then [(''group'', JNum group)] else []))))"

definition normal_transform :: "shower \<Rightarrow> json \<Rightarrow> json option" where
  "normal_transform shown t =
     (case t of
        JObj kvs \<Rightarrow>
          if str_or shown (jget ''type'' kvs) [] = ''regex_extract'' then regex_entry shown kvs
          else if jget ''type'' kvs = JStr ''url_path''
          then Some (JObj [(''type'', JStr ''url_path''), (''prefix'', jget ''prefix'' kvs)])
          else None
      | _ \<Rightarrow> (let name = aliased transform_aliases (py_str shown t)
              in if name \<in> set allowed_transforms then Some (JStr name) else None))"

definition add_once :: "'a \<Rightarrow> 'a list \<Rightarrow> 'a list" where
  "add_once x xs = (if x \<in> set xs then xs else xs @ [x])"

definition normal_transforms :: "shower \<Rightarrow> json list \<Rightarrow> json list" where
  "normal_transforms shown ts =
     foldl (\<lambda>out t. case normal_transform shown t of None \<Rightarrow> out | Some e \<Rightarrow> add_once e out) [] ts"

definition given_transforms :: "string \<Rightarrow> fields \<Rightarrow> json list" where
  "given_transforms type raw =
     (case jget ''transforms'' raw of
        JArr ts \<Rightarrow> ts | _ \<Rightarrow> if type = ''url'' then [JStr ''trim'', JStr ''absolute_url''] else [JStr ''trim''])"

definition normal_on_error :: "shower \<Rightarrow> bool \<Rightarrow> json \<Rightarrow> string" where
  "normal_on_error shown required v =
     (let d = (if required then ''reject_item'' else ''null''); e = str_or shown v d
      in if e \<notin> {''fail_run'', ''reject_item'', ''null''} \<or> (required \<and> e = ''null'') then d else e)"

definition with_accessor :: "string \<Rightarrow> string \<Rightarrow> string \<Rightarrow> string" where
  "with_accessor response type s =
     (if response = ''html'' \<and> starts_with ''css:'' s \<and> \<not> is_infix ''::'' s
      then s @ (if type = ''url'' then ''::attr(href)'' else if type = ''html'' then ''::html'' else ''::text'') else s)"

definition normal_field :: "shower \<Rightarrow> string \<Rightarrow> json \<Rightarrow> string \<Rightarrow> py_exc + fields" where
  "normal_field shown key value response =
     (case value of
        JObj raw \<Rightarrow>
          (let type = normal_type shown key raw;
               required = (case map_of raw ''required'' of None \<Rightarrow> key \<in> {''detailUrl'', ''title''} | Some v \<Rightarrow> truthy v);
               once = normal_transforms shown (given_transforms type raw);
               transforms = (if type = ''url'' then add_once (JStr ''absolute_url'') once else once);
               policy = str_or shown (jget ''multipleMatchPolicy'' raw) ''first'';
               label = take 100 (strip (str_or shown (jget ''label'' raw) []))
           in Inr ([(''selector'', JStr (with_accessor response type (normal_selector shown (jget ''selector'' raw) response))),
                    (''valueType'', JStr type), (''required'', JBool required),
                    (''onError'', JStr (normal_on_error shown required (jget ''onError'' raw))),
                    (''multipleMatchPolicy'', JStr (if policy \<in> {''error'', ''first''} then policy else ''first'')),
                    (''transforms'', JArr transforms)] @
                   (if label = [] then [] else [(''label'', JStr label)]) @
                   (if type = ''datetime''
                    then [(''datetimeFormat'', JStr (str_or shown (jget ''datetimeFormat'' raw) ''ISO8601_DATE'')),
                          (''defaultTimezone'', JStr (str_or shown (jget ''defaultTimezone'' raw) ''Asia/Shanghai''))] else [])))
      | _ \<Rightarrow> Inl compile_failed)"

subsection \<open>Pagination\<close>

definition int_or_raise :: "json \<Rightarrow> py_exc + int" where
  "int_or_raise v =
     (case py_int v of
        Some n \<Rightarrow> Inr n
      | None \<Rightarrow> Inl (case v of JStr _ \<Rightarrow> ValueErr ''int'' | _ \<Rightarrow> TypeErr ''int''))"

definition clamp :: "int \<Rightarrow> int \<Rightarrow> int \<Rightarrow> int" where
  "clamp lo hi n = min (max n lo) hi"

definition normal_pagination :: "shower \<Rightarrow> json \<Rightarrow> string \<Rightarrow> py_exc + fields" where
  "normal_pagination shown raw response =
     (let value = (case raw of JObj kvs \<Rightarrow> kvs | _ \<Rightarrow> [(''type'', JStr ''none'')]);
          type = aliased [(''link'', ''next_link''), (''next'', ''next_link''), (''page_number'', ''page'')]
                   (str_or shown (jget ''type'' value) ''none'')
      in if type = ''none'' then Inr [(''type'', JStr ''none'')]
         else if type = ''next_link''
         then and_then (int_or_raise (get_or ''maxPages'' (JNum 20) value)) (\<lambda>pages.
                Inr [(''type'', JStr ''next_link''), (''selector'', JStr (normal_selector shown (jget ''selector'' value) response)),
                     (''maxPages'', JNum (clamp 1 1000 pages)), (''allowCrossHost'', JBool False)])
         else if type = ''page''
         then and_then (int_or_raise (get_or ''start'' (JNum 1) value)) (\<lambda>start.
              and_then (int_or_raise (get_or ''step'' (JNum 1) value)) (\<lambda>step.
              and_then (int_or_raise (get_or ''maxPages'' (JNum 20) value)) (\<lambda>pages.
                Inr [(''type'', JStr ''page''), (''parameter'', JStr (take 128 (str_or shown (jget ''parameter'' value) ''page''))),
                     (''location'', JStr ''query''), (''start'', JNum (max start 0)), (''step'', JNum (clamp 1 1000 step)),
                     (''maxPages'', JNum (clamp 1 1000 pages)),
                     (''stopWhenNoItems'', JBool (truthy (get_or ''stopWhenNoItems'' (JBool True) value)))])))
         else Inl compile_failed)"

subsection \<open>Names of fields\<close>

definition canonical_field_aliases :: "(string \<times> string list) list" where
  "canonical_field_aliases =
     [(''title'', [''detailtitle'', ''articletitle'', ''noticetitle'', ''newstitle'', ''itemtitle'', ''posttitle'',
         ''pagetitle'', ''headline'', ''biaoti'', ''subject'', ''name'', ''projectname'', ''projname'']),
      (''publishDate'', [''detailpublishdate'', ''pubdate'', ''releasetime'', ''postdate'', ''posttime'', ''pubtime'',
         ''publishdate'', ''publishedat'', ''publish_date'', ''release_date'', ''shijian'', ''date'', ''time'']),
      (''content'', [''detailcontent'', ''articlecontent'', ''body'', ''articlebody'', ''maintext'', ''detailtext'',
         ''detailbody'', ''zhengwen'', ''neirong'', ''text'', ''description'', ''contenthtml'']),
      (''purchaser'', [''buyer'', ''purchaser'', ''agency'', ''agencyname'', ''buyername'', ''org'', ''organization'', ''caigouren'']),
      (''budget'', [''amount'', ''budget'', ''price'', ''totalbudget'', ''money'', ''yusuan'', ''jine'']),
      (''detailUrl'', [''detail_url'', ''detailurl'', ''link'', ''url'', ''href'', ''targeturl''])]"

definition aliases_of :: "string \<Rightarrow> string list" where
  "aliases_of k = (case map_of canonical_field_aliases k of None \<Rightarrow> [] | Some names \<Rightarrow> names)"

definition squashed :: "string \<Rightarrow> string" where
  "squashed s = filter (\<lambda>c. c \<noteq> CHR ''_'' \<and> c \<noteq> CHR ''-'') (lower s)"

text \<open>The fields a requirement expects are pairs of a key and a label.\<close>

type_synonym expected = "(string \<times> string) list"

definition names_field :: "string \<Rightarrow> string \<times> string \<Rightarrow> bool" where
  "names_field clean = (\<lambda>(k, label).
     k \<noteq> [] \<and> (clean = k \<or> squashed clean = squashed k \<or>
                 (lower (strip label) \<noteq> [] \<and> lower clean = lower (strip label)) \<or>
                 squashed clean \<in> set (aliases_of k)))"

definition resolve_canonical_key :: "string \<Rightarrow> expected \<Rightarrow> string" where
  "resolve_canonical_key key expected =
     (let clean = strip key
      in if expected \<noteq> [] then (case find (names_field clean) expected of None \<Rightarrow> clean | Some (k, _) \<Rightarrow> k)
         else if squashed clean \<in> {''amount'', ''buyer'', ''publishedat'', ''listtitle'', ''listpublishedat''} then clean
         else (case find (\<lambda>(_, names). squashed clean \<in> set names) canonical_field_aliases of
                 None \<Rightarrow> clean | Some (k, _) \<Rightarrow> k))"

subsection \<open>The listing stage\<close>

fun normal_fields :: "shower \<Rightarrow> expected \<Rightarrow> string \<Rightarrow> fields \<Rightarrow> fields \<Rightarrow> py_exc + fields" where
  "normal_fields shown expected response [] acc = Inr acc"
| "normal_fields shown expected response ((k, v) # kvs) acc =
     (let key = resolve_canonical_key k expected
      in and_then (normal_field shown key v response) (\<lambda>f.
           normal_fields shown expected response kvs (dict_set key (JObj f) acc)))"

definition handed_off :: "fields \<Rightarrow> fields" where
  "handed_off fs =
     (if ''detailUrl'' \<in> fst ` set fs then fs
      else case find (\<lambda>(k, _). lower k \<in> {''url'', ''link'', ''href''}) fs of
             None \<Rightarrow> fs
           | Some (k, v) \<Rightarrow> filter (\<lambda>(k', _). k' \<noteq> k) fs @ [(''detailUrl'', v)])"

definition list_stage :: "shower \<Rightarrow> expected \<Rightarrow> string \<Rightarrow> fields \<Rightarrow> py_exc + fields" where
  "list_stage shown expected mode raw =
     (let response = str_or shown (jget ''responseType'' raw) ''html'';
          given = obj_of (jget ''fields'' raw)
      in if response \<notin> {''html'', ''json''} \<or> given = [] then Inl compile_failed
         else and_then (normal_fields shown expected response given []) (\<lambda>normal.
           let fs = (if mode = ''list_detail'' then handed_off normal else normal)
           in if mode = ''list_detail'' \<and> ''detailUrl'' \<notin> fst ` set fs then Inl compile_failed
              else and_then (normal_pagination shown (jget ''pagination'' raw) response) (\<lambda>paging.
                Inr [(''responseType'', JStr response),
                     (''itemsSelector'', JStr (normal_selector shown
                        (if truthy (jget ''itemsSelector'' raw) then jget ''itemsSelector'' raw
                         else JStr (if response = ''json'' then ''$'' else ''body'')) response)),
                     (''fields'', JObj fs),
                     (''pagination'', JObj (if mode = ''single'' then [(''type'', JStr ''none'')] else paging))])))"

definition normalize_discovery_plan :: "shower \<Rightarrow> fields \<Rightarrow> expected \<Rightarrow> py_exc + fields" where
  "normalize_discovery_plan shown raw expected =
     (let mode = str_or shown (jget ''mode'' raw) []; transport = str_or shown (jget ''transport'' raw) ''browser''
      in if mode \<notin> {''single'', ''list_detail''} \<or> \<not> is_object (jget ''list'' raw) then Inl compile_failed
         else and_then (list_stage shown expected mode (obj_of (jget ''list'' raw))) (\<lambda>stage.
           Inr [(''mode'', JStr mode),
                (''transport'', JStr (if transport \<in> {''http'', ''browser''} then transport else ''browser'')),
                (''list'', JObj stage)]))"

definition fixed_discovery :: "shower \<Rightarrow> fields \<Rightarrow> py_exc + fields" where
  "fixed_discovery shown discovery =
     (case normalize_discovery_plan shown discovery [] of
        Inl _ \<Rightarrow> Inl (RuntimeErr ''MODEL_COMPILATION_CONTEXT_INVALID'') | Inr d \<Rightarrow> Inr d)"

subsection \<open>The whole plan\<close>

text \<open>\<open>candidate.split(".", 1)[-1]\<close> is \<open>after_dot\<close>; the names the model used map to canonical keys.\<close>

definition mapped_name :: "(string \<times> string) list \<Rightarrow> string \<Rightarrow> string" where
  "mapped_name mappings k = (case map_of mappings k of None \<Rightarrow> k | Some c \<Rightarrow> c)"

definition resolve_field_name :: "shower \<Rightarrow> string set \<Rightarrow> (string \<times> string) list \<Rightarrow> json \<Rightarrow> string option" where
  "resolve_field_name shown available mappings v =
     (let c = mapped_name mappings (py_str shown v); short = mapped_name mappings (after_dot c)
      in if c \<in> available then Some c
         else if CHR ''.'' \<in> set c \<and> short \<in> available then Some short else None)"

definition resolved_names :: "shower \<Rightarrow> string set \<Rightarrow> (string \<times> string) list \<Rightarrow> json \<Rightarrow> string list" where
  "resolved_names shown available mappings v =
     (case v of JArr vs \<Rightarrow> List.map_filter (resolve_field_name shown available mappings) vs | _ \<Rightarrow> [])"

definition list_pagination :: "shower \<Rightarrow> fields \<Rightarrow> fields \<Rightarrow> fields \<Rightarrow> py_exc + fields" where
  "list_pagination shown raw discovery stage =
     (case map_of (obj_of (jget ''list'' raw)) ''pagination'' of
        None \<Rightarrow> Inr stage
      | Some v \<Rightarrow>
          (case normal_pagination shown v (text_of (jget ''responseType'' stage)) of
             Inr paging \<Rightarrow> Inr (dict_set ''pagination'' (JObj paging) stage)
           | Inl e \<Rightarrow> if e = compile_failed
                      then Inr (dict_set ''pagination'' (jget ''pagination'' (obj_of (jget ''list'' discovery))) stage)
                      else Inl e))"

definition labelled :: "string \<Rightarrow> string \<Rightarrow> fields \<Rightarrow> fields" where
  "labelled key canonical f =
     (if jget ''label'' f = JNull \<or> jget ''label'' f = JStr key then dict_set ''label'' (JStr canonical) f else f)"

fun output_fields :: "shower \<Rightarrow> expected \<Rightarrow> string \<Rightarrow> fields \<Rightarrow> fields \<Rightarrow> py_exc + fields" where
  "output_fields shown expected response [] acc = Inr acc"
| "output_fields shown expected response ((k, v) # kvs) acc =
     (let key = resolve_canonical_key k expected
      in and_then (normal_field shown key v response) (\<lambda>f.
           output_fields shown expected response kvs (dict_set key (JObj (labelled k key f)) acc)))"

definition field_mappings :: "expected \<Rightarrow> fields \<Rightarrow> (string \<times> string) list" where
  "field_mappings expected given = map (\<lambda>(k, _). (k, resolve_canonical_key k expected)) given"

text \<open>The page need not contain its own URL: the proven handoff is projected into the contract.\<close>

definition projected :: "expected \<Rightarrow> fields \<Rightarrow> fields \<Rightarrow> fields" where
  "projected expected fs outs =
     (let url = resolve_canonical_key ''detailUrl'' expected
      in if expected \<noteq> [] \<and> url \<noteq> ''detailUrl'' \<and> url \<notin> fst ` set outs \<and> url \<notin> fst ` set fs
         then dict_set url (jget ''detailUrl'' fs) fs else fs)"

definition first_key :: "(string \<Rightarrow> string \<Rightarrow> bool) \<Rightarrow> string list \<Rightarrow> fields \<Rightarrow> string option" where
  "first_key p names fs =
     (case concat (map (\<lambda>n. filter (\<lambda>(k, _). p (lower n) (lower k)) fs) names) of [] \<Rightarrow> None | (k, _) # _ \<Rightarrow> Some k)"

definition bound_field :: "shower \<Rightarrow> bool \<Rightarrow> fields \<Rightarrow> fields \<Rightarrow> (string \<times> string) list \<Rightarrow> fields \<Rightarrow> string \<Rightarrow> string \<Rightarrow> string list \<Rightarrow> string option" where
  "bound_field shown two_stages fs details mappings raw role stage preferred =
     (let asked = jget role (obj_of (jget ''bindings'' raw));
          text = text_of asked;
          asked_stage = takeWhile (\<lambda>c. c \<noteq> CHR ''.'') text;
          name = (if asked_stage = (if two_stages then ''detail'' else ''list'') then mapped_name mappings (after_dot text)
                  else after_dot text);
          fields_of = (\<lambda>s. if s = ''list'' then fs else if s = ''detail'' then details else [])
      in if CHR ''.'' \<in> set text \<and> name \<in> fst ` set (fields_of asked_stage) then Some (asked_stage @ ''.'' @ name)
         else case first_key (=) preferred (fields_of stage) of
                Some k \<Rightarrow> Some (stage @ ''.'' @ k)
              | None \<Rightarrow> map_option (\<lambda>k. stage @ ''.'' @ k) (first_key is_infix preferred (fields_of stage)))"

text \<open>The roles, the stage each prefers and the names it goes by.\<close>

definition binding_roles :: "bool \<Rightarrow> (string \<times> string \<times> string list) list" where
  "binding_roles two_stages =
     (let out = (if two_stages then ''detail'' else ''list'')
      in [(''detailUrl'', ''list'', [''detailUrl'', ''url'', ''link'']),
          (''listTitle'', ''list'', [''listTitle'', ''title'', ''name'']),
          (''listPublishedAt'', ''list'', [''listPublishedAt'', ''publishDate'', ''publishedAt'', ''date'', ''time'']),
          (''title'', out, [''title'', ''detailTitle'', ''projectName'', ''name'']),
          (''publishedAt'', out, [''publishedAt'', ''publishDate'', ''date'', ''time'']),
          (''content'', out, [''content'', ''body'', ''contentHtml'', ''description''])])"

definition plan_bindings :: "shower \<Rightarrow> bool \<Rightarrow> fields \<Rightarrow> fields \<Rightarrow> (string \<times> string) list \<Rightarrow> fields \<Rightarrow> fields" where
  "plan_bindings shown two_stages fs details mappings raw =
     concat (map (\<lambda>(role, stage, preferred).
       case bound_field shown two_stages fs details mappings raw role stage preferred of
         None \<Rightarrow> [] | Some b \<Rightarrow> [(role, JStr b)]) (binding_roles two_stages))"

definition default_rationale :: string where
  "default_rationale = map char_of [230, 160, 185, 230, 141, 174, 231, 189, 145, 233, 161, 181, 230, 160, 183, 230, 156, 172, 231, 188, 150, 232, 175, 145, 231, 154, 132, 231, 161, 174, 229, 174, 154, 230, 128, 167, 233, 135, 135, 233, 155, 134, 232, 167, 132, 229, 136, 153, 227, 128, 130 :: nat]"

definition mode_of :: "fields \<Rightarrow> string" where
  "mode_of plan = text_of (jget ''mode'' plan)"

definition list_of :: "fields \<Rightarrow> fields" where
  "list_of plan = obj_of (jget ''list'' plan)"

definition fields_of :: "fields \<Rightarrow> fields" where
  "fields_of stage = obj_of (jget ''fields'' stage)"

definition texts :: "string list \<Rightarrow> json" where
  "texts ss = JArr (map JStr ss)"

text \<open>
  \<open>stage\<close> is the listing stage with its pagination settled, \<open>given\<close> the raw output fields and
  \<open>outs\<close> the normalized ones.
\<close>

definition identity_fields :: "shower \<Rightarrow> fields \<Rightarrow> bool \<Rightarrow> string set \<Rightarrow> (string \<times> string) list \<Rightarrow> fields \<Rightarrow> string list" where
  "identity_fields shown raw two_stages available mappings outs =
     (let named = resolved_names shown available mappings (jget ''identityFields'' raw)
      in if named \<noteq> [] then named
         else filter (\<lambda>f. f \<in> available) (if two_stages then [''detailUrl''] else [fst (hd outs)]))"

definition fingerprint_fields :: "shower \<Rightarrow> fields \<Rightarrow> string set \<Rightarrow> (string \<times> string) list \<Rightarrow> fields \<Rightarrow> string list" where
  "fingerprint_fields shown raw available mappings outs =
     foldl (\<lambda>acc k. add_once k acc) []
       (resolved_names shown available mappings (jget ''fingerprintFields'' raw) @ map fst outs)"

definition detail_stage :: "string \<Rightarrow> fields \<Rightarrow> fields \<Rightarrow> fields" where
  "detail_stage response raw outs =
     [(''responseType'', JStr response), (''fields'', JObj outs)] @
     (if jget ''transport'' raw \<in> {JStr ''http'', JStr ''browser''} then [(''transport'', jget ''transport'' raw)] else [])"

definition assembled_plan ::
  "shower \<Rightarrow> fields \<Rightarrow> fields \<Rightarrow> expected \<Rightarrow> fields \<Rightarrow> fields \<Rightarrow> string \<Rightarrow> fields \<Rightarrow> py_exc + fields" where
  "assembled_plan shown raw normalized expected stage out_raw response outs =
     (let two_stages = (mode_of normalized = ''list_detail'');
          fs = (if two_stages then projected expected (fields_of stage) outs else fields_of stage);
          mappings = field_mappings expected (fields_of out_raw);
          available = fst ` set fs \<union> fst ` set outs;
          identity = identity_fields shown raw two_stages available mappings outs;
          fingerprint = fingerprint_fields shown raw available mappings outs;
          details = (if two_stages then outs else [])
      in if identity = [] \<or> fingerprint = [] then Inl compile_failed
         else Inr ([(''schemaVersion'', JStr ''extrio.rule-plan.v1''),
                    (''mode'', jget ''mode'' normalized), (''transport'', jget ''transport'' normalized),
                    (''list'', JObj (dict_set ''fields'' (JObj (if two_stages then fs else outs)) stage)),
                    (''bindings'', JObj (plan_bindings shown two_stages fs details mappings raw)),
                    (''identityFields'', texts identity), (''fingerprintFields'', texts fingerprint),
                    (''rationale'', JStr (take 1000 (str_or shown (jget ''rationale'' raw) default_rationale)))] @
                   (if two_stages then [(''detail'', JObj (detail_stage response out_raw outs))] else [])))"

definition normalize_rule_plan :: "shower \<Rightarrow> fields \<Rightarrow> fields \<Rightarrow> expected \<Rightarrow> py_exc + fields" where
  "normalize_rule_plan shown raw discovery expected =
     (let merged = dict_set ''list'' (jget ''list'' discovery) (dict_set ''transport'' (jget ''transport'' discovery)
                     (dict_set ''mode'' (jget ''mode'' discovery) raw))
      in and_then (if mode_of discovery = ''list_detail'' then fixed_discovery shown discovery
                   else normalize_discovery_plan shown merged expected) (\<lambda>normalized.
         and_then (list_pagination shown raw discovery (list_of normalized)) (\<lambda>stage.
           let out_raw = (if mode_of normalized = ''list_detail'' then obj_of (jget ''detail'' raw) else stage);
               response = str_or shown (jget ''responseType'' out_raw) ''html''
           in if fields_of out_raw = [] then Inl compile_failed
              else and_then (output_fields shown expected response (fields_of out_raw) []) (\<lambda>outs.
                assembled_plan shown raw normalized expected stage out_raw response outs))))"

subsection \<open>Repair\<close>

text \<open>
  What the model answers to a repair request is merged into the rule being repaired: it may only
  move selectors and pagination. \<open>old\<close> is the specification of that rule.
\<close>

abbreviation repair_invalid :: py_exc where
  "repair_invalid \<equiv> RuntimeErr ''REPAIR_VALIDATION_FAILED''"

definition given_selector :: "shower \<Rightarrow> json \<Rightarrow> string" where
  "given_selector shown v =
     strip (case v of JObj kvs \<Rightarrow> str_or shown (jget ''selector'' kvs) [] | _ \<Rightarrow> str_or shown v [])"

definition given_label :: "shower \<Rightarrow> json \<Rightarrow> string" where
  "given_label shown v = strip (str_or shown (jget ''label'' (obj_of v)) [])"

definition merged_field :: "shower \<Rightarrow> fields \<Rightarrow> string \<times> json \<Rightarrow> string \<times> json" where
  "merged_field shown answer = (\<lambda>(k, old).
     let v = jget k answer; sel = given_selector shown v;
         moved = (if sel = [] then obj_of old else dict_set ''selector'' (JStr sel) (obj_of old))
     in (k, JObj (if given_label shown old = [] \<and> given_label shown v \<noteq> []
                  then dict_set ''label'' (JStr (take 100 (given_label shown v))) moved else moved)))"

definition merged_fields :: "shower \<Rightarrow> fields \<Rightarrow> fields \<Rightarrow> fields" where
  "merged_fields shown olds answer = map (merged_field shown answer) olds"

definition drifted :: "shower \<Rightarrow> fields \<Rightarrow> fields \<Rightarrow> bool" where
  "drifted shown olds answer \<longleftrightarrow>
     (\<exists>(k, _) \<in> set olds. given_selector shown (jget k answer) = []) \<or> (\<exists>(k, _) \<in> set answer. k \<notin> fst ` set olds)"

definition repaired_rationale :: string where
  "repaired_rationale = map char_of [230, 160, 185, 230, 141, 174, 231, 171, 153, 231, 130, 185, 231, 187, 147, 230, 158, 132, 229, 143, 152, 229, 140, 150, 228, 191, 174, 229, 164, 141, 231, 154, 132, 233, 135, 135, 233, 155, 134, 232, 167, 132, 229, 136, 153, 239, 188, 140, 228, 191, 157, 230, 140, 129, 229, 142, 159, 232, 190, 147, 229, 135, 186, 229, 144, 136, 229, 144, 140, 228, 184, 141, 229, 143, 152, 227, 128, 130 :: nat]"

definition part_of :: "string \<Rightarrow> fields \<Rightarrow> fields" where
  "part_of k kvs = obj_of (jget k kvs)"

definition repair_discovery :: "shower \<Rightarrow> fields \<Rightarrow> fields \<Rightarrow> fields \<Rightarrow> fields" where
  "repair_discovery shown old answer lfs =
     (let old_list = part_of ''list'' (part_of ''collect'' old); llm_list = part_of ''list'' answer;
          transport = str_or shown (jget ''transport'' answer) [];
          items = strip (str_or shown (jget ''itemsSelector'' llm_list) [])
      in [(''mode'', JStr (if part_of ''detail'' (part_of ''collect'' old) = [] then ''single'' else ''list_detail'')),
          (''transport'', JStr (if transport \<in> {''http'', ''browser''} then transport
                                else str_or shown (jget ''transport'' (part_of ''sourceContext'' old)) ''browser'')),
          (''list'', JObj [(''responseType'', JStr (str_or shown (jget ''responseType'' old_list) ''html'')),
                           (''itemsSelector'', if items = [] then jget ''itemsSelector'' old_list else JStr items),
                           (''fields'', JObj lfs),
                           (''pagination'', if truthy (jget ''pagination'' old_list) then jget ''pagination'' old_list
                                            else JObj [(''type'', JStr ''none'')])])])"

definition repair_raw :: "shower \<Rightarrow> fields \<Rightarrow> fields \<Rightarrow> fields \<Rightarrow> fields \<Rightarrow> fields" where
  "repair_raw shown old answer discovery details =
     (let contract = part_of ''contract'' old; old_detail = part_of ''detail'' (part_of ''collect'' old);
          paging = jget ''pagination'' (part_of ''list'' answer)
      in [(''list'', JObj [(''pagination'', if is_object paging then paging else jget ''pagination'' (list_of discovery))]),
          (''fingerprintFields'', JArr (array_of (jget ''fingerprintFields'' contract))),
          (''bindings'', JObj (part_of ''fieldBindings'' contract)),
          (''rationale'', JStr (str_or shown (jget ''rationale'' answer) repaired_rationale))] @
         (if truthy (jget ''identityFields'' contract) then [(''identityFields'', jget ''identityFields'' contract)] else []) @
         (if old_detail = [] then []
          else [(''detail'', JObj [(''responseType'', JStr (str_or shown (jget ''responseType'' old_detail) ''html'')),
                                   (''fields'', JObj details)])]))"

definition repair_expected :: "fields \<Rightarrow> fields \<Rightarrow> expected" where
  "repair_expected lfs details = map (\<lambda>(k, _). (k, [])) (lfs @ details)"

text \<open>
  \<open>compile_repair_rule_plan\<close> around the model call: before it the rule must have a contract; after
  it the answer must place every field and no other.
\<close>

definition repairable :: "fields \<Rightarrow> py_exc + unit" where
  "repairable old =
     (if fields_of (part_of ''list'' (part_of ''collect'' old)) = [] \<or> part_of ''contract'' old = []
      then Inl (RuntimeErr ''REPAIR_NOT_APPLICABLE'') else Inr ())"

definition repaired_plan :: "shower \<Rightarrow> fields \<Rightarrow> json \<Rightarrow> py_exc + fields" where
  "repaired_plan shown old answer =
     (let lfs = fields_of (part_of ''list'' (part_of ''collect'' old));
          details = fields_of (part_of ''detail'' (part_of ''collect'' old));
          llm_lists = fields_of (part_of ''list'' (obj_of answer)); llm_details = fields_of (part_of ''detail'' (obj_of answer));
          expected = repair_expected lfs details
      in if \<not> is_object answer \<or> drifted shown lfs llm_lists \<or> drifted shown details llm_details then Inl repair_invalid
         else and_then (normalize_discovery_plan shown
                          (repair_discovery shown old (obj_of answer) (merged_fields shown lfs llm_lists)) expected) (\<lambda>discovery.
           normalize_rule_plan shown (repair_raw shown old (obj_of answer) discovery (merged_fields shown details llm_details))
             discovery expected))"

definition compile_repair :: "shower \<Rightarrow> fields \<Rightarrow> (py_exc + json) \<Rightarrow> py_exc + fields" where
  "compile_repair shown old answered =
     and_then (repairable old) (\<lambda>_. and_then answered (repaired_plan shown old))"

text \<open>
  \<open>_apply_repair_contract\<close> (\<open>explorer.py\<close>): the contract of the repaired specification is the old
  one, verbatim; only a rule from before field versions gets its digest computed.
\<close>

definition apply_repair_contract :: "(json \<Rightarrow> string) \<Rightarrow> fields \<Rightarrow> fields \<Rightarrow> py_exc + fields" where
  "apply_repair_contract sha spec old =
     (let contract = part_of ''contract'' old; ref = part_of ''collectionVersionRef'' old;
          schema = jget ''normalizedItemSchema'' contract
      in if contract = [] then Inl (RuntimeErr ''REPAIR_NOT_APPLICABLE'')
         else if starts_with ''colver_'' (text_of (jget ''collectionVersionId'' ref))
         then Inr (dict_set ''collectionVersionRef'' (JObj ref) (dict_set ''contract'' (JObj contract) spec))
         else Inr (dict_set ''contract''
                (JObj (dict_set ''outputContractDigest'' (JStr (sha (if truthy schema then schema else JObj []))) contract)) spec))"

end
