(* ===== verification/Rule_Plans_Safety.thy ===== *)
theory Rule_Plans_Safety
  imports Collection_Fields Rule_Plans
begin

text \<open>
  What a normalized plan guarantees whatever the model answered: every rule is inside the
  constrained dialect, the proven listing cannot drift, and a repair keeps the semantics of the
  fields it repairs.
\<close>

subsection \<open>The dialect\<close>

definition transform_ok :: "json \<Rightarrow> bool" where
  "transform_ok t \<longleftrightarrow>
     (case t of
        JStr s \<Rightarrow> s \<in> set allowed_transforms
      | JObj kvs \<Rightarrow> jget ''type'' kvs = JStr ''url_path'' \<or>
          (jget ''type'' kvs = JStr ''regex_extract'' \<and> text_of (jget ''pattern'' kvs) \<noteq> [] \<and>
           length (text_of (jget ''pattern'' kvs)) \<le> 512 \<and> (case jget ''group'' kvs of JNull \<Rightarrow> True | JNum n \<Rightarrow> 1 \<le> n \<and> n \<le> 8 | _ \<Rightarrow> False))
      | _ \<Rightarrow> False)"

definition field_ok :: "fields \<Rightarrow> bool" where
  "field_ok f \<longleftrightarrow>
     prefixed (text_of (jget ''selector'' f)) \<and> text_of (jget ''valueType'' f) \<in> set value_types \<and>
     jget ''required'' f \<in> {JBool True, JBool False} \<and>
     jget ''onError'' f \<in> {JStr ''fail_run'', JStr ''reject_item'', JStr ''null''} \<and>
     (jget ''onError'' f = JStr ''null'' \<longrightarrow> jget ''required'' f = JBool False) \<and>
     jget ''multipleMatchPolicy'' f \<in> {JStr ''error'', JStr ''first''} \<and>
     list_all transform_ok (array_of (jget ''transforms'' f)) \<and> distinct (array_of (jget ''transforms'' f)) \<and>
     (jget ''valueType'' f = JStr ''url'' \<longrightarrow> JStr ''absolute_url'' \<in> set (array_of (jget ''transforms'' f)))"

definition pages_ok :: "json \<Rightarrow> bool" where
  "pages_ok v \<longleftrightarrow> (case v of JNum n \<Rightarrow> 1 \<le> n \<and> n \<le> 1000 | _ \<Rightarrow> False)"

definition pagination_ok :: "fields \<Rightarrow> bool" where
  "pagination_ok p \<longleftrightarrow>
     jget ''type'' p = JStr ''none'' \<or>
     (jget ''type'' p = JStr ''next_link'' \<and> prefixed (text_of (jget ''selector'' p)) \<and> pages_ok (jget ''maxPages'' p) \<and>
      jget ''allowCrossHost'' p = JBool False) \<or>
     (jget ''type'' p = JStr ''page'' \<and> jget ''location'' p = JStr ''query'' \<and> pages_ok (jget ''step'' p) \<and> pages_ok (jget ''maxPages'' p))"

definition fields_ok :: "fields \<Rightarrow> bool" where
  "fields_ok fs \<longleftrightarrow> distinct (map fst fs) \<and> (\<forall>(k, v) \<in> set fs. \<exists>f. v = JObj f \<and> field_ok f)"

lemma starts_with_append [simp]: "starts_with p (p @ s)"
  by (simp add: starts_with_def)

lemma starts_with_extend: "starts_with p s \<Longrightarrow> starts_with p (s @ t)"
  by (metis append_assoc append_take_drop_id starts_with_append starts_with_def)

lemma prefixed_extend: "prefixed s \<Longrightarrow> prefixed (s @ t)"
  by (auto simp: prefixed_def intro: starts_with_extend)

lemma prefixed_normal_selector: "prefixed (normal_selector shown v response)"
proof -
  have "prefixed (''css:'' @ s)" "prefixed (''jsonpath:'' @ s)" for s
    unfolding prefixed_def by (metis starts_with_append)+
  then show ?thesis by (simp add: normal_selector_def Let_def)
qed

lemma prefixed_with_accessor: "prefixed s \<Longrightarrow> prefixed (with_accessor response type s)"
  by (simp add: with_accessor_def prefixed_extend)

lemma jget_Cons [simp]: "jget k ((k', v) # kvs) = (if k = k' then v else jget k kvs)"
  and jget_Nil [simp]: "jget k [] = JNull"
  by (simp_all add: jget_def)

lemma text_of_text [simp]: "text_of (JStr s) = s"
  by (simp add: text_of_def json_text_def)

lemma regex_entry_ok:
  assumes "regex_entry shown kvs = Some e" shows "transform_ok e"
proof -
  define p where "p = take 512 (strip (str_or shown (jget ''pattern'' kvs) []))"
  define g where "g = (case py_int (get_or ''group'' (JNum 0) kvs) of None \<Rightarrow> 0 | Some n \<Rightarrow> min (max n 0) 8)"
  have g: "0 \<le> g" "g \<le> 8" by (simp_all add: g_def split: option.split)
  have p: "length p \<le> 512" by (simp add: p_def)
  have "regex_entry shown kvs = (if p = [] then None
      else Some (JObj ([(''type'', JStr ''regex_extract''), (''pattern'', JStr p)] @ (if g \<noteq> 0 then [(''group'', JNum g)] else []))))"
    unfolding regex_entry_def p_def [symmetric] g_def [symmetric] Let_def by (rule refl)
  then have "p \<noteq> []" and e: "e = JObj ([(''type'', JStr ''regex_extract''), (''pattern'', JStr p)] @ (if g \<noteq> 0 then [(''group'', JNum g)] else []))"
    using assms by (simp_all split: if_splits)
  then show ?thesis using g p by (cases "g = 0") (simp_all add: transform_ok_def)
qed

lemma normal_transform_ok:
  assumes "normal_transform shown t = Some e" shows "transform_ok e"
proof (cases t)
  case (JObj kvs)
  then show ?thesis using assms regex_entry_ok [of shown kvs e]
    by (simp add: normal_transform_def split: if_splits) (auto simp: transform_ok_def)
qed (use assms in \<open>simp_all add: normal_transform_def transform_ok_def Let_def split: if_splits, auto\<close>)

lemma foldl_add_once:
  "set (foldl (\<lambda>acc k. add_once k acc) acc ks) = set acc \<union> set ks"
  "distinct acc \<Longrightarrow> distinct (foldl (\<lambda>acc k. add_once k acc) acc ks)"
  by (induction ks arbitrary: acc) (auto simp: add_once_def)

lemma normal_transforms_ok: "list_all transform_ok (normal_transforms shown ts) \<and> distinct (normal_transforms shown ts)"
proof -
  have "list_all transform_ok (foldl (\<lambda>out t. case normal_transform shown t of None \<Rightarrow> out | Some e \<Rightarrow> add_once e out) acc ts) \<and>
        distinct (foldl (\<lambda>out t. case normal_transform shown t of None \<Rightarrow> out | Some e \<Rightarrow> add_once e out) acc ts)"
    if "list_all transform_ok acc" "distinct acc" for acc
    using that
  proof (induction ts arbitrary: acc)
    case (Cons t ts)
    have "list_all transform_ok (add_once e acc) \<and> distinct (add_once e acc)" if "normal_transform shown t = Some e" for e
      using Cons.prems normal_transform_ok [OF that] by (simp add: add_once_def)
    then show ?case using Cons by (cases "normal_transform shown t") simp_all
  qed simp
  then show ?thesis by (simp add: normal_transforms_def)
qed

lemma normal_type_allowed: "normal_type shown key raw \<in> set value_types"
  by (simp add: normal_type_def value_types_def Let_def)

lemma normal_on_error_ok:
  "normal_on_error shown required v \<in> {''fail_run'', ''reject_item'', ''null''} \<and>
   (normal_on_error shown required v = ''null'' \<longrightarrow> \<not> required)"
  by (auto simp: normal_on_error_def Let_def)

text \<open>The entries of a normalized field, with the parts it is made of.\<close>

lemma normal_field_parts:
  assumes "normal_field shown key v response = Inr f"
  obtains raw type required ts rest where "v = JObj raw" "type = normal_type shown key raw"
    "required = (case map_of raw ''required'' of None \<Rightarrow> key \<in> {''detailUrl'', ''title''} | Some v \<Rightarrow> truthy v)"
    "ts = (if type = ''url'' then add_once (JStr ''absolute_url'') (normal_transforms shown (given_transforms type raw))
           else normal_transforms shown (given_transforms type raw))"
    "f = (''selector'', JStr (with_accessor response type (normal_selector shown (jget ''selector'' raw) response))) #
         (''valueType'', JStr type) # (''required'', JBool required) #
         (''onError'', JStr (normal_on_error shown required (jget ''onError'' raw))) #
         (''multipleMatchPolicy'', JStr (if str_or shown (jget ''multipleMatchPolicy'' raw) ''first'' = ''error'' then ''error'' else ''first'')) #
         (''transforms'', JArr ts) # rest"
proof -
  obtain raw where v: "v = JObj raw" using assms by (cases v) (simp_all add: normal_field_def)
  define type where "type = normal_type shown key raw"
  define required where "required = (case map_of raw ''required'' of None \<Rightarrow> key \<in> {''detailUrl'', ''title''} | Some v \<Rightarrow> truthy v)"
  define policy where "policy = str_or shown (jget ''multipleMatchPolicy'' raw) ''first''"
  have policy: "(if policy \<in> {''error'', ''first''} then policy else ''first'') = (if policy = ''error'' then ''error'' else ''first'')"
    by simp
  define label where "label = take 100 (strip (str_or shown (jget ''label'' raw) []))"
  define rest where "rest = (if label = [] then [] else [(''label'', JStr label)]) @
     (if type = ''datetime''
      then [(''datetimeFormat'', JStr (str_or shown (jget ''datetimeFormat'' raw) ''ISO8601_DATE'')),
            (''defaultTimezone'', JStr (str_or shown (jget ''defaultTimezone'' raw) ''Asia/Shanghai''))] else [])"
  define ts where "ts = (if type = ''url'' then add_once (JStr ''absolute_url'') (normal_transforms shown (given_transforms type raw)) else normal_transforms shown (given_transforms type raw))"
  have "f = (''selector'', JStr (with_accessor response type (normal_selector shown (jget ''selector'' raw) response))) #
         (''valueType'', JStr type) # (''required'', JBool required) #
         (''onError'', JStr (normal_on_error shown required (jget ''onError'' raw))) #
         (''multipleMatchPolicy'', JStr (if policy = ''error'' then ''error'' else ''first'')) #
         (''transforms'', JArr ts) # rest"
    using assms
    unfolding v normal_field_def Let_def type_def [symmetric] json.case required_def [symmetric]
      policy_def [symmetric] policy sum.inject label_def [symmetric] ts_def [symmetric] append_Cons append_Nil
      append_assoc rest_def [symmetric]
    by (rule sym)
  then show thesis
    by (intro that [OF v type_def required_def ts_def]) (simp_all add: policy_def)
qed

lemma normal_field_ok:
  assumes "normal_field shown key v response = Inr f" shows "field_ok f"
proof -
  obtain raw type required ts rest where type: "type = normal_type shown key raw"
    and ts: "ts = (if type = ''url'' then add_once (JStr ''absolute_url'') (normal_transforms shown (given_transforms type raw))
           else normal_transforms shown (given_transforms type raw))"
    and f: "f = (''selector'', JStr (with_accessor response type (normal_selector shown (jget ''selector'' raw) response))) #
         (''valueType'', JStr type) # (''required'', JBool required) #
         (''onError'', JStr (normal_on_error shown required (jget ''onError'' raw))) #
         (''multipleMatchPolicy'', JStr (if str_or shown (jget ''multipleMatchPolicy'' raw) ''first'' = ''error'' then ''error'' else ''first'')) #
         (''transforms'', JArr ts) # rest"
    using assms by (rule normal_field_parts)
  have added: "list_all transform_ok (add_once (JStr ''absolute_url'') us) \<and> distinct (add_once (JStr ''absolute_url'') us)"
    if "list_all transform_ok us \<and> distinct us" for us
    using that by (simp add: add_once_def transform_ok_def allowed_transforms_def)
  have "list_all transform_ok ts \<and> distinct ts"
    unfolding ts using normal_transforms_ok added by simp
  moreover have "type = ''url'' \<longrightarrow> JStr ''absolute_url'' \<in> set ts" by (simp add: ts add_once_def)
  moreover have "type \<in> set value_types" by (simp add: type normal_type_allowed)
  moreover have "prefixed (with_accessor response type (normal_selector shown (jget ''selector'' raw) response))"
    by (simp add: prefixed_with_accessor prefixed_normal_selector)
  ultimately show ?thesis
    using normal_on_error_ok [of shown required "jget ''onError'' raw"]
    by (cases required) (simp_all add: f field_ok_def array_of_def, auto)
qed

lemma clamp_pages: "pages_ok (JNum (clamp 1 1000 n))"
  by (simp add: pages_ok_def clamp_def)

lemma normal_pagination_ok:
  assumes "normal_pagination shown v response = Inr p" shows "pagination_ok p"
proof -
  define kvs where "kvs = (case v of JObj kvs \<Rightarrow> kvs | _ \<Rightarrow> [(''type'', JStr ''none'')])"
  define type where "type = aliased [(''link'', ''next_link''), (''next'', ''next_link''), (''page_number'', ''page'')]
                   (str_or shown (jget ''type'' kvs) ''none'')"
  have cases: "type = ''none'' \<or> type = ''next_link'' \<or> type = ''page''"
    using assms unfolding normal_pagination_def kvs_def [symmetric] Let_def type_def [symmetric]
    by (simp split: if_splits)
  from assms show ?thesis
    unfolding normal_pagination_def kvs_def [symmetric] Let_def type_def [symmetric]
    using cases clamp_pages prefixed_normal_selector
    by (auto simp: and_then_Inr pagination_ok_def)
qed

subsection \<open>Stages\<close>

lemma jget_dict_set [simp]: "jget k (dict_set k' v kvs) = (if k = k' then v else jget k kvs)"
  by (simp add: jget_def)

lemma keys_dict_set: "map fst (dict_set k v kvs) = (if k \<in> fst ` set kvs then map fst kvs else map fst kvs @ [k])"
  by (induction k v kvs rule: dict_set.induct) auto

lemma dict_set_fresh: "k \<notin> fst ` set kvs \<Longrightarrow> dict_set k v kvs = kvs @ [(k, v)]"
  by (induction k v kvs rule: dict_set.induct) auto

lemma set_dict_set: "set (dict_set k v kvs) \<subseteq> insert (k, v) (set kvs)"
  by (induction k v kvs rule: dict_set.induct) auto

lemma fields_ok_Nil: "fields_ok []"
  by (simp add: fields_ok_def)

lemma fields_ok_set:
  assumes "fields_ok fs" "field_ok f" shows "fields_ok (dict_set k (JObj f) fs)"
proof -
  have "distinct (map fst (dict_set k (JObj f) fs))" using assms(1) by (simp add: fields_ok_def keys_dict_set)
  moreover have "\<exists>g. v = JObj g \<and> field_ok g" if "(k', v) \<in> set (dict_set k (JObj f) fs)" for k' v
  proof -
    have "(k', v) = (k, JObj f) \<or> (k', v) \<in> set fs" using that set_dict_set [of k "JObj f" fs] by blast
    then show ?thesis using assms unfolding fields_ok_def by blast
  qed
  ultimately show ?thesis unfolding fields_ok_def by blast
qed

lemma normal_fields_ok:
  "\<lbrakk>normal_fields shown expected response kvs acc = Inr fs; fields_ok acc\<rbrakk> \<Longrightarrow> fields_ok fs"
proof (induction kvs arbitrary: acc)
  case (Cons kv kvs)
  obtain k v where kv: "kv = (k, v)" by force
  obtain f where "normal_field shown (resolve_canonical_key k expected) v response = Inr f"
    and rest: "normal_fields shown expected response kvs (dict_set (resolve_canonical_key k expected) (JObj f) acc) = Inr fs"
    using Cons.prems(1) unfolding kv normal_fields.simps Let_def and_then_Inr by blast
  then show ?case using Cons.IH [OF rest] Cons.prems(2) normal_field_ok fields_ok_set by blast
qed simp

lemma field_ok_labelled: "field_ok f \<Longrightarrow> field_ok (labelled key canonical f)"
  by (simp add: labelled_def field_ok_def)

lemma output_fields_ok:
  "\<lbrakk>output_fields shown expected response kvs acc = Inr fs; fields_ok acc\<rbrakk> \<Longrightarrow> fields_ok fs"
proof (induction kvs arbitrary: acc)
  case (Cons kv kvs)
  obtain k v where kv: "kv = (k, v)" by force
  let ?key = "resolve_canonical_key k expected"
  obtain f where "normal_field shown ?key v response = Inr f"
    and rest: "output_fields shown expected response kvs (dict_set ?key (JObj (labelled k ?key f)) acc) = Inr fs"
    using Cons.prems(1) unfolding kv output_fields.simps Let_def and_then_Inr by blast
  then show ?case using Cons.IH [OF rest] Cons.prems(2) normal_field_ok field_ok_labelled fields_ok_set by blast
qed simp

lemma fields_ok_handed_off:
  assumes "fields_ok fs" shows "fields_ok (handed_off fs)"
proof (cases "''detailUrl'' \<in> fst ` set fs \<or> find (\<lambda>(k, _). lower k \<in> {''url'', ''link'', ''href''}) fs = None")
  case True
  then show ?thesis using assms by (auto simp: handed_off_def)
next
  case False
  then obtain k v where found: "find (\<lambda>(k, _). lower k \<in> {''url'', ''link'', ''href''}) fs = Some (k, v)" by auto
  then have "(k, v) \<in> set fs" by (metis find_Some_iff nth_mem)
  moreover have "handed_off fs = filter (\<lambda>(k', _). k' \<noteq> k) fs @ [(''detailUrl'', v)]"
    using False found by (simp add: handed_off_def)
  moreover have "distinct (map fst (filter p fs))" for p
    using assms by (auto simp: fields_ok_def distinct_map_filter)
  ultimately show ?thesis using assms False by (auto simp: fields_ok_def)
qed

definition stage_ok :: "fields \<Rightarrow> bool" where
  "stage_ok s \<longleftrightarrow>
     text_of (jget ''responseType'' s) \<in> {''html'', ''json''} \<and> prefixed (text_of (jget ''itemsSelector'' s)) \<and>
     fields_ok (fields_of s) \<and> pagination_ok (obj_of (jget ''pagination'' s))"

lemma obj_of_JObj [simp]: "obj_of (JObj kvs) = kvs"
  by (simp add: obj_of_def)

lemma list_stage_ok:
  assumes "list_stage shown expected mode raw = Inr s"
  shows "stage_ok s" and "mode = ''list_detail'' \<Longrightarrow> ''detailUrl'' \<in> fst ` set (fields_of s)"
proof -
  define response where "response = str_or shown (jget ''responseType'' raw) ''html''"
  obtain normal paging where response: "response \<in> {''html'', ''json''}"
    and normal: "normal_fields shown expected response (obj_of (jget ''fields'' raw)) [] = Inr normal"
    and fs: "mode = ''list_detail'' \<Longrightarrow> ''detailUrl'' \<in> fst ` set (handed_off normal)"
    and paging: "normal_pagination shown (jget ''pagination'' raw) response = Inr paging"
    and s: "s = [(''responseType'', JStr response),
                     (''itemsSelector'', JStr (normal_selector shown
                        (if truthy (jget ''itemsSelector'' raw) then jget ''itemsSelector'' raw
                         else JStr (if response = ''json'' then ''$'' else ''body'')) response)),
                     (''fields'', JObj (if mode = ''list_detail'' then handed_off normal else normal)),
                     (''pagination'', JObj (if mode = ''single'' then [(''type'', JStr ''none'')] else paging))]"
    using assms unfolding list_stage_def Let_def response_def [symmetric]
    by (cases "normal_fields shown expected response (obj_of (jget ''fields'' raw)) []";
        cases "normal_pagination shown (jget ''pagination'' raw) response") (simp_all split: if_split_asm)
  have ok: "fields_ok normal" by (rule normal_fields_ok [OF normal fields_ok_Nil])
  show "mode = ''list_detail'' \<Longrightarrow> ''detailUrl'' \<in> fst ` set (fields_of s)"
    using fs by (simp add: s fields_of_def)
  show "stage_ok s"
    using response ok fields_ok_handed_off [OF ok] normal_pagination_ok [OF paging]
    by (simp add: s stage_ok_def fields_of_def prefixed_normal_selector pagination_ok_def)
qed

subsection \<open>Discoveries\<close>

definition discovered :: "fields \<Rightarrow> bool" where
  "discovered d \<longleftrightarrow>
     jget ''mode'' d \<in> {JStr ''single'', JStr ''list_detail''} \<and> jget ''transport'' d \<in> {JStr ''http'', JStr ''browser''} \<and>
     stage_ok (list_of d) \<and> (mode_of d = ''list_detail'' \<longrightarrow> ''detailUrl'' \<in> fst ` set (fields_of (list_of d)))"

lemma normalize_discovery_parts:
  assumes "normalize_discovery_plan shown raw expected = Inr d"
  obtains stage where "str_or shown (jget ''mode'' raw) [] \<in> {''single'', ''list_detail''}"
    "list_stage shown expected (str_or shown (jget ''mode'' raw) []) (obj_of (jget ''list'' raw)) = Inr stage"
    "d = [(''mode'', JStr (str_or shown (jget ''mode'' raw) [])),
          (''transport'', JStr (if str_or shown (jget ''transport'' raw) ''browser'' \<in> {''http'', ''browser''}
                                then str_or shown (jget ''transport'' raw) ''browser'' else ''browser'')),
          (''list'', JObj stage)]"
proof -
  obtain stage where "list_stage shown expected (str_or shown (jget ''mode'' raw) []) (obj_of (jget ''list'' raw)) = Inr stage"
    using assms unfolding normalize_discovery_plan_def Let_def
    by (cases "list_stage shown expected (str_or shown (jget ''mode'' raw) []) (obj_of (jget ''list'' raw))")
       (simp_all split: if_split_asm)
  with assms show thesis
    unfolding normalize_discovery_plan_def Let_def by (intro that [of stage]) (auto split: if_split_asm)
qed

lemma discovered_normal:
  assumes "normalize_discovery_plan shown raw expected = Inr d" shows "discovered d"
  using assms
proof (rule normalize_discovery_parts)
  fix stage
  let ?mode = "str_or shown (jget ''mode'' raw) []"
  assume mode: "?mode \<in> {''single'', ''list_detail''}"
    and stage: "list_stage shown expected ?mode (obj_of (jget ''list'' raw)) = Inr stage"
    and d: "d = [(''mode'', JStr ?mode),
          (''transport'', JStr (if str_or shown (jget ''transport'' raw) ''browser'' \<in> {''http'', ''browser''}
                                then str_or shown (jget ''transport'' raw) ''browser'' else ''browser'')),
          (''list'', JObj stage)]"
  show ?thesis
    using mode list_stage_ok [OF stage]
    by (simp add: d discovered_def list_of_def mode_of_def) 
qed

lemma str_or_JStr: "s \<noteq> [] \<Longrightarrow> str_or shown (JStr s) d = s"
  by (simp add: str_or_def py_str_def truthy_def)

text \<open>Normalizing once more keeps the mode and the transport.\<close>

lemma normalize_again_pinned:
  assumes "normalize_discovery_plan shown raw expected = Inr n"
    and "jget ''mode'' raw = JStr m" "m \<in> {''single'', ''list_detail''}" "jget ''transport'' raw = JStr t" "t \<in> {''http'', ''browser''}"
  shows "jget ''mode'' n = JStr m" "jget ''transport'' n = JStr t"
proof -
  have "str_or shown (JStr m) [] = m" "str_or shown (JStr t) ''browser'' = t"
    using assms(3,5) by (auto simp: str_or_JStr)
  then show "jget ''mode'' n = JStr m" "jget ''transport'' n = JStr t"
    using assms(1,5) unfolding normalize_discovery_plan_def Let_def assms(2,4)
    by (auto simp: and_then_Inr split: if_split_asm)
qed

lemma list_pagination_ok:
  assumes "list_pagination shown raw discovery stage = Inr s" "stage_ok stage" "stage_ok (list_of discovery)"
  shows "stage_ok s" "fields_of s = fields_of stage" "jget ''responseType'' s = jget ''responseType'' stage"
    "jget ''itemsSelector'' s = jget ''itemsSelector'' stage"
proof -
  have "s = stage \<or> (\<exists>p. pagination_ok (obj_of p) \<and> s = dict_set ''pagination'' p stage)"
  proof (cases "map_of (obj_of (jget ''list'' raw)) ''pagination''")
    case None
    then show ?thesis using assms(1) by (simp add: list_pagination_def)
  next
    case (Some v)
    show ?thesis
    proof (cases "normal_pagination shown v (text_of (jget ''responseType'' stage))")
      case (Inr p)
      then have "s = dict_set ''pagination'' (JObj p) stage" using assms(1) Some by (simp add: list_pagination_def)
      moreover have "pagination_ok (obj_of (JObj p))" using normal_pagination_ok [OF Inr] by simp
      ultimately show ?thesis by blast
    next
      case (Inl e)
      then have "s = dict_set ''pagination'' (jget ''pagination'' (list_of discovery)) stage"
        using assms(1) Some by (simp add: list_pagination_def list_of_def split: if_split_asm)
      then show ?thesis using assms(3) unfolding stage_ok_def by blast
    qed
  qed
  then show "stage_ok s" "fields_of s = fields_of stage" "jget ''responseType'' s = jget ''responseType'' stage"
    "jget ''itemsSelector'' s = jget ''itemsSelector'' stage"
    using assms(2) by (auto simp: stage_ok_def fields_of_def)
qed

subsection \<open>Whole plans\<close>

definition binding_ok :: "fields \<Rightarrow> fields \<Rightarrow> json \<Rightarrow> bool" where
  "binding_ok fs details b \<longleftrightarrow>
     (\<exists>k. (b = JStr (''list.'' @ k) \<and> k \<in> fst ` set fs) \<or> (b = JStr (''detail.'' @ k) \<and> k \<in> fst ` set details))"

lemma first_key_SomeD: "first_key p names fs = Some k \<Longrightarrow> k \<in> fst ` set fs"
proof -
  assume a: "first_key p names fs = Some k"
  define hits where "hits = concat (map (\<lambda>n. filter (\<lambda>(k, _). p (lower n) (lower k)) fs) names)"
  obtain v rest where "hits = (k, v) # rest" using a unfolding first_key_def hits_def [symmetric] by (auto split: list.splits)
  then have "(k, v) \<in> set hits" by simp
  then show ?thesis by (force simp: hits_def)
qed

lemma bound_field_ok:
  assumes "bound_field shown two_stages fs details mappings raw role stage preferred = Some b" "stage \<in> {''list'', ''detail''}"
  shows "binding_ok fs details (JStr b)"
proof -
  define own where "own = (\<lambda>s. if s = ''list'' then fs else if s = ''detail'' then details else [])"
  have ok: "binding_ok fs details (JStr (s @ ''.'' @ k))" if "k \<in> fst ` set (own s)" for s k
    using that by (auto simp: own_def binding_ok_def split: if_split_asm)
  define given where "given = text_of (jget role (obj_of (jget ''bindings'' raw)))"
  define asked where "asked = takeWhile (\<lambda>c. c \<noteq> CHR ''.'') given"
  define name where "name = (if asked = (if two_stages then ''detail'' else ''list'') then mapped_name mappings (after_dot given)
                  else after_dot given)"
  from assms(1) consider "name \<in> fst ` set (own asked)" "b = asked @ ''.'' @ name"
    | p k where "first_key p preferred (own stage) = Some k" "b = stage @ ''.'' @ k"
    unfolding bound_field_def Let_def given_def [symmetric] asked_def [symmetric] name_def [symmetric] own_def [symmetric]
    by (force split: if_split_asm option.splits)
  then show ?thesis
  proof cases
    case 1
    then show ?thesis using ok by simp
  next
    case (2 p k)
    then show ?thesis using ok [OF first_key_SomeD] by blast
  qed
qed

lemma plan_bindings_ok:
  "(role, b) \<in> set (plan_bindings shown two_stages fs details mappings raw) \<Longrightarrow> binding_ok fs details b"
proof -
  assume "(role, b) \<in> set (plan_bindings shown two_stages fs details mappings raw)"
  then obtain r stage preferred c where role: "(r, stage, preferred) \<in> set (binding_roles two_stages)"
    and c: "bound_field shown two_stages fs details mappings raw r stage preferred = Some c" "b = JStr c"
    unfolding plan_bindings_def by (auto split: option.splits) (metis)
  have "stage \<in> {''list'', ''detail''}" using role by (auto simp: binding_roles_def Let_def split: if_split_asm)
  then show ?thesis using bound_field_ok [OF c(1)] c(2) by simp
qed

lemma resolve_field_name_in: "resolve_field_name shown available mappings v = Some k \<Longrightarrow> k \<in> available"
  by (auto simp: resolve_field_name_def Let_def split: if_split_asm)

lemma resolved_names_in: "set (resolved_names shown available mappings v) \<subseteq> available"
  by (auto simp: resolved_names_def List.map_filter_def resolve_field_name_in split: json.split)

lemma identity_fields_in: "set (identity_fields shown raw two_stages available mappings outs) \<subseteq> available"
  using resolved_names_in [of shown available mappings "jget ''identityFields'' raw"] by (auto simp: identity_fields_def Let_def)

lemma fingerprint_fields_in:
  "set (fingerprint_fields shown raw available mappings outs) \<subseteq> available \<union> fst ` set outs"
  "fst ` set outs \<subseteq> set (fingerprint_fields shown raw available mappings outs)"
  "distinct (fingerprint_fields shown raw available mappings outs)"
  using resolved_names_in [of shown available mappings "jget ''fingerprintFields'' raw"]
  by (auto simp: fingerprint_fields_def foldl_add_once)

lemma keys_projected: "''detailUrl'' \<in> fst ` set fs \<Longrightarrow> ''detailUrl'' \<in> fst ` set (projected expected fs outs)"
  using keys_dict_set [of "resolve_canonical_key ''detailUrl'' expected" "jget ''detailUrl'' fs" fs]
  by (auto simp: projected_def Let_def simp flip: set_map split: if_split_asm)

lemma projected_fields_ok:
  assumes "fields_ok fs" "''detailUrl'' \<in> fst ` set fs" shows "fields_ok (projected expected fs outs)"
proof -
  obtain v where "map_of fs ''detailUrl'' = Some v" using assms(2) by (metis map_of_eq_None_iff not_None_eq)
  then have "jget ''detailUrl'' fs = v" "(''detailUrl'', v) \<in> set fs" by (auto simp: jget_def dest: map_of_SomeD)
  then obtain f where "jget ''detailUrl'' fs = JObj f" "field_ok f" using assms(1) unfolding fields_ok_def by blast
  then show ?thesis using fields_ok_set [OF assms(1)] assms(1) by (simp add: projected_def Let_def)
qed

definition plan_ok :: "fields \<Rightarrow> bool" where
  "plan_ok plan \<longleftrightarrow>
     (let fs = fields_of (list_of plan); details = fields_of (part_of ''detail'' plan); two_stages = (mode_of plan = ''list_detail'');
          identity = texts_of (jget ''identityFields'' plan); fingerprint = texts_of (jget ''fingerprintFields'' plan)
      in stage_ok (list_of plan) \<and> fields_ok details \<and> identity \<noteq> [] \<and> fingerprint \<noteq> [] \<and> distinct fingerprint \<and>
         fst ` set (if two_stages then details else fs) \<subseteq> set fingerprint \<and> (two_stages \<longrightarrow> ''detailUrl'' \<in> fst ` set fs))"

text \<open>Identity, fingerprint and bindings name fields the plan has.\<close>

definition plan_names_ok :: "fields \<Rightarrow> bool" where
  "plan_names_ok plan \<longleftrightarrow>
     (let fs = fields_of (list_of plan); details = fields_of (part_of ''detail'' plan)
      in set (texts_of (jget ''identityFields'' plan)) \<union> set (texts_of (jget ''fingerprintFields'' plan)) \<subseteq>
           fst ` set fs \<union> fst ` set details \<and>
         (\<forall>(role, b) \<in> set (obj_of (jget ''bindings'' plan)). binding_ok fs details b))"

lemma fields_of_set [simp]: "fields_of (dict_set ''fields'' (JObj fs) stage) = fs"
  by (simp add: fields_of_def)

lemma texts_read_back [simp]: "texts_of (texts ss) = ss"
  by (induction ss) (simp_all add: texts_def texts_of_def)

lemma assembled_plan_ok:
  assumes plan: "assembled_plan shown raw n expected stage out_raw response outs = Inr plan"
    and stage: "stage_ok stage" and outs: "fields_ok outs"
    and handoff: "mode_of n = ''list_detail'' \<Longrightarrow> ''detailUrl'' \<in> fst ` set (fields_of stage)"
  shows "plan_ok plan" "jget ''mode'' plan = jget ''mode'' n" "jget ''transport'' plan = jget ''transport'' n"
    "list_of plan = dict_set ''fields'' (JObj (if mode_of n = ''list_detail'' then projected expected (fields_of stage) outs else outs)) stage"
    "fields_of (part_of ''detail'' plan) = (if mode_of n = ''list_detail'' then outs else [])"
    "mode_of n = ''list_detail'' \<or> fst ` set (fields_of stage) = fst ` set outs \<Longrightarrow> plan_names_ok plan"
proof -
  define two where "two = (mode_of n = ''list_detail'')"
  define fs where "fs = (if two then projected expected (fields_of stage) outs else fields_of stage)"
  define available where "available = fst ` set fs \<union> fst ` set outs"
  define mappings where "mappings = field_mappings expected (fields_of out_raw)"
  define identity where "identity = identity_fields shown raw two available mappings outs"
  define fingerprint where "fingerprint = fingerprint_fields shown raw available mappings outs"
  define bindings where "bindings = plan_bindings shown two fs (if two then outs else []) mappings raw"
  define why where "why = JStr (take 1000 (str_or shown (jget ''rationale'' raw) default_rationale))"
  note folds = two_def [symmetric] fs_def [symmetric] available_def [symmetric] mappings_def [symmetric]
    identity_def [symmetric] fingerprint_def [symmetric] bindings_def [symmetric] why_def [symmetric]
  have some: "identity \<noteq> []" "fingerprint \<noteq> []"
    and eq: "plan = [(''schemaVersion'', JStr ''extrio.rule-plan.v1''), (''mode'', jget ''mode'' n), (''transport'', jget ''transport'' n),
        (''list'', JObj (dict_set ''fields'' (JObj (if two then fs else outs)) stage)), (''bindings'', JObj bindings),
        (''identityFields'', texts identity), (''fingerprintFields'', texts fingerprint), (''rationale'', why)] @
        (if two then [(''detail'', JObj (detail_stage response out_raw outs))] else [])"
    using plan unfolding assembled_plan_def Let_def folds by (simp_all split: if_split_asm)
  have fields: "fields_ok (if two then fs else outs)" "two \<Longrightarrow> ''detailUrl'' \<in> fst ` set fs"
    using handoff projected_fields_ok [of "fields_of stage"] keys_projected [of "fields_of stage"] stage outs
    by (auto simp: two_def fs_def stage_ok_def)
  have stage': "stage_ok (dict_set ''fields'' (JObj (if two then fs else outs)) stage)"
    using fields(1) stage by (simp add: stage_ok_def fields_of_def)
  have two': "mode_of plan = ''list_detail'' \<longleftrightarrow> two" by (simp add: mode_of_def eq two_def)
  have list: "list_of plan = dict_set ''fields'' (JObj (if two then fs else outs)) stage" by (simp add: eq list_of_def)
  have detail: "fields_of (part_of ''detail'' plan) = (if two then outs else [])"
    by (simp add: eq part_of_def fields_of_def detail_stage_def obj_of_def)
  have listed: "fields_of (list_of plan) = (if two then fs else outs)" by (simp add: list fields_of_def)
  have named: "jget ''identityFields'' plan = texts identity" "jget ''fingerprintFields'' plan = texts fingerprint"
    "jget ''bindings'' plan = JObj bindings" by (simp_all add: eq)
  have ids: "set identity \<subseteq> available" by (simp add: identity_def identity_fields_in)
  have prints: "set fingerprint \<subseteq> available" "fst ` set outs \<subseteq> set fingerprint" "distinct fingerprint"
    using fingerprint_fields_in(1) [of shown raw available mappings outs] fingerprint_fields_in(2,3)
    by (auto simp: fingerprint_def available_def)
  have bound: "\<forall>(role, b) \<in> set bindings. binding_ok fs (if two then outs else []) b"
    using plan_bindings_ok unfolding bindings_def by blast
  show "plan_ok plan"
    unfolding plan_ok_def Let_def listed detail named texts_read_back two' list obj_of_JObj
    using stage' outs fields_ok_Nil some prints(2,3) fields(2)
    by (cases two) simp_all
  show "plan_names_ok plan" if "mode_of n = ''list_detail'' \<or> fst ` set (fields_of stage) = fst ` set outs"
  proof -
    have same: "\<not> two \<Longrightarrow> fst ` set fs = fst ` set outs" using that by (simp add: two_def fs_def)
    then have "binding_ok (if two then fs else outs) (if two then outs else []) b"
      if "binding_ok fs (if two then outs else []) b" for b using that unfolding binding_ok_def by (cases two) simp_all
    then have "\<forall>(role, b) \<in> set bindings. binding_ok (if two then fs else outs) (if two then outs else []) b"
      using bound by blast
    moreover have "set identity \<union> set fingerprint \<subseteq> fst ` set (if two then fs else outs) \<union> fst ` set (if two then outs else [])"
      using ids prints(1) same by (cases two) (auto simp: available_def)
    ultimately show ?thesis
      unfolding plan_names_ok_def Let_def listed detail named texts_read_back obj_of_JObj two_def [symmetric] by blast
  qed
  show "jget ''mode'' plan = jget ''mode'' n" "jget ''transport'' plan = jget ''transport'' n" by (simp_all add: eq)
  show "list_of plan = dict_set ''fields'' (JObj (if mode_of n = ''list_detail'' then projected expected (fields_of stage) outs else outs)) stage"
    by (simp add: list two_def fs_def)
  show "fields_of (part_of ''detail'' plan) = (if mode_of n = ''list_detail'' then outs else [])" by (simp add: detail two_def)
qed

lemma normalize_rule_plan_parts:
  assumes plan: "normalize_rule_plan shown raw discovery expected = Inr plan" and "discovered discovery"
  obtains n stage out_raw response outs where
    "if mode_of discovery = ''list_detail'' then fixed_discovery shown discovery = Inr n
     else (\<exists>source. normalize_discovery_plan shown source expected = Inr n)"
    "discovered n" "jget ''mode'' n = jget ''mode'' discovery" "jget ''transport'' n = jget ''transport'' discovery"
    "list_pagination shown raw discovery (list_of n) = Inr stage"
    "output_fields shown expected response (fields_of out_raw) [] = Inr outs"
    "out_raw = (if mode_of n = ''list_detail'' then obj_of (jget ''detail'' raw) else stage)"
    "response = str_or shown (jget ''responseType'' out_raw) ''html''"
    "assembled_plan shown raw n expected stage out_raw response outs = Inr plan"
proof -
  define merged where "merged = dict_set ''list'' (jget ''list'' discovery) (dict_set ''transport'' (jget ''transport'' discovery)
                     (dict_set ''mode'' (jget ''mode'' discovery) raw))"
  obtain m t where m: "jget ''mode'' discovery = JStr m" "m \<in> {''single'', ''list_detail''}"
    and t: "jget ''transport'' discovery = JStr t" "t \<in> {''http'', ''browser''}"
    using assms(2) by (auto simp: discovered_def)
  obtain n where n: "(if mode_of discovery = ''list_detail'' then fixed_discovery shown discovery
                      else normalize_discovery_plan shown merged expected) = Inr n"
    and rest: "and_then (list_pagination shown raw discovery (list_of n)) (\<lambda>stage.
           let out_raw = (if mode_of n = ''list_detail'' then obj_of (jget ''detail'' raw) else stage);
               response = str_or shown (jget ''responseType'' out_raw) ''html''
           in if fields_of out_raw = [] then Inl compile_failed
              else and_then (output_fields shown expected response (fields_of out_raw) []) (\<lambda>outs.
                assembled_plan shown raw n expected stage out_raw response outs)) = Inr plan"
    using plan unfolding normalize_rule_plan_def merged_def [symmetric] Let_def and_then_Inr by blast
  obtain source e where again: "normalize_discovery_plan shown source e = Inr n" "jget ''mode'' source = JStr m" "jget ''transport'' source = JStr t"
    using n m(1) t(1)
    by (cases "mode_of discovery = ''list_detail''") (auto simp: fixed_discovery_def merged_def split: sum.splits)
  have pinned: "jget ''mode'' n = jget ''mode'' discovery" "jget ''transport'' n = jget ''transport'' discovery"
    using normalize_again_pinned [OF again(1,2) m(2) again(3) t(2)] m t by simp_all
  obtain stage where stage: "list_pagination shown raw discovery (list_of n) = Inr stage"
    and rest2: "(let out_raw = (if mode_of n = ''list_detail'' then obj_of (jget ''detail'' raw) else stage);
               response = str_or shown (jget ''responseType'' out_raw) ''html''
           in if fields_of out_raw = [] then Inl compile_failed
              else and_then (output_fields shown expected response (fields_of out_raw) []) (\<lambda>outs.
                assembled_plan shown raw n expected stage out_raw response outs)) = Inr plan"
    using rest unfolding and_then_Inr by blast
  define out_raw where "out_raw = (if mode_of n = ''list_detail'' then obj_of (jget ''detail'' raw) else stage)"
  define response where "response = str_or shown (jget ''responseType'' out_raw) ''html''"
  obtain outs where "output_fields shown expected response (fields_of out_raw) [] = Inr outs"
    and "assembled_plan shown raw n expected stage out_raw response outs = Inr plan"
    using rest2 unfolding Let_def out_raw_def [symmetric] response_def [symmetric]
    by (auto simp: and_then_Inr split: if_split_asm)
  moreover have "if mode_of discovery = ''list_detail'' then fixed_discovery shown discovery = Inr n
     else (\<exists>source. normalize_discovery_plan shown source expected = Inr n)"
    using n by (auto split: if_split_asm)
  ultimately show thesis
    using discovered_normal [OF again(1)] pinned stage by (intro that [OF _ _ _ _ _ _ out_raw_def response_def]) simp_all
qed

subsection \<open>Names that stand for themselves\<close>

text \<open>No expected field is taken for another one.\<close>

definition names_stable :: "expected \<Rightarrow> bool" where
  "names_stable expected \<longleftrightarrow> list_all (\<lambda>(k, _). resolve_canonical_key k expected = k) expected"

lemma strip_strip [simp]: "strip (strip s) = strip s"
proof (cases "strip s = []")
  case False
  note ends = strip_chars_ends [of is_space s, folded strip_def, OF False]
  have "dropWhile is_space (strip s) = strip s" "dropWhile is_space (rev (strip s)) = rev (strip s)"
    using ends False by (simp_all add: dropWhile_eq_self_iff hd_rev)
  then show ?thesis by (simp add: strip_def [of "strip s"] strip_chars_def [of is_space "strip s"])
qed (simp add: strip_def [of "[]"] strip_chars_def)

lemma canonical_names_settled: "list_all (\<lambda>(k, _). resolve_canonical_key k [] = k) canonical_field_aliases"
  by code_simp

lemma resolve_settled:
  assumes "names_stable expected"
  shows "resolve_canonical_key (resolve_canonical_key key expected) expected = resolve_canonical_key key expected"
proof (cases "expected = []")
  case False
  show ?thesis
  proof (cases "find (names_field (strip key)) expected")
    case None
    with False show ?thesis by (simp add: resolve_canonical_key_def)
  next
    case (Some e)
    then have "e \<in> set expected" by (rule find_SomeD [THEN conjunct1, rotated]) 
    with assms have "resolve_canonical_key (fst e) expected = fst e" by (auto simp: names_stable_def list_all_iff)
    moreover have "resolve_canonical_key key expected = fst e" using False Some by (simp add: resolve_canonical_key_def split: prod.split)
    ultimately show ?thesis by simp
  qed
next
  case True
  have unf: "resolve_canonical_key q [] =
      (if squashed (strip q) \<in> {''amount'', ''buyer'', ''publishedat'', ''listtitle'', ''listpublishedat''} then strip q
       else (case find (\<lambda>(_, names). squashed (strip q) \<in> set names) canonical_field_aliases of
               None \<Rightarrow> strip q | Some (k, _) \<Rightarrow> k))" for q
    unfolding resolve_canonical_key_def Let_def by (rule if_not_P) simp
  let ?fixed = "squashed (strip key) \<in> {''amount'', ''buyer'', ''publishedat'', ''listtitle'', ''listpublishedat''}"
  let ?named = "\<lambda>(_, names). squashed (strip key) \<in> set names"
  consider "resolve_canonical_key key [] = strip key" "resolve_canonical_key (strip key) [] = strip key"
    | k names where "find ?named canonical_field_aliases = Some (k, names)" "resolve_canonical_key key [] = k"
  proof (cases ?fixed)
    case True
    show ?thesis by (rule that(1)) (simp_all only: unf strip_strip if_P [OF True])
  next
    case False
    show ?thesis
    proof (cases "find ?named canonical_field_aliases")
      case None
      show ?thesis by (rule that(1)) (simp_all only: unf strip_strip if_not_P [OF False] None option.case)
    next
      case (Some e)
      obtain k names where e: "e = (k, names)" by force
      show ?thesis by (rule that(2) [of k names]) (simp_all only: unf if_not_P [OF False] Some e option.case prod.case)
    qed
  qed
  then show ?thesis
  proof cases
    case (2 k names)
    have "(k, names) \<in> set canonical_field_aliases" using find_SomeD [OF 2(1)] by blast
    then have "resolve_canonical_key k [] = k" using canonical_names_settled by (auto simp: list_all_iff)
    then show ?thesis by (simp only: True 2(2))
  qed (simp only: True)
qed

lemma keys_dict_set_set: "fst ` set (dict_set k v kvs) = insert k (fst ` set kvs)"
  using keys_dict_set [of k v kvs] by (auto simp flip: set_map split: if_split_asm)

lemma normal_fields_keys:
  "normal_fields shown expected response kvs acc = Inr fs \<Longrightarrow>
     fst ` set fs = fst ` set acc \<union> (\<lambda>(k, _). resolve_canonical_key k expected) ` set kvs"
proof (induction kvs arbitrary: acc)
  case (Cons kv kvs)
  obtain k v where kv: "kv = (k, v)" by force
  let ?key = "resolve_canonical_key k expected"
  obtain f where "normal_fields shown expected response kvs (dict_set ?key (JObj f) acc) = Inr fs"
    using Cons.prems unfolding kv normal_fields.simps Let_def and_then_Inr by blast
  from Cons.IH [OF this] show ?case by (simp add: kv keys_dict_set_set)
qed simp

lemma output_fields_keys:
  "output_fields shown expected response kvs acc = Inr fs \<Longrightarrow>
     fst ` set fs = fst ` set acc \<union> (\<lambda>(k, _). resolve_canonical_key k expected) ` set kvs"
proof (induction kvs arbitrary: acc)
  case (Cons kv kvs)
  obtain k v where kv: "kv = (k, v)" by force
  let ?key = "resolve_canonical_key k expected"
  obtain f where "output_fields shown expected response kvs (dict_set ?key (JObj (labelled k ?key f)) acc) = Inr fs"
    using Cons.prems unfolding kv output_fields.simps Let_def and_then_Inr by blast
  from Cons.IH [OF this] show ?case by (simp add: kv keys_dict_set_set)
qed simp

lemma list_stage_listing:
  assumes "list_stage shown expected mode raw = Inr s" and "mode \<noteq> ''list_detail''"
  shows "normal_fields shown expected (str_or shown (jget ''responseType'' raw) ''html'') (obj_of (jget ''fields'' raw)) [] = Inr (fields_of s)"
proof -
  define response where "response = str_or shown (jget ''responseType'' raw) ''html''"
  show ?thesis
    using assms unfolding list_stage_def Let_def response_def [symmetric]
    by (cases "normal_fields shown expected response (obj_of (jget ''fields'' raw)) []";
        cases "normal_pagination shown (jget ''pagination'' raw) response") (auto simp: fields_of_def split: if_split_asm)
qed

lemma single_listing_settled:
  assumes "normalize_discovery_plan shown source expected = Inr n" and "mode_of n \<noteq> ''list_detail''"
    and "names_stable expected" and "k \<in> fst ` set (fields_of (list_of n))"
  shows "resolve_canonical_key k expected = k"
  using assms(1)
proof (rule normalize_discovery_parts)
  fix stage
  let ?mode = "str_or shown (jget ''mode'' source) []"
  let ?raw = "obj_of (jget ''list'' source)"
  let ?response = "str_or shown (jget ''responseType'' ?raw) ''html''"
  assume stage: "list_stage shown expected ?mode ?raw = Inr stage"
    and n: "n = [(''mode'', JStr ?mode),
          (''transport'', JStr (if str_or shown (jget ''transport'' source) ''browser'' \<in> {''http'', ''browser''}
                                then str_or shown (jget ''transport'' source) ''browser'' else ''browser'')),
          (''list'', JObj stage)]"
  have mode: "?mode \<noteq> ''list_detail''" using assms(2) by (simp add: n mode_of_def)
  have "fst ` set (fields_of stage) = (\<lambda>(k, _). resolve_canonical_key k expected) ` set (obj_of (jget ''fields'' ?raw))"
    using normal_fields_keys [OF list_stage_listing [OF stage mode]] by simp
  moreover have "fields_of (list_of n) = fields_of stage" by (simp add: n list_of_def)
  ultimately obtain k' where "k = resolve_canonical_key k' expected" using assms(4) by auto
  then show ?thesis using resolve_settled [OF assms(3)] by simp
qed

subsection \<open>The guarantees\<close>

text \<open>
  C38. Whatever the model answers in the two passes, an accepted plan stays inside the constrained
  dialect: the mode and transport are those of the validated listing, every selector carries its
  language prefix, every field has a known type, the listed transforms (a regular expression of at
  most 512 characters and 8 groups) and no error policy that drops a required value, paging makes
  1 to 1000 pages and never leaves the host, the fingerprint covers every output and a two-stage
  plan hands a \<open>detailUrl\<close> over. The identity, the fingerprint and the bindings name existing
  fields in every two-stage plan; in a plan of a single stage they do when no expected field is
  taken for another one (\<open>single_plan_binding_dangles\<close> shows the need).
\<close>

theorem normalized_plan_constrained:
  assumes "normalize_discovery_plan shown answer es = Inr discovery"
    and "normalize_rule_plan shown answer' discovery expected = Inr plan"
  shows "plan_ok plan \<and> jget ''mode'' plan = jget ''mode'' discovery \<and> jget ''transport'' plan = jget ''transport'' discovery \<and>
    (mode_of plan = ''list_detail'' \<or> names_stable expected \<longrightarrow> plan_names_ok plan)"
proof (rule normalize_rule_plan_parts [OF assms(2) discovered_normal [OF assms(1)]])
  fix n stage out_raw response outs
  have d: "discovered discovery" using discovered_normal [OF assms(1)] .
  assume source: "if mode_of discovery = ''list_detail'' then fixed_discovery shown discovery = Inr n
      else (\<exists>source. normalize_discovery_plan shown source expected = Inr n)"
    and n: "discovered n"
    and pinned: "jget ''mode'' n = jget ''mode'' discovery" "jget ''transport'' n = jget ''transport'' discovery"
    and stage: "list_pagination shown answer' discovery (list_of n) = Inr stage"
    and outs: "output_fields shown expected response (fields_of out_raw) [] = Inr outs"
    and raw: "out_raw = (if mode_of n = ''list_detail'' then obj_of (jget ''detail'' answer') else stage)"
    and plan: "assembled_plan shown answer' n expected stage out_raw response outs = Inr plan"
  note s = list_pagination_ok [OF stage]
  have ok: "stage_ok (list_of n)" "stage_ok (list_of discovery)" using n d by (simp_all add: discovered_def)
  have handoff: "mode_of n = ''list_detail'' \<Longrightarrow> ''detailUrl'' \<in> fst ` set (fields_of stage)"
    using n s(2) [OF ok] by (simp add: discovered_def)
  note p = assembled_plan_ok [OF plan s(1) [OF ok] output_fields_ok [OF outs fields_ok_Nil] handoff]
  have mode: "mode_of plan = mode_of n" "mode_of discovery = mode_of n" using p(2) pinned(1) by (simp_all add: mode_of_def)
  have "plan_names_ok plan" if names: "mode_of plan = ''list_detail'' \<or> names_stable expected"
  proof (rule p(6), assumption, cases "mode_of n = ''list_detail''")
    case False
    with names mode have stable: "names_stable expected" by simp
    obtain answer'' where "normalize_discovery_plan shown answer'' expected = Inr n" using source mode False by auto
    note settled = single_listing_settled [OF this False stable]
    have "fst ` set outs = (\<lambda>(k, _). resolve_canonical_key k expected) ` set (fields_of stage)"
      using output_fields_keys [OF outs] raw False by simp
    also have "\<dots> = fst ` set (fields_of stage)"
      using settled s(2) [OF ok] by (intro image_cong refl) force
    finally show "mode_of n = ''list_detail'' \<or> fst ` set (fields_of stage) = fst ` set outs" by simp
  qed simp
  then show ?thesis using p(1-3) pinned by simp
qed

text \<open>
  C39. The second answer of the model cannot drift the listing that was already executed: a
  two-stage plan has the response type, the item selector and every field rule of the validated
  listing, in their order and the \<open>detailUrl\<close> handoff among them, whatever that answer says. At
  most one field is added at the end: the output field the URL is projected into, when it is no
  field of the listing, with the proven rule of \<open>detailUrl\<close>.
\<close>

theorem answer_cannot_drift_listing:
  assumes "normalize_discovery_plan shown answer es = Inr discovery" "mode_of discovery = ''list_detail''"
    and "fixed_discovery shown discovery = Inr proven"
    and "normalize_rule_plan shown answer' discovery expected = Inr plan"
  shows "jget ''responseType'' (list_of plan) = jget ''responseType'' (list_of proven) \<and>
    jget ''itemsSelector'' (list_of plan) = jget ''itemsSelector'' (list_of proven) \<and>
    (fields_of (list_of plan) = fields_of (list_of proven) \<or>
     (\<exists>url. url = resolve_canonical_key ''detailUrl'' expected \<and> url \<notin> fst ` set (fields_of (list_of proven)) \<and>
        fields_of (list_of plan) = fields_of (list_of proven) @ [(url, jget ''detailUrl'' (fields_of (list_of proven)))])) \<and>
    jget ''detailUrl'' (fields_of (list_of plan)) = jget ''detailUrl'' (fields_of (list_of proven))"
proof (rule normalize_rule_plan_parts [OF assms(4) discovered_normal [OF assms(1)]])
  fix n stage out_raw response outs
  assume n: "if mode_of discovery = ''list_detail'' then fixed_discovery shown discovery = Inr n
      else (\<exists>source. normalize_discovery_plan shown source expected = Inr n)" "discovered n"
    and pinned: "jget ''mode'' n = jget ''mode'' discovery"
    and stage: "list_pagination shown answer' discovery (list_of n) = Inr stage"
    and outs: "output_fields shown expected response (fields_of out_raw) [] = Inr outs"
    and plan: "assembled_plan shown answer' n expected stage out_raw response outs = Inr plan"
  have proven: "n = proven" using n(1) assms(2,3) by simp
  have ok: "stage_ok (list_of n)" "stage_ok (list_of discovery)"
    using n(2) discovered_normal [OF assms(1)] by (simp_all add: discovered_def)
  note s = list_pagination_ok [OF stage ok]
  have two: "mode_of n = ''list_detail''" using assms(2) pinned by (simp add: mode_of_def)
  have handoff: "mode_of n = ''list_detail'' \<Longrightarrow> ''detailUrl'' \<in> fst ` set (fields_of stage)"
    using n(2) s(2) by (simp add: discovered_def)
  have list: "list_of plan = dict_set ''fields'' (JObj (projected expected (fields_of stage) outs)) stage"
    using assembled_plan_ok(4) [OF plan s(1) output_fields_ok [OF outs fields_ok_Nil] handoff] two by simp
  let ?fs = "fields_of (list_of proven)" and ?url = "resolve_canonical_key ''detailUrl'' expected"
  have "projected expected ?fs outs = ?fs \<or> (?url \<noteq> ''detailUrl'' \<and> ?url \<notin> fst ` set ?fs \<and>
      projected expected ?fs outs = ?fs @ [(?url, jget ''detailUrl'' ?fs)])"
    by (auto simp: projected_def Let_def dict_set_fresh)
  moreover have "jget ''detailUrl'' (projected expected ?fs outs) = jget ''detailUrl'' ?fs"
    by (auto simp: projected_def Let_def)
  ultimately show ?thesis
    unfolding list by (auto simp: s proven)
qed

subsection \<open>Repair\<close>

text \<open>What a repair must not touch of a field.\<close>

definition semantics_of :: "fields \<Rightarrow> json list" where
  "semantics_of f = map (\<lambda>k. jget k f) [''valueType'', ''required'', ''onError'', ''multipleMatchPolicy'']"

lemma semantics_of_labelled: "semantics_of (labelled key canonical f) = semantics_of f"
  by (simp add: semantics_of_def labelled_def)

lemma merged_field_semantics:
  "\<exists>f. merged_field shown answer (k, old) = (k, JObj f) \<and> semantics_of f = semantics_of (obj_of old)"
  by (simp add: merged_field_def semantics_of_def Let_def)

lemma str_or_kept: "\<lbrakk>v = JStr s; s \<noteq> []\<rbrakk> \<Longrightarrow> str_or shown v d = s"
  by (simp add: str_or_JStr)

lemma value_types_settled:
  assumes "t \<in> set value_types" shows "t \<noteq> []" "aliased type_aliases t = t"
proof -
  have "list_all (\<lambda>t. t \<noteq> [] \<and> aliased type_aliases t = t) value_types" by code_simp
  then show "t \<noteq> []" "aliased type_aliases t = t" using assms by (auto simp: list_all_iff)
qed

text \<open>
  Semantics that say something: a known type, a boolean, a listed policy for a missing value that
  does not drop a required one, and a listed policy for several matches. What is compiled and
  constrained by a field version has them (\<open>constrained_semantics\<close>; the match policy is that
  of the plan).
\<close>

definition semantics_ok :: "fields \<Rightarrow> bool" where
  "semantics_ok f \<longleftrightarrow>
     text_of (jget ''valueType'' f) \<in> set value_types \<and> jget ''required'' f \<in> {JBool True, JBool False} \<and>
     jget ''onError'' f \<in> {JStr ''fail_run'', JStr ''reject_item'', JStr ''null''} \<and>
     (jget ''onError'' f = JStr ''null'' \<longrightarrow> jget ''required'' f = JBool False) \<and>
     jget ''multipleMatchPolicy'' f \<in> {JStr ''error'', JStr ''first''}"

lemma field_ok_semantics: "field_ok f \<Longrightarrow> semantics_ok f"
  by (simp add: field_ok_def semantics_ok_def)

lemma constrained_semantics:
  assumes "fd_type f \<in> set field_types"
  shows "fr_value_type (constrain_rule f r) \<in> set value_types"
    and "fr_on_error (constrain_rule f r) = (if fr_required (constrain_rule f r) then ''reject_item'' else ''null'')"
proof -
  have "list_all (\<lambda>t. rule_value_type t \<in> set value_types) field_types"
    by (simp add: field_types_def rule_value_type_def value_types_def)
  then have "rule_value_type (fd_type f) \<in> set value_types" using assms by (auto simp: list_all_iff)
  moreover have "fr_value_type (constrain_rule f r) = rule_value_type (fd_type f)" by (simp add: constrain_rule_def Let_def)
  ultimately show "fr_value_type (constrain_rule f r) \<in> set value_types" by simp
qed (simp add: constrain_rule_def Let_def)

text \<open>Normalizing a field with such semantics again keeps them.\<close>

lemma normal_field_semantics:
  assumes "normal_field shown key (JObj raw) response = Inr f" "semantics_of raw = semantics_of old" "semantics_ok old"
  shows "semantics_of f = semantics_of old"
proof -
  have same: "jget ''valueType'' raw = jget ''valueType'' old" "jget ''required'' raw = jget ''required'' old"
    "jget ''onError'' raw = jget ''onError'' old" "jget ''multipleMatchPolicy'' raw = jget ''multipleMatchPolicy'' old"
    using assms(2) by (simp_all add: semantics_of_def)
  obtain t where t: "jget ''valueType'' old = JStr t" "t \<in> set value_types"
    using assms(3) by (cases "jget ''valueType'' old") (auto simp: semantics_ok_def text_of_def json_text_def value_types_def)
  obtain b where b: "jget ''required'' old = JBool b" using assms(3) by (auto simp: semantics_ok_def)
  obtain e where e: "jget ''onError'' old = JStr e" "e \<in> {''fail_run'', ''reject_item'', ''null''}" "e = ''null'' \<longrightarrow> \<not> b"
    using assms(3) b by (auto simp: semantics_ok_def)
  obtain p where p: "jget ''multipleMatchPolicy'' old = JStr p" "p \<in> {''error'', ''first''}"
    using assms(3) by (auto simp: semantics_ok_def)
  have "normal_type shown key raw = t"
    using t(2) value_types_settled [OF t(2)] by (simp add: normal_type_def same t(1) str_or_JStr)
  moreover have "map_of raw ''required'' = Some (JBool b)"
    using same(2) b by (cases "map_of raw ''required''") (simp_all add: jget_def)
  moreover have "normal_on_error shown b (JStr e) = e"
    using e(2,3) by (elim insertE emptyE) (simp_all add: normal_on_error_def str_or_JStr Let_def)
  moreover have "(if str_or shown (JStr p) ''first'' = ''error'' then ''error'' else ''first'') = p"
    using p(2) by (elim insertE emptyE) (simp_all add: str_or_JStr)
  ultimately show ?thesis
    using assms(1) same t(1) b e(1) p(1)
    by (elim normal_field_parts) (simp add: semantics_of_def truthy_def)
qed

text \<open>Output fields whose names stand for themselves come out under the same names.\<close>

lemma output_fields_names:
  assumes "output_fields shown expected response kvs acc = Inr fs"
    and "distinct (map fst (acc @ kvs))" "\<forall>(k, v) \<in> set kvs. resolve_canonical_key k expected = k"
  shows "\<exists>outs. fs = acc @ outs \<and> map fst outs = map fst kvs \<and>
    (\<forall>(k, v) \<in> set kvs. \<exists>f. normal_field shown k v response = Inr f \<and> (k, JObj (labelled k k f)) \<in> set outs)"
  using assms
proof (induction kvs arbitrary: acc)
  case (Cons kv kvs)
  obtain k v where kv: "kv = (k, v)" by force
  have key: "resolve_canonical_key k expected = k" using Cons.prems(3) kv by simp
  have new: "k \<notin> fst ` set acc" using Cons.prems(2) kv by auto
  obtain f where f: "normal_field shown k v response = Inr f"
    and rest: "output_fields shown expected response kvs (acc @ [(k, JObj (labelled k k f))]) = Inr fs"
    using Cons.prems(1) unfolding kv output_fields.simps Let_def and_then_Inr key dict_set_fresh [OF new] by blast
  obtain outs where "fs = (acc @ [(k, JObj (labelled k k f))]) @ outs" "map fst outs = map fst kvs"
    "\<forall>(k, v) \<in> set kvs. \<exists>f. normal_field shown k v response = Inr f \<and> (k, JObj (labelled k k f)) \<in> set outs"
    using Cons.IH [OF rest] Cons.prems(2,3) kv by auto
  then show ?case
    using f kv by (intro exI [of _ "(k, JObj (labelled k k f)) # outs"]) auto
qed simp

lemma repaired_plan_parts:
  assumes "repaired_plan shown old answer = Inr plan"
    and details: "details = fields_of (part_of ''detail'' (part_of ''collect'' old))" "details \<noteq> []"
    and expected: "expected = repair_expected (fields_of (part_of ''list'' (part_of ''collect'' old))) details"
  obtains response outs where "fields_of (part_of ''detail'' plan) = outs"
    "output_fields shown expected response
       (merged_fields shown details (fields_of (part_of ''detail'' (obj_of answer)))) [] = Inr outs"
proof -
  define lfs where "lfs = fields_of (part_of ''list'' (part_of ''collect'' old))"
  define moved where "moved = merged_fields shown details (fields_of (part_of ''detail'' (obj_of answer)))"
  define draft where "draft = repair_discovery shown old (obj_of answer) (merged_fields shown lfs (fields_of (part_of ''list'' (obj_of answer))))"
  obtain discovery where discovery: "normalize_discovery_plan shown draft expected = Inr discovery"
    and plan: "normalize_rule_plan shown (repair_raw shown old (obj_of answer) discovery moved) discovery expected = Inr plan"
    using assms(1) unfolding repaired_plan_def Let_def details(1) [symmetric] lfs_def [symmetric] moved_def [symmetric]
      draft_def [symmetric] expected [folded lfs_def, symmetric]
    by (auto simp: and_then_Inr split: if_split_asm)
  have some: "part_of ''detail'' (part_of ''collect'' old) \<noteq> []" using details by (auto simp: fields_of_def obj_of_def)
  then have "jget ''mode'' draft = JStr ''list_detail''" by (simp add: draft_def repair_discovery_def Let_def)
  then have two: "mode_of discovery = ''list_detail''"
    using discovery by (elim normalize_discovery_parts) (simp add: mode_of_def str_or_JStr)
  have detail: "obj_of (jget ''detail'' (repair_raw shown old (obj_of answer) discovery moved)) =
      [(''responseType'', JStr (str_or shown (jget ''responseType'' (part_of ''detail'' (part_of ''collect'' old))) ''html'')), (''fields'', JObj moved)]"
    using some by (simp add: repair_raw_def Let_def)
  show thesis
  proof (rule normalize_rule_plan_parts [OF plan discovered_normal [OF discovery]])
    fix n stage out_raw response outs
    assume n: "discovered n" "jget ''mode'' n = jget ''mode'' discovery"
      and stage: "list_pagination shown (repair_raw shown old (obj_of answer) discovery moved) discovery (list_of n) = Inr stage"
      and outs: "output_fields shown expected response (fields_of out_raw) [] = Inr outs"
      and raw: "out_raw = (if mode_of n = ''list_detail'' then obj_of (jget ''detail'' (repair_raw shown old (obj_of answer) discovery moved)) else stage)"
      and whole: "assembled_plan shown (repair_raw shown old (obj_of answer) discovery moved) n expected stage out_raw response outs = Inr plan"
    have two': "mode_of n = ''list_detail''" using two n(2) by (simp add: mode_of_def)
    have ok: "stage_ok (list_of n)" "stage_ok (list_of discovery)"
      using n(1) discovered_normal [OF discovery] by (simp_all add: discovered_def)
    note s = list_pagination_ok [OF stage ok]
    have handoff: "''detailUrl'' \<in> fst ` set (fields_of stage)" using n(1) s(2) two' by (simp add: discovered_def)
    have "fields_of (part_of ''detail'' plan) = outs"
      using assembled_plan_ok(5) [OF whole s(1) output_fields_ok [OF outs fields_ok_Nil] handoff] two' by simp
    moreover have "fields_of out_raw = moved" using raw two' detail by (simp add: fields_of_def)
    ultimately show thesis using outs that unfolding moved_def by simp
  qed
qed

text \<open>
  C40. Repairing a two-stage rule keeps its data contract: when the old output fields have distinct
  names that stand for themselves among the old names, and well-formed semantics (a known type, a
  boolean required flag, a listed error policy that does not drop a required value and a listed
  match policy; nothing is asked of selectors, transforms or labels), the repaired plan has
  exactly the output fields of the old rule, in order, and each keeps its value type, required
  flag, error policy and match policy, whatever the model answered.
\<close>

theorem repair_keeps_output_fields:
  assumes plan: "repaired_plan shown old answer = Inr plan"
    and details: "details = fields_of (part_of ''detail'' (part_of ''collect'' old))" "details \<noteq> []" "distinct (map fst details)"
    and semantics: "\<forall>(k, v) \<in> set details. semantics_ok (obj_of v)"
    and names: "\<forall>(k, v) \<in> set details. resolve_canonical_key k (repair_expected (fields_of (part_of ''list'' (part_of ''collect'' old))) details) = k"
  shows "map fst (fields_of (part_of ''detail'' plan)) = map fst details \<and>
    (\<forall>(k, v) \<in> set details. semantics_of (obj_of (jget k (fields_of (part_of ''detail'' plan)))) = semantics_of (obj_of v))"
proof (rule repaired_plan_parts [OF plan details(1,2) refl])
  fix response outs
  let ?expected = "repair_expected (fields_of (part_of ''list'' (part_of ''collect'' old))) details"
  let ?answer = "fields_of (part_of ''detail'' (obj_of answer))"
  assume eq: "fields_of (part_of ''detail'' plan) = outs"
    and outs: "output_fields shown ?expected response (merged_fields shown details ?answer) [] = Inr outs"
  have keys: "map fst (merged_fields shown details ?answer) = map fst details"
    by (auto simp: merged_fields_def merged_field_def Let_def)
  have resolved: "\<forall>(k, v) \<in> set (merged_fields shown details ?answer). resolve_canonical_key k ?expected = k"
    using names by (auto simp: merged_fields_def merged_field_def Let_def)
  have distinct: "distinct (map fst ([] @ merged_fields shown details ?answer))" using details(3) keys by simp
  have o: "map fst outs = map fst details"
    "\<forall>(k, v) \<in> set (merged_fields shown details ?answer). \<exists>f. normal_field shown k v response = Inr f \<and> (k, JObj (labelled k k f)) \<in> set outs"
    using output_fields_names [OF outs distinct resolved] keys by auto
  have "semantics_of (obj_of (jget k outs)) = semantics_of (obj_of v)" if kv: "(k, v) \<in> set details" for k v
  proof -
    obtain g where m: "merged_field shown ?answer (k, v) = (k, JObj g)" "semantics_of g = semantics_of (obj_of v)"
      using merged_field_semantics by blast
    have "(k, JObj g) \<in> set (merged_fields shown details ?answer)"
      using kv m(1) by (force simp: merged_fields_def)
    then obtain f where f: "normal_field shown k (JObj g) response = Inr f" "(k, JObj (labelled k k f)) \<in> set outs" using o(2) by blast
    have "jget k outs = JObj (labelled k k f)"
      using f(2) o(1) details(3) by (simp add: jget_def map_of_eq_Some_iff)
    moreover have "semantics_ok (obj_of v)" using kv semantics by blast
    ultimately show ?thesis using normal_field_semantics [OF f(1) m(2)] by (simp add: semantics_of_labelled)
  qed
  then show ?thesis using eq o(1) by auto
qed

subsection \<open>A source, its plan and its repair\<close>

definition sample_listing :: fields where
  "sample_listing = [(''mode'', JStr ''list_detail''), (''transport'', JStr ''http''),
     (''list'', JObj [(''itemsSelector'', JStr ''css:li''),
        (''fields'', JObj [(''title'', JObj [(''selector'', JStr ''css:a::text'')]),
                           (''detailUrl'', JObj [(''selector'', JStr ''css:a''), (''valueType'', JStr ''url'')])]),
        (''pagination'', JObj [(''type'', JStr ''next''), (''selector'', JStr ''a.next''), (''maxPages'', JNum 5)])])]"

definition sample_answer :: fields where
  "sample_answer = [(''detail'', JObj [(''fields'', JObj [(''title'', JObj [(''selector'', JStr ''css:h1::text'')])])]),
     (''bindings'', JObj [(''detailUrl'', JStr ''list.detailUrl''), (''title'', JStr ''detail.title'')]),
     (''identityFields'', JArr [JStr ''title'', JStr ''detail_url'']), (''rationale'', JStr ''r'')]"

definition sample_expected :: expected where
  "sample_expected = [(''title'', ''title''), (''detail_url'', ''URL'')]"

definition result_or :: "'a \<Rightarrow> 'e + 'a \<Rightarrow> 'a" where
  "result_or d r = (case r of Inl _ \<Rightarrow> d | Inr x \<Rightarrow> x)"

definition sample_discovery :: fields where
  "sample_discovery = [(''mode'', JStr ''list_detail''), (''transport'', JStr ''http''),
     (''list'', JObj [(''responseType'', JStr ''html''), (''itemsSelector'', JStr ''css:li''),
        (''fields'', JObj
           [(''title'', JObj [(''selector'', JStr ''css:a::text''), (''valueType'', JStr ''string''), (''required'', JBool True),
               (''onError'', JStr ''reject_item''), (''multipleMatchPolicy'', JStr ''first''), (''transforms'', JArr [JStr ''trim''])]),
            (''detailUrl'', JObj [(''selector'', JStr ''css:a::attr(href)''), (''valueType'', JStr ''url''), (''required'', JBool True),
               (''onError'', JStr ''reject_item''), (''multipleMatchPolicy'', JStr ''first''),
               (''transforms'', JArr [JStr ''trim'', JStr ''absolute_url''])])]),
        (''pagination'', JObj [(''type'', JStr ''next_link''), (''selector'', JStr ''css:a.next''), (''maxPages'', JNum 5),
                               (''allowCrossHost'', JBool False)])])]"

definition sample_plan :: fields where
  "sample_plan = result_or [] (normalize_rule_plan (\<lambda>_. []) sample_answer sample_discovery sample_expected)"

lemma result_or_Inr: "isl r = False \<Longrightarrow> r = Inr (result_or d r)"
  by (cases r) (simp_all add: result_or_def)

lemma sample_discovered: "normalize_discovery_plan (\<lambda>_. []) sample_listing [] = Inr sample_discovery"
  by code_simp

lemma sample_planned: "normalize_rule_plan (\<lambda>_. []) sample_answer sample_discovery sample_expected = Inr sample_plan"
  unfolding sample_plan_def by (rule result_or_Inr) code_simp

theorem normalized_plan_constrained_witness:
  "plan_ok sample_plan \<and> jget ''mode'' sample_plan = JStr ''list_detail'' \<and> jget ''transport'' sample_plan = JStr ''http''"
proof -
  have "jget ''mode'' sample_discovery = JStr ''list_detail''" "jget ''transport'' sample_discovery = JStr ''http''"
    by (simp_all add: sample_discovery_def)
  then show ?thesis using normalized_plan_constrained [OF sample_discovered sample_planned] by simp
qed

theorem answer_cannot_drift_listing_witness:
  "jget ''detailUrl'' (fields_of (list_of sample_plan)) =
     jget ''detailUrl'' (fields_of (list_of (result_or [] (fixed_discovery (\<lambda>_. []) sample_discovery))))"
proof -
  have "fixed_discovery (\<lambda>_. []) sample_discovery = Inr (result_or [] (fixed_discovery (\<lambda>_. []) sample_discovery))"
    by (rule result_or_Inr) code_simp
  moreover have "mode_of sample_discovery = ''list_detail''" by (simp add: mode_of_def sample_discovery_def)
  ultimately show ?thesis using answer_cannot_drift_listing [OF sample_discovered _ _ sample_planned] by blast
qed

text \<open>
  A single-stage plan whose names do not stand for themselves: normalizing the listing with the
  expected fields turns \<open>person\<close> into \<open>name\<close>, whose label it is, and normalizing the output
  turns \<open>name\<close>, an alias, into \<open>title\<close>. The plan extracts \<open>title\<close> only and binds the title
  to \<open>list.name\<close>.
\<close>

definition person_expected :: expected where
  "person_expected = [(''title'', ''Title''), (''name'', ''person'')]"

definition person_answer :: fields where
  "person_answer = [(''mode'', JStr ''single''),
     (''list'', JObj [(''fields'', JObj [(''person'', JObj [(''selector'', JStr ''css:b'')])])]), (''rationale'', JStr ''r'')]"

definition person_plan :: "py_exc + fields" where
  "person_plan = and_then (normalize_discovery_plan (\<lambda>_. []) person_answer []) (\<lambda>discovery.
     normalize_rule_plan (\<lambda>_. []) person_answer discovery person_expected)"

lemma single_plan_binding_dangles:
  "case person_plan of
     Inl _ \<Rightarrow> False
   | Inr plan \<Rightarrow> mode_of plan = ''single'' \<and> map fst (fields_of (list_of plan)) = [''title''] \<and>
       jget ''title'' (part_of ''bindings'' plan) = JStr ''list.name''"
  by code_simp

text \<open>
  A rule compiled from such a plan (the proven URL is projected into its business field
  \<open>detail_url\<close>), and an answer that moves every selector.
\<close>

definition sample_field :: "string \<Rightarrow> string \<Rightarrow> bool \<Rightarrow> fields" where
  "sample_field selector type required =
     [(''selector'', JStr selector), (''valueType'', JStr type), (''required'', JBool required), (''onError'', JStr ''reject_item''),
      (''multipleMatchPolicy'', JStr ''first''), (''transforms'', JArr (if type = ''url'' then [JStr ''absolute_url''] else [])), (''label'', JStr ''x'')]"

definition sample_rule :: fields where
  "sample_rule =
     [(''collect'', JObj
        [(''list'', JObj
           [(''responseType'', JStr ''html''), (''itemsSelector'', JStr ''css:li''),
            (''fields'', JObj [(''detailUrl'', JObj (sample_field ''css:a::attr(href)'' ''url'' True)),
                               (''detail_url'', JObj (sample_field ''css:a::attr(href)'' ''url'' True))])]),
         (''detail'', JObj [(''responseType'', JStr ''html''),
            (''fields'', JObj [(''title'', JObj (sample_field ''css:h1::text'' ''string'' True)),
                               (''amount'', JObj (sample_field ''css:b::text'' ''number'' False))])])]),
      (''contract'', JObj [(''identityFields'', JArr [JStr ''title'', JStr ''detail_url'']), (''fingerprintFields'', JArr [JStr ''title''])])]"

definition sample_repair :: json where
  "sample_repair = JObj
     [(''list'', JObj [(''fields'', JObj [(''detailUrl'', JStr ''b a''), (''detail_url'', JStr ''b a'')])]),
      (''detail'', JObj [(''fields'', JObj [(''title'', JStr ''h2''), (''amount'', JStr ''i'')])]), (''rationale'', JStr ''r'')]"

definition sample_repaired :: fields where
  "sample_repaired =
     [(''schemaVersion'', JStr ''extrio.rule-plan.v1''), (''mode'', JStr ''list_detail''), (''transport'', JStr ''browser''),
      (''list'', JObj [(''responseType'', JStr ''html''), (''itemsSelector'', JStr ''css:li''),
         (''fields'', JObj [(''detailUrl'', JObj (sample_field ''css:b a::attr(href)'' ''url'' True))]),
         (''pagination'', JObj [(''type'', JStr ''none'')])]),
      (''bindings'', JObj [(''detailUrl'', JStr ''list.detailUrl''), (''title'', JStr ''detail.title'')]),
      (''identityFields'', JArr [JStr ''title'']), (''fingerprintFields'', JArr [JStr ''title'', JStr ''amount'']),
      (''rationale'', JStr ''r''),
      (''detail'', JObj [(''responseType'', JStr ''html''),
         (''fields'', JObj [(''title'', JObj (sample_field ''css:h2::text'' ''string'' True)),
                            (''amount'', JObj (sample_field ''css:i::text'' ''number'' False))])])]"

definition sample_details :: fields where
  "sample_details = fields_of (part_of ''detail'' (part_of ''collect'' sample_rule))"

lemma sample_repaired: "repaired_plan (\<lambda>_. []) sample_rule sample_repair = Inr sample_repaired"
  by code_simp

lemma sample_details:
  "sample_details = [(''title'', JObj (sample_field ''css:h1::text'' ''string'' True)), (''amount'', JObj (sample_field ''css:b::text'' ''number'' False))]"
  by (simp add: sample_details_def sample_rule_def part_of_def fields_of_def)

lemma sample_field_ok: "selector \<in> {''css:h1::text'', ''css:b::text''} \<Longrightarrow> type \<in> {''string'', ''number''} \<Longrightarrow> field_ok (sample_field selector type b)"
  by (cases b) (auto simp: field_ok_def sample_field_def prefixed_def starts_with_def value_types_def array_of_def)

theorem repair_keeps_output_fields_witness:
  "map fst (fields_of (part_of ''detail'' sample_repaired)) = [''title'', ''amount''] \<and>
   semantics_of (obj_of (jget ''amount'' (fields_of (part_of ''detail'' sample_repaired)))) =
     [JStr ''number'', JBool False, JStr ''reject_item'', JStr ''first'']"
proof -
  have ok: "distinct (map fst sample_details)" "\<forall>(k, v) \<in> set sample_details. semantics_ok (obj_of v)"
    by (simp_all add: sample_details field_ok_semantics sample_field_ok)
  have old: "fields_of (part_of ''list'' (part_of ''collect'' sample_rule)) =
      [(''detailUrl'', JObj (sample_field ''css:a::attr(href)'' ''url'' True)), (''detail_url'', JObj (sample_field ''css:a::attr(href)'' ''url'' True))]"
    by (simp add: sample_rule_def part_of_def fields_of_def)
  have "list_all (\<lambda>k. resolve_canonical_key k [(''detailUrl'', []), (''detail_url'', []), (''title'', []), (''amount'', [])] = k) [''title'', ''amount'']"
    by code_simp
  then have names: "\<forall>(k, v) \<in> set sample_details.
      resolve_canonical_key k (repair_expected (fields_of (part_of ''list'' (part_of ''collect'' sample_rule))) sample_details) = k"
    by (simp add: old sample_details repair_expected_def)
  have "sample_details \<noteq> []" by (simp add: sample_details)
  from repair_keeps_output_fields [OF sample_repaired sample_details_def this ok names] show ?thesis
    by (simp add: sample_details sample_field_def semantics_of_def)
qed

text \<open>
  The listing is another matter: the projected business field \<open>detail_url\<close> resolves to the
  \<open>detailUrl\<close> before it, so the repaired rule no longer extracts it while the contract that is put
  back verbatim still identifies items by it.
\<close>

lemma repair_loses_projected_url:
  "map fst (fields_of (list_of sample_repaired)) = [''detailUrl''] \<and>
   ''detail_url'' \<notin> fst ` set (fields_of (part_of ''detail'' sample_repaired)) \<and>
   ''detail_url'' \<in> set (texts_of (jget ''identityFields'' (part_of ''contract'' (result_or [] (apply_repair_contract (\<lambda>_. []) spec sample_rule)))))"
proof -
  have "map fst (fields_of (list_of sample_repaired)) = [''detailUrl'']"
    by (simp add: sample_repaired_def list_of_def fields_of_def)
  moreover have "''detail_url'' \<notin> fst ` set (fields_of (part_of ''detail'' sample_repaired))"
    by (simp add: sample_repaired_def part_of_def fields_of_def)
  moreover have "''detail_url'' \<in> set (texts_of (jget ''identityFields'' (part_of ''contract'' (result_or [] (apply_repair_contract (\<lambda>_. []) spec sample_rule)))))" for spec
    by (simp add: apply_repair_contract_def result_or_def sample_rule_def part_of_def Let_def texts_of_def starts_with_def text_of_def json_text_def obj_of_def truthy_def)
  ultimately show ?thesis by blast
qed

end
