(* ===== verification/Spec2Isabelle.thy ===== *)
theory Spec2Isabelle
  imports Model_Budget Signing_Keys Receipts Job_Safety Delivery_Safety Run_Safety Account_Safety Client_Identity Catalog_Safety
    Item_Pages Outcome_Safety Crawl_Safety Publishing_Safety
    Egress_Safety Harvest_Safety Rule_Plans_Safety
begin

text \<open>
  A verification library of the extrio backend (Python, \<open>src/backend/src/extrio\<close>).

  \<^bold>\<open>The program.\<close> Extrio collects public notices: collectors (sources) belong to collections with
  published field versions; a source is explored by an AI run into a candidate rule, the rule is
  signed and published, schedules and commands start runs of it, a worker carries the runs out,
  stores the items and delivers new and changed ones to webhooks. All state is in one database;
  every operation of the core is a transaction over it (\<open>store.py\<close>), called from the HTTP
  handlers (\<open>app.py\<close>), the worker (\<open>worker.py\<close>), the scheduler and the recovery loop.

  \<^bold>\<open>How it is modelled.\<close> The database is the record \<open>db\<close> of tables (Store_Model, Database): a
  table is the list of its rows in insertion order, a row a record, a document a record of the
  fields the code reads and writes. A transaction is a function from the database and the
  arguments to \<open>py_exc + result\<close>: \<open>Inl e\<close> is an exception (the transaction is rolled back, so
  the database stays), \<open>Inr\<close> carries the new database. \<open>and_then\<close> and \<open>unless\<close> (Prelude) chain
  statements that may raise. Time is an integer of microseconds; timestamps compare as their
  ISO texts do (\<open>tle\<close>, \<open>tlt\<close>, \<open>iso_key\<close>; Iso_Time proves in which way this is the order of the
  instants). A transaction reads the clock once. JSON is the datatype \<open>json\<close>.

  \<^bold>\<open>Arguments of the model.\<close> What lies outside the repository, or is random, is an argument:
  fresh ids and lease tokens, the hash of texts and of JSON (\<open>ph\<close>, \<open>th\<close>), RFC 8785 text
  (\<open>canon\<close>), signature verification (\<open>verifier\<close>), cron (\<open>cron_valid\<close>, \<open>next_time\<close>), the clock,
  password hashing and token digests, URL host extraction, the HTTP request of a webhook, the
  exploration a job carries out, the public JSON views of documents; for a crawl the record
  \<open>web\<close> (fetching a page, the records and items of its text, publisher checks, dates), for
  signing the record \<open>crypto\<close>; for the network the record \<open>internet\<close> (name resolution, what a
  pinned connection answers, decoders, robots rules) and \<open>ip_library\<close> (Python's \<open>ipaddress\<close>); for
  extraction the record \<open>extractor\<close> (what selectors match, regular expressions, number and date
  parsing, JSON schemas); \<open>shower\<close> is \<open>str\<close> of a JSON value, and the answer of a model is data.

  \<^bold>\<open>Parts.\<close>
  \<^item> Prelude, Texts, Iso_Time, Leases: tables, the locale \<open>step_machine\<close> (an invariant and a
    progress measure of a step function, proved once for every history), ids and texts,
    timestamps, the locale \<open>lease_discipline\<close> that jobs and deliveries share.
  \<^item> Store_Model, Database, Collectors, Activity: documents, tables, the collector lock and its
    optimistic write, history ownership, operations with their phase history (\<open>store.py\<close>,
    \<open>collection_workflows.py\<close>, \<open>collector_history.py\<close>).
  \<^item> Ai_Runs, Audit_Log, Signing_Keys, Receipts, Model_Budget: AI runs with attempts and usage, the
    hash-chained audit log, signing keys, idempotency receipts (locale \<open>idempotent_command\<close>),
    the budget of model calls (\<open>model_budget.py\<close>).
  \<^item> Jobs, Job_Safety: commands, claims, leases, progress, failure, cancellation; Job_Safety is
    the history of the queue: exclusive claims, cancellation, finality of outcomes.
  \<^item> Deliveries, Webhook, Delivery_Safety: sinks, outbox, leased dispatch, retries (\<open>delivery.py\<close>);
    a dispatch is a plan, a request and the transaction that settles it, and the outbox history
    interleaves these with claims and redeliveries.
  \<^item> Policies, Schedules, Coverage: policy versions and checkpoints, schedules and their
    occurrences, resumable listing progress (\<open>coverage.py\<close>).
  \<^item> Recovery, Recovery_Safety, Runs, Run_Safety: bounded recovery (\<open>bounded_recovery.py\<close>), the start
    of a run (\<open>app.create_run_operation\<close>) and the dispatch of occurrences; the locale
    \<open>batch_keeping_starter\<close> is what recovery needs of the start of a run.
  \<^item> Items, Item_Cursor, Item_Pages: the items of runs, entity view, search, cursors and pages.
  \<^item> Crawl, Crawl_Safety: the traversal of a source (\<open>runtime.py\<close>): limits, window, order checks,
    resumption, coverage, details and the result of the run.
  \<^item> Urls, Url_Safety, Source_Network, Egress_Safety: \<open>urlsplit\<close> and source addresses
    (\<open>security.py\<close>), every request to a source: checked and pinned targets, byte and decoding
    limits, redirects, robots, rate limits (\<open>source_network.py\<close>).
  \<^item> Harvest, Harvest_Safety: from a page and a list row to an item (\<open>harvest.py\<close>): fields,
    transforms, coercion, merging of stages, contract, identity and entity key.
  \<^item> Rule_Plans, Rule_Plans_Safety: from the untrusted answer of a model to a constrained rule
    plan, and the merging of a repair into the old rule (\<open>model_gateway.py\<close>).
  \<^item> Integrity, Publishing, Publishing_Safety: rule digests and attestations (\<open>integrity.py\<close>), the
    review and the transaction that publishes a rule (\<open>app.py\<close>, \<open>store.publish_rule_bundle\<close>).
  \<^item> Execution, Execution_Safety, Outcome_Safety: the worker's transactions: the checks before a
    run, classification, publication of runs and explorations, deliveries, the pause.
  \<^item> Collection_Fields, Collections, Lifecycle, Reassignment, Source_Edits, Management,
    Catalog_Safety: field drafts and contracts, collections and versions, the reviewed
    management commands as one family, and the catalog over any history of them.
  \<^item> Accounts, Account_Safety, Client_Identity: users, sessions, roles, login windows and the
    client address behind proxies (\<open>auth.py\<close>, \<open>security.py\<close>), with authentication switched on or
    off by the deployment.

  \<^bold>\<open>What is shown.\<close> For the state machines (queue, outbox, AI runs, audit log, keys, budget,
  policies, schedules, recovery, accounts, catalog) an invariant over every history of their
  operations and what it gives: exclusive ownership, finality, append-only histories, bounds on
  attempts, retries, budgets and login rates. For the operations that compose them: the final
  transaction of a run refines the abstract success of a claim and publishes run, items,
  checkpoint and deliveries together; change types are exactly what the store says; repeated
  content changes nothing; a walk through the pages is complete; every management command
  takes effect once. For a crawl: it stays within its limits, and when it calls its coverage
  complete no record of the window is missing. For rules: only reviewed candidates are
  published, what is published passes the check runs start with, and an attested specification
  cannot be exchanged. For the network: every request of any history of fetches goes to a
  permitted address, a received 429 answer ends the traffic (one refused while it
  is received does not), and a crawled page is a permitted answer
  within the limits. For items: an accepted one is complete, and one entity met twice blocks the
  run. For model answers: a plan stays in the constrained dialect, cannot drift the validated
  listing, and a repair keeps the output fields; the names a single-stage plan uses may dangle. For texts and codes: accepted source addresses parse again, cursors round-trip, search is substring search, field
  contracts round-trip, drafts are accepted exactly when well formed.

  \<^bold>\<open>Bounds.\<close> Only \<open>walk_items\<close> takes fuel: one unit per page, and the theorem about it supplies the
  number of full pages plus one; \<open>fetch_hops\<close> takes the number of hops the code's redirect limit
  leaves, and \<open>crawl_pages\<close> the list pages still allowed, as their recursion. All other definitions are total by structural recursion or a
  measure.

  \<^bold>\<open>Not modelled.\<close> HTTP routing, rendering, configuration, the command line and the web front end
  (input and output only); prompts and model providers, HTML and PDF parsing, the browser, the
  spacing of requests in time, page evidence and document downloads (third-party packages and
  services, arguments where their results are used); the scripts for particular tender sources;
  SQL dialects and migrations. Simplifications: Chinese messages are replaced by short ASCII
  texts or left out, an absent key reads as null, random ids are assumed fresh where a
  theorem says so, foreign keys are not checked, texts are lists of 8-bit characters (case
  folding and white space beyond ASCII, lone surrogates are out), JSON numbers are integers,
  a sink whose secret
  cannot be decrypted fails at the request, and a cursor nested so deeply that the JSON parser runs out of stack counts as malformed.
\<close>

end
